(* ===== verification/Prelude.thy ===== *)
theory Prelude
  imports Main "HOL-Library.Char_ord" "HOL-Library.List_Lexorder" "HOL-Library.Product_Lexorder"
begin

text \<open>
  Shared vocabulary of the development: results of fallible Go functions, the SQL statements the
  Go code embeds (as functions on tables, a table being the list of its rows in insertion order),
  driver failures as an oracle indexed by the number of the statement inside an operation, and two
  generic contracts (\<open>key_preserving\<close> for row updates, \<open>invariant_system\<close> for step relations) that
  the component theories interpret.
\<close>

section \<open>Rewrite collections\<close>

named_theorems sql_simps \<open>equations that compute SQL statements on tables\<close>
named_theorems key_simps \<open>row updates that keep the primary key\<close>

section \<open>Fallible results\<close>

type_synonym ('e, 'a) result = "'e + 'a"

text \<open>
  A Go \<^verbatim>\<open>database/sql\<close> operation runs a fixed sequence of statements (BEGIN and COMMIT
  included).  \<open>io i\<close> is the driver error of the \<open>i\<close>-th statement of one call, \<open>None\<close> when it
  succeeds.
\<close>

type_synonym io = "nat \<Rightarrow> string option"

definition no_fault :: io where
  "no_fault = (\<lambda>_. None)"

lemma no_fault_apply [simp]: "no_fault i = None"
  by (simp add: no_fault_def)

section \<open>SQL statements on tables\<close>

definition select_where :: "('r \<Rightarrow> bool) \<Rightarrow> 'r list \<Rightarrow> 'r list" where
  "select_where P t = filter P t"

definition count_where :: "('r \<Rightarrow> bool) \<Rightarrow> 'r list \<Rightarrow> nat" where
  "count_where P t = length (filter P t)"

definition update_where :: "('r \<Rightarrow> bool) \<Rightarrow> ('r \<Rightarrow> 'r) \<Rightarrow> 'r list \<Rightarrow> 'r list" where
  "update_where P f t = map (\<lambda>r. if P r then f r else r) t"

definition delete_where :: "('r \<Rightarrow> bool) \<Rightarrow> 'r list \<Rightarrow> 'r list" where
  "delete_where P t = filter (\<lambda>r. \<not> P r) t"

text \<open>\<open>exists_where\<close> is \<^verbatim>\<open>EXISTS (SELECT 1 \<dots>)\<close>; rows affected is \<open>count_where\<close>.\<close>

definition exists_where :: "('r \<Rightarrow> bool) \<Rightarrow> 'r list \<Rightarrow> bool" where
  "exists_where P t = list_ex P t"

text \<open>
  \<^verbatim>\<open>ORDER BY k ASC\<close>: a stable sort, so that rows with equal keys keep their rowid order, the
  order in which SQLite walks the index that serves the query.
\<close>

definition order_by :: "('r \<Rightarrow> 'k::linorder) \<Rightarrow> 'r list \<Rightarrow> 'r list" where
  "order_by k t = sort_key k t"

text \<open>\<^verbatim>\<open>LIMIT n\<close>: a negative bound means no bound in SQLite.\<close>

definition sql_limit :: "int \<Rightarrow> 'r list \<Rightarrow> 'r list" where
  "sql_limit n t = (if n < 0 then t else take (nat n) t)"

text \<open>
  \<^verbatim>\<open>INSERT \<dots> ON CONFLICT(key) DO UPDATE SET \<dots>\<close>: the conflicting row is replaced by \<open>f old new\<close>;
  and \<^verbatim>\<open>\<dots> DO NOTHING\<close>.
\<close>

definition upsert :: "('r \<Rightarrow> 'k) \<Rightarrow> ('r \<Rightarrow> 'r \<Rightarrow> 'r) \<Rightarrow> 'r \<Rightarrow> 'r list \<Rightarrow> 'r list" where
  "upsert key f new t =
     (if exists_where (\<lambda>r. key r = key new) t
      then update_where (\<lambda>r. key r = key new) (\<lambda>r. f r new) t
      else t @ [new])"

definition insert_ignore :: "('r \<Rightarrow> 'k) \<Rightarrow> 'r \<Rightarrow> 'r list \<Rightarrow> 'r list" where
  "insert_ignore key new t =
     (if exists_where (\<lambda>r. key r = key new) t then t else t @ [new])"

definition find_row :: "('r \<Rightarrow> 'k) \<Rightarrow> 'k \<Rightarrow> 'r list \<Rightarrow> 'r option" where
  "find_row key k t = List.find (\<lambda>r. key r = k) t"

lemmas sql_defs = select_where_def count_where_def update_where_def delete_where_def
  exists_where_def sql_limit_def

subsection \<open>Laws of the statements\<close>

lemma exists_where_iff [sql_simps]: "exists_where P t \<longleftrightarrow> (\<exists>r\<in>set t. P r)"
  by (simp add: exists_where_def list_ex_iff)

lemma set_select_where [sql_simps]: "set (select_where P t) = {r \<in> set t. P r}"
  by (simp add: select_where_def)

lemma set_delete_where [sql_simps]: "set (delete_where P t) = {r \<in> set t. \<not> P r}"
  by (simp add: delete_where_def)

lemma set_order_by [sql_simps]: "set (order_by k t) = set t"
  by (simp add: order_by_def)

lemma length_order_by [sql_simps]: "length (order_by k t) = length t"
  by (simp add: order_by_def)

lemma order_by_nil_iff [sql_simps]: "order_by k t = [] \<longleftrightarrow> t = []"
  by (metis length_0_conv length_order_by)

lemma sorted_order_by: "sorted (map k (order_by k t))"
  by (simp add: order_by_def)

lemma set_update_where [sql_simps]:
  "set (update_where P f t) = f ` {r \<in> set t. P r} \<union> {r \<in> set t. \<not> P r}"
  by (auto simp: update_where_def)

lemma ball_update_where [sql_simps]:
  "(\<forall>r\<in>set (update_where P f t). Q r) \<longleftrightarrow> (\<forall>r\<in>set t. Q (if P r then f r else r))"
  unfolding update_where_def set_map by (rule ball_simps)

lemma length_update_where [sql_simps]: "length (update_where P f t) = length t"
  by (simp add: update_where_def)

lemma count_where_zero [sql_simps]: "count_where P t = 0 \<longleftrightarrow> (\<forall>r\<in>set t. \<not> P r)"
  by (simp add: count_where_def filter_empty_conv)

lemma count_where_pos [sql_simps]: "0 < count_where P t \<longleftrightarrow> (\<exists>r\<in>set t. P r)"
  using count_where_zero [of P t] by auto

lemma count_where_append [sql_simps]: "count_where P (xs @ ys) = count_where P xs + count_where P ys"
  by (simp add: count_where_def)

lemma count_where_Cons [sql_simps]:
  "count_where P (x # xs) = (if P x then Suc (count_where P xs) else count_where P xs)"
  by (simp add: count_where_def)

lemma count_where_Nil [sql_simps]: "count_where P [] = 0"
  by (simp add: count_where_def)

lemma update_where_id: "(\<And>r. r \<in> set t \<Longrightarrow> \<not> P r) \<Longrightarrow> update_where P f t = t"
  by (induction t) (auto simp: update_where_def)

lemma delete_where_id: "(\<And>r. r \<in> set t \<Longrightarrow> \<not> P r) \<Longrightarrow> delete_where P t = t"
  by (induction t) (auto simp: delete_where_def)

lemma update_where_nop: "(\<And>r. r \<in> set t \<Longrightarrow> P r \<Longrightarrow> f r = r) \<Longrightarrow> update_where P f t = t"
  by (induction t) (auto simp: update_where_def)

lemma order_by_hd_least:
  assumes "order_by k t = x # xs" and "r \<in> set t"
  shows "k x \<le> k r"
proof -
  have s: "sorted (map k (x # xs))" and m: "r \<in> set (x # xs)"
    using sorted_order_by [of k t] assms set_order_by [of k t] by simp_all
  then show ?thesis by auto
qed

section \<open>Primary keys\<close>

definition unique_key :: "('r \<Rightarrow> 'k) \<Rightarrow> 'r list \<Rightarrow> bool" where
  "unique_key key t \<longleftrightarrow> distinct (map key t)"

lemma unique_key_Nil [simp]: "unique_key key []"
  by (simp add: unique_key_def)

lemma unique_key_delete: "unique_key key t \<Longrightarrow> unique_key key (delete_where P t)"
  by (simp add: unique_key_def delete_where_def distinct_map_filter)

lemma unique_key_snoc:
  "unique_key key t \<Longrightarrow> \<not> exists_where (\<lambda>r. key r = key new) t \<Longrightarrow> unique_key key (t @ [new])"
  by (auto simp: unique_key_def exists_where_iff)

lemma unique_key_insert_ignore: "unique_key key t \<Longrightarrow> unique_key key (insert_ignore key new t)"
  by (simp add: insert_ignore_def unique_key_snoc)

lemma unique_keyD: "unique_key key t \<Longrightarrow> r \<in> set t \<Longrightarrow> s \<in> set t \<Longrightarrow> key r = key s \<Longrightarrow> r = s"
  unfolding unique_key_def distinct_map by (blast dest: inj_onD)

lemma insert_ignore_present [sql_simps]:
  "\<exists>r\<in>set (insert_ignore key new t). key r = key new"
  by (auto simp: insert_ignore_def exists_where_iff)

lemma set_insert_ignore_subset: "set t \<subseteq> set (insert_ignore key new t)"
  by (auto simp: insert_ignore_def)

lemma keys_insert_ignore [sql_simps]:
  "key ` set (insert_ignore key new t) = insert (key new) (key ` set t)"
  by (auto simp: insert_ignore_def exists_where_iff intro: rev_image_eqI)

lemma find_row_Some_iff:
  assumes "unique_key key t"
  shows "find_row key k t = Some r \<longleftrightarrow> r \<in> set t \<and> key r = k"
proof
  assume "find_row key k t = Some r"
  then show "r \<in> set t \<and> key r = k"
    by (auto simp: find_row_def find_Some_iff)
next
  assume r: "r \<in> set t \<and> key r = k"
  then obtain r' where f: "find_row key k t = Some r'"
    by (cases "find_row key k t") (auto simp: find_row_def find_None_iff)
  then have "r' \<in> set t" "key r' = k"
    by (auto simp: find_row_def find_Some_iff)
  with r assms show "find_row key k t = Some r"
    using unique_keyD [OF assms] f by blast
qed

lemma find_row_None_iff: "find_row key k t = None \<longleftrightarrow> (\<forall>r\<in>set t. key r \<noteq> k)"
  by (auto simp: find_row_def find_None_iff)

text \<open>An UPDATE whose SET list does not mention the key column keeps the key of every row.\<close>

locale key_preserving =
  fixes key :: "'r \<Rightarrow> 'k" and f :: "'r \<Rightarrow> 'r"
  assumes key_f: "key (f r) = key r"
begin

lemma map_key_update: "map key (update_where P f t) = map key t"
  by (simp add: update_where_def key_f)

lemma unique_key_update: "unique_key key t \<Longrightarrow> unique_key key (update_where P f t)"
  by (simp add: unique_key_def map_key_update)

lemma keys_update: "key ` set (update_where P f t) = key ` set t"
proof -
  have "set (map key (update_where P f t)) = set (map key t)"
    by (simp only: map_key_update)
  then show ?thesis by simp
qed

lemma find_row_update:
  "find_row key k (update_where P f t) =
     map_option (\<lambda>r. if P r then f r else r) (find_row key k t)"
  by (induction t) (auto simp: find_row_def update_where_def key_f)

end

lemma unique_key_upsert:
  assumes "\<And>r. key (f r new) = key r"
  shows "unique_key key t \<Longrightarrow> unique_key key (upsert key f new t)"
proof -
  assume u: "unique_key key t"
  have "map key (update_where (\<lambda>r. key r = key new) (\<lambda>r. f r new) t) = map key t"
    by (simp add: update_where_def assms)
  with u show ?thesis
    by (auto simp: upsert_def unique_key_snoc unique_key_def exists_where_iff)
qed

lemma keys_upsert:
  assumes "\<And>r. key (f r new) = key r"
  shows "key ` set (upsert key f new t) = insert (key new) (key ` set t)"
proof (cases "exists_where (\<lambda>r. key r = key new) t")
  case True
  have "map key (update_where (\<lambda>r. key r = key new) (\<lambda>r. f r new) t) = map key t"
    by (simp add: update_where_def assms)
  then have "key ` set (update_where (\<lambda>r. key r = key new) (\<lambda>r. f r new) t) = key ` set t"
    by (metis set_map)
  moreover have "key new \<in> key ` set t"
    using True by (auto simp: exists_where_iff intro: rev_image_eqI)
  ultimately show ?thesis using True by (simp add: upsert_def insert_absorb)
qed (simp add: upsert_def)

lemma upsert_lookup:
  assumes "\<And>r. key r = key new \<Longrightarrow> key (f r new) = key new"
  shows "find_row key (key new) (upsert key f new t) =
    Some (case find_row key (key new) t of None \<Rightarrow> new | Some r \<Rightarrow> f r new)"
proof (cases "exists_where (\<lambda>r. key r = key new) t")
  case True
  then have "find_row key (key new) (update_where (\<lambda>r. key r = key new) (\<lambda>r. f r new) t) =
    Some (case find_row key (key new) t of None \<Rightarrow> new | Some r \<Rightarrow> f r new)"
    using assms by (induction t) (auto simp: find_row_def update_where_def exists_where_def)
  with True show ?thesis by (simp add: upsert_def)
next
  case False
  then have "find_row key (key new) t = None"
    by (auto simp: find_row_None_iff exists_where_iff)
  moreover have "find_row key (key new) (t @ [new]) = Some new"
    using False by (induction t) (auto simp: find_row_def exists_where_def)
  ultimately show ?thesis using False by (simp add: upsert_def)
qed

section \<open>Step relations and invariants\<close>

text \<open>
  The contract between a component that runs as interleaved atomic steps and its invariant: it
  holds initially and every step keeps it.  The client lemma is the induction over runs.
\<close>

inductive reach :: "('s \<Rightarrow> bool) \<Rightarrow> ('s \<Rightarrow> 's \<Rightarrow> bool) \<Rightarrow> 's \<Rightarrow> bool" for init step where
  reach_init: "init s \<Longrightarrow> reach init step s"
| reach_step: "reach init step s \<Longrightarrow> step s s' \<Longrightarrow> reach init step s'"

locale invariant_system =
  fixes init :: "'s \<Rightarrow> bool" and step :: "'s \<Rightarrow> 's \<Rightarrow> bool" and inv :: "'s \<Rightarrow> bool"
  assumes inv_init: "init s \<Longrightarrow> inv s"
    and inv_step: "inv s \<Longrightarrow> step s s' \<Longrightarrow> inv s'"
begin

lemma reach_inv: "reach init step s \<Longrightarrow> inv s"
  by (induction rule: reach.induct) (auto intro: inv_init inv_step)

end

text \<open>\<^verbatim>\<open>strings.ToLower\<close> on the ASCII letters, all that the callers compare.\<close>

definition ascii_lower :: "char \<Rightarrow> char" where
  "ascii_lower c = (let n = of_char c :: nat in if 65 \<le> n \<and> n \<le> 90 then char_of (n + 32) else c)"

text \<open>Go \<^verbatim>\<open>int64\<close> arithmetic wraps around.\<close>

definition int64 :: "int \<Rightarrow> int" where
  "int64 n = signed_take_bit 63 n"

lemma int64_id: "- (2 ^ 63) \<le> n \<Longrightarrow> n < 2 ^ 63 \<Longrightarrow> int64 n = n"
  by (simp add: int64_def signed_take_bit_int_eq_self)

end
