(* ===== verification/Queue.thy ===== *)
theory Queue
  imports Prelude
begin

text \<open>
  The edge agent's SQLite queue (agent/internal/queue: queue.go, reports.go, aborts.go).  A
  \<open>db\<close> holds the five tables; every Go method is one function that returns its Go result
  together with the database that is committed when it returns.  Statements are numbered inside
  each method and \<open>io\<close> says which of them the driver fails; a failed or rolled back transaction
  returns the database it started from.  Foreign keys are declared in the schema but SQLite does
  not enforce them on this connection (the DSN does not switch them on), so DELETE does not
  cascade.
\<close>

section \<open>Rows and tables\<close>

datatype task_status = StatusPending | StatusRunning | StatusReported | StatusCompleted | StatusFailed

definition NextRetryNever :: int where
  "NextRetryNever = -1"

definition AppendModeTail :: string where
  "AppendModeTail = ''tail''"

record upload_task =
  t_id :: string
  t_rule_id :: string
  t_local_path :: string
  t_storage_path :: string
  t_bucket :: string
  t_upload_id :: string
  t_completed_parts :: string
  t_parts_file_mtime :: int
  t_parts_file_size :: int
  t_file_size :: int
  t_file_mtime :: int
  t_sha256 :: string
  t_status :: task_status
  t_retry_count :: int
  t_next_retry_at :: int
  t_last_error :: string
  t_created_at :: int
  t_updated_at :: int
  t_file_offset :: int
  t_append_mode :: string

record processed_file =
  p_id :: string
  p_rule_id :: string
  p_local_path :: string
  p_file_size :: int
  p_file_mtime :: int
  p_sha256 :: string
  p_uploaded_at :: int

record rule_row =
  ru_id :: string
  ru_payload :: string
  ru_updated_at :: int

record report_row =
  rp_task_id :: string
  rp_payload :: string
  rp_last_reported_at :: int

record abort_entry =
  a_upload_id :: string
  a_task_id :: string
  a_bucket :: string
  a_storage_path :: string
  a_attempts :: int
  a_next_attempt_at :: int
  a_last_error :: "string option"
  a_created_at :: int

record file_version =
  fv_mtime :: int
  fv_size :: int

record db =
  upload_tasks :: "upload_task list"
  upload_reports :: "report_row list"
  processed_files :: "processed_file list"
  abort_outbox :: "abort_entry list"
  rules_tbl :: "rule_row list"

text \<open>Errors of the queue: a driver error with its text, the sentinel \<^verbatim>\<open>ErrTaskNotFound\<close>, and
  \<^verbatim>\<open>sql.ErrNoRows\<close>.\<close>

datatype queue_error = DbError string | ErrTaskNotFound | ErrNoRows

type_synonym 'a qres = "(queue_error + 'a) \<times> db"

definition stmt :: "io \<Rightarrow> nat \<Rightarrow> db \<Rightarrow> 'a qres \<Rightarrow> 'a qres" where
  "stmt io i rollback k = (case io i of Some e \<Rightarrow> (Inl (DbError e), rollback) | None \<Rightarrow> k)"

definition query :: "io \<Rightarrow> nat \<Rightarrow> 'a \<Rightarrow> queue_error + 'a" where
  "query io i v = (case io i of Some e \<Rightarrow> Inl (DbError e) | None \<Rightarrow> Inr v)"

abbreviation upd_tasks :: "(upload_task \<Rightarrow> bool) \<Rightarrow> (upload_task \<Rightarrow> upload_task) \<Rightarrow> db \<Rightarrow> db" where
  "upd_tasks P f d \<equiv> d\<lparr>upload_tasks := update_where P f (upload_tasks d)\<rparr>"

section \<open>Upload tasks\<close>

definition prepareEnqueue :: "int \<Rightarrow> upload_task \<Rightarrow> upload_task" where
  "prepareEnqueue now task =
     (let task = (if t_created_at task = 0 then task\<lparr>t_created_at := now\<rparr> else task);
          task = (if t_updated_at task = 0 then task\<lparr>t_updated_at := now\<rparr> else task)
      in task\<lparr>t_status := StatusPending\<rparr>)"

text \<open>The INSERT column list leaves out next_retry_at and the parts snapshot: schema defaults.\<close>

definition inserted_row :: "upload_task \<Rightarrow> upload_task" where
  "inserted_row task = task\<lparr>t_parts_file_mtime := 0, t_parts_file_size := 0, t_next_retry_at := 0\<rparr>"

definition insert_task :: "upload_task \<Rightarrow> db \<Rightarrow> 'a \<Rightarrow> 'a qres" where
  "insert_task row d v =
     (if exists_where (\<lambda>r. t_id r = t_id row) (upload_tasks d)
      then (Inl (DbError ''UNIQUE constraint failed''), d)
      else (Inr v, d\<lparr>upload_tasks := upload_tasks d @ [row]\<rparr>))"

definition Enqueue :: "io \<Rightarrow> int \<Rightarrow> upload_task \<Rightarrow> db \<Rightarrow> unit qres" where
  "Enqueue io now task d =
     (let task = prepareEnqueue now task
      in stmt io 0 d (insert_task (inserted_row task) d ()))"

definition is_active :: "upload_task \<Rightarrow> bool" where
  "is_active r \<longleftrightarrow> t_status r = StatusPending \<or> t_status r = StatusRunning \<or> t_status r = StatusReported"

definition same_version :: "upload_task \<Rightarrow> upload_task \<Rightarrow> bool" where
  "same_version task r \<longleftrightarrow> t_rule_id r = t_rule_id task \<and> t_local_path r = t_local_path task
     \<and> t_file_mtime r = t_file_mtime task \<and> t_file_size r = t_file_size task"

definition EnqueueIfNoActive :: "io \<Rightarrow> int \<Rightarrow> upload_task \<Rightarrow> db \<Rightarrow> bool qres" where
  "EnqueueIfNoActive io now task d =
     (let task = prepareEnqueue now task
      in stmt io 0 d
           (if exists_where (\<lambda>r. same_version task r \<and> is_active r) (upload_tasks d)
            then (Inr False, d)
            else insert_task (inserted_row task) d True))"

definition CountPending :: "io \<Rightarrow> db \<Rightarrow> queue_error + nat" where
  "CountPending io d = query io 0 (count_where (\<lambda>r. t_status r = StatusPending) (upload_tasks d))"

definition counts_as_active :: "upload_task \<Rightarrow> bool" where
  "counts_as_active r \<longleftrightarrow> t_status r = StatusPending \<or> t_status r = StatusRunning
     \<or> t_status r = StatusFailed \<or> t_status r = StatusReported"

definition CountActive :: "io \<Rightarrow> db \<Rightarrow> queue_error + nat" where
  "CountActive io d = query io 0 (count_where counts_as_active (upload_tasks d))"

definition is_evictable :: "upload_task \<Rightarrow> bool" where
  "is_evictable r \<longleftrightarrow> t_status r = StatusPending \<or> t_status r = StatusFailed"

definition evictable_candidates :: "string \<Rightarrow> db \<Rightarrow> upload_task list" where
  "evictable_candidates excludeID d =
     order_by t_created_at (select_where (\<lambda>r. is_evictable r \<and> t_id r \<noteq> excludeID) (upload_tasks d))"

text \<open>The abort record that eviction, abandonment and dedup completion write with their own transition.\<close>

definition fresh_abort :: "upload_task \<Rightarrow> int \<Rightarrow> abort_entry" where
  "fresh_abort t now = \<lparr>a_upload_id = t_upload_id t, a_task_id = t_id t, a_bucket = t_bucket t,
     a_storage_path = t_storage_path t, a_attempts = 0, a_next_attempt_at = 0,
     a_last_error = None, a_created_at = now\<rparr>"

definition record_abort :: "upload_task \<Rightarrow> int \<Rightarrow> db \<Rightarrow> db" where
  "record_abort t now d =
     (if t_upload_id t \<noteq> ''''
      then d\<lparr>abort_outbox := insert_ignore a_upload_id (fresh_abort t now) (abort_outbox d)\<rparr>
      else d)"

text \<open>
  One pass of the eviction loop per recursive call: BEGIN, SELECT, the abort record when an upload
  is in flight, the guarded DELETE, COMMIT (statements \<open>5 * attempt\<close> to \<open>5 * attempt + 4\<close>).  The
  pass that deletes nothing is rolled back and retried; the first argument is \<^verbatim>\<open>maxAttempts\<close> minus
  the passes made.
\<close>

fun evict_loop :: "nat \<Rightarrow> nat \<Rightarrow> io \<Rightarrow> (nat \<Rightarrow> int) \<Rightarrow> string \<Rightarrow> db \<Rightarrow> upload_task option qres" where
  "evict_loop 0 attempt io clk excludeID d = (Inr None, d)"
| "evict_loop (Suc left) attempt io clk excludeID d =
     stmt io (5 * attempt) d
      (stmt io (5 * attempt + 1) d
        (case sql_limit 1 (evictable_candidates excludeID d) of
           [] \<Rightarrow> (Inr None, d)
         | t # _ \<Rightarrow>
             (let recorded = record_abort t (clk attempt) d;
                  victim = (\<lambda>r. t_id r = t_id t \<and> is_evictable r);
                  tx = recorded\<lparr>upload_tasks := delete_where victim (upload_tasks recorded)\<rparr>;
                  rest = stmt io (5 * attempt + 3) d
                    (if count_where victim (upload_tasks recorded) = 0
                     then evict_loop left (Suc attempt) io clk excludeID d
                     else stmt io (5 * attempt + 4) d (Inr (Some t), tx))
              in if t_upload_id t \<noteq> '''' then stmt io (5 * attempt + 2) d rest else rest)))"

definition DeleteOldestEvictable ::
    "io \<Rightarrow> (nat \<Rightarrow> int) \<Rightarrow> string \<Rightarrow> db \<Rightarrow> upload_task option qres" where
  "DeleteOldestEvictable io clk excludeID d = evict_loop 8 0 io clk excludeID d"

text \<open>
  DequeuePending reads the candidates in one statement (0) and then marks each of them running with
  a statement of its own (1, 2, \<dots>); the connection is free between the statements.
\<close>

definition dequeue_select :: "int \<Rightarrow> db \<Rightarrow> upload_task list" where
  "dequeue_select lim d =
     sql_limit lim (order_by t_created_at
       (select_where (\<lambda>r. t_status r = StatusPending) (upload_tasks d)))"

definition mark_running :: "int \<Rightarrow> upload_task \<Rightarrow> db \<Rightarrow> db" where
  "mark_running now t d =
     upd_tasks (\<lambda>r. t_id r = t_id t) (\<lambda>r. r\<lparr>t_status := StatusRunning, t_updated_at := now\<rparr>) d"

fun dequeue_mark :: "io \<Rightarrow> nat \<Rightarrow> int \<Rightarrow> upload_task list \<Rightarrow> upload_task list \<Rightarrow> db \<Rightarrow> upload_task list qres" where
  "dequeue_mark io i now acc [] d = (Inr (rev acc), d)"
| "dequeue_mark io i now acc (t # ts) d =
     stmt io i d
       (dequeue_mark io (Suc i) now (t\<lparr>t_status := StatusRunning, t_updated_at := now\<rparr> # acc) ts
          (mark_running now t d))"

definition DequeuePending :: "io \<Rightarrow> int \<Rightarrow> int \<Rightarrow> db \<Rightarrow> upload_task list qres" where
  "DequeuePending io now lim d =
     stmt io 0 d (dequeue_mark io 1 now [] (dequeue_select lim d) d)"

text \<open>
  ResetRunningToPending: BEGIN (0), SELECT (1), a refresh of each row whose file can be
  stat'ed (2 + its position), the status flip, COMMIT.  \<open>stat\<close> gives size and mtime of a path.
\<close>

fun refresh_rows :: "io \<Rightarrow> (nat \<Rightarrow> int) \<Rightarrow> (string \<Rightarrow> (int \<times> int) option) \<Rightarrow> nat \<Rightarrow> upload_task list
    \<Rightarrow> db \<Rightarrow> queue_error + db" where
  "refresh_rows io clk stat j [] tx = Inr tx"
| "refresh_rows io clk stat j (t # ts) tx =
     (case stat (t_local_path t) of
        None \<Rightarrow> refresh_rows io clk stat (Suc j) ts tx
      | Some (sz, mt) \<Rightarrow>
          (case io (2 + j) of
             Some e \<Rightarrow> Inl (DbError e)
           | None \<Rightarrow> refresh_rows io clk stat (Suc j) ts
               (upd_tasks (\<lambda>r. t_id r = t_id t)
                  (\<lambda>r. r\<lparr>t_file_size := sz, t_file_mtime := mt, t_updated_at := clk j\<rparr>) tx)))"

definition running_rows :: "db \<Rightarrow> upload_task list" where
  "running_rows d = order_by t_created_at
     (select_where (\<lambda>r. t_status r = StatusRunning) (upload_tasks d))"

definition ResetRunningToPending ::
    "io \<Rightarrow> (nat \<Rightarrow> int) \<Rightarrow> (string \<Rightarrow> (int \<times> int) option) \<Rightarrow> db \<Rightarrow> nat qres" where
  "ResetRunningToPending io clk stat d =
     stmt io 0 d (stmt io 1 d
       (let running = running_rows d; m = length running in
        case refresh_rows io clk stat 0 running d of
          Inl e \<Rightarrow> (Inl e, d)
        | Inr tx \<Rightarrow>
            stmt io (2 + m) d
              (let n = count_where (\<lambda>r. t_status r = StatusRunning) (upload_tasks tx);
                   flipped = upd_tasks (\<lambda>r. t_status r = StatusRunning)
                     (\<lambda>r. r\<lparr>t_status := StatusPending, t_updated_at := clk m\<rparr>) tx
               in stmt io (3 + m) d (Inr n, flipped))))"

text \<open>An UPDATE by id that reports \<^verbatim>\<open>ErrTaskNotFound\<close> when no row matched.\<close>

definition update_by_id :: "io \<Rightarrow> string \<Rightarrow> (upload_task \<Rightarrow> upload_task) \<Rightarrow> db \<Rightarrow> unit qres" where
  "update_by_id io tid f d =
     stmt io 0 d
       (if count_where (\<lambda>r. t_id r = tid) (upload_tasks d) = 0 then (Inl ErrTaskNotFound, d)
        else (Inr (), upd_tasks (\<lambda>r. t_id r = tid) f d))"

definition SaveMultipartProgress ::
    "io \<Rightarrow> int \<Rightarrow> string \<Rightarrow> string \<Rightarrow> string \<Rightarrow> file_version \<Rightarrow> db \<Rightarrow> unit qres" where
  "SaveMultipartProgress io now tid uploadID partsJSON fv d =
     update_by_id io tid (\<lambda>r. r\<lparr>t_upload_id := uploadID, t_completed_parts := partsJSON,
       t_parts_file_mtime := fv_mtime fv, t_parts_file_size := fv_size fv, t_updated_at := now\<rparr>) d"

definition UpdateStatus :: "io \<Rightarrow> int \<Rightarrow> string \<Rightarrow> task_status \<Rightarrow> db \<Rightarrow> unit qres" where
  "UpdateStatus io now tid status d =
     update_by_id io tid (\<lambda>r. r\<lparr>t_status := status, t_updated_at := now\<rparr>) d"

text \<open>\<open>nextRetryAt = None\<close> is the zero \<^verbatim>\<open>time.Time\<close>.\<close>

definition retry_stamp :: "int option \<Rightarrow> int" where
  "retry_stamp nextRetryAt = (case nextRetryAt of None \<Rightarrow> NextRetryNever | Some at \<Rightarrow> at)"

definition mark_failed_row :: "int \<Rightarrow> string \<Rightarrow> int \<Rightarrow> upload_task \<Rightarrow> upload_task" where
  "mark_failed_row stamp errMsg now r = r\<lparr>t_status := StatusFailed,
     t_retry_count := t_retry_count r + 1, t_next_retry_at := stamp, t_last_error := errMsg,
     t_updated_at := now\<rparr>"

definition MarkFailed :: "io \<Rightarrow> int \<Rightarrow> string \<Rightarrow> string \<Rightarrow> int option \<Rightarrow> db \<Rightarrow> unit qres" where
  "MarkFailed io now tid errMsg nextRetryAt d =
     update_by_id io tid (mark_failed_row (retry_stamp nextRetryAt) errMsg now) d"

definition ListByStatus :: "io \<Rightarrow> task_status \<Rightarrow> db \<Rightarrow> queue_error + upload_task list" where
  "ListByStatus io status d =
     query io 0 (order_by t_created_at (select_where (\<lambda>r. t_status r = status) (upload_tasks d)))"

section \<open>Processed files and rules\<close>

definition p_key :: "processed_file \<Rightarrow> string \<times> string" where
  "p_key f = (p_rule_id f, p_local_path f)"

definition TailOffsets :: "io \<Rightarrow> string \<Rightarrow> db \<Rightarrow> queue_error + (string \<rightharpoonup> int)" where
  "TailOffsets io ruleID d =
     query io 0 (foldl (\<lambda>m f. m(p_local_path f \<mapsto> p_file_size f)) Map.empty
       (select_where (\<lambda>f. p_rule_id f = ruleID) (processed_files d)))"

text \<open>
  The id is the primary key and (rule, path) the conflict target: a row that holds the id under
  another (rule, path) is a constraint violation the upsert does not absorb.
\<close>

definition upsert_processed ::
    "(processed_file \<Rightarrow> processed_file \<Rightarrow> processed_file) \<Rightarrow> processed_file \<Rightarrow> db \<Rightarrow> queue_error + db" where
  "upsert_processed f new d =
     (if exists_where (\<lambda>r. p_id r = p_id new \<and> p_key r \<noteq> p_key new) (processed_files d)
      then Inl (DbError ''UNIQUE constraint failed'')
      else Inr (d\<lparr>processed_files := upsert p_key f new (processed_files d)\<rparr>))"

definition UpsertProcessedFile :: "io \<Rightarrow> int \<Rightarrow> processed_file \<Rightarrow> db \<Rightarrow> unit qres" where
  "UpsertProcessedFile io now f d =
     (let f = (if p_uploaded_at f = 0 then f\<lparr>p_uploaded_at := now\<rparr> else f)
      in stmt io 0 d
           (case upsert_processed (\<lambda>old new. old\<lparr>p_id := p_id new, p_file_size := p_file_size new,
                   p_file_mtime := p_file_mtime new, p_sha256 := p_sha256 new,
                   p_uploaded_at := p_uploaded_at new\<rparr>) f d of
              Inl e \<Rightarrow> (Inl e, d)
            | Inr d' \<Rightarrow> (Inr (), d')))"

definition IsProcessed :: "io \<Rightarrow> string \<Rightarrow> string \<Rightarrow> int \<Rightarrow> int \<Rightarrow> db \<Rightarrow> queue_error + bool" where
  "IsProcessed io ruleID localPath fileMtime fileSize d =
     query io 0 (0 < count_where (\<lambda>f. p_rule_id f = ruleID \<and> p_local_path f = localPath
       \<and> p_file_mtime f = fileMtime \<and> p_file_size f = fileSize) (processed_files d))"

definition UpsertRule :: "io \<Rightarrow> int \<Rightarrow> rule_row \<Rightarrow> db \<Rightarrow> unit qres" where
  "UpsertRule io now r d =
     (let r = (if ru_updated_at r = 0 then r\<lparr>ru_updated_at := now\<rparr> else r)
      in stmt io 0 d (Inr (), d\<lparr>rules_tbl := upsert ru_id
           (\<lambda>old new. old\<lparr>ru_payload := ru_payload new, ru_updated_at := ru_updated_at new\<rparr>)
           r (rules_tbl d)\<rparr>))"

definition GetRule :: "io \<Rightarrow> string \<Rightarrow> db \<Rightarrow> queue_error + rule_row" where
  "GetRule io tid d = (case io 0 of
       Some e \<Rightarrow> Inl (DbError e)
     | None \<Rightarrow> (case find_row ru_id tid (rules_tbl d) of None \<Rightarrow> Inl ErrNoRows | Some r \<Rightarrow> Inr r))"

section \<open>Upload reports\<close>

text \<open>SaveReport: BEGIN (0), guarded UPDATE (1), upsert of the payload (2), COMMIT (3).\<close>

definition SaveReport :: "io \<Rightarrow> int \<Rightarrow> string \<Rightarrow> string \<Rightarrow> db \<Rightarrow> unit qres" where
  "SaveReport io now tid payload d =
     stmt io 0 d (stmt io 1 d
       (let hit = (\<lambda>r. t_id r = tid \<and> (t_status r = StatusRunning \<or> t_status r = StatusFailed));
            n = count_where hit (upload_tasks d);
            tx = upd_tasks hit (\<lambda>r. r\<lparr>t_status := StatusReported, t_updated_at := now\<rparr>) d
        in if n = 0 then (Inl ErrTaskNotFound, d)
           else stmt io 2 d
             (let tx = tx\<lparr>upload_reports := upsert rp_task_id
                    (\<lambda>old new. old\<lparr>rp_payload := rp_payload new, rp_last_reported_at := 0\<rparr>)
                    \<lparr>rp_task_id = tid, rp_payload = payload, rp_last_reported_at = 0\<rparr>
                    (upload_reports tx)\<rparr>
              in stmt io 3 d (Inr (), tx))))"

definition DueReports :: "io \<Rightarrow> int \<Rightarrow> db \<Rightarrow> queue_error + report_row list" where
  "DueReports io before d =
     query io 0 (sql_limit 100 (order_by (\<lambda>r. (rp_last_reported_at r, rp_task_id r))
       (select_where (\<lambda>r. rp_last_reported_at r \<le> before) (upload_reports d))))"

definition TouchReport :: "io \<Rightarrow> string \<Rightarrow> int \<Rightarrow> db \<Rightarrow> unit qres" where
  "TouchReport io tid now d = stmt io 0 d
     (Inr (), d\<lparr>upload_reports := update_where (\<lambda>r. rp_task_id r = tid)
        (\<lambda>r. r\<lparr>rp_last_reported_at := now\<rparr>) (upload_reports d)\<rparr>)"

definition ResetReportTimers :: "io \<Rightarrow> db \<Rightarrow> unit qres" where
  "ResetReportTimers io d = stmt io 0 d
     (Inr (), d\<lparr>upload_reports := update_where (\<lambda>r. True)
        (\<lambda>r. r\<lparr>rp_last_reported_at := 0\<rparr>) (upload_reports d)\<rparr>)"

definition GetReport :: "io \<Rightarrow> string \<Rightarrow> db \<Rightarrow> queue_error + string" where
  "GetReport io tid d = (case io 0 of
       Some e \<Rightarrow> Inl (DbError e)
     | None \<Rightarrow> (case find_row rp_task_id tid (upload_reports d) of
         None \<Rightarrow> Inl ErrNoRows | Some r \<Rightarrow> Inr (rp_payload r)))"

text \<open>
  CompleteReported: BEGIN (0), guarded UPDATE (1), the processed-file upsert from the updated task
  row (2, only for a successful upload), DELETE of the report (3), COMMIT (4).
\<close>

definition processed_of_task :: "int \<Rightarrow> upload_task \<Rightarrow> processed_file" where
  "processed_of_task now t = \<lparr>p_id = t_id t, p_rule_id = t_rule_id t, p_local_path = t_local_path t,
     p_file_size = t_file_size t, p_file_mtime = t_file_mtime t, p_sha256 = t_sha256 t,
     p_uploaded_at = now\<rparr>"

definition acknowledge_processed :: "int \<Rightarrow> string \<Rightarrow> db \<Rightarrow> queue_error + db" where
  "acknowledge_processed now tid d =
     (case find_row t_id tid (upload_tasks d) of
        None \<Rightarrow> Inr d
      | Some t \<Rightarrow> upsert_processed (\<lambda>old new. old\<lparr>p_file_size := p_file_size new,
            p_file_mtime := p_file_mtime new, p_sha256 := p_sha256 new,
            p_uploaded_at := p_uploaded_at new\<rparr>) (processed_of_task now t) d)"

definition CompleteReported :: "io \<Rightarrow> (nat \<Rightarrow> int) \<Rightarrow> string \<Rightarrow> bool \<Rightarrow> string \<Rightarrow> db \<Rightarrow> unit qres" where
  "CompleteReported io clk tid uploaded sha d =
     stmt io 0 d (stmt io 1 d
       (let hit = (\<lambda>r. t_id r = tid \<and> t_status r = StatusReported);
            n = count_where hit (upload_tasks d);
            tx = upd_tasks hit (\<lambda>r. r\<lparr>t_status := StatusCompleted, t_sha256 := sha,
                   t_updated_at := clk 0\<rparr>) d;
            finish = (\<lambda>tx. stmt io 3 d
              (let tx = tx\<lparr>upload_reports := delete_where (\<lambda>r. rp_task_id r = tid) (upload_reports tx)\<rparr>
               in stmt io 4 d (Inr (), tx)))
        in if n = 0 then (Inr (), d)
           else if uploaded then stmt io 2 d
             (case acknowledge_processed (clk 1) tid tx of Inl e \<Rightarrow> (Inl e, d) | Inr tx \<Rightarrow> finish tx)
           else finish tx))"

section \<open>The durable abort outbox\<close>

definition EnqueueMultipartAbort :: "io \<Rightarrow> int \<Rightarrow> abort_entry \<Rightarrow> db \<Rightarrow> unit qres" where
  "EnqueueMultipartAbort io now e d =
     (let e = (if a_created_at e = 0 then e\<lparr>a_created_at := now\<rparr> else e)
      in stmt io 0 d (Inr (), d\<lparr>abort_outbox := insert_ignore a_upload_id e (abort_outbox d)\<rparr>))"

definition scan_abort :: "abort_entry \<Rightarrow> abort_entry" where
  "scan_abort e = e\<lparr>a_last_error := Some (case a_last_error e of None \<Rightarrow> '''' | Some s \<Rightarrow> s)\<rparr>"

definition DueMultipartAborts :: "io \<Rightarrow> int \<Rightarrow> int \<Rightarrow> db \<Rightarrow> queue_error + abort_entry list" where
  "DueMultipartAborts io now lim d =
     query io 0 (map scan_abort (sql_limit lim (order_by a_created_at
       (select_where (\<lambda>e. a_next_attempt_at e \<le> now) (abort_outbox d)))))"

definition RecordMultipartAbortAttempt :: "io \<Rightarrow> string \<Rightarrow> int \<Rightarrow> string \<Rightarrow> db \<Rightarrow> unit qres" where
  "RecordMultipartAbortAttempt io uploadID nextAttemptAt errMsg d =
     stmt io 0 d
       (if count_where (\<lambda>e. a_upload_id e = uploadID) (abort_outbox d) = 0 then (Inl ErrTaskNotFound, d)
        else (Inr (), d\<lparr>abort_outbox := update_where (\<lambda>e. a_upload_id e = uploadID)
          (\<lambda>e. e\<lparr>a_attempts := a_attempts e + 1, a_next_attempt_at := nextAttemptAt,
                 a_last_error := Some errMsg\<rparr>) (abort_outbox d)\<rparr>))"

definition DeleteMultipartAbort :: "io \<Rightarrow> string \<Rightarrow> db \<Rightarrow> unit qres" where
  "DeleteMultipartAbort io uploadID d = stmt io 0 d
     (Inr (), d\<lparr>abort_outbox := delete_where (\<lambda>e. a_upload_id e = uploadID) (abort_outbox d)\<rparr>)"

definition CountMultipartAborts :: "io \<Rightarrow> db \<Rightarrow> queue_error + nat" where
  "CountMultipartAborts io d = query io 0 (length (abort_outbox d))"

text \<open>
  The two transitions that give a task up: BEGIN (0), UPDATE (1), the abort record (2, when the
  task carries an upload), COMMIT (3).
\<close>

definition abandon_tx :: "io \<Rightarrow> int \<Rightarrow> upload_task \<Rightarrow> (upload_task \<Rightarrow> upload_task) \<Rightarrow> db \<Rightarrow> unit qres" where
  "abandon_tx io now task f d =
     stmt io 0 d (stmt io 1 d
       (let n = count_where (\<lambda>r. t_id r = t_id task) (upload_tasks d);
            tx = upd_tasks (\<lambda>r. t_id r = t_id task) f d
        in if n = 0 then (Inl ErrTaskNotFound, d)
           else if t_upload_id task \<noteq> ''''
                then stmt io 2 d (stmt io 3 d (Inr (), record_abort task now tx))
                else stmt io 3 d (Inr (), tx)))"

definition MarkFailedAbandoned :: "io \<Rightarrow> (nat \<Rightarrow> int) \<Rightarrow> upload_task \<Rightarrow> string \<Rightarrow> db \<Rightarrow> unit qres" where
  "MarkFailedAbandoned io clk task errMsg d =
     abandon_tx io (clk 1) task (mark_failed_row NextRetryNever errMsg (clk 0)) d"

definition MarkCompletedAbandoningUpload :: "io \<Rightarrow> (nat \<Rightarrow> int) \<Rightarrow> upload_task \<Rightarrow> db \<Rightarrow> unit qres" where
  "MarkCompletedAbandoningUpload io clk task d =
     abandon_tx io (clk 1) task
       (\<lambda>r. r\<lparr>t_status := StatusCompleted, t_updated_at := clk 0\<rparr>) d"

definition empty_db :: db where
  "empty_db = \<lparr>upload_tasks = [], upload_reports = [], processed_files = [], abort_outbox = [],
     rules_tbl = []\<rparr>"

section \<open>Specification vocabulary\<close>

text \<open>
  What the properties below speak about: the rows that block a second enqueue of the same file
  version, the presence of an abort record, the outcome of one eviction, the effect of giving a task
  up, the row a crash recovery leaves behind, and one small database for the witnesses.
\<close>

definition active_versions :: "upload_task \<Rightarrow> db \<Rightarrow> nat" where
  "active_versions task d = count_where (\<lambda>r. same_version task r \<and> is_active r) (upload_tasks d)"

definition abort_recorded :: "string \<Rightarrow> db \<Rightarrow> bool" where
  "abort_recorded u d \<longleftrightarrow> (\<exists>e\<in>set (abort_outbox d). a_upload_id e = u)"

definition evicts :: "string \<Rightarrow> db \<Rightarrow> upload_task option \<Rightarrow> db \<Rightarrow> bool" where
  "evicts ex d res d' \<longleftrightarrow> (case res of
     None \<Rightarrow> d' = d \<and> (\<forall>r\<in>set (upload_tasks d). is_evictable r \<longrightarrow> t_id r = ex)
   | Some t \<Rightarrow> t \<in> set (upload_tasks d) \<and> is_evictable t \<and> t_id t \<noteq> ex \<and>
       (\<forall>r\<in>set (upload_tasks d). is_evictable r \<and> t_id r \<noteq> ex \<longrightarrow> t_created_at t \<le> t_created_at r) \<and>
       upload_tasks d' = filter (\<lambda>r. t_id r \<noteq> t_id t) (upload_tasks d) \<and>
       set (abort_outbox d) \<subseteq> set (abort_outbox d') \<and>
       (t_upload_id t \<noteq> '''' \<longrightarrow> abort_recorded (t_upload_id t) d') \<and>
       upload_reports d' = upload_reports d \<and> processed_files d' = processed_files d)"

definition running_copy :: "int \<Rightarrow> upload_task \<Rightarrow> upload_task" where
  "running_copy now r = r\<lparr>t_status := StatusRunning, t_updated_at := now\<rparr>"

definition given_up :: "task_status \<Rightarrow> upload_task \<Rightarrow> db \<Rightarrow> db \<Rightarrow> bool" where
  "given_up st t d d' \<longleftrightarrow>
     (\<exists>r\<in>set (upload_tasks d'). t_id r = t_id t \<and> t_status r = st) \<and>
     (\<forall>r\<in>set (upload_tasks d'). t_id r = t_id t \<longrightarrow> t_status r = st \<and> (st = StatusFailed \<longrightarrow> t_next_retry_at r = NextRetryNever)) \<and>
     filter (\<lambda>r. t_id r \<noteq> t_id t) (upload_tasks d') = filter (\<lambda>r. t_id r \<noteq> t_id t) (upload_tasks d) \<and>
     (t_upload_id t \<noteq> '''' \<longrightarrow> abort_recorded (t_upload_id t) d') \<and>
     set (abort_outbox d) \<subseteq> set (abort_outbox d')"

definition refreshed :: "(string \<Rightarrow> (int \<times> int) option) \<Rightarrow> upload_task \<Rightarrow> upload_task" where
  "refreshed stat r = (case stat (t_local_path r) of
     None \<Rightarrow> r | Some (sz, mt) \<Rightarrow> r\<lparr>t_file_size := sz, t_file_mtime := mt\<rparr>)"

definition refreshed_to :: "(string \<Rightarrow> (int \<times> int) option) \<Rightarrow> upload_task list \<Rightarrow> upload_task \<Rightarrow> upload_task \<Rightarrow> bool" where
  "refreshed_to stat ts r r' \<longleftrightarrow>
     (if t_id r \<in> t_id ` set ts then \<exists>u. r' = (refreshed stat r)\<lparr>t_updated_at := u\<rparr> else r' = r)"

definition sample_task :: upload_task where
  "sample_task = \<lparr>t_id = ''t1'', t_rule_id = ''r1'', t_local_path = ''/data/a.nc'', t_storage_path = ''in/a.nc'',
     t_bucket = ''raw'', t_upload_id = ''u1'', t_completed_parts = '''', t_parts_file_mtime = 0,
     t_parts_file_size = 0, t_file_size = 10, t_file_mtime = 20, t_sha256 = '''',
     t_status = StatusPending, t_retry_count = 0, t_next_retry_at = 0, t_last_error = '''',
     t_created_at = 5, t_updated_at = 5, t_file_offset = 0, t_append_mode = ''''\<rparr>"

definition sample_db :: db where
  "sample_db = empty_db\<lparr>upload_tasks := [sample_task, sample_task\<lparr>t_id := ''t2'', t_local_path := ''/data/b.nc'',
      t_created_at := 3, t_upload_id := ''''\<rparr>]\<rparr>"

definition reported_db :: db where
  "reported_db = empty_db\<lparr>upload_tasks := [sample_task\<lparr>t_status := StatusReported\<rparr>],
     upload_reports := [\<lparr>rp_task_id = ''t1'', rp_payload = ''pb'', rp_last_reported_at = 0\<rparr>]\<rparr>"

section \<open>Invariant of the queue under every interleaving\<close>

definition queue_inv :: "db \<Rightarrow> bool" where
  "queue_inv d \<longleftrightarrow>
     unique_key t_id (upload_tasks d) \<and> unique_key rp_task_id (upload_reports d) \<and>
     unique_key p_id (processed_files d) \<and> unique_key p_key (processed_files d) \<and>
     unique_key a_upload_id (abort_outbox d) \<and> unique_key ru_id (rules_tbl d) \<and>
     (\<forall>r\<in>set (upload_tasks d). 0 \<le> t_retry_count r) \<and>
     (\<forall>r\<in>set (upload_tasks d). t_status r = StatusReported \<longrightarrow>
        (\<exists>p\<in>set (upload_reports d). rp_task_id p = t_id r))"

text \<open>
  The methods as atomic steps of one database shared by all goroutines of the agent.  DequeuePending
  contributes its marking statement, since other goroutines may run between its statements.  The
  guards are what the agent's call sites establish: a submitted task starts with a non-negative
  retry count, and no caller sets the status \<^verbatim>\<open>reported\<close> except SaveReport.
\<close>

inductive queue_step :: "db \<Rightarrow> db \<Rightarrow> bool" where
  step_enqueue: "0 \<le> t_retry_count task \<Longrightarrow> queue_step d (snd (Enqueue io now task d))"
| step_enqueue_if: "0 \<le> t_retry_count task \<Longrightarrow> queue_step d (snd (EnqueueIfNoActive io now task d))"
| step_evict: "queue_step d (snd (DeleteOldestEvictable io clk excludeID d))"
| step_mark_running: "queue_step d (mark_running now t d)"
| step_reset: "queue_step d (snd (ResetRunningToPending io clk stat d))"
| step_progress: "queue_step d (snd (SaveMultipartProgress io now tid u js fv d))"
| step_status: "status \<noteq> StatusReported \<Longrightarrow> queue_step d (snd (UpdateStatus io now tid status d))"
| step_failed: "queue_step d (snd (MarkFailed io now tid msg at d))"
| step_processed: "queue_step d (snd (UpsertProcessedFile io now f d))"
| step_rule: "queue_step d (snd (UpsertRule io now ru d))"
| step_save_report: "queue_step d (snd (SaveReport io now tid payload d))"
| step_touch: "queue_step d (snd (TouchReport io tid now d))"
| step_timers: "queue_step d (snd (ResetReportTimers io d))"
| step_complete: "queue_step d (snd (CompleteReported io clk tid uploaded sha d))"
| step_abort: "queue_step d (snd (EnqueueMultipartAbort io now e d))"
| step_abort_attempt: "queue_step d (snd (RecordMultipartAbortAttempt io u at msg d))"
| step_abort_done: "queue_step d (snd (DeleteMultipartAbort io u d))"
| step_abandon: "queue_step d (snd (MarkFailedAbandoned io clk t msg d))"
| step_dedup: "queue_step d (snd (MarkCompletedAbandoningUpload io clk t d))"

subsection \<open>Automation for statements\<close>

lemma stmt_cases:
  "stmt io i rb k = (case io i of Some e \<Rightarrow> (Inl (DbError e), rb) | None \<Rightarrow> k)"
  by (simp add: stmt_def)

lemma stmt_ok [simp]: "io i = None \<Longrightarrow> stmt io i rb k = k"
  by (simp add: stmt_def)

lemma stmt_fault [simp]: "io i = Some e \<Longrightarrow> stmt io i rb k = (Inl (DbError e), rb)"
  by (simp add: stmt_def)

lemma stmt_no_fault [simp]: "stmt no_fault i rb k = k"
  by simp

lemma query_no_fault [simp]: "query no_fault i v = Inr v"
  by (simp add: query_def)

lemma stmt_snd_pres: "I rb \<Longrightarrow> I (snd k) \<Longrightarrow> I (snd (stmt io i rb k))"
  by (cases "io i") simp_all

lemma stmt_Inr_iff: "stmt io i rb k = (Inr v, d') \<longleftrightarrow> io i = None \<and> k = (Inr v, d')"
  by (cases "io i") simp_all

lemma stmt_split:
  "P (stmt io i rb k) \<longleftrightarrow> (\<forall>e. io i = Some e \<longrightarrow> P (Inl (DbError e), rb)) \<and> (io i = None \<longrightarrow> P k)"
  by (cases "io i") simp_all

text \<open>A method is atomic when every error outcome leaves the database it was called on.\<close>

definition atomic :: "db \<Rightarrow> 'a qres \<Rightarrow> bool" where
  "atomic d r \<longleftrightarrow> (\<forall>e. fst r = Inl e \<longrightarrow> snd r = d)"

lemma atomic_Inl [simp]: "atomic d (Inl e, d') \<longleftrightarrow> d' = d"
  by (auto simp: atomic_def)

lemma atomic_Inr [simp]: "atomic d (Inr v, d')"
  by (simp add: atomic_def)

lemma atomic_stmt [intro!]: "atomic d k \<Longrightarrow> atomic d (stmt io i d k)"
  by (cases "io i") simp_all

lemmas queue_op_defs = Enqueue_def EnqueueIfNoActive_def insert_task_def update_by_id_def
  SaveMultipartProgress_def UpdateStatus_def MarkFailed_def UpsertProcessedFile_def UpsertRule_def
  SaveReport_def TouchReport_def ResetReportTimers_def CompleteReported_def
  EnqueueMultipartAbort_def RecordMultipartAbortAttempt_def DeleteMultipartAbort_def
  abandon_tx_def MarkFailedAbandoned_def MarkCompletedAbandoningUpload_def

subsection \<open>Row updates keep the primary key\<close>

interpretation failed_row: key_preserving t_id "mark_failed_row stamp msg now" for stamp msg now
  by unfold_locales (simp add: mark_failed_row_def)

interpretation running_row: key_preserving t_id
  "\<lambda>r. r\<lparr>t_status := StatusRunning, t_updated_at := now\<rparr>" for now
  by unfold_locales simp

interpretation status_row: key_preserving t_id
  "\<lambda>r. r\<lparr>t_status := st, t_updated_at := now\<rparr>" for st now
  by unfold_locales simp

interpretation touch_row: key_preserving rp_task_id "\<lambda>r. r\<lparr>rp_last_reported_at := at\<rparr>" for at
  by unfold_locales simp

interpretation attempt_row: key_preserving a_upload_id
  "\<lambda>e. e\<lparr>a_attempts := a_attempts e + 1, a_next_attempt_at := at, a_last_error := Some msg\<rparr>" for at msg
  by unfold_locales simp

subsection \<open>Each method keeps the invariant\<close>

lemma unique_key_update_where:
  "(\<And>r. key (f r) = key r) \<Longrightarrow> unique_key key t \<Longrightarrow> unique_key key (update_where P f t)"
  by (rule key_preserving.unique_key_update [OF key_preserving.intro])

lemma queue_inv_stmt: "queue_inv rb \<Longrightarrow> queue_inv (snd k) \<Longrightarrow> queue_inv (snd (stmt io i rb k))"
  by (rule stmt_snd_pres)

lemma queue_inv_upd_tasks:
  assumes "queue_inv d" and "\<And>r. t_id (f r) = t_id r"
    and "\<And>r. 0 \<le> t_retry_count r \<Longrightarrow> 0 \<le> t_retry_count (f r)"
    and "\<And>r. P r \<Longrightarrow> t_status (f r) = StatusReported \<Longrightarrow> t_status r = StatusReported"
  shows "queue_inv (upd_tasks P f d)"
  using assms by (auto simp: queue_inv_def set_update_where unique_key_update_where)

lemma queue_inv_outbox:
  "queue_inv d \<Longrightarrow> unique_key a_upload_id ob \<Longrightarrow> queue_inv (d\<lparr>abort_outbox := ob\<rparr>)"
  by (auto simp: queue_inv_def)

lemma queue_inv_rules:
  "queue_inv d \<Longrightarrow> unique_key ru_id rs \<Longrightarrow> queue_inv (d\<lparr>rules_tbl := rs\<rparr>)"
  by (auto simp: queue_inv_def)

lemma queue_inv_covered:
  "queue_inv d \<longleftrightarrow>
     unique_key t_id (upload_tasks d) \<and> unique_key rp_task_id (upload_reports d) \<and>
     unique_key p_id (processed_files d) \<and> unique_key p_key (processed_files d) \<and>
     unique_key a_upload_id (abort_outbox d) \<and> unique_key ru_id (rules_tbl d) \<and>
     (\<forall>r\<in>set (upload_tasks d). 0 \<le> t_retry_count r) \<and>
     (\<forall>r\<in>set (upload_tasks d). t_status r = StatusReported \<longrightarrow>
        t_id r \<in> rp_task_id ` set (upload_reports d))"
  unfolding queue_inv_def image_iff by (simp add: eq_commute [of "t_id _"])

lemma queue_inv_reports:
  assumes "queue_inv d" and "unique_key rp_task_id rs"
    and "rp_task_id ` set (upload_reports d) \<subseteq> rp_task_id ` set rs"
  shows "queue_inv (d\<lparr>upload_reports := rs\<rparr>)"
  using assms unfolding queue_inv_covered by (simp add: subset_iff del: image_iff)

lemma queue_inv_retimed:
  "queue_inv d \<Longrightarrow> queue_inv (d\<lparr>upload_reports := update_where P (\<lambda>r. r\<lparr>rp_last_reported_at := at\<rparr>) (upload_reports d)\<rparr>)"
proof -
  assume inv: "queue_inv d"
  let ?rs = "update_where P (\<lambda>r. r\<lparr>rp_last_reported_at := at\<rparr>) (upload_reports d)"
  have "unique_key rp_task_id ?rs"
    using inv by (intro touch_row.unique_key_update) (simp add: queue_inv_def)
  with inv show ?thesis by (rule queue_inv_reports) (simp add: touch_row.keys_update)
qed

lemma queue_inv_record_abort: "queue_inv d \<Longrightarrow> queue_inv (record_abort t now d)"
  by (auto simp: record_abort_def queue_inv_def unique_key_insert_ignore)

lemma queue_inv_delete_tasks:
  "queue_inv d \<Longrightarrow> queue_inv (d\<lparr>upload_tasks := delete_where P (upload_tasks d)\<rparr>)"
  by (auto simp: queue_inv_def unique_key_delete set_delete_where)

lemma queue_inv_insert_task:
  "queue_inv d \<Longrightarrow> 0 \<le> t_retry_count row \<Longrightarrow> t_status row = StatusPending \<Longrightarrow>
   queue_inv (snd (insert_task row d v))"
  by (auto simp: insert_task_def queue_inv_def unique_key_snoc)

lemma queue_inv_update_by_id:
  assumes "queue_inv d" and "\<And>r. t_id (f r) = t_id r"
    and "\<And>r. 0 \<le> t_retry_count r \<Longrightarrow> 0 \<le> t_retry_count (f r)"
    and "\<And>r. t_status (f r) = StatusReported \<Longrightarrow> t_status r = StatusReported"
  shows "queue_inv (snd (update_by_id io tid f d))"
  unfolding update_by_id_def
  by (rule queue_inv_stmt) (auto intro!: queue_inv_upd_tasks assms)

lemma queue_inv_abandon_tx:
  assumes "queue_inv d" and "\<And>r. t_id (f r) = t_id r"
    and "\<And>r. 0 \<le> t_retry_count r \<Longrightarrow> 0 \<le> t_retry_count (f r)"
    and "\<And>r. t_status (f r) = StatusReported \<Longrightarrow> t_status r = StatusReported"
  shows "queue_inv (snd (abandon_tx io now t f d))"
  unfolding abandon_tx_def Let_def
  by (auto intro!: queue_inv_stmt queue_inv_record_abort queue_inv_upd_tasks assms)

lemma queue_inv_evict_loop: "queue_inv d \<Longrightarrow> queue_inv (snd (evict_loop n a io clk ex d))"
proof (induction n arbitrary: a)
  case 0
  then show ?case by simp
next
  case (Suc n)
  have tx: "queue_inv (d'\<lparr>upload_tasks := delete_where P (upload_tasks d')\<rparr>)"
    if "d' = record_abort t now d" for d' t now P
    using Suc.prems that by (simp add: queue_inv_delete_tasks queue_inv_record_abort)
  show ?case
    by (auto simp: Let_def split: list.split intro!: queue_inv_stmt Suc.prems Suc.IH tx)
qed

lemma mark_running_eq:
  "mark_running now t = upd_tasks (\<lambda>r. t_id r = t_id t) (\<lambda>r. r\<lparr>t_status := StatusRunning, t_updated_at := now\<rparr>)"
  by (simp add: mark_running_def fun_eq_iff)

lemma queue_inv_refresh_rows:
  "queue_inv d \<Longrightarrow> refresh_rows io clk stat j ts d = Inr d' \<Longrightarrow> queue_inv d'"
proof (induction ts arbitrary: j d)
  case Nil
  then show ?case by simp
next
  case (Cons t ts)
  have *: "queue_inv (upd_tasks (\<lambda>r. t_id r = t_id t)
      (\<lambda>r. r\<lparr>t_file_size := sz, t_file_mtime := mt, t_updated_at := now\<rparr>) d)" for sz mt now
    by (rule queue_inv_upd_tasks [OF Cons.prems(1)]) auto
  show ?case
    using Cons.prems(2) Cons.IH [OF *] Cons.IH [OF Cons.prems(1)]
    by (auto split: option.splits)
qed

lemma queue_inv_reset: "queue_inv d \<Longrightarrow> queue_inv (snd (ResetRunningToPending io clk stat d))"
  unfolding ResetRunningToPending_def Let_def
  by (auto split: sum.split intro!: queue_inv_stmt queue_inv_upd_tasks dest: queue_inv_refresh_rows)

lemma queue_inv_report_tx:
  assumes "queue_inv d"
  shows "queue_inv (upd_tasks (\<lambda>r. t_id r = tid \<and> Q r)
      (\<lambda>r. r\<lparr>t_status := StatusReported, t_updated_at := now\<rparr>) d
      \<lparr>upload_reports := upsert rp_task_id (\<lambda>old new. old\<lparr>rp_payload := rp_payload new, rp_last_reported_at := 0\<rparr>)
         \<lparr>rp_task_id = tid, rp_payload = payload, rp_last_reported_at = 0\<rparr> (upload_reports d)\<rparr>)"
    (is "queue_inv (_\<lparr>upload_reports := ?rs\<rparr>)")
proof -
  have keys: "rp_task_id ` set ?rs = insert tid (rp_task_id ` set (upload_reports d))"
    by (subst keys_upsert) auto
  have covered: "\<exists>p\<in>set ?rs. rp_task_id p = i" if "i = tid \<or> (\<exists>p\<in>set (upload_reports d). rp_task_id p = i)" for i
    using keys that by (metis (no_types, lifting) image_iff insert_iff)
  have uniq: "unique_key rp_task_id ?rs"
    using assms by (intro unique_key_upsert) (auto simp: queue_inv_def)
  show ?thesis
    using assms uniq
    by (auto simp: queue_inv_def set_update_where intro!: unique_key_update_where covered)
qed

lemma queue_inv_save_report: "queue_inv d \<Longrightarrow> queue_inv (snd (SaveReport io now tid payload d))"
  unfolding SaveReport_def Let_def
  using queue_inv_report_tx [where tid = tid and Q = "\<lambda>r. t_status r = StatusRunning \<or> t_status r = StatusFailed"]
  by (auto intro!: queue_inv_stmt)

lemma queue_inv_upsert_processed:
  assumes "queue_inv d" and "upsert_processed f new d = Inr d'"
    and key: "\<And>r. p_key (f r new) = p_key r"
    and ids: "(\<forall>r. p_id (f r new) = p_id r) \<or> (\<forall>r. p_id (f r new) = p_id new)"
  shows "queue_inv d'"
proof -
  let ?t = "processed_files d"
  have d': "d' = d\<lparr>processed_files := upsert p_key f new ?t\<rparr>"
    and no_other: "r \<in> set ?t \<Longrightarrow> p_id r = p_id new \<Longrightarrow> p_key r = p_key new" for r
    using assms(2) by (auto simp: upsert_processed_def exists_where_iff split: if_splits)
  have uid: "unique_key p_id ?t" and ukey: "unique_key p_key ?t"
    using assms(1) by (auto simp: queue_inv_def)
  have "unique_key p_id (upsert p_key f new ?t)"
  proof (cases "exists_where (\<lambda>r. p_key r = p_key new) ?t")
    case True
    have mixed: "r = s" if "r \<in> set ?t" "s \<in> set ?t" "p_key r = p_key new" "p_id (f r new) = p_id s" for r s
      using ids that no_other [of s] unique_keyD [OF uid, of r s] unique_keyD [OF ukey, of r s] by auto
    have eq: "r = s" if "r \<in> set ?t" "s \<in> set ?t" "p_id (if p_key r = p_key new then f r new else r)
        = p_id (if p_key s = p_key new then f s new else s)" for r s
    proof (cases "p_key r = p_key new"; cases "p_key s = p_key new")
      assume "p_key r = p_key new" "p_key s = p_key new"
      then show ?thesis using unique_keyD [OF ukey that(1,2)] by simp
    next
      assume "p_key r = p_key new" "p_key s \<noteq> p_key new"
      then show ?thesis using mixed [OF that(1,2)] that(3) by simp
    next
      assume "p_key r \<noteq> p_key new" "p_key s = p_key new"
      then show ?thesis using mixed [OF that(2,1)] that(3) by simp
    next
      assume "p_key r \<noteq> p_key new" "p_key s \<noteq> p_key new"
      then show ?thesis using unique_keyD [OF uid that(1,2)] that(3) by simp
    qed
    have "distinct ?t" using uid by (simp add: unique_key_def distinct_map)
    then have "unique_key p_id (update_where (\<lambda>r. p_key r = p_key new) (\<lambda>r. f r new) ?t)"
      unfolding unique_key_def update_where_def map_map distinct_map
      by (intro conjI inj_onI eq) (simp_all only: o_def)
    with True show ?thesis by (simp add: upsert_def)
  next
    case False
    with no_other have "\<not> exists_where (\<lambda>r. p_id r = p_id new) ?t"
      by (auto simp: exists_where_iff)
    with False uid show ?thesis by (simp add: upsert_def unique_key_snoc)
  qed
  moreover have "unique_key p_key (upsert p_key f new ?t)"
    by (rule unique_key_upsert) (rule key, rule ukey)
  ultimately show ?thesis using assms(1) d' by (auto simp: queue_inv_def)
qed

lemma queue_inv_upsert_processed_file: "queue_inv d \<Longrightarrow> queue_inv (snd (UpsertProcessedFile io now f d))"
  unfolding UpsertProcessedFile_def Let_def
  by (auto split: sum.split intro!: queue_inv_stmt elim: queue_inv_upsert_processed simp: p_key_def)

lemma queue_inv_acknowledge:
  "queue_inv d \<Longrightarrow> acknowledge_processed now tid d = Inr d' \<Longrightarrow> queue_inv d'"
  unfolding acknowledge_processed_def
  by (auto split: option.splits elim: queue_inv_upsert_processed simp: p_key_def)

text \<open>Between its UPDATE and its DELETE, CompleteReported only removes the report of a task that is no
  longer in status \<^verbatim>\<open>reported\<close>.\<close>

lemma queue_inv_drop_report:
  assumes "queue_inv d" and "\<And>r. r \<in> set (upload_tasks d) \<Longrightarrow> t_id r = tid \<Longrightarrow> t_status r \<noteq> StatusReported"
  shows "queue_inv (d\<lparr>upload_reports := delete_where (\<lambda>r. rp_task_id r = tid) (upload_reports d)\<rparr>)"
  using assms by (force simp: queue_inv_def set_delete_where unique_key_delete)

lemma acknowledge_tasks:
  "acknowledge_processed now tid d = Inr d' \<Longrightarrow> upload_tasks d' = upload_tasks d \<and> upload_reports d' = upload_reports d"
  by (auto simp: acknowledge_processed_def upsert_processed_def split: option.splits if_splits)

lemma queue_inv_complete: "queue_inv d \<Longrightarrow> queue_inv (snd (CompleteReported io clk tid uploaded sha d))"
proof -
  assume inv: "queue_inv d"
  let ?tx = "upd_tasks (\<lambda>r. t_id r = tid \<and> t_status r = StatusReported)
     (\<lambda>r. r\<lparr>t_status := StatusCompleted, t_sha256 := sha, t_updated_at := clk 0\<rparr>) d"
  have tx: "queue_inv ?tx" by (rule queue_inv_upd_tasks [OF inv]) auto
  have "\<forall>r\<in>set (upload_tasks ?tx). t_id r = tid \<longrightarrow> t_status r \<noteq> StatusReported"
    by (simp add: ball_update_where)
  then have done_rows: "t_status r \<noteq> StatusReported" if "r \<in> set (upload_tasks ?tx)" "t_id r = tid" for r
    using that by blast
  have fin: "queue_inv (d2\<lparr>upload_reports := delete_where (\<lambda>r. rp_task_id r = tid) (upload_reports d2)\<rparr>)"
    if "queue_inv d2" "upload_tasks d2 = upload_tasks ?tx" for d2
    using that done_rows by (intro queue_inv_drop_report) simp_all
  have ack: "queue_inv (d2\<lparr>upload_reports := delete_where (\<lambda>r. rp_task_id r = tid) (upload_reports d2)\<rparr>)"
    if "acknowledge_processed (clk 1) tid ?tx = Inr d2" for d2
    using fin queue_inv_acknowledge [OF tx that] acknowledge_tasks [OF that] by blast
  show ?thesis
    unfolding CompleteReported_def Let_def
    by (intro queue_inv_stmt inv)
      (use fin [OF tx refl] ack in \<open>simp add: inv queue_inv_stmt split: sum.split\<close>)
qed

lemma queue_inv_empty: "queue_inv empty_db"
  by (simp add: queue_inv_def empty_db_def)

lemma queue_inv_keys:
  assumes "queue_inv d"
  shows "unique_key t_id (upload_tasks d)" and "unique_key rp_task_id (upload_reports d)"
    and "unique_key a_upload_id (abort_outbox d)" and "unique_key ru_id (rules_tbl d)"
    and "unique_key p_key (processed_files d)"
  using assms by (auto simp: queue_inv_def)

lemmas queue_inv_intros = queue_inv_stmt queue_inv_insert_task queue_inv_update_by_id
  queue_inv_abandon_tx queue_inv_evict_loop queue_inv_upd_tasks queue_inv_outbox queue_inv_reset
  queue_inv_save_report queue_inv_upsert_processed_file queue_inv_complete queue_inv_rules queue_inv_retimed

lemma queue_step_inv: "queue_step d d' \<Longrightarrow> queue_inv d \<Longrightarrow> queue_inv d'"
proof (induction rule: queue_step.induct)
  case (step_enqueue task d io now)
  then show ?case
    by (auto simp: Enqueue_def prepareEnqueue_def inserted_row_def Let_def intro!: queue_inv_intros)
next
  case (step_enqueue_if task d io now)
  then show ?case
    by (auto simp: EnqueueIfNoActive_def prepareEnqueue_def inserted_row_def Let_def intro!: queue_inv_intros)
qed (auto simp: DeleteOldestEvictable_def mark_running_eq SaveMultipartProgress_def UpdateStatus_def
    MarkFailed_def mark_failed_row_def MarkFailedAbandoned_def MarkCompletedAbandoningUpload_def
    UpsertRule_def TouchReport_def ResetReportTimers_def EnqueueMultipartAbort_def
    RecordMultipartAbortAttempt_def DeleteMultipartAbort_def Let_def queue_inv_keys
    intro!: queue_inv_intros unique_key_upsert unique_key_insert_ignore unique_key_delete
      attempt_row.unique_key_update)

interpretation queue_sys: invariant_system "\<lambda>d. d = empty_db" queue_step queue_inv
  by unfold_locales (auto simp: queue_inv_empty queue_step_inv)

end
