(* ===== verification/Queue_Laws.thy ===== *)
theory Queue_Laws
  imports Queue
begin

text \<open>
  What the SQLite queue guarantees: the invariant of every reachable database, atomicity of its
  transactions, single flight of a file version, the eviction order, the dequeue order (and that two
  interleaved dequeues may return the same task), crash recovery, abandonment coupled with the abort
  outbox, and the report life cycle.
\<close>

section \<open>Properties\<close>

subsection \<open>Reachable databases\<close>

text \<open>
  C2: in every database the agent's goroutines can produce from an empty one, whatever the interleaving
  of their queue calls and the driver faults: task ids, report ids, abort upload ids, rule ids and
  (rule, path) of processed files are unique, retry counts are never negative, and a task in status
  reported has its report stored.
\<close>

theorem reachable_queue_inv:
  "reach (\<lambda>d. d = empty_db) queue_step d \<Longrightarrow> queue_inv d"
  by (rule queue_sys.reach_inv)

theorem reachable_queue_inv_witness:
  "reach (\<lambda>d. d = empty_db) queue_step (snd (Enqueue no_fault 5 sample_task empty_db)) \<and>
   queue_inv (snd (Enqueue no_fault 5 sample_task empty_db))"
proof -
  have "0 \<le> t_retry_count sample_task" by (simp add: sample_task_def)
  then have r: "reach (\<lambda>d. d = empty_db) queue_step (snd (Enqueue no_fault 5 sample_task empty_db))"
    by (intro reach_step [OF reach_init, of _ empty_db] step_enqueue) simp_all
  show ?thesis using r reachable_queue_inv [OF r] by blast
qed

subsection \<open>Transactions\<close>

lemma atomic_evict_loop: "atomic d (evict_loop n a io clk ex d)"
  by (induction n arbitrary: a) (auto simp: Let_def split: list.split)

lemma atomic_reset: "atomic d (ResetRunningToPending io clk stat d)"
  by (auto simp: ResetRunningToPending_def Let_def split: sum.split)

lemma atomic_abandon_tx: "atomic d (abandon_tx io now t f d)"
  by (auto simp: abandon_tx_def Let_def)


subsection \<open>Enqueue and eviction\<close>

lemma same_version_prepare [simp]:
  "same_version (prepareEnqueue now task) r = same_version task r"
  by (simp add: same_version_def prepareEnqueue_def Let_def)

lemma inserted_row_facts [simp]:
  "t_status (inserted_row (prepareEnqueue now task)) = StatusPending"
  "t_id (inserted_row (prepareEnqueue now task)) = t_id task"
  "same_version task (inserted_row (prepareEnqueue now task))"
  by (simp_all add: inserted_row_def prepareEnqueue_def same_version_def Let_def)

text \<open>
  EnqueueIfNoActive inserts exactly when no pending, running or reported row holds the same (rule,
  path, mtime, size); afterwards such a row exists, exactly one when there was none, and a second
  submission of that file version, under whatever task id and time, inserts nothing.
\<close>

theorem EnqueueIfNoActive_single_flight:
  assumes "EnqueueIfNoActive io now task d = (Inr b, d')"
  shows "b = (active_versions task d = 0) \<and>
    active_versions task d' = max 1 (active_versions task d) \<and>
    fst (EnqueueIfNoActive no_fault now2 (task\<lparr>t_id := tid2\<rparr>) d') = Inr False"
proof -
  have same: "same_version (task\<lparr>t_id := tid2\<rparr>) = same_version task"
    by (auto simp: same_version_def fun_eq_iff)
  show ?thesis
    using assms
    by (auto simp: EnqueueIfNoActive_def insert_task_def Let_def stmt_Inr_iff sql_simps is_active_def
        active_versions_def Suc_le_eq same max_def split: if_splits)
qed

theorem EnqueueIfNoActive_single_flight_witness:
  "EnqueueIfNoActive no_fault 9 sample_task empty_db = (Inr True, empty_db\<lparr>upload_tasks := [sample_task]\<rparr>) \<and>
   active_versions sample_task (empty_db\<lparr>upload_tasks := [sample_task]\<rparr>) = 1"
proof -
  have run: "EnqueueIfNoActive no_fault 9 sample_task empty_db = (Inr True, empty_db\<lparr>upload_tasks := [sample_task]\<rparr>)"
    by code_simp
  have "active_versions sample_task empty_db = 0" by code_simp
  with run show ?thesis using EnqueueIfNoActive_single_flight [OF run] by simp
qed

lemma sql_limit_1: "sql_limit 1 xs = t # ts \<Longrightarrow> \<exists>rest. xs = t # rest"
  by (cases xs) (auto simp: sql_limit_def)

lemma sql_limit_1_nil: "sql_limit 1 xs = [] \<longleftrightarrow> xs = []"
  by (cases xs) (auto simp: sql_limit_def)

lemma evictable_head:
  assumes "sql_limit 1 (evictable_candidates ex d) = t # ts"
  shows "t \<in> set (upload_tasks d) \<and> is_evictable t \<and> t_id t \<noteq> ex \<and>
    (\<forall>r\<in>set (upload_tasks d). is_evictable r \<and> t_id r \<noteq> ex \<longrightarrow> t_created_at t \<le> t_created_at r)"
proof -
  obtain rest where c: "evictable_candidates ex d = t # rest"
    using sql_limit_1 [OF assms] by blast
  then have "t \<in> set (evictable_candidates ex d)" by simp
  then have "t \<in> set (upload_tasks d) \<and> is_evictable t \<and> t_id t \<noteq> ex"
    by (simp add: evictable_candidates_def sql_simps)
  moreover have "t_created_at t \<le> t_created_at r"
    if "r \<in> set (upload_tasks d)" "is_evictable r" "t_id r \<noteq> ex" for r
    using order_by_hd_least [OF c [unfolded evictable_candidates_def], of r] that
    by (simp add: sql_simps)
  ultimately show ?thesis by blast
qed

lemma record_abort_tasks [simp]: "upload_tasks (record_abort t now d) = upload_tasks d"
  by (simp add: record_abort_def)

lemma record_abort_recorded: "t_upload_id t \<noteq> '''' \<Longrightarrow> abort_recorded (t_upload_id t) (record_abort t now d)"
  using insert_ignore_present [of a_upload_id "fresh_abort t now" "abort_outbox d"]
  by (simp add: abort_recorded_def record_abort_def fresh_abort_def)

lemma record_abort_keeps: "set (abort_outbox d) \<subseteq> set (abort_outbox (record_abort t now d))"
  by (simp add: record_abort_def set_insert_ignore_subset)

lemma evict_loop_evicts:
  assumes "unique_key t_id (upload_tasks d)" and "evict_loop (Suc n) a io clk ex d = (Inr res, d')"
  shows "evicts ex d res d'"
proof (cases "sql_limit 1 (evictable_candidates ex d)")
  case Nil
  then have "d' = d" "res = None" using assms(2) by (auto simp: stmt_Inr_iff)
  moreover have "\<forall>r\<in>set (upload_tasks d). is_evictable r \<longrightarrow> t_id r = ex"
    using Nil by (auto simp: sql_limit_1_nil evictable_candidates_def sql_simps
        select_where_def filter_empty_conv)
  ultimately show ?thesis by (simp add: evicts_def)
next
  case (Cons t ts)
  note head = evictable_head [OF Cons]
  have hit: "count_where (\<lambda>r. t_id r = t_id t \<and> is_evictable r) (upload_tasks d) \<noteq> 0"
    using head by (auto simp: count_where_zero)
  have only: "r \<in> set (upload_tasks d) \<Longrightarrow> t_id r = t_id t \<Longrightarrow> is_evictable r" for r
    using unique_keyD [OF assms(1), of r t] head by auto
  have del: "delete_where (\<lambda>r. t_id r = t_id t \<and> is_evictable r) (upload_tasks d)
      = filter (\<lambda>r. t_id r \<noteq> t_id t) (upload_tasks d)"
    unfolding delete_where_def by (rule filter_cong) (auto dest: only)
  have res: "res = Some t" and d': "d' = (record_abort t (clk a) d)\<lparr>upload_tasks :=
      filter (\<lambda>r. t_id r \<noteq> t_id t) (upload_tasks d)\<rparr>"
    using assms(2) hit by (auto simp: Cons Let_def stmt_Inr_iff del split: if_splits)
  show ?thesis
    using head record_abort_recorded [of t "clk a" d] record_abort_keeps [of d t "clk a"]
    by (simp add: evicts_def res d' abort_recorded_def) (simp add: record_abort_def)
qed

text \<open>
  DeleteOldestEvictable either finds nothing to evict and changes nothing, or removes exactly one
  row: a pending or failed one, never the excluded task and never a running or reported one, the
  oldest of those; and in the same transaction it leaves an abort record for the victim's multipart
  upload and drops no abort record, report or processed file.
\<close>

theorem DeleteOldestEvictable_evicts:
  assumes "unique_key t_id (upload_tasks d)" and "DeleteOldestEvictable io clk ex d = (Inr res, d')"
  shows "evicts ex d res d'"
  using assms evict_loop_evicts [of d 7] by (simp add: DeleteOldestEvictable_def numeral_eq_Suc del: evict_loop.simps)

theorem DeleteOldestEvictable_evicts_witness:
  "unique_key t_id (upload_tasks sample_db) \<and>
   (\<exists>d'. DeleteOldestEvictable no_fault (\<lambda>_. 9) ''t2'' sample_db = (Inr (Some sample_task), d') \<and>
     evicts ''t2'' sample_db (Some sample_task) d' \<and> abort_recorded ''u1'' d')"
proof -
  have u: "unique_key t_id (upload_tasks sample_db)" by code_simp
  have r: "fst (DeleteOldestEvictable no_fault (\<lambda>_. 9) ''t2'' sample_db) = Inr (Some sample_task)"
    by code_simp
  then obtain d' where run: "DeleteOldestEvictable no_fault (\<lambda>_. 9) ''t2'' sample_db = (Inr (Some sample_task), d')"
    by (metis prod.collapse)
  have "evicts ''t2'' sample_db (Some sample_task) d'"
    by (rule DeleteOldestEvictable_evicts [OF u run])
  with u run show ?thesis by (auto simp: evicts_def sample_task_def)
qed

subsection \<open>Dequeue\<close>

lemma dequeue_mark_ok:
  "dequeue_mark (\<lambda>_. None) i now acc ts d =
     (Inr (rev acc @ map (running_copy now) ts),
      upd_tasks (\<lambda>r. t_id r \<in> t_id ` set ts) (running_copy now) d)"
proof (induction ts arbitrary: i acc d)
  case Nil
  then show ?case by (simp add: update_where_id)
next
  case (Cons t ts)
  have "update_where (\<lambda>r. t_id r \<in> t_id ` set ts) (running_copy now)
      (update_where (\<lambda>r. t_id r = t_id t) (running_copy now) rows)
    = update_where (\<lambda>r. t_id r \<in> t_id ` set (t # ts)) (running_copy now) rows" for rows
    by (auto simp: update_where_def running_copy_def)
  then show ?case
    by (simp add: Cons.IH mark_running_def running_copy_def [symmetric, abs_def]
        running_copy_def [symmetric])
qed

lemma dequeue_select_set: "set (dequeue_select lim d) \<subseteq> {r \<in> set (upload_tasks d). t_status r = StatusPending}"
  by (auto simp: dequeue_select_def sql_limit_def sql_simps dest: in_set_takeD split: if_splits)

lemma take_sorted_before:
  assumes "sorted (map k xs)" and "r \<in> set (take n xs)" and "s \<in> set xs" and "s \<notin> set (take n xs)"
  shows "k r \<le> k s"
proof -
  have "s \<in> set (drop n xs)"
    using assms(3,4) by (metis Un_iff append_take_drop_id set_append)
  moreover have "sorted (map k (take n xs) @ map k (drop n xs))"
    using assms(1) by (metis append_take_drop_id map_append)
  ultimately show ?thesis using assms(2) by (auto simp: sorted_append)
qed

lemma dequeue_select_oldest:
  assumes "r \<in> set (dequeue_select lim d)" and "s \<in> set (upload_tasks d)"
    and "t_status s = StatusPending" and "s \<notin> set (dequeue_select lim d)"
  shows "t_created_at r \<le> t_created_at s"
proof -
  let ?xs = "order_by t_created_at (select_where (\<lambda>r. t_status r = StatusPending) (upload_tasks d))"
  have "s \<in> set ?xs" using assms by (simp add: sql_simps)
  then show ?thesis
    using take_sorted_before [OF sorted_order_by, of r "nat lim" t_created_at _ s] assms
    by (auto simp: dequeue_select_def sql_limit_def split: if_splits)
qed

text \<open>
  A DequeuePending that runs without interference returns the min(limit, pending) oldest pending
  tasks, oldest first and already marked running; every row that is still pending is no older
  than any returned one, and the stored rows are those of before with exactly the returned ones
  marked running.
\<close>

theorem DequeuePending_oldest_first:
  assumes "unique_key t_id (upload_tasks d)" and "0 \<le> lim"
  shows "\<exists>ts d'. DequeuePending no_fault now lim d = (Inr ts, d') \<and>
    ts = map (running_copy now) (dequeue_select lim d) \<and>
    length ts = min (nat lim) (count_where (\<lambda>r. t_status r = StatusPending) (upload_tasks d)) \<and>
    sorted (map t_created_at ts) \<and>
    (\<forall>r\<in>set (upload_tasks d'). t_status r = StatusPending \<longrightarrow>
        r \<in> set (upload_tasks d) \<and> (\<forall>t\<in>set ts. t_created_at t \<le> t_created_at r)) \<and>
    upload_tasks d' = map (\<lambda>r. if r \<in> set (dequeue_select lim d) then running_copy now r else r) (upload_tasks d)"
proof -
  let ?sel = "dequeue_select lim d"
  have sel: "r \<in> set ?sel \<longleftrightarrow> t_id r \<in> t_id ` set ?sel" if "r \<in> set (upload_tasks d)" for r
    using that dequeue_select_set [of lim d] unique_keyD [OF assms(1), of r] by blast
  have run: "DequeuePending no_fault now lim d = (Inr (map (running_copy now) ?sel),
      upd_tasks (\<lambda>r. t_id r \<in> t_id ` set ?sel) (running_copy now) d)"
    by (simp add: DequeuePending_def dequeue_mark_ok no_fault_def)
  have tasks: "update_where (\<lambda>r. t_id r \<in> t_id ` set ?sel) (running_copy now) (upload_tasks d)
      = map (\<lambda>r. if r \<in> set ?sel then running_copy now r else r) (upload_tasks d)"
    unfolding update_where_def by (rule map_cong [OF refl]) (simp only: sel)
  have "length ?sel = min (nat lim) (count_where (\<lambda>r. t_status r = StatusPending) (upload_tasks d))"
    using assms(2) by (simp add: dequeue_select_def sql_limit_def sql_simps count_where_def select_where_def)
  moreover have "sorted (map t_created_at ?sel)"
    unfolding dequeue_select_def sql_limit_def
    by (simp add: sorted_order_by sorted_wrt_take take_map [symmetric])
  ultimately show ?thesis
    using dequeue_select_oldest [of _ lim d]
    by (auto simp: run tasks running_copy_def o_def split: if_splits)
qed

theorem DequeuePending_oldest_first_witness:
  "unique_key t_id (upload_tasks sample_db) \<and>
   length (dequeue_select 1 sample_db) = min (nat 1) (count_where (\<lambda>r. t_status r = StatusPending) (upload_tasks sample_db))"
proof -
  have u: "unique_key t_id (upload_tasks sample_db)" by code_simp
  show ?thesis using u DequeuePending_oldest_first [OF u, of 1 0] by auto
qed

subsection \<open>Two dequeues that interleave\<close>

text \<open>
  DequeuePending is not mutually exclusive.  Its SELECT and its UPDATEs are separate statements, the
  UPDATE is not guarded by the status, and there is no transaction: when two workers both run their
  SELECT before either runs its UPDATE, both are handed the same task.
\<close>

theorem dequeue_interleaving_hands_out_twice:
  "queue_inv sample_db \<and>
   (let a = dequeue_select 1 sample_db; b = dequeue_select 1 sample_db;
        (ra, d1) = dequeue_mark no_fault 1 7 [] a sample_db;
        (rb, d2) = dequeue_mark no_fault 1 8 [] b d1
    in map_sum (\<lambda>_. ()) (map t_id) ra = Inr [''t2''] \<and> map_sum (\<lambda>_. ()) (map t_id) rb = Inr [''t2''])"
  by code_simp

subsection \<open>Giving an upload up\<close>

lemma abandon_tx_Inr:
  assumes "abandon_tx io now t f d = (Inr u, d')"
  shows "(\<exists>r\<in>set (upload_tasks d). t_id r = t_id t) \<and>
    upload_tasks d' = update_where (\<lambda>r. t_id r = t_id t) f (upload_tasks d) \<and>
    (t_upload_id t \<noteq> '''' \<longrightarrow> abort_recorded (t_upload_id t) d') \<and>
    set (abort_outbox d) \<subseteq> set (abort_outbox d')"
  using assms record_abort_recorded [of t now "upd_tasks (\<lambda>r. t_id r = t_id t) f d"]
    record_abort_keeps [of "upd_tasks (\<lambda>r. t_id r = t_id t) f d" t now]
  by (auto simp: abandon_tx_def Let_def stmt_Inr_iff sql_simps split: if_splits)

lemma filter_update_other:
  "(\<And>r. P r \<Longrightarrow> \<not> Q r) \<Longrightarrow> (\<And>r. P r \<Longrightarrow> \<not> Q (f r)) \<Longrightarrow> filter Q (update_where P f t) = filter Q t"
  by (induction t) (auto simp: update_where_def)

lemma bex_update_where: "(\<exists>r\<in>set (update_where P f t). Q r) \<longleftrightarrow> (\<exists>r\<in>set t. Q (if P r then f r else r))"
  unfolding update_where_def set_map by (rule bex_simps)

lemma given_up_abandon_tx:
  assumes "abandon_tx io now t f d = (Inr u, d')"
    and "\<And>r. t_id (f r) = t_id r" and "\<And>r. t_status (f r) = st"
    and "\<And>r. st = StatusFailed \<Longrightarrow> t_next_retry_at (f r) = NextRetryNever"
  shows "given_up st t d d'"
  using abandon_tx_Inr [OF assms(1)] assms(2-4)
  by (simp add: given_up_def ball_update_where bex_update_where filter_update_other)

text \<open>
  Giving a task up is one durable transition: when MarkFailedAbandoned or
  MarkCompletedAbandoningUpload succeeds, the task's row carries the terminal status (failed with the
  never-retry stamp, or completed), every other row is unchanged, the multipart upload the task held is
  in the abort outbox, and no abort record is lost.
\<close>

theorem abandonment_couples_abort:
  assumes "MarkFailedAbandoned io clk t msg d = (Inr u, d') \<and> st = StatusFailed \<or>
    MarkCompletedAbandoningUpload io clk t d = (Inr u, d') \<and> st = StatusCompleted"
  shows "given_up st t d d'"
  using assms
  by (auto simp: MarkFailedAbandoned_def MarkCompletedAbandoningUpload_def mark_failed_row_def
      intro: given_up_abandon_tx)

theorem abandonment_couples_abort_witness:
  "\<exists>d'. MarkFailedAbandoned no_fault (\<lambda>_. 9) sample_task ''gone'' sample_db = (Inr (), d') \<and>
     given_up StatusFailed sample_task sample_db d' \<and> abort_recorded ''u1'' d'"
proof -
  have "fst (MarkFailedAbandoned no_fault (\<lambda>_. 9) sample_task ''gone'' sample_db) = Inr ()"
    by code_simp
  then obtain d' where run: "MarkFailedAbandoned no_fault (\<lambda>_. 9) sample_task ''gone'' sample_db = (Inr (), d')"
    by (metis prod.collapse)
  have "given_up StatusFailed sample_task sample_db d'"
    by (rule abandonment_couples_abort) (use run in blast)
  with run show ?thesis by (auto simp: given_up_def sample_task_def)
qed

subsection \<open>Reports\<close>

lemma save_report_effect:
  assumes "SaveReport io now tid payload d = (Inr u, d')"
  shows "GetReport no_fault tid d' = Inr payload \<and>
    (\<exists>r\<in>set (upload_tasks d'). t_id r = tid \<and> t_status r = StatusReported) \<and>
    (\<exists>p\<in>set (upload_reports d'). rp_task_id p = tid \<and> rp_payload p = payload \<and> rp_last_reported_at p = 0)"
proof -
  let ?new = "\<lparr>rp_task_id = tid, rp_payload = payload, rp_last_reported_at = 0\<rparr>"
  let ?f = "\<lambda>old new. old\<lparr>rp_payload := rp_payload new, rp_last_reported_at := 0\<rparr>"
  have d': "upload_reports d' = upsert rp_task_id ?f ?new (upload_reports d)"
    and tasks: "\<exists>r\<in>set (upload_tasks d'). t_id r = tid \<and> t_status r = StatusReported"
    using assms by (auto simp: SaveReport_def Let_def stmt_Inr_iff bex_update_where count_where_pos
        split: if_splits)
  have look: "find_row rp_task_id tid (upload_reports d') =
      Some (case find_row rp_task_id tid (upload_reports d) of None \<Rightarrow> ?new | Some r \<Rightarrow> ?f r ?new)"
    using upsert_lookup [of rp_task_id ?new ?f "upload_reports d"] d' by simp
  then obtain p where p: "find_row rp_task_id tid (upload_reports d') = Some p"
    "rp_payload p = payload" "rp_last_reported_at p = 0"
    by (cases "find_row rp_task_id tid (upload_reports d)") auto
  have "p \<in> set (upload_reports d')" "rp_task_id p = tid"
    using p(1) by (auto simp: find_row_def find_Some_iff)
  then show ?thesis using p tasks by (auto simp: GetReport_def)
qed

text \<open>
  Once SaveReport succeeds, GetReport returns the saved payload, the task is in status reported and
  its report is due immediately (its timer is zero).
\<close>

theorem SaveReport_roundtrip:
  assumes "SaveReport io now tid payload d = (Inr u, d')"
  shows "GetReport no_fault tid d' = Inr payload \<and>
    (\<exists>r\<in>set (upload_tasks d'). t_id r = tid \<and> t_status r = StatusReported) \<and>
    (\<exists>p\<in>set (upload_reports d'). rp_task_id p = tid \<and> rp_payload p = payload \<and> rp_last_reported_at p = 0)"
  by (rule save_report_effect [OF assms])

theorem SaveReport_roundtrip_witness:
  "\<exists>d'. SaveReport no_fault 9 ''t1'' ''pb'' (mark_running 8 sample_task sample_db) = (Inr (), d') \<and>
     GetReport no_fault ''t1'' d' = Inr ''pb''"
proof -
  have "fst (SaveReport no_fault 9 ''t1'' ''pb'' (mark_running 8 sample_task sample_db)) = Inr ()"
    by code_simp
  then obtain d' where run: "SaveReport no_fault 9 ''t1'' ''pb'' (mark_running 8 sample_task sample_db) = (Inr (), d')"
    by (metis prod.collapse)
  with SaveReport_roundtrip [OF run] show ?thesis by blast
qed

lemma refreshed_keeps [simp]:
  "t_id (refreshed stat r) = t_id r" "t_status (refreshed stat r) = t_status r"
  "t_local_path (refreshed stat r) = t_local_path r"
  by (simp_all add: refreshed_def split: option.split)

lemma own_stamp: "\<exists>u. r = r\<lparr>t_updated_at := u\<rparr>" for r :: upload_task
  by (rule exI [of _ "t_updated_at r"]) simp

lemma refreshed_to_skip:
  assumes "t_id r = t_id t \<Longrightarrow> t_local_path r = t_local_path t" and "stat (t_local_path t) = None"
    and "refreshed_to stat ts r r'"
  shows "refreshed_to stat (t # ts) r r'"
  using assms own_stamp [of r] by (auto simp: refreshed_to_def refreshed_def split: if_splits)

lemma refreshed_to_update:
  assumes "t_id r = t_id t \<Longrightarrow> t_local_path r = t_local_path t" and "stat (t_local_path t) = Some (sz, mt)"
    and to: "refreshed_to stat ts
      (if t_id r = t_id t then r\<lparr>t_file_size := sz, t_file_mtime := mt, t_updated_at := u\<rparr> else r) r'"
  shows "refreshed_to stat (t # ts) r r'"
proof (cases "t_id r = t_id t")
  case True
  then have path: "stat (t_local_path r) = Some (sz, mt)" using assms by simp
  then have "r' = (refreshed stat r)\<lparr>t_updated_at := u\<rparr> \<or>
      (\<exists>v. r' = (refreshed stat r)\<lparr>t_updated_at := v\<rparr>)"
    using to True by (auto simp: refreshed_to_def refreshed_def split: if_splits)
  then show ?thesis using True by (auto simp: refreshed_to_def)
next
  case False
  then show ?thesis using to by (simp add: refreshed_to_def)
qed

lemma refresh_rows_sound:
  assumes "refresh_rows io clk stat j ts d = Inr d'"
    and "\<And>r t. r \<in> set (upload_tasks d) \<Longrightarrow> t \<in> set ts \<Longrightarrow> t_id r = t_id t \<Longrightarrow> t_local_path r = t_local_path t"
  shows "list_all2 (refreshed_to stat ts) (upload_tasks d) (upload_tasks d')"
  using assms
proof (induction ts arbitrary: j d)
  case Nil
  then show ?case by (simp add: refreshed_to_def list_all2_refl)
next
  case (Cons t ts)
  show ?case
  proof (cases "stat (t_local_path t)")
    case None
    have "list_all2 (refreshed_to stat ts) (upload_tasks d) (upload_tasks d')"
      using Cons.prems None by (intro Cons.IH) auto
    then show ?thesis
      by (rule list.rel_mono_strong) (rule refreshed_to_skip, use Cons.prems(2) None in auto)
  next
    case (Some p)
    obtain sz mt where p: "p = (sz, mt)" by (cases p)
    let ?f = "\<lambda>r. r\<lparr>t_file_size := sz, t_file_mtime := mt, t_updated_at := clk j\<rparr>"
    let ?rows = "update_where (\<lambda>r. t_id r = t_id t) ?f (upload_tasks d)"
    have run: "refresh_rows io clk stat (Suc j) ts (upd_tasks (\<lambda>r. t_id r = t_id t) ?f d) = Inr d'"
      using Cons.prems(1) Some p by (auto split: option.splits)
    have "\<forall>r\<in>set ?rows. \<forall>s\<in>set ts. t_id r = t_id s \<longrightarrow> t_local_path r = t_local_path s"
      using Cons.prems(2) by (simp add: ball_update_where)
    then have "list_all2 (refreshed_to stat ts) ?rows (upload_tasks d')"
      using Cons.IH [OF run] by simp
    then have "list_all2 (\<lambda>r. refreshed_to stat ts (if t_id r = t_id t then ?f r else r))
        (upload_tasks d) (upload_tasks d')"
      by (simp add: update_where_def list.rel_map)
    then show ?thesis
      by (rule list.rel_mono_strong) (rule refreshed_to_update, use Cons.prems(2) Some p in auto)
  qed
qed

lemma refresh_rows_frame:
  "refresh_rows io clk stat j ts d = Inr d' \<Longrightarrow> abort_outbox d' = abort_outbox d \<and>
     upload_reports d' = upload_reports d \<and> processed_files d' = processed_files d"
  by (induction io clk stat j ts d rule: refresh_rows.induct) (auto split: option.splits)

lemma list_all2_map_eq:
  "list_all2 P xs ys \<Longrightarrow> (\<And>x y. x \<in> set xs \<Longrightarrow> P x y \<Longrightarrow> f x = g y) \<Longrightarrow> map f xs = map g ys"
  by (induction rule: list_all2_induct) auto

lemma reset_running_effect:
  assumes uniq: "unique_key t_id (upload_tasks d)"
    and run: "ResetRunningToPending io clk stat d = (Inr n, d')"
  shows "upload_tasks d' = map (\<lambda>r. if t_status r = StatusRunning
        then (refreshed stat r)\<lparr>t_status := StatusPending, t_updated_at := clk n\<rparr> else r) (upload_tasks d) \<and>
    n = count_where (\<lambda>r. t_status r = StatusRunning) (upload_tasks d) \<and>
    abort_outbox d' = abort_outbox d \<and> upload_reports d' = upload_reports d \<and>
    processed_files d' = processed_files d"
proof -
  let ?R = "\<lambda>r. t_status r = StatusRunning"
  let ?ts = "running_rows d"
  have in_ts: "t_id r \<in> t_id ` set ?ts \<longleftrightarrow> ?R r" if "r \<in> set (upload_tasks d)" for r
    using that unique_keyD [OF uniq that] by (auto simp: running_rows_def sql_simps)
  have len: "length ?ts = count_where ?R (upload_tasks d)"
    by (simp add: running_rows_def sql_simps count_where_def select_where_def)
  obtain tx where tx: "refresh_rows io clk stat 0 ?ts d = Inr tx"
    and n: "n = count_where ?R (upload_tasks tx)"
    and d': "d' = upd_tasks ?R (\<lambda>r. r\<lparr>t_status := StatusPending, t_updated_at := clk (length ?ts)\<rparr>) tx"
    using run by (auto simp: ResetRunningToPending_def Let_def stmt_Inr_iff split: sum.splits)
  have rel: "list_all2 (refreshed_to stat ?ts) (upload_tasks d) (upload_tasks tx)"
    by (rule refresh_rows_sound [OF tx]) (use unique_keyD [OF uniq] in \<open>auto simp: running_rows_def sql_simps\<close>)
  have "map ?R (upload_tasks d) = map ?R (upload_tasks tx)"
    by (rule list_all2_map_eq [OF rel]) (auto simp: refreshed_to_def split: if_splits)
  then have "length (filter id (map ?R (upload_tasks d))) = length (filter id (map ?R (upload_tasks tx)))"
    by simp
  then have n': "n = count_where ?R (upload_tasks d)"
    by (simp add: n count_where_def filter_map o_def)
  have "map (\<lambda>r. if ?R r then (refreshed stat r)\<lparr>t_status := StatusPending, t_updated_at := clk n\<rparr> else r) (upload_tasks d)
      = map (\<lambda>r. if ?R r then r\<lparr>t_status := StatusPending, t_updated_at := clk n\<rparr> else r) (upload_tasks tx)"
    by (rule list_all2_map_eq [OF rel]) (auto simp: refreshed_to_def in_ts split: if_splits)
  then show ?thesis
    using refresh_rows_frame [OF tx] by (simp add: d' len n' update_where_def)
qed

text \<open>
  Crash recovery.  ResetRunningToPending turns every running row, and no other, back into a pending
  one with size and mtime re-read from the file system when the file still exists, keeps everything
  else of the row (upload id and completed parts included) and the other tables, and returns the
  number of rows it reset.
\<close>

theorem ResetRunningToPending_requeues:
  assumes uniq: "unique_key t_id (upload_tasks d)"
    and run: "ResetRunningToPending io clk stat d = (Inr n, d')"
  shows "upload_tasks d' = map (\<lambda>r. if t_status r = StatusRunning
        then (refreshed stat r)\<lparr>t_status := StatusPending, t_updated_at := clk n\<rparr> else r) (upload_tasks d) \<and>
    n = count_where (\<lambda>r. t_status r = StatusRunning) (upload_tasks d) \<and>
    abort_outbox d' = abort_outbox d \<and> upload_reports d' = upload_reports d \<and>
    processed_files d' = processed_files d"
  by (rule reset_running_effect [OF uniq run])

theorem ResetRunningToPending_requeues_witness:
  "\<exists>d'. ResetRunningToPending no_fault (\<lambda>_. 9) (\<lambda>_. Some (11, 21)) (mark_running 8 sample_task sample_db) = (Inr 1, d') \<and>
     1 = count_where (\<lambda>r. t_status r = StatusRunning) (upload_tasks (mark_running 8 sample_task sample_db))"
proof -
  let ?d = "mark_running 8 sample_task sample_db"
  have u: "unique_key t_id (upload_tasks ?d)" by code_simp
  have "fst (ResetRunningToPending no_fault (\<lambda>_. 9) (\<lambda>_. Some (11, 21)) ?d) = Inr 1" by code_simp
  then obtain d' where run: "ResetRunningToPending no_fault (\<lambda>_. 9) (\<lambda>_. Some (11, 21)) ?d = (Inr 1, d')"
    by (metis prod.collapse)
  with ResetRunningToPending_requeues [OF u run] show ?thesis by blast
qed

subsection \<open>Acknowledgement\<close>

lemma upsert_processed_is_processed:
  assumes "upsert_processed f new d = Inr d'"
    and "\<And>r. p_key (f r new) = p_key r" and "\<And>r. p_file_size (f r new) = p_file_size new"
    and "\<And>r. p_file_mtime (f r new) = p_file_mtime new"
  shows "IsProcessed no_fault (p_rule_id new) (p_local_path new) (p_file_mtime new) (p_file_size new) d' = Inr True"
proof -
  have t: "processed_files d' = upsert p_key f new (processed_files d)"
    using assms(1) by (auto simp: upsert_processed_def split: if_splits)
  have "find_row p_key (p_key new) (processed_files d') =
      Some (case find_row p_key (p_key new) (processed_files d) of None \<Rightarrow> new | Some r \<Rightarrow> f r new)"
    unfolding t using assms(2) by (intro upsert_lookup) simp
  then obtain p where "p \<in> set (processed_files d')" "p_key p = p_key new"
      "p_file_size p = p_file_size new" "p_file_mtime p = p_file_mtime new"
    using assms(3,4) unfolding find_row_def find_Some_iff
    by (metis (mono_tags, lifting) nth_mem option.case_eq_if)
  then show ?thesis
    by (auto simp: IsProcessed_def count_where_pos p_key_def)
qed

lemma complete_reported_effect:
  assumes inv: "queue_inv d" and task: "t \<in> set (upload_tasks d)" "t_status t = StatusReported"
    and run: "CompleteReported io clk (t_id t) uploaded sha d = (Inr u, d')"
  shows "t\<lparr>t_status := StatusCompleted, t_sha256 := sha, t_updated_at := clk 0\<rparr> \<in> set (upload_tasks d') \<and>
    GetReport no_fault (t_id t) d' = Inl ErrNoRows \<and>
    (if uploaded then IsProcessed no_fault (t_rule_id t) (t_local_path t) (t_file_mtime t) (t_file_size t) d' = Inr True
     else processed_files d' = processed_files d) \<and>
    CompleteReported no_fault clk' (t_id t) uploaded' sha' d' = (Inr (), d')"
proof -
  let ?hit = "\<lambda>r. t_id r = t_id t \<and> t_status r = StatusReported"
  let ?f = "\<lambda>r. r\<lparr>t_status := StatusCompleted, t_sha256 := sha, t_updated_at := clk 0\<rparr>"
  let ?tx = "upd_tasks ?hit ?f d"
  have hit: "count_where ?hit (upload_tasks d) \<noteq> 0" using task by (auto simp: count_where_zero)
  obtain tx where tx: "if uploaded then acknowledge_processed (clk 1) (t_id t) ?tx = Inr tx else tx = ?tx"
    and d': "d' = tx\<lparr>upload_reports := delete_where (\<lambda>r. rp_task_id r = t_id t) (upload_reports tx)\<rparr>"
    using run hit
    by (auto simp: CompleteReported_def Let_def stmt_Inr_iff split: if_splits sum.splits)
  have tasks: "upload_tasks d' = upload_tasks ?tx"
    using tx acknowledge_tasks [of "clk 1" "t_id t" ?tx tx] d' by (auto split: if_splits)
  have row: "?f t \<in> set (upload_tasks ?tx)"
    using task by (auto simp: set_update_where)
  have "\<forall>r\<in>set (upload_tasks d'). \<not> ?hit r"
    unfolding tasks by (simp add: ball_update_where)
  then have again: "CompleteReported no_fault clk' (t_id t) uploaded' sha' d' = (Inr (), d')"
    by (simp add: CompleteReported_def Let_def count_where_zero [THEN iffD2])
  have "unique_key t_id (upload_tasks ?tx)"
    using inv by (auto simp: queue_inv_def intro: unique_key_update_where)
  then have "find_row t_id (t_id t) (upload_tasks ?tx) = Some (?f t)"
    using row by (simp add: find_row_Some_iff)
  then have "acknowledge_processed (clk 1) (t_id t) ?tx = Inr tx \<Longrightarrow>
      IsProcessed no_fault (t_rule_id t) (t_local_path t) (t_file_mtime t) (t_file_size t) tx = Inr True"
    using upsert_processed_is_processed [where new = "processed_of_task (clk 1) (?f t)" and d = ?tx and d' = tx]
    by (simp add: acknowledge_processed_def p_key_def) (simp add: processed_of_task_def)
  moreover have "IsProcessed no_fault a b c e d' = IsProcessed no_fault a b c e tx" for a b c e
    by (simp add: d' IsProcessed_def)
  moreover have "GetReport no_fault (t_id t) d' = Inl ErrNoRows"
    by (simp add: GetReport_def d' find_row_None_iff [THEN iffD2] set_delete_where)
  ultimately show ?thesis using row again tx tasks d' by (auto split: if_splits)
qed

text \<open>
  Acknowledgement.  When CompleteReported succeeds for a reported task, that task is completed with
  the acknowledged checksum, its report is gone, the file version counts as processed exactly through
  an acknowledged upload (a failure report leaves the processed files alone), and every later
  acknowledgement of the task is accepted without changing anything.
\<close>

theorem CompleteReported_acknowledges:
  assumes inv: "queue_inv d" and task: "t \<in> set (upload_tasks d)" "t_status t = StatusReported"
    and run: "CompleteReported io clk (t_id t) uploaded sha d = (Inr u, d')"
  shows "t\<lparr>t_status := StatusCompleted, t_sha256 := sha, t_updated_at := clk 0\<rparr> \<in> set (upload_tasks d') \<and>
    GetReport no_fault (t_id t) d' = Inl ErrNoRows \<and>
    (if uploaded then IsProcessed no_fault (t_rule_id t) (t_local_path t) (t_file_mtime t) (t_file_size t) d' = Inr True
     else processed_files d' = processed_files d) \<and>
    CompleteReported no_fault clk' (t_id t) uploaded' sha' d' = (Inr (), d')"
  by (rule complete_reported_effect [OF inv task run])

theorem CompleteReported_acknowledges_witness:
  "\<exists>d'. CompleteReported no_fault (\<lambda>_. 9) ''t1'' True ''sha'' reported_db = (Inr (), d') \<and>
     IsProcessed no_fault ''r1'' ''/data/a.nc'' 20 10 d' = Inr True"
proof -
  let ?t = "sample_task\<lparr>t_status := StatusReported\<rparr>"
  have inv: "queue_inv reported_db" by code_simp
  have t: "?t \<in> set (upload_tasks reported_db)" "t_status ?t = StatusReported"
    by (simp_all add: reported_db_def)
  have "fst (CompleteReported no_fault (\<lambda>_. 9) (t_id ?t) True ''sha'' reported_db) = Inr ()" by code_simp
  then obtain d' where run: "CompleteReported no_fault (\<lambda>_. 9) (t_id ?t) True ''sha'' reported_db = (Inr (), d')"
    by (metis prod.collapse)
  with CompleteReported_acknowledges [OF inv t run] show ?thesis by (auto simp: sample_task_def)
qed

end
