(* ===== verification/Uploader.thy ===== *)
theory Uploader
  imports Queue_Laws
begin

text \<open>
  The edge agent's uploader (agent/internal/uploader: uploader.go, multipart.go).  The local file and
  the object store are the outside: a read of a byte range returns whatever the file holds at that
  moment (the file may change between reads), and a PUT reports how many bytes of the offered stream
  the store consumed.  The digests are functions of the consumed bytes, which is what feeding Go's
  \<^verbatim>\<open>hash.Hash\<close> through a TeeReader computes; \<open>sha256hex\<close> and \<open>md5hex\<close> are parameters.  A trace records
  what the store was asked to do.  Bytes are characters, a byte sequence is a string.
\<close>

section \<open>Configuration, errors and environment\<close>

record up_config =
  PartSizeMB :: int
  ThresholdMB :: int

definition defaultSinglePartThresholdMB :: int where
  "defaultSinglePartThresholdMB = 64"

definition normalise :: "up_config \<Rightarrow> up_config" where
  "normalise cfg =
     (let cfg = (if PartSizeMB cfg \<le> 0 then cfg\<lparr>PartSizeMB := defaultSinglePartThresholdMB\<rparr> else cfg)
      in if ThresholdMB cfg \<le> 0 then cfg\<lparr>ThresholdMB := defaultSinglePartThresholdMB\<rparr> else cfg)"

text \<open>An error of the object store: its text and its S3 code (empty for one that is no S3 response).\<close>

datatype store_error = StoreError (se_text: string) (se_code: string)

definition isNoSuchUpload :: "store_error \<Rightarrow> bool" where
  "isNoSuchUpload err \<longleftrightarrow> se_code err = ''NoSuchUpload''"

datatype up_error = EStat string | ETailOffset int | EDiscard queue_error | EVerify store_error
  | EStale int | EInit store_error | EPersist queue_error | EOpen string | EPut store_error
  | EPart int store_error | EByteCount | EETag | EComplete store_error

datatype read_site = RSingle | RPre int | RPart int

datatype up_site = UPersist | UProgress int | URecord | UDelete

type_synonym part = "int \<times> string"

record up_env =
  ue_stat :: "string \<Rightarrow> string + int \<times> int"
  ue_read :: "read_site \<Rightarrow> string \<Rightarrow> int \<Rightarrow> int \<Rightarrow> string + string"
  ue_put :: "string \<Rightarrow> int \<Rightarrow> nat \<times> (store_error + string)"
  ue_new :: "store_error + string"
  ue_put_part :: "string \<Rightarrow> int \<Rightarrow> string \<Rightarrow> int \<Rightarrow> nat \<times> (store_error + string)"
  ue_list :: "string \<Rightarrow> store_error + part list"
  ue_complete :: "string \<Rightarrow> part list \<Rightarrow> store_error + string"
  ue_abort :: "string \<Rightarrow> store_error option"
  ue_io :: "up_site \<Rightarrow> io"
  ue_now :: "up_site \<Rightarrow> int"
  sha256hex :: "string \<Rightarrow> string"
  md5hex :: "string \<Rightarrow> string"
  marshalCompletedParts :: "part list \<Rightarrow> string"

text \<open>What the store was asked to do and what it consumed.\<close>

datatype store_event = SvPut string | SvNew string | SvPart string int string "store_error + string"
  | SvComplete string "part list" bool | SvAbort string bool

record up_state =
  us_db :: db
  us_task :: upload_task
  us_trace :: "store_event list"

record up_result =
  res_storage_path :: string
  res_bucket :: string
  res_sha256 :: string
  res_etag :: string
  res_size_bytes :: int

definition us_emit :: "store_event \<Rightarrow> up_state \<Rightarrow> up_state" where
  "us_emit ev s = s\<lparr>us_trace := us_trace s @ [ev]\<rparr>"

section \<open>ETags\<close>

definition trim_quotes :: "string \<Rightarrow> string" where
  "trim_quotes s = rev (dropWhile (\<lambda>c. c = CHR 0x22) (rev (dropWhile (\<lambda>c. c = CHR 0x22) s)))"

definition normalizeETag :: "string \<Rightarrow> string" where
  "normalizeETag etag = map ascii_lower (trim_quotes etag)"

definition hex_digits :: string where
  "hex_digits = ''0123456789abcdef''"

definition etagIsComparable :: "string \<Rightarrow> bool" where
  "etagIsComparable etag =
     (let e = normalizeETag etag in length e = 32 \<and> list_all (\<lambda>c. c \<in> set hex_digits) e)"

section \<open>Parts\<close>

definition canResumeParts :: "upload_task \<Rightarrow> file_version \<Rightarrow> bool \<Rightarrow> bool \<Rightarrow> bool \<times> string" where
  "canResumeParts task current statOK isMultipart =
     (if t_parts_file_mtime task = 0 \<and> t_parts_file_size task = 0
      then (False, ''no version snapshot for the recorded parts (legacy row, untrusted)'')
      else if \<not> statOK then (False, ''current file stat failed'')
      else if current \<noteq> \<lparr>fv_mtime = t_parts_file_mtime task, fv_size = t_parts_file_size task\<rparr>
      then (False, ''file version changed since the parts were uploaded'')
      else if \<not> isMultipart then (False, ''this attempt no longer uses multipart upload'')
      else (True, ''''))"

definition partRange :: "int \<Rightarrow> int \<Rightarrow> int \<Rightarrow> (int \<times> int) option" where
  "partRange partNum totalSize partSize =
     (let offset = (partNum - 1) * partSize;
          pSize = (if totalSize - offset < partSize then totalSize - offset else partSize)
      in if pSize \<le> 0 \<or> totalSize \<le> offset then None else Some (offset, pSize))"

text \<open>A reader limited to \<open>n\<close> bytes.\<close>

definition limit_read :: "int \<Rightarrow> string \<Rightarrow> string" where
  "limit_read n bs = take (nat n) bs"

definition streamRangeInto :: "up_env \<Rightarrow> read_site \<Rightarrow> string \<Rightarrow> int \<Rightarrow> int \<Rightarrow> string option" where
  "streamRangeInto e site path offset pSize =
     (case ue_read e site path offset pSize of
        Inl err \<Rightarrow> None
      | Inr avail \<Rightarrow>
          (let bs = limit_read pSize avail
           in if int (length bs) \<noteq> pSize then None else Some bs))"

definition streamRangeMD5 :: "up_env \<Rightarrow> read_site \<Rightarrow> string \<Rightarrow> int \<Rightarrow> int \<Rightarrow> string option" where
  "streamRangeMD5 e site path offset pSize =
     map_option (md5hex e) (streamRangeInto e site path offset pSize)"

definition verifyResumePartETag :: "up_env \<Rightarrow> string \<Rightarrow> int \<Rightarrow> int \<Rightarrow> part \<Rightarrow> bool" where
  "verifyResumePartETag e path totalSize partSize p =
     (case partRange (fst p) totalSize partSize of
        None \<Rightarrow> False
      | Some (offset, pSize) \<Rightarrow>
          etagIsComparable (snd p) \<and>
          (case streamRangeMD5 e (RPre (fst p)) path offset pSize of
             None \<Rightarrow> False | Some got \<Rightarrow> normalizeETag (snd p) = got))"

text \<open>The bytes a skipped part feeds into the digest, when the same read matches the remote ETag.\<close>

definition hashResumePartChecked :: "up_env \<Rightarrow> string \<Rightarrow> int \<Rightarrow> int \<Rightarrow> int \<Rightarrow> string \<Rightarrow> string option" where
  "hashResumePartChecked e path totalSize partSize partNum remoteETag =
     (case partRange partNum totalSize partSize of
        None \<Rightarrow> None
      | Some (offset, pSize) \<Rightarrow>
          (case streamRangeInto e (RPart partNum) path offset pSize of
             None \<Rightarrow> None
           | Some bs \<Rightarrow>
               if int (length bs) \<noteq> pSize then None
               else if \<not> etagIsComparable remoteETag then None
               else if normalizeETag remoteETag \<noteq> md5hex e bs then None
               else Some bs))"

definition verifyRemoteParts :: "up_env \<Rightarrow> string \<Rightarrow> store_error + part list" where
  "verifyRemoteParts e uploadID = ue_list e uploadID"

section \<open>Discarding a recorded upload\<close>

definition discardStaleUpload :: "up_env \<Rightarrow> string \<Rightarrow> up_state \<Rightarrow> (queue_error + unit) \<times> up_state" where
  "discardStaleUpload e uploadID s =
     (case EnqueueMultipartAbort (ue_io e URecord) (ue_now e URecord)
         (fresh_abort ((us_task s)\<lparr>t_upload_id := uploadID\<rparr>) 0) (us_db s) of
        (Inl err, d) \<Rightarrow> (Inl err, s\<lparr>us_db := d\<rparr>)
      | (Inr u, d) \<Rightarrow>
          (let s = s\<lparr>us_db := d\<rparr> in
           case ue_abort e uploadID of
             Some err \<Rightarrow>
               if \<not> isNoSuchUpload err then (Inr (), us_emit (SvAbort uploadID False) s)
               else (Inr (), us_emit (SvAbort uploadID True)
                 (s\<lparr>us_db := snd (DeleteMultipartAbort (ue_io e UDelete) uploadID (us_db s))\<rparr>))
           | None \<Rightarrow> (Inr (), us_emit (SvAbort uploadID True)
               (s\<lparr>us_db := snd (DeleteMultipartAbort (ue_io e UDelete) uploadID (us_db s))\<rparr>))))"

definition AbandonUpload :: "up_env \<Rightarrow> upload_task \<Rightarrow> store_error + unit" where
  "AbandonUpload e task =
     (if t_upload_id task = '''' then Inr ()
      else case ue_abort e (t_upload_id task) of
             None \<Rightarrow> Inr ()
           | Some err \<Rightarrow> if isNoSuchUpload err then Inr () else Inl err)"

section \<open>Uploading\<close>

definition singlePartUpload :: "up_env \<Rightarrow> int \<Rightarrow> int \<Rightarrow> up_state \<Rightarrow> (up_error + up_result) \<times> up_state" where
  "singlePartUpload e offset sz s =
     (case ue_read e RSingle (t_local_path (us_task s)) offset sz of
        Inl err \<Rightarrow> (Inl (EOpen err), s)
      | Inr avail \<Rightarrow>
          (let offered = limit_read sz avail;
               (k, res) = ue_put e offered sz;
               bs = take k offered;
               s = us_emit (SvPut bs) s
           in case res of
                Inl err \<Rightarrow> (Inl (EPut err), s)
              | Inr etag \<Rightarrow>
                  if int (length bs) \<noteq> sz then (Inl EByteCount, s)
                  else if etagIsComparable etag \<and> normalizeETag etag \<noteq> md5hex e bs then (Inl EETag, s)
                  else (Inr \<lparr>res_storage_path = t_storage_path (us_task s), res_bucket = t_bucket (us_task s),
                      res_sha256 = sha256hex e bs, res_etag = etag, res_size_bytes = int (length bs)\<rparr>, s)))"

definition save_progress :: "up_env \<Rightarrow> up_site \<Rightarrow> string \<Rightarrow> file_version \<Rightarrow> up_state \<Rightarrow> (queue_error + unit) \<times> up_state" where
  "save_progress e site js fv s =
     (let r = SaveMultipartProgress (ue_io e site) (ue_now e site) (t_id (us_task s)) (t_upload_id (us_task s)) js fv (us_db s)
      in (fst r, s\<lparr>us_db := snd r\<rparr>))"

text \<open>
  The part loop: \<open>remote\<close> are the ETags of the parts the store already has, \<open>sha\<close> the bytes fed to
  the full digest so far, \<open>parts_done\<close> the complete list built so far.
\<close>

fun part_loop :: "up_env \<Rightarrow> int \<Rightarrow> int \<Rightarrow> file_version \<Rightarrow> string \<Rightarrow> (int \<rightharpoonup> string) \<Rightarrow> int list \<Rightarrow> string \<Rightarrow> part list
    \<Rightarrow> up_state \<Rightarrow> (up_error + string \<times> part list) \<times> up_state" where
  "part_loop e sz partSize fv uid remote [] sha parts_done s = (Inr (sha, parts_done), s)"
| "part_loop e sz partSize fv uid remote (p # ps) sha parts_done s =
     (case remote p of
        Some etag \<Rightarrow>
          (case hashResumePartChecked e (t_local_path (us_task s)) sz partSize p etag of
             None \<Rightarrow> (Inl (EStale p), s)
           | Some bs \<Rightarrow> part_loop e sz partSize fv uid remote ps (sha @ bs) (parts_done @ [(p, etag)]) s)
      | None \<Rightarrow>
          (let offset = (p - 1) * partSize;
               pSize = (if sz - offset < partSize then sz - offset else partSize)
           in case ue_read e (RPart p) (t_local_path (us_task s)) offset pSize of
                Inl err \<Rightarrow> (Inl (EOpen err), s)
              | Inr avail \<Rightarrow>
                  (let offered = limit_read pSize avail;
                       (k, res) = ue_put_part e uid p offered pSize;
                       bs = take k offered;
                       s = us_emit (SvPart uid p bs res) s
                   in case res of
                        Inl err \<Rightarrow> (Inl (EPart p err), s)
                      | Inr etag \<Rightarrow>
                          if int (length bs) \<noteq> pSize then (Inl EByteCount, s)
                          else if etagIsComparable etag \<and> normalizeETag etag \<noteq> md5hex e bs then (Inl EETag, s)
                          else
                            let parts_done = parts_done @ [(p, etag)];
                                js = marshalCompletedParts e parts_done;
                                s = s\<lparr>us_task := (us_task s)\<lparr>t_completed_parts := js\<rparr>\<rparr>;
                                s = snd (save_progress e (UProgress p) js fv s)
                            in part_loop e sz partSize fv uid remote ps (sha @ bs) parts_done s)))"

text \<open>The resume decision: the upload to continue (empty for a fresh one) and its remote parts.\<close>

definition resume_state :: "up_env \<Rightarrow> int \<Rightarrow> int \<Rightarrow> up_state \<Rightarrow> up_error + string \<times> part list" where
  "resume_state e sz partSize s =
     (let uid = t_upload_id (us_task s) in
      if uid = '''' then Inr ('''', [])
      else case verifyRemoteParts e uid of
             Inl err \<Rightarrow> if \<not> isNoSuchUpload err then Inl (EVerify err) else Inr ('''', [])
           | Inr parts \<Rightarrow>
               (case List.find (\<lambda>p. \<not> verifyResumePartETag e (t_local_path (us_task s)) sz partSize p) parts of
                  Some p \<Rightarrow> Inl (EStale (fst p))
                | None \<Rightarrow> Inr (uid, parts)))"

definition initiate :: "up_env \<Rightarrow> file_version \<Rightarrow> up_state \<Rightarrow> (up_error + string) \<times> up_state" where
  "initiate e fv s =
     (case ue_new e of
        Inl err \<Rightarrow> (Inl (EInit err), s)
      | Inr uid \<Rightarrow>
          (let s = us_emit (SvNew uid) (s\<lparr>us_task := (us_task s)\<lparr>t_upload_id := uid\<rparr>\<rparr>)
           in case save_progress e UPersist '''' fv s of
                (Inr u, s) \<Rightarrow> (Inr uid, s)
              | (Inl err, s) \<Rightarrow>
                  (let s = us_emit (SvAbort uid (ue_abort e uid = None)) s
                   in (Inl (EPersist err), s\<lparr>us_task := (us_task s)\<lparr>t_upload_id := ''''\<rparr>\<rparr>))))"

definition part_numbers :: "int \<Rightarrow> int \<Rightarrow> int list" where
  "part_numbers sz partSize = [1..(sz + partSize - 1) div partSize]"

definition finish_upload :: "up_env \<Rightarrow> int \<Rightarrow> string \<Rightarrow> string \<Rightarrow> part list \<Rightarrow> up_state \<Rightarrow> (up_error + up_result) \<times> up_state" where
  "finish_upload e sz uid sha parts_done s =
     (if int (length sha) \<noteq> sz then (Inl EByteCount, s)
      else case ue_complete e uid parts_done of
             Inl err \<Rightarrow> (Inl (EComplete err), us_emit (SvComplete uid parts_done False) s)
           | Inr etag \<Rightarrow> (Inr \<lparr>res_storage_path = t_storage_path (us_task s), res_bucket = t_bucket (us_task s),
                res_sha256 = sha256hex e sha, res_etag = etag, res_size_bytes = int (length sha)\<rparr>,
               us_emit (SvComplete uid parts_done True) s))"

definition multipartUpload :: "up_env \<Rightarrow> up_config \<Rightarrow> file_version \<Rightarrow> int \<Rightarrow> up_state \<Rightarrow> (up_error + up_result) \<times> up_state" where
  "multipartUpload e cfg fv sz s =
     (let partSize = PartSizeMB cfg * 1024 * 1024 in
      case resume_state e sz partSize s of
        Inl err \<Rightarrow> (Inl err, s)
      | Inr (uid, parts) \<Rightarrow>
          (case (if uid = '''' then initiate e fv s else (Inr uid, s)) of
             (Inl err, s) \<Rightarrow> (Inl err, s)
           | (Inr uid, s) \<Rightarrow>
               (case part_loop e sz partSize fv uid (map_of (rev parts)) (part_numbers sz partSize) '''' [] s of
                  (Inl err, s) \<Rightarrow> (Inl err, s)
                | (Inr (sha, parts_done), s) \<Rightarrow> finish_upload e sz uid sha parts_done s)))"

fun is_stale :: "up_error \<Rightarrow> bool" where
  "is_stale (EStale _) = True"
| "is_stale _ = False"

definition forget_upload :: "up_state \<Rightarrow> up_state" where
  "forget_upload s = s\<lparr>us_task := (us_task s)\<lparr>t_upload_id := '''', t_completed_parts := ''''\<rparr>\<rparr>"

text \<open>The environment \<open>e1\<close> serves a second attempt after the recorded parts proved stale.\<close>

definition upload_multipart :: "up_env \<Rightarrow> up_env \<Rightarrow> up_config \<Rightarrow> file_version \<Rightarrow> int \<Rightarrow> up_state
    \<Rightarrow> (up_error + up_result) \<times> up_state" where
  "upload_multipart e e1 cfg fv sz s =
     (case multipartUpload e cfg fv sz s of
        (Inr r, s) \<Rightarrow> (Inr r, s)
      | (Inl err, s) \<Rightarrow>
          if is_stale err then
            (case discardStaleUpload e (t_upload_id (us_task s)) s of
               (Inl derr, s) \<Rightarrow> (Inl (EDiscard derr), s)
             | (Inr u, s) \<Rightarrow> multipartUpload e1 cfg fv sz (forget_upload s))
          else (Inl err, s))"

definition UploadFile :: "up_env \<Rightarrow> up_env \<Rightarrow> up_config \<Rightarrow> up_state \<Rightarrow> (up_error + up_result) \<times> up_state" where
  "UploadFile e e1 cfg s =
     (case ue_stat e (t_local_path (us_task s)) of
        Inl err \<Rightarrow> (Inl (EStat err), s)
      | Inr (fileSize, mtime) \<Rightarrow>
          if t_append_mode (us_task s) = AppendModeTail \<and> 0 < t_file_offset (us_task s)
          then (Inl (ETailOffset (t_file_offset (us_task s))), s)
          else
            (let threshold = ThresholdMB cfg * 1024 * 1024;
                 current = \<lparr>fv_mtime = mtime, fv_size = fileSize\<rparr>;
                 isMultipart = (threshold < fileSize);
                 gate = (if t_upload_id (us_task s) \<noteq> '''' \<and> \<not> fst (canResumeParts (us_task s) current True isMultipart)
                         then (case discardStaleUpload e (t_upload_id (us_task s)) s of
                                 (Inl derr, s) \<Rightarrow> Inl (EDiscard derr, s)
                               | (Inr u, s) \<Rightarrow> Inr (forget_upload s))
                         else Inr s)
             in case gate of
                  Inl (err, s) \<Rightarrow> (Inl err, s)
                | Inr s \<Rightarrow> if isMultipart then upload_multipart e e1 cfg current fileSize s
                           else singlePartUpload e 0 fileSize s))"

section \<open>Vocabulary of the properties\<close>

text \<open>Part \<open>p\<close> of upload \<open>uid\<close> holds \<open>chunk\<close>: the store took exactly these bytes in this run, or it
  reported an MD5 ETag for the part and the bytes read from the file have that MD5.\<close>

definition part_described :: "up_env \<Rightarrow> store_event list \<Rightarrow> string \<Rightarrow> part \<Rightarrow> string \<Rightarrow> bool" where
  "part_described e tr uid p chunk \<longleftrightarrow>
     SvPart uid (fst p) chunk (Inr (snd p)) \<in> set tr \<or>
     etagIsComparable (snd p) \<and> normalizeETag (snd p) = md5hex e chunk"

text \<open>The object the run left in the store consists of \<open>bytes\<close>.\<close>

definition assembles :: "up_env \<Rightarrow> store_event list \<Rightarrow> string \<Rightarrow> bool" where
  "assembles e tr bytes \<longleftrightarrow> SvPut bytes \<in> set tr \<or>
     (\<exists>uid parts chunks. SvComplete uid parts True \<in> set tr \<and> bytes = concat chunks \<and>
        map fst parts = [1..int (length parts)] \<and> list_all2 (part_described e tr uid) parts chunks)"

text \<open>The queue's row \<open>tid\<close> records the upload \<open>u\<close>.\<close>

definition row_has :: "string \<Rightarrow> string \<Rightarrow> db \<Rightarrow> bool" where
  "row_has tid u d \<longleftrightarrow> (\<exists>r\<in>set (upload_tasks d). t_id r = tid \<and> t_upload_id r = u)"

text \<open>Every upload opened since the trace was \<open>tr0\<close> was aborted / is the recorded one or was aborted.\<close>

definition settled_new :: "store_event list \<Rightarrow> up_state \<Rightarrow> bool" where
  "settled_new tr0 y \<longleftrightarrow> (\<forall>u. SvNew u \<in> set (us_trace y) \<and> SvNew u \<notin> set tr0 \<longrightarrow> (\<exists>b. SvAbort u b \<in> set (us_trace y)))"

definition tracked_new :: "store_event list \<Rightarrow> up_state \<Rightarrow> bool" where
  "tracked_new tr0 y \<longleftrightarrow> (\<forall>u. SvNew u \<in> set (us_trace y) \<and> SvNew u \<notin> set tr0 \<longrightarrow>
     (\<exists>b. SvAbort u b \<in> set (us_trace y)) \<or>
     row_has (t_id (us_task y)) u (us_db y) \<and> t_upload_id (us_task y) = u)"

text \<open>The store confirmed that upload \<open>u\<close> is gone, or the abort outbox holds it.\<close>

definition discarded :: "string \<Rightarrow> up_state \<Rightarrow> bool" where
  "discarded u y \<longleftrightarrow> abort_recorded u (us_db y) \<or> SvAbort u True \<in> set (us_trace y)"

text \<open>No part was sent to upload \<open>u\<close> and it was never completed.\<close>

definition untouched :: "string \<Rightarrow> up_state \<Rightarrow> bool" where
  "untouched u y \<longleftrightarrow> (\<forall>ps b. SvComplete u ps b \<notin> set (us_trace y)) \<and> (\<forall>p bs x. SvPart u p bs x \<notin> set (us_trace y))"

text \<open>Concrete environments for the witnesses: a three-byte file, and one too large for a single PUT
  whose first part cannot be read.\<close>

definition sample_up :: up_env where
  "sample_up = \<lparr>ue_stat = (\<lambda>_. Inr (3, 9)), ue_read = (\<lambda>_ _ _ _. Inr ''abc''),
     ue_put = (\<lambda>bs n. (length bs, Inr ''etag'')), ue_new = Inr ''U'',
     ue_put_part = (\<lambda>_ _ bs _. (length bs, Inr ''etag'')), ue_list = (\<lambda>_. Inr []),
     ue_complete = (\<lambda>_ _. Inr ''etag''), ue_abort = (\<lambda>_. None), ue_io = (\<lambda>_. no_fault), ue_now = (\<lambda>_. 50),
     sha256hex = (\<lambda>bs. ''sha'' @ bs), md5hex = (\<lambda>bs. ''md5'' @ bs), marshalCompletedParts = (\<lambda>_. ''[]'')\<rparr>"

definition large_up :: up_env where
  "large_up = sample_up\<lparr>ue_stat := (\<lambda>_. Inr (70000000, 9)), ue_read := (\<lambda>_ _ _ _. Inl ''read error'')\<rparr>"

definition leaky_up :: up_env where
  "leaky_up = large_up\<lparr>ue_io := (\<lambda>_ _. Some ''disk full''), ue_abort := (\<lambda>_. Some (StoreError ''timeout'' ''''))\<rparr>"

definition sample_up_cfg :: up_config where
  "sample_up_cfg = normalise \<lparr>PartSizeMB = 0, ThresholdMB = 0\<rparr>"

definition fresh_up :: up_state where
  "fresh_up = \<lparr>us_db = sample_db, us_task = sample_task\<lparr>t_upload_id := ''''\<rparr>, us_trace = []\<rparr>"

definition recorded_up :: up_state where
  "recorded_up = \<lparr>us_db = sample_db, us_task = sample_task\<lparr>t_parts_file_size := 8, t_parts_file_mtime := 9\<rparr>, us_trace = []\<rparr>"

lemmas sample_up_defs = sample_up_def large_up_def sample_up_cfg_def fresh_up_def recorded_up_def normalise_def
  defaultSinglePartThresholdMB_def

end
