(* ===== verification/Executor.thy ===== *)
theory Executor
  imports Queue_Laws
begin

text \<open>
  The edge agent's upload executor (agent/internal/executor: executor.go, reports.go).  An \<open>exec\<close>
  state is the shared database, the two one-slot notification channels, the armed retry goroutines
  and a trace of what the executor did to the outside world.  Each Go method is a function on that
  state.  What the outside answers (driver faults, clock readings, the storage's reply to an abort,
  the reply of the report stream, the uploader) is a \<open>world\<close>; every theorem holds for all of them.
  Clock readings are in nanoseconds, as \<^verbatim>\<open>time.Time\<close> and \<^verbatim>\<open>time.Duration\<close>; the queue stores Unix
  seconds.
\<close>

section \<open>State, configuration and environment\<close>

record upload_result =
  ur_sha256 :: string
  ur_etag :: string
  ur_size_bytes :: int
  ur_storage_path :: string
  ur_bucket :: string

text \<open>An upload error: its text, and whether \<^verbatim>\<open>errors.Is(err, ErrTerminalUpload)\<close>.\<close>

datatype upload_error = UploadError (err_text: string) (is_terminal: bool)

text \<open>The protobuf message \<^verbatim>\<open>UploadResult\<close> the agent reports.\<close>

record report_msg =
  m_task_id :: string
  m_rule_id :: string
  m_local_path :: string
  m_storage_path :: string
  m_bucket :: string
  m_size_bytes :: int
  m_file_mtime :: int
  m_uploaded_at :: int
  m_retry_count :: int
  m_success :: bool
  m_sha256 :: string
  m_etag :: string
  m_error_message :: string

datatype retry_timer = RetryTimer upload_task int | RequeueTimer upload_task int

text \<open>What the executor does outside its database: an uploader call, an abort of an upload with
  its outcome, a report sent.\<close>

datatype xevent = EvUpload upload_task | EvAbort string bool | EvSend string report_msg

record exec =
  x_db :: db
  x_notify :: bool
  x_reportNotify :: bool
  x_timers :: "retry_timer list"
  x_trace :: "xevent list"

record executor_cfg =
  retryDelays :: "int list"
  queueMaxSize :: int
  retryMax :: int
  reportTimeout :: int
  abandon_set :: bool
  reportSender_set :: bool

text \<open>The places from which one executor method calls the queue or reads the clock.\<close>

datatype call_site = SEnqueue | SCountActive | SEvict | SRecordAbort | SDeleteAbort | SDequeue
  | SIsProcessed | SDedupComplete | SComplete | STerminal | SGiveUp | SBackoff | SRequeue
  | SSaveReport | SDueAborts | SAttempt | SListFailed | SLegacyAbort | SRecover | SDueReports
  | STouch | SGetReport | SAck | SResetTimers

type_synonym uploader_fn =
  "upload_task \<Rightarrow> db \<Rightarrow> (upload_error + upload_result option) \<times> upload_task \<times> db"

record world =
  w_io :: "call_site \<Rightarrow> nat \<Rightarrow> io"
  w_clk :: "call_site \<Rightarrow> nat \<Rightarrow> nat \<Rightarrow> int"
  w_text :: "call_site \<Rightarrow> queue_error \<Rightarrow> string"
  w_abort :: "nat \<Rightarrow> upload_task \<Rightarrow> string option"
  w_send :: "nat \<Rightarrow> string option"
  w_uuid :: string
  w_upload :: uploader_fn
  w_marshal :: "report_msg \<Rightarrow> string + string"
  w_unmarshal :: "string \<Rightarrow> string + report_msg"

definition unix :: "int \<Rightarrow> int" where
  "unix t = t div 1000000000"

definition unix_milli :: "int \<Rightarrow> int" where
  "unix_milli t = t div 1000000"

definition w_now :: "world \<Rightarrow> call_site \<Rightarrow> nat \<Rightarrow> int" where
  "w_now w s i = w_clk w s i 0"

text \<open>The Unix seconds that the successive clock readings of one queue call return.\<close>

definition w_secs :: "world \<Rightarrow> call_site \<Rightarrow> nat \<Rightarrow> nat \<Rightarrow> int" where
  "w_secs w s i j = unix (w_clk w s i j)"

text \<open>A Go panic ends the process; \<open>Done\<close> carries the state of a method that returned.\<close>

datatype 'a outcome = Done 'a | Panic

definition defaultRetryDelays :: "int list" where
  "defaultRetryDelays = map (\<lambda>m. m * 60 * 1000000000) [1, 5, 15, 60]"

definition maxRetries :: int where
  "maxRetries = 10"

definition New :: "int \<Rightarrow> executor_cfg" where
  "New queue_max = \<lparr>retryDelays = defaultRetryDelays, queueMaxSize = queue_max, retryMax = maxRetries,
     reportTimeout = 0, abandon_set = False, reportSender_set = False\<rparr>"

definition ConfigureAbandon :: "bool \<Rightarrow> executor_cfg \<Rightarrow> string + executor_cfg" where
  "ConfigureAbandon fn_non_nil cfg =
     (if \<not> fn_non_nil then Inl ''executor: invalid abandon configuration''
      else Inr (cfg\<lparr>abandon_set := True\<rparr>))"

definition ConfigureReporting :: "bool \<Rightarrow> int \<Rightarrow> int \<Rightarrow> executor_cfg \<Rightarrow> string + executor_cfg" where
  "ConfigureReporting sender_non_nil timeout retry_max cfg =
     (if \<not> sender_non_nil \<or> timeout \<le> 0 \<or> retry_max < 0
      then Inl ''executor: invalid reporting configuration''
      else Inr (cfg\<lparr>reportSender_set := True, reportTimeout := timeout, retryMax := retry_max\<rparr>))"

definition emit :: "xevent \<Rightarrow> exec \<Rightarrow> exec" where
  "emit ev x = x\<lparr>x_trace := x_trace x @ [ev]\<rparr>"

section \<open>Abandoning an upload\<close>

definition abandonTaskUpload :: "world \<Rightarrow> executor_cfg \<Rightarrow> nat \<Rightarrow> upload_task \<Rightarrow> exec \<Rightarrow> exec" where
  "abandonTaskUpload w cfg i task x =
     (if \<not> abandon_set cfg \<or> t_upload_id task = '''' then x
      else
        let x = x\<lparr>x_db := snd (EnqueueMultipartAbort (w_io w SRecordAbort i)
                   (w_secs w SRecordAbort i 0) (fresh_abort task 0) (x_db x))\<rparr>
        in case w_abort w i task of
             Some e \<Rightarrow> emit (EvAbort (t_upload_id task) False) x
           | None \<Rightarrow> emit (EvAbort (t_upload_id task) True)
               (x\<lparr>x_db := snd (DeleteMultipartAbort (w_io w SDeleteAbort i) (t_upload_id task) (x_db x))\<rparr>))"

definition clamp_delay :: "int list \<Rightarrow> int \<Rightarrow> int option" where
  "clamp_delay ds idx =
     (let idx = (if int (length ds) \<le> idx then int (length ds) - 1 else idx)
      in if 0 \<le> idx \<and> idx < int (length ds) then Some (ds ! nat idx) else None)"

definition abortBackoffDelay :: "executor_cfg \<Rightarrow> int \<Rightarrow> int option" where
  "abortBackoffDelay cfg attempts = clamp_delay (retryDelays cfg) attempts"

definition retryDelay :: "executor_cfg \<Rightarrow> int \<Rightarrow> int option" where
  "retryDelay cfg attempt = clamp_delay (retryDelays cfg) (attempt - 1)"

definition abort_task :: "abort_entry \<Rightarrow> upload_task" where
  "abort_task e = \<lparr>t_id = a_task_id e, t_rule_id = '''', t_local_path = '''',
     t_storage_path = a_storage_path e, t_bucket = a_bucket e, t_upload_id = a_upload_id e,
     t_completed_parts = '''', t_parts_file_mtime = 0, t_parts_file_size = 0, t_file_size = 0,
     t_file_mtime = 0, t_sha256 = '''', t_status = StatusPending, t_retry_count = 0,
     t_next_retry_at = 0, t_last_error = '''', t_created_at = 0, t_updated_at = 0,
     t_file_offset = 0, t_append_mode = ''''\<rparr>"

fun drain_entries :: "world \<Rightarrow> executor_cfg \<Rightarrow> nat \<Rightarrow> abort_entry list \<Rightarrow> exec \<Rightarrow> exec outcome" where
  "drain_entries w cfg i [] x = Done x"
| "drain_entries w cfg i (e # es) x =
     (case w_abort w i (abort_task e) of
        None \<Rightarrow> drain_entries w cfg (Suc i) es
          (emit (EvAbort (a_upload_id e) True)
            (x\<lparr>x_db := snd (DeleteMultipartAbort (w_io w SDeleteAbort i) (a_upload_id e) (x_db x))\<rparr>))
      | Some msg \<Rightarrow>
          (case abortBackoffDelay cfg (a_attempts e) of
             None \<Rightarrow> Panic
           | Some delay \<Rightarrow> drain_entries w cfg (Suc i) es
               (emit (EvAbort (a_upload_id e) False)
                 (x\<lparr>x_db := snd (RecordMultipartAbortAttempt (w_io w SAttempt i) (a_upload_id e)
                      (unix (w_now w SAttempt i + delay)) msg (x_db x))\<rparr>))))"

definition drainAbortOutbox :: "world \<Rightarrow> executor_cfg \<Rightarrow> exec \<Rightarrow> exec outcome" where
  "drainAbortOutbox w cfg x =
     (if \<not> abandon_set cfg then Done x
      else case DueMultipartAborts (w_io w SDueAborts 0) (unix (w_now w SDueAborts 0)) 100 (x_db x) of
             Inl e \<Rightarrow> Done x
           | Inr entries \<Rightarrow> drain_entries w cfg 0 entries x)"

section \<open>Submitting and capacity\<close>

lemma evict_loop_shrinks:
  "evict_loop n a io clk ex d = (Inr (Some t), d') \<Longrightarrow> length (upload_tasks d') < length (upload_tasks d)"
proof (induction n arbitrary: a)
  case 0
  then show ?case by simp
next
  case (Suc n)
  have del: "length (delete_where P xs) < length xs" if "count_where P xs \<noteq> 0" for P and xs :: "upload_task list"
    using that by (induction xs) (auto simp: delete_where_def count_where_def less_Suc_eq_le)
  show ?case
    using Suc by (auto simp: Let_def stmt_Inr_iff intro!: del split: list.splits if_splits)
qed

lemma record_abort_length [simp]: "upload_tasks (snd (EnqueueMultipartAbort io now e d)) = upload_tasks d"
  by (cases "io 0") (simp_all add: EnqueueMultipartAbort_def Let_def)

lemma delete_abort_tasks [simp]: "upload_tasks (snd (DeleteMultipartAbort io u d)) = upload_tasks d"
  by (cases "io 0") (simp_all add: DeleteMultipartAbort_def)

lemma abandonTaskUpload_tasks [simp]:
  "upload_tasks (x_db (abandonTaskUpload w cfg i t x)) = upload_tasks (x_db x)"
  by (simp add: abandonTaskUpload_def Let_def emit_def split: option.split)

text \<open>Every pass that goes on has removed a row, so the loop ends.\<close>

function enforce_loop :: "world \<Rightarrow> executor_cfg \<Rightarrow> string \<Rightarrow> nat \<Rightarrow> exec \<Rightarrow> exec" where
  "enforce_loop w cfg newID i x =
     (case CountActive (w_io w SCountActive i) (x_db x) of
        Inl e \<Rightarrow> x
      | Inr n \<Rightarrow>
          if int n \<le> queueMaxSize cfg then x
          else case DeleteOldestEvictable (w_io w SEvict i) (w_secs w SEvict i) newID (x_db x) of
                 (Inl e, d) \<Rightarrow> x\<lparr>x_db := d\<rparr>
               | (Inr None, d) \<Rightarrow> x\<lparr>x_db := d\<rparr>
               | (Inr (Some dropped), d) \<Rightarrow>
                   enforce_loop w cfg newID (Suc i) (abandonTaskUpload w cfg i dropped (x\<lparr>x_db := d\<rparr>)))"
  by pat_completeness auto
termination
  by (relation "measure (\<lambda>(w, cfg, newID, i, x). length (upload_tasks (x_db x)))")
    (auto simp: DeleteOldestEvictable_def dest!: sym [of _ "evict_loop _ _ _ _ _ _"] evict_loop_shrinks)

definition enforceCapacity :: "world \<Rightarrow> executor_cfg \<Rightarrow> string \<Rightarrow> exec \<Rightarrow> exec" where
  "enforceCapacity w cfg newID x =
     (if queueMaxSize cfg \<le> 0 then x else enforce_loop w cfg newID 0 x)"

definition Submit :: "world \<Rightarrow> executor_cfg \<Rightarrow> upload_task \<Rightarrow> exec \<Rightarrow> (queue_error + unit) \<times> exec" where
  "Submit w cfg task x =
     (let task = (if t_id task = '''' then task\<lparr>t_id := w_uuid w\<rparr> else task)
      in case EnqueueIfNoActive (w_io w SEnqueue 0) (w_secs w SEnqueue 0 0) task (x_db x) of
           (Inl e, d) \<Rightarrow> (Inl e, x\<lparr>x_db := d\<rparr>)
         | (Inr False, d) \<Rightarrow> (Inr (), x\<lparr>x_db := d\<rparr>)
         | (Inr True, d) \<Rightarrow>
             (Inr (), (enforceCapacity w cfg (t_id task) (x\<lparr>x_db := d\<rparr>))\<lparr>x_notify := True\<rparr>))"

section \<open>Reports\<close>

text \<open>Go's conversion \<^verbatim>\<open>int32(n)\<close>.\<close>

definition int32 :: "int \<Rightarrow> int" where
  "int32 n = (n + 2147483648) mod 4294967296 - 2147483648"

definition report_of :: "int \<Rightarrow> upload_task \<Rightarrow> upload_result option \<Rightarrow> upload_error option \<Rightarrow> report_msg" where
  "report_of now task result uploadErr =
     (let report = \<lparr>m_task_id = t_id task, m_rule_id = t_rule_id task, m_local_path = t_local_path task,
            m_storage_path = t_storage_path task, m_bucket = t_bucket task, m_size_bytes = t_file_size task,
            m_file_mtime = t_file_mtime task, m_uploaded_at = now,
            m_retry_count = int32 (t_retry_count task), m_success = (uploadErr = None),
            m_sha256 = '''', m_etag = '''', m_error_message = ''''\<rparr>;
          report = (case result of None \<Rightarrow> report | Some r \<Rightarrow>
            report\<lparr>m_sha256 := ur_sha256 r, m_etag := ur_etag r, m_size_bytes := ur_size_bytes r,
              m_storage_path := ur_storage_path r, m_bucket := ur_bucket r\<rparr>)
      in case uploadErr of None \<Rightarrow> report | Some e \<Rightarrow> report\<lparr>m_error_message := err_text e\<rparr>)"

definition persistResult :: "world \<Rightarrow> upload_task \<Rightarrow> upload_result option \<Rightarrow> upload_error option \<Rightarrow> exec \<Rightarrow> exec" where
  "persistResult w task result uploadErr x =
     (case w_marshal w (report_of (w_now w SSaveReport 0) task result uploadErr) of
        Inl e \<Rightarrow> x
      | Inr payload \<Rightarrow>
          (case SaveReport (w_io w SSaveReport 0) (w_secs w SSaveReport 0 1) (t_id task) payload (x_db x) of
             (Inl e, d) \<Rightarrow> x\<lparr>x_db := d\<rparr>
           | (Inr u, d) \<Rightarrow> x\<lparr>x_db := d, x_reportNotify := True\<rparr>))"

fun send_reports :: "world \<Rightarrow> nat \<Rightarrow> report_row list \<Rightarrow> exec \<Rightarrow> exec" where
  "send_reports w i [] x = x"
| "send_reports w i (r # rs) x =
     (case w_unmarshal w (rp_payload r) of
        Inl e \<Rightarrow> send_reports w (Suc i) rs x
      | Inr result \<Rightarrow>
          (case TouchReport (w_io w STouch i) (rp_task_id r) (unix_milli (w_now w STouch i)) (x_db x) of
             (Inl e, d) \<Rightarrow> send_reports w (Suc i) rs (x\<lparr>x_db := d\<rparr>)
           | (Inr u, d) \<Rightarrow>
               (case w_send w i of
                  Some e \<Rightarrow> send_reports w (Suc i) rs (x\<lparr>x_db := d\<rparr>)
                | None \<Rightarrow> send_reports w (Suc i) rs (emit (EvSend (rp_task_id r) result) (x\<lparr>x_db := d\<rparr>)))))"

definition sendDueReports :: "world \<Rightarrow> executor_cfg \<Rightarrow> exec \<Rightarrow> exec" where
  "sendDueReports w cfg x =
     (case DueReports (w_io w SDueReports 0)
         (unix_milli (w_now w SDueReports 0 - reportTimeout cfg)) (x_db x) of
        Inl e \<Rightarrow> x
      | Inr reports \<Rightarrow> send_reports w 0 reports x)"

datatype ack_error = AckQueue queue_error | AckDecode string

record ack_msg =
  ack_ref_message_id :: string
  ack_success :: bool

definition HandleAcknowledgement :: "world \<Rightarrow> ack_msg option \<Rightarrow> exec \<Rightarrow> (ack_error + unit) \<times> exec" where
  "HandleAcknowledgement w ack x =
     (case ack of
        None \<Rightarrow> (Inr (), x)
      | Some a \<Rightarrow>
          if \<not> ack_success a then (Inr (), x)
          else case GetReport (w_io w SGetReport 0) (ack_ref_message_id a) (x_db x) of
            Inl ErrNoRows \<Rightarrow> (Inr (), x)
          | Inl e \<Rightarrow> (Inl (AckQueue e), x)
          | Inr payload \<Rightarrow>
              (case w_unmarshal w payload of
                 Inl e \<Rightarrow> (Inl (AckDecode e), x)
               | Inr result \<Rightarrow>
                   (case CompleteReported (w_io w SAck 0) (w_secs w SAck 0) (ack_ref_message_id a)
                       (m_success result) (m_sha256 result) (x_db x) of
                      (Inl e, d) \<Rightarrow> (Inl (AckQueue e), x\<lparr>x_db := d\<rparr>)
                    | (Inr u, d) \<Rightarrow> (Inr (), x\<lparr>x_db := d\<rparr>))))"

section \<open>Failure handling\<close>

text \<open>
  The durable abandonment of the terminal and of the give-up branch: \<open>Inl\<close> is the state in which
  the method returned, \<open>Inr\<close> falls through with the wrapped error, keeping the task retryable.
\<close>

definition try_abandon :: "world \<Rightarrow> executor_cfg \<Rightarrow> call_site \<Rightarrow> string \<Rightarrow> upload_task \<Rightarrow> upload_error \<Rightarrow> exec
    \<Rightarrow> exec + upload_error \<times> exec" where
  "try_abandon w cfg site note task err x =
     (let finish = (\<lambda>d. let task = task\<lparr>t_retry_count := t_retry_count task + 1\<rparr>;
                            x = abandonTaskUpload w cfg 0 task (x\<lparr>x_db := d\<rparr>)
                        in Inl (persistResult w task None (Some err) x))
      in case MarkFailedAbandoned (w_io w site 0) (w_secs w site 0) task (err_text err) (x_db x) of
           (Inr u, d) \<Rightarrow> finish d
         | (Inl ErrTaskNotFound, d) \<Rightarrow> finish d
         | (Inl e, d) \<Rightarrow> Inr (UploadError (err_text err @ '' ('' @ note @ w_text w site e @ '')'')
                              (is_terminal err), x\<lparr>x_db := d\<rparr>))"

definition schedule_backoff :: "world \<Rightarrow> executor_cfg \<Rightarrow> upload_task \<Rightarrow> upload_error \<Rightarrow> exec \<Rightarrow> exec outcome" where
  "schedule_backoff w cfg task err x =
     (case retryDelay cfg (t_retry_count task + 1) of
        None \<Rightarrow> Panic
      | Some delay \<Rightarrow>
          let d = snd (MarkFailed (w_io w SBackoff 0) (w_secs w SBackoff 0 1) (t_id task) (err_text err)
                    (Some (unix (w_now w SBackoff 0 + delay))) (x_db x))
          in Done (x\<lparr>x_db := d, x_timers := x_timers x @ [RetryTimer task delay]\<rparr>))"

definition handleFailure :: "world \<Rightarrow> executor_cfg \<Rightarrow> upload_task \<Rightarrow> upload_error \<Rightarrow> exec \<Rightarrow> exec outcome" where
  "handleFailure w cfg task err x =
     (case (if is_terminal err
            then try_abandon w cfg STerminal ''terminal abandonment not durably recorded: '' task err x
            else Inr (err, x)) of
        Inl x' \<Rightarrow> Done x'
      | Inr (err, x) \<Rightarrow>
          (case (if retryMax cfg \<le> t_retry_count task + 1
                 then try_abandon w cfg SGiveUp ''give-up abandonment not durably recorded: '' task err x
                 else Inr (err, x)) of
             Inl x' \<Rightarrow> Done x'
           | Inr (err, x) \<Rightarrow> schedule_backoff w cfg task err x))"

text \<open>The body of the retry goroutine once its delay has passed.\<close>

definition fire_retry :: "world \<Rightarrow> executor_cfg \<Rightarrow> upload_task \<Rightarrow> exec \<Rightarrow> exec" where
  "fire_retry w cfg task x =
     (case UpdateStatus (w_io w SRequeue 0) (w_secs w SRequeue 0 0) (t_id task) StatusPending (x_db x) of
        (Inl ErrTaskNotFound, d) \<Rightarrow> abandonTaskUpload w cfg 0 task (x\<lparr>x_db := d\<rparr>)
      | (Inl e, d) \<Rightarrow> x\<lparr>x_db := d\<rparr>
      | (Inr u, d) \<Rightarrow> x\<lparr>x_db := d, x_notify := True\<rparr>)"

definition fire_requeue :: "world \<Rightarrow> upload_task \<Rightarrow> exec \<Rightarrow> exec" where
  "fire_requeue w task x =
     (case UpdateStatus (w_io w SRequeue 0) (w_secs w SRequeue 0 0) (t_id task) StatusPending (x_db x) of
        (Inl e, d) \<Rightarrow> x\<lparr>x_db := d\<rparr>
      | (Inr u, d) \<Rightarrow> x\<lparr>x_db := d, x_notify := True\<rparr>)"

section \<open>Processing\<close>

definition tail_error :: upload_error where
  "tail_error = UploadError
     ''terminal upload failure: append_mode=tail is disabled (IC-BUG-46): an incremental tail upload would replace the whole object with only the appended bytes, silently losing previously collected data; the correct implementation is IC-15''
     True"

definition complete_duplicate :: "world \<Rightarrow> executor_cfg \<Rightarrow> upload_task \<Rightarrow> exec \<Rightarrow> exec outcome" where
  "complete_duplicate w cfg task x =
     (if t_upload_id task \<noteq> '''' then
        (case MarkCompletedAbandoningUpload (w_io w SDedupComplete 0) (w_secs w SDedupComplete 0) task (x_db x) of
           (Inr u, d) \<Rightarrow> Done (abandonTaskUpload w cfg 0 task (x\<lparr>x_db := d\<rparr>))
         | (Inl ErrTaskNotFound, d) \<Rightarrow> Done (abandonTaskUpload w cfg 0 task (x\<lparr>x_db := d\<rparr>))
         | (Inl e, d) \<Rightarrow> handleFailure w cfg task
             (UploadError (''dedup completion could not be recorded: '' @ w_text w SDedupComplete e) False)
             (x\<lparr>x_db := d\<rparr>))
      else Done (x\<lparr>x_db := snd (UpdateStatus (w_io w SComplete 0) (w_secs w SComplete 0 0) (t_id task)
             StatusCompleted (x_db x))\<rparr>))"

definition run_upload :: "world \<Rightarrow> executor_cfg \<Rightarrow> upload_task \<Rightarrow> exec \<Rightarrow> exec outcome" where
  "run_upload w cfg task x =
     (case w_upload w task (x_db x) of
        (res, task', d) \<Rightarrow>
          (let x = emit (EvUpload task) (x\<lparr>x_db := d\<rparr>)
           in case res of
                Inl err \<Rightarrow> handleFailure w cfg task' err x
              | Inr None \<Rightarrow> handleFailure w cfg task' (UploadError ''uploader returned nil result'' False) x
              | Inr (Some result) \<Rightarrow> Done (persistResult w task' (Some result) None x)))"

definition processTask :: "world \<Rightarrow> executor_cfg \<Rightarrow> upload_task \<Rightarrow> exec \<Rightarrow> exec outcome" where
  "processTask w cfg task x =
     (let already = (case IsProcessed (w_io w SIsProcessed 0) (t_rule_id task) (t_local_path task)
            (t_file_mtime task) (t_file_size task) (x_db x) of Inl e \<Rightarrow> False | Inr b \<Rightarrow> b)
      in if already then complete_duplicate w cfg task x
         else if t_append_mode task = AppendModeTail then handleFailure w cfg task tail_error x
         else run_upload w cfg task x)"

text \<open>
  drainQueue loops until the queue is empty; \<open>ws i\<close> is the environment of its \<open>i\<close>-th pass and the
  result \<open>None\<close> a loop that does not end.
\<close>

partial_function (option) drainQueue :: "(nat \<Rightarrow> world) \<Rightarrow> executor_cfg \<Rightarrow> nat \<Rightarrow> exec \<Rightarrow> exec outcome option" where
  "drainQueue ws cfg i x =
     (case DequeuePending (w_io (ws i) SDequeue 0) (w_secs (ws i) SDequeue 0 0) 1 (x_db x) of
        (Inl e, d) \<Rightarrow> Some (Done (x\<lparr>x_db := d\<rparr>))
      | (Inr [], d) \<Rightarrow> Some (Done (x\<lparr>x_db := d\<rparr>))
      | (Inr (t # _), d) \<Rightarrow>
          (case processTask (ws i) cfg t (x\<lparr>x_db := d\<rparr>) of
             Panic \<Rightarrow> Some Panic
           | Done x' \<Rightarrow> drainQueue ws cfg (Suc i) x'))"

section \<open>Start-up\<close>

definition signalWorkers :: "exec \<Rightarrow> exec" where
  "signalWorkers x = x\<lparr>x_notify := True\<rparr>"

definition scheduleFailedRequeue :: "upload_task \<Rightarrow> int \<Rightarrow> exec \<Rightarrow> exec" where
  "scheduleFailedRequeue t due x = x\<lparr>x_timers := x_timers x @ [RequeueTimer t due]\<rparr>"

definition recover_row :: "world \<Rightarrow> executor_cfg \<Rightarrow> int \<Rightarrow> nat \<Rightarrow> upload_task \<Rightarrow> exec \<Rightarrow> exec" where
  "recover_row w cfg now i t x =
     (if retryMax cfg \<le> t_retry_count t \<or> t_next_retry_at t = NextRetryNever then x
      else if t_next_retry_at t = 0 then
        (if abandon_set cfg \<and> t_upload_id t \<noteq> ''''
         then x\<lparr>x_db := snd (EnqueueMultipartAbort (w_io w SLegacyAbort i) (w_secs w SLegacyAbort i 0)
                (fresh_abort t 0) (x_db x))\<rparr>
         else x)
      else if t_next_retry_at t * 1000000000 \<le> now then
        (case UpdateStatus (w_io w SRecover i) (w_secs w SRecover i 0) (t_id t) StatusPending (x_db x) of
           (Inl e, d) \<Rightarrow> x\<lparr>x_db := d\<rparr>
         | (Inr u, d) \<Rightarrow> signalWorkers (x\<lparr>x_db := d\<rparr>))
      else scheduleFailedRequeue t (t_next_retry_at t) x)"

fun recover_rows :: "world \<Rightarrow> executor_cfg \<Rightarrow> int \<Rightarrow> nat \<Rightarrow> upload_task list \<Rightarrow> exec \<Rightarrow> exec" where
  "recover_rows w cfg now i [] x = x"
| "recover_rows w cfg now i (t # ts) x = recover_rows w cfg now (Suc i) ts (recover_row w cfg now i t x)"

definition recoverFailedTasks :: "world \<Rightarrow> executor_cfg \<Rightarrow> exec \<Rightarrow> exec" where
  "recoverFailedTasks w cfg x =
     (case ListByStatus (w_io w SListFailed 0) StatusFailed (x_db x) of
        Inl e \<Rightarrow> x
      | Inr failed \<Rightarrow> recover_rows w cfg (w_now w SListFailed 0) 0 failed x)"

definition Start :: "world \<Rightarrow> executor_cfg \<Rightarrow> exec \<Rightarrow> exec" where
  "Start w cfg x =
     (let x = (if reportSender_set cfg
               then x\<lparr>x_db := snd (ResetReportTimers (w_io w SResetTimers 0) (x_db x))\<rparr> else x)
      in recoverFailedTasks w cfg x)"

section \<open>Specification vocabulary\<close>

text \<open>
  Where a multipart upload can be accounted for: in the durable abort outbox, in a successful abort of
  this process, or in a task row that will still be worked on (pending, running, or failed and not
  stamped never-retry).  \<open>keeps\<close> says that a step loses none of them.
\<close>

definition outbox_keys :: "db \<Rightarrow> string set" where
  "outbox_keys d = a_upload_id ` set (abort_outbox d)"

definition aborted :: "exec \<Rightarrow> string set" where
  "aborted x = {u. EvAbort u True \<in> set (x_trace x)}"

definition resumable :: "upload_task \<Rightarrow> bool" where
  "resumable r \<longleftrightarrow> t_status r = StatusPending \<or> t_status r = StatusRunning \<or>
     t_status r = StatusFailed \<and> t_next_retry_at r \<noteq> NextRetryNever"

definition open_rows :: "db \<Rightarrow> string set" where
  "open_rows d = t_upload_id ` {r \<in> set (upload_tasks d). resumable r}"

definition accounted :: "exec \<Rightarrow> string set" where
  "accounted x = outbox_keys (x_db x) \<union> aborted x \<union> open_rows (x_db x)"

definition keeps :: "exec \<Rightarrow> exec \<Rightarrow> bool" where
  "keeps x x' \<longleftrightarrow> accounted x \<subseteq> insert '''' (accounted x')"

text \<open>A task a worker holds: its row, if it still exists, is running and carries the same upload.\<close>

definition in_hand :: "upload_task \<Rightarrow> exec \<Rightarrow> bool" where
  "in_hand task x \<longleftrightarrow> (\<forall>r\<in>set (upload_tasks (x_db x)). t_id r = t_id task \<longrightarrow>
     t_upload_id r = t_upload_id task \<and> t_status r = StatusRunning)"

definition sane_clock :: "world \<Rightarrow> executor_cfg \<Rightarrow> bool" where
  "sane_clock w cfg \<longleftrightarrow> 0 \<le> w_now w SBackoff 0 \<and> (\<forall>dl\<in>set (retryDelays cfg). 0 \<le> dl)"

text \<open>
  The executor's handlers as steps.  The uploader's own writes and the report of a successful upload
  (which ends the upload at the storage) are not steps of this relation.
\<close>

inductive exec_step :: "executor_cfg \<Rightarrow> exec \<Rightarrow> exec \<Rightarrow> bool" for cfg where
  x_submit: "0 \<le> t_retry_count task \<Longrightarrow> exec_step cfg x (snd (Submit w cfg task x))"
| x_fail: "in_hand task x \<Longrightarrow> sane_clock w cfg \<Longrightarrow> handleFailure w cfg task err x = Done x' \<Longrightarrow> exec_step cfg x x'"
| x_duplicate: "in_hand task x \<Longrightarrow> sane_clock w cfg \<Longrightarrow> complete_duplicate w cfg task x = Done x' \<Longrightarrow> exec_step cfg x x'"
| x_retry: "RetryTimer task delay \<in> set (x_timers x) \<Longrightarrow> exec_step cfg x (fire_retry w cfg task x)"
| x_requeue: "RequeueTimer task due \<in> set (x_timers x) \<Longrightarrow> exec_step cfg x (fire_requeue w task x)"
| x_aborts: "drainAbortOutbox w cfg x = Done x' \<Longrightarrow> exec_step cfg x x'"
| x_report: "exec_step cfg x (sendDueReports w cfg x)"
| x_ack: "exec_step cfg x (snd (HandleAcknowledgement w ack x))"
| x_restart: "exec_step cfg x (Start w cfg (x\<lparr>x_db := snd (ResetRunningToPending io clk stat (x_db x)),
     x_timers := [], x_notify := False, x_reportNotify := False\<rparr>))"

definition uploads :: "exec \<Rightarrow> upload_task list" where
  "uploads x = List.map_filter (\<lambda>ev. case ev of EvUpload t \<Rightarrow> Some t | _ \<Rightarrow> None) (x_trace x)"

definition active_count :: "exec \<Rightarrow> nat" where
  "active_count x = count_where counts_as_active (upload_tasks (x_db x))"

definition evictable_for :: "string \<Rightarrow> upload_task \<Rightarrow> bool" where
  "evictable_for newID r \<longleftrightarrow> is_evictable r \<and> t_id r \<noteq> newID"

text \<open>Only evictable rows other than the new task's may go, and only oldest first.\<close>

definition trims :: "string \<Rightarrow> exec \<Rightarrow> exec \<Rightarrow> bool" where
  "trims newID x y \<longleftrightarrow> unique_key t_id (upload_tasks (x_db y)) \<and>
     set (upload_tasks (x_db y)) \<subseteq> set (upload_tasks (x_db x)) \<and>
     (\<forall>r\<in>set (upload_tasks (x_db x)). r \<notin> set (upload_tasks (x_db y)) \<longrightarrow> evictable_for newID r \<and>
        (\<forall>s\<in>set (upload_tasks (x_db y)). evictable_for newID s \<longrightarrow> t_created_at r \<le> t_created_at s))"

text \<open>What one attempt of the abort worker makes of its record, and of the whole outbox.\<close>

definition attempted :: "world \<Rightarrow> executor_cfg \<Rightarrow> nat \<Rightarrow> abort_entry \<Rightarrow> abort_entry option" where
  "attempted w cfg i e = (case w_abort w i (abort_task e) of
     None \<Rightarrow> None
   | Some msg \<Rightarrow> Some (e\<lparr>a_attempts := a_attempts e + 1,
       a_next_attempt_at := unix (w_now w SAttempt i + the (abortBackoffDelay cfg (a_attempts e))),
       a_last_error := Some msg\<rparr>))"

fun attempt_at :: "world \<Rightarrow> executor_cfg \<Rightarrow> nat \<Rightarrow> abort_entry list \<Rightarrow> abort_entry \<Rightarrow> abort_entry option" where
  "attempt_at w cfg i [] r = Some r"
| "attempt_at w cfg i (e # es) r =
     (if a_upload_id r = a_upload_id e then attempted w cfg i r else attempt_at w cfg (Suc i) es r)"

definition due_aborts :: "world \<Rightarrow> exec \<Rightarrow> abort_entry list" where
  "due_aborts w x = sql_limit 100 (order_by a_created_at
     (select_where (\<lambda>e. a_next_attempt_at e \<le> unix (w_now w SDueAborts 0)) (abort_outbox (x_db x))))"

definition recovers :: "executor_cfg \<Rightarrow> int \<Rightarrow> upload_task \<Rightarrow> bool" where
  "recovers cfg now t \<longleftrightarrow> t_retry_count t < retryMax cfg \<and> t_next_retry_at t \<noteq> NextRetryNever \<and>
     t_next_retry_at t \<noteq> 0 \<and> t_next_retry_at t * 1000000000 \<le> now"

definition rearms :: "executor_cfg \<Rightarrow> int \<Rightarrow> upload_task \<Rightarrow> bool" where
  "rearms cfg now t \<longleftrightarrow> t_retry_count t < retryMax cfg \<and> t_next_retry_at t \<noteq> NextRetryNever \<and>
     t_next_retry_at t \<noteq> 0 \<and> now < t_next_retry_at t * 1000000000"

definition payloads :: "exec \<Rightarrow> (string \<times> string) list" where
  "payloads x = map (\<lambda>r. (rp_task_id r, rp_payload r)) (upload_reports (x_db x))"

definition pending_count :: "db \<Rightarrow> nat" where
  "pending_count d = count_where (\<lambda>r. t_status r = StatusPending) (upload_tasks d)"

definition row_states :: "db \<Rightarrow> (string \<times> task_status) list" where
  "row_states d = map (\<lambda>r. (t_id r, t_status r)) (upload_tasks d)"

text \<open>A concrete environment, configuration and states for the witnesses.\<close>

definition sample_world :: "(call_site \<Rightarrow> string option) \<Rightarrow> (nat \<Rightarrow> string option) \<Rightarrow> world" where
  "sample_world faults aborts = \<lparr>w_io = (\<lambda>s i j. faults s), w_clk = (\<lambda>s i j. 1000000000000),
     w_text = (\<lambda>s e. ''queue error''), w_abort = (\<lambda>i t. aborts i), w_send = (\<lambda>_. None), w_uuid = ''id'',
     w_upload = (\<lambda>t d. (Inl (UploadError ''down'' False), t, d)),
     w_marshal = (\<lambda>m. Inr (m_sha256 m)),
     w_unmarshal = (\<lambda>p. Inr (report_of 0 sample_task None None\<lparr>m_sha256 := p\<rparr>))\<rparr>"

definition sample_cfg :: executor_cfg where
  "sample_cfg = (New 1)\<lparr>abandon_set := True, reportSender_set := True, reportTimeout := 5\<rparr>"

definition sample_exec :: exec where
  "sample_exec = \<lparr>x_db = sample_db, x_notify = False, x_reportNotify = False, x_timers = [], x_trace = []\<rparr>"

definition exhausted_task :: upload_task where
  "exhausted_task = sample_task\<lparr>t_status := StatusRunning, t_retry_count := 9\<rparr>"

definition exhausted_exec :: exec where
  "exhausted_exec = sample_exec\<lparr>x_db := empty_db\<lparr>upload_tasks := [exhausted_task]\<rparr>\<rparr>"

definition running_task :: upload_task where
  "running_task = sample_task\<lparr>t_status := StatusRunning\<rparr>"

definition running_exec :: exec where
  "running_exec = sample_exec\<lparr>x_db := empty_db\<lparr>upload_tasks := [running_task]\<rparr>\<rparr>"

definition ack_result :: upload_result where
  "ack_result = \<lparr>ur_sha256 = ''sha'', ur_etag = ''e'', ur_size_bytes = 10, ur_storage_path = ''in/a.nc'', ur_bucket = ''raw''\<rparr>"

definition ack_world :: world where
  "ack_world = (sample_world (\<lambda>_. None) (\<lambda>_. None))\<lparr>w_unmarshal := (\<lambda>p.
     Inr (report_of 1000000000000 running_task (Some (ack_result\<lparr>ur_sha256 := p\<rparr>)) None))\<rparr>"

declare enforce_loop.simps [simp del]

end
