(* ===== verification/Config.thy ===== *)
theory Config
  imports Prelude
begin

text \<open>
  The agent's configuration (agent/internal/config/config.go): defaults, the TOML file, environment
  overrides and validation.  The TOML decoder is third-party and a parameter \<open>decode\<close>; the environment is a
  function from names to values, empty when unset; values are ASCII.  Go's \<^verbatim>\<open>int\<close> is 64 bits wide on the supported platforms.
\<close>

section \<open>The parts of strconv and strings the loader uses\<close>

definition digit_value :: "char \<Rightarrow> int option" where
  "digit_value c = (let n = of_char c :: nat in if 48 \<le> n \<and> n \<le> 57 then Some (int n - 48) else None)"

fun digits_value :: "int \<Rightarrow> string \<Rightarrow> int option" where
  "digits_value acc [] = Some acc"
| "digits_value acc (c # cs) = (case digit_value c of None \<Rightarrow> None | Some d \<Rightarrow> digits_value (10 * acc + d) cs)"

text \<open>An optional sign, at least one decimal digit, and a value that fits 64 bits.\<close>

definition Atoi :: "string \<Rightarrow> int option" where
  "Atoi s =
     (let (sign, ds) = (case s of [] \<Rightarrow> (1, []) | c # cs \<Rightarrow> if c = CHR ''-'' then (-1, cs) else if c = CHR ''+'' then (1, cs) else (1, s))
      in if ds = [] then None
         else case digits_value 0 ds of
                None \<Rightarrow> None
              | Some n \<Rightarrow> if - (2 ^ 63) \<le> sign * n \<and> sign * n < 2 ^ 63 then Some (sign * n) else None)"

definition ParseBool :: "string \<Rightarrow> bool option" where
  "ParseBool s =
     (if s \<in> {''1'', ''t'', ''T'', ''true'', ''TRUE'', ''True''} then Some True
      else if s \<in> {''0'', ''f'', ''F'', ''false'', ''FALSE'', ''False''} then Some False
      else None)"

definition is_space :: "char \<Rightarrow> bool" where
  "is_space c \<longleftrightarrow> (let n = of_char c :: nat in n = 32 \<or> 9 \<le> n \<and> n \<le> 13)"

definition TrimSpace :: "string \<Rightarrow> string" where
  "TrimSpace s = rev (dropWhile is_space (rev (dropWhile is_space s)))"

section \<open>Configuration\<close>

record server_config =
  Endpoint :: string
  TLSCACert :: string
  TLSInsecure :: bool

record agent_config =
  FingerprintFile :: string
  TokenFile :: string
  DataDir :: string

record upload_config =
  ReportTimeoutSeconds :: int
  MinTimeoutSeconds :: int
  AssumedUploadBytesPerSecond :: int
  Concurrency :: int
  uc_PartSizeMB :: int
  QueueMaxSize :: int
  RetryMax :: int

record metrics_config =
  MetricsEnabled :: bool
  Port :: int

record log_config =
  Level :: string
  Output :: string
  MaxSizeMB :: int
  MaxBackups :: int

record config =
  Server :: server_config
  AgentSec :: agent_config
  UploadSec :: upload_config
  Metrics :: metrics_config
  Log :: log_config

definition defaults :: config where
  "defaults = \<lparr>Server = \<lparr>Endpoint = '''', TLSCACert = '''', TLSInsecure = False\<rparr>,
     AgentSec = \<lparr>FingerprintFile = '''', TokenFile = '''', DataDir = ''''\<rparr>,
     UploadSec = \<lparr>ReportTimeoutSeconds = 30, MinTimeoutSeconds = 300, AssumedUploadBytesPerSecond = 1024 * 1024,
       Concurrency = 3, uc_PartSizeMB = 64, QueueMaxSize = 10000, RetryMax = 10\<rparr>,
     Metrics = \<lparr>MetricsEnabled = True, Port = 9100\<rparr>,
     Log = \<lparr>Level = ''info'', Output = ''/var/log/fileagent/agent.log'', MaxSizeMB = 100, MaxBackups = 7\<rparr>\<rparr>"

type_synonym getenv = "string \<Rightarrow> string"

text \<open>An override by a string variable, and by a numeric one that must parse.\<close>

definition env_string :: "getenv \<Rightarrow> string \<Rightarrow> string \<Rightarrow> string" where
  "env_string env name old = (if env name \<noteq> '''' then env name else old)"

definition env_int :: "getenv \<Rightarrow> string \<Rightarrow> int \<Rightarrow> int" where
  "env_int env name old = (if env name \<noteq> '''' then (case Atoi (env name) of Some n \<Rightarrow> n | None \<Rightarrow> old) else old)"

definition env_insecure :: "getenv \<Rightarrow> bool \<Rightarrow> bool" where
  "env_insecure env old =
     (let v = env ''AGENT_SERVER_TLS_INSECURE''
      in if v \<noteq> '''' then (case ParseBool (TrimSpace v) of Some b \<Rightarrow> b | None \<Rightarrow> old) else old)"

definition env_enabled :: "getenv \<Rightarrow> bool \<Rightarrow> bool" where
  "env_enabled env old =
     (let v = env ''AGENT_METRICS_ENABLED''
      in if v \<noteq> '''' then map ascii_lower v = ''true'' \<or> v = ''1'' else old)"

definition applyEnvOverrides :: "getenv \<Rightarrow> config \<Rightarrow> config" where
  "applyEnvOverrides env c = \<lparr>
     Server = \<lparr>Endpoint = env_string env ''AGENT_SERVER_ENDPOINT'' (Endpoint (Server c)),
       TLSCACert = env_string env ''AGENT_SERVER_TLS_CA_CERT'' (TLSCACert (Server c)),
       TLSInsecure = env_insecure env (TLSInsecure (Server c))\<rparr>,
     AgentSec = \<lparr>FingerprintFile = env_string env ''AGENT_FINGERPRINT_FILE'' (FingerprintFile (AgentSec c)),
       TokenFile = env_string env ''AGENT_TOKEN_FILE'' (TokenFile (AgentSec c)),
       DataDir = env_string env ''AGENT_DATA_DIR'' (DataDir (AgentSec c))\<rparr>,
     UploadSec = \<lparr>ReportTimeoutSeconds = env_int env ''AGENT_UPLOAD_REPORT_TIMEOUT_SECONDS'' (ReportTimeoutSeconds (UploadSec c)),
       MinTimeoutSeconds = env_int env ''AGENT_UPLOAD_MIN_TIMEOUT_SECONDS'' (MinTimeoutSeconds (UploadSec c)),
       AssumedUploadBytesPerSecond =
         env_int env ''AGENT_UPLOAD_ASSUMED_UPLOAD_BYTES_PER_SECOND'' (AssumedUploadBytesPerSecond (UploadSec c)),
       Concurrency = env_int env ''AGENT_UPLOAD_CONCURRENCY'' (Concurrency (UploadSec c)),
       uc_PartSizeMB = env_int env ''AGENT_UPLOAD_PART_SIZE_MB'' (uc_PartSizeMB (UploadSec c)),
       QueueMaxSize = env_int env ''AGENT_UPLOAD_QUEUE_MAX_SIZE'' (QueueMaxSize (UploadSec c)),
       RetryMax = env_int env ''AGENT_UPLOAD_RETRY_MAX'' (RetryMax (UploadSec c))\<rparr>,
     Metrics = \<lparr>MetricsEnabled = env_enabled env (MetricsEnabled (Metrics c)),
       Port = env_int env ''AGENT_METRICS_PORT'' (Port (Metrics c))\<rparr>,
     Log = \<lparr>Level = env_string env ''AGENT_LOG_LEVEL'' (Level (Log c)),
       Output = env_string env ''AGENT_LOG_OUTPUT'' (Output (Log c)),
       MaxSizeMB = env_int env ''AGENT_LOG_MAX_SIZE_MB'' (MaxSizeMB (Log c)),
       MaxBackups = env_int env ''AGENT_LOG_MAX_BACKUPS'' (MaxBackups (Log c))\<rparr>\<rparr>"

text \<open>The messages of \<^verbatim>\<open>validate\<close>, one constructor each.  It collects its complaints; a bad report timeout
  returns at once.\<close>

datatype complaint = NoEndpoint | BadConcurrency | BadPartSize | BadQueueMaxSize | BadMinTimeout | BadAssumedRate
  | BadRetryMax | BadPort | BadLevel string

datatype config_error = DecodeFailed string | ReportTimeout | Invalid "complaint list"

definition complain :: "bool \<Rightarrow> complaint \<Rightarrow> complaint list" where
  "complain bad msg = (if bad then [msg] else [])"

definition validate :: "config \<Rightarrow> config_error option" where
  "validate c =
     (if ReportTimeoutSeconds (UploadSec c) \<le> 0 then Some ReportTimeout
      else
        (let errs =
           complain (Endpoint (Server c) = '''') NoEndpoint @
           complain (Concurrency (UploadSec c) \<le> 0) BadConcurrency @
           complain (uc_PartSizeMB (UploadSec c) \<le> 0) BadPartSize @
           complain (QueueMaxSize (UploadSec c) \<le> 0) BadQueueMaxSize @
           complain (MinTimeoutSeconds (UploadSec c) \<le> 0) BadMinTimeout @
           complain (AssumedUploadBytesPerSecond (UploadSec c) \<le> 0) BadAssumedRate @
           complain (RetryMax (UploadSec c) < 0) BadRetryMax @
           complain (Port (Metrics c) \<le> 0 \<or> 65535 < Port (Metrics c)) BadPort @
           complain (Level (Log c) \<notin> {''debug'', ''info'', ''warn'', ''error''}) (BadLevel (Level (Log c)))
         in if errs \<noteq> [] then Some (Invalid errs) else None))"

definition Load :: "(string \<Rightarrow> config \<Rightarrow> string + config) \<Rightarrow> getenv \<Rightarrow> string \<Rightarrow> config_error + config" where
  "Load decode env path =
     (let decoded = (if path \<noteq> '''' then decode path defaults else Inr defaults)
      in case decoded of
           Inl err \<Rightarrow> Inl (DecodeFailed err)
         | Inr c \<Rightarrow>
             (let c = applyEnvOverrides env c
              in case validate c of Some err \<Rightarrow> Inl err | None \<Rightarrow> Inr c))"

section \<open>What a loaded configuration satisfies\<close>

text \<open>The bounds the rest of the agent relies on.\<close>

definition usable :: "config \<Rightarrow> bool" where
  "usable c \<longleftrightarrow> Endpoint (Server c) \<noteq> '''' \<and> 0 < ReportTimeoutSeconds (UploadSec c) \<and> 0 < MinTimeoutSeconds (UploadSec c) \<and>
     0 < AssumedUploadBytesPerSecond (UploadSec c) \<and> 0 < Concurrency (UploadSec c) \<and> 0 < uc_PartSizeMB (UploadSec c) \<and>
     0 < QueueMaxSize (UploadSec c) \<and> 0 \<le> RetryMax (UploadSec c) \<and> 0 < Port (Metrics c) \<and> Port (Metrics c) < 2 ^ 16 \<and>
     Level (Log c) \<in> {''debug'', ''info'', ''warn'', ''error''}"

lemma validate_usable: "validate c = None \<longleftrightarrow> usable c"
  by (auto simp: validate_def usable_def complain_def Let_def)

text \<open>
  a configuration is accepted exactly when it is usable.  Load answers with an error unless the file
  decodes and the defaults, overridden by the file and then by the environment, satisfy every bound; when
  it succeeds the result is that configuration.\<close>

theorem Load_usable:
  "Load decode env path = Inr c \<longleftrightarrow>
   (\<exists>c0. (if path = '''' then c0 = defaults else decode path defaults = Inr c0) \<and> c = applyEnvOverrides env c0 \<and> usable c)"
  by (auto simp: Load_def Let_def validate_usable [symmetric] split: sum.split option.split)

lemma digits_value_digit:
  "digit_value c = None \<Longrightarrow> c \<in> set cs \<Longrightarrow> digits_value acc cs = None"
  by (induction cs arbitrary: acc) (auto split: option.split)

text \<open>
  a numeric override that is not a decimal integer of 64 bits is ignored and never turned into another
  value; TLS stays as it was unless the variable is a boolean literal; and with an empty environment
  nothing changes.\<close>

theorem overrides_fail_safe:
  "(Atoi (env k) = None \<longrightarrow> env_int env k old = old) \<and>
   (c \<in> set (tl (env k)) \<and> digit_value c = None \<longrightarrow> env_int env k old = old) \<and>
   (ParseBool (TrimSpace (env ''AGENT_SERVER_TLS_INSECURE'')) = None \<longrightarrow>
     TLSInsecure (Server (applyEnvOverrides env cf)) = TLSInsecure (Server cf)) \<and>
   applyEnvOverrides (\<lambda>_. '''') cf = cf"
proof -
  have "Atoi (env k) = None" if "c \<in> set (tl (env k))" "digit_value c = None"
    using that digits_value_digit [OF that(2)] by (cases "env k") (auto simp: Atoi_def Let_def split: option.split)
  then show ?thesis
    by (auto simp: env_int_def env_insecure_def applyEnvOverrides_def env_string_def env_enabled_def Let_def)
qed

theorem overrides_fail_safe_witness:
  "env_int (\<lambda>_. ''12x'') ''AGENT_METRICS_PORT'' 9100 = 9100 \<and> applyEnvOverrides (\<lambda>_. '''') defaults = defaults"
proof -
  have "Atoi ''12x'' = None" by code_simp
  then show ?thesis using overrides_fail_safe [of "\<lambda>_. ''12x''" "''AGENT_METRICS_PORT''" 9100 _ defaults] by simp
qed

end
