(* ===== verification/Agent.thy ===== *)
theory Agent
  imports Uploader Executor Config "HOL-Library.Word"
begin

text \<open>
  The agent process around the executor (agent/cmd/agent/main.go, agent/internal/credential): the
  short-lived storage credentials with their generations, the upload function the executor calls with its
  deadline and its reaction to a denied upload.  Other goroutines publish credentials at any moment; every
  \<open>Apply\<close> runs under one mutex, so what they do between two steps of the upload path is a list of
  operations, and the theorems hold for all of them.  Generations are 64-bit words and durations
  nanoseconds in 64-bit integers, as in Go.
\<close>

section \<open>Credentials\<close>

record cred_payload =
  cp_access_key :: string
  cp_secret_key :: string
  cp_session_token :: string
  cp_expires_at :: int
  cp_endpoint :: string
  cp_use_ssl :: bool

record sts_credentials =
  AccessKey :: string
  SecretKey :: string
  SessionToken :: string
  Expiry :: int

record sts_manager =
  cred :: "sts_credentials option"
  sts_generation :: "64 word"

definition NewSTSManager :: sts_manager where
  "NewSTSManager = \<lparr>cred = None, sts_generation = 0\<rparr>"

definition SetSTS :: "sts_credentials \<Rightarrow> 64 word \<Rightarrow> sts_manager \<Rightarrow> bool \<times> sts_manager" where
  "SetSTS c generation s =
     (if generation \<le> sts_generation s then (False, s)
      else (True, \<lparr>cred = Some c, sts_generation = generation\<rparr>))"

definition Clear :: "sts_manager \<Rightarrow> sts_manager" where
  "Clear s = s\<lparr>cred := None\<rparr>"

definition IsSTSValid :: "int \<Rightarrow> sts_manager \<Rightarrow> bool" where
  "IsSTSValid now s = (case cred s of None \<Rightarrow> False | Some c \<Rightarrow> 10 * 60 * 1000000000 < Expiry c - now)"

record uploader_config =
  uc_endpoint :: string
  uc_access_key :: string
  uc_secret_key :: string
  uc_session_token :: string
  uc_use_ssl :: bool
  uc_part_size_mb :: int
  uc_concurrency :: int

record credential_holder =
  sts :: sts_manager
  cfg :: "uploader_config option"
  generation :: "64 word"
  partSizeMB :: int
  concurrency :: int

definition newCredentialHolder :: "sts_manager \<Rightarrow> int \<Rightarrow> int \<Rightarrow> credential_holder" where
  "newCredentialHolder s ps c = \<lparr>sts = s, cfg = None, generation = 0, partSizeMB = ps, concurrency = c\<rparr>"

definition sts_of :: "cred_payload \<Rightarrow> sts_credentials" where
  "sts_of c = \<lparr>AccessKey = cp_access_key c, SecretKey = cp_secret_key c, SessionToken = cp_session_token c,
     Expiry = cp_expires_at c\<rparr>"

definition config_of :: "credential_holder \<Rightarrow> cred_payload \<Rightarrow> uploader_config" where
  "config_of h c = \<lparr>uc_endpoint = cp_endpoint c, uc_access_key = cp_access_key c, uc_secret_key = cp_secret_key c,
     uc_session_token = cp_session_token c, uc_use_ssl = cp_use_ssl c, uc_part_size_mb = partSizeMB h,
     uc_concurrency = concurrency h\<rparr>"

definition Apply :: "cred_payload option \<Rightarrow> 64 word \<Rightarrow> credential_holder \<Rightarrow> bool \<times> credential_holder" where
  "Apply c g h =
     (case c of
        None \<Rightarrow> (False, h)
      | Some c \<Rightarrow>
          (case SetSTS (sts_of c) g (sts h) of
             (False, s) \<Rightarrow> (False, h\<lparr>sts := s\<rparr>)
           | (True, s) \<Rightarrow> (True, h\<lparr>sts := s, cfg := Some (config_of h c), generation := g\<rparr>)))"

definition Current :: "credential_holder \<Rightarrow> uploader_config option" where
  "Current h = cfg h"

definition Snapshot :: "credential_holder \<Rightarrow> uploader_config option \<times> 64 word" where
  "Snapshot h = (cfg h, generation h)"

text \<open>The credential state of the process: the holder and the generation counter \<^verbatim>\<open>credGen\<close>.\<close>

record creds_state =
  cs_holder :: credential_holder
  credGen :: "64 word"

definition credGen_Add :: "creds_state \<Rightarrow> 64 word \<times> creds_state" where
  "credGen_Add c = (credGen c + 1, c\<lparr>credGen := credGen c + 1\<rparr>)"

definition updateCreds :: "cred_payload option \<Rightarrow> 64 word \<Rightarrow> creds_state \<Rightarrow> creds_state" where
  "updateCreds p g c = c\<lparr>cs_holder := snd (Apply p g (cs_holder c))\<rparr>"

text \<open>
  What another goroutine does to the credentials: a push by the control plane, the start of a refresh
  request (which takes a generation), the arrival of a response with the generation of its request, and
  the clearing of the session in front of a refresh.
\<close>

datatype cred_op = OPush "cred_payload option" | ORequest | OArrive "cred_payload option" "64 word" | OClear

definition holder_clear :: "creds_state \<Rightarrow> creds_state" where
  "holder_clear c = c\<lparr>cs_holder := (cs_holder c)\<lparr>sts := Clear (sts (cs_holder c))\<rparr>\<rparr>"

fun cred_step :: "cred_op \<Rightarrow> creds_state \<Rightarrow> creds_state" where
  "cred_step (OPush p) c = (case credGen_Add c of (g, c) \<Rightarrow> updateCreds p g c)"
| "cred_step ORequest c = snd (credGen_Add c)"
| "cred_step (OArrive p g) c = updateCreds p g c"
| "cred_step OClear c = holder_clear c"

definition cred_steps :: "cred_op list \<Rightarrow> creds_state \<Rightarrow> creds_state" where
  "cred_steps ops c = fold cred_step ops c"

text \<open>The start of a refresh: the session is cleared and a generation taken; then the response.\<close>

definition refreshSTS :: "cred_op list \<Rightarrow> string + cred_payload option \<Rightarrow> creds_state \<Rightarrow> string option \<times> creds_state" where
  "refreshSTS meanwhile resp c =
     (let c = holder_clear c;
          (g, c) = credGen_Add c;
          c = cred_steps meanwhile c
      in case resp of
           Inl err \<Rightarrow> (Some err, c)
         | Inr p \<Rightarrow> (None, updateCreds p g c))"

text \<open>One turn of the periodic refresh.\<close>

definition refresh_tick :: "int \<Rightarrow> cred_op list \<Rightarrow> string + cred_payload option \<Rightarrow> creds_state \<Rightarrow> creds_state" where
  "refresh_tick now meanwhile resp c =
     (if IsSTSValid now (sts (cs_holder c)) then c
      else
        (let (g, c) = credGen_Add c;
             c = cred_steps meanwhile c
         in case resp of Inl err \<Rightarrow> c | Inr p \<Rightarrow> updateCreds p g c))"

section \<open>Deadlines\<close>

definition maxDuration :: int where
  "maxDuration = 2 ^ 63 - 1"

definition maxDurationSeconds :: int where
  "maxDurationSeconds = maxDuration div 1000000000"

text \<open>None is the run-time panic of a division by zero; Go's integer division truncates towards zero.\<close>

definition uploadTimeoutForSize :: "int \<Rightarrow> int \<Rightarrow> int \<Rightarrow> int option" where
  "uploadTimeoutForSize fileSize minimum rate =
     (if fileSize \<le> 0 then Some minimum
      else if rate = 0 then None
      else
        (let seconds = int64 (sgn rate * (fileSize div \<bar>rate\<bar>));
             seconds = (if fileSize mod \<bar>rate\<bar> \<noteq> 0 then int64 (seconds + 1) else seconds)
         in if maxDurationSeconds < seconds then Some maxDuration
            else
              (let derived = int64 (seconds * 1000000000)
               in if derived < minimum then Some minimum else Some derived)))"

section \<open>The upload function of the executor\<close>

datatype agent_error = NoCredentials | NewFailed string | Upload up_error | Panic
  | StillDenied agent_error | DeniedOnNewest agent_error

text \<open>Which errors of an upload wrap a response of the object store with \<^verbatim>\<open>%w\<close>, and which.\<close>

fun store_response :: "up_error \<Rightarrow> store_error option" where
  "store_response (EVerify e) = Some e"
| "store_response (EInit e) = Some e"
| "store_response (EPut e) = Some e"
| "store_response (EPart _ e) = Some e"
| "store_response (EComplete e) = Some e"
| "store_response _ = None"

fun isAccessDenied :: "agent_error \<Rightarrow> bool" where
  "isAccessDenied (Upload e) = (case store_response e of None \<Rightarrow> False | Some r \<Rightarrow> se_code r = ''AccessDenied'')"
| "isAccessDenied _ = False"

fun is_terminal_error :: "agent_error \<Rightarrow> bool" where
  "is_terminal_error (StillDenied _) = True"
| "is_terminal_error (DeniedOnNewest _) = True"
| "is_terminal_error _ = False"

text \<open>
  The points of one call at which other goroutines may act on the credentials: before an attempt reads
  the configuration, while it runs, during the refresh, before the generation is noted.
\<close>

datatype cred_point = PBefore nat | PDuring nat | PRefresh | PNoted

record agent_env =
  ae_others :: "cred_point \<Rightarrow> cred_op list"
  ae_refresh :: "string + cred_payload option"
  ae_new :: "nat \<Rightarrow> uploader_config \<Rightarrow> string option"
  ae_stat :: "nat \<Rightarrow> string \<Rightarrow> int option"
  ae_up :: "nat \<Rightarrow> int \<Rightarrow> uploader_config \<Rightarrow> up_env \<times> up_env"

text \<open>The state of one call: credentials, uploader state, and the snapshots the attempts ran on.\<close>

record agent_state =
  ag_creds :: creds_state
  ag_up :: up_state
  ag_attempts :: "(uploader_config option \<times> 64 word) list"

definition interleave :: "agent_env \<Rightarrow> cred_point \<Rightarrow> agent_state \<Rightarrow> agent_state" where
  "interleave e p a = a\<lparr>ag_creds := cred_steps (ae_others e p) (ag_creds a)\<rparr>"

definition up_config_of :: "uploader_config \<Rightarrow> up_config" where
  "up_config_of c = normalise \<lparr>PartSizeMB = uc_part_size_mb c, ThresholdMB = 0\<rparr>"

definition upload_deadline :: "agent_env \<Rightarrow> upload_config \<Rightarrow> nat \<Rightarrow> upload_task \<Rightarrow> int option" where
  "upload_deadline e uc n task =
     (let uploadSize = (case ae_stat e n (t_local_path task) of None \<Rightarrow> t_file_size task | Some s \<Rightarrow> s)
      in uploadTimeoutForSize uploadSize (int64 (MinTimeoutSeconds uc * 1000000000)) (AssumedUploadBytesPerSecond uc))"

text \<open>
  uploadWithTimeout around singleAttemptUpload around uploadWithTimeout around UploadFile, as the
  executor's upload function composes them; both deadlines are those of the file's current size.
\<close>

definition singleAttemptUpload :: "agent_env \<Rightarrow> upload_config \<Rightarrow> nat \<Rightarrow> int \<Rightarrow> agent_state
    \<Rightarrow> (agent_error + up_result) \<times> agent_state" where
  "singleAttemptUpload e uc n outer a =
     (let a = interleave e (PBefore n) a;
          h = cs_holder (ag_creds a);
          a = a\<lparr>ag_attempts := ag_attempts a @ [Snapshot h]\<rparr>
      in case Current h of
           None \<Rightarrow> (Inl NoCredentials, interleave e (PDuring n) a)
         | Some ucfg \<Rightarrow>
             (case ae_new e n ucfg of
                Some err \<Rightarrow> (Inl (NewFailed err), interleave e (PDuring n) a)
              | None \<Rightarrow>
                  (case upload_deadline e uc n (us_task (ag_up a)) of
                     None \<Rightarrow> (Inl Panic, a)
                   | Some inner \<Rightarrow>
                       (let (e0, e1) = ae_up e n (min outer inner) ucfg;
                            (r, u) = UploadFile e0 e1 (up_config_of ucfg) (ag_up a);
                            a = interleave e (PDuring n) (a\<lparr>ag_up := u\<rparr>)
                        in case r of Inl err \<Rightarrow> (Inl (Upload err), a) | Inr res \<Rightarrow> (Inr res, a)))))"

definition uploadWithTimeout :: "agent_env \<Rightarrow> upload_config \<Rightarrow> nat \<Rightarrow> agent_state
    \<Rightarrow> (agent_error + up_result) \<times> agent_state" where
  "uploadWithTimeout e uc n a =
     (case upload_deadline e uc n (us_task (ag_up a)) of
        None \<Rightarrow> (Inl Panic, a)
      | Some outer \<Rightarrow> singleAttemptUpload e uc n outer a)"

definition denied :: "agent_error + up_result \<Rightarrow> bool" where
  "denied r = (case r of Inl err \<Rightarrow> isAccessDenied err | Inr _ \<Rightarrow> False)"

definition last_attempt :: "agent_env \<Rightarrow> upload_config \<Rightarrow> agent_state \<Rightarrow> (agent_error + up_result) \<times> agent_state" where
  "last_attempt e uc a =
     (case uploadWithTimeout e uc 2 a of
        (Inl err, a) \<Rightarrow> if isAccessDenied err then (Inl (DeniedOnNewest err), a) else (Inl err, a)
      | (Inr res, a) \<Rightarrow> (Inr res, a))"

definition second_attempt :: "agent_env \<Rightarrow> upload_config \<Rightarrow> agent_state \<Rightarrow> (agent_error + up_result) \<times> agent_state" where
  "second_attempt e uc a =
     (let a = interleave e PNoted a;
          genBefore = generation (cs_holder (ag_creds a))
      in case uploadWithTimeout e uc 1 a of
           (Inr res, a) \<Rightarrow> (Inr res, a)
         | (Inl err, a) \<Rightarrow>
             if \<not> isAccessDenied err then (Inl err, a)
             else if generation (cs_holder (ag_creds a)) = genBefore then (Inl (StillDenied err), a)
             else last_attempt e uc a)"

definition uploadWithAccessDeniedRetry :: "agent_env \<Rightarrow> upload_config \<Rightarrow> agent_state
    \<Rightarrow> (agent_error + up_result) \<times> agent_state" where
  "uploadWithAccessDeniedRetry e uc a =
     (case uploadWithTimeout e uc 0 a of
        (Inr res, a) \<Rightarrow> (Inr res, a)
      | (Inl err, a) \<Rightarrow>
          if \<not> isAccessDenied err then (Inl err, a)
          else
            (case refreshSTS (ae_others e PRefresh) (ae_refresh e) (ag_creds a) of
               (Some rErr, c) \<Rightarrow> (Inl err, a\<lparr>ag_creds := c\<rparr>)
             | (None, c) \<Rightarrow> second_attempt e uc (a\<lparr>ag_creds := c\<rparr>)))"

text \<open>The upload function handed to the executor, for one task and database; \<open>msg\<close> renders errors.\<close>

definition agent_upload :: "(agent_error \<Rightarrow> string) \<Rightarrow> agent_env \<Rightarrow> upload_config \<Rightarrow> creds_state \<Rightarrow> uploader_fn" where
  "agent_upload msg e uc c = (\<lambda>task d.
     let (r, a) = uploadWithAccessDeniedRetry e uc
           \<lparr>ag_creds = c, ag_up = \<lparr>us_db = d, us_task = task, us_trace = []\<rparr>, ag_attempts = []\<rparr>
     in (case r of
           Inl err \<Rightarrow> Inl (UploadError (msg err) (is_terminal_error err))
         | Inr res \<Rightarrow> Inr (Some \<lparr>ur_sha256 = res_sha256 res, ur_etag = res_etag res, ur_size_bytes = res_size_bytes res,
             ur_storage_path = res_storage_path res, ur_bucket = res_bucket res\<rparr>),
         us_task (ag_up a), us_db (ag_up a)))"

section \<open>Vocabulary of the properties\<close>

text \<open>The payloads offered to \<open>Apply\<close> along a list of operations, with their generations.\<close>

fun offers :: "cred_op list \<Rightarrow> 64 word \<Rightarrow> (cred_payload \<times> 64 word) list" where
  "offers [] n = []"
| "offers (OPush p # ops) n = (case p of None \<Rightarrow> [] | Some c \<Rightarrow> [(c, n + 1)]) @ offers ops (n + 1)"
| "offers (ORequest # ops) n = offers ops (n + 1)"
| "offers (OArrive p g # ops) n = (case p of None \<Rightarrow> [] | Some c \<Rightarrow> [(c, g)]) @ offers ops n"
| "offers (OClear # ops) n = offers ops n"

definition newest :: "credential_holder \<Rightarrow> (cred_payload \<times> 64 word) list \<Rightarrow> bool" where
  "newest h xs \<longleftrightarrow>
     sts_generation (sts h) = generation h \<and> (\<forall>(p, g)\<in>set xs. g \<le> generation h) \<and>
     (cfg h = None \<and> generation h = 0 \<or>
      (\<exists>p. (p, generation h) \<in> set xs \<and> cfg h = Some (config_of h p) \<and> cred (sts h) \<in> {None, Some (sts_of p)}))"

definition gen_of :: "agent_state \<Rightarrow> 64 word" where
  "gen_of a = generation (cs_holder (ag_creds a))"

definition coherent :: "creds_state \<Rightarrow> bool" where
  "coherent c \<longleftrightarrow> sts_generation (sts (cs_holder c)) = generation (cs_holder c)"

text \<open>The generation only grows, and while it stands still so does the published configuration.\<close>

definition creds_advance :: "creds_state \<Rightarrow> creds_state \<Rightarrow> bool" where
  "creds_advance c c' \<longleftrightarrow> coherent c' \<and> generation (cs_holder c) \<le> generation (cs_holder c') \<and>
     (generation (cs_holder c') = generation (cs_holder c) \<longrightarrow> cfg (cs_holder c') = cfg (cs_holder c))"

text \<open>A terminal verdict on one attempt after the refresh: the last snapshot is at least as new as the
  credentials in force when the second attempt was prepared.\<close>

definition judged_on :: "agent_state \<Rightarrow> agent_state \<Rightarrow> bool" where
  "judged_on a a' \<longleftrightarrow> (\<exists>snaps s. ag_attempts a' = ag_attempts a @ snaps @ [s] \<and> length snaps \<le> 1 \<and>
     fst s \<noteq> None \<and> gen_of a \<le> snd s \<and> snd s \<le> gen_of a' \<and> (snaps = [] \<longrightarrow> s = Snapshot (cs_holder (ag_creds a'))))"

text \<open>Concrete inputs for the witnesses: a store that denies every PUT, refreshed credentials.\<close>

definition sample_payload :: cred_payload where
  "sample_payload = \<lparr>cp_access_key = ''AK'', cp_secret_key = ''SK'', cp_session_token = ''ST'', cp_expires_at = 100,
     cp_endpoint = ''store:9000'', cp_use_ssl = True\<rparr>"

definition sample_creds :: creds_state where
  "sample_creds = cred_steps [OPush (Some sample_payload)]
     \<lparr>cs_holder = newCredentialHolder NewSTSManager 64 3, credGen = 0\<rparr>"

definition denying_env :: agent_env where
  "denying_env = \<lparr>ae_others = (\<lambda>_. []), ae_refresh = Inr (Some sample_payload), ae_new = (\<lambda>_ _. None),
     ae_stat = (\<lambda>_ _. Some 3),
     ae_up = (\<lambda>_ _ _. let e = sample_up\<lparr>ue_put := (\<lambda>_ _. (0, Inl (StoreError ''denied'' ''AccessDenied'')))\<rparr> in (e, e))\<rparr>"

definition sample_agent :: agent_state where
  "sample_agent = \<lparr>ag_creds = sample_creds, ag_up = fresh_up, ag_attempts = []\<rparr>"

end
