(* ===== verification/Executor_Accounting.thy ===== *)
theory Executor_Accounting
  imports Executor
begin

text \<open>
  Every handler of the executor keeps the queue invariant and loses track of no multipart upload: the
  step lemmas for each handler, and the safety theorem over all their interleavings.
\<close>

section \<open>Closure of the accounting under table operations\<close>

lemma keeps_refl [simp]: "keeps x x"
  by (auto simp: keeps_def)

lemma abort_recorded_iff: "abort_recorded u d \<longleftrightarrow> u \<in> outbox_keys d"
  unfolding abort_recorded_def outbox_keys_def image_iff by metis

lemma open_rowsI: "r \<in> set (upload_tasks d) \<Longrightarrow> resumable r \<Longrightarrow> t_upload_id r \<in> open_rows d"
  by (simp add: open_rows_def)

lemma open_rowsE:
  assumes "u \<in> open_rows d"
  obtains r where "r \<in> set (upload_tasks d)" "resumable r" "u = t_upload_id r"
  using assms by (auto simp: open_rows_def)

lemma keeps_trans: "keeps x y \<Longrightarrow> keeps y z \<Longrightarrow> keeps x z"
  by (auto simp: keeps_def)

lemma keepsI:
  assumes "outbox_keys (x_db x) \<subseteq> outbox_keys (x_db x') \<union> aborted x'"
    and "aborted x \<subseteq> aborted x'" and "open_rows (x_db x) \<subseteq> insert '''' (accounted x')"
  shows "keeps x x'"
  using assms by (auto simp: keeps_def accounted_def)

lemma keeps_by_parts:
  assumes "outbox_keys (x_db x) \<subseteq> outbox_keys (x_db x')" and "x_trace x' = x_trace x"
    and "open_rows (x_db x) \<subseteq> open_rows (x_db x')"
  shows "keeps x x'"
  using assms by (intro keepsI) (auto simp: accounted_def aborted_def)

lemma aborted_emit [simp]:
  "aborted (emit (EvAbort u b) x) = (if b then insert u (aborted x) else aborted x)"
  "aborted (emit (EvUpload t) x) = aborted x" "aborted (emit (EvSend i m) x) = aborted x"
  by (auto simp: aborted_def emit_def)

lemma emit_db [simp]: "x_db (emit ev x) = x_db x"
  by (simp add: emit_def)

lemma aborted_update [simp]:
  "aborted (x\<lparr>x_db := d\<rparr>) = aborted x" "aborted (x\<lparr>x_notify := b\<rparr>) = aborted x"
  "aborted (x\<lparr>x_reportNotify := b\<rparr>) = aborted x" "aborted (x\<lparr>x_timers := ts\<rparr>) = aborted x"
  by (simp_all add: aborted_def)

lemma open_rows_update:
  assumes "\<And>r. r \<in> set (upload_tasks d) \<Longrightarrow> P r \<Longrightarrow> resumable r \<Longrightarrow> t_upload_id (f r) = t_upload_id r \<and> resumable (f r)"
  shows "open_rows d \<subseteq> open_rows (upd_tasks P f d)"
  unfolding open_rows_def
proof (rule image_subsetI)
  fix r assume "r \<in> {r \<in> set (upload_tasks d). resumable r}"
  then have "(if P r then f r else r) \<in> {r \<in> set (update_where P f (upload_tasks d)). resumable r}"
    and "t_upload_id (if P r then f r else r) = t_upload_id r"
    using assms by (auto simp: update_where_def)
  then show "t_upload_id r \<in> t_upload_id ` {r \<in> set (upload_tasks (upd_tasks P f d)). resumable r}"
    by (intro rev_image_eqI [of "if P r then f r else r"]) simp_all
qed

lemma outbox_keys_cong: "abort_outbox d' = abort_outbox d \<Longrightarrow> outbox_keys d' = outbox_keys d"
  by (simp add: outbox_keys_def)

lemma open_rows_cong: "upload_tasks d' = upload_tasks d \<Longrightarrow> open_rows d' = open_rows d"
  by (simp add: open_rows_def)

lemma outbox_upd_tasks [simp]: "outbox_keys (upd_tasks P f d) = outbox_keys d"
  by (simp add: outbox_keys_def)

lemma outbox_enqueue:
  "outbox_keys d \<subseteq> outbox_keys (snd (EnqueueMultipartAbort io now e d))"
  by (cases "io 0") (auto simp: EnqueueMultipartAbort_def outbox_keys_def Let_def keys_insert_ignore)

lemma outbox_delete:
  "outbox_keys d \<subseteq> insert u (outbox_keys (snd (DeleteMultipartAbort io u d)))"
  by (cases "io 0") (auto simp: DeleteMultipartAbort_def outbox_keys_def set_delete_where)

lemma outbox_attempt:
  "outbox_keys (snd (RecordMultipartAbortAttempt io u at msg d)) = outbox_keys d"
  by (cases "io 0") (simp_all add: RecordMultipartAbortAttempt_def outbox_keys_def attempt_row.keys_update)

lemma attempt_tasks [simp]: "upload_tasks (snd (RecordMultipartAbortAttempt io u at msg d)) = upload_tasks d"
  by (cases "io 0") (simp_all add: RecordMultipartAbortAttempt_def)

lemma keeps_abandonTaskUpload: "keeps x (abandonTaskUpload w cfg i t x)"
proof (cases "\<not> abandon_set cfg \<or> t_upload_id t = ''''")
  case True
  then show ?thesis by (auto simp: abandonTaskUpload_def)
next
  case False
  let ?d1 = "snd (EnqueueMultipartAbort (w_io w SRecordAbort i) (w_secs w SRecordAbort i 0) (fresh_abort t 0) (x_db x))"
  have rows: "open_rows (x_db (abandonTaskUpload w cfg i t x)) = open_rows (x_db x)"
    by (rule open_rows_cong) simp
  show ?thesis
  proof (rule keepsI)
    show "outbox_keys (x_db x) \<subseteq> outbox_keys (x_db (abandonTaskUpload w cfg i t x)) \<union> aborted (abandonTaskUpload w cfg i t x)"
    proof (cases "w_abort w i t")
      case None
      then show ?thesis
        using False subset_trans [OF outbox_enqueue outbox_delete]
        by (simp add: abandonTaskUpload_def Let_def) blast
    next
      case (Some e)
      then show ?thesis
        using False outbox_enqueue by (simp add: abandonTaskUpload_def Let_def le_supI1)
    qed
    show "aborted x \<subseteq> aborted (abandonTaskUpload w cfg i t x)"
      by (auto simp: abandonTaskUpload_def Let_def split: option.split)
  qed (auto simp: accounted_def rows)
qed

lemma keeps_notify [simp]:
  "keeps x (x'\<lparr>x_notify := b\<rparr>) = keeps x x'" "keeps x (x'\<lparr>x_timers := ts\<rparr>) = keeps x x'"
  "keeps x (x'\<lparr>x_reportNotify := b\<rparr>) = keeps x x'"
  by (simp_all add: keeps_def accounted_def)

lemma keeps_same_tables:
  "upload_tasks d = upload_tasks (x_db x) \<Longrightarrow> abort_outbox d = abort_outbox (x_db x) \<Longrightarrow> keeps x (x\<lparr>x_db := d\<rparr>)"
  by (rule keeps_by_parts) (simp_all add: outbox_keys_def open_rows_def)

lemma keeps_upd_tasks:
  assumes "\<And>r. r \<in> set (upload_tasks (x_db x)) \<Longrightarrow> P r \<Longrightarrow> resumable r \<Longrightarrow>
      t_upload_id (f r) = t_upload_id r \<and> resumable (f r)"
  shows "keeps x (x\<lparr>x_db := upd_tasks P f (x_db x)\<rparr>)"
  using open_rows_update [of "x_db x" P f] assms by (intro keeps_by_parts) simp_all

lemma keeps_update_by_id:
  assumes "\<And>r. resumable r \<Longrightarrow> t_upload_id (f r) = t_upload_id r \<and> resumable (f r)"
  shows "keeps x (x\<lparr>x_db := snd (update_by_id io tid f (x_db x))\<rparr>)"
proof (cases "io 0")
  case None
  then show ?thesis using keeps_upd_tasks [of x "\<lambda>r. t_id r = tid" f] assms by (simp add: update_by_id_def)
qed (simp add: update_by_id_def)

lemma keeps_evict:
  assumes "unique_key t_id (upload_tasks (x_db x))"
    and "DeleteOldestEvictable io clk ex (x_db x) = (Inr (Some t), d)"
  shows "keeps x (x\<lparr>x_db := d\<rparr>)"
proof -
  have ev: "evicts ex (x_db x) (Some t) d"
    using assms evict_loop_evicts [of "x_db x" 7] by (simp add: DeleteOldestEvictable_def numeral_eq_Suc del: evict_loop.simps)
  have t: "t \<in> set (upload_tasks (x_db x))" using ev by (simp add: evicts_def)
  have gone: "r = t" if "r \<in> set (upload_tasks (x_db x))" "t_id r = t_id t" for r
    using unique_keyD [OF assms(1) that(1) t] that(2) by simp
  show ?thesis
  proof (rule keepsI)
    show "open_rows (x_db x) \<subseteq> insert '''' (accounted (x\<lparr>x_db := d\<rparr>))"
    proof
      fix u assume "u \<in> open_rows (x_db x)"
      then obtain r where r: "r \<in> set (upload_tasks (x_db x))" "resumable r" "u = t_upload_id r"
        by (rule open_rowsE)
      show "u \<in> insert '''' (accounted (x\<lparr>x_db := d\<rparr>))"
      proof (cases "t_id r = t_id t")
        case True
        then have "u = t_upload_id t" using gone [OF r(1)] r(3) by simp
        then show ?thesis using ev by (auto simp: accounted_def abort_recorded_iff evicts_def)
      next
        case False
        then have "r \<in> {r \<in> set (upload_tasks d). resumable r}" using ev r by (simp add: evicts_def)
        then show ?thesis using r(3) by (auto simp: accounted_def open_rows_def)
      qed
    qed
  qed (use ev in \<open>auto simp: outbox_keys_def evicts_def\<close>)
qed

lemma DeleteOldestEvictable_other:
  "DeleteOldestEvictable io clk ex d = (r, d') \<Longrightarrow> r = Inl e \<or> r = Inr None \<Longrightarrow> unique_key t_id (upload_tasks d) \<Longrightarrow> d' = d"
  using atomic_evict_loop [of d 8 0 io clk ex] evict_loop_evicts [of d 7 0 io clk ex None d']
  by (auto simp: DeleteOldestEvictable_def atomic_def evicts_def numeral_eq_Suc simp del: evict_loop.simps)

lemma queue_inv_abandonTaskUpload: "queue_inv (x_db x) \<Longrightarrow> queue_inv (x_db (abandonTaskUpload w cfg i t x))"
  by (auto simp: abandonTaskUpload_def Let_def split: option.split
      intro!: queue_step_inv [OF step_abort_done] queue_step_inv [OF step_abort])

text \<open>The rule of the eviction loop: what the start state has and every eviction keeps, the end
  state has.\<close>

lemma enforce_loop_inv:
  assumes "I x" and "\<And>x. I x \<Longrightarrow> unique_key t_id (upload_tasks (x_db x))"
    and "\<And>i x t d. I x \<Longrightarrow> DeleteOldestEvictable (w_io w SEvict i) (w_secs w SEvict i) newID (x_db x) = (Inr (Some t), d)
      \<Longrightarrow> I (abandonTaskUpload w cfg i t (x\<lparr>x_db := d\<rparr>))"
  shows "I (enforce_loop w cfg newID i x)"
  using assms
proof (induction w cfg newID i x rule: enforce_loop.induct)
  case (1 w cfg newID i x)
  let ?ev = "DeleteOldestEvictable (w_io w SEvict i) (w_secs w SEvict i) newID (x_db x)"
  have same: "x\<lparr>x_db := d\<rparr> = x" if "?ev = (r, d)" "r = Inl e \<or> r = Inr None" for r d e
    using DeleteOldestEvictable_other [OF that 1(3) [OF 1(2)]] by simp
  have step: "I (enforce_loop w cfg newID (Suc i) (abandonTaskUpload w cfg i t (x\<lparr>x_db := d\<rparr>)))"
    if "CountActive (w_io w SCountActive i) (x_db x) = Inr n" "\<not> int n \<le> queueMaxSize cfg" "?ev = (Inr (Some t), d)" for n t d
    using 1(1) [OF that(1,2) that(3) [symmetric] refl refl 1(4) [OF 1(2) that(3)] 1(3,4)] by blast
  show ?case
    using 1(2) step same
    by (subst enforce_loop.simps) (auto split: sum.split prod.split option.split)
qed

lemma enforce_loop_keeps:
  assumes "queue_inv (x_db x)"
  shows "keeps x (enforce_loop w cfg newID i x) \<and> queue_inv (x_db (enforce_loop w cfg newID i x))"
proof (rule enforce_loop_inv [where I = "\<lambda>y. keeps x y \<and> queue_inv (x_db y)"])
  fix i y t d
  assume y: "keeps x y \<and> queue_inv (x_db y)"
    and ev: "DeleteOldestEvictable (w_io w SEvict i) (w_secs w SEvict i) newID (x_db y) = (Inr (Some t), d)"
  have "queue_inv d" using queue_step_inv [OF step_evict, of "x_db y"] y ev by (metis snd_conv)
  moreover have "keeps y (y\<lparr>x_db := d\<rparr>)" using keeps_evict [OF _ ev] y by (simp add: queue_inv_def)
  ultimately show "keeps x (abandonTaskUpload w cfg i t (y\<lparr>x_db := d\<rparr>)) \<and>
      queue_inv (x_db (abandonTaskUpload w cfg i t (y\<lparr>x_db := d\<rparr>)))"
    using y keeps_trans keeps_abandonTaskUpload queue_inv_abandonTaskUpload [of "y\<lparr>x_db := d\<rparr>"]
    by (metis exec.select_convs(1) exec.surjective exec.update_convs(1))
qed (use assms in \<open>auto simp: queue_inv_def\<close>)

lemma EnqueueIf_tables:
  "open_rows d \<subseteq> open_rows (snd (EnqueueIfNoActive io now task d)) \<and>
   abort_outbox (snd (EnqueueIfNoActive io now task d)) = abort_outbox d"
  by (cases "io 0") (auto simp: EnqueueIfNoActive_def Let_def insert_task_def open_rows_def)

lemma Submit_keeps:
  assumes "queue_inv (x_db x)" and "0 \<le> t_retry_count task"
  shows "keeps x (snd (Submit w cfg task x)) \<and> queue_inv (x_db (snd (Submit w cfg task x)))"
proof -
  let ?task = "if t_id task = '''' then task\<lparr>t_id := w_uuid w\<rparr> else task"
  let ?io = "w_io w SEnqueue 0" and ?now = "w_secs w SEnqueue 0 0"
  obtain r d where r: "EnqueueIfNoActive ?io ?now ?task (x_db x) = (r, d)" by fastforce
  have "queue_step (x_db x) (snd (EnqueueIfNoActive ?io ?now ?task (x_db x)))"
    using assms(2) by (intro step_enqueue_if) simp
  then have inv: "queue_inv d" using queue_step_inv [OF _ assms(1)] r by simp
  have k: "keeps x (x\<lparr>x_db := d\<rparr>)"
    using EnqueueIf_tables [of "x_db x" ?io ?now ?task] r
    by (intro keeps_by_parts) (auto simp: outbox_keys_def)
  have e: "keeps x (enforceCapacity w cfg (t_id ?task) (x\<lparr>x_db := d\<rparr>)) \<and>
      queue_inv (x_db (enforceCapacity w cfg (t_id ?task) (x\<lparr>x_db := d\<rparr>)))"
    using enforce_loop_keeps [of "x\<lparr>x_db := d\<rparr>"] inv k keeps_trans
    by (auto simp: enforceCapacity_def)
  have "Submit w cfg task x = (case (r, d) of (Inl e, d) \<Rightarrow> (Inl e, x\<lparr>x_db := d\<rparr>)
         | (Inr False, d) \<Rightarrow> (Inr (), x\<lparr>x_db := d\<rparr>)
         | (Inr True, d) \<Rightarrow>
             (Inr (), (enforceCapacity w cfg (t_id ?task) (x\<lparr>x_db := d\<rparr>))\<lparr>x_notify := True\<rparr>))"
    unfolding Submit_def Let_def r ..
  then show ?thesis using inv k e
    by (auto split: sum.split bool.split)
qed

lemma SaveReport_outbox [simp]: "abort_outbox (snd (SaveReport io now tid p d)) = abort_outbox d"
  by (auto simp: SaveReport_def Let_def stmt_split [where P = "\<lambda>r. abort_outbox (snd r) = _"])

lemma SaveReport_rows:
  assumes "r \<in> set (upload_tasks d)" and "t_id r \<noteq> tid"
  shows "r \<in> set (upload_tasks (snd (SaveReport io now tid p d)))"
  using assms
  by (auto simp: SaveReport_def Let_def set_update_where stmt_split [where P = "\<lambda>s. r \<in> set (upload_tasks (snd s))"])

lemma persistResult_db:
  "x_db (persistResult w task res err x) = x_db x \<or>
   (\<exists>p. x_db (persistResult w task res err x) = snd (SaveReport (w_io w SSaveReport 0) (w_secs w SSaveReport 0 1) (t_id task) p (x_db x)))"
  by (auto simp: persistResult_def split: sum.split prod.split) (metis snd_conv)+

lemma persistResult_trace [simp]: "x_trace (persistResult w task res err x) = x_trace x"
  by (auto simp: persistResult_def split: sum.split prod.split)

lemma persistResult_inv: "queue_inv (x_db x) \<Longrightarrow> queue_inv (x_db (persistResult w task res err x))"
  using persistResult_db [of w task res err x] queue_step_inv [OF step_save_report] by metis

lemma persistResult_keeps:
  assumes "\<And>r. r \<in> set (upload_tasks (x_db x)) \<Longrightarrow> t_id r = t_id task \<Longrightarrow> resumable r \<Longrightarrow>
      t_upload_id r \<in> insert '''' (outbox_keys (x_db x) \<union> aborted x)"
  shows "keeps x (persistResult w task res err x)"
proof (rule keepsI)
  let ?y = "persistResult w task res err x"
  have ob: "outbox_keys (x_db ?y) = outbox_keys (x_db x)"
    using persistResult_db [of w task res err x] by (auto simp: outbox_keys_def)
  have ab: "aborted ?y = aborted x" by (simp add: aborted_def)
  show "outbox_keys (x_db x) \<subseteq> outbox_keys (x_db ?y) \<union> aborted ?y" "aborted x \<subseteq> aborted ?y"
    using ob ab by auto
  have rows: "r \<in> set (upload_tasks (x_db ?y))" if "r \<in> set (upload_tasks (x_db x))" "t_id r \<noteq> t_id task" for r
    using persistResult_db [of w task res err x] SaveReport_rows that by metis
  show "open_rows (x_db x) \<subseteq> insert '''' (accounted ?y)"
  proof
    fix u assume "u \<in> open_rows (x_db x)"
    then obtain r where r: "r \<in> set (upload_tasks (x_db x))" "resumable r" "u = t_upload_id r"
      by (rule open_rowsE)
    then show "u \<in> insert '''' (accounted ?y)"
      using assms [of r] rows [of r] open_rowsI [of r "x_db ?y"] ob ab
      by (cases "t_id r = t_id task") (auto simp: accounted_def)
  qed
qed

lemma abandon_tx_keeps:
  assumes run: "abandon_tx io now task f (x_db x) = (Inr u, d)"
    and hand: "\<And>r. r \<in> set (upload_tasks (x_db x)) \<Longrightarrow> t_id r = t_id task \<Longrightarrow> t_upload_id r = t_upload_id task"
  shows "keeps x (x\<lparr>x_db := d\<rparr>)"
proof -
  note t = abandon_tx_Inr [OF run]
  have ob: "outbox_keys (x_db x) \<subseteq> outbox_keys d" using t by (auto simp: outbox_keys_def)
  show ?thesis
  proof (rule keepsI)
    show "open_rows (x_db x) \<subseteq> insert '''' (accounted (x\<lparr>x_db := d\<rparr>))"
    proof
      fix v assume "v \<in> open_rows (x_db x)"
      then obtain r where r: "r \<in> set (upload_tasks (x_db x))" "resumable r" "v = t_upload_id r"
        by (rule open_rowsE)
      show "v \<in> insert '''' (accounted (x\<lparr>x_db := d\<rparr>))"
      proof (cases "t_id r = t_id task")
        case True
        then show ?thesis using hand [OF r(1)] r(3) t by (auto simp: accounted_def abort_recorded_iff)
      next
        case False
        then have "r \<in> set (upload_tasks d)" using t r(1) by (simp add: set_update_where)
        then show ?thesis using r open_rowsI [of r d] by (simp add: accounted_def)
      qed
    qed
  qed (use ob in auto)
qed

lemma NotFound_no_row:
  "abandon_tx io now task f d = (Inl ErrTaskNotFound, d') \<Longrightarrow> d' = d \<and> (\<forall>r\<in>set (upload_tasks d). t_id r \<noteq> t_id task)"
  by (auto simp: abandon_tx_def Let_def count_where_zero stmt_def split: option.splits if_splits)

lemma abandon_tx_rows:
  assumes "abandon_tx io now task f d = (Inr u, d')" and "\<And>r. \<not> resumable (f r)" and "\<And>r. t_id (f r) = t_id r"
  shows "\<forall>r\<in>set (upload_tasks d'). t_id r = t_id task \<longrightarrow> \<not> resumable r"
  using abandon_tx_Inr [OF assms(1)] assms(2,3) by (simp add: ball_update_where)

lemma failed_row_not_resumable: "\<not> resumable (mark_failed_row NextRetryNever msg now r)"
  by (simp add: resumable_def mark_failed_row_def)

lemma give_up_finish_keeps:
  assumes rows: "\<forall>r\<in>set (upload_tasks (x_db y)). t_id r = t_id task \<longrightarrow> \<not> resumable r"
    and tid: "t_id task' = t_id task"
  shows "keeps y (persistResult w task' None e (abandonTaskUpload w cfg i task' y))"
proof -
  let ?z = "abandonTaskUpload w cfg i task' y"
  have "keeps ?z (persistResult w task' None e ?z)"
    by (rule persistResult_keeps) (use rows tid in auto)
  then show ?thesis using keeps_abandonTaskUpload keeps_trans by blast
qed

lemma try_abandon_keeps:
  assumes inv: "queue_inv (x_db x)" and hand: "in_hand task x"
  shows "case try_abandon w cfg site nt task err x of
     Inl x' \<Rightarrow> keeps x x' \<and> queue_inv (x_db x') | Inr (e, x') \<Rightarrow> x' = x \<and> is_terminal e = is_terminal err"
proof -
  let ?m = "MarkFailedAbandoned (w_io w site 0) (w_secs w site 0) task (err_text err) (x_db x)"
  let ?t = "task\<lparr>t_retry_count := t_retry_count task + 1\<rparr>"
  let ?fin = "\<lambda>d. persistResult w ?t None (Some err) (abandonTaskUpload w cfg 0 ?t (x\<lparr>x_db := d\<rparr>))"
  obtain r d where m: "?m = (r, d)" by fastforce
  have tx: "abandon_tx (w_io w site 0) (w_secs w site 0 1) task
      (mark_failed_row NextRetryNever (err_text err) (w_secs w site 0 0)) (x_db x) = (r, d)"
    using m by (simp add: MarkFailedAbandoned_def)
  have inv': "queue_inv d" using queue_step_inv [OF step_abandon inv] m by (metis snd_conv)
  have fin_inv: "queue_inv (x_db (?fin d))"
    using inv' by (intro persistResult_inv queue_inv_abandonTaskUpload) simp
  have same: "x\<lparr>x_db := d\<rparr> = x" if "r = Inl e" for e
    using atomic_abandon_tx [of "x_db x"] tx that unfolding atomic_def by (metis exec.surjective exec.update_convs(1) fst_conv snd_conv)
  have ok: "keeps x (?fin d)" if "r = Inr u" for u
  proof -
    have "keeps x (x\<lparr>x_db := d\<rparr>)"
      by (rule abandon_tx_keeps [OF tx [unfolded that]]) (use hand in \<open>auto simp: in_hand_def\<close>)
    moreover have "keeps (x\<lparr>x_db := d\<rparr>) (?fin d)"
      using abandon_tx_rows [OF tx [unfolded that] failed_row_not_resumable]
      by (intro give_up_finish_keeps [where task = task]) (simp_all add: mark_failed_row_def)
    ultimately show ?thesis by (rule keeps_trans)
  qed
  have nf: "keeps x (?fin d)" if "r = Inl ErrTaskNotFound"
    using NotFound_no_row [OF tx [unfolded that]] same [OF that] give_up_finish_keeps [where task = task and y = x] by simp
  show ?thesis
  proof (cases r)
    case (Inl e)
    then show ?thesis using m nf fin_inv same [OF Inl] by (cases e) (simp_all add: try_abandon_def Let_def)
  next
    case (Inr u)
    then show ?thesis using m ok [OF Inr] fin_inv by (simp add: try_abandon_def Let_def)
  qed
qed

lemma try_abandon_Inl:
  assumes "queue_inv (x_db x)" and "in_hand task x" and "try_abandon w cfg site nt task err x = Inl x'"
  shows "keeps x x' \<and> queue_inv (x_db x')"
  using try_abandon_keeps [OF assms(1,2), where w = w and cfg = cfg and site = site and nt = nt and err = err] assms(3) by simp

lemma try_abandon_Inr:
  assumes "queue_inv (x_db x)" and "in_hand task x" and "try_abandon w cfg site nt task err x = Inr (e, x')"
  shows "x' = x"
  using try_abandon_keeps [OF assms(1,2), where w = w and cfg = cfg and site = site and nt = nt and err = err] assms(3) by simp

lemma clamp_delay_some:
  "ds \<noteq> [] \<Longrightarrow> 0 \<le> idx \<Longrightarrow> clamp_delay ds idx = Some (ds ! min (nat idx) (length ds - 1))"
  by (auto simp: clamp_delay_def Let_def min_def nat_less_iff of_nat_diff nat_diff_distrib
      intro: arg_cong [of _ _ "(!) ds"])

lemma clamp_delay_in: "clamp_delay ds idx = Some dl \<Longrightarrow> dl \<in> set ds"
  by (auto simp: clamp_delay_def Let_def intro!: nth_mem split: if_splits) (simp add: nat_less_iff)

lemma schedule_backoff_keeps:
  assumes "queue_inv (x_db x)" and clk: "sane_clock w cfg"
    and run: "schedule_backoff w cfg task err x = Done x'"
  shows "keeps x x' \<and> queue_inv (x_db x')"
proof -
  obtain delay where delay: "retryDelay cfg (t_retry_count task + 1) = Some delay"
    and x': "x' = x\<lparr>x_db := snd (MarkFailed (w_io w SBackoff 0) (w_secs w SBackoff 0 1) (t_id task) (err_text err)
                    (Some (unix (w_now w SBackoff 0 + delay))) (x_db x)), x_timers := x_timers x @ [RetryTimer task delay]\<rparr>"
    using run by (auto simp: schedule_backoff_def Let_def split: option.splits)
  have "0 \<le> delay" using clamp_delay_in delay clk by (auto simp: sane_clock_def retryDelay_def)
  then have "0 \<le> unix (w_now w SBackoff 0 + delay)"
    using clk by (simp add: unix_def sane_clock_def pos_imp_zdiv_nonneg_iff)
  then have "unix (w_now w SBackoff 0 + delay) \<noteq> NextRetryNever"
    by (simp add: NextRetryNever_def)
  then have "keeps x (x\<lparr>x_db := snd (MarkFailed (w_io w SBackoff 0) (w_secs w SBackoff 0 1) (t_id task) (err_text err)
                    (Some (unix (w_now w SBackoff 0 + delay))) (x_db x))\<rparr>)"
    unfolding MarkFailed_def
    by (intro keeps_update_by_id) (simp add: mark_failed_row_def resumable_def retry_stamp_def)
  then have "keeps x x'" using x' by (simp add: keeps_def accounted_def aborted_def)
  then show ?thesis using x' queue_step_inv [OF step_failed assms(1)] by simp
qed

lemma handleFailure_keeps:
  assumes inv: "queue_inv (x_db x)" and hand: "in_hand task x" and clk: "sane_clock w cfg"
    and run: "handleFailure w cfg task err x = Done x'"
  shows "keeps x x' \<and> queue_inv (x_db x')"
proof -
  let ?t1 = "if is_terminal err then try_abandon w cfg STerminal ''terminal abandonment not durably recorded: '' task err x
     else Inr (err, x)"
  have one: "case ?t1 of Inl y \<Rightarrow> keeps x y \<and> queue_inv (x_db y) | Inr (e, y) \<Rightarrow> y = x"
    using try_abandon_Inl [OF inv hand] try_abandon_Inr [OF inv hand] by (auto split: sum.splits)
  show ?thesis
  proof (cases ?t1)
    case (Inl y)
    then show ?thesis using one run by (simp add: handleFailure_def)
  next
    case (Inr p)
    then obtain e where e: "?t1 = Inr (e, x)" using one by (cases p) auto
    let ?t2 = "if retryMax cfg \<le> t_retry_count task + 1 then try_abandon w cfg SGiveUp ''give-up abandonment not durably recorded: '' task e x
     else Inr (e, x)"
    have two: "case ?t2 of Inl y \<Rightarrow> keeps x y \<and> queue_inv (x_db y) | Inr (e, y) \<Rightarrow> y = x"
      using try_abandon_Inl [OF inv hand] try_abandon_Inr [OF inv hand] by (auto split: sum.splits)
    have run2: "(case ?t2 of Inl x' \<Rightarrow> Done x' | Inr (err, x) \<Rightarrow> schedule_backoff w cfg task err x) = Done x'"
      using run unfolding handleFailure_def e by simp
    then show ?thesis
      using two schedule_backoff_keeps [OF inv clk] by (cases ?t2) auto
  qed
qed

lemma complete_duplicate_keeps:
  assumes inv: "queue_inv (x_db x)" and hand: "in_hand task x" and clk: "sane_clock w cfg"
    and run: "complete_duplicate w cfg task x = Done x'"
  shows "keeps x x' \<and> queue_inv (x_db x')"
proof (cases "t_upload_id task = ''''")
  case True
  let ?d = "snd (UpdateStatus (w_io w SComplete 0) (w_secs w SComplete 0 0) (t_id task) StatusCompleted (x_db x))"
  have x': "x' = x\<lparr>x_db := ?d\<rparr>" using run True by (simp add: complete_duplicate_def)
  have inv': "queue_inv ?d" by (rule queue_step_inv [OF step_status inv]) simp
  have "keeps x (x\<lparr>x_db := ?d\<rparr>)"
  proof (cases "w_io w SComplete 0 0")
    case None
    let ?f = "\<lambda>r. r\<lparr>t_status := StatusCompleted, t_updated_at := w_secs w SComplete 0 0\<rparr>"
    have ob: "outbox_keys ?d = outbox_keys (x_db x)"
      using None by (simp add: UpdateStatus_def update_by_id_def outbox_keys_def)
    have rows: "r \<in> set (upload_tasks ?d)" if "r \<in> set (upload_tasks (x_db x))" "t_id r \<noteq> t_id task" for r
      using None that by (auto simp: UpdateStatus_def update_by_id_def set_update_where)
    show ?thesis
    proof (rule keepsI)
      show "open_rows (x_db x) \<subseteq> insert '''' (accounted (x\<lparr>x_db := ?d\<rparr>))"
      proof
        fix u assume "u \<in> open_rows (x_db x)"
        then obtain r where r: "r \<in> set (upload_tasks (x_db x))" "resumable r" "u = t_upload_id r"
          by (rule open_rowsE)
        then show "u \<in> insert '''' (accounted (x\<lparr>x_db := ?d\<rparr>))"
          using hand True rows [OF r(1)] open_rowsI [of r ?d]
          by (cases "t_id r = t_id task") (auto simp: in_hand_def accounted_def)
      qed
    qed (simp_all add: ob)
  qed (simp add: UpdateStatus_def update_by_id_def)
  then show ?thesis using x' inv' by simp
next
  case False
  let ?m = "MarkCompletedAbandoningUpload (w_io w SDedupComplete 0) (w_secs w SDedupComplete 0) task (x_db x)"
  obtain r d where m: "?m = (r, d)" by fastforce
  note tx = m [unfolded MarkCompletedAbandoningUpload_def]
  have inv': "queue_inv d" using queue_step_inv [OF step_dedup inv] m by (metis snd_conv)
  have ab: "queue_inv (x_db (abandonTaskUpload w cfg 0 task (x\<lparr>x_db := d\<rparr>)))"
    by (rule queue_inv_abandonTaskUpload) (simp add: inv')
  have same: "x\<lparr>x_db := d\<rparr> = x" if "r = Inl e" for e
    using atomic_abandon_tx [of "x_db x"] tx that unfolding atomic_def by (metis exec.surjective exec.update_convs(1) fst_conv snd_conv)
  have ok: "keeps x (abandonTaskUpload w cfg 0 task (x\<lparr>x_db := d\<rparr>))" if "r = Inr u" for u
    using abandon_tx_keeps [OF tx [unfolded that]] hand keeps_abandonTaskUpload keeps_trans
    by (auto simp: in_hand_def)
  show ?thesis
  proof (cases r)
    case (Inl e)
    then show ?thesis
      using run m False same [OF Inl] keeps_abandonTaskUpload ab handleFailure_keeps [OF inv hand clk]
      by (cases e) (auto simp: complete_duplicate_def)
  next
    case (Inr u)
    then show ?thesis using run m False ok [OF Inr] ab by (simp add: complete_duplicate_def)
  qed
qed

lemma keeps_UpdateStatus_pending:
  "keeps x (x\<lparr>x_db := snd (UpdateStatus io now tid StatusPending (x_db x))\<rparr>)"
  unfolding UpdateStatus_def by (rule keeps_update_by_id) (simp add: resumable_def)

lemma UpdateStatus_pending_step:
  "UpdateStatus io now tid StatusPending (x_db x) = (r, d) \<Longrightarrow> queue_inv (x_db x) \<Longrightarrow>
   keeps x (x\<lparr>x_db := d\<rparr>) \<and> queue_inv d"
  using keeps_UpdateStatus_pending [of x io now tid] queue_step_inv [OF step_status, of StatusPending "x_db x" io now tid]
  by simp

lemma fire_retry_keeps:
  assumes "queue_inv (x_db x)"
  shows "keeps x (fire_retry w cfg t x) \<and> queue_inv (x_db (fire_retry w cfg t x))"
proof -
  obtain r d where m: "UpdateStatus (w_io w SRequeue 0) (w_secs w SRequeue 0 0) (t_id t) StatusPending (x_db x) = (r, d)"
    by fastforce
  note s = UpdateStatus_pending_step [OF m assms]
  have a: "keeps x (abandonTaskUpload w cfg 0 t (x\<lparr>x_db := d\<rparr>))"
    using s keeps_abandonTaskUpload keeps_trans by blast
  have b: "queue_inv (x_db (abandonTaskUpload w cfg 0 t (x\<lparr>x_db := d\<rparr>)))"
    by (rule queue_inv_abandonTaskUpload) (simp add: s)
  show ?thesis
    using s a b unfolding fire_retry_def m
    by (auto split: sum.split queue_error.split)
qed

lemma fire_requeue_keeps:
  assumes "queue_inv (x_db x)"
  shows "keeps x (fire_requeue w t x) \<and> queue_inv (x_db (fire_requeue w t x))"
proof -
  obtain r d where m: "UpdateStatus (w_io w SRequeue 0) (w_secs w SRequeue 0 0) (t_id t) StatusPending (x_db x) = (r, d)"
    by fastforce
  note s = UpdateStatus_pending_step [OF m assms]
  show ?thesis using s unfolding fire_requeue_def m by (auto split: sum.split)
qed

lemma keeps_aborted_delete:
  "keeps x (emit (EvAbort u True) (x\<lparr>x_db := snd (DeleteMultipartAbort io u (x_db x))\<rparr>))"
proof (rule keepsI)
  let ?y = "emit (EvAbort u True) (x\<lparr>x_db := snd (DeleteMultipartAbort io u (x_db x))\<rparr>)"
  show "outbox_keys (x_db x) \<subseteq> outbox_keys (x_db ?y) \<union> aborted ?y"
    using outbox_delete [of "x_db x" u io] by auto
  have "open_rows (x_db ?y) = open_rows (x_db x)" by (rule open_rows_cong) simp
  then show "open_rows (x_db x) \<subseteq> insert '''' (accounted ?y)" by (auto simp: accounted_def)
qed auto

lemma keeps_attempt:
  "keeps x (emit (EvAbort u False) (x\<lparr>x_db := snd (RecordMultipartAbortAttempt io u at msg (x_db x))\<rparr>))"
proof (rule keepsI)
  let ?y = "emit (EvAbort u False) (x\<lparr>x_db := snd (RecordMultipartAbortAttempt io u at msg (x_db x))\<rparr>)"
  have "open_rows (x_db ?y) = open_rows (x_db x)" by (rule open_rows_cong) simp
  then show "open_rows (x_db x) \<subseteq> insert '''' (accounted ?y)" by (auto simp: accounted_def)
qed (auto simp: outbox_attempt)

lemma drain_entries_keeps:
  "drain_entries w cfg i es x = Done x' \<Longrightarrow> queue_inv (x_db x) \<Longrightarrow> keeps x x' \<and> queue_inv (x_db x')"
proof (induction es arbitrary: i x)
  case Nil
  then show ?case by simp
next
  case (Cons e es)
  let ?y = "emit (EvAbort (a_upload_id e) True)
    (x\<lparr>x_db := snd (DeleteMultipartAbort (w_io w SDeleteAbort i) (a_upload_id e) (x_db x))\<rparr>)"
  show ?case
  proof (cases "w_abort w i (abort_task e)")
    case None
    have "queue_inv (x_db ?y)" using queue_step_inv [OF step_abort_done Cons.prems(2)] by simp
    then show ?thesis
      using Cons.IH [of "Suc i" ?y] Cons.prems None keeps_trans [OF keeps_aborted_delete] by simp blast
  next
    case (Some msg)
    then obtain delay where dl: "abortBackoffDelay cfg (a_attempts e) = Some delay"
      using Cons.prems(1) by (auto split: option.splits)
    let ?z = "emit (EvAbort (a_upload_id e) False)
      (x\<lparr>x_db := snd (RecordMultipartAbortAttempt (w_io w SAttempt i) (a_upload_id e)
           (unix (w_now w SAttempt i + delay)) msg (x_db x))\<rparr>)"
    have "queue_inv (x_db ?z)" using queue_step_inv [OF step_abort_attempt Cons.prems(2)] by simp
    then show ?thesis
      using Cons.IH [of "Suc i" ?z] Cons.prems Some dl keeps_trans [OF keeps_attempt] by simp blast
  qed
qed

lemma drainAbortOutbox_keeps:
  "drainAbortOutbox w cfg x = Done x' \<Longrightarrow> queue_inv (x_db x) \<Longrightarrow> keeps x x' \<and> queue_inv (x_db x')"
  using drain_entries_keeps by (auto simp: drainAbortOutbox_def split: if_splits sum.splits)

lemma TouchReport_keeps:
  assumes "TouchReport io tid now (x_db x) = (r, d)" and "queue_inv (x_db x)"
  shows "keeps x (x\<lparr>x_db := d\<rparr>) \<and> queue_inv d"
proof -
  have d: "d = snd (TouchReport io tid now (x_db x))" using assms(1) by simp
  have "upload_tasks d = upload_tasks (x_db x) \<and> abort_outbox d = abort_outbox (x_db x)"
    unfolding d by (cases "io 0") (simp_all add: TouchReport_def)
  then show ?thesis using keeps_same_tables queue_step_inv [OF step_touch assms(2)] d by blast
qed

lemma keeps_emit_send [simp]: "keeps x (emit (EvSend i m) y) = keeps x y"
  by (simp add: keeps_def accounted_def)

lemma send_reports_keeps:
  "queue_inv (x_db x) \<Longrightarrow> keeps x (send_reports w i rs x) \<and> queue_inv (x_db (send_reports w i rs x))"
proof (induction rs arbitrary: i x)
  case Nil
  then show ?case by simp
next
  case (Cons r rs)
  obtain res d where t: "TouchReport (w_io w STouch i) (rp_task_id r) (unix_milli (w_now w STouch i)) (x_db x) = (res, d)"
    by fastforce
  note s = TouchReport_keeps [OF t Cons.prems]
  have a: "keeps x (send_reports w (Suc i) rs y) \<and> queue_inv (x_db (send_reports w (Suc i) rs y))"
    if "keeps x y" "queue_inv (x_db y)" for y
    using Cons.IH [OF that(2)] that(1) keeps_trans by blast
  show ?case
    using s a Cons.prems by (simp add: t split: sum.split option.split)
qed

lemma sendDueReports_keeps:
  "queue_inv (x_db x) \<Longrightarrow> keeps x (sendDueReports w cfg x) \<and> queue_inv (x_db (sendDueReports w cfg x))"
  using send_reports_keeps by (simp add: sendDueReports_def split: sum.split)

lemma CompleteReported_keeps:
  assumes "queue_inv (x_db x)"
  shows "keeps x (x\<lparr>x_db := snd (CompleteReported io clk tid up sha (x_db x))\<rparr>) \<and>
    queue_inv (snd (CompleteReported io clk tid up sha (x_db x)))"
proof -
  let ?P = "\<lambda>r. t_id r = tid \<and> t_status r = StatusReported"
  let ?f = "\<lambda>r. r\<lparr>t_status := StatusCompleted, t_sha256 := sha, t_updated_at := clk 0\<rparr>"
  have tx: "keeps x (x\<lparr>x_db := upd_tasks ?P ?f (x_db x)\<rparr>)"
    by (rule keeps_upd_tasks) (auto simp: resumable_def)
  have cong: "keeps x (x\<lparr>x_db := d\<rparr>)"
    if "upload_tasks d = upload_tasks (upd_tasks ?P ?f (x_db x))" "abort_outbox d = abort_outbox (x_db x)" for d
  proof -
    have "accounted (x\<lparr>x_db := d\<rparr>) = accounted (x\<lparr>x_db := upd_tasks ?P ?f (x_db x)\<rparr>)"
      using that open_rows_cong [OF that(1)] by (simp add: accounted_def outbox_keys_def)
    then show ?thesis using tx by (simp add: keeps_def)
  qed
  have ack: "abort_outbox d = abort_outbox d0" if "acknowledge_processed now tid d0 = Inr d" for d d0 now
    using that by (auto simp: acknowledge_processed_def upsert_processed_def split: option.splits if_splits)
  have "keeps x (x\<lparr>x_db := snd (CompleteReported io clk tid up sha (x_db x))\<rparr>)"
    unfolding CompleteReported_def Let_def
    using acknowledge_tasks ack
    by (auto simp: stmt_def split: option.split sum.split intro!: cong)
  then show ?thesis using queue_step_inv [OF step_complete assms] by blast
qed

lemma HandleAcknowledgement_keeps:
  assumes "queue_inv (x_db x)"
  shows "keeps x (snd (HandleAcknowledgement w ack x)) \<and> queue_inv (x_db (snd (HandleAcknowledgement w ack x)))"
proof -
  have c: "keeps x (x\<lparr>x_db := d\<rparr>) \<and> queue_inv d"
    if "CompleteReported io clk tid up sha (x_db x) = (r, d)" for io clk tid up sha r d
    using CompleteReported_keeps [OF assms, of io clk tid up sha] that by simp
  show ?thesis
    using assms c unfolding HandleAcknowledgement_def
    by (auto split: option.split sum.split prod.split queue_error.split)
qed

lemma EnqueueAbort_keeps:
  "keeps x (x\<lparr>x_db := snd (EnqueueMultipartAbort io now e (x_db x))\<rparr>)"
  by (rule keeps_by_parts) (simp_all add: outbox_enqueue open_rows_def)

lemma recover_row_keeps:
  assumes "queue_inv (x_db x)"
  shows "keeps x (recover_row w cfg now i t x) \<and> queue_inv (x_db (recover_row w cfg now i t x))"
proof -
  obtain r d where m: "UpdateStatus (w_io w SRecover i) (w_secs w SRecover i 0) (t_id t) StatusPending (x_db x) = (r, d)"
    by fastforce
  note s = UpdateStatus_pending_step [OF m assms]
  show ?thesis
    using s assms EnqueueAbort_keeps queue_step_inv [OF step_abort assms] unfolding recover_row_def m
    by (auto simp: signalWorkers_def scheduleFailedRequeue_def split: sum.split)
qed

lemma recover_rows_keeps:
  "queue_inv (x_db x) \<Longrightarrow> keeps x (recover_rows w cfg now i ts x) \<and> queue_inv (x_db (recover_rows w cfg now i ts x))"
proof (induction ts arbitrary: i x)
  case (Cons t ts)
  then show ?case using recover_row_keeps [OF Cons.prems, of w cfg now i t] keeps_trans by auto
qed simp

lemma Start_keeps:
  assumes "queue_inv (x_db x)"
  shows "keeps x (Start w cfg x) \<and> queue_inv (x_db (Start w cfg x))"
proof -
  let ?y = "if reportSender_set cfg then x\<lparr>x_db := snd (ResetReportTimers (w_io w SResetTimers 0) (x_db x))\<rparr> else x"
  have y: "keeps x ?y \<and> queue_inv (x_db ?y)"
    using assms queue_step_inv [OF step_timers assms, of "w_io w SResetTimers 0"]
      keeps_same_tables [of "snd (ResetReportTimers (w_io w SResetTimers 0) (x_db x))" x]
    by (cases "w_io w SResetTimers 0 0") (simp_all add: ResetReportTimers_def)
  have "keeps ?y (recoverFailedTasks w cfg ?y) \<and> queue_inv (x_db (recoverFailedTasks w cfg ?y))"
    using recover_rows_keeps [of ?y] y by (auto simp: recoverFailedTasks_def split: sum.split)
  then show ?thesis using y keeps_trans unfolding Start_def Let_def by blast
qed

lemma restart_keeps:
  assumes "queue_inv (x_db x)"
  shows "keeps x (x\<lparr>x_db := snd (ResetRunningToPending io clk stat (x_db x)), x_timers := [], x_notify := False, x_reportNotify := False\<rparr>)
    \<and> queue_inv (snd (ResetRunningToPending io clk stat (x_db x)))"
proof -
  let ?d = "snd (ResetRunningToPending io clk stat (x_db x))"
  have inv: "queue_inv ?d" by (rule queue_step_inv [OF step_reset assms])
  have "keeps x (x\<lparr>x_db := ?d\<rparr>)"
  proof (cases "fst (ResetRunningToPending io clk stat (x_db x))")
    case (Inl e)
    then have "?d = x_db x"
      using atomic_reset [of "x_db x" io clk stat] by (simp add: atomic_def)
    then show ?thesis by simp
  next
    case (Inr n)
    have u: "unique_key t_id (upload_tasks (x_db x))" using assms by (simp add: queue_inv_def)
    let ?f = "\<lambda>r. (refreshed stat r)\<lparr>t_status := StatusPending, t_updated_at := clk n\<rparr>"
    have r: "upload_tasks ?d = update_where (\<lambda>r. t_status r = StatusRunning) ?f (upload_tasks (x_db x))"
      and ob: "abort_outbox ?d = abort_outbox (x_db x)"
      using reset_running_effect [OF u, of io clk stat n ?d] Inr
      by (simp_all add: prod_eq_iff update_where_def)
    have "keeps x (x\<lparr>x_db := upd_tasks (\<lambda>r. t_status r = StatusRunning) ?f (x_db x)\<rparr>)"
      by (rule keeps_upd_tasks) (auto simp: resumable_def refreshed_def split: option.splits)
    then show ?thesis
      using open_rows_cong [of ?d "upd_tasks (\<lambda>r. t_status r = StatusRunning) ?f (x_db x)"] r ob
      by (simp add: keeps_def accounted_def outbox_keys_def)
  qed
  then show ?thesis using inv by simp
qed

lemma restart_step:
  assumes "queue_inv (x_db x)"
  shows "keeps x (Start w cfg (x\<lparr>x_db := snd (ResetRunningToPending io clk stat (x_db x)),
     x_timers := [], x_notify := False, x_reportNotify := False\<rparr>)) \<and>
    queue_inv (x_db (Start w cfg (x\<lparr>x_db := snd (ResetRunningToPending io clk stat (x_db x)),
     x_timers := [], x_notify := False, x_reportNotify := False\<rparr>)))" (is "keeps x (Start w cfg ?y) \<and> _")
proof -
  have "keeps x ?y" and i: "queue_inv (x_db ?y)"
    using restart_keeps [OF assms, of io clk stat] by simp_all
  then show ?thesis using Start_keeps [OF i, of w cfg] keeps_trans by blast
qed

lemma exec_step_keeps: "exec_step cfg x x' \<Longrightarrow> queue_inv (x_db x) \<Longrightarrow> keeps x x' \<and> queue_inv (x_db x')"
proof (induction rule: exec_step.induct)
  case (x_submit task x w) then show ?case by (intro Submit_keeps)
next
  case (x_fail task x w err x') then show ?case by (intro handleFailure_keeps)
next
  case (x_duplicate task x w x') then show ?case by (intro complete_duplicate_keeps)
next
  case (x_retry task delay x w) then show ?case by (intro fire_retry_keeps)
next
  case (x_requeue task due x w) then show ?case by (intro fire_requeue_keeps)
next
  case (x_aborts w x x') then show ?case by (intro drainAbortOutbox_keeps)
next
  case (x_report x w) then show ?case by (intro sendDueReports_keeps)
next
  case (x_ack x w ack) then show ?case by (intro HandleAcknowledgement_keeps)
next
  case (x_restart x w io clk stat) then show ?case by (intro restart_step)
qed

interpretation exec_sys: invariant_system "\<lambda>x. queue_inv (x_db x) \<and> u \<in> accounted x \<and> u \<noteq> ''''"
  "exec_step cfg" "\<lambda>x. queue_inv (x_db x) \<and> u \<in> accounted x \<and> u \<noteq> ''''" for cfg u
proof unfold_locales
  fix s s' assume "queue_inv (x_db s) \<and> u \<in> accounted s \<and> u \<noteq> ''''" and "exec_step cfg s s'"
  then show "queue_inv (x_db s') \<and> u \<in> accounted s' \<and> u \<noteq> ''''"
    using exec_step_keeps [of cfg s s'] by (auto simp: keeps_def)
qed



end
