(* ===== verification/Executor_Laws.thy ===== *)
theory Executor_Laws
  imports Executor_Accounting "HOL-Library.Multiset"
begin

text \<open>
  What the executor guarantees beyond the accounting of uploads: which tasks reach the uploader,
  capacity, backoff, the abort worker, start-up recovery, the report life cycle, and that draining the
  queue ends.  The last point rests on the contract \<open>uploader_contract\<close> of the uploader.
\<close>

section \<open>Properties\<close>

subsection \<open>Who reaches the uploader\<close>

lemma uploads_emit [simp]:
  "uploads (emit (EvUpload t) x) = uploads x @ [t]" "uploads (emit (EvAbort u b) x) = uploads x"
  "uploads (emit (EvSend i m) x) = uploads x"
  by (simp_all add: uploads_def emit_def List.map_filter_def)

lemma uploads_update [simp]:
  "uploads (x\<lparr>x_db := d\<rparr>) = uploads x" "uploads (x\<lparr>x_notify := b\<rparr>) = uploads x"
  "uploads (x\<lparr>x_reportNotify := b\<rparr>) = uploads x" "uploads (x\<lparr>x_timers := ts\<rparr>) = uploads x"
  by (simp_all add: uploads_def)

lemma uploads_abandonTaskUpload [simp]: "uploads (abandonTaskUpload w cfg i t x) = uploads x"
  by (simp add: abandonTaskUpload_def Let_def split: option.split)

lemma uploads_persistResult [simp]: "uploads (persistResult w t r e x) = uploads x"
  by (simp add: uploads_def)

lemma uploads_try_abandon:
  "try_abandon w cfg s nt t e x = Inl x' \<Longrightarrow> uploads x' = uploads x"
  "try_abandon w cfg s nt t e x = Inr (e', x') \<Longrightarrow> uploads x' = uploads x"
  by (auto simp: try_abandon_def Let_def split: prod.splits sum.splits queue_error.splits)

lemma uploads_handleFailure:
  "handleFailure w cfg t e x = Done x' \<Longrightarrow> uploads x' = uploads x"
  by (auto simp: handleFailure_def schedule_backoff_def Let_def dest!: uploads_try_abandon
      split: sum.splits if_splits option.splits)

lemma uploads_complete_duplicate:
  "complete_duplicate w cfg t x = Done x' \<Longrightarrow> uploads x' = uploads x"
  by (auto simp: complete_duplicate_def dest!: uploads_handleFailure
      split: sum.splits if_splits prod.splits queue_error.splits)

lemma uploads_run_upload:
  "run_upload w cfg t x = Done x' \<Longrightarrow> uploads x' = uploads x @ [t]"
  by (auto simp: run_upload_def Let_def dest!: uploads_handleFailure split: sum.splits option.splits prod.splits)

text \<open>
  C26: the gate in front of the uploader.  processTask calls the uploader exactly once, with the task it
  was given, unless the file version is already processed or the task is in tail mode: then the uploader
  is never called, so no object is produced.
\<close>

theorem processTask_upload_gate:
  assumes "processTask w cfg task x = Done x'"
  shows "uploads x' = uploads x @
    (if IsProcessed (w_io w SIsProcessed 0) (t_rule_id task) (t_local_path task) (t_file_mtime task) (t_file_size task) (x_db x)
        = Inr True \<or> t_append_mode task = AppendModeTail then [] else [task])"
  using assms
  by (auto simp: processTask_def Let_def dest: uploads_handleFailure uploads_complete_duplicate uploads_run_upload
      split: if_splits sum.splits)

theorem processTask_upload_gate_witness:
  "\<exists>x'. processTask (sample_world (\<lambda>_. None) (\<lambda>_. None)) sample_cfg (sample_task\<lparr>t_append_mode := AppendModeTail\<rparr>) sample_exec
     = Done x' \<and> uploads x' = []"
proof -
  let ?run = "processTask (sample_world (\<lambda>_. None) (\<lambda>_. None)) sample_cfg (sample_task\<lparr>t_append_mode := AppendModeTail\<rparr>) sample_exec"
  have "?run \<noteq> Panic" by code_simp
  then obtain x' where run: "?run = Done x'" by (cases ?run) auto
  have "uploads sample_exec = []" by code_simp
  then show ?thesis using processTask_upload_gate [OF run] run by simp
qed

subsection \<open>Capacity\<close>

lemma evict_step_facts:
  assumes "unique_key t_id (upload_tasks (x_db x))"
    and "DeleteOldestEvictable io clk ex (x_db x) = (Inr res, d)"
  shows "evicts ex (x_db x) res d"
  using assms evict_loop_evicts [of "x_db x" 7]
  by (simp add: DeleteOldestEvictable_def numeral_eq_Suc del: evict_loop.simps)

lemma evict_loop_no_fault: "(\<And>j. io j = None) \<Longrightarrow> \<exists>res d'. evict_loop n a io clk ex d = (Inr res, d')"
  by (induction n arbitrary: a) (auto simp: Let_def split: list.split)

lemma evict_no_fault: "(\<And>j. io j = None) \<Longrightarrow> \<exists>res d'. DeleteOldestEvictable io clk ex d = (Inr res, d')"
  unfolding DeleteOldestEvictable_def by (rule evict_loop_no_fault)

lemma trims_step:
  assumes "trims newID x y"
    and "DeleteOldestEvictable io clk newID (x_db y) = (Inr (Some t), d)"
  shows "trims newID x (abandonTaskUpload w cfg i t (y\<lparr>x_db := d\<rparr>))"
proof -
  have u: "unique_key t_id (upload_tasks (x_db y))" using assms(1) by (simp add: trims_def)
  have ev: "evicts newID (x_db y) (Some t) d" by (rule evict_step_facts [OF u assms(2)])
  have tasks: "upload_tasks d = filter (\<lambda>r. t_id r \<noteq> t_id t) (upload_tasks (x_db y))"
    and t: "t \<in> set (upload_tasks (x_db y))" "evictable_for newID t"
    and old: "\<And>s. s \<in> set (upload_tasks (x_db y)) \<Longrightarrow> evictable_for newID s \<Longrightarrow> t_created_at t \<le> t_created_at s"
    using ev by (auto simp: evicts_def evictable_for_def)
  have gone: "r = t" if "r \<in> set (upload_tasks (x_db y))" "t_id r = t_id t" for r
    using unique_keyD [OF u that(1) t(1)] that(2) by simp
  have "unique_key t_id (upload_tasks d)"
    using u unfolding tasks unique_key_def by (simp add: distinct_map_filter)
  then show ?thesis
    using assms(1) t old gone unfolding trims_def by (simp add: tasks) blast
qed

lemma trims_enforce:
  assumes "unique_key t_id (upload_tasks (x_db x))"
  shows "trims newID x (enforce_loop w cfg newID i x)"
proof (rule enforce_loop_inv [where I = "trims newID x"])
  show "trims newID x x" using assms by (simp add: trims_def)
qed (simp add: trims_def, erule (1) trims_step)

lemma enforce_loop_reaches:
  assumes "unique_key t_id (upload_tasks (x_db x))"
    and "\<And>i j. w_io w SCountActive i j = None" and "\<And>i j. w_io w SEvict i j = None"
  shows "int (active_count (enforce_loop w cfg newID i x)) \<le> queueMaxSize cfg \<or>
    (\<forall>r\<in>set (upload_tasks (x_db (enforce_loop w cfg newID i x))). \<not> evictable_for newID r)"
  using assms
proof (induction w cfg newID i x rule: enforce_loop.induct)
  case (1 w cfg newID i x)
  let ?ev = "DeleteOldestEvictable (w_io w SEvict i) (w_secs w SEvict i) newID (x_db x)"
  have cnt: "CountActive (w_io w SCountActive i) (x_db x) = Inr (active_count x)"
    using 1(3) by (simp add: CountActive_def query_def active_count_def)
  obtain res d where ev: "?ev = (Inr res, d)"
    using evict_no_fault [of "w_io w SEvict i", OF 1(4)] by blast
  have facts: "evicts newID (x_db x) res d" by (rule evict_step_facts [OF 1(2) ev])
  show ?case
  proof (cases "int (active_count x) \<le> queueMaxSize cfg")
    case True
    then show ?thesis using cnt by (simp add: enforce_loop.simps)
  next
    case False
    show ?thesis
    proof (cases res)
      case None
      then show ?thesis using False cnt ev facts
        by (subst (1 2) enforce_loop.simps) (auto simp: evicts_def evictable_for_def)
    next
      case (Some t)
      let ?y = "abandonTaskUpload w cfg i t (x\<lparr>x_db := d\<rparr>)"
      have "trims newID x ?y"
        by (rule trims_step [OF _ ev [unfolded Some]]) (use 1(2) in \<open>simp add: trims_def\<close>)
      then have "unique_key t_id (upload_tasks (x_db ?y))" by (simp add: trims_def)
      then have "int (active_count (enforce_loop w cfg newID (Suc i) ?y)) \<le> queueMaxSize cfg \<or>
          (\<forall>r\<in>set (upload_tasks (x_db (enforce_loop w cfg newID (Suc i) ?y))). \<not> evictable_for newID r)"
        using 1(1) [OF cnt False ev [symmetric] refl Some] 1(3,4) by blast
      then show ?thesis using cnt False ev Some by (subst (1 2) enforce_loop.simps) simp
    qed
  qed
qed

text \<open>
  C25: capacity.  With a responsive database, enforceCapacity (which always returns: it is a total
  function) ends with at most queue_max_size active tasks, or with nothing left that may be evicted; it
  only removes pending or failed rows, never the freshly submitted one and oldest first, and it does
  nothing when the queue is within its cap.
\<close>

theorem enforceCapacity_trims:
  assumes "unique_key t_id (upload_tasks (x_db x))" and "0 < queueMaxSize cfg"
    and "\<And>i j. w_io w SCountActive i j = None" and "\<And>i j. w_io w SEvict i j = None"
  shows "(int (active_count (enforceCapacity w cfg newID x)) \<le> queueMaxSize cfg \<or>
      (\<forall>r\<in>set (upload_tasks (x_db (enforceCapacity w cfg newID x))). \<not> evictable_for newID r)) \<and>
    trims newID x (enforceCapacity w cfg newID x) \<and>
    (int (active_count x) \<le> queueMaxSize cfg \<longrightarrow> enforceCapacity w cfg newID x = x)"
proof -
  have "CountActive (w_io w SCountActive 0) (x_db x) = Inr (active_count x)"
    using assms(3) by (simp add: CountActive_def query_def active_count_def)
  then have "int (active_count x) \<le> queueMaxSize cfg \<longrightarrow> enforce_loop w cfg newID 0 x = x"
    by (subst enforce_loop.simps) simp
  then show ?thesis
    using enforce_loop_reaches [OF assms(1,3,4)] trims_enforce [OF assms(1)] assms(2)
    by (simp add: enforceCapacity_def del: enforce_loop.simps)
qed

theorem enforceCapacity_trims_witness:
  "int (active_count (enforceCapacity (sample_world (\<lambda>_. None) (\<lambda>_. None)) sample_cfg ''t1'' sample_exec)) \<le> 1 \<or>
   (\<forall>r\<in>set (upload_tasks (x_db (enforceCapacity (sample_world (\<lambda>_. None) (\<lambda>_. None)) sample_cfg ''t1'' sample_exec))).
      \<not> evictable_for ''t1'' r)"
proof -
  let ?w = "sample_world (\<lambda>_. None) (\<lambda>_. None)"
  have u: "unique_key t_id (upload_tasks (x_db sample_exec))" by code_simp
  have cap: "queueMaxSize sample_cfg = 1" by code_simp
  have io: "w_io ?w s i j = None" for s i j by (simp add: sample_world_def)
  show ?thesis using enforceCapacity_trims [of sample_exec sample_cfg ?w "''t1''", OF u _ io io] cap by simp
qed

subsection \<open>Backoff\<close>

text \<open>
  the backoff ladder.  With the delays New installs, the n-th retry waits 1, 5, 15 and from the
  fourth on 60 minutes; the slice index is in range for every attempt number from 1.
\<close>

theorem retryDelay_ladder:
  assumes "1 \<le> attempt"
  shows "retryDelay (New cap) attempt = Some ((if attempt = 1 then 1 else if attempt = 2 then 5
      else if attempt = 3 then 15 else 60) * 60 * 1000000000)"
proof -
  have "retryDelay (New cap) attempt = Some (defaultRetryDelays ! min (nat (attempt - 1)) 3)"
    using assms clamp_delay_some [of defaultRetryDelays "attempt - 1"]
    by (simp add: retryDelay_def New_def defaultRetryDelays_def numeral_3_eq_3)
  moreover have "attempt = 1 \<or> attempt = 2 \<or> attempt = 3 \<or> 4 \<le> attempt" using assms by linarith
  ultimately show ?thesis by (auto simp: defaultRetryDelays_def min_def numeral_eq_Suc)
qed

theorem retryDelay_ladder_witness:
  "retryDelay (New 5) 7 = Some (60 * 60 * 1000000000)"
  using retryDelay_ladder [of 7 5] by simp

lemma handleFailure_no_panic:
  assumes "retryDelays cfg \<noteq> []" and "0 \<le> t_retry_count task"
  shows "\<exists>x'. handleFailure w cfg task err x = Done x'"
proof -
  obtain delay where "retryDelay cfg (t_retry_count task + 1) = Some delay"
    using clamp_delay_some [OF assms] by (simp add: retryDelay_def)
  then have "\<exists>x'. schedule_backoff w cfg task e y = Done x'" for e y
    by (simp add: schedule_backoff_def Let_def)
  then show ?thesis by (auto simp: handleFailure_def split: sum.split)
qed

subsection \<open>The abort worker\<close>

lemma abort_task_scan [simp]: "abort_task (scan_abort e) = abort_task e"
  by (simp add: abort_task_def scan_abort_def)

lemma scan_abort_facts [simp]: "a_upload_id (scan_abort e) = a_upload_id e" "a_attempts (scan_abort e) = a_attempts e"
  by (simp_all add: scan_abort_def)

lemma attempt_at_other: "a_upload_id r \<notin> a_upload_id ` set es \<Longrightarrow> attempt_at w cfg i es r = Some r"
  by (induction es arbitrary: i) auto

lemma map_filter_map_filter:
  "List.map_filter g (List.map_filter f xs) = List.map_filter (\<lambda>x. Option.bind (f x) g) xs"
  by (induction xs) (auto simp: List.map_filter_simps split: option.split)

lemma map_filter_cong: "(\<And>x. x \<in> set xs \<Longrightarrow> f x = g x) \<Longrightarrow> List.map_filter f xs = List.map_filter g xs"
  by (induction xs) (auto simp: List.map_filter_simps split: option.split)

lemma delete_as_map_filter:
  "delete_where P xs = List.map_filter (\<lambda>r. if P r then None else Some r) xs"
  by (induction xs) (auto simp: delete_where_def List.map_filter_simps)

lemma update_as_map_filter:
  "update_where P f xs = List.map_filter (\<lambda>r. if P r then Some (f r) else Some r) xs"
  by (induction xs) (auto simp: update_where_def List.map_filter_simps)

lemma set_map_filter_iff: "y \<in> set (List.map_filter f xs) \<longleftrightarrow> (\<exists>x\<in>set xs. f x = Some y)"
  by (induction xs) (auto simp: List.map_filter_simps split: option.split)

lemma unique_key_map_filter:
  assumes keys: "\<And>r r'. f r = Some r' \<Longrightarrow> key r' = key r" and "unique_key key xs"
  shows "unique_key key (List.map_filter f xs)"
  using assms(2)
proof (induction xs)
  case (Cons x xs)
  have "key ` set (List.map_filter f xs) \<subseteq> key ` set xs"
    by (auto simp: set_map_filter_iff dest!: keys)
  then show ?case
    using Cons keys [of x] by (auto simp: unique_key_def List.map_filter_simps split: option.split)
qed (simp add: List.map_filter_simps)

lemma attempted_key: "attempted w cfg i r = Some r' \<Longrightarrow> a_upload_id r' = a_upload_id r"
  by (auto simp: attempted_def split: option.splits)

text \<open>One record: the outbox after the attempt on \<open>e\<close>.\<close>

lemma drain_one_effect:
  assumes io: "\<And>i j. w_io w SDeleteAbort i j = None" "\<And>i j. w_io w SAttempt i j = None"
    and uniq: "unique_key a_upload_id (abort_outbox (x_db x))"
    and e: "r0 \<in> set (abort_outbox (x_db x))" "e = scan_abort r0"
    and run: "drain_entries w cfg i (e # es) x = Done x'"
  shows "\<exists>y. drain_entries w cfg (Suc i) es y = Done x' \<and> upload_tasks (x_db y) = upload_tasks (x_db x) \<and>
    abort_outbox (x_db y) = List.map_filter (\<lambda>r. if a_upload_id r = a_upload_id e then attempted w cfg i r else Some r) (abort_outbox (x_db x))"
proof -
  have same: "r = r0" if "r \<in> set (abort_outbox (x_db x))" "a_upload_id r = a_upload_id e" for r
    using unique_keyD [OF uniq that(1) e(1)] that(2) e(2) by simp
  show ?thesis
  proof (cases "w_abort w i (abort_task e)")
    case None
    let ?y = "emit (EvAbort (a_upload_id e) True)
      (x\<lparr>x_db := snd (DeleteMultipartAbort (w_io w SDeleteAbort i) (a_upload_id e) (x_db x))\<rparr>)"
    have "abort_outbox (x_db ?y) = List.map_filter (\<lambda>r. if a_upload_id r = a_upload_id e then None else Some r) (abort_outbox (x_db x))"
      using io by (simp add: DeleteMultipartAbort_def delete_as_map_filter)
    also have "\<dots> = List.map_filter (\<lambda>r. if a_upload_id r = a_upload_id e then attempted w cfg i r else Some r) (abort_outbox (x_db x))"
    proof (rule map_filter_cong)
      fix r assume r: "r \<in> set (abort_outbox (x_db x))"
      show "(if a_upload_id r = a_upload_id e then None else Some r) =
          (if a_upload_id r = a_upload_id e then attempted w cfg i r else Some r)"
        using same [OF r] None e(2) by (cases "a_upload_id r = a_upload_id e") (simp_all add: attempted_def)
    qed
    finally show ?thesis using run None by (intro exI [of _ ?y]) simp
  next
    case (Some msg)
    then obtain delay where dl: "abortBackoffDelay cfg (a_attempts e) = Some delay"
      using run by (auto split: option.splits)
    let ?y = "emit (EvAbort (a_upload_id e) False)
      (x\<lparr>x_db := snd (RecordMultipartAbortAttempt (w_io w SAttempt i) (a_upload_id e)
           (unix (w_now w SAttempt i + delay)) msg (x_db x))\<rparr>)"
    have hit: "count_where (\<lambda>r. a_upload_id r = a_upload_id e) (abort_outbox (x_db x)) \<noteq> 0"
      using e by (auto simp: count_where_zero)
    let ?g = "\<lambda>r. r\<lparr>a_attempts := a_attempts r + 1, a_next_attempt_at := unix (w_now w SAttempt i + delay), a_last_error := Some msg\<rparr>"
    have "abort_outbox (x_db ?y) = List.map_filter (\<lambda>r. if a_upload_id r = a_upload_id e then Some (?g r) else Some r) (abort_outbox (x_db x))"
      using io hit by (simp add: RecordMultipartAbortAttempt_def update_as_map_filter)
    also have "\<dots> = List.map_filter (\<lambda>r. if a_upload_id r = a_upload_id e then attempted w cfg i r else Some r) (abort_outbox (x_db x))"
    proof (rule map_filter_cong)
      fix r assume r: "r \<in> set (abort_outbox (x_db x))"
      show "(if a_upload_id r = a_upload_id e then Some (?g r) else Some r) =
          (if a_upload_id r = a_upload_id e then attempted w cfg i r else Some r)"
        using same [OF r] Some e(2) dl by (cases "a_upload_id r = a_upload_id e") (simp_all add: attempted_def)
    qed
    finally show ?thesis using run Some dl by (intro exI [of _ ?y]) simp
  qed
qed

lemma drain_entries_effect:
  assumes io: "\<And>i j. w_io w SDeleteAbort i j = None" "\<And>i j. w_io w SAttempt i j = None"
    and "unique_key a_upload_id (abort_outbox (x_db x))" and "unique_key a_upload_id es"
    and "\<And>e. e \<in> set es \<Longrightarrow> \<exists>r\<in>set (abort_outbox (x_db x)). e = scan_abort r"
    and "drain_entries w cfg i es x = Done x'"
  shows "abort_outbox (x_db x') = List.map_filter (attempt_at w cfg i es) (abort_outbox (x_db x))"
  using assms(3-)
proof (induction es arbitrary: i x)
  case Nil
  then show ?case by (simp add: List.map_filter_def)
next
  case (Cons e es)
  obtain r0 where r0: "r0 \<in> set (abort_outbox (x_db x))" "e = scan_abort r0"
    using Cons.prems(3) [of e] by auto
  let ?f = "\<lambda>r. if a_upload_id r = a_upload_id e then attempted w cfg i r else Some r"
  obtain y where y: "drain_entries w cfg (Suc i) es y = Done x'"
    and ob: "abort_outbox (x_db y) = List.map_filter ?f (abort_outbox (x_db x))"
    using drain_one_effect [OF io Cons.prems(1) r0 Cons.prems(4)] by blast
  have e_not: "a_upload_id e \<notin> a_upload_id ` set es" using Cons.prems(2) by (auto simp: unique_key_def)
  have keys: "?f r = Some r' \<Longrightarrow> a_upload_id r' = a_upload_id r" for r r'
    by (auto dest: attempted_key split: if_splits)
  have u: "unique_key a_upload_id (abort_outbox (x_db y))"
    unfolding ob by (rule unique_key_map_filter [OF keys Cons.prems(1)])
  have mem: "\<exists>r\<in>set (abort_outbox (x_db y)). e' = scan_abort r" if e': "e' \<in> set es" for e'
  proof -
    obtain r where r: "r \<in> set (abort_outbox (x_db x))" "e' = scan_abort r" using Cons.prems(3) [of e'] e' by auto
    then have "a_upload_id r \<noteq> a_upload_id e" using e_not imageI [OF e', of a_upload_id] by auto
    then have "r \<in> set (abort_outbox (x_db y))" using r(1) by (auto simp: ob set_map_filter_iff)
    then show ?thesis using r(2) by blast
  qed
  have "abort_outbox (x_db x') = List.map_filter (attempt_at w cfg (Suc i) es) (abort_outbox (x_db y))"
    using Cons.IH [OF u _ mem y] Cons.prems(2) by (simp add: unique_key_def)
  also have "\<dots> = List.map_filter (attempt_at w cfg i (e # es)) (abort_outbox (x_db x))"
    unfolding ob map_filter_map_filter
    by (rule map_filter_cong) (use e_not in \<open>auto simp: attempt_at_other split: bind_splits dest!: attempted_key\<close>)
  finally show ?case .
qed

lemma drain_entries_no_panic:
  assumes "retryDelays cfg \<noteq> []" and "\<And>e. e \<in> set es \<Longrightarrow> 0 \<le> a_attempts e"
  shows "\<exists>x'. drain_entries w cfg i es x = Done x'"
  using assms(2)
proof (induction es arbitrary: i x)
  case (Cons e es)
  then have "abortBackoffDelay cfg (a_attempts e) \<noteq> None"
    using clamp_delay_some [OF assms(1), of "a_attempts e"] by (simp add: abortBackoffDelay_def)
  then show ?case using Cons by (auto split: option.split)
qed simp

lemma unique_key_due:
  assumes "unique_key a_upload_id (abort_outbox (x_db x))"
  shows "unique_key a_upload_id (due_aborts w x)"
proof -
  let ?s = "select_where (\<lambda>e. a_next_attempt_at e \<le> unix (w_now w SDueAborts 0)) (abort_outbox (x_db x))"
  have "distinct (map a_upload_id ?s)"
    using assms by (simp add: unique_key_def select_where_def distinct_map_filter)
  moreover have "mset (map a_upload_id (order_by a_created_at ?s)) = mset (map a_upload_id ?s)"
    by (simp add: order_by_def)
  ultimately have "distinct (map a_upload_id (order_by a_created_at ?s))"
    using mset_eq_imp_distinct_iff by blast
  then show ?thesis
    by (simp add: unique_key_def due_aborts_def sql_limit_def take_map [symmetric])
qed

text \<open>
  one round of the abort worker, database responsive and abort hook set, returns (the backoff index is
  never out of range) and treats exactly the first 100 due records, oldest first: a record whose
  upload the storage aborts is deleted, one whose abort fails is kept with its attempt counted, the error
  recorded and the next attempt at the ladder's delay; every other record is untouched.
\<close>

theorem drainAbortOutbox_effect:
  assumes io: "\<And>s i j. w_io w s i j = None" and cfg: "abandon_set cfg" "retryDelays cfg \<noteq> []"
    and uniq: "unique_key a_upload_id (abort_outbox (x_db x))"
    and att: "\<And>e. e \<in> set (abort_outbox (x_db x)) \<Longrightarrow> 0 \<le> a_attempts e"
  shows "\<exists>x'. drainAbortOutbox w cfg x = Done x' \<and>
    abort_outbox (x_db x') = List.map_filter (attempt_at w cfg 0 (due_aborts w x)) (abort_outbox (x_db x))"
proof -
  let ?es = "map scan_abort (due_aborts w x)"
  have "DueMultipartAborts (w_io w SDueAborts 0) (unix (w_now w SDueAborts 0)) 100 (x_db x) = Inr ?es"
    using io by (simp add: DueMultipartAborts_def query_def due_aborts_def)
  then have run: "drainAbortOutbox w cfg x = drain_entries w cfg 0 ?es x"
    using cfg by (simp add: drainAbortOutbox_def)
  have sub: "set (due_aborts w x) \<subseteq> set (abort_outbox (x_db x))"
    by (auto simp: due_aborts_def sql_limit_def sql_simps dest!: in_set_takeD)
  have nn: "0 \<le> a_attempts e" if "e \<in> set ?es" for e
    using that sub att by auto
  obtain x' where x': "drain_entries w cfg 0 ?es x = Done x'"
    using drain_entries_no_panic [OF cfg(2) nn] by blast
  have u: "unique_key a_upload_id ?es"
    using unique_key_due [OF uniq, of w] by (simp add: unique_key_def o_def)
  have scan: "attempt_at w cfg i (map scan_abort es) r = attempt_at w cfg i es r" for i es r
    by (induction es arbitrary: i) simp_all
  have "abort_outbox (x_db x') = List.map_filter (attempt_at w cfg 0 ?es) (abort_outbox (x_db x))"
    by (rule drain_entries_effect [OF io io uniq u _ x']) (use sub in auto)
  moreover have "attempt_at w cfg 0 ?es = attempt_at w cfg 0 (due_aborts w x)"
    by (rule ext) (rule scan)
  ultimately show ?thesis using run x' by simp
qed

theorem drainAbortOutbox_effect_witness:
  "\<exists>x'. drainAbortOutbox (sample_world (\<lambda>_. None) (\<lambda>_. Some ''down'')) sample_cfg
      (sample_exec\<lparr>x_db := empty_db\<lparr>abort_outbox := [fresh_abort sample_task 9]\<rparr>\<rparr>) = Done x' \<and>
    map (\<lambda>e. (a_upload_id e, a_attempts e, a_next_attempt_at e)) (abort_outbox (x_db x')) = [(''u1'', 1, 1060)]"
proof -
  let ?w = "sample_world (\<lambda>_. None) (\<lambda>_. Some ''down'')"
  let ?x = "sample_exec\<lparr>x_db := empty_db\<lparr>abort_outbox := [fresh_abort sample_task 9]\<rparr>\<rparr>"
  have io: "w_io ?w s i j = None" for s i j by (simp add: sample_world_def)
  have c: "abandon_set sample_cfg" "retryDelays sample_cfg \<noteq> []" by code_simp+
  have u: "unique_key a_upload_id (abort_outbox (x_db ?x))" by code_simp
  have a: "0 \<le> a_attempts e" if "e \<in> set (abort_outbox (x_db ?x))" for e
    using that by (simp add: fresh_abort_def)
  have "map (\<lambda>e. (a_upload_id e, a_attempts e, a_next_attempt_at e))
      (List.map_filter (attempt_at ?w sample_cfg 0 (due_aborts ?w ?x)) (abort_outbox (x_db ?x))) = [(''u1'', 1, 1060)]"
    by code_simp
  then show ?thesis using drainAbortOutbox_effect [of ?w sample_cfg ?x, OF io c u a] by auto
qed

subsection \<open>Recovery\<close>

lemma recover_row_effect:
  assumes "\<And>s i j. w_io w s i j = None" and "unique_key t_id (upload_tasks (x_db x))"
    and "t \<in> set (upload_tasks (x_db x))"
  shows "upload_tasks (x_db (recover_row w cfg now i t x)) = update_where (\<lambda>r. t_id r = t_id t \<and> recovers cfg now t)
      (\<lambda>r. r\<lparr>t_status := StatusPending, t_updated_at := w_secs w SRecover i 0\<rparr>) (upload_tasks (x_db x)) \<and>
    x_timers (recover_row w cfg now i t x) = x_timers x @ (if rearms cfg now t then [RequeueTimer t (t_next_retry_at t)] else [])"
proof -
  have hit: "count_where (\<lambda>r. t_id r = t_id t) (upload_tasks (x_db x)) \<noteq> 0"
    using assms(3) by (auto simp: count_where_zero)
  have nop: "\<not> recovers cfg now t \<Longrightarrow> update_where (\<lambda>r. t_id r = t_id t \<and> recovers cfg now t) f ts = ts" for f ts
    by (simp add: update_where_id)
  show ?thesis
    using assms(1) hit nop
    by (auto simp: recover_row_def UpdateStatus_def update_by_id_def signalWorkers_def scheduleFailedRequeue_def
        recovers_def rearms_def update_where_id)
qed

lemma recover_rows_status:
  assumes io: "\<And>s i j. w_io w s i j = None"
    and "unique_key t_id (upload_tasks (x_db x))" and "unique_key t_id ts" and "set ts \<subseteq> set (upload_tasks (x_db x))"
  shows "(\<forall>r\<in>set (upload_tasks (x_db x)). if r \<in> set ts \<and> recovers cfg now r
        then \<exists>u. r\<lparr>t_status := StatusPending, t_updated_at := u\<rparr> \<in> set (upload_tasks (x_db (recover_rows w cfg now i ts x)))
        else r \<in> set (upload_tasks (x_db (recover_rows w cfg now i ts x)))) \<and>
    x_timers (recover_rows w cfg now i ts x) = x_timers x @ map (\<lambda>t. RequeueTimer t (t_next_retry_at t)) (filter (rearms cfg now) ts)"
  using assms(2-)
proof (induction ts arbitrary: i x)
  case Nil
  then show ?case by simp
next
  case (Cons t ts)
  let ?y = "recover_row w cfg now i t x"
  let ?P = "\<lambda>r. t_id r = t_id t \<and> recovers cfg now t"
  let ?f = "\<lambda>r. r\<lparr>t_status := StatusPending, t_updated_at := w_secs w SRecover i 0\<rparr>"
  have t: "t \<in> set (upload_tasks (x_db x))" and ts: "set ts \<subseteq> set (upload_tasks (x_db x))"
    and tn0: "t_id t \<notin> t_id ` set ts" and uts: "unique_key t_id ts"
    using Cons.prems(2,3) by (auto simp: unique_key_def)
  have tn: "t \<notin> set ts" "\<And>r. r \<in> set ts \<Longrightarrow> t_id r \<noteq> t_id t"
    using tn0 by (blast, metis imageI)
  have y: "upload_tasks (x_db ?y) = update_where ?P ?f (upload_tasks (x_db x))"
    and tim: "x_timers ?y = x_timers x @ (if rearms cfg now t then [RequeueTimer t (t_next_retry_at t)] else [])"
    using recover_row_effect [OF io Cons.prems(1) t, of cfg now i] by blast+
  have uy: "unique_key t_id (upload_tasks (x_db ?y))"
    unfolding y by (rule unique_key_update_where [OF _ Cons.prems(1)]) simp
  have sub: "set ts \<subseteq> set (upload_tasks (x_db ?y))"
    unfolding y using ts tn(2) by (auto simp: set_update_where)
  note IH = Cons.IH [OF uy uts sub, of "Suc i"]
  have same: "r = t" if "r \<in> set (upload_tasks (x_db x))" "t_id r = t_id t" for r
    using unique_keyD [OF Cons.prems(1) that(1) t] that(2) by simp
  have row: "if r \<in> set (t # ts) \<and> recovers cfg now r
        then \<exists>u. r\<lparr>t_status := StatusPending, t_updated_at := u\<rparr> \<in> set (upload_tasks (x_db (recover_rows w cfg now (Suc i) ts ?y)))
        else r \<in> set (upload_tasks (x_db (recover_rows w cfg now (Suc i) ts ?y)))"
    if r: "r \<in> set (upload_tasks (x_db x))" for r
  proof (cases "?P r")
    case True
    then have rt: "r = t" using same r by simp
    have "?f t \<in> set (upload_tasks (x_db ?y))" using True r rt by (auto simp: y set_update_where)
    moreover have "?f t \<notin> set ts" using tn(2) [of "?f t"] by auto
    ultimately have "?f t \<in> set (upload_tasks (x_db (recover_rows w cfg now (Suc i) ts ?y)))"
      using IH by (meson)
    then show ?thesis using rt True by auto
  next
    case False
    then have "r \<in> set (upload_tasks (x_db ?y))" using r by (auto simp: y set_update_where)
    then show ?thesis using IH False r same by (auto split: if_splits)
  qed
  show ?case using row IH tim by simp
qed

lemma failed_list:
  assumes "\<And>s i j. w_io w s i j = None"
  shows "recoverFailedTasks w cfg x = recover_rows w cfg (w_now w SListFailed 0) 0
    (order_by t_created_at (select_where (\<lambda>r. t_status r = StatusFailed) (upload_tasks (x_db x)))) x"
  using assms by (simp add: recoverFailedTasks_def ListByStatus_def query_def)

lemma unique_key_order_select:
  assumes "unique_key key t" shows "unique_key key (order_by k (select_where P t))"
proof -
  have "distinct (map key (select_where P t))"
    using assms by (simp add: unique_key_def select_where_def distinct_map_filter)
  moreover have "mset (map key (order_by k (select_where P t))) = mset (map key (select_where P t))"
    by (simp add: order_by_def)
  ultimately show ?thesis
    unfolding unique_key_def using mset_eq_imp_distinct_iff by blast
qed

text \<open>
  start-up recovery.  With a responsive database, a failed row below the retry limit whose persisted
  schedule has passed becomes pending and nothing else of it changes; every other row is left exactly
  as it is, and a requeue timer is armed for a failed row below the limit with a schedule in the
  future, and for no other: abandoned and legacy rows are never resurrected.
\<close>

theorem recoverFailedTasks_honours_schedule:
  assumes io: "\<And>s i j. w_io w s i j = None" and uniq: "unique_key t_id (upload_tasks (x_db x))"
    and r: "r \<in> set (upload_tasks (x_db x))"
  shows "if t_status r = StatusFailed \<and> recovers cfg (w_now w SListFailed 0) r
      then \<exists>u. r\<lparr>t_status := StatusPending, t_updated_at := u\<rparr> \<in> set (upload_tasks (x_db (recoverFailedTasks w cfg x)))
      else r \<in> set (upload_tasks (x_db (recoverFailedTasks w cfg x))) \<and>
        (RequeueTimer r (t_next_retry_at r) \<in> set (x_timers (recoverFailedTasks w cfg x)) \<longleftrightarrow>
         RequeueTimer r (t_next_retry_at r) \<in> set (x_timers x) \<or>
         t_status r = StatusFailed \<and> rearms cfg (w_now w SListFailed 0) r)"
proof -
  let ?ts = "order_by t_created_at (select_where (\<lambda>r. t_status r = StatusFailed) (upload_tasks (x_db x)))"
  have sub: "set ?ts = {r \<in> set (upload_tasks (x_db x)). t_status r = StatusFailed}"
    by (simp add: sql_simps)
  have *: "set ?ts \<subseteq> set (upload_tasks (x_db x))" unfolding sub by blast
  note eff = recover_rows_status [OF io uniq unique_key_order_select [OF uniq] *]
  have row: "if r \<in> set ?ts \<and> recovers cfg (w_now w SListFailed 0) r
      then \<exists>u. r\<lparr>t_status := StatusPending, t_updated_at := u\<rparr> \<in> set (upload_tasks (x_db (recoverFailedTasks w cfg x)))
      else r \<in> set (upload_tasks (x_db (recoverFailedTasks w cfg x)))"
    using eff r unfolding failed_list [OF io] by blast
  have tim: "x_timers (recoverFailedTasks w cfg x) = x_timers x @
      map (\<lambda>t. RequeueTimer t (t_next_retry_at t)) (filter (rearms cfg (w_now w SListFailed 0)) ?ts)"
    using eff unfolding failed_list [OF io] by blast
  have mem: "r \<in> set ?ts \<longleftrightarrow> t_status r = StatusFailed" using r by (simp add: sub)
  have "RequeueTimer r (t_next_retry_at r) \<in> set (x_timers (recoverFailedTasks w cfg x)) \<longleftrightarrow>
      RequeueTimer r (t_next_retry_at r) \<in> set (x_timers x) \<or>
      t_status r = StatusFailed \<and> rearms cfg (w_now w SListFailed 0) r"
    unfolding tim using mem by auto
  then show ?thesis using row unfolding mem by simp
qed

theorem recoverFailedTasks_honours_schedule_witness:
  "\<exists>u. sample_task\<lparr>t_retry_count := 1, t_next_retry_at := 500, t_status := StatusPending, t_updated_at := u\<rparr>
     \<in> set (upload_tasks (x_db (recoverFailedTasks (sample_world (\<lambda>_. None) (\<lambda>_. None)) sample_cfg
        (sample_exec\<lparr>x_db := empty_db\<lparr>upload_tasks :=
          [sample_task\<lparr>t_status := StatusFailed, t_retry_count := 1, t_next_retry_at := 500\<rparr>]\<rparr>\<rparr>))))"
proof -
  let ?w = "sample_world (\<lambda>_. None) (\<lambda>_. None)"
  let ?r = "sample_task\<lparr>t_status := StatusFailed, t_retry_count := 1, t_next_retry_at := 500\<rparr>"
  let ?x = "sample_exec\<lparr>x_db := empty_db\<lparr>upload_tasks := [?r]\<rparr>\<rparr>"
  have io: "w_io ?w s i j = None" for s i j by (simp add: sample_world_def)
  have u: "unique_key t_id (upload_tasks (x_db ?x))" by code_simp
  have m: "?r \<in> set (upload_tasks (x_db ?x))" by simp
  have s: "t_status ?r = StatusFailed \<and> recovers sample_cfg (w_now ?w SListFailed 0) ?r" by code_simp
  show ?thesis
    using recoverFailedTasks_honours_schedule [of ?w ?x ?r sample_cfg, OF io u m] unfolding if_P [OF s] by simp
qed

text \<open>
  a task whose give-up could not be recorded is forgotten by a restart.  The retry budget is exhausted,
  the abandonment transaction fails (here on a full disk) and handleFailure falls back to the backoff
  path with a retry timer; the process restarts before the timer fires.  recoverFailedTasks skips the
  row because its retry count reached the limit: the row stays failed with its multipart upload, no
  timer is armed, and neither an abort record nor an abort exists.
\<close>

theorem give_up_fallback_forgotten_at_restart:
  "case handleFailure (sample_world (\<lambda>s. if s = SGiveUp then Some ''disk full'' else None) (\<lambda>_. None))
       sample_cfg exhausted_task (UploadError ''down'' False) exhausted_exec of
     Panic \<Rightarrow> False
   | Done x \<Rightarrow>
       (let restarted = Start (sample_world (\<lambda>_. None) (\<lambda>_. None)) sample_cfg
              (x\<lparr>x_db := snd (ResetRunningToPending no_fault (\<lambda>_. 2000) (\<lambda>_. None) (x_db x)), x_timers := []\<rparr>)
        in x_timers x = [RetryTimer exhausted_task (60 * 60 * 1000000000)] \<and>
           map (\<lambda>r. (t_status r, t_next_retry_at r, t_upload_id r)) (upload_tasks (x_db restarted)) =
             [(StatusFailed, 4600, ''u1'')] \<and>
           x_timers restarted = [] \<and> abort_outbox (x_db restarted) = [] \<and> x_trace restarted = [])"
  by code_simp

subsection \<open>The queue drains\<close>

lemma count_update_le:
  "(\<And>r. P r \<Longrightarrow> \<not> Q (f r)) \<Longrightarrow> count_where Q (update_where P f t) \<le> count_where Q t"
  by (induction t) (auto simp: update_where_def count_where_def)

lemma count_update_less:
  assumes "\<And>r. P r \<Longrightarrow> \<not> Q (f r)" and "t \<in> set ts" and "P t" and "Q t"
  shows "count_where Q (update_where P f ts) < count_where Q ts"
  using assms(2)
proof (induction ts)
  case (Cons r ts)
  have le: "count_where Q (update_where P f ts) \<le> count_where Q ts"
    by (rule count_update_le) (rule assms(1))
  show ?case
  proof (cases "r = t")
    case True
    then show ?thesis using assms(1,3,4) le by (simp add: update_where_def count_where_def)
  next
    case False
    then show ?thesis using Cons assms(1) by (auto simp: update_where_def count_where_def)
  qed
qed simp

lemma pending_tasks_cong: "upload_tasks d = upload_tasks d' \<Longrightarrow> pending_count d = pending_count d'"
  by (simp add: pending_count_def)

lemma pending_abandonTaskUpload [simp]: "pending_count (x_db (abandonTaskUpload w cfg i t x)) = pending_count (x_db x)"
  by (rule pending_tasks_cong) simp

lemma pending_update_by_id:
  "(\<And>r. t_status (f r) \<noteq> StatusPending) \<Longrightarrow> pending_count (snd (update_by_id io tid f d)) \<le> pending_count d"
  by (cases "io 0") (auto simp: update_by_id_def pending_count_def intro: count_update_le)

lemma pending_SaveReport: "pending_count (snd (SaveReport io now tid p d)) \<le> pending_count d"
  by (auto simp: SaveReport_def Let_def stmt_def pending_count_def intro!: count_update_le split: option.split)

lemma pending_persistResult: "pending_count (x_db (persistResult w t r e x)) \<le> pending_count (x_db x)"
  using persistResult_db [of w t r e x] pending_SaveReport by (metis order_refl)

lemma pending_abandon_tx:
  "(\<And>r. t_status (f r) \<noteq> StatusPending) \<Longrightarrow> pending_count (snd (abandon_tx io now t f d)) \<le> pending_count d"
  by (auto simp: abandon_tx_def Let_def stmt_def pending_count_def intro!: count_update_le split: option.split)

lemma pending_MarkFailedAbandoned: "MarkFailedAbandoned io clk t m d = (r, d') \<Longrightarrow> pending_count d' \<le> pending_count d"
  using pending_abandon_tx [of "mark_failed_row NextRetryNever m (clk 0)" io "clk 1" t d]
  by (simp add: MarkFailedAbandoned_def mark_failed_row_def)

lemma pending_MarkCompleted: "MarkCompletedAbandoningUpload io clk t d = (r, d') \<Longrightarrow> pending_count d' \<le> pending_count d"
  using pending_abandon_tx [of "\<lambda>r. r\<lparr>t_status := StatusCompleted, t_updated_at := clk 0\<rparr>" io "clk 1" t d]
  by (simp add: MarkCompletedAbandoningUpload_def)

lemma pending_finish:
  "pending_count (x_db (persistResult w t r e (abandonTaskUpload w cfg i t x))) \<le> pending_count (x_db x)"
  using pending_persistResult [of w t r e "abandonTaskUpload w cfg i t x"] by simp

lemma pending_try_abandon:
  "case try_abandon w cfg s nt t e x of Inl x' \<Rightarrow> pending_count (x_db x') \<le> pending_count (x_db x)
   | Inr (e', x') \<Rightarrow> pending_count (x_db x') \<le> pending_count (x_db x)"
proof -
  obtain r d where m: "MarkFailedAbandoned (w_io w s 0) (w_secs w s 0) t (err_text e) (x_db x) = (r, d)" by fastforce
  note le = pending_MarkFailedAbandoned [OF m]
  have "pending_count (x_db (persistResult w t' None (Some e) (abandonTaskUpload w cfg 0 t' (x\<lparr>x_db := d\<rparr>)))) \<le> pending_count (x_db x)" for t'
    using pending_finish [of w t' None "Some e" cfg 0 "x\<lparr>x_db := d\<rparr>"] le by simp
  then show ?thesis using le by (simp add: try_abandon_def Let_def m split: sum.split queue_error.split)
qed

lemma pending_backoff: "schedule_backoff w cfg t e x = Done x' \<Longrightarrow> pending_count (x_db x') \<le> pending_count (x_db x)"
  by (auto simp: schedule_backoff_def Let_def MarkFailed_def mark_failed_row_def intro!: pending_update_by_id split: option.splits)

lemma pending_try_abandon_dest:
  "try_abandon w cfg s nt t e x = Inl x' \<Longrightarrow> pending_count (x_db x') \<le> pending_count (x_db x)"
  "try_abandon w cfg s nt t e x = Inr (e', x') \<Longrightarrow> pending_count (x_db x') \<le> pending_count (x_db x)"
  using pending_try_abandon [where w = w and cfg = cfg and s = s and nt = nt and t = t and e = e and x = x] by simp_all

lemma handleFailure_rule:
  assumes run: "handleFailure w cfg t e x = Done x'" and "I x"
    and inl: "\<And>s nt e y y'. I y \<Longrightarrow> try_abandon w cfg s nt t e y = Inl y' \<Longrightarrow> I y'"
    and inr: "\<And>s nt e e' y y'. I y \<Longrightarrow> try_abandon w cfg s nt t e y = Inr (e', y') \<Longrightarrow> I y'"
    and bo: "\<And>e y y'. I y \<Longrightarrow> schedule_backoff w cfg t e y = Done y' \<Longrightarrow> I y'"
  shows "I x'"
proof -
  let ?t1 = "if is_terminal e then try_abandon w cfg STerminal ''terminal abandonment not durably recorded: '' t e x
     else Inr (e, x)"
  show ?thesis
  proof (cases ?t1)
    case (Inl y)
    then show ?thesis using run assms(2) by (auto simp: handleFailure_def split: if_splits intro: inl)
  next
    case (Inr p)
    then obtain e1 y where p: "?t1 = Inr (e1, y)" by (cases p) auto
    then have y: "I y" using assms(2) by (auto split: if_splits intro: inr)
    show ?thesis
      using run y unfolding handleFailure_def p
      by (auto split: sum.splits if_splits intro: inl bo dest: inr)
  qed
qed

lemma pending_handleFailure:
  assumes "handleFailure w cfg t e x = Done x'"
  shows "pending_count (x_db x') \<le> pending_count (x_db x)"
  by (rule handleFailure_rule [OF assms, where I = "\<lambda>y. pending_count (x_db y) \<le> pending_count (x_db x)"])
    (auto dest: pending_try_abandon_dest pending_backoff order_trans)

lemma pending_complete_duplicate:
  assumes "complete_duplicate w cfg t x = Done x'"
  shows "pending_count (x_db x') \<le> pending_count (x_db x)"
proof -
  obtain r d where m: "MarkCompletedAbandoningUpload (w_io w SDedupComplete 0) (w_secs w SDedupComplete 0) t (x_db x) = (r, d)"
    by fastforce
  have "pending_count (snd (UpdateStatus io now tid StatusCompleted (x_db x))) \<le> pending_count (x_db x)" for io now tid
    unfolding UpdateStatus_def by (rule pending_update_by_id) simp
  then show ?thesis
    using assms pending_MarkCompleted [OF m]
    by (auto simp: complete_duplicate_def m split: if_splits sum.splits queue_error.splits
        dest!: pending_handleFailure)
qed

lemma DequeuePending_one:
  assumes "DequeuePending io now 1 d = (Inr (t # ts), d')"
  shows "pending_count d' < pending_count d"
proof -
  obtain t0 where sel: "dequeue_select 1 d = [t0]"
  proof (cases "dequeue_select 1 d")
    case Nil
    then show ?thesis using assms that by (simp add: DequeuePending_def stmt_Inr_iff)
  next
    case (Cons a as)
    then have "length (a # as) \<le> 1"
      unfolding Cons [symmetric] by (simp add: dequeue_select_def sql_limit_def)
    then have "as = []" by simp
    then show ?thesis using Cons that by simp
  qed
  then have "t0 \<in> set (upload_tasks d)" "t_status t0 = StatusPending"
    using dequeue_select_set [of 1 d] by auto
  moreover have "d' = mark_running now t0 d"
    using assms sel by (simp add: DequeuePending_def stmt_Inr_iff)
  ultimately show ?thesis
    unfolding mark_running_def by (simp add: pending_count_def count_update_less)
qed

text \<open>The contract the executor relies on in its uploader: a call only touches the progress columns of
  the task rows, never their number, order, ids or statuses.\<close>

lemma pending_row_states: "pending_count d = length (filter (\<lambda>p. snd p = StatusPending) (row_states d))"
  by (simp add: pending_count_def row_states_def count_where_def filter_map o_def)

locale uploader_contract =
  fixes up :: "nat \<Rightarrow> uploader_fn"
  assumes up_row_states: "up k task d = (res, task', d') \<Longrightarrow> row_states d' = row_states d"
begin

lemma pending_run_upload:
  assumes "w_upload w = up k" and "run_upload w cfg t x = Done x'"
  shows "pending_count (x_db x') \<le> pending_count (x_db x)"
proof -
  obtain res t' d where u: "up k t (x_db x) = (res, t', d)" by (cases "up k t (x_db x)") auto
  have eq: "pending_count d = pending_count (x_db x)"
    using up_row_states [OF u] by (simp add: pending_row_states)
  show ?thesis
    using assms pending_persistResult [of w t' _ None "emit (EvUpload t) (x\<lparr>x_db := d\<rparr>)"] eq
    by (auto simp: run_upload_def Let_def u split: sum.splits option.splits dest!: pending_handleFailure)
qed

lemma pending_processTask:
  assumes "w_upload w = up k" and "processTask w cfg t x = Done x'"
  shows "pending_count (x_db x') \<le> pending_count (x_db x)"
  using assms pending_run_upload pending_handleFailure pending_complete_duplicate
  by (auto simp: processTask_def Let_def split: if_splits sum.splits)

lemma drainQueue_returns:
  assumes "\<And>i. w_upload (ws i) = up i"
  shows "\<exists>r. drainQueue ws cfg i x = Some r"
proof (induction "pending_count (x_db x)" arbitrary: i x rule: less_induct)
  case less
  obtain res d where dq: "DequeuePending (w_io (ws i) SDequeue 0) (w_secs (ws i) SDequeue 0 0) 1 (x_db x) = (res, d)"
    by fastforce
  show ?case
  proof (cases "\<exists>t ts x'. res = Inr (t # ts) \<and> processTask (ws i) cfg t (x\<lparr>x_db := d\<rparr>) = Done x'")
    case True
    then obtain t ts x' where t: "res = Inr (t # ts)" "processTask (ws i) cfg t (x\<lparr>x_db := d\<rparr>) = Done x'"
      by blast
    have "pending_count (x_db x') \<le> pending_count d"
      using pending_processTask [OF assms t(2)] by simp
    also have "\<dots> < pending_count (x_db x)" using DequeuePending_one dq t(1) by blast
    finally have "\<exists>r. drainQueue ws cfg (Suc i) x' = Some r" by (rule less)
    then show ?thesis by (subst drainQueue.simps) (simp add: dq t)
  next
    case False
    then show ?thesis
      by (subst drainQueue.simps) (auto simp: dq split: sum.split list.split outcome.split)
  qed
qed

end

subsection \<open>Reports\<close>

lemma payloads_update [simp]: "payloads (emit ev x) = payloads x"
  by (simp add: payloads_def)

lemma payloads_touch:
  "TouchReport io tid now (x_db x) = (r, d) \<Longrightarrow> payloads (x\<lparr>x_db := d\<rparr>) = payloads x"
  by (auto simp: TouchReport_def stmt_def payloads_def update_where_def split: option.splits)

lemma payloads_send_reports: "payloads (send_reports w i rs x) = payloads x"
proof (induction rs arbitrary: i x)
  case (Cons r rs)
  obtain res d where t: "TouchReport (w_io w STouch i) (rp_task_id r) (unix_milli (w_now w STouch i)) (x_db x) = (res, d)"
    by fastforce
  show ?case using payloads_touch [OF t] by (simp add: t Cons.IH split: sum.split option.split)
qed simp



lemma send_reports_trace:
  assumes "\<And>i j. w_io w STouch i j = None" and "\<And>i. w_send w i = None"
    and "\<And>r. r \<in> set rs \<Longrightarrow> w_unmarshal w (rp_payload r) = Inr (dec (rp_payload r))"
  shows "x_trace (send_reports w i rs x) = x_trace x @ map (\<lambda>r. EvSend (rp_task_id r) (dec (rp_payload r))) rs"
  using assms(3)
proof (induction rs arbitrary: i x)
  case (Cons r rs)
  then show ?case using assms(1,2) by (simp add: TouchReport_def emit_def)
qed simp

text \<open>
  With a responsive database, a working stream and decodable payloads, one reporter round sends the due
  reports, at most 100, least recently sent first, each under its task id with its stored content.
\<close>

theorem sendDueReports_sends:
  assumes "\<And>s i j. w_io w s i j = None" and "\<And>i. w_send w i = None"
    and "\<And>r. r \<in> set (upload_reports (x_db x)) \<Longrightarrow> w_unmarshal w (rp_payload r) = Inr (dec (rp_payload r))"
  shows "\<exists>due. x_trace (sendDueReports w cfg x) = x_trace x @ map (\<lambda>r. EvSend (rp_task_id r) (dec (rp_payload r))) due \<and>
    set due \<subseteq> set (upload_reports (x_db x)) \<and>
    length due = min 100 (count_where (\<lambda>r. rp_last_reported_at r \<le> unix_milli (w_now w SDueReports 0 - reportTimeout cfg)) (upload_reports (x_db x))) \<and>
    sorted (map rp_last_reported_at due)"
proof -
  let ?P = "\<lambda>r. rp_last_reported_at r \<le> unix_milli (w_now w SDueReports 0 - reportTimeout cfg)"
  let ?o = "order_by (\<lambda>r. (rp_last_reported_at r, rp_task_id r)) (select_where ?P (upload_reports (x_db x)))"
  let ?due = "sql_limit 100 ?o"
  have due: "DueReports (w_io w SDueReports 0) (unix_milli (w_now w SDueReports 0 - reportTimeout cfg)) (x_db x) = Inr ?due"
    using assms(1) by (simp add: DueReports_def query_def)
  have sub: "set ?due \<subseteq> set (upload_reports (x_db x))"
    by (auto simp: sql_limit_def sql_simps dest!: in_set_takeD)
  have "x_trace (sendDueReports w cfg x) = x_trace x @ map (\<lambda>r. EvSend (rp_task_id r) (dec (rp_payload r))) ?due"
    using send_reports_trace [OF assms(1,2), of ?due dec 0 x] sub assms(3) due by (auto simp: sendDueReports_def)
  moreover have "length ?due = min 100 (count_where ?P (upload_reports (x_db x)))"
    by (simp add: sql_limit_def sql_simps count_where_def select_where_def)
  moreover have "sorted (map rp_last_reported_at ?due)"
  proof -
    have "sorted (map (\<lambda>r. (rp_last_reported_at r, rp_task_id r)) ?o)" by (rule sorted_order_by)
    then have "sorted (map rp_last_reported_at ?o)"
      by (simp add: sorted_map less_eq_prod_def) (erule sorted_wrt_mono_rel [rotated], auto)
    then show ?thesis by (simp add: sql_limit_def take_map [symmetric] sorted_wrt_take)
  qed
  ultimately show ?thesis using sub by blast
qed

theorem sendDueReports_sends_witness:
  "\<exists>due::report_row list. x_trace (sendDueReports (sample_world (\<lambda>_. None) (\<lambda>_. None)) sample_cfg (sample_exec\<lparr>x_db := reported_db\<rparr>)) =
     map (\<lambda>r. EvSend (rp_task_id r) (report_of 0 sample_task None None\<lparr>m_sha256 := rp_payload r\<rparr>)) due \<and> length due = 1"
proof -
  let ?w = "sample_world (\<lambda>_. None) (\<lambda>_. None)"
  let ?x = "sample_exec\<lparr>x_db := reported_db\<rparr>"
  have io: "w_io ?w s i j = None" and sd: "w_send ?w i = None" for s i j by (simp_all add: sample_world_def)
  have um: "w_unmarshal ?w (rp_payload r) = Inr (report_of 0 sample_task None None\<lparr>m_sha256 := rp_payload r\<rparr>)"
    if "r \<in> set (upload_reports (x_db ?x))" for r by (simp add: sample_world_def)
  have tr: "x_trace ?x = []" by code_simp
  have n: "count_where (\<lambda>r. rp_last_reported_at r \<le> unix_milli (w_now ?w SDueReports 0 - reportTimeout sample_cfg))
      (upload_reports (x_db ?x)) = 1" by code_simp
  have "\<exists>due. x_trace (sendDueReports ?w sample_cfg ?x) = x_trace ?x @
      map (\<lambda>r. EvSend (rp_task_id r) (report_of 0 sample_task None None\<lparr>m_sha256 := rp_payload r\<rparr>)) due \<and>
      set due \<subseteq> set (upload_reports (x_db ?x)) \<and>
      length due = min 100 (count_where (\<lambda>r. rp_last_reported_at r \<le> unix_milli (w_now ?w SDueReports 0 - reportTimeout sample_cfg))
        (upload_reports (x_db ?x))) \<and> sorted (map rp_last_reported_at due)"
    by (rule sendDueReports_sends [OF io sd um])
  then show ?thesis
    unfolding n tr append_Nil by (elim exE conjE) (intro exI conjI, assumption, simp)
qed

lemma save_report_ok:
  assumes "\<And>j. io j = None" and "t \<in> set (upload_tasks d)" and "t_status t = StatusRunning"
  shows "\<exists>d'. SaveReport io now (t_id t) p d = (Inr (), d') \<and> processed_files d' = processed_files d \<and>
    t\<lparr>t_status := StatusReported, t_updated_at := now\<rparr> \<in> set (upload_tasks d')"
proof -
  have "count_where (\<lambda>r. t_id r = t_id t \<and> (t_status r = StatusRunning \<or> t_status r = StatusFailed)) (upload_tasks d) \<noteq> 0"
    using assms(2,3) by (auto simp: count_where_zero)
  then show ?thesis using assms by (auto simp: SaveReport_def Let_def set_update_where)
qed

lemma complete_reported_ok:
  assumes "\<And>j. io j = None" and "unique_key t_id (upload_tasks d)"
    and "t \<in> set (upload_tasks d)" and "\<And>f. f \<in> set (processed_files d) \<Longrightarrow> p_id f \<noteq> t_id t"
  shows "\<exists>d'. CompleteReported io clk (t_id t) uploaded sha d = (Inr (), d')"
proof -
  have "\<exists>tx. acknowledge_processed now (t_id t) (upd_tasks P f d) = Inr tx" for now P f
    using assms(4) by (auto simp: acknowledge_processed_def upsert_processed_def exists_where_iff processed_of_task_def
        find_row_def find_Some_iff split: option.split)
  then show ?thesis using assms(1)
    by (auto simp: CompleteReported_def Let_def split: sum.split) (metis sum.distinct(1))
qed

text \<open>
  C24: from upload to acknowledgement.  When the uploader has succeeded for a running task and the database is
  responsive, the report that persistResult stores, once acknowledged, completes that task with the
  digest the uploader returned, marks the file version as processed and removes the report.  (The
  protobuf encoding decodes to what was encoded.)
\<close>

theorem uploaded_file_acknowledged:
  assumes inv: "queue_inv (x_db x)" and row: "t \<in> set (upload_tasks (x_db x))" "t_status t = StatusRunning"
    and io: "\<And>s i j. w_io w s i j = None"
    and pb: "w_marshal w (report_of (w_now w SSaveReport 0) t (Some res) None) = Inr p"
      "w_unmarshal w p = Inr (report_of (w_now w SSaveReport 0) t (Some res) None)"
    and fresh: "\<And>f. f \<in> set (processed_files (x_db x)) \<Longrightarrow> p_id f \<noteq> t_id t"
    and ack: "HandleAcknowledgement w (Some \<lparr>ack_ref_message_id = t_id t, ack_success = True\<rparr>)
      (persistResult w t (Some res) None x) = (r, x')"
  shows "r = Inr () \<and>
    (\<exists>s\<in>set (upload_tasks (x_db x')). t_id s = t_id t \<and> t_status s = StatusCompleted \<and> t_sha256 s = ur_sha256 res) \<and>
    IsProcessed no_fault (t_rule_id t) (t_local_path t) (t_file_mtime t) (t_file_size t) (x_db x') = Inr True \<and>
    GetReport no_fault (t_id t) (x_db x') = Inl ErrNoRows"
proof -
  let ?m = "report_of (w_now w SSaveReport 0) t (Some res) None"
  let ?t1 = "t\<lparr>t_status := StatusReported, t_updated_at := w_secs w SSaveReport 0 1\<rparr>"
  have m: "m_success ?m" "m_sha256 ?m = ur_sha256 res" by (simp_all add: report_of_def)
  obtain d1 where save: "SaveReport (w_io w SSaveReport 0) (w_secs w SSaveReport 0 1) (t_id t) p (x_db x) = (Inr (), d1)"
    and pf: "processed_files d1 = processed_files (x_db x)" and t1: "?t1 \<in> set (upload_tasks d1)"
    using save_report_ok [of "w_io w SSaveReport 0", OF io row] by blast
  have inv1: "queue_inv d1" using queue_step_inv [OF step_save_report inv] save by (metis snd_conv)
  have get: "GetReport (w_io w SGetReport 0) (t_id t) d1 = Inr p"
    using save_report_effect [OF save] io by (simp add: GetReport_def)
  have u1: "unique_key t_id (upload_tasks d1)" using inv1 by (simp add: queue_inv_def)
  have f1: "\<And>f. f \<in> set (processed_files d1) \<Longrightarrow> p_id f \<noteq> t_id ?t1" using fresh pf by simp
  obtain d2 where c: "CompleteReported (w_io w SAck 0) (w_secs w SAck 0) (t_id ?t1) True (ur_sha256 res) d1 = (Inr (), d2)"
    using complete_reported_ok [of "w_io w SAck 0", OF io u1 t1 f1] by blast
  have "persistResult w t (Some res) None x = x\<lparr>x_db := d1, x_reportNotify := True\<rparr>"
    using pb save by (simp add: persistResult_def)
  then have "r = Inr ()" and "x_db x' = d2"
    using ack get pb m c by (auto simp: HandleAcknowledgement_def)
  have fin: "?t1\<lparr>t_status := StatusCompleted, t_sha256 := ur_sha256 res, t_updated_at := w_secs w SAck 0 0\<rparr> \<in> set (upload_tasks d2)"
    "GetReport no_fault (t_id t) d2 = Inl ErrNoRows"
    "IsProcessed no_fault (t_rule_id t) (t_local_path t) (t_file_mtime t) (t_file_size t) d2 = Inr True"
    using complete_reported_effect [OF inv1 t1 _ c] by simp_all
  show ?thesis
    unfolding \<open>x_db x' = d2\<close> using \<open>r = Inr ()\<close> fin(2,3) by (auto intro!: bexI [OF _ fin(1)])
qed

theorem uploaded_file_acknowledged_witness:
  "\<exists>x'. HandleAcknowledgement ack_world (Some \<lparr>ack_ref_message_id = ''t1'', ack_success = True\<rparr>)
       (persistResult ack_world running_task (Some ack_result) None running_exec) = (Inr (), x') \<and>
     IsProcessed no_fault ''r1'' ''/data/a.nc'' 20 10 (x_db x') = Inr True"
proof -
  let ?h = "HandleAcknowledgement ack_world (Some \<lparr>ack_ref_message_id = t_id running_task, ack_success = True\<rparr>)
       (persistResult ack_world running_task (Some ack_result) None running_exec)"
  obtain r x' where h: "?h = (r, x')" by fastforce
  have inv: "queue_inv (x_db running_exec)" by code_simp
  have row: "running_task \<in> set (upload_tasks (x_db running_exec))" "t_status running_task = StatusRunning"
    by (simp_all add: running_exec_def running_task_def)
  have io: "w_io ack_world s i j = None" for s i j by (simp add: ack_world_def sample_world_def)
  have pb: "w_marshal ack_world (report_of (w_now ack_world SSaveReport 0) running_task (Some ack_result) None) = Inr ''sha''"
    "w_unmarshal ack_world ''sha'' = Inr (report_of (w_now ack_world SSaveReport 0) running_task (Some ack_result) None)"
    by code_simp+
  have fresh: "p_id f \<noteq> t_id running_task" if "f \<in> set (processed_files (x_db running_exec))" for f
    using that by (simp add: running_exec_def empty_db_def)
  show ?thesis
    using uploaded_file_acknowledged [OF inv row io pb fresh h] h by (auto simp: running_task_def sample_task_def)
qed

end
