(* ===== verification/Uploader_Laws.thy ===== *)
theory Uploader_Laws
  imports Uploader Executor_Laws
begin

text \<open>
  What the uploader guarantees: the digest and size it reports are those of the object it left in the
  store, whatever happens to the file meanwhile; every multipart upload it opens stays reachable for a
  later abort; recorded parts of another file version are never used.  The last section discharges the
  executor's contract for it.
\<close>



lemma us_emit_simps [simp]:
  "us_trace (us_emit ev s) = us_trace s @ [ev]" "us_db (us_emit ev s) = us_db s" "us_task (us_emit ev s) = us_task s"
  by (simp_all add: us_emit_def)

lemma save_progress_simps [simp]:
  "us_trace (snd (save_progress e site js fv s)) = us_trace s"
  "us_task (snd (save_progress e site js fv s)) = us_task s"
  by (simp_all add: save_progress_def Let_def)

lemma part_described_mono:
  "part_described e tr uid p c \<Longrightarrow> set tr \<subseteq> set tr' \<Longrightarrow> part_described e tr' uid p c"
  by (auto simp: part_described_def)

lemma hashResumePartChecked_Some:
  "hashResumePartChecked e path sz partSize p etag = Some bs \<Longrightarrow> etagIsComparable etag \<and> normalizeETag etag = md5hex e bs"
  by (auto simp: hashResumePartChecked_def split: option.splits prod.splits if_splits)

lemma part_loop_describes:
  "part_loop e sz partSize fv uid remote ps sha done s = (Inr (sha', done'), s') \<Longrightarrow>
   \<exists>parts chunks. done' = done @ parts \<and> sha' = sha @ concat chunks \<and> map fst parts = ps \<and>
     list_all2 (part_described e (us_trace s') uid) parts chunks \<and> set (us_trace s) \<subseteq> set (us_trace s') \<and>
     t_upload_id (us_task s') = t_upload_id (us_task s)"
proof (induction ps arbitrary: sha "done" s)
  case Nil
  then show ?case by auto
next
  case (Cons p ps)
  show ?case
  proof (cases "remote p")
    case (Some etag)
    then obtain bs where bs: "hashResumePartChecked e (t_local_path (us_task s)) sz partSize p etag = Some bs"
      and run: "part_loop e sz partSize fv uid remote ps (sha @ bs) (done @ [(p, etag)]) s = (Inr (sha', done'), s')"
      using Cons.prems by (auto split: option.splits)
    obtain parts chunks where IH: "done' = (done @ [(p, etag)]) @ parts" "sha' = (sha @ bs) @ concat chunks" "map fst parts = ps"
      "list_all2 (part_described e (us_trace s') uid) parts chunks" "set (us_trace s) \<subseteq> set (us_trace s')"
      "t_upload_id (us_task s') = t_upload_id (us_task s)"
      using Cons.IH [OF run] by blast
    have "part_described e (us_trace s') uid (p, etag) bs"
      using hashResumePartChecked_Some [OF bs] by (simp add: part_described_def)
    with IH show ?thesis by (intro exI [of _ "(p, etag) # parts"] exI [of _ "bs # chunks"]) simp
  next
    case None
    let ?off = "(p - 1) * partSize"
    let ?pS = "if sz - ?off < partSize then sz - ?off else partSize"
    obtain avail where rd: "ue_read e (RPart p) (t_local_path (us_task s)) ?off ?pS = Inr avail"
      using Cons.prems None by (auto simp: Let_def split: sum.splits)
    obtain k res where pp: "ue_put_part e uid p (limit_read ?pS avail) ?pS = (k, res)" by fastforce
    let ?bs = "take k (limit_read ?pS avail)"
    obtain etag where res: "res = Inr etag" using Cons.prems None rd pp by (cases res) (auto simp: Let_def)
    let ?s1 = "us_emit (SvPart uid p ?bs (Inr etag)) s"
    let ?js = "marshalCompletedParts e (done @ [(p, etag)])"
    let ?s2 = "snd (save_progress e (UProgress p) ?js fv (?s1\<lparr>us_task := (us_task ?s1)\<lparr>t_completed_parts := ?js\<rparr>\<rparr>))"
    have run: "part_loop e sz partSize fv uid remote ps (sha @ ?bs) (done @ [(p, etag)]) ?s2 = (Inr (sha', done'), s')"
      using Cons.prems None rd pp res by (simp add: Let_def split: if_splits)
    obtain parts chunks where IH: "done' = (done @ [(p, etag)]) @ parts" "sha' = (sha @ ?bs) @ concat chunks" "map fst parts = ps"
      "list_all2 (part_described e (us_trace s') uid) parts chunks" "set (us_trace ?s2) \<subseteq> set (us_trace s')"
      "t_upload_id (us_task s') = t_upload_id (us_task ?s2)"
      using Cons.IH [OF run] by blast
    have "part_described e (us_trace s') uid (p, etag) ?bs" using IH(5) by (auto simp: part_described_def)
    with IH show ?thesis by (intro exI [of _ "(p, etag) # parts"] exI [of _ "?bs # chunks"]) simp
  qed
qed

lemma part_numbers_upto: "map fst parts = part_numbers sz partSize \<Longrightarrow> map fst parts = [1..int (length parts)]"
proof -
  assume m: "map fst parts = part_numbers sz partSize"
  let ?n = "(sz + partSize - 1) div partSize"
  have "length parts = nat ?n"
    using arg_cong [OF m, of length] by (simp add: part_numbers_def)
  then show ?thesis using m by (cases "0 \<le> ?n") (simp_all add: part_numbers_def)
qed

lemma multipartUpload_describes:
  assumes "multipartUpload e cfg fv sz s = (Inr r, s')"
  shows "\<exists>bytes. res_sha256 r = sha256hex e bytes \<and> res_size_bytes r = int (length bytes) \<and> int (length bytes) = sz \<and>
    assembles e (us_trace s') bytes"
proof -
  let ?pS = "PartSizeMB cfg * 1024 * 1024"
  obtain uid0 rparts where rs: "resume_state e sz ?pS s = Inr (uid0, rparts)"
    using assms by (auto simp: multipartUpload_def Let_def split: sum.splits)
  obtain uid s1 where ini: "(if uid0 = '''' then initiate e fv s else (Inr uid0, s)) = (Inr uid, s1)"
    using assms rs by (auto simp: multipartUpload_def Let_def split: sum.splits prod.splits)
  obtain sha pd s2 where loop: "part_loop e sz ?pS fv uid (map_of (rev rparts)) (part_numbers sz ?pS) '''' [] s1 = (Inr (sha, pd), s2)"
    and fin: "finish_upload e sz uid sha pd s2 = (Inr r, s')"
    using assms rs ini by (auto simp: multipartUpload_def Let_def split: sum.splits prod.splits)
  obtain chunks where pd: "map fst pd = part_numbers sz ?pS" "sha = concat chunks"
    "list_all2 (part_described e (us_trace s2) uid) pd chunks"
    using part_loop_describes [OF loop] by auto
  have len: "int (length sha) = sz" and r: "res_sha256 r = sha256hex e sha" "res_size_bytes r = int (length sha)"
    and tr: "us_trace s' = us_trace s2 @ [SvComplete uid pd True]"
    using fin by (auto simp: finish_upload_def split: if_splits sum.splits)
  have "list_all2 (part_described e (us_trace s') uid) pd chunks"
    using pd(3) by (rule list_all2_mono) (auto simp: tr intro: part_described_mono)
  then have "assembles e (us_trace s') sha"
    unfolding assembles_def using part_numbers_upto [OF pd(1)] pd(2) tr by (intro disjI2) (auto intro!: exI)
  then show ?thesis using len r by blast
qed

lemma singlePartUpload_describes:
  assumes "singlePartUpload e off sz s = (Inr r, s')"
  shows "\<exists>bytes. res_sha256 r = sha256hex e bytes \<and> res_size_bytes r = int (length bytes) \<and> int (length bytes) = sz \<and>
    assembles e (us_trace s') bytes"
  using assms
  by (auto simp: singlePartUpload_def Let_def assembles_def split: sum.splits prod.splits if_splits)

text \<open>
  C28: the digest and size a successful UploadFile reports are those of the object it left in the store.
  There is one byte sequence, of the length the file had at the stat, whose SHA-256 and length are the
  reported ones and which the store assembled: it is what the single PUT consumed, or the concatenation
  of the completed parts 1..n, each of which is bytes sent in this run or has an MD5 ETag the local bytes
  were checked against.  This holds whatever the file holds at each read.\<close>

theorem UploadFile_digest_describes_object:
  assumes run: "UploadFile e e1 cfg s = (Inr r, s')"
    and hash: "sha256hex e1 = sha256hex e" "md5hex e1 = md5hex e"
  shows "\<exists>bytes mtime. ue_stat e (t_local_path (us_task s)) = Inr (int (length bytes), mtime) \<and>
    res_sha256 r = sha256hex e bytes \<and> res_size_bytes r = int (length bytes) \<and> assembles e (us_trace s') bytes"
proof -
  have "part_described e1 = part_described e"
    using hash by (intro ext) (simp add: part_described_def)
  then have same: "assembles e1 = assembles e" by (intro ext) (simp add: assembles_def)
  obtain sz mt where st: "ue_stat e (t_local_path (us_task s)) = Inr (sz, mt)"
    using run by (auto simp: UploadFile_def split: sum.splits)
  have multi: "\<exists>bytes. res_sha256 r = sha256hex e bytes \<and> res_size_bytes r = int (length bytes) \<and> int (length bytes) = sz \<and>
      assembles e (us_trace s') bytes" if "upload_multipart e e1 cfg fv sz s0 = (Inr r, s')" for fv s0
    using that multipartUpload_describes [of e] multipartUpload_describes [of e1] hash same
    by (auto simp: upload_multipart_def split: sum.splits prod.splits if_splits)
  have "\<exists>bytes. res_sha256 r = sha256hex e bytes \<and> res_size_bytes r = int (length bytes) \<and> int (length bytes) = sz \<and>
      assembles e (us_trace s') bytes"
    using run st multi singlePartUpload_describes
    by (auto simp: UploadFile_def Let_def split: if_splits sum.splits prod.splits)
  then show ?thesis using st by blast
qed

theorem UploadFile_digest_describes_object_witness:
  "\<exists>bytes mtime. Inr (3, 9) = (Inr (int (length bytes), mtime) :: string + int \<times> int) \<and>
     ''shaabc'' = ''sha'' @ bytes \<and> assembles sample_up [SvPut ''abc''] bytes"
proof -
  let ?r = "\<lparr>res_storage_path = ''in/a.nc'', res_bucket = ''raw'', res_sha256 = ''shaabc'', res_etag = ''etag'', res_size_bytes = 3\<rparr>"
  have run: "UploadFile sample_up sample_up sample_up_cfg fresh_up = (Inr ?r, fresh_up\<lparr>us_trace := [SvPut ''abc'']\<rparr>)"
    by (simp add: sample_up_defs sample_task_def UploadFile_def Let_def AppendModeTail_def singlePartUpload_def limit_read_def
        us_emit_def etagIsComparable_def normalizeETag_def trim_quotes_def)
  show ?thesis
    using UploadFile_digest_describes_object [OF run refl refl] by (simp add: sample_up_defs sample_task_def)
qed

subsection \<open>Uploads stay reachable\<close>

lemma SaveMultipartProgress_row:
  assumes "SaveMultipartProgress io now tid u js fv d = (r, d')"
  shows "(r = Inr () \<longrightarrow> row_has tid u d') \<and> (row_has tid u d \<longrightarrow> row_has tid u d')"
proof (cases "io 0")
  case None
  then show ?thesis
    using assms by (auto simp: SaveMultipartProgress_def update_by_id_def row_has_def bex_update_where count_where_zero
        split: if_splits)
next
  case (Some e)
  then show ?thesis using assms by (auto simp: SaveMultipartProgress_def update_by_id_def)
qed

text \<open>Rule for the part loop: what both of its effects on the state keep, the loop keeps.\<close>

lemma part_loop_rule:
  assumes "part_loop e sz pS fv uid remote ps sha pd s = (r, s')" and "I s"
    and emit: "\<And>s p bs res. I s \<Longrightarrow> I (us_emit (SvPart uid p bs res) s)"
    and save: "\<And>s p js. I s \<Longrightarrow> I (snd (save_progress e (UProgress p) js fv (s\<lparr>us_task := (us_task s)\<lparr>t_completed_parts := js\<rparr>\<rparr>)))"
  shows "I s'"
  using assms(1,2)
proof (induction ps arbitrary: sha pd s)
  case Nil
  then show ?case by simp
next
  case (Cons p ps)
  let ?off = "(p - 1) * pS"
  let ?pS = "if sz - ?off < pS then sz - ?off else pS"
  show ?case
  proof (cases "remote p")
    case (Some etag)
    then show ?thesis using Cons by (auto split: option.splits)
  next
    case None
    show ?thesis
    proof (cases "ue_read e (RPart p) (t_local_path (us_task s)) ?off ?pS")
      case (Inl err)
      then show ?thesis using Cons.prems None by (simp add: Let_def)
    next
      case (Inr avail)
      obtain k res where pp: "ue_put_part e uid p (limit_read ?pS avail) ?pS = (k, res)" by fastforce
      let ?s1 = "us_emit (SvPart uid p (take k (limit_read ?pS avail)) res) s"
      have I1: "I ?s1" by (rule emit [OF Cons.prems(2)])
      have stop: "s' = ?s1 \<Longrightarrow> ?thesis" using I1 by simp
      show ?thesis
        using Cons.prems(1) None Inr pp stop Cons.IH save [OF I1]
        by (cases res) (simp_all add: Let_def split: if_splits)
    qed
  qed
qed

lemma row_states_update_by_id:
  "(\<And>r. t_id (f r) = t_id r \<and> t_status (f r) = t_status r) \<Longrightarrow> row_states (snd (update_by_id io tid f d)) = row_states d"
  by (cases "io 0") (simp_all add: update_by_id_def row_states_def update_where_def)

lemma row_states_save [simp]: "row_states (us_db (snd (save_progress e site js fv s))) = row_states (us_db s)"
  using row_states_update_by_id [of "\<lambda>r. r\<lparr>t_upload_id := t_upload_id (us_task s), t_completed_parts := js,
       t_parts_file_mtime := fv_mtime fv, t_parts_file_size := fv_size fv, t_updated_at := ue_now e site\<rparr>"
       "ue_io e site" "t_id (us_task s)" "us_db s"]
  by (simp add: save_progress_def SaveMultipartProgress_def Let_def)

lemma row_states_cong: "upload_tasks d = upload_tasks d' \<Longrightarrow> row_states d = row_states d'"
  by (simp add: row_states_def)

lemma discard_tasks: "discardStaleUpload e u s = (r, s') \<Longrightarrow> upload_tasks (us_db s') = upload_tasks (us_db s) \<and> us_task s' = us_task s"
proof -
  assume run: "discardStaleUpload e u s = (r, s')"
  obtain q d where q: "EnqueueMultipartAbort (ue_io e URecord) (ue_now e URecord) (fresh_abort ((us_task s)\<lparr>t_upload_id := u\<rparr>) 0) (us_db s) = (q, d)"
    by fastforce
  have "upload_tasks d = upload_tasks (us_db s)"
    using record_abort_length [of "ue_io e URecord" "ue_now e URecord" "fresh_abort ((us_task s)\<lparr>t_upload_id := u\<rparr>) 0" "us_db s"] q by simp
  then show ?thesis using run by (auto simp: discardStaleUpload_def q Let_def split: sum.splits option.splits if_splits)
qed

lemma initiate_rows: "row_states (us_db (snd (initiate e fv s))) = row_states (us_db s) \<and> t_id (us_task (snd (initiate e fv s))) = t_id (us_task s)"
  by (simp add: initiate_def Let_def prod.case_eq_if split: sum.split)

lemma finish_upload_db [simp]: "us_db (snd (finish_upload e sz uid sha pd s)) = us_db s" "us_task (snd (finish_upload e sz uid sha pd s)) = us_task s"
  by (simp_all add: finish_upload_def split: sum.split)

lemma part_loop_rows:
  "row_states (us_db (snd (part_loop e sz pS fv uid rem ps sha pd s))) = row_states (us_db s) \<and>
   t_id (us_task (snd (part_loop e sz pS fv uid rem ps sha pd s))) = t_id (us_task s)"
  by (rule part_loop_rule [where I = "\<lambda>y. row_states (us_db y) = row_states (us_db s) \<and> t_id (us_task y) = t_id (us_task s)"
        and r = "fst (part_loop e sz pS fv uid rem ps sha pd s)" and s = s]) (auto intro: prod.collapse [symmetric])

lemma multipartUpload_rule:
  assumes start: "J s" and JI: "J s \<Longrightarrow> I s"
    and new: "J s \<Longrightarrow> I (snd (initiate e fv s))"
    and emit: "\<And>s uid p bs res. I s \<Longrightarrow> I (us_emit (SvPart uid p bs res) s)"
    and save: "\<And>s p js. I s \<Longrightarrow> I (snd (save_progress e (UProgress p) js fv (s\<lparr>us_task := (us_task s)\<lparr>t_completed_parts := js\<rparr>\<rparr>)))"
    and fin: "\<And>s uid sha pd. I s \<Longrightarrow> I (snd (finish_upload e sz uid sha pd s))"
  shows "I (snd (multipartUpload e cfg fv sz s))"
proof -
  let ?pS = "PartSizeMB cfg * 1024 * 1024"
  have loop: "I (snd (part_loop e sz ?pS fv uid rem ps sha pd y))" if "I y" for uid rem ps sha pd y
    by (rule part_loop_rule [where r = "fst (part_loop e sz ?pS fv uid rem ps sha pd y)" and s = y])
      (auto intro: that emit save)
  have fin2: "I (snd (case part_loop e sz ?pS fv uid rem ps sha pd y of (Inl err, s) \<Rightarrow> (Inl err, s)
       | (Inr (sha, pd), s) \<Rightarrow> finish_upload e sz uid sha pd s))" if "I y" for uid rem ps sha pd y
    using loop [OF that, of uid rem ps sha pd] fin by (auto split: sum.split prod.split)
  show ?thesis
  proof (cases "resume_state e sz ?pS s")
    case (Inl err)
    then show ?thesis using JI [OF start] by (simp add: multipartUpload_def Let_def)
  next
    case (Inr p)
    obtain uid parts where p: "p = (uid, parts)" by fastforce
    obtain r s1 where i: "(if uid = '''' then initiate e fv s else (Inr uid, s)) = (r, s1)" by fastforce
    have "I s1" using i new [OF start] JI [OF start] by (auto split: if_splits)
    then show ?thesis using Inr p i fin2 by (cases r) (simp_all add: multipartUpload_def Let_def)
  qed
qed

lemma settled_tracked: "settled_new tr0 y \<Longrightarrow> tracked_new tr0 y"
  by (auto simp: settled_new_def tracked_new_def)

lemma save_progress_row:
  "(fst (save_progress e site js fv s) = Inr () \<longrightarrow> row_has (t_id (us_task s)) (t_upload_id (us_task s)) (us_db (snd (save_progress e site js fv s)))) \<and>
   (row_has (t_id (us_task s)) (t_upload_id (us_task s)) (us_db s) \<longrightarrow>
    row_has (t_id (us_task s)) (t_upload_id (us_task s)) (us_db (snd (save_progress e site js fv s))))"
  using SaveMultipartProgress_row [OF prod.collapse [symmetric]] by (simp add: save_progress_def Let_def)

lemma tracked_initiate: "settled_new tr0 s \<Longrightarrow> tracked_new tr0 (snd (initiate e fv s))"
proof (cases "ue_new e")
  case (Inr uid)
  assume s: "settled_new tr0 s"
  let ?s0 = "us_emit (SvNew uid) (s\<lparr>us_task := (us_task s)\<lparr>t_upload_id := uid\<rparr>\<rparr>)"
  show ?thesis
  proof (cases "fst (save_progress e UPersist '''' fv ?s0)")
    case (Inr u)
    then have "row_has (t_id (us_task s)) uid (us_db (snd (save_progress e UPersist '''' fv ?s0)))"
      using save_progress_row [of e UPersist "''''" fv ?s0] by simp
    then show ?thesis using s Inr \<open>ue_new e = Inr uid\<close>
      by (auto simp: initiate_def Let_def prod.case_eq_if settled_new_def tracked_new_def)
  next
    case (Inl err)
    then show ?thesis using s \<open>ue_new e = Inr uid\<close>
      by (auto simp: initiate_def Let_def prod.case_eq_if settled_new_def tracked_new_def)
  qed
qed (simp add: initiate_def settled_tracked)

lemma tracked_save:
  assumes "tracked_new tr0 s"
  shows "tracked_new tr0 (snd (save_progress e site js fv (s\<lparr>us_task := (us_task s)\<lparr>t_completed_parts := js'\<rparr>\<rparr>)))"
  using assms save_progress_row [of e site js fv "s\<lparr>us_task := (us_task s)\<lparr>t_completed_parts := js'\<rparr>\<rparr>"]
  by (auto simp: tracked_new_def)

lemma tracked_finish: "tracked_new tr0 s \<Longrightarrow> tracked_new tr0 (snd (finish_upload e sz uid sha pd s))"
  by (auto simp: tracked_new_def finish_upload_def split: sum.split)

lemma tracked_multipart: "settled_new tr0 s \<Longrightarrow> tracked_new tr0 (snd (multipartUpload e cfg fv sz s))"
  by (rule multipartUpload_rule [where J = "settled_new tr0" and I = "tracked_new tr0"])
    (auto intro: settled_tracked tracked_initiate tracked_save tracked_finish, auto simp: tracked_new_def)

lemma discard_trace:
  assumes "discardStaleUpload e u s = (Inr x, s')"
  shows "\<exists>b. us_trace s' = us_trace s @ [SvAbort u b]"
  using assms by (auto simp: discardStaleUpload_def Let_def prod.case_eq_if split: sum.splits option.splits if_splits)

lemma discard_refused:
  assumes "discardStaleUpload e u s = (Inl err, s')"
  shows "s' = s"
proof -
  have "atomic (us_db s) (EnqueueMultipartAbort (ue_io e URecord) (ue_now e URecord)
         (fresh_abort ((us_task s)\<lparr>t_upload_id := u\<rparr>) 0) (us_db s))"
    by (auto simp: EnqueueMultipartAbort_def Let_def)
  then show ?thesis
    using assms by (auto simp: discardStaleUpload_def Let_def prod.case_eq_if atomic_def split: sum.splits option.splits if_splits)
qed

lemma forget_simps [simp]:
  "us_trace (forget_upload s) = us_trace s" "us_db (forget_upload s) = us_db s" "t_id (us_task (forget_upload s)) = t_id (us_task s)"
  "t_upload_id (us_task (forget_upload s)) = ''''"
  by (simp_all add: forget_upload_def)

lemma settled_after_discard:
  assumes "tracked_new tr0 s" and "discardStaleUpload e (t_upload_id (us_task s)) s = (Inr x, s')"
  shows "settled_new tr0 (forget_upload s')"
  using assms(1) discard_trace [OF assms(2)] by (clarsimp simp: tracked_new_def settled_new_def) blast

lemma tracked_upload_multipart:
  assumes "settled_new tr0 s"
  shows "tracked_new tr0 (snd (upload_multipart e e1 cfg fv sz s))"
proof -
  obtain r s1 where m: "multipartUpload e cfg fv sz s = (r, s1)" by fastforce
  have t1: "tracked_new tr0 s1" using tracked_multipart [OF assms, of e cfg fv sz] m by simp
  obtain q s2 where d: "discardStaleUpload e (t_upload_id (us_task s1)) s1 = (q, s2)" by fastforce
  have "q = Inl err \<Longrightarrow> s2 = s1" for err using discard_refused d by blast
  moreover have "q = Inr x \<Longrightarrow> tracked_new tr0 (snd (multipartUpload e1 cfg fv sz (forget_upload s2)))" for x
    using settled_after_discard [OF t1] d tracked_multipart by blast
  ultimately show ?thesis using t1 by (auto simp: upload_multipart_def m d split: sum.split)
qed

lemma tracked_single: "tracked_new tr0 s \<Longrightarrow> tracked_new tr0 (snd (singlePartUpload e off sz s))"
  by (auto simp: singlePartUpload_def Let_def tracked_new_def split: sum.split prod.split)

lemma settled_start: "settled_new (us_trace s) s"
  by (simp add: settled_new_def)

lemma tracked_UploadFile: "tracked_new (us_trace s) (snd (UploadFile e e1 cfg s))"
proof -
  obtain q s2 where d: "discardStaleUpload e (t_upload_id (us_task s)) s = (q, s2)" by fastforce
  have s2: "q = Inl err \<Longrightarrow> s2 = s" for err using discard_refused d by blast
  have set2: "q = Inr x \<Longrightarrow> settled_new (us_trace s) (forget_upload s2)" for x
    using settled_after_discard [OF settled_tracked [OF settled_start]] d by blast
  show ?thesis
    using settled_start [of s] settled_tracked [OF settled_start] s2 set2 tracked_upload_multipart
      tracked_single [OF settled_tracked]
    by (auto simp: UploadFile_def Let_def d split: sum.split)
qed



text \<open>
  the abort that UploadFile issues when it cannot persist a fresh upload is a single attempt: if the store
  refuses it as well, no row and no outbox entry records the upload any more.
\<close>

theorem failed_abort_after_failed_persist_leaks:
  "let s = snd (UploadFile leaky_up leaky_up sample_up_cfg fresh_up) in
   us_trace s = [SvNew ''U'', SvAbort ''U'' False] \<and> us_db s = us_db fresh_up \<and>
   t_upload_id (us_task s) = '''' \<and> abort_outbox (us_db s) = []"
  by (simp add: Let_def) (intro conjI; code_simp)

subsection \<open>Resume gate\<close>

lemma save_progress_outbox [simp]: "abort_outbox (us_db (snd (save_progress e site js fv s))) = abort_outbox (us_db s)"
  by (cases "ue_io e site 0") (simp_all add: save_progress_def Let_def SaveMultipartProgress_def update_by_id_def)

lemma discarded_cong:
  "abort_outbox (us_db y) = abort_outbox (us_db s) \<Longrightarrow> set (us_trace s) \<subseteq> set (us_trace y) \<Longrightarrow> discarded u s \<Longrightarrow> discarded u y"
  by (auto simp: discarded_def abort_recorded_def)

lemma discarded_initiate: "discarded u s \<Longrightarrow> discarded u (snd (initiate e fv s))"
  by (erule discarded_cong [rotated 2]) (auto simp: initiate_def Let_def prod.case_eq_if split: sum.split)

lemma discarded_multipart: "discarded u s \<Longrightarrow> discarded u (snd (multipartUpload e cfg fv sz s))"
proof (rule multipartUpload_rule [where J = "discarded u" and I = "discarded u"])
  show "discarded u (us_emit ev s)" if "discarded u s" for s ev
    by (rule discarded_cong [OF _ _ that]) auto
  show "discarded u (snd (save_progress e (UProgress p) js fv (s\<lparr>us_task := t\<rparr>)))" if "discarded u s" for s p js t
    by (rule discarded_cong [OF _ _ that]) auto
  show "discarded u (snd (finish_upload e sz uid sha pd s))" if "discarded u s" for s uid sha pd
    by (rule discarded_cong [OF _ _ that]) (auto simp: finish_upload_def split: sum.split)
qed (auto intro: discarded_initiate)

lemma insert_delete_recorded:
  "abort_recorded u d \<Longrightarrow> abort_recorded u (snd (EnqueueMultipartAbort io now a d))"
  "abort_recorded u d \<Longrightarrow> u = v \<or> abort_recorded u (snd (DeleteMultipartAbort io' v d))"
  using set_insert_ignore_subset [of "abort_outbox d" a_upload_id]
  by (cases "io 0"; force simp: EnqueueMultipartAbort_def Let_def abort_recorded_def)
    (cases "io' 0"; auto simp: DeleteMultipartAbort_def abort_recorded_def set_delete_where)

lemma enqueue_recorded:
  "fst (EnqueueMultipartAbort io now a d) = Inr () \<Longrightarrow> abort_recorded (a_upload_id a) (snd (EnqueueMultipartAbort io now a d))"
proof (cases "io 0")
  case None
  let ?a = "if a_created_at a = 0 then a\<lparr>a_created_at := now\<rparr> else a"
  have "\<exists>r\<in>set (insert_ignore a_upload_id ?a (abort_outbox d)). a_upload_id r = a_upload_id ?a"
    by (rule insert_ignore_present)
  moreover have "a_upload_id ?a = a_upload_id a" by simp
  ultimately show ?thesis using None by (simp add: EnqueueMultipartAbort_def Let_def abort_recorded_def)
qed (simp add: EnqueueMultipartAbort_def Let_def)

lemma discarded_discard:
  assumes "discardStaleUpload e v s = (q, s')"
  shows "(discarded u s \<longrightarrow> discarded u s') \<and> (q = Inr () \<longrightarrow> discarded v s')"
proof -
  let ?a = "fresh_abort ((us_task s)\<lparr>t_upload_id := v\<rparr>) 0"
  obtain r d where en: "EnqueueMultipartAbort (ue_io e URecord) (ue_now e URecord) ?a (us_db s) = (r, d)" by fastforce
  have keep: "abort_recorded u (us_db s) \<Longrightarrow> abort_recorded u d" using insert_delete_recorded(1) en by (metis snd_conv)
  have rec: "r = Inr x \<Longrightarrow> abort_recorded v d" for x
    using enqueue_recorded [of "ue_io e URecord" "ue_now e URecord" ?a "us_db s"] en by (simp add: fresh_abort_def)
  have del: "abort_recorded w d \<Longrightarrow> w = v \<or> abort_recorded w (snd (DeleteMultipartAbort (ue_io e UDelete) v d))" for w
    by (rule insert_delete_recorded(2))
  show ?thesis
    using assms keep rec del [of u]
    by (auto simp: discardStaleUpload_def en Let_def discarded_def split: sum.splits option.splits if_splits)
qed

lemma discarded_upload_multipart:
  assumes "discarded u s" shows "discarded u (snd (upload_multipart e e1 cfg fv sz s))"
proof -
  obtain r s1 where m: "multipartUpload e cfg fv sz s = (r, s1)" by fastforce
  have d1: "discarded u s1" using discarded_multipart [OF assms, of e cfg fv sz] m by simp
  obtain q s2 where d: "discardStaleUpload e (t_upload_id (us_task s1)) s1 = (q, s2)" by fastforce
  have d2: "discarded u s2" using discarded_discard [OF d] d1 by blast
  have "discarded u (forget_upload s2)" by (rule discarded_cong [OF _ _ d2]) auto
  then show ?thesis using d1 d2 discarded_multipart by (auto simp: upload_multipart_def m d split: sum.split)
qed

text \<open>An attempt that starts without a recorded upload never touches the old one.\<close>

lemma untouched_multipart_fresh:
  assumes "untouched u s" and "t_upload_id (us_task s) = ''''" and "ue_new e \<noteq> Inr u"
  shows "untouched u (snd (multipartUpload e cfg fv sz s))"
proof -
  let ?pS = "PartSizeMB cfg * 1024 * 1024"
  obtain r s1 where i: "initiate e fv s = (r, s1)" by fastforce
  have u1: "untouched u s1" and uid: "r = Inr uid \<Longrightarrow> ue_new e = Inr uid" for uid
    using assms(1) i by (auto simp: initiate_def Let_def prod.case_eq_if untouched_def split: sum.splits)
  have loop: "untouched u (snd (part_loop e sz ?pS fv uid rem ps sha pd s1))" if "uid \<noteq> u" for uid rem ps sha pd
    by (rule part_loop_rule [where r = "fst (part_loop e sz ?pS fv uid rem ps sha pd s1)" and s = s1])
      (use u1 that in \<open>auto simp: untouched_def\<close>)
  have fin: "untouched u (snd (finish_upload e sz uid sha pd y))" if "untouched u y" "uid \<noteq> u" for uid sha pd y
    using that by (auto simp: finish_upload_def untouched_def split: sum.split)
  have neq: "r = Inr uid \<Longrightarrow> uid \<noteq> u" for uid using uid assms(3) by blast
  show ?thesis
  proof (cases r)
    case (Inl err)
    then show ?thesis using u1 i assms(2) by (simp add: multipartUpload_def resume_state_def Let_def)
  next
    case (Inr uid)
    let ?l = "part_loop e sz ?pS fv uid (map_of (rev [])) (part_numbers sz ?pS) '''' [] s1"
    have "untouched u (snd ?l)" by (rule loop [OF neq [OF Inr]])
    then show ?thesis using Inr i assms(2) fin [OF _ neq [OF Inr]]
      by (cases ?l) (auto simp: multipartUpload_def resume_state_def Let_def split: sum.split prod.split)
  qed
qed

lemma untouched_discard: "untouched u s \<Longrightarrow> discardStaleUpload e v s = (q, s') \<Longrightarrow> untouched u s'"
  by (auto simp: discardStaleUpload_def Let_def untouched_def prod.case_eq_if split: sum.splits option.splits if_splits)

lemma untouched_upload_fresh:
  assumes "untouched u s" and "t_upload_id (us_task s) = ''''" and "ue_new e \<noteq> Inr u" and "ue_new e1 \<noteq> Inr u"
  shows "untouched u (snd (upload_multipart e e1 cfg fv sz s))"
proof -
  obtain r s1 where m: "multipartUpload e cfg fv sz s = (r, s1)" by fastforce
  have d1: "untouched u s1" using untouched_multipart_fresh [OF assms(1-3), of cfg fv sz] m by simp
  obtain q s2 where d: "discardStaleUpload e (t_upload_id (us_task s1)) s1 = (q, s2)" by fastforce
  have d2: "untouched u s2" by (rule untouched_discard [OF d1 d])
  have "untouched u (forget_upload s2)" using d2 by (simp add: untouched_def)
  then have "untouched u (snd (multipartUpload e1 cfg fv sz (forget_upload s2)))"
    by (rule untouched_multipart_fresh) (use assms(4) in auto)
  then show ?thesis using d1 d2 by (auto simp: upload_multipart_def m d split: sum.split)
qed

text \<open>
  C30: parts of another file version are never mixed into an object.  When the task records an upload whose
  parts belong to another version of the file (or to no known version, or the file no longer needs
  multipart), UploadFile sends no part to that upload and never completes it; and before anything is
  uploaded afresh the abort of the old upload is recorded in the durable outbox or confirmed by the store,
  otherwise the attempt fails and changes nothing.\<close>

theorem UploadFile_resume_gate:
  assumes run: "UploadFile e e1 cfg s = (r, s')" and u: "t_upload_id (us_task s) = u" "u \<noteq> ''''"
    and stat: "ue_stat e (t_local_path (us_task s)) = Inr (sz, mt)"
    and tail: "t_append_mode (us_task s) \<noteq> AppendModeTail"
    and gate: "\<not> fst (canResumeParts (us_task s) \<lparr>fv_mtime = mt, fv_size = sz\<rparr> True (ThresholdMB cfg * 1024 * 1024 < sz))"
    and fresh: "ue_new e \<noteq> Inr u" "ue_new e1 \<noteq> Inr u" and start: "us_trace s = []"
  shows "untouched u s' \<and> ((\<exists>err. r = Inl (EDiscard err)) \<and> s' = s \<or> discarded u s')"
proof -
  obtain q s2 where d: "discardStaleUpload e u s = (q, s2)" by fastforce
  have u0: "untouched u s" using start by (simp add: untouched_def)
  have u2: "untouched u (forget_upload s2)"
    using untouched_discard [OF u0 d] by (simp add: untouched_def)
  have d2: "q = Inr x \<Longrightarrow> discarded u (forget_upload s2)" for x
    using discarded_discard [OF d, of u] by (simp add: discarded_def)
  have single: "untouched u y \<Longrightarrow> untouched u (snd (singlePartUpload e 0 sz y))"
    "discarded u y \<Longrightarrow> discarded u (snd (singlePartUpload e 0 sz y))" for y
    by (auto simp: singlePartUpload_def Let_def untouched_def discarded_def split: sum.split prod.split)
  have multi: "untouched u (snd (upload_multipart e e1 cfg fv sz (forget_upload s2)))" for fv
    by (rule untouched_upload_fresh [OF u2 _ fresh]) simp
  show ?thesis
  proof (cases q)
    case (Inl err)
    then show ?thesis using run stat tail gate u u0 d discard_refused [of e u s err s2]
      by (auto simp: UploadFile_def Let_def)
  next
    case (Inr x)
    then have res: "(r, s') = (if ThresholdMB cfg * 1024 * 1024 < sz
        then upload_multipart e e1 cfg \<lparr>fv_mtime = mt, fv_size = sz\<rparr> sz (forget_upload s2)
        else singlePartUpload e 0 sz (forget_upload s2))"
      using run stat tail gate u d by (simp add: UploadFile_def Let_def)
    then show ?thesis
      using multi single(1) [OF u2] single(2) [OF d2 [OF Inr]] discarded_upload_multipart [OF d2 [OF Inr], of e e1 cfg "\<lparr>fv_mtime = mt, fv_size = sz\<rparr>" sz]
      by (metis snd_conv)
  qed
qed

theorem UploadFile_resume_gate_witness:
  "untouched ''u1'' (snd (UploadFile sample_up sample_up sample_up_cfg recorded_up)) \<and>
   discarded ''u1'' (snd (UploadFile sample_up sample_up sample_up_cfg recorded_up))"
proof -
  let ?o = "UploadFile sample_up sample_up sample_up_cfg recorded_up"
  have "untouched ''u1'' (snd ?o) \<and> ((\<exists>err. fst ?o = Inl (EDiscard err)) \<and> snd ?o = recorded_up \<or> discarded ''u1'' (snd ?o))"
    by (rule UploadFile_resume_gate [OF prod.collapse [symmetric], where sz = 3 and mt = 9])
      (simp_all add: sample_up_defs sample_task_def AppendModeTail_def canResumeParts_def)
  moreover have "isl (fst ?o) = False" by code_simp
  ultimately show ?thesis by auto
qed

subsection \<open>The executor's contract\<close>

lemma row_states_multipart: "row_states (us_db (snd (multipartUpload e cfg fv sz s))) = row_states (us_db s)"
  by (rule multipartUpload_rule [where J = "\<lambda>y. row_states (us_db y) = row_states (us_db s)" and I = "\<lambda>y. row_states (us_db y) = row_states (us_db s)"])
    (simp_all add: initiate_rows)

lemma row_states_discard: "discardStaleUpload e u s = (q, s') \<Longrightarrow> row_states (us_db s') = row_states (us_db s)"
  using discard_tasks row_states_cong by blast

lemma row_states_upload_multipart: "row_states (us_db (snd (upload_multipart e e1 cfg fv sz s))) = row_states (us_db s)"
proof -
  obtain r s1 where m: "multipartUpload e cfg fv sz s = (r, s1)" by fastforce
  obtain q s2 where d: "discardStaleUpload e (t_upload_id (us_task s1)) s1 = (q, s2)" by fastforce
  have "row_states (us_db s1) = row_states (us_db s)" using row_states_multipart [of e cfg fv sz s] m by simp
  then show ?thesis
    using row_states_discard [OF d] row_states_multipart [of e1 cfg fv sz "forget_upload s2"]
    by (auto simp: upload_multipart_def m d split: sum.split)
qed

lemma row_states_UploadFile: "row_states (us_db (snd (UploadFile e e1 cfg s))) = row_states (us_db s)"
proof -
  obtain q s2 where d: "discardStaleUpload e (t_upload_id (us_task s)) s = (q, s2)" by fastforce
  have single: "us_db (snd (singlePartUpload e 0 sz y)) = us_db y" for sz y
    by (simp add: singlePartUpload_def Let_def split: sum.split prod.split)
  show ?thesis
    using row_states_discard [OF d]
    by (auto simp: UploadFile_def Let_def d single row_states_upload_multipart split: sum.split)
qed


end
