(* ===== verification/Agent_Laws.thy ===== *)
theory Agent_Laws
  imports Agent Uploader_Laws
begin

text \<open>
  Properties of the agent's upload path: the newest credentials win under every interleaving, a terminal
  verdict on a denied upload rests on refreshed credentials, deadlines cover the file size, and the upload
  function meets the executor's contract.
\<close>

lemma word64_less_Suc: "x < (- 1 :: 64 word) \<Longrightarrow> x < x + 1"
  by (metis (no_types) inc_less_eq_iff less_irrefl linorder_not_le)

section \<open>Credentials\<close>

lemma newest_apply:
  assumes "newest h xs"
  shows "newest (snd (Apply p g h)) (xs @ (case p of None \<Rightarrow> [] | Some c \<Rightarrow> [(c, g)]))"
  using assms
  by (auto simp: newest_def Apply_def SetSTS_def config_of_def split: option.split)

lemma newest_clear: "newest h xs \<Longrightarrow> newest (h\<lparr>sts := Clear (sts h)\<rparr>) xs"
  by (auto simp: newest_def Clear_def config_of_def)

lemma newest_steps:
  "newest (cs_holder c) xs \<Longrightarrow> newest (cs_holder (cred_steps ops c)) (xs @ offers ops (credGen c))"
proof (induction ops arbitrary: c xs)
  case Nil
  then show ?case by (simp add: cred_steps_def)
next
  case (Cons op ops)
  have IH: "newest (cs_holder (cred_step op c)) ys \<Longrightarrow>
      newest (cs_holder (cred_steps (op # ops) c)) (ys @ offers ops (credGen (cred_step op c)))" for ys
    using Cons.IH [of "cred_step op c" ys] by (simp add: cred_steps_def)
  show ?case
  proof (cases op)
    case (OPush p)
    then show ?thesis using IH [of "xs @ (case p of None \<Rightarrow> [] | Some q \<Rightarrow> [(q, credGen c + 1)])"]
        newest_apply [OF Cons.prems, of p "credGen c + 1"]
      by (simp add: credGen_Add_def updateCreds_def)
  next
    case ORequest
    then show ?thesis using IH Cons.prems by (simp add: credGen_Add_def)
  next
    case (OArrive p g)
    then show ?thesis using IH [of "xs @ (case p of None \<Rightarrow> [] | Some q \<Rightarrow> [(q, g)])"]
        newest_apply [OF Cons.prems, of p g] by (simp add: updateCreds_def)
  next
    case OClear
    then show ?thesis using IH newest_clear [OF Cons.prems] by (simp add: holder_clear_def)
  qed
qed

text \<open>
  C33: the newest credentials win.  Whatever pushes, refresh requests, late responses and clears the
  goroutines interleave, starting from a fresh process the published uploader configuration and generation
  come from one and the same response, that response has the highest generation of all that arrived, and
  the session store holds the same generation and either that response's session or none.\<close>

theorem credentials_newest_wins:
  "newest (cs_holder (cred_steps ops \<lparr>cs_holder = newCredentialHolder NewSTSManager ps n, credGen = 0\<rparr>)) (offers ops 0)"
  using newest_steps [of "\<lparr>cs_holder = newCredentialHolder NewSTSManager ps n, credGen = 0\<rparr>" "[]" ops]
  by (simp add: newest_def newCredentialHolder_def NewSTSManager_def)

section \<open>Generations only advance\<close>

lemma creds_advance_refl: "coherent c \<Longrightarrow> creds_advance c c"
  by (simp add: creds_advance_def)

lemma creds_advance_trans [trans]: "creds_advance c d \<Longrightarrow> creds_advance d f \<Longrightarrow> creds_advance c f"
  by (auto simp: creds_advance_def)

lemma advance_update: "coherent c \<Longrightarrow> creds_advance c (updateCreds p g c)"
  by (auto simp: creds_advance_def coherent_def updateCreds_def Apply_def SetSTS_def split: option.split)

lemma advance_step: "coherent c \<Longrightarrow> creds_advance c (cred_step op c)"
proof (cases op)
  case (OPush p)
  assume "coherent c"
  then have "coherent (c\<lparr>credGen := credGen c + 1\<rparr>)" by (simp add: coherent_def)
  from advance_update [OF this, of p "credGen c + 1"] OPush show ?thesis
    by (simp add: credGen_Add_def creds_advance_def)
next
  case (OArrive p g)
  assume "coherent c"
  then show ?thesis using OArrive advance_update by simp
qed (auto simp: creds_advance_def coherent_def credGen_Add_def holder_clear_def Clear_def)

lemma advance_steps: "coherent c \<Longrightarrow> creds_advance c (cred_steps ops c)"
proof (induction ops arbitrary: c)
  case (Cons op ops)
  from advance_step [OF Cons.prems, of op] have s: "creds_advance c (cred_step op c)" .
  then have "coherent (cred_step op c)" by (simp add: creds_advance_def)
  from creds_advance_trans [OF s Cons.IH [OF this]] show ?case by (simp add: cred_steps_def)
qed (simp add: cred_steps_def creds_advance_refl)

lemma update_at_least: "coherent c \<Longrightarrow> g \<le> generation (cs_holder (updateCreds (Some p) g c))"
  by (auto simp: coherent_def updateCreds_def Apply_def SetSTS_def)

lemma refresh_at_least:
  assumes "coherent c" and "refreshSTS ops (Inr (Some p)) c = (r, c')"
  shows "coherent c' \<and> credGen c + 1 \<le> generation (cs_holder c')"
proof -
  let ?c1 = "cred_steps ops (snd (credGen_Add (holder_clear c)))"
  have "coherent (snd (credGen_Add (holder_clear c)))"
    using assms(1) by (simp add: coherent_def holder_clear_def credGen_Add_def Clear_def)
  then have c1: "coherent ?c1" using advance_steps by (auto simp: creds_advance_def)
  have "c' = updateCreds (Some p) (credGen c + 1) ?c1"
    using assms(2) by (simp add: refreshSTS_def Let_def credGen_Add_def holder_clear_def)
  then show ?thesis using update_at_least [OF c1] advance_update [OF c1] by (simp add: creds_advance_def)
qed

section \<open>Denied uploads\<close>

lemma interleave_simps [simp]:
  "ag_up (interleave e p a) = ag_up a" "ag_attempts (interleave e p a) = ag_attempts a"
  "ag_creds (interleave e p a) = cred_steps (ae_others e p) (ag_creds a)"
  by (simp_all add: interleave_def)

text \<open>One attempt: a panic leaves no trace; otherwise it ran on one published snapshot taken between its
  start and its end.\<close>

lemma attempt_snapshot:
  assumes "uploadWithTimeout e uc n a = (r, a')" and co: "coherent (ag_creds a)"
  shows "creds_advance (ag_creds a) (ag_creds a') \<and>
    (\<exists>c. ag_attempts a' = ag_attempts a @ [Snapshot (cs_holder c)] \<and>
      creds_advance (ag_creds a) c \<and> creds_advance c (ag_creds a') \<and> (denied r \<longrightarrow> cfg (cs_holder c) \<noteq> None)) \<or>
    r = Inl Panic \<and> creds_advance (ag_creds a) (ag_creds a') \<and> ag_attempts a' = ag_attempts a"
proof -
  let ?c = "cred_steps (ae_others e (PBefore n)) (ag_creds a)"
  have c: "creds_advance (ag_creds a) ?c" by (rule advance_steps [OF co])
  then have "coherent ?c" by (simp add: creds_advance_def)
  then have d: "creds_advance ?c (cred_steps (ae_others e (PDuring n)) ?c)" by (rule advance_steps)
  show ?thesis
  proof (cases "upload_deadline e uc n (us_task (ag_up a))")
    case None
    then show ?thesis using assms(1) creds_advance_refl [OF co] by (auto simp: uploadWithTimeout_def)
  next
    case (Some outer)
    have "ag_creds a' = cred_steps (ae_others e (PDuring n)) ?c \<and> ag_attempts a' = ag_attempts a @ [Snapshot (cs_holder ?c)] \<and>
        (denied r \<longrightarrow> cfg (cs_holder ?c) \<noteq> None)"
      using assms(1) Some
      by (auto simp: uploadWithTimeout_def singleAttemptUpload_def Let_def Current_def denied_def prod.case_eq_if
          split: option.splits sum.splits)
    then show ?thesis using c d creds_advance_trans [OF c d] by (intro disjI1) auto
  qed
qed

lemma attempt_not_terminal: "uploadWithTimeout e uc n a = (Inl err, a') \<Longrightarrow> \<not> is_terminal_error err"
  by (auto simp: uploadWithTimeout_def singleAttemptUpload_def Let_def prod.case_eq_if split: option.splits sum.splits)

lemma attempt_denied:
  assumes "uploadWithTimeout e uc n a = (r, a')" and "coherent (ag_creds a)" and "denied r"
  shows "\<exists>c. ag_attempts a' = ag_attempts a @ [Snapshot (cs_holder c)] \<and> cfg (cs_holder c) \<noteq> None \<and>
    creds_advance (ag_creds a) c \<and> creds_advance c (ag_creds a')"
  using attempt_snapshot [OF assms(1,2)] assms(3) by (auto simp: denied_def)

lemma last_attempt_terminal:
  assumes "last_attempt e uc a = (Inl err, a')" and "is_terminal_error err" and "coherent (ag_creds a)"
  shows "\<exists>s. ag_attempts a' = ag_attempts a @ [s] \<and> fst s \<noteq> None \<and> gen_of a \<le> snd s \<and> snd s \<le> gen_of a'"
proof -
  obtain r where r: "uploadWithTimeout e uc 2 a = (Inl r, a')" "isAccessDenied r"
    using assms(1,2) attempt_not_terminal [of e uc 2 a]
    by (auto simp: last_attempt_def split: prod.splits sum.splits if_splits)
  then have "denied (Inl r)" by (simp add: denied_def)
  from attempt_denied [OF r(1) assms(3) this] show ?thesis
    by (auto simp: Snapshot_def gen_of_def creds_advance_def)
qed

lemma second_attempt_terminal:
  assumes run: "second_attempt e uc a = (Inl err, a')" and tm: "is_terminal_error err" and co: "coherent (ag_creds a)"
  shows "judged_on a a'"
proof -
  let ?a = "interleave e PNoted a"
  have adv: "creds_advance (ag_creds a) (ag_creds ?a)" using advance_steps [OF co] by simp
  then have co1: "coherent (ag_creds ?a)" by (simp add: creds_advance_def)
  obtain r a1 where u: "uploadWithTimeout e uc 1 ?a = (r, a1)" by fastforce
  have "denied r"
    using run tm u attempt_not_terminal [of e uc 1 ?a]
    by (auto simp: second_attempt_def denied_def Let_def split: sum.splits if_splits)
  from attempt_denied [OF u co1 this] obtain c where c: "ag_attempts a1 = ag_attempts a @ [Snapshot (cs_holder c)]"
    "cfg (cs_holder c) \<noteq> None" "creds_advance (ag_creds ?a) c" "creds_advance c (ag_creds a1)" by auto
  have co2: "coherent (ag_creds a1)" using c(4) by (simp add: creds_advance_def)
  obtain er where er: "r = Inl er" "isAccessDenied er" using \<open>denied r\<close> by (cases r) (auto simp: denied_def)
  show ?thesis
  proof (cases "generation (cs_holder (ag_creds a1)) = generation (cs_holder (ag_creds ?a))")
    case True
    then have a': "a' = a1" using run u er by (simp add: second_attempt_def Let_def)
    have "Snapshot (cs_holder c) = Snapshot (cs_holder (ag_creds a1))"
      using c(3,4) True by (auto simp: creds_advance_def Snapshot_def)
    then show ?thesis unfolding judged_on_def a'
      using c adv by (intro exI [of _ "[]"] exI [of _ "Snapshot (cs_holder c)"])
        (auto simp: Snapshot_def gen_of_def creds_advance_def)
  next
    case False
    then have l: "last_attempt e uc a1 = (Inl err, a')" using run u er by (simp add: second_attempt_def Let_def)
    have "gen_of a \<le> gen_of a1" using adv c(3,4) by (auto simp: gen_of_def creds_advance_def)
    with last_attempt_terminal [OF l tm co2] c(1) show ?thesis
      unfolding judged_on_def by (force simp: Snapshot_def)
  qed
qed





text \<open>
  What the reaction to a denied upload does.  An attempt that was not denied is returned as it is,
  with no refresh and no further attempt; when the refresh fails the original denial is returned, not a
  terminal error; and never more than three attempts are made.\<close>

theorem retry_outcomes:
  assumes "uploadWithTimeout e uc 0 a = (r0, a1)" and "uploadWithAccessDeniedRetry e uc a = (r, a')"
  shows "(\<not> denied r0 \<longrightarrow> r = r0 \<and> a' = a1) \<and>
    (denied r0 \<and> ae_refresh e = Inl m \<longrightarrow> r = r0 \<and> ag_attempts a' = ag_attempts a1 \<and> ag_up a' = ag_up a1) \<and>
    length (ag_attempts a') \<le> length (ag_attempts a) + 3"
proof -
  have n: "length (ag_attempts y) \<le> length (ag_attempts x) + 1" if "uploadWithTimeout e uc k x = (q, y)" for x k q y
    using that by (auto simp: uploadWithTimeout_def singleAttemptUpload_def Let_def prod.case_eq_if split: option.splits sum.splits)
  have l: "length (ag_attempts y) \<le> length (ag_attempts x) + 1" if "last_attempt e uc x = (q, y)" for x q y
    using that n [of 2 x] by (fastforce simp: last_attempt_def split: prod.splits sum.splits if_splits)
  have s: "length (ag_attempts y) \<le> length (ag_attempts x) + 2" if "second_attempt e uc x = (q, y)" for x q y
  proof -
    obtain v z where v: "uploadWithTimeout e uc 1 (interleave e PNoted x) = (v, z)" by fastforce
    have "y = z \<or> last_attempt e uc z = (q, y)"
      using that v by (auto simp: second_attempt_def Let_def split: sum.splits if_splits)
    then show ?thesis using n [OF v] l [of z q y] by auto
  qed
  obtain q c where rf: "refreshSTS (ae_others e PRefresh) (ae_refresh e) (ag_creds a1) = (q, c)" by fastforce
  have q: "ae_refresh e = Inl m \<Longrightarrow> q \<noteq> None" using rf by (auto simp: refreshSTS_def Let_def credGen_Add_def)
  show ?thesis
  proof (cases "denied r0")
    case False
    then show ?thesis using assms n [OF assms(1)]
      by (auto simp: uploadWithAccessDeniedRetry_def denied_def split: sum.splits)
  next
    case True
    then have run: "(r, a') = (case q of Some _ \<Rightarrow> (r0, a1\<lparr>ag_creds := c\<rparr>) | None \<Rightarrow> second_attempt e uc (a1\<lparr>ag_creds := c\<rparr>))"
      using assms rf by (auto simp: uploadWithAccessDeniedRetry_def denied_def split: sum.splits option.splits)
    show ?thesis
    proof (cases q)
      case None
      then show ?thesis using True run q s [of "a1\<lparr>ag_creds := c\<rparr>" r a'] n [OF assms(1)] by auto
    qed (use True run n [OF assms(1)] in auto)
  qed
qed

theorem retry_outcomes_witness:
  "length (ag_attempts (snd (uploadWithAccessDeniedRetry denying_env (UploadSec defaults) sample_agent))) \<le> 3"
  using retry_outcomes [OF prod.collapse [symmetric] prod.collapse [symmetric], of denying_env "UploadSec defaults" sample_agent "''down''"]
  by (simp add: sample_agent_def)

section \<open>Deadlines\<close>

lemma ceil_bounds:
  fixes n r :: int
  assumes "0 < n" "0 < r"
  defines "s \<equiv> n div r + (if n mod r \<noteq> 0 then 1 else 0)"
  shows "n \<le> s * r" "s * r < n + r" "0 < s" "s \<le> n"
proof -
  have e: "n = r * (n div r) + n mod r" by simp
  have m: "0 \<le> n mod r" "n mod r < r" using assms by simp_all
  have s: "s * r = n - n mod r + (if n mod r \<noteq> 0 then r else 0)"
    by (simp add: s_def algebra_simps minus_mod_eq_mult_div)
  show le: "n \<le> s * r" "s * r < n + r" using s m by auto
  show pos: "0 < s" using le(1) assms(1,2) by (metis less_le_trans zero_less_mult_pos2)
  show "s \<le> n"
  proof (cases "n mod r = 0")
    case True
    then have "s * r = n" using s by simp
    moreover have "s * 1 \<le> s * r" using pos assms(2) by (intro mult_left_mono) auto
    ultimately show ?thesis by simp
  next
    case False
    then have "2 \<le> r" using m by auto
    moreover have "s \<ge> 2 \<Longrightarrow> s * 2 \<le> s * r" using \<open>2 \<le> r\<close> by (intro mult_left_mono) auto
    moreover have "(s - 1) * r < n" using le(2) by (simp add: left_diff_distrib)
    moreover have "(s - 1) * 1 \<le> (s - 1) * r" using pos assms(2) by (intro mult_left_mono) auto
    ultimately show ?thesis by auto
  qed
qed

text \<open>
  C37: the deadline of an upload is computed without overflow, lies between the configured minimum and the
  longest duration, is long enough to move the file at the assumed rate (unless it is the longest duration)
  and exceeds that time by less than one second unless it is the minimum.\<close>

theorem uploadTimeoutForSize_covers:
  assumes "0 < rate" "rate < 2 ^ 63" "fileSize < 2 ^ 63" "0 \<le> minimum" "minimum \<le> maxDuration"
  shows "\<exists>d. uploadTimeoutForSize fileSize minimum rate = Some d \<and> minimum \<le> d \<and> d \<le> maxDuration \<and>
    (d = maxDuration \<or> fileSize * 1000000000 \<le> d * rate) \<and>
    (0 < fileSize \<longrightarrow> d \<in> {minimum, maxDuration} \<or> d * rate < (fileSize + rate) * 1000000000)"
proof (cases "fileSize \<le> 0")
  case True
  then have "fileSize * 1000000000 \<le> 0" "0 \<le> minimum * rate" using assms by simp_all
  then have "fileSize * 1000000000 \<le> minimum * rate" by linarith
  then show ?thesis using assms True by (simp add: uploadTimeoutForSize_def)
next
  case False
  define s where "s = fileSize div rate + (if fileSize mod rate \<noteq> 0 then 1 else 0)"
  have b: "fileSize \<le> s * rate" "s * rate < fileSize + rate" "0 < s" "s \<le> fileSize"
    using ceil_bounds [of fileSize rate] False assms by (simp_all add: s_def)
  have q: "0 \<le> fileSize div rate" "fileSize div rate \<le> s" using False assms by (auto simp: s_def pos_imp_zdiv_nonneg_iff)
  have "int64 (fileSize div rate) = fileSize div rate" using q b(4) assms(3) by (intro int64_id) auto
  moreover have "fileSize mod rate \<noteq> 0 \<Longrightarrow> int64 (fileSize div rate + 1) = fileSize div rate + 1"
    using q b(4) assms(3) by (intro int64_id) (auto simp: s_def)
  ultimately have s: "(if fileSize mod rate \<noteq> 0 then int64 (int64 (fileSize div rate) + 1) else int64 (fileSize div rate)) = s"
    by (simp add: s_def)
  have sec: "uploadTimeoutForSize fileSize minimum rate =
      (if maxDurationSeconds < s then Some maxDuration
       else let derived = int64 (s * 1000000000) in if derived < minimum then Some minimum else Some derived)"
    using False assms(1) by (simp add: uploadTimeoutForSize_def Let_def flip: s)
  have cover: "fileSize * 1000000000 \<le> s * 1000000000 * rate" "s * 1000000000 * rate < (fileSize + rate) * 1000000000"
    using b(1,2) by simp_all
  show ?thesis
  proof (cases "maxDurationSeconds < s")
    case True
    then show ?thesis using sec assms(5) by simp
  next
    case F2: False
    then have d: "s * 1000000000 \<le> maxDuration" by (simp add: maxDurationSeconds_def maxDuration_def)
    then have "int64 (s * 1000000000) = s * 1000000000" using b(3) by (auto simp: maxDuration_def intro!: int64_id)
    then have run: "uploadTimeoutForSize fileSize minimum rate = Some (max minimum (s * 1000000000))"
      using sec F2 by (auto simp: Let_def max_def)
    have "s * 1000000000 * rate \<le> max minimum (s * 1000000000) * rate" using assms(1) by (intro mult_right_mono) auto
    then have "fileSize * 1000000000 \<le> max minimum (s * 1000000000) * rate" using cover(1) by linarith
    then show ?thesis using run d cover(2) assms(5) by (intro exI [of _ "max minimum (s * 1000000000)"]) (auto simp: max_def)
  qed
qed

theorem uploadTimeoutForSize_covers_witness:
  "\<exists>d. uploadTimeoutForSize 1500 3 1000 = Some d \<and> 1500 * 1000000000 \<le> d * 1000 \<and> d * 1000 < 2500 * 1000000000"
proof -
  have "uploadTimeoutForSize 1500 3 1000 = Some 2000000000" by code_simp
  then show ?thesis using uploadTimeoutForSize_covers [of 1000 1500 3] by (simp add: maxDuration_def)
qed

text \<open>
  A configuration that Load accepts never makes an upload attempt panic: the assumed rate is positive,
  so both deadlines are defined for every file size.\<close>

theorem loaded_config_never_panics:
  assumes "Load decode env path = Inr c" and "uploadWithTimeout e (UploadSec c) n a = (r, a')"
  shows "r \<noteq> Inl Panic"
proof -
  have "0 < AssumedUploadBytesPerSecond (UploadSec c)"
    using assms(1) validate_usable [of c] by (auto simp: Load_def Let_def usable_def split: sum.splits option.splits)
  then have "\<exists>d. upload_deadline e (UploadSec c) n t = Some d" for t
    by (simp add: upload_deadline_def uploadTimeoutForSize_def Let_def)
  then obtain dl where "\<And>t. upload_deadline e (UploadSec c) n t = Some (dl t)" by metis
  then show ?thesis
    using assms(2)
    by (auto simp: uploadWithTimeout_def singleAttemptUpload_def Let_def prod.case_eq_if split: option.splits sum.splits)
qed

theorem loaded_config_never_panics_witness:
  "fst (uploadWithTimeout denying_env (UploadSec (defaults\<lparr>Server := \<lparr>Endpoint = ''cp'', TLSCACert = '''', TLSInsecure = False\<rparr>\<rparr>))
     0 sample_agent) \<noteq> Inl Panic"
proof -
  have "Load (\<lambda>_ _. Inr (defaults\<lparr>Server := \<lparr>Endpoint = ''cp'', TLSCACert = '''', TLSInsecure = False\<rparr>\<rparr>)) (\<lambda>_. '''') ''f'' =
      Inr (defaults\<lparr>Server := \<lparr>Endpoint = ''cp'', TLSCACert = '''', TLSInsecure = False\<rparr>\<rparr>)" by code_simp
  from loaded_config_never_panics [OF this prod.collapse [symmetric]] show ?thesis .
qed

text \<open>
  The configured minimum has no upper bound, and its conversion to nanoseconds wraps: with a minimum of
  ten thousand million seconds a valid configuration gives an empty file a deadline in the past.
\<close>

theorem accepted_minimum_can_overflow:
  "let c = defaults\<lparr>Server := \<lparr>Endpoint = ''cp'', TLSCACert = '''', TLSInsecure = False\<rparr>,
             UploadSec := (UploadSec defaults)\<lparr>MinTimeoutSeconds := 10000000000\<rparr>\<rparr>
   in validate c = None \<and> upload_deadline (denying_env\<lparr>ae_stat := (\<lambda>_ _. Some 0)\<rparr>) (UploadSec c) 0 sample_task = Some (- 8446744073709551616)"
  by (simp add: Let_def) (intro conjI; code_simp)

section \<open>The contract of the executor\<close>

lemma row_states_attempt: "row_states (us_db (ag_up (snd (uploadWithTimeout e uc n a)))) = row_states (us_db (ag_up a))"
proof -
  have "row_states (us_db (snd (UploadFile e0 e1 cf (ag_up a)))) = row_states (us_db (ag_up a))" for e0 e1 cf
    by (rule row_states_UploadFile)
  then show ?thesis
    by (simp add: uploadWithTimeout_def singleAttemptUpload_def Let_def prod.case_eq_if split: option.split sum.split)
qed

lemma row_states_retry: "row_states (us_db (ag_up (snd (uploadWithAccessDeniedRetry e uc a)))) = row_states (us_db (ag_up a))"
proof -
  have l: "row_states (us_db (ag_up (snd (last_attempt e uc x)))) = row_states (us_db (ag_up x))" for x
    using row_states_attempt [of e uc 2 x] by (simp add: last_attempt_def prod.case_eq_if split: sum.split)
  have s: "row_states (us_db (ag_up (snd (second_attempt e uc x)))) = row_states (us_db (ag_up x))" for x
    using row_states_attempt [of e uc 1 "interleave e PNoted x"] l
    by (simp add: second_attempt_def Let_def prod.case_eq_if split: sum.split)
  show ?thesis
    using row_states_attempt [of e uc 0 a] s
    by (simp add: uploadWithAccessDeniedRetry_def prod.case_eq_if split: sum.split option.split)
qed

interpretation agent_up: uploader_contract "\<lambda>k. agent_upload msg (env k) (uc k) (creds k)" for msg env uc creds
proof
  fix k task d res task' d'
  assume "agent_upload msg (env k) (uc k) (creds k) task d = (res, task', d')"
  then show "row_states d' = row_states d"
    using row_states_retry [of "env k" "uc k" "\<lparr>ag_creds = creds k, ag_up = \<lparr>us_db = d, us_task = task, us_trace = []\<rparr>, ag_attempts = []\<rparr>"]
    by (auto simp: agent_upload_def Let_def prod.case_eq_if)
qed

text \<open>
  C32: draining the queue ends.  With the agent's own upload function, whatever the store, the file system,
  the database driver and the other goroutines answer at each task, a worker's drainQueue returns: every
  round takes one pending task off the queue and neither the upload nor its failure handling makes another
  one pending.\<close>

theorem agent_drainQueue_returns:
  assumes "\<And>i. w_upload (ws i) = agent_upload msg (env i) (uc i) (creds i)"
  shows "\<exists>r. drainQueue ws xc i x = Some r"
  by (rule agent_up.drainQueue_returns [OF assms])

theorem agent_drainQueue_returns_witness:
  "\<exists>r. drainQueue (\<lambda>_. (sample_world (\<lambda>_. None) (\<lambda>_. None))\<lparr>w_upload :=
     agent_upload (\<lambda>_. ''denied'') denying_env (UploadSec defaults) sample_creds\<rparr>) sample_cfg 0 sample_exec = Some r"
  by (rule agent_drainQueue_returns) simp

end
