(* ===== verification/Trollsift.thy ===== *)
theory Trollsift
  imports Config
begin

text \<open>
  Path templates (pkg/trollsift), shared by the agent and the control plane: patterns of literal text and
  \<open>{name:format}\<close> fields, parsing of a path into field values, composition of an object key and conversion to
  a glob.  Characters are code points.  The regular expression that \<^verbatim>\<open>Parse\<close> builds is kept as its syntax
  tree, matched with the preference order of Go's \<^verbatim>\<open>regexp\<close> (leftmost-first, lazy and greedy repetition).
  The layout language and the zone database of package \<^verbatim>\<open>time\<close> are the record \<open>time_lib\<close>.
\<close>

section \<open>Fields and segments\<close>

datatype fieldKind = kindStr | kindInt | kindTime

record fieldSpec =
  fs_name :: string
  fs_kind :: fieldKind
  fs_width :: nat
  fs_zeroPad :: bool
  fs_ldml :: string
  fs_tz :: string
  fs_rawTZ :: string

datatype segment = Literal string | Field fieldSpec

text \<open>An instant is a number of nanoseconds; parsing and formatting take a layout and a location.\<close>

record time_lib =
  LoadLocation :: "string \<Rightarrow> bool"
  ParseInLocation :: "string \<Rightarrow> string \<Rightarrow> string \<Rightarrow> int option"
  FormatIn :: "int \<Rightarrow> string \<Rightarrow> string \<Rightarrow> string"

record field_value =
  v_Raw :: string
  v_Str :: string
  v_IsStr :: bool
  v_Int :: int
  v_IsInt :: bool
  v_Time :: int
  v_IsTime :: bool

definition no_value :: field_value where
  "no_value = \<lparr>v_Raw = '''', v_Str = '''', v_IsStr = False, v_Int = 0, v_IsInt = False, v_Time = 0, v_IsTime = False\<rparr>"

definition S_value :: "string \<Rightarrow> field_value" where
  "S_value s = no_value\<lparr>v_Str := s, v_IsStr := True\<rparr>"

definition I_value :: "int \<Rightarrow> field_value" where
  "I_value n = no_value\<lparr>v_Int := n, v_IsInt := True\<rparr>"

definition T_value :: "int \<Rightarrow> field_value" where
  "T_value t = no_value\<lparr>v_Time := t, v_IsTime := True\<rparr>"

type_synonym fields = "string \<rightharpoonup> field_value"

datatype ts_error = UnbalancedClose | UnbalancedOpen | EmptyFieldName | EmptyTZ string | TZNotValid string
  | InvalidTimezone string string | EmptyLDML string | RegexError | NoMatch | ParseInt string string
  | ParseTime string string | MissingField string | ExpectsString string | ExpectsInt string | ExpectsTime string

section \<open>Strings\<close>

fun IndexByte :: "string \<Rightarrow> char \<Rightarrow> nat option" where
  "IndexByte [] c = None"
| "IndexByte (x # xs) c = (if x = c then Some 0 else map_option Suc (IndexByte xs c))"

definition HasPrefix :: "string \<Rightarrow> string \<Rightarrow> bool" where
  "HasPrefix s p \<longleftrightarrow> take (length p) s = p"

fun Index :: "string \<Rightarrow> string \<Rightarrow> nat option" where
  "Index [] p = (if p = [] then Some 0 else None)"
| "Index (x # xs) p = (if HasPrefix (x # xs) p then Some 0 else map_option Suc (Index xs p))"

definition is_digit :: "char \<Rightarrow> bool" where
  "is_digit c \<longleftrightarrow> digit_value c \<noteq> None"

definition digit_char :: "nat \<Rightarrow> char" where
  "digit_char n = char_of (48 + n)"

fun nat_digits :: "nat \<Rightarrow> string" where
  "nat_digits n = (if n < 10 then [digit_char n] else nat_digits (n div 10) @ [digit_char (n mod 10)])"

declare nat_digits.simps [simp del]

definition Itoa :: "int \<Rightarrow> string" where
  "Itoa n = (if n < 0 then CHR ''-'' # nat_digits (nat (- n)) else nat_digits (nat n))"

text \<open>\<^verbatim>\<open>fmt.Sprintf("%0*d", width, n)\<close>: zeros between the sign and the digits; \<^verbatim>\<open>fmt\<close> refuses a width over a million.\<close>

definition zero_padded :: "nat \<Rightarrow> int \<Rightarrow> string" where
  "zero_padded w n =
     (if 1000000 < int w then ''%!(BADWIDTH)'' @ Itoa n
      else if n < 0 then (let ds = nat_digits (nat (- n)) in CHR ''-'' # replicate (w - 1 - length ds) (CHR ''0'') @ ds)
      else (let ds = nat_digits (nat n) in replicate (w - length ds) (CHR ''0'') @ ds))"

section \<open>Field specifications\<close>

text \<open>The number in front of a format letter: the value of \<^verbatim>\<open>strconv.Atoi\<close> on digits, which saturates.\<close>

definition width_of :: "string \<Rightarrow> nat" where
  "width_of ds = (case digits_value 0 ds of Some n \<Rightarrow> nat (min n (2 ^ 63 - 1)) | None \<Rightarrow> 0)"

text \<open>\<^verbatim>\<open>^(\d+)X$\<close>: the digits in front of a final letter.\<close>

definition digits_then :: "char \<Rightarrow> string \<Rightarrow> string option" where
  "digits_then c spec =
     (if spec \<noteq> [] \<and> last spec = c \<and> butlast spec \<noteq> [] \<and> list_all is_digit (butlast spec)
      then Some (butlast spec) else None)"

definition re_int_zero_pad :: "string \<Rightarrow> string option" where
  "re_int_zero_pad spec = (case spec of [] \<Rightarrow> None | c # cs \<Rightarrow> if c = CHR ''0'' then digits_then (CHR ''d'') cs else None)"

definition new_spec :: "string \<Rightarrow> fieldSpec" where
  "new_spec name = \<lparr>fs_name = name, fs_kind = kindStr, fs_width = 0, fs_zeroPad = False, fs_ldml = '''', fs_tz = '''', fs_rawTZ = ''''\<rparr>"

definition typed_spec :: "time_lib \<Rightarrow> string \<Rightarrow> string \<Rightarrow> string \<Rightarrow> ts_error + fieldSpec" where
  "typed_spec lib name spec tzStr =
     (let untimed = (\<lambda>fs. if tzStr \<noteq> '''' then Inl (TZNotValid name) else Inr fs);
          fs = new_spec name
      in if spec = ''d'' then untimed (fs\<lparr>fs_kind := kindInt\<rparr>)
         else case re_int_zero_pad spec of
           Some ds \<Rightarrow> untimed (fs\<lparr>fs_kind := kindInt, fs_width := width_of ds, fs_zeroPad := True\<rparr>)
         | None \<Rightarrow>
             (case digits_then (CHR ''d'') spec of
                Some ds \<Rightarrow> untimed (fs\<lparr>fs_kind := kindInt, fs_width := width_of ds\<rparr>)
              | None \<Rightarrow>
                  if spec = '''' \<or> spec = ''s'' then untimed (fs\<lparr>fs_kind := kindStr\<rparr>)
                  else (case digits_then (CHR ''s'') spec of
                          Some ds \<Rightarrow> untimed (fs\<lparr>fs_kind := kindStr, fs_width := width_of ds\<rparr>)
                        | None \<Rightarrow>
                            if tzStr = '''' then Inr (fs\<lparr>fs_kind := kindTime, fs_ldml := spec, fs_tz := ''UTC''\<rparr>)
                            else if \<not> LoadLocation lib tzStr then Inl (InvalidTimezone tzStr name)
                            else Inr (fs\<lparr>fs_kind := kindTime, fs_ldml := spec, fs_tz := tzStr, fs_rawTZ := tzStr\<rparr>))))"

definition parseFieldSpec :: "time_lib \<Rightarrow> string \<Rightarrow> string \<Rightarrow> ts_error + fieldSpec" where
  "parseFieldSpec lib name spec =
     (if name = '''' then Inl EmptyFieldName
      else case Index spec ''|tz='' of
             Some idx \<Rightarrow>
               (let tzStr = drop (idx + 4) spec
                in if tzStr = '''' then Inl (EmptyTZ name) else typed_spec lib name (take idx spec) tzStr)
           | None \<Rightarrow> typed_spec lib name spec '''')"

definition fieldSpecString :: "fieldSpec \<Rightarrow> string" where
  "fieldSpecString fs =
     (case fs_kind fs of
        kindStr \<Rightarrow> if 0 < fs_width fs then nat_digits (fs_width fs) @ ''s'' else ''s''
      | kindInt \<Rightarrow>
          if 0 < fs_width fs then
            (if fs_zeroPad fs then ''0'' @ nat_digits (fs_width fs) @ ''d'' else nat_digits (fs_width fs) @ ''d'')
          else ''d''
      | kindTime \<Rightarrow> if fs_rawTZ fs \<noteq> '''' then fs_ldml fs @ ''|tz='' @ fs_rawTZ fs else fs_ldml fs)"

section \<open>Patterns\<close>

definition IsTrollsiftPattern :: "string \<Rightarrow> bool" where
  "IsTrollsiftPattern s \<longleftrightarrow> CHR ''{'' \<in> set s"

definition split_field :: "string \<Rightarrow> string \<times> string" where
  "split_field content =
     (case IndexByte content (CHR '':'') of
        Some idx \<Rightarrow> (take idx content, drop (idx + 1) content)
      | None \<Rightarrow> (content, ''''))"

lemma IndexByte_less: "IndexByte s c = Some i \<Longrightarrow> i < length s"
  by (induction s arbitrary: i) (auto split: if_splits)

text \<open>\<open>rest\<close> is the pattern from the loop's position on.\<close>

function parsePattern :: "time_lib \<Rightarrow> string \<Rightarrow> ts_error + segment list" where
  "parsePattern lib rest =
     (if rest = [] then Inr []
      else case (IndexByte rest (CHR ''{''), IndexByte rest (CHR ''}'')) of
             (None, None) \<Rightarrow> Inr [Literal rest]
           | (None, Some close) \<Rightarrow> Inl UnbalancedClose
           | (Some open, close) \<Rightarrow>
               if (case close of Some c \<Rightarrow> c < open | None \<Rightarrow> False) then Inl UnbalancedClose
               else
                 (let literal = (if 0 < open then [Literal (take open rest)] else []);
                      after = drop (open + 1) rest
                  in case IndexByte after (CHR ''}'') of
                       None \<Rightarrow> Inl UnbalancedOpen
                     | Some closeRel \<Rightarrow>
                         (let (name, spec) = split_field (take closeRel after)
                          in if name = '''' then Inl EmptyFieldName
                             else case parseFieldSpec lib name spec of
                                    Inl err \<Rightarrow> Inl err
                                  | Inr fs \<Rightarrow>
                                      (case parsePattern lib (drop (open + 1 + closeRel + 1) rest) of
                                         Inl err \<Rightarrow> Inl err
                                       | Inr segs \<Rightarrow> Inr (literal @ Field fs # segs)))))"
  by pat_completeness auto
termination
  by (relation "measure (\<lambda>(lib, rest). length rest)") auto

declare parsePattern.simps [simp del]

definition empty_ldml :: "segment \<Rightarrow> bool" where
  "empty_ldml seg = (case seg of Literal _ \<Rightarrow> False | Field fs \<Rightarrow> fs_kind fs = kindTime \<and> fs_ldml fs = '''')"

definition Validate :: "segment list \<Rightarrow> ts_error option" where
  "Validate segs =
     (case List.find empty_ldml segs of
        Some (Field fs) \<Rightarrow> Some (EmptyLDML (fs_name fs))
      | _ \<Rightarrow> None)"

definition New_parser :: "time_lib \<Rightarrow> string \<Rightarrow> ts_error + segment list" where
  "New_parser lib pattern =
     (case parsePattern lib pattern of
        Inl err \<Rightarrow> Inl err
      | Inr segs \<Rightarrow> (case Validate segs of Some err \<Rightarrow> Inl err | None \<Rightarrow> Inr segs))"

section \<open>LDML time formats\<close>

record ldmlEntry =
  le_sym :: string
  le_digits :: nat
  le_layout :: string
  le_globW :: nat

definition ldmlTable :: "ldmlEntry list" where
  "ldmlTable = map (\<lambda>(s, n, l, g). \<lparr>le_sym = s, le_digits = n, le_layout = l, le_globW = g\<rparr>)
     [(''yyyy'', 4, ''2006'', 4), (''MM'', 2, ''01'', 2), (''dd'', 2, ''02'', 2), (''HH'', 2, ''15'', 2),
      (''mm'', 2, ''04'', 2), (''ss'', 2, ''05'', 2), (''yy'', 2, ''06'', 2)]"

definition matchLDML :: "string \<Rightarrow> ldmlEntry option" where
  "matchLDML rest = List.find (\<lambda>e. HasPrefix rest (le_sym e)) ldmlTable"

lemma matchLDML_pos: "matchLDML rest = Some e \<Longrightarrow> 0 < length (le_sym e)"
  by (auto simp: matchLDML_def ldmlTable_def split: if_splits)

text \<open>The common scan of the three conversions: symbols and single characters, in order.\<close>

function ldml_scan :: "string \<Rightarrow> (ldmlEntry + char) list" where
  "ldml_scan [] = []"
| "ldml_scan (c # cs) =
     (case matchLDML (c # cs) of
        Some e \<Rightarrow> Inl e # ldml_scan (drop (length (le_sym e)) (c # cs))
      | None \<Rightarrow> Inr c # ldml_scan cs)"
  by pat_completeness auto
termination
  by (relation "measure length") (auto dest: matchLDML_pos)

definition ldmlToLayout :: "string \<Rightarrow> string" where
  "ldmlToLayout ldml = concat (map (case_sum le_layout (\<lambda>c. [c])) (ldml_scan ldml))"

definition ldmlToGlobStr :: "string \<Rightarrow> string" where
  "ldmlToGlobStr ldml = concat (map (case_sum (\<lambda>e. replicate (le_globW e) (CHR ''?'')) (\<lambda>c. [c])) (ldml_scan ldml))"

definition parseTimeField :: "time_lib \<Rightarrow> string \<Rightarrow> string \<Rightarrow> string \<Rightarrow> int option" where
  "parseTimeField lib ldml s loc = ParseInLocation lib (ldmlToLayout ldml) s loc"

definition formatTimeField :: "time_lib \<Rightarrow> int \<Rightarrow> string \<Rightarrow> string \<Rightarrow> string" where
  "formatTimeField lib t ldml loc = FormatIn lib t (ldmlToLayout ldml) loc"

section \<open>The regular expression\<close>

text \<open>\<open>Digits n\<close> is \<^verbatim>\<open>\d{n}\<close>, \<open>Quoted c\<close> an escaped character.\<close>

datatype rx_atom = Digits nat | Quoted char

datatype rx = RLit string | RAny nat | RLazy | RDigits nat | RGreedyDigits | RTime "rx_atom list"

definition ldmlToRegexStr :: "string \<Rightarrow> rx_atom list" where
  "ldmlToRegexStr ldml = map (case_sum (\<lambda>e. Digits (le_digits e)) Quoted) (ldml_scan ldml)"

definition field_rx :: "fieldSpec \<Rightarrow> rx" where
  "field_rx fs =
     (case fs_kind fs of
        kindStr \<Rightarrow> if 0 < fs_width fs then RAny (fs_width fs) else RLazy
      | kindInt \<Rightarrow> if 0 < fs_width fs then RDigits (fs_width fs) else RGreedyDigits
      | kindTime \<Rightarrow> RTime (ldmlToRegexStr (fs_ldml fs)))"

definition seg_rx :: "segment \<Rightarrow> rx" where
  "seg_rx seg = (case seg of Literal l \<Rightarrow> RLit l | Field fs \<Rightarrow> field_rx fs)"

definition seg_fields :: "segment list \<Rightarrow> fieldSpec list" where
  "seg_fields segs = List.map_filter (\<lambda>seg. case seg of Literal _ \<Rightarrow> None | Field fs \<Rightarrow> Some fs) segs"

definition buildParseRegex :: "segment list \<Rightarrow> rx list \<times> fieldSpec list" where
  "buildParseRegex segs = (map seg_rx segs, seg_fields segs)"

text \<open>\<^verbatim>\<open>regexp.Compile\<close> rejects a repeat count over 1000.\<close>

fun compiles :: "rx \<Rightarrow> bool" where
  "compiles (RAny n) \<longleftrightarrow> int n \<le> 1000"
| "compiles (RDigits n) \<longleftrightarrow> int n \<le> 1000"
| "compiles _ \<longleftrightarrow> True"

definition dot :: "char \<Rightarrow> bool" where
  "dot c \<longleftrightarrow> c \<noteq> CHR 0x0A"

text \<open>Splitting off exactly \<open>n\<close> characters that satisfy \<open>P\<close>.\<close>

definition exactly :: "(char \<Rightarrow> bool) \<Rightarrow> nat \<Rightarrow> string \<Rightarrow> (string \<times> string) option" where
  "exactly P n s = (if n \<le> length s \<and> list_all P (take n s) then Some (take n s, drop n s) else None)"

fun match_atoms :: "rx_atom list \<Rightarrow> string \<Rightarrow> (string \<times> string) option" where
  "match_atoms [] s = Some ([], s)"
| "match_atoms (a # as) s =
     (case (case a of Digits n \<Rightarrow> exactly is_digit n s | Quoted c \<Rightarrow> exactly (\<lambda>x. x = c) 1 s) of
        None \<Rightarrow> None
      | Some (p, s) \<Rightarrow> (case match_atoms as s of None \<Rightarrow> None | Some (q, s) \<Rightarrow> Some (p @ q, s)))"

text \<open>The ways a piece can match a prefix of \<open>s\<close>, preferred ones first.\<close>

definition candidates :: "rx \<Rightarrow> string \<Rightarrow> (string \<times> string) list" where
  "candidates p s =
     (case p of
        RLit l \<Rightarrow> if HasPrefix s l then [(l, drop (length l) s)] else []
      | RAny n \<Rightarrow> case_option [] (\<lambda>x. [x]) (exactly dot n s)
      | RDigits n \<Rightarrow> case_option [] (\<lambda>x. [x]) (exactly is_digit n s)
      | RTime as \<Rightarrow> case_option [] (\<lambda>x. [x]) (match_atoms as s)
      | RLazy \<Rightarrow> map (\<lambda>k. (take k s, drop k s)) [1..<Suc (length (takeWhile dot s))]
      | RGreedyDigits \<Rightarrow> map (\<lambda>k. (take k s, drop k s)) (rev [1..<Suc (length (takeWhile is_digit s))]))"

fun first_some :: "('a \<Rightarrow> 'b option) \<Rightarrow> 'a list \<Rightarrow> 'b option" where
  "first_some f [] = None"
| "first_some f (x # xs) = (case f x of Some y \<Rightarrow> Some y | None \<Rightarrow> first_some f xs)"

fun captures :: "rx \<Rightarrow> bool" where
  "captures (RLit _) = False"
| "captures _ = True"

text \<open>\<^verbatim>\<open>FindStringSubmatch\<close> of the anchored expression: the captured groups of the preferred match.\<close>

primrec FindStringSubmatch :: "rx list \<Rightarrow> string \<Rightarrow> string list option" where
  "FindStringSubmatch [] s = (if s = [] then Some [] else None)"
| "FindStringSubmatch (p # ps) s =
     first_some (\<lambda>(cap, rest). map_option (\<lambda>caps. if captures p then cap # caps else caps) (FindStringSubmatch ps rest))
       (candidates p s)"

section \<open>Parsing and composing\<close>

definition field_of_capture :: "time_lib \<Rightarrow> fieldSpec \<Rightarrow> string \<Rightarrow> ts_error + field_value" where
  "field_of_capture lib fs captured =
     (case fs_kind fs of
        kindStr \<Rightarrow> Inr (no_value\<lparr>v_Raw := captured, v_Str := captured, v_IsStr := True\<rparr>)
      | kindInt \<Rightarrow>
          (case Atoi (TrimSpace captured) of
             None \<Rightarrow> Inl (ParseInt (fs_name fs) captured)
           | Some n \<Rightarrow> Inr (no_value\<lparr>v_Raw := captured, v_Int := n, v_IsInt := True\<rparr>))
      | kindTime \<Rightarrow>
          (case parseTimeField lib (fs_ldml fs) captured (fs_tz fs) of
             None \<Rightarrow> Inl (ParseTime (fs_name fs) captured)
           | Some t \<Rightarrow> Inr (no_value\<lparr>v_Raw := captured, v_Time := t, v_IsTime := True\<rparr>)))"

fun collect_fields :: "time_lib \<Rightarrow> fieldSpec list \<Rightarrow> string list \<Rightarrow> fields \<Rightarrow> ts_error + fields" where
  "collect_fields lib (fs # fss) (c # cs) result =
     (case field_of_capture lib fs c of
        Inl err \<Rightarrow> Inl err
      | Inr v \<Rightarrow> collect_fields lib fss cs (result(fs_name fs \<mapsto> v)))"
| "collect_fields lib _ _ result = Inr result"

definition Parse :: "time_lib \<Rightarrow> segment list \<Rightarrow> string \<Rightarrow> ts_error + fields" where
  "Parse lib segs s =
     (let (re, fss) = buildParseRegex segs
      in if \<not> list_all compiles re then Inl RegexError
         else case FindStringSubmatch re s of
                None \<Rightarrow> Inl NoMatch
              | Some caps \<Rightarrow> collect_fields lib fss caps Map.empty)"

definition formatValue :: "time_lib \<Rightarrow> field_value \<Rightarrow> fieldSpec \<Rightarrow> ts_error + string" where
  "formatValue lib v fs =
     (case fs_kind fs of
        kindStr \<Rightarrow> if \<not> v_IsStr v then Inl (ExpectsString (fs_name fs)) else Inr (v_Str v)
      | kindInt \<Rightarrow>
          if \<not> v_IsInt v then Inl (ExpectsInt (fs_name fs))
          else if 0 < fs_width fs then Inr (zero_padded (fs_width fs) (v_Int v))
          else Inr (Itoa (v_Int v))
      | kindTime \<Rightarrow>
          if \<not> v_IsTime v then Inl (ExpectsTime (fs_name fs))
          else Inr (formatTimeField lib (v_Time v) (fs_ldml fs) (fs_tz fs)))"

definition placeholder :: "fieldSpec \<Rightarrow> string" where
  "placeholder fs =
     ''{'' @ fs_name fs @
     (if fs_kind fs \<noteq> kindStr \<or> fs_width fs \<noteq> 0 then '':'' @ fieldSpecString fs else '''') @ ''}''"

definition compose_segment :: "time_lib \<Rightarrow> fields \<Rightarrow> bool \<Rightarrow> segment \<Rightarrow> ts_error + string" where
  "compose_segment lib vals allowPartial seg =
     (case seg of
        Literal l \<Rightarrow> Inr l
      | Field fs \<Rightarrow>
          (case vals (fs_name fs) of
             None \<Rightarrow> if allowPartial then Inr (placeholder fs) else Inl (MissingField (fs_name fs))
           | Some v \<Rightarrow> formatValue lib v fs))"

fun Compose :: "time_lib \<Rightarrow> segment list \<Rightarrow> fields \<Rightarrow> bool \<Rightarrow> ts_error + string" where
  "Compose lib [] vals allowPartial = Inr ''''"
| "Compose lib (seg # segs) vals allowPartial =
     (case compose_segment lib vals allowPartial seg of
        Inl err \<Rightarrow> Inl err
      | Inr s \<Rightarrow> (case Compose lib segs vals allowPartial of Inl err \<Rightarrow> Inl err | Inr t \<Rightarrow> Inr (s @ t)))"

definition glob_segment :: "segment \<Rightarrow> string" where
  "glob_segment seg =
     (case seg of
        Literal l \<Rightarrow> l
      | Field fs \<Rightarrow>
          if fs_kind fs = kindTime then ldmlToGlobStr (fs_ldml fs)
          else if 0 < fs_width fs then replicate (fs_width fs) (CHR ''?'') else ''*'')"

definition Globify :: "segment list \<Rightarrow> string" where
  "Globify segs = concat (map glob_segment segs)"

section \<open>Normalisation and reserved fields\<close>

definition NormalizeTemplate :: "string \<Rightarrow> string" where
  "NormalizeTemplate template = dropWhile (\<lambda>c. c = CHR ''/'') template"

definition NormalizeObjectKey :: "string \<Rightarrow> string" where
  "NormalizeObjectKey key = dropWhile (\<lambda>c. c = CHR ''/'') key"

record AgentContext =
  AgentName :: string
  AgentID :: string

definition inject_absent :: "string \<Rightarrow> field_value \<Rightarrow> fields \<Rightarrow> fields" where
  "inject_absent k v vals = (case vals k of None \<Rightarrow> vals(k \<mapsto> v) | Some _ \<Rightarrow> vals)"

definition InjectContext :: "AgentContext \<Rightarrow> fields \<Rightarrow> fields" where
  "InjectContext ctx vals =
     (let vals = (if AgentName ctx \<noteq> '''' then inject_absent ''agent_name'' (S_value (AgentName ctx)) vals else vals)
      in if AgentID ctx \<noteq> '''' then inject_absent ''agent_id'' (S_value (AgentID ctx)) vals else vals)"

definition SubmitTimeField :: string where
  "SubmitTimeField = ''submit_time''"

definition DeprecatedTimeField :: string where
  "DeprecatedTimeField = ''time''"

definition InjectSubmitTime :: "fields \<Rightarrow> int \<Rightarrow> fields" where
  "InjectSubmitTime vals at =
     (case (vals SubmitTimeField, vals DeprecatedTimeField) of
        (Some _, Some _) \<Rightarrow> vals
      | (Some parsedSubmit, None) \<Rightarrow> vals(DeprecatedTimeField \<mapsto> parsedSubmit)
      | (None, Some parsedLegacy) \<Rightarrow> vals(SubmitTimeField \<mapsto> parsedLegacy)
      | (None, None) \<Rightarrow> vals(SubmitTimeField \<mapsto> T_value at, DeprecatedTimeField \<mapsto> T_value at))"

text \<open>\<^verbatim>\<open>deprecatedTimeRe\<close> and \<^verbatim>\<open>bareReservedTimeRe\<close> search for fixed texts.\<close>

definition UsesDeprecatedTimeField :: "string \<Rightarrow> bool" where
  "UsesDeprecatedTimeField template \<longleftrightarrow> Index template ''{time:'' \<noteq> None \<or> Index template ''{time}'' \<noteq> None"

definition UsesBareReservedTimeField :: "string \<Rightarrow> bool" where
  "UsesBareReservedTimeField template \<longleftrightarrow> Index template ''{submit_time}'' \<noteq> None \<or> Index template ''{time}'' \<noteq> None"

text \<open>The reserved word that is misused, if any; the reason text of the source names it.\<close>

definition ValidateReservedTimeUse :: "time_lib \<Rightarrow> string \<Rightarrow> string option" where
  "ValidateReservedTimeUse lib pattern =
     (case New_parser lib pattern of
        Inl err \<Rightarrow> None
      | Inr segs \<Rightarrow>
          map_option fs_name
            (List.find (\<lambda>fs. (fs_name fs = SubmitTimeField \<or> fs_name fs = DeprecatedTimeField) \<and> fs_kind fs \<noteq> kindTime)
               (seg_fields segs)))"

section \<open>Vocabulary of the properties\<close>

definition digit_val :: "char \<Rightarrow> nat" where
  "digit_val c = of_char c - 48"

definition digits_val :: "string \<Rightarrow> nat" where
  "digits_val ds = foldl (\<lambda>n c. 10 * n + digit_val c) 0 ds"

fun weave :: "segment list \<Rightarrow> string list \<Rightarrow> string" where
  "weave (Literal l # segs) caps = l @ weave segs caps"
| "weave (Field fs # segs) (c # caps) = c @ weave segs caps"
| "weave _ _ = ''''"

text \<open>The shape of the text a field captures.\<close>

definition captured_by :: "fieldSpec \<Rightarrow> string \<Rightarrow> bool" where
  "captured_by fs c \<longleftrightarrow> (fs_kind fs = kindInt \<longrightarrow> c \<noteq> [] \<and> list_all is_digit c \<and> (0 < fs_width fs \<longrightarrow> length c = fs_width fs))"

definition plain_int :: "fieldSpec \<Rightarrow> field_value \<Rightarrow> bool" where
  "plain_int fs v \<longleftrightarrow>
     (fs_kind fs = kindInt \<and> fs_width fs = 0 \<longrightarrow> length (v_Raw v) = 1 \<or> hd (v_Raw v) \<noteq> CHR ''0'')"

text \<open>Formatting a parsed time in the same layout and zone gives its text back (true of every layout of
  fixed-width numbers in a zone without clock changes).\<close>

definition exact_time :: "time_lib \<Rightarrow> fieldSpec \<Rightarrow> bool" where
  "exact_time lib fs \<longleftrightarrow>
     (fs_kind fs = kindTime \<longrightarrow>
       (\<forall>c t. ParseInLocation lib (ldmlToLayout (fs_ldml fs)) c (fs_tz fs) = Some t \<longrightarrow>
          FormatIn lib t (ldmlToLayout (fs_ldml fs)) (fs_tz fs) = c))"

text \<open>A time library for the witness: a two-digit year is its own digits.\<close>

definition digit_time :: time_lib where
  "digit_time = \<lparr>LoadLocation = (\<lambda>_. True),
     ParseInLocation = (\<lambda>_ c _. if length c = 2 \<and> list_all is_digit c then Some (int (digits_val c)) else None),
     FormatIn = (\<lambda>t _ _. zero_padded 2 t)\<rparr>"

definition sample_pattern :: string where
  "sample_pattern = ''{s}_{n:2d}{y:yy}''"

end
