(* ===== verification/Collect.thy ===== *)
theory Collect
  imports Trollsift Executor
begin

text \<open>
  Collection rules on the agent (agent/cmd/agent/main.go, agent/internal/scheduler): which rules run, which
  files they pick up and under which object key.  The state holds the rule handles, the watcher goroutines
  with their contexts, the scheduler's entries and the jobs registered with cron.  Third-party code enters
  as parameters: glob matching (doublestar) and cron expressions (robfig/cron); so do the directory walk
  and JSON.  Paths are those of a Unix system.
\<close>

section \<open>File paths (package filepath)\<close>

fun split_on :: "char \<Rightarrow> string \<Rightarrow> string list" where
  "split_on sep [] = [[]]"
| "split_on sep (c # cs) =
     (if c = sep then [] # split_on sep cs
      else (case split_on sep cs of [] \<Rightarrow> [[c]] | w # ws \<Rightarrow> (c # w) # ws))"

fun join_with :: "char \<Rightarrow> string list \<Rightarrow> string" where
  "join_with sep [] = []"
| "join_with sep [w] = w"
| "join_with sep (w # v # ws) = w @ sep # join_with sep (v # ws)"

definition is_rooted :: "string \<Rightarrow> bool" where
  "is_rooted p \<longleftrightarrow> p \<noteq> [] \<and> hd p = CHR ''/''"

text \<open>The elements of a cleaned path; \<open>st\<close> holds those kept so far, innermost first.\<close>

fun clean_elems :: "bool \<Rightarrow> string list \<Rightarrow> string list \<Rightarrow> string list" where
  "clean_elems rooted [] st = rev st"
| "clean_elems rooted (w # ws) st =
     (if w = [] \<or> w = ''.'' then clean_elems rooted ws st
      else if w = ''..'' then
        (case st of
           [] \<Rightarrow> clean_elems rooted ws (if rooted then [] else [w])
         | v # vs \<Rightarrow> clean_elems rooted ws (if v = ''..'' then w # st else vs))
      else clean_elems rooted ws (w # st))"

definition Clean :: "string \<Rightarrow> string" where
  "Clean p =
     (let es = clean_elems (is_rooted p) (split_on (CHR ''/'') p) []
      in if is_rooted p then CHR ''/'' # join_with (CHR ''/'') es
         else if es = [] then ''.'' else join_with (CHR ''/'') es)"

text \<open>The elements \<^verbatim>\<open>filepath.Rel\<close> walks over, and what is left after the common prefix.\<close>

definition path_elems :: "string \<Rightarrow> string list" where
  "path_elems p = (let q = (if is_rooted p then drop 1 p else p) in if q = [] then [] else split_on (CHR ''/'') q)"

fun strip_common :: "string list \<Rightarrow> string list \<Rightarrow> string list \<times> string list" where
  "strip_common (b # bs) (t # ts) = (if b = t then strip_common bs ts else (b # bs, t # ts))"
| "strip_common bs ts = (bs, ts)"

definition Rel :: "string \<Rightarrow> string \<Rightarrow> string option" where
  "Rel basepath targpath =
     (let base = Clean basepath; targ = Clean targpath
      in if targ = base then Some ''.''
         else
           (let base = (if base = ''.'' then '''' else base)
            in if is_rooted base \<noteq> is_rooted targ then None
               else
                 (let (bs, ts) = strip_common (path_elems base) (path_elems targ)
                  in if bs \<noteq> [] \<and> ts \<noteq> [] \<and> hd bs = ''..'' then None
                     else Some (join_with (CHR ''/'') (replicate (length bs) ''..'' @ ts)))))"

definition Base :: "string \<Rightarrow> string" where
  "Base p =
     (if p = '''' then ''.''
      else
        (let q = rev (dropWhile (\<lambda>c. c = CHR ''/'') (rev p))
         in if q = '''' then ''/'' else rev (takeWhile (\<lambda>c. c \<noteq> CHR ''/'') (rev q))))"

text \<open>The suffix from the last dot of the final element, the dot included.\<close>

definition Ext :: "string \<Rightarrow> string" where
  "Ext p =
     (let e = takeWhile (\<lambda>c. c \<noteq> CHR ''/'') (rev p); s = takeWhile (\<lambda>c. c \<noteq> CHR ''.'') e
      in if length s < length e then CHR ''.'' # rev s else '''')"

definition TrimPrefix :: "string \<Rightarrow> string \<Rightarrow> string" where
  "TrimPrefix s p = (if HasPrefix s p then drop (length p) s else s)"

section \<open>Scheduler\<close>

record collection_rule =
  RuleID :: string
  Name :: string
  Mode :: string
  BasePath :: string
  PathPattern :: string
  UploadBucket :: string
  DestPathTemplate :: string
  Recursive :: bool
  CronExpr :: string
  RunOnceOnStart :: bool
  AppendMode :: string
  Enabled :: bool

record civil_time =
  Year :: int
  Month :: int
  Day :: int
  Hour :: int
  Minute :: int

text \<open>\<^verbatim>\<open>strings.NewReplacer\<close>: at each position the first pair whose old text occurs there.\<close>

function replace_pairs :: "(string \<times> string) list \<Rightarrow> string \<Rightarrow> string" where
  "replace_pairs ps [] = []"
| "replace_pairs ps (c # cs) =
     (case List.find (\<lambda>(old, new). old \<noteq> [] \<and> HasPrefix (c # cs) old) ps of
        Some (old, new) \<Rightarrow> new @ replace_pairs ps (drop (length old - 1) cs)
      | None \<Rightarrow> c # replace_pairs ps cs)"
  by pat_completeness auto
termination
  by (relation "measure (\<lambda>(ps, s). length s)") auto

definition time_pairs :: "civil_time \<Rightarrow> (string \<times> string) list" where
  "time_pairs t =
     [(''{year}'', zero_padded 4 (Year t)), (''{month}'', zero_padded 2 (Month t)), (''{day}'', zero_padded 2 (Day t)),
      (''{hour}'', zero_padded 2 (Hour t)), (''{minute}'', zero_padded 2 (Minute t)), (''{yyyy}'', zero_padded 4 (Year t)),
      (''{yy}'', zero_padded 2 (sgn (Year t) * (\<bar>Year t\<bar> mod 100))), (''{mm}'', zero_padded 2 (Month t)),
      (''{dd}'', zero_padded 2 (Day t)), (''{HH}'', zero_padded 2 (Hour t)), (''{MM}'', zero_padded 2 (Minute t))]"

definition ResolvePathWithFile :: "string \<Rightarrow> civil_time \<Rightarrow> string \<Rightarrow> string" where
  "ResolvePathWithFile template t filename =
     replace_pairs (time_pairs t @ (if filename \<noteq> '''' then [(''{filename}'', filename)] else [])) template"

definition ResolvePath :: "string \<Rightarrow> civil_time \<Rightarrow> string" where
  "ResolvePath template t = ResolvePathWithFile template t ''''"

text \<open>
  The scheduler's entries by rule, the cron runner's jobs (entry, context of the callback, rule) and its last
  entry number.  Walks that a registration starts at once are recorded.
\<close>

record scheduler =
  sd_entries :: "string \<rightharpoonup> nat \<times> collection_rule"
  sd_jobs :: "(nat \<times> nat \<times> collection_rule) list"
  sd_last :: nat

datatype collect_event = Walk nat collection_rule string

text \<open>\<open>cron_ok\<close> says which expressions \<^verbatim>\<open>cron.AddFunc\<close> accepts; \<open>ctx\<close> is the context the callback runs in.\<close>

definition AddRule :: "(string \<Rightarrow> bool) \<Rightarrow> civil_time \<Rightarrow> nat \<Rightarrow> collection_rule \<Rightarrow> scheduler
    \<Rightarrow> bool \<times> collect_event list \<times> scheduler" where
  "AddRule cron_ok now ctx rule s =
     (if \<not> Enabled rule then (True, [], s)
      else
        (let walks = (if RunOnceOnStart rule then [Walk ctx rule (ResolvePath (BasePath rule) now)] else [])
         in if CronExpr rule = '''' then
              (True, walks, s\<lparr>sd_entries := (sd_entries s)(RuleID rule \<mapsto> (0, rule))\<rparr>)
            else if \<not> cron_ok (CronExpr rule) then (False, walks, s)
            else
              (let eid = Suc (sd_last s)
               in (True, walks, s\<lparr>sd_last := eid, sd_jobs := sd_jobs s @ [(eid, ctx, rule)],
                    sd_entries := (sd_entries s)(RuleID rule \<mapsto> (eid, rule))\<rparr>))))"

definition RemoveRule :: "string \<Rightarrow> scheduler \<Rightarrow> scheduler" where
  "RemoveRule ruleID s =
     (case sd_entries s ruleID of
        None \<Rightarrow> s
      | Some (eid, rule) \<Rightarrow>
          s\<lparr>sd_jobs := (if eid \<noteq> 0 then filter (\<lambda>(j, _). j \<noteq> eid) (sd_jobs s) else sd_jobs s),
            sd_entries := (sd_entries s)(ruleID := None)\<rparr>)"

section \<open>Rule life cycle\<close>

text \<open>
  \<open>ra_handles\<close> is the map \<^verbatim>\<open>ruleHandles\<close>: the context each rule was started with.  A context is live until
  its cancel function is called; a watcher goroutine ends when its context does.
\<close>

record rule_agent =
  ra_handles :: "string \<rightharpoonup> nat"
  ra_live :: "nat list"
  ra_next :: nat
  ra_watchers :: "(nat \<times> collection_rule) list"
  ra_sched :: scheduler
  ra_db :: db
  ra_trace :: "collect_event list"

record rule_env =
  re_cron_ok :: "string \<Rightarrow> bool"
  re_now :: civil_time
  re_unix :: int
  re_io :: "nat \<Rightarrow> io"
  re_json :: "collection_rule \<Rightarrow> string"

definition cancel :: "nat \<Rightarrow> rule_agent \<Rightarrow> rule_agent" where
  "cancel ctx a = a\<lparr>ra_live := filter (\<lambda>c. c \<noteq> ctx) (ra_live a)\<rparr>"

definition stopRule :: "string \<Rightarrow> rule_agent \<Rightarrow> rule_agent" where
  "stopRule ruleID a =
     (let a = a\<lparr>ra_sched := RemoveRule ruleID (ra_sched a)\<rparr>
      in case ra_handles a ruleID of
           None \<Rightarrow> a
         | Some ctx \<Rightarrow> (cancel ctx a)\<lparr>ra_handles := (ra_handles a)(ruleID := None)\<rparr>)"

text \<open>\<open>n\<close> numbers the call, so that each one has its own database faults.\<close>

definition persist_rule :: "rule_env \<Rightarrow> nat \<Rightarrow> collection_rule \<Rightarrow> rule_agent \<Rightarrow> rule_agent" where
  "persist_rule e n rule a =
     a\<lparr>ra_db := snd (UpsertRule (re_io e n) (re_unix e)
         \<lparr>ru_id = RuleID rule, ru_payload = re_json e rule, ru_updated_at = re_unix e\<rparr> (ra_db a))\<rparr>"

definition start_rule :: "rule_env \<Rightarrow> collection_rule \<Rightarrow> rule_agent \<Rightarrow> rule_agent" where
  "start_rule e rule a =
     (let ctx = ra_next a;
          a = a\<lparr>ra_next := Suc ctx, ra_live := ra_live a @ [ctx], ra_handles := (ra_handles a)(RuleID rule \<mapsto> ctx)\<rparr>
      in if Mode rule = ''watch'' then a\<lparr>ra_watchers := ra_watchers a @ [(ctx, rule)]\<rparr>
         else if Mode rule = ''cron'' then
           (let (ok, walks, s) = AddRule (re_cron_ok e) (re_now e) ctx rule (ra_sched a)
            in a\<lparr>ra_sched := s, ra_trace := ra_trace a @ walks\<rparr>)
         else (cancel ctx a)\<lparr>ra_handles := (ra_handles a)(RuleID rule := None)\<rparr>)"

definition applyRule :: "rule_env \<Rightarrow> nat \<Rightarrow> collection_rule \<Rightarrow> rule_agent \<Rightarrow> rule_agent" where
  "applyRule e n rule a =
     (let a = persist_rule e n rule (stopRule (RuleID rule) a)
      in if \<not> Enabled rule then a else start_rule e rule a)"

text \<open>\<open>held\<close> is the order in which Go ranges over the handles: some list of exactly the held rules.\<close>

definition stopRulesOutsideSync :: "string list \<Rightarrow> string list \<Rightarrow> rule_agent \<Rightarrow> rule_agent" where
  "stopRulesOutsideSync ruleIDs held a = fold stopRule (filter (\<lambda>r. r \<notin> set ruleIDs) held) a"

fun apply_rules :: "rule_env \<Rightarrow> nat \<Rightarrow> collection_rule list \<Rightarrow> rule_agent \<Rightarrow> rule_agent" where
  "apply_rules e n [] a = a"
| "apply_rules e n (r # rs) a = apply_rules e (Suc n) rs (applyRule e n r a)"

definition applyRulesSnapshot :: "rule_env \<Rightarrow> string list \<Rightarrow> collection_rule list \<Rightarrow> rule_agent \<Rightarrow> rule_agent" where
  "applyRulesSnapshot e held rules a = apply_rules e 0 rules (stopRulesOutsideSync (map RuleID rules) held a)"

section \<open>Object keys\<close>

definition injectUploadFields :: "fields \<Rightarrow> string \<Rightarrow> int \<Rightarrow> fields" where
  "injectUploadFields vals localPath now =
     InjectSubmitTime
       (inject_absent ''ext'' (S_value (TrimPrefix (Ext localPath) ''.''))
         (inject_absent ''filename'' (S_value (Base localPath)) vals)) now"

definition reservedTimeMisuse :: "time_lib \<Rightarrow> collection_rule \<Rightarrow> (string \<times> string) option" where
  "reservedTimeMisuse lib rule =
     (case ValidateReservedTimeUse lib (PathPattern rule) of
        Some reason \<Rightarrow> Some (''path_pattern'', reason)
      | None \<Rightarrow>
          (case ValidateReservedTimeUse lib (NormalizeTemplate (DestPathTemplate rule)) of
             Some reason \<Rightarrow> Some (''dest_path_template'', reason)
           | None \<Rightarrow> None))"

datatype key_error = ReservedTime string string | NotAPattern ts_error | Unresolvable ts_error | EmptyKey

definition parsed_fields :: "time_lib \<Rightarrow> string \<Rightarrow> string \<Rightarrow> fields" where
  "parsed_fields lib pattern relPath =
     (if IsTrollsiftPattern pattern then
        (case New_parser lib pattern of
           Inl err \<Rightarrow> Map.empty
         | Inr p \<Rightarrow> (case Parse lib p relPath of Inl err \<Rightarrow> Map.empty | Inr vals \<Rightarrow> vals))
      else Map.empty)"

definition buildStoragePath :: "time_lib \<Rightarrow> collection_rule \<Rightarrow> string \<Rightarrow> AgentContext \<Rightarrow> int \<Rightarrow> key_error + string" where
  "buildStoragePath lib rule localPath agentCtx now =
     (case reservedTimeMisuse lib rule of
        Some (subject, reason) \<Rightarrow> Inl (ReservedTime subject reason)
      | None \<Rightarrow>
          (let relPath = (case Rel (BasePath rule) localPath of Some r \<Rightarrow> r | None \<Rightarrow> Base localPath);
               vals = injectUploadFields (InjectContext agentCtx (parsed_fields lib (PathPattern rule) relPath)) localPath now
           in case New_parser lib (NormalizeTemplate (DestPathTemplate rule)) of
                Inl err \<Rightarrow> Inl (NotAPattern err)
              | Inr dest \<Rightarrow>
                  (case Compose lib dest vals False of
                     Inl err \<Rightarrow> Inl (Unresolvable err)
                   | Inr storagePath \<Rightarrow>
                       if storagePath = '''' then Inl EmptyKey else Inr (NormalizeObjectKey storagePath))))"

section \<open>Picking up files\<close>

text \<open>\<open>glob\<close> is \<^verbatim>\<open>doublestar.Match\<close>; None is an error.\<close>

definition matchGlob :: "time_lib \<Rightarrow> (string \<Rightarrow> string \<Rightarrow> bool option) \<Rightarrow> collection_rule \<Rightarrow> string \<Rightarrow> bool option" where
  "matchGlob lib glob rule absPath =
     (case Rel (BasePath rule) absPath of
        None \<Rightarrow> None
      | Some relPath \<Rightarrow>
          if IsTrollsiftPattern (PathPattern rule) then
            (case New_parser lib (PathPattern rule) of Inl err \<Rightarrow> None | Inr p \<Rightarrow> glob (Globify p) relPath)
          else glob (PathPattern rule) relPath)"

record submit_env =
  se_lib :: time_lib
  se_glob :: "string \<Rightarrow> string \<Rightarrow> bool option"
  se_ctx :: AgentContext
  se_now :: int
  se_world :: world
  se_cfg :: executor_cfg

record file_info =
  fi_path :: string
  fi_size :: int
  fi_mtime :: int
  fi_offset :: int

definition task_of :: "submit_env \<Rightarrow> collection_rule \<Rightarrow> file_info \<Rightarrow> string \<Rightarrow> upload_task" where
  "task_of e rule f storagePath =
     \<lparr>t_id = w_uuid (se_world e), t_rule_id = RuleID rule, t_local_path = fi_path f, t_storage_path = storagePath,
      t_bucket = UploadBucket rule, t_upload_id = '''', t_completed_parts = '''', t_parts_file_mtime = 0,
      t_parts_file_size = 0, t_file_size = fi_size f, t_file_mtime = fi_mtime f, t_sha256 = '''',
      t_status = StatusPending, t_retry_count = 0, t_next_retry_at = 0, t_last_error = '''', t_created_at = 0,
      t_updated_at = 0, t_file_offset = fi_offset f, t_append_mode = AppendMode rule\<rparr>"

definition submitFile :: "submit_env \<Rightarrow> collection_rule \<Rightarrow> file_info \<Rightarrow> exec \<Rightarrow> exec" where
  "submitFile e rule f x =
     (let found = (case IsProcessed (w_io (se_world e) SIsProcessed 0) (RuleID rule) (fi_path f) (fi_mtime f) (fi_size f) (x_db x) of
                     Inl err \<Rightarrow> False | Inr b \<Rightarrow> b)
      in if found then x
         else case buildStoragePath (se_lib e) rule (fi_path f) (se_ctx e) (se_now e) of
                Inl err \<Rightarrow> x
              | Inr storagePath \<Rightarrow> snd (Submit (se_world e) (se_cfg e) (task_of e rule f storagePath) x))"

text \<open>One file of a walk, or one watcher event that is not a removal.\<close>

definition pick_up :: "submit_env \<Rightarrow> collection_rule \<Rightarrow> file_info \<Rightarrow> exec \<Rightarrow> exec" where
  "pick_up e rule f x =
     (case matchGlob (se_lib e) (se_glob e) rule (fi_path f) of
        Some True \<Rightarrow> submitFile e rule f x
      | _ \<Rightarrow> x)"

text \<open>An entry of the directory walk: an error, a directory, or a file whose info may be unavailable.\<close>

datatype walk_entry = WalkError | WalkDir | WalkFile string "(int \<times> int) option"

fun walkAndSubmit :: "(nat \<Rightarrow> submit_env) \<Rightarrow> nat \<Rightarrow> collection_rule \<Rightarrow> walk_entry list \<Rightarrow> exec \<Rightarrow> exec" where
  "walkAndSubmit es n rule [] x = x"
| "walkAndSubmit es n rule (WalkFile path info # ws) x =
     walkAndSubmit es (Suc n) rule ws
       (case info of
          None \<Rightarrow> x
        | Some (sz, mtime) \<Rightarrow> pick_up (es n) rule \<lparr>fi_path = path, fi_size = sz, fi_mtime = mtime, fi_offset = 0\<rparr> x)"
| "walkAndSubmit es n rule (_ # ws) x = walkAndSubmit es (Suc n) rule ws x"

datatype file_op = OpCreate | OpWrite | OpRemove

definition handle_event :: "submit_env \<Rightarrow> collection_rule \<Rightarrow> file_op \<Rightarrow> file_info \<Rightarrow> exec \<Rightarrow> exec" where
  "handle_event e rule op f x = (if op = OpRemove then x else pick_up e rule f x)"

section \<open>Dry run\<close>

record dry_file =
  df_local_path :: string
  df_parsed :: "string \<rightharpoonup> string"
  df_upload_path :: string
  df_compose_error :: "ts_error option"

datatype dry_error = DryReserved string string | DryPattern ts_error

definition dry_run_file :: "time_lib \<Rightarrow> segment list option \<Rightarrow> collection_rule \<Rightarrow> AgentContext \<Rightarrow> int \<Rightarrow> string \<Rightarrow> string \<Rightarrow> dry_file" where
  "dry_run_file lib parser rule agentCtx now path relPath =
     (let parsed = (case parser of None \<Rightarrow> Map.empty | Some p \<Rightarrow> (case Parse lib p relPath of Inl err \<Rightarrow> Map.empty | Inr vals \<Rightarrow> vals));
          vals = injectUploadFields (InjectContext agentCtx parsed) path now;
          r = \<lparr>df_local_path = path, df_parsed = (\<lambda>k. map_option v_Raw (parsed k)), df_upload_path = '''', df_compose_error = None\<rparr>
      in case New_parser lib (NormalizeTemplate (DestPathTemplate rule)) of
           Inl err \<Rightarrow> r\<lparr>df_compose_error := Some err\<rparr>
         | Inr dest \<Rightarrow>
             (case Compose lib dest vals False of
                Inl err \<Rightarrow> r\<lparr>df_compose_error := Some err\<rparr>
              | Inr key \<Rightarrow> r\<lparr>df_upload_path := NormalizeObjectKey key\<rparr>))"

definition defaultDryRunLimit :: nat where
  "defaultDryRunLimit = 10"

fun dry_run_walk :: "submit_env \<Rightarrow> segment list option \<Rightarrow> string \<Rightarrow> collection_rule \<Rightarrow> nat \<Rightarrow> walk_entry list \<Rightarrow> dry_file list" where
  "dry_run_walk e parser globPat rule count [] = []"
| "dry_run_walk e parser globPat rule count (WalkFile path info # ws) =
     (if defaultDryRunLimit \<le> count then []
      else case Rel (BasePath rule) path of
             None \<Rightarrow> dry_run_walk e parser globPat rule count ws
           | Some relPath \<Rightarrow>
               if se_glob e globPat relPath \<noteq> Some True then dry_run_walk e parser globPat rule count ws
               else dry_run_file (se_lib e) parser rule (se_ctx e) (se_now e) path relPath
                      # dry_run_walk e parser globPat rule (Suc count) ws)"
| "dry_run_walk e parser globPat rule count (_ # ws) = dry_run_walk e parser globPat rule count ws"

definition handleDryRun :: "submit_env \<Rightarrow> collection_rule \<Rightarrow> walk_entry list \<Rightarrow> dry_error + dry_file list" where
  "handleDryRun e rule ws =
     (case reservedTimeMisuse (se_lib e) rule of
        Some (subject, reason) \<Rightarrow> Inl (DryReserved subject reason)
      | None \<Rightarrow>
          if IsTrollsiftPattern (PathPattern rule) then
            (case New_parser (se_lib e) (PathPattern rule) of
               Inl err \<Rightarrow> Inl (DryPattern err)
             | Inr p \<Rightarrow> Inr (dry_run_walk e (Some p) (Globify p) rule 0 ws))
          else Inr (dry_run_walk e None (PathPattern rule) rule 0 ws))"

section \<open>Vocabulary of the properties\<close>

text \<open>The collection processes of rule \<open>i\<close>: its watchers whose context is live and its cron jobs.\<close>

definition processes :: "rule_agent \<Rightarrow> string \<Rightarrow> collection_rule list" where
  "processes a i =
     map snd (filter (\<lambda>(c, r). c \<in> set (ra_live a) \<and> RuleID r = i) (ra_watchers a)) @
     map (snd \<circ> snd) (filter (\<lambda>(j, c, r). RuleID r = i) (sd_jobs (ra_sched a)))"

text \<open>A rule that collects files once it is applied; \<open>ok\<close> are the valid cron expressions.\<close>

definition runnable :: "(string \<Rightarrow> bool) \<Rightarrow> collection_rule \<Rightarrow> bool" where
  "runnable ok r \<longleftrightarrow>
     Enabled r \<and> (Mode r = ''watch'' \<or> Mode r = ''cron'' \<and> CronExpr r \<noteq> '''' \<and> ok (CronExpr r))"

text \<open>The specification: which rule should be running under each id.\<close>

type_synonym rule_set = "string \<rightharpoonup> collection_rule"

definition spec_apply :: "(string \<Rightarrow> bool) \<Rightarrow> collection_rule \<Rightarrow> rule_set \<Rightarrow> rule_set" where
  "spec_apply ok r m = m(RuleID r := (if runnable ok r then Some r else None))"

definition spec_snapshot :: "(string \<Rightarrow> bool) \<Rightarrow> collection_rule list \<Rightarrow> rule_set" where
  "spec_snapshot ok rules = fold (spec_apply ok) rules Map.empty"

definition initial_agent :: rule_agent where
  "initial_agent = \<lparr>ra_handles = Map.empty, ra_live = [], ra_next = 0, ra_watchers = [],
     ra_sched = \<lparr>sd_entries = Map.empty, sd_jobs = [], sd_last = 0\<rparr>, ra_db = empty_db, ra_trace = []\<rparr>"

text \<open>The agent under the messages of the control plane, next to the specification.\<close>

inductive rules_reach :: "(string \<Rightarrow> bool) \<Rightarrow> rule_agent \<Rightarrow> rule_set \<Rightarrow> bool" for ok where
  start: "rules_reach ok initial_agent Map.empty"
| push: "rules_reach ok a m \<Longrightarrow> re_cron_ok e = ok \<Longrightarrow> rules_reach ok (applyRule e n r a) (spec_apply ok r m)"
| cancelled: "rules_reach ok a m \<Longrightarrow> rules_reach ok (stopRule i a) (m(i := None))"
| sync: "rules_reach ok a m \<Longrightarrow> re_cron_ok e = ok \<Longrightarrow> set held = dom (ra_handles a) \<Longrightarrow>
    rules_reach ok (applyRulesSnapshot e held rules a) (spec_snapshot ok rules)"

text \<open>What the handles, contexts, watchers and jobs have to do with each other.\<close>

definition rules_inv :: "rule_agent \<Rightarrow> bool" where
  "rules_inv a \<longleftrightarrow>
     (\<forall>i c. ra_handles a i = Some c \<longrightarrow> c \<in> set (ra_live a)) \<and> (\<forall>c\<in>set (ra_live a). c < ra_next a) \<and>
     (\<forall>i j c. ra_handles a i = Some c \<and> ra_handles a j = Some c \<longrightarrow> i = j) \<and>
     (\<forall>(c, r)\<in>set (ra_watchers a). c < ra_next a \<and> (c \<in> set (ra_live a) \<longrightarrow> ra_handles a (RuleID r) = Some c)) \<and>
     (\<forall>(j, c, r)\<in>set (sd_jobs (ra_sched a)). sd_entries (ra_sched a) (RuleID r) = Some (j, r) \<and> j \<noteq> 0 \<and>
        ra_handles a (RuleID r) = Some c) \<and>
     (\<forall>i j r. sd_entries (ra_sched a) i = Some (j, r) \<longrightarrow> j \<le> sd_last (ra_sched a)) \<and>
     (\<forall>i i' j r r'. sd_entries (ra_sched a) i = Some (j, r) \<and> sd_entries (ra_sched a) i' = Some (j, r') \<and> j \<noteq> 0 \<longrightarrow> i = i')"

definition runs :: "rule_agent \<Rightarrow> rule_set \<Rightarrow> bool" where
  "runs a m \<longleftrightarrow> rules_inv a \<and> (\<forall>i. processes a i = (case m i of None \<Rightarrow> [] | Some r \<Rightarrow> [r]))"

text \<open>A fresh context for a rule that has no process.\<close>

definition with_context :: "collection_rule \<Rightarrow> rule_agent \<Rightarrow> rule_agent" where
  "with_context r a = a\<lparr>ra_next := Suc (ra_next a), ra_live := ra_live a @ [ra_next a],
     ra_handles := (ra_handles a)(RuleID r \<mapsto> ra_next a)\<rparr>"

text \<open>The preview of one file next to what buildStoragePath says about it.\<close>

definition previews :: "dry_file \<Rightarrow> key_error + string \<Rightarrow> bool" where
  "previews f r \<longleftrightarrow>
     (case r of
        Inr key \<Rightarrow> df_compose_error f = None \<and> df_upload_path f = key
      | Inl (NotAPattern err) \<Rightarrow> df_compose_error f = Some err
      | Inl (Unresolvable err) \<Rightarrow> df_compose_error f = Some err
      | Inl EmptyKey \<Rightarrow> df_compose_error f = None \<and> df_upload_path f = ''''
      | Inl (ReservedTime _ _) \<Rightarrow> False)"

text \<open>Concrete rules for the witnesses.\<close>

definition sample_rule :: collection_rule where
  "sample_rule = \<lparr>RuleID = ''r1'', Name = '''', Mode = ''watch'', BasePath = ''/d'', PathPattern = ''{s}'', UploadBucket = ''raw'',
     DestPathTemplate = ''/in/{s}'', Recursive = False, CronExpr = '''', RunOnceOnStart = False, AppendMode = '''', Enabled = True\<rparr>"

definition sample_submit :: submit_env where
  "sample_submit = \<lparr>se_lib = digit_time, se_glob = (\<lambda>_ _. Some True), se_ctx = \<lparr>AgentName = ''a'', AgentID = ''1''\<rparr>,
     se_now = 0, se_world = sample_world (\<lambda>_. None) (\<lambda>_. None), se_cfg = sample_cfg\<rparr>"

definition sample_rule_env :: rule_env where
  "sample_rule_env = \<lparr>re_cron_ok = (\<lambda>_. True), re_now = \<lparr>Year = 2024, Month = 3, Day = 5, Hour = 9, Minute = 7\<rparr>, re_unix = 7,
     re_io = (\<lambda>_. no_fault), re_json = (\<lambda>_. ''{}'')\<rparr>"

end
