(* ===== verification/Rule_Laws.thy ===== *)
theory Rule_Laws
  imports Collect
begin

text \<open>
  The running rules refine the rule set the control plane sent, under every sequence of pushes,
  cancellations and snapshots.
\<close>

section \<open>Rules\<close>

lemma rules_invD:
  assumes "rules_inv a"
  shows "ra_handles a i = Some c \<Longrightarrow> c \<in> set (ra_live a)" "c \<in> set (ra_live a) \<Longrightarrow> c < ra_next a"
    "ra_handles a i = Some c \<Longrightarrow> ra_handles a k = Some c \<Longrightarrow> i = k"
    "(c, r) \<in> set (ra_watchers a) \<Longrightarrow> c < ra_next a"
    "(c, r) \<in> set (ra_watchers a) \<Longrightarrow> c \<in> set (ra_live a) \<Longrightarrow> ra_handles a (RuleID r) = Some c"
    "(j, c, r) \<in> set (sd_jobs (ra_sched a)) \<Longrightarrow> sd_entries (ra_sched a) (RuleID r) = Some (j, r)"
    "(j, c, r) \<in> set (sd_jobs (ra_sched a)) \<Longrightarrow> j \<noteq> 0"
    "(j, c, r) \<in> set (sd_jobs (ra_sched a)) \<Longrightarrow> ra_handles a (RuleID r) = Some c"
    "sd_entries (ra_sched a) i = Some (j, r) \<Longrightarrow> j \<le> sd_last (ra_sched a)"
    "sd_entries (ra_sched a) i = Some (j, r) \<Longrightarrow> sd_entries (ra_sched a) k = Some (j, r') \<Longrightarrow> j \<noteq> 0 \<Longrightarrow> i = k"
  using assms unfolding rules_inv_def by (blast+)

lemma rules_invI:
  assumes "\<And>i c. ra_handles a i = Some c \<Longrightarrow> c \<in> set (ra_live a)" "\<And>c. c \<in> set (ra_live a) \<Longrightarrow> c < ra_next a"
    "\<And>i k c. ra_handles a i = Some c \<Longrightarrow> ra_handles a k = Some c \<Longrightarrow> i = k"
    "\<And>c r. (c, r) \<in> set (ra_watchers a) \<Longrightarrow> c < ra_next a"
    "\<And>c r. (c, r) \<in> set (ra_watchers a) \<Longrightarrow> c \<in> set (ra_live a) \<Longrightarrow> ra_handles a (RuleID r) = Some c"
    "\<And>j c r. (j, c, r) \<in> set (sd_jobs (ra_sched a)) \<Longrightarrow> sd_entries (ra_sched a) (RuleID r) = Some (j, r) \<and> j \<noteq> 0"
    "\<And>j c r. (j, c, r) \<in> set (sd_jobs (ra_sched a)) \<Longrightarrow> ra_handles a (RuleID r) = Some c"
    "\<And>i j r. sd_entries (ra_sched a) i = Some (j, r) \<Longrightarrow> j \<le> sd_last (ra_sched a)"
    "\<And>i k j r r'. sd_entries (ra_sched a) i = Some (j, r) \<Longrightarrow> sd_entries (ra_sched a) k = Some (j, r') \<Longrightarrow> j \<noteq> 0 \<Longrightarrow> i = k"
  shows "rules_inv a"
  unfolding rules_inv_def by (intro conjI; use assms in fastforce)

lemma RemoveRule_jobs:
  assumes "rules_inv a"
  shows "sd_jobs (RemoveRule i (ra_sched a)) = filter (\<lambda>(j, c, r). RuleID r \<noteq> i) (sd_jobs (ra_sched a))"
proof (cases "sd_entries (ra_sched a) i")
  case None
  then have "\<forall>(j, c, r)\<in>set (sd_jobs (ra_sched a)). RuleID r \<noteq> i" using rules_invD(6) [OF assms] by fastforce
  then show ?thesis using None by (auto simp: RemoveRule_def intro!: filter_True [symmetric])
next
  case (Some p)
  obtain eid q where p: "p = (eid, q)" by fastforce
  have "(RuleID r \<noteq> i) = (eid = 0 \<or> j \<noteq> eid)" if job: "(j, c, r) \<in> set (sd_jobs (ra_sched a))" for j c r
  proof -
    have e: "sd_entries (ra_sched a) (RuleID r) = Some (j, r)" "j \<noteq> 0" using rules_invD(6,7) [OF assms job] by simp_all
    show ?thesis
    proof (cases "RuleID r = i")
      case False
      have "j \<noteq> eid" using rules_invD(10) [OF assms e(1)] e(2) Some p False by blast
      then show ?thesis using False by simp
    qed (use e Some p in auto)
  qed
  then have "filter (\<lambda>(j, c, r). RuleID r \<noteq> i) (sd_jobs (ra_sched a)) = filter (\<lambda>(j, _). eid = 0 \<or> j \<noteq> eid) (sd_jobs (ra_sched a))"
    by (intro filter_cong) auto
  then show ?thesis using Some p by (simp add: RemoveRule_def)
qed

lemma stopRule_eq:
  assumes "rules_inv a"
  shows "stopRule i a = a\<lparr>ra_handles := (ra_handles a)(i := None), ra_live := filter (\<lambda>c. ra_handles a i \<noteq> Some c) (ra_live a),
     ra_sched := (ra_sched a)\<lparr>sd_jobs := filter (\<lambda>(j, c, r). RuleID r \<noteq> i) (sd_jobs (ra_sched a)),
       sd_entries := (sd_entries (ra_sched a))(i := None)\<rparr>\<rparr>"
proof -
  have s: "RemoveRule i (ra_sched a) = (ra_sched a)\<lparr>sd_jobs := filter (\<lambda>(j, c, r). RuleID r \<noteq> i) (sd_jobs (ra_sched a)),
       sd_entries := (sd_entries (ra_sched a))(i := None)\<rparr>"
  proof -
    have "sd_entries (RemoveRule i (ra_sched a)) = (sd_entries (ra_sched a))(i := None)"
      "sd_last (RemoveRule i (ra_sched a)) = sd_last (ra_sched a)"
      by (auto simp: RemoveRule_def split: option.split)
    then show ?thesis using RemoveRule_jobs [OF assms, of i] by (intro scheduler.equality) simp_all
  qed
  show ?thesis
    by (cases "ra_handles a i") (auto simp: stopRule_def cancel_def Let_def s fun_upd_idem intro!: rule_agent.equality filter_cong)
qed

lemma stopRule_inv:
  assumes "rules_inv a" shows "rules_inv (stopRule i a)"
  unfolding stopRule_eq [OF assms]
  by (rule rules_invI) (use rules_invD [OF assms] in \<open>auto split: if_splits\<close>)

lemma stopRule_processes:
  assumes "rules_inv a"
  shows "processes (stopRule i a) k = (if k = i then [] else processes a k)"
proof -
  have w: "(c \<in> set (filter (\<lambda>c. ra_handles a i \<noteq> Some c) (ra_live a)) \<and> RuleID r = k) =
      (k \<noteq> i \<and> c \<in> set (ra_live a) \<and> RuleID r = k)" if "(c, r) \<in> set (ra_watchers a)" for c r
    using rules_invD(5) [OF assms that] rules_invD(3) [OF assms] by auto
  have watch: "filter (\<lambda>(c, r). c \<in> set (filter (\<lambda>c. ra_handles a i \<noteq> Some c) (ra_live a)) \<and> RuleID r = k) (ra_watchers a) =
      filter (\<lambda>(c, r). k \<noteq> i \<and> c \<in> set (ra_live a) \<and> RuleID r = k) (ra_watchers a)"
    by (rule filter_cong) (use w in auto)
  have jobs: "filter (\<lambda>(j, c, r). RuleID r = k) (filter (\<lambda>(j, c, r). RuleID r \<noteq> i) js) =
      filter (\<lambda>(j, c, r). k \<noteq> i \<and> RuleID r = k) js" for js :: "(nat \<times> nat \<times> collection_rule) list"
    by (induction js) auto
  show ?thesis
    unfolding stopRule_eq [OF assms] processes_def using watch jobs by (simp del: filter_filter)
qed

lemma runs_stop: "runs a m \<Longrightarrow> runs (stopRule i a) (m(i := None))"
  by (auto simp: runs_def stopRule_inv stopRule_processes)

lemma runs_persist: "runs a m \<Longrightarrow> runs (persist_rule e n r a) m"
  by (simp add: runs_def persist_rule_def rules_inv_def processes_def)

lemma AddRule_fields:
  assumes "AddRule ok now ctx r s = (b, walks, s')" and "Enabled r"
  shows "s' = s \<and> \<not> (CronExpr r \<noteq> '''' \<and> ok (CronExpr r)) \<or>
    CronExpr r = '''' \<and> s' = s\<lparr>sd_entries := (sd_entries s)(RuleID r \<mapsto> (0, r))\<rparr> \<or>
    CronExpr r \<noteq> '''' \<and> ok (CronExpr r) \<and>
    s' = s\<lparr>sd_last := Suc (sd_last s), sd_jobs := sd_jobs s @ [(Suc (sd_last s), ctx, r)],
      sd_entries := (sd_entries s)(RuleID r \<mapsto> (Suc (sd_last s), r))\<rparr>"
  using assms by (auto simp: AddRule_def Let_def split: if_splits)

lemma with_context_inv:
  assumes inv: "rules_inv a" and idle: "ra_handles a (RuleID r) = None" "sd_entries (ra_sched a) (RuleID r) = None"
  shows "rules_inv (with_context r a)"
proof -
  note D = rules_invD [OF inv]
  have fresh: "ra_handles a i \<noteq> Some (ra_next a)" for i using D(1,2) by blast
  have old: "RuleID q \<noteq> RuleID r" if "(j, c, q) \<in> set (sd_jobs (ra_sched a))" for j c q
    using D(6) [OF that] idle(2) by auto
  show ?thesis
    unfolding with_context_def
  proof (rule rules_invI, goal_cases)
    case (5 c q)
    then have "c < ra_next a" "c \<in> set (ra_live a)" using D(4) [of c q] by auto
    then show ?case using D(5) [of c q] 5 idle(1) by auto
  qed (use D fresh old in \<open>auto split: if_splits intro: less_SucI\<close>)
qed

lemma with_context_processes:
  assumes "rules_inv a"
  shows "processes (with_context r a) i = processes a i"
proof -
  have "filter (\<lambda>(c, q). c \<in> set (ra_live a @ [ra_next a]) \<and> RuleID q = i) (ra_watchers a) =
      filter (\<lambda>(c, q). c \<in> set (ra_live a) \<and> RuleID q = i) (ra_watchers a)"
    using rules_invD(4) [OF assms] by (intro filter_cong) auto
  then show ?thesis unfolding processes_def with_context_def by simp
qed

lemma start_rule_eq:
  "start_rule e r a =
     (let b = with_context r a in
      if Mode r = ''watch'' then b\<lparr>ra_watchers := ra_watchers b @ [(ra_next a, r)]\<rparr>
      else if Mode r = ''cron'' then
        (let (ok, walks, s) = AddRule (re_cron_ok e) (re_now e) (ra_next a) r (ra_sched b)
         in b\<lparr>ra_sched := s, ra_trace := ra_trace b @ walks\<rparr>)
      else (cancel (ra_next a) b)\<lparr>ra_handles := (ra_handles b)(RuleID r := None)\<rparr>)"
  by (simp add: start_rule_def with_context_def Let_def)

lemma runs_watch:
  assumes run: "runs a m" and idle: "ra_handles a (RuleID r) = None" "sd_entries (ra_sched a) (RuleID r) = None" "m (RuleID r) = None"
  shows "runs ((with_context r a)\<lparr>ra_watchers := ra_watchers (with_context r a) @ [(ra_next a, r)]\<rparr>) (m(RuleID r \<mapsto> r))"
    (is "runs ?b _")
proof -
  let ?c = "with_context r a"
  have inv: "rules_inv a" and p: "\<And>i. processes a i = (case m i of None \<Rightarrow> [] | Some r \<Rightarrow> [r])" using run by (simp_all add: runs_def)
  note D = rules_invD [OF with_context_inv [OF inv idle(1,2)]]
  have c: "ra_handles ?c (RuleID r) = Some (ra_next a)" "ra_next a < ra_next ?c" by (simp_all add: with_context_def)
  have "rules_inv ?b"
    by (rule rules_invI) (use D c in auto)
  moreover have "processes ?b i = (if i = RuleID r then processes ?c i @ [r] else processes ?c i)" for i
  proof -
    have j: "filter (\<lambda>(j, c, q). RuleID q = RuleID r) (sd_jobs (ra_sched a)) = []"
      using rules_invD(6) [OF inv] idle(2) by (fastforce simp: filter_empty_conv)
    show ?thesis by (auto simp: processes_def with_context_def j)
  qed
  ultimately show ?thesis using p idle(3) by (simp add: runs_def with_context_processes [OF inv])
qed

lemma runs_cron:
  assumes run: "runs a m" and idle: "ra_handles a (RuleID r) = None" "sd_entries (ra_sched a) (RuleID r) = None" "m (RuleID r) = None"
    and add: "AddRule ok now (ra_next a) r (ra_sched a) = (b, walks, s)" and en: "Enabled r"
  shows "runs ((with_context r a)\<lparr>ra_sched := s, ra_trace := tr\<rparr>)
     (m(RuleID r := (if CronExpr r \<noteq> '''' \<and> ok (CronExpr r) then Some r else None)))" (is "runs ?b _")
proof -
  let ?c = "with_context r a"
  have inv: "rules_inv a" and p: "\<And>i. processes a i = (case m i of None \<Rightarrow> [] | Some r \<Rightarrow> [r])" using run by (simp_all add: runs_def)
  have ci: "rules_inv ?c" by (rule with_context_inv [OF inv idle(1,2)])
  note D = rules_invD [OF ci]
  have sc: "ra_sched ?c = ra_sched a" "ra_handles ?c (RuleID r) = Some (ra_next a)" by (simp_all add: with_context_def)
  have old: "RuleID q \<noteq> RuleID r" if "(j, c, q) \<in> set (sd_jobs (ra_sched a))" for j c q
    using rules_invD(6) [OF inv that] idle(2) by auto
  have new: "sd_entries (ra_sched a) i \<noteq> Some (Suc (sd_last (ra_sched a)), q)" for i q
    using rules_invD(9) [OF inv, of i "Suc (sd_last (ra_sched a))" q] by auto
  consider "s = ra_sched a" "\<not> (CronExpr r \<noteq> '''' \<and> ok (CronExpr r))"
    | "CronExpr r = ''''" "s = (ra_sched a)\<lparr>sd_entries := (sd_entries (ra_sched a))(RuleID r \<mapsto> (0, r))\<rparr>"
    | "CronExpr r \<noteq> ''''" "ok (CronExpr r)" "s = (ra_sched a)\<lparr>sd_last := Suc (sd_last (ra_sched a)),
        sd_jobs := sd_jobs (ra_sched a) @ [(Suc (sd_last (ra_sched a)), ra_next a, r)],
        sd_entries := (sd_entries (ra_sched a))(RuleID r \<mapsto> (Suc (sd_last (ra_sched a)), r))\<rparr>"
    using AddRule_fields [OF add en] by blast
  then show ?thesis
  proof cases
    case 1
    have "rules_inv ?b" by (rule rules_invI) (use D 1 sc in auto)
    moreover have "processes ?b i = processes ?c i" for i by (simp add: processes_def 1 sc)
    ultimately show ?thesis using p idle(3) 1 by (auto simp: runs_def with_context_processes [OF inv])
  next
    case 2
    have "rules_inv ?b" by (rule rules_invI) (use D 2 sc old in \<open>auto split: if_splits\<close>)
    moreover have "processes ?b i = processes ?c i" for i by (simp add: processes_def 2 sc)
    ultimately show ?thesis using p idle(3) 2 by (auto simp: runs_def with_context_processes [OF inv])
  next
    case 3
    have "rules_inv ?b" by (rule rules_invI) (use D 3 sc old new in \<open>auto split: if_splits intro: le_SucI\<close>)
    moreover have "processes ?b i = (if i = RuleID r then processes ?c i @ [r] else processes ?c i)" for i
      by (simp add: processes_def 3 sc)
    ultimately show ?thesis using p idle(3) 3 by (auto simp: runs_def with_context_processes [OF inv])
  qed
qed

lemma runs_start:
  assumes run: "runs a m" and idle: "ra_handles a (RuleID r) = None" "sd_entries (ra_sched a) (RuleID r) = None" "m (RuleID r) = None"
    and en: "Enabled r"
  shows "runs (start_rule e r a) (spec_apply (re_cron_ok e) r m)"
proof -
  let ?c = "with_context r a"
  have inv: "rules_inv a" and p: "\<And>i. processes a i = (case m i of None \<Rightarrow> [] | Some r \<Rightarrow> [r])" using run by (simp_all add: runs_def)
  consider "Mode r = ''watch''" | "Mode r = ''cron''" | "Mode r \<noteq> ''watch''" "Mode r \<noteq> ''cron''" by blast
  then show ?thesis
  proof cases
    case 1
    then show ?thesis using runs_watch [OF run idle] en by (simp add: start_rule_eq spec_apply_def runnable_def Let_def)
  next
    case 2
    obtain b walks s where add: "AddRule (re_cron_ok e) (re_now e) (ra_next a) r (ra_sched a) = (b, walks, s)"
      by (cases "AddRule (re_cron_ok e) (re_now e) (ra_next a) r (ra_sched a)") auto
    have "ra_sched ?c = ra_sched a" by (simp add: with_context_def)
    then show ?thesis using runs_cron [OF run idle add en] 2 en add
      by (simp add: start_rule_eq spec_apply_def runnable_def Let_def)
  next
    case 3
    have "filter (\<lambda>x. x \<noteq> ra_next a) (ra_live a) = ra_live a" using rules_invD(2) [OF inv] by (intro filter_True) auto
    then have eq: "start_rule e r a = a\<lparr>ra_next := Suc (ra_next a)\<rparr>"
      using 3 idle(1) by (simp add: start_rule_eq with_context_def cancel_def Let_def fun_upd_idem)
    have "rules_inv (start_rule e r a)" unfolding eq by (rule rules_invI) (use rules_invD [OF inv] in \<open>auto intro: less_SucI\<close>)
    then show ?thesis using 3 p idle(3) by (simp add: runs_def spec_apply_def runnable_def eq processes_def fun_upd_idem)
  qed
qed

lemma runs_apply:
  assumes "runs a m"
  shows "runs (applyRule e n r a) (spec_apply (re_cron_ok e) r m)"
proof -
  let ?a = "persist_rule e n r (stopRule (RuleID r) a)"
  have inv: "rules_inv a" using assms by (simp add: runs_def)
  have s: "runs ?a (m(RuleID r := None))" by (rule runs_persist [OF runs_stop [OF assms]])
  have idle: "ra_handles ?a (RuleID r) = None" "sd_entries (ra_sched ?a) (RuleID r) = None"
    unfolding stopRule_eq [OF inv] by (simp_all add: persist_rule_def)
  show ?thesis
  proof (cases "Enabled r")
    case True
    then show ?thesis using runs_start [OF s idle _ True, of e] by (simp add: applyRule_def spec_apply_def)
  next
    case False
    then show ?thesis using s by (simp add: applyRule_def spec_apply_def runnable_def)
  qed
qed

section \<open>Snapshots\<close>

text \<open>
  The contract a rule engine gives: a simulation relation \<open>sim\<close> with the specified rule set that stopping and
  applying a rule keep.  What a snapshot does follows from it alone.
\<close>

locale rule_engine =
  fixes ok :: "string \<Rightarrow> bool"
    and sim :: "'s \<Rightarrow> rule_set \<Rightarrow> bool"
    and stop :: "string \<Rightarrow> 's \<Rightarrow> 's"
    and enter :: "nat \<Rightarrow> collection_rule \<Rightarrow> 's \<Rightarrow> 's"
  assumes stop_sim: "sim a m \<Longrightarrow> sim (stop i a) (m(i := None))"
    and enter_sim: "sim a m \<Longrightarrow> sim (enter n r a) (spec_apply ok r m)"
begin

lemma stop_all: "sim a m \<Longrightarrow> sim (fold stop ids a) (m |` (- set ids))"
proof (induction ids arbitrary: a m)
  case (Cons i ids)
  have eq: "m |` (- set (i # ids)) = (m(i := None)) |` (- set ids)" by (auto simp: restrict_map_def)
  show ?case unfolding eq fold_simps by (rule Cons.IH [OF stop_sim [OF Cons.prems]])
qed (simp add: restrict_map_def)

lemma enter_all: "sim a m \<Longrightarrow> sim (fold (\<lambda>(k, r). enter k r) (enumerate n rules) a) (fold (spec_apply ok) rules m)"
  by (induction rules arbitrary: n a m) (auto intro: enter_sim)

lemma snapshot:
  assumes "sim a m" and "dom m \<subseteq> set held"
  shows "sim (fold (\<lambda>(k, r). enter k r) (enumerate n rules) (fold stop (filter (\<lambda>i. i \<notin> set (map RuleID rules)) held) a))
    (spec_snapshot ok rules)"
proof -
  let ?m = "m |` (- set (filter (\<lambda>i. i \<notin> set (map RuleID rules)) held))"
  have agree: "fold (spec_apply ok) rs m1 i = fold (spec_apply ok) rs m2 i" if "i \<in> RuleID ` set rs \<or> m1 i = m2 i" for rs m1 m2 i
    using that by (induction rs arbitrary: m1 m2) (auto simp: spec_apply_def)
  have "i \<in> RuleID ` set rules \<or> ?m i = Map.empty i" for i
    using assms(2) by (auto simp: restrict_map_def)
  then have "fold (spec_apply ok) rules ?m = spec_snapshot ok rules"
    unfolding spec_snapshot_def by (intro ext agree)
  then show ?thesis using enter_all [OF stop_all [OF assms(1)]] by metis
qed

end

lemma apply_rules_fold: "apply_rules e n rules a = fold (\<lambda>(k, r). applyRule e k r) (enumerate n rules) a"
  by (induction rules arbitrary: n a) auto

interpretation rules: rule_engine "re_cron_ok e" runs stopRule "applyRule e" for e
  by unfold_locales (auto intro: runs_stop runs_apply)

lemma runs_held: "runs a m \<Longrightarrow> dom m \<subseteq> dom (ra_handles a)"
proof
  fix i assume run: "runs a m" and "i \<in> dom m"
  then obtain r where "processes a i = [r]" by (auto simp: runs_def)
  then have "r \<in> set (processes a i)" by simp
  then have "(\<exists>c. (c, r) \<in> set (ra_watchers a) \<and> c \<in> set (ra_live a) \<and> RuleID r = i) \<or>
      (\<exists>j c. (j, c, r) \<in> set (sd_jobs (ra_sched a)) \<and> RuleID r = i)"
    by (auto simp: processes_def)
  then show "i \<in> dom (ra_handles a)"
    using run rules_invD(5,8) [of a] by (fastforce simp: runs_def)
qed

lemma runs_snapshot:
  assumes "runs a m" and "set held = dom (ra_handles a)"
  shows "runs (applyRulesSnapshot e held rules a) (spec_snapshot (re_cron_ok e) rules)"
  unfolding applyRulesSnapshot_def stopRulesOutsideSync_def apply_rules_fold
  by (rule rules.snapshot [OF assms(1)]) (use runs_held [OF assms(1)] assms(2) in simp)

lemma runs_reach: "rules_reach ok a m \<Longrightarrow> runs a m"
proof (induction rule: rules_reach.induct)
  case start
  then show ?case by (auto simp: runs_def initial_agent_def processes_def intro!: rules_invI)
next
  case (cancelled a m i)
  then show ?case by (intro runs_stop)
qed (auto intro: runs_apply runs_snapshot)

text \<open>
  C31: the running rules are the ones the control plane asked for.  After any sequence of rule pushes,
  cancellations and snapshots, whatever database faults occur, each rule id has exactly one collection
  process (a watcher with a live context or a registered cron job) when the rule last sent for it is enabled
  and has a usable mode and schedule, running that version of the rule, and none otherwise; a rule missing
  from a snapshot has none.\<close>

theorem running_rules_refine_specification:
  assumes "rules_reach ok a m"
  shows "processes a i = (case m i of None \<Rightarrow> [] | Some r \<Rightarrow> [r])"
  using runs_reach [OF assms] by (simp add: runs_def)

theorem running_rules_refine_specification_witness:
  "processes (applyRulesSnapshot sample_rule_env [''r1''] [] (applyRule sample_rule_env 0 sample_rule initial_agent)) ''r1'' = [] \<and>
   processes (applyRule sample_rule_env 0 sample_rule initial_agent) ''r1'' = [sample_rule]"
proof -
  let ?ok = "re_cron_ok sample_rule_env"
  have one: "rules_reach ?ok (applyRule sample_rule_env 0 sample_rule initial_agent) (spec_apply ?ok sample_rule Map.empty)"
    by (rule rules_reach.push [OF rules_reach.start refl])
  have "ra_handles (applyRule sample_rule_env 0 sample_rule initial_agent) = [''r1'' \<mapsto> 0]"
    by (simp add: applyRule_def start_rule_def stopRule_def RemoveRule_def persist_rule_def initial_agent_def sample_rule_def)
  then have "set [''r1''] = dom (ra_handles (applyRule sample_rule_env 0 sample_rule initial_agent))" by simp
  from rules_reach.sync [OF one refl this, of "[]"]
  have two: "rules_reach ?ok (applyRulesSnapshot sample_rule_env [''r1''] [] (applyRule sample_rule_env 0 sample_rule initial_agent))
      (spec_snapshot ?ok [])" .
  show ?thesis
    using running_rules_refine_specification [OF one, of "''r1''"] running_rules_refine_specification [OF two, of "''r1''"]
    by (simp add: spec_snapshot_def spec_apply_def runnable_def sample_rule_def)
qed

end
