(* ===== verification/Trollsift_Laws.thy ===== *)
theory Trollsift_Laws
  imports Trollsift
begin

text \<open>
  Round trip of path templates: composing the values that were parsed out of a path gives the path back.
\<close>

section \<open>Decimal numbers\<close>

lemma is_digit_iff: "is_digit c \<longleftrightarrow> 48 \<le> (of_char c :: nat) \<and> (of_char c :: nat) \<le> 57"
  by (simp add: is_digit_def digit_value_def Let_def)

lemma digit_value_val: "is_digit c \<Longrightarrow> digit_value c = Some (int (digit_val c))"
  by (simp add: is_digit_iff digit_value_def digit_val_def Let_def of_nat_diff)

lemma digits_value_fold:
  "list_all is_digit ds \<Longrightarrow> digits_value (int acc) ds = Some (int (foldl (\<lambda>n c. 10 * n + digit_val c) acc ds))"
proof (induction ds arbitrary: acc)
  case (Cons c cs)
  then show ?case using Cons.IH [of "10 * acc + digit_val c"] by (simp add: digit_value_val)
qed simp

lemma digit_char_val: "is_digit c \<Longrightarrow> digit_char (digit_val c) = c"
  by (simp add: is_digit_iff digit_char_def digit_val_def)

lemma digit_val_less: "is_digit c \<Longrightarrow> digit_val c < 10"
  unfolding is_digit_iff digit_val_def by linarith

lemma digit_char_0: "digit_char 0 = CHR ''0''"
  by code_simp

lemma nat_digits_small: "n < 10 \<Longrightarrow> nat_digits n = [digit_char n]"
  by (simp add: nat_digits.simps)

lemma nat_digits_snoc: "0 < n \<Longrightarrow> d < 10 \<Longrightarrow> nat_digits (10 * n + d) = nat_digits n @ [digit_char d]"
  by (subst nat_digits.simps) simp

lemma nat_digits_pad:
  assumes "ds \<noteq> []" and "list_all is_digit ds"
  shows "length (nat_digits (digits_val ds)) \<le> length ds \<and>
    replicate (length ds - length (nat_digits (digits_val ds))) (CHR ''0'') @ nat_digits (digits_val ds) = ds"
  using assms
proof (induction ds rule: rev_induct)
  case (snoc c xs)
  have c: "digit_val c < 10" "digit_char (digit_val c) = c" using snoc.prems by (simp_all add: digit_val_less digit_char_val)
  have v: "digits_val (xs @ [c]) = 10 * digits_val xs + digit_val c" by (simp add: digits_val_def)
  show ?case
  proof (cases "xs = []")
    case True
    then show ?thesis using v c by (simp add: digits_val_def nat_digits_small)
  next
    case False
    then have IH: "length (nat_digits (digits_val xs)) \<le> length xs"
      "replicate (length xs - length (nat_digits (digits_val xs))) (CHR ''0'') @ nat_digits (digits_val xs) = xs"
      using snoc by simp_all
    show ?thesis
    proof (cases "digits_val xs = 0")
      case True
      have "xs = replicate (length xs - 1) (CHR ''0'') @ [CHR ''0'']"
        using IH(2) True by (simp add: nat_digits_small digit_char_0)
      then have "xs = replicate (length xs) (CHR ''0'')"
        using False by (metis One_nat_def Suc_pred length_greater_0_conv replicate_Suc replicate_append_same)
      moreover have "nat_digits (digits_val (xs @ [c])) = [c]" using v True c by (simp add: nat_digits_small)
      ultimately show ?thesis using False by simp
    next
      case pos: False
      have "nat_digits (digits_val (xs @ [c])) = nat_digits (digits_val xs) @ [c]"
        using v c pos by (simp add: nat_digits_snoc)
      then show ?thesis using IH by simp
    qed
  qed
qed simp

lemma Itoa_digits:
  assumes "ds \<noteq> []" "list_all is_digit ds" "length ds = 1 \<or> hd ds \<noteq> CHR ''0''"
  shows "Itoa (int (digits_val ds)) = ds"
proof -
  let ?n = "nat_digits (digits_val ds)"
  have p: "length ?n \<le> length ds" "replicate (length ds - length ?n) (CHR ''0'') @ ?n = ds"
    using nat_digits_pad [OF assms(1,2)] by simp_all
  have "?n \<noteq> []" by (subst nat_digits.simps) simp
  then have "length ds - length ?n = 0"
    using p assms(1,3) by (cases "length ds - length ?n") (force simp: length_Suc_conv, metis append_Cons diff_is_0_eq'
        le_neq_implies_less length_0_conv less_one list.sel(1) nat.simps(3) replicate_Suc)
  then show ?thesis using p(2) by (simp add: Itoa_def)
qed

lemma zero_padded_digits:
  assumes "list_all is_digit ds" "length ds = w" "0 < w" "w \<le> 1000"
  shows "zero_padded w (int (digits_val ds)) = ds"
  using nat_digits_pad [of ds] assms by (auto simp: zero_padded_def Let_def)

lemma digit_not_space: "is_digit c \<Longrightarrow> \<not> is_space c"
  by (simp add: is_digit_iff is_space_def Let_def)

lemma dropWhile_digits: "list_all is_digit ds \<Longrightarrow> dropWhile is_space ds = ds"
  by (cases ds) (auto simp: digit_not_space)

lemma TrimSpace_digits: "list_all is_digit ds \<Longrightarrow> TrimSpace ds = ds"
  by (simp add: TrimSpace_def dropWhile_digits)

lemma Atoi_digits:
  assumes "list_all is_digit ds" and "Atoi ds = Some n"
  shows "n = int (digits_val ds)"
proof -
  have sign: "\<not> is_digit (CHR ''-'')" "\<not> is_digit (CHR ''+'')" by (simp_all add: is_digit_iff)
  have "digits_value 0 ds = Some (int (digits_val ds))"
    using digits_value_fold [OF assms(1), of 0] by (simp add: digits_val_def)
  moreover have "hd ds \<noteq> CHR ''-''" "hd ds \<noteq> CHR ''+''" if "ds \<noteq> []"
    using that assms(1) sign by (cases ds; auto)+
  ultimately show ?thesis
    using assms by (cases ds) (auto simp: Atoi_def Let_def split: if_splits)
qed

section \<open>What a match says\<close>

text \<open>The text of a pattern with \<open>caps\<close> in the places of its fields.\<close>

lemma seg_fields_simps [simp]:
  "seg_fields [] = []" "seg_fields (Literal l # segs) = seg_fields segs" "seg_fields (Field fs # segs) = fs # seg_fields segs"
  by (simp_all add: seg_fields_def List.map_filter_def)

lemma first_some_Some: "first_some f xs = Some y \<Longrightarrow> \<exists>x\<in>set xs. f x = Some y"
  by (induction xs) (auto split: option.splits)

lemma exactly_split: "exactly P n s = Some (c, r) \<Longrightarrow> s = c @ r \<and> length c = n \<and> list_all P c"
  by (auto simp: exactly_def split: if_splits)

lemma exactly_nonempty: "exactly P n s = Some ([], r) \<Longrightarrow> n = 0"
  by (auto dest: exactly_split)

lemma match_atoms_split: "match_atoms as s = Some (c, r) \<Longrightarrow> s = c @ r"
  by (induction as arbitrary: s c r) (auto dest!: exactly_split split: option.splits rx_atom.splits)

lemma takeWhile_prefix: "k \<le> length (takeWhile P s) \<Longrightarrow> list_all P (take k s)"
  using nth_length_takeWhile takeWhile_nth set_takeWhileD
  by (metis (no_types, lifting) in_set_takeD list_all_iff min.absorb1 takeWhile_eq_take take_take)

lemma candidates_split: "(c, r) \<in> set (candidates p s) \<Longrightarrow> s = c @ r"
  by (cases p) (auto simp: candidates_def HasPrefix_def dest!: sym [of "Some _"] dest: exactly_split match_atoms_split
      split: if_splits option.splits,
      metis append_take_drop_id)

lemma candidates_captured: "(c, r) \<in> set (candidates (field_rx fs) s) \<Longrightarrow> captured_by fs c"
  using exactly_nonempty [of is_digit "fs_width fs" s r]
  by (auto simp: captured_by_def field_rx_def candidates_def dest!: sym [of "Some _"] dest: exactly_split exactly_nonempty
      split: if_splits option.splits intro!: takeWhile_prefix)

lemma match_weave:
  "FindStringSubmatch (map seg_rx segs) s = Some caps \<Longrightarrow>
   s = weave segs caps \<and> list_all2 captured_by (seg_fields segs) caps"
proof (induction segs arbitrary: s caps)
  case Nil
  then show ?case by (simp split: if_splits)
next
  case (Cons seg segs)
  let ?p = "seg_rx seg"
  obtain c r where cr: "(c, r) \<in> set (candidates ?p s)"
    "map_option (\<lambda>caps. if captures ?p then c # caps else caps) (FindStringSubmatch (map seg_rx segs) r) = Some caps"
    using Cons.prems by (auto dest!: first_some_Some)
  then obtain cs where cs: "FindStringSubmatch (map seg_rx segs) r = Some cs" "caps = (if captures ?p then c # cs else cs)" by auto
  have s: "s = c @ r" by (rule candidates_split [OF cr(1)])
  show ?case
  proof (cases seg)
    case (Literal l)
    then have "c = l" using cr(1) by (auto simp: seg_rx_def candidates_def split: if_splits)
    then show ?thesis using Cons.IH [OF cs(1)] cs(2) s Literal by (simp add: seg_rx_def)
  next
    case (Field fs)
    have "captures (field_rx fs)" by (simp add: field_rx_def split: fieldKind.split)
    then show ?thesis using Cons.IH [OF cs(1)] cs(2) s Field candidates_captured [of c r fs s] cr(1) by (simp add: seg_rx_def)
  qed
qed

lemma collect_fields_other:
  "collect_fields lib fss caps m = Inr vals \<Longrightarrow> k \<notin> set (map fs_name fss) \<Longrightarrow> vals k = m k"
  by (induction lib fss caps m rule: collect_fields.induct) (auto split: sum.splits)

lemma collect_fields_values:
  "collect_fields lib fss caps m = Inr vals \<Longrightarrow> distinct (map fs_name fss) \<Longrightarrow> length caps = length fss \<Longrightarrow>
   list_all2 (\<lambda>fs c. \<exists>v. field_of_capture lib fs c = Inr v \<and> vals (fs_name fs) = Some v) fss caps"
proof (induction fss arbitrary: caps m)
  case (Cons fs fss)
  obtain c cs where caps: "caps = c # cs" using Cons.prems(3) by (cases caps) auto
  obtain v where v: "field_of_capture lib fs c = Inr v" "collect_fields lib fss cs (m(fs_name fs \<mapsto> v)) = Inr vals"
    using Cons.prems(1) caps by (auto split: sum.splits)
  have "vals (fs_name fs) = Some v" using collect_fields_other [OF v(2), of "fs_name fs"] Cons.prems(2) by simp
  then show ?case using Cons.IH [OF v(2)] Cons.prems(2,3) caps v(1) by simp
qed simp

lemma Compose_weave:
  "list_all2 (\<lambda>fs c. \<exists>v. vals (fs_name fs) = Some v \<and> formatValue lib v fs = Inr c) (seg_fields segs) caps \<Longrightarrow>
   Compose lib segs vals partial = Inr (weave segs caps)"
proof (induction segs arbitrary: caps)
  case (Cons seg segs)
  show ?case
  proof (cases seg)
    case (Literal l)
    then show ?thesis using Cons by (simp add: compose_segment_def)
  next
    case (Field fs)
    then obtain c cs v where c: "caps = c # cs" "vals (fs_name fs) = Some v" "formatValue lib v fs = Inr c"
      "list_all2 (\<lambda>fs c. \<exists>v. vals (fs_name fs) = Some v \<and> formatValue lib v fs = Inr c) (seg_fields segs) cs"
      using Cons.prems by (auto simp: list_all2_Cons1)
    then show ?thesis using Cons.IH [OF c(4)] Field by (simp add: compose_segment_def)
  qed
qed simp

section \<open>Round trip\<close>

text \<open>The text of a variable-width integer is the one \<^verbatim>\<open>Itoa\<close> prints: no redundant leading zero.\<close>

lemma formatValue_capture:
  assumes "field_of_capture lib fs c = Inr v" "captured_by fs c" "plain_int fs v" "exact_time lib fs"
    "fs_kind fs = kindTime \<or> fs_width fs \<le> 1000"
  shows "formatValue lib v fs = Inr c"
proof (cases "fs_kind fs")
  case kindInt
  then have d: "list_all is_digit c" "c \<noteq> []" "0 < fs_width fs \<Longrightarrow> length c = fs_width fs"
    using assms(2) by (simp_all add: captured_by_def)
  obtain n where n: "Atoi c = Some n" "v = no_value\<lparr>v_Raw := c, v_Int := n, v_IsInt := True\<rparr>"
    using assms(1) kindInt by (auto simp: field_of_capture_def TrimSpace_digits [OF d(1)] split: option.splits)
  have "n = int (digits_val c)" by (rule Atoi_digits [OF d(1) n(1)])
  then show ?thesis
    using kindInt n(2) d assms(3,5) Itoa_digits [OF d(2,1)] zero_padded_digits [OF d(1)]
    by (auto simp: formatValue_def plain_int_def)
next
  case kindTime
  then show ?thesis using assms(1,4)
    by (auto simp: field_of_capture_def formatValue_def exact_time_def parseTimeField_def formatTimeField_def split: option.splits)
qed (use assms(1) in \<open>auto simp: field_of_capture_def formatValue_def\<close>)

lemma compiles_width: "list_all compiles (map seg_rx segs) \<Longrightarrow> fs \<in> set (seg_fields segs) \<Longrightarrow>
    fs_kind fs = kindTime \<or> fs_width fs \<le> 1000"
  by (induction segs) (auto simp: seg_rx_def field_rx_def split: segment.splits fieldKind.splits if_splits)



end
