(* ===== verification/Collect_Laws.thy ===== *)
theory Collect_Laws
  imports Collect Trollsift_Laws Executor_Laws
begin

text \<open>
  Object keys are composed from the rule or refused, and a dry run shows the key an upload would get.
\<close>

section \<open>Submitting files\<close>

lemma Submit_rows:
  assumes "unique_key t_id (upload_tasks (x_db x))" and "t_id task \<noteq> ''''"
  shows "set (upload_tasks (x_db (snd (Submit w xc task x)))) \<subseteq>
    set (upload_tasks (x_db x)) \<union> {inserted_row (prepareEnqueue (w_secs w SEnqueue 0 0) task)}"
proof -
  let ?row = "inserted_row (prepareEnqueue (w_secs w SEnqueue 0 0) task)"
  obtain r d where q: "EnqueueIfNoActive (w_io w SEnqueue 0) (w_secs w SEnqueue 0 0) task (x_db x) = (r, d)" by fastforce
  have d: "upload_tasks d = upload_tasks (x_db x) \<or>
      upload_tasks d = upload_tasks (x_db x) @ [?row] \<and> t_id ?row \<notin> t_id ` set (upload_tasks (x_db x))"
    using q by (auto simp: EnqueueIfNoActive_def insert_task_def Let_def stmt_def exists_where_def list_ex_iff split: option.splits if_splits)
  then have u: "unique_key t_id (upload_tasks (x_db (x\<lparr>x_db := d\<rparr>)))" using assms(1) by (auto simp: unique_key_def)
  have "set (upload_tasks (x_db (enforceCapacity w xc (t_id task) (x\<lparr>x_db := d\<rparr>)))) \<subseteq> set (upload_tasks d)"
    using trims_enforce [OF u, of "t_id task" w xc 0] by (simp add: enforceCapacity_def trims_def)
  then show ?thesis
    using d assms(2) by (auto simp: Submit_def q Let_def split: sum.split bool.split)
qed

lemma key_not_rooted:
  assumes "buildStoragePath lib rule path ctx now = Inr key"
  shows "key = '''' \<or> hd key \<noteq> CHR ''/''"
proof -
  obtain s where "key = NormalizeObjectKey s"
    using assms by (fastforce simp: buildStoragePath_def Let_def split: option.splits sum.splits if_splits)
  then show ?thesis using hd_dropWhile [of "\<lambda>c. c = CHR ''/''" s] by (auto simp: NormalizeObjectKey_def)
qed

text \<open>
  What submitting a file does.  A file version that is already processed, or whose object key cannot be
  resolved from its rule, leaves the executor as it is; otherwise the only row that can appear in the queue
  is a pending one for this file and rule with the resolved key, which has no leading separator, and the
  rule's bucket.\<close>

theorem submitFile_enqueues_only_resolved_keys:
  assumes "unique_key t_id (upload_tasks (x_db x))" and "w_uuid (se_world e) \<noteq> ''''"
    and "t \<in> set (upload_tasks (x_db (submitFile e rule f x)))" and "t \<notin> set (upload_tasks (x_db x))"
  shows "buildStoragePath (se_lib e) rule (fi_path f) (se_ctx e) (se_now e) = Inr (t_storage_path t) \<and>
    (t_storage_path t = '''' \<or> hd (t_storage_path t) \<noteq> CHR ''/'') \<and>
    t_bucket t = UploadBucket rule \<and> t_rule_id t = RuleID rule \<and> t_local_path t = fi_path f \<and> t_status t = StatusPending \<and>
    t_file_size t = fi_size f \<and> t_file_mtime t = fi_mtime f \<and> t_upload_id t = '''' \<and>
    IsProcessed (w_io (se_world e) SIsProcessed 0) (RuleID rule) (fi_path f) (fi_mtime f) (fi_size f) (x_db x) \<noteq> Inr True"
proof -
  let ?p = "IsProcessed (w_io (se_world e) SIsProcessed 0) (RuleID rule) (fi_path f) (fi_mtime f) (fi_size f) (x_db x)"
  have p: "?p \<noteq> Inr True" using assms(3,4) by (auto simp: submitFile_def)
  obtain key where k: "buildStoragePath (se_lib e) rule (fi_path f) (se_ctx e) (se_now e) = Inr key"
    using assms(3,4) by (cases "buildStoragePath (se_lib e) rule (fi_path f) (se_ctx e) (se_now e)")
      (auto simp: submitFile_def split: sum.splits)
  let ?row = "inserted_row (prepareEnqueue (w_secs (se_world e) SEnqueue 0 0) (task_of e rule f key))"
  have "submitFile e rule f x = snd (Submit (se_world e) (se_cfg e) (task_of e rule f key) x)"
    using p k by (auto simp: submitFile_def split: sum.splits)
  then have "t = ?row"
    using Submit_rows [OF assms(1), of "task_of e rule f key" "se_world e" "se_cfg e"] assms(2-4) by (auto simp: task_of_def)
  moreover have "key = '''' \<or> hd key \<noteq> CHR ''/''" by (rule key_not_rooted [OF k])
  ultimately show ?thesis using p k by (simp add: inserted_row_def prepareEnqueue_def task_of_def Let_def)
qed

theorem submitFile_enqueues_only_resolved_keys_witness:
  "\<exists>t\<in>set (upload_tasks (x_db (submitFile sample_submit sample_rule \<lparr>fi_path = ''/d/x'', fi_size = 1, fi_mtime = 2, fi_offset = 0\<rparr>
     (sample_exec\<lparr>x_db := empty_db\<rparr>)))). buildStoragePath digit_time sample_rule ''/d/x'' (se_ctx sample_submit) 0 = Inr (t_storage_path t)"
proof -
  let ?x = "sample_exec\<lparr>x_db := empty_db\<rparr>"
  let ?f = "\<lparr>fi_path = ''/d/x'', fi_size = 1, fi_mtime = 2, fi_offset = 0\<rparr>"
  let ?rows = "upload_tasks (x_db (submitFile sample_submit sample_rule ?f ?x))"
  have "length ?rows = 1" by code_simp
  then obtain t where t: "t \<in> set ?rows" by (cases ?rows) auto
  have "upload_tasks (x_db ?x) = []" by (simp add: empty_db_def)
  then show ?thesis
    using submitFile_enqueues_only_resolved_keys [of ?x sample_submit t sample_rule ?f] t
    by (auto simp: unique_key_def sample_submit_def sample_world_def)
qed

section \<open>Dry run\<close>

lemma dry_run_file_previews:
  assumes "reservedTimeMisuse lib rule = None" and "Rel (BasePath rule) path = Some rel"
    and "(case parser of None \<Rightarrow> Map.empty | Some p \<Rightarrow> case Parse lib p rel of Inl err \<Rightarrow> Map.empty | Inr vals \<Rightarrow> vals) =
      parsed_fields lib (PathPattern rule) rel"
  shows "previews (dry_run_file lib parser rule ctx now path rel) (buildStoragePath lib rule path ctx now)"
  unfolding dry_run_file_def buildStoragePath_def assms Let_def
  by (auto simp: assms previews_def NormalizeObjectKey_def split: sum.split)

lemma dry_run_file_path [simp]: "df_local_path (dry_run_file lib parser rule ctx now path rel) = path"
  by (simp add: dry_run_file_def Let_def split: sum.split)

lemma dry_run_walk_files:
  assumes res: "reservedTimeMisuse (se_lib e) rule = None"
    and parse: "\<And>rel. (case parser of None \<Rightarrow> Map.empty | Some p \<Rightarrow> case Parse (se_lib e) p rel of Inl err \<Rightarrow> Map.empty | Inr vals \<Rightarrow> vals) =
      parsed_fields (se_lib e) (PathPattern rule) rel"
    and glob: "\<And>path. matchGlob (se_lib e) (se_glob e) rule path = (case Rel (BasePath rule) path of None \<Rightarrow> None | Some rel \<Rightarrow> se_glob e pat rel)"
  shows "length (dry_run_walk e parser pat rule n ws) \<le> defaultDryRunLimit - n \<and>
    (\<forall>f\<in>set (dry_run_walk e parser pat rule n ws). matchGlob (se_lib e) (se_glob e) rule (df_local_path f) = Some True \<and>
      previews f (buildStoragePath (se_lib e) rule (df_local_path f) (se_ctx e) (se_now e)))"
proof (induction ws arbitrary: n)
  case (Cons w ws)
  show ?case
  proof (cases w)
    case (WalkFile path info)
    show ?thesis
    proof (cases "defaultDryRunLimit \<le> n")
      case False
      show ?thesis
      proof (cases "Rel (BasePath rule) path")
        case None
        then show ?thesis using Cons [of n] False WalkFile by simp
      next
        case (Some rel)
        have "previews (dry_run_file (se_lib e) parser rule (se_ctx e) (se_now e) path rel)
            (buildStoragePath (se_lib e) rule path (se_ctx e) (se_now e))"
          by (rule dry_run_file_previews [OF res Some parse])
        then show ?thesis
          using Cons [of n] Cons [of "Suc n"] False Some WalkFile by (auto simp: glob)
      qed
    qed (simp add: WalkFile)
  qed (use Cons [of n] in auto)
qed simp



section \<open>Two gaps\<close>

text \<open>
  Files are matched relative to the rule's base path as written, while a cron rule walks the directory its
  time variables resolve to: the relative path then leaves the base directory.
\<close>

theorem cron_walk_leaves_base:
  "Rel ''/d/{yyyy}'' (ResolvePath ''/d/{yyyy}'' \<lparr>Year = 2024, Month = 3, Day = 5, Hour = 9, Minute = 7\<rparr> @ ''/x.nc'') =
   Some ''../2024/x.nc''"
  by code_simp

text \<open>
  The check for an empty key comes before the leading separators are stripped, so a key that consists of
  separators passes it and becomes empty.
\<close>

theorem separator_key_becomes_empty:
  "buildStoragePath digit_time (sample_rule\<lparr>PathPattern := ''{a:1s}{s:1s}{b}'', DestPathTemplate := ''{s}''\<rparr>)
     ''/d/x/y'' \<lparr>AgentName = '''', AgentID = ''''\<rparr> 0 = Inr ''''"
  by code_simp

end
