(* ===== verification/Watcher.thy ===== *)
theory Watcher
  imports Collect "HOL-Library.AList"
begin

text \<open>
  The file watcher of the agent (agent/internal/watcher/watcher.go).  A running watcher is an event loop
  and the goroutines of its timers: debounce callbacks that flush a file once its writes went quiet, and
  one-shot rechecks.  They share the maps guarded by \<^verbatim>\<open>seenMu\<close> and the per-file entries guarded by
  \<^verbatim>\<open>p.mu\<close>.  Every locked section, every stat and every channel operation of the code is one step, so
  that the steps of different goroutines interleave in any order; the file system, the clock, the
  notifications and the consumer of the events channel belong to the environment and move in between.
  One Start is modelled, from its call to its return; times are milliseconds.
\<close>

section \<open>Data\<close>

record FileEvent =
  fe_path :: string
  fe_mtime :: int
  fe_size :: int
  fe_op :: file_op
  fe_offset :: int

record watcher_cfg =
  sourcePath :: string
  fileGlob :: string
  recursive :: bool
  pollInterval :: int
  appendMode :: string
  debounce :: int
  pendingSweepEvery :: int

record stat_info =
  st_mtime :: int
  st_size :: int
  st_dir :: bool

text \<open>An fsnotify event: a name and the bits of its operation.\<close>

record fs_event =
  fs_name :: string
  fs_create :: bool
  fs_write :: bool
  fs_remove :: bool
  fs_rename :: bool

record debouncePending =
  dp_timer :: nat
  dp_op :: file_op
  dp_gen :: nat
  dp_fired :: bool
  dp_cancel :: nat

datatype emitOutcome = emitDelivered | emitAborted | emitSuperseded

text \<open>Where a call of \<^verbatim>\<open>scanFile\<close> stands.\<close>

datatype scan_pc =
    ScanRead string stat_info
  | ScanClaim FileEvent
  | ScanSend FileEvent
  | ScanComplete FileEvent bool

text \<open>
  Where a timer goroutine stands.  The debounce callbacks carry the address of their entry and the
  generation they were armed for; an armed timer carries its deadline.
\<close>

datatype goroutine =
    DebounceArmed nat nat string int
  | DebounceFired nat nat string
  | FlushBuild nat nat string file_op nat
  | FlushQuiet nat nat FileEvent nat
  | FlushClaim nat nat FileEvent nat
  | FlushSend nat nat FileEvent nat
  | FlushPark nat nat FileEvent nat
  | FlushRecheck nat nat string "FileEvent option"
  | FlushRecheckArm nat nat string int "FileEvent option"
  | FlushComplete nat nat FileEvent bool
  | FlushReturn nat nat
  | RecheckArmed string nat int
  | RecheckFired string nat
  | RecheckStat string
  | RecheckQuiet string stat_info
  | RecheckScan scan_pc

text \<open>Where the goroutine that called \<^verbatim>\<open>Start\<close> stands; scans carry the rest of the walk and the skipped paths.\<close>

datatype loop_pc =
    Scanning "string list" "string list"
  | ScanningQuiet string stat_info "string list" "string list"
  | ScanningFile scan_pc "string list" "string list"
  | Rechecking "string list"
  | RecheckingArm string int "string list"
  | Waiting
  | SendingRemove FileEvent
  | SweepDue
  | Sweeping "string list"
  | SendingEvent FileEvent fs_event
  | SendingTailRemove FileEvent
  | Returning
  | Stopped

text \<open>
  The watcher with its surroundings.  \<open>w_entries\<close> is the heap of \<^verbatim>\<open>debouncePending\<close> values, \<open>w_pending\<close>
  points into it; \<open>w_closed\<close> holds the closed cancellation channels; \<open>w_next\<close> is the next fresh address,
  goroutine or channel.  \<open>w_sent\<close> is what the consumer received and when, \<open>w_abandoned\<close> the events whose
  send was given up.
\<close>

record watch =
  w_fs :: "string \<rightharpoonup> stat_info"
  w_now :: int
  w_done :: bool
  w_running :: bool
  w_polling :: bool
  w_seen :: "string \<rightharpoonup> int"
  w_inflight :: "string \<rightharpoonup> int"
  w_pending :: "(string \<times> nat) list"
  w_entries :: "nat \<Rightarrow> debouncePending"
  w_sweepTick :: int
  w_rechecks :: "(string \<times> nat) list"
  w_recheckGens :: "string \<rightharpoonup> nat"
  w_recheckGen :: nat
  w_rechecksStopped :: bool
  w_tailOffsets :: "string \<rightharpoonup> int"
  w_threads :: "nat \<rightharpoonup> goroutine"
  w_closed :: "nat list"
  w_next :: nat
  w_loop :: loop_pc
  w_sent :: "(FileEvent \<times> int) list"
  w_abandoned :: "FileEvent list"

section \<open>Configuration and matching\<close>

definition defaultDebounceWindow :: int where
  "defaultDebounceWindow = 500"

definition defaultPendingSweepEvery :: int where
  "defaultPendingSweepEvery = 64"

definition debounceRecheckGrace :: int where
  "debounceRecheckGrace = 100"

definition New_watcher :: "string \<Rightarrow> string \<Rightarrow> bool \<Rightarrow> int \<Rightarrow> string \<Rightarrow> watcher_cfg" where
  "New_watcher src glob rec poll mode =
     \<lparr>sourcePath = src, fileGlob = glob, recursive = rec, pollInterval = (if poll \<le> 0 then 30000 else poll),
      appendMode = mode, debounce = 0, pendingSweepEvery = 0\<rparr>"

definition debounceWindow :: "watcher_cfg \<Rightarrow> int" where
  "debounceWindow c = (if 0 < debounce c then debounce c else defaultDebounceWindow)"

definition debounceEnabled :: "watcher_cfg \<Rightarrow> bool" where
  "debounceEnabled c \<longleftrightarrow> appendMode c \<noteq> AppendModeTail"

definition sweepEvery :: "watcher_cfg \<Rightarrow> int" where
  "sweepEvery c = (if 0 < pendingSweepEvery c then pendingSweepEvery c else defaultPendingSweepEvery)"

text \<open>
  \<^verbatim>\<open>filepath.Match\<close> on Unix.  A malformed pattern gives an error in Go and no match here: the caller does
  not tell the two apart.  \<open>class_char\<close> reads one possibly escaped character of a class, \<open>match_class\<close> a
  class up to its bracket; \<open>fresh\<close> says that no range was read yet.
\<close>

fun class_char :: "string \<Rightarrow> (char \<times> string) option" where
  "class_char [] = None"
| "class_char (c # cs) =
     (if c = CHR ''-'' \<or> c = CHR '']'' then None
      else if c = CHR 0x5C then (case cs of [] \<Rightarrow> None | d # ds \<Rightarrow> if ds = [] then None else Some (d, ds))
      else if cs = [] then None else Some (c, cs))"

lemma class_char_shorter: "class_char p = Some (c, q) \<Longrightarrow> length q < length p"
  by (cases p) (auto split: if_splits list.splits)

fun class_range :: "string \<Rightarrow> (char \<times> char \<times> string) option" where
  "class_range p =
     (case class_char p of
        None \<Rightarrow> None
      | Some (lo, q) \<Rightarrow>
          if hd q = CHR ''-'' then (case class_char (tl q) of None \<Rightarrow> None | Some (hi, r) \<Rightarrow> Some (lo, hi, r))
          else Some (lo, lo, q))"

lemma class_range_shorter: "class_range p = Some (lo, hi, q) \<Longrightarrow> length q < length p"
  by (auto split: option.splits if_splits prod.splits dest!: class_char_shorter)

function match_class :: "bool \<Rightarrow> char \<Rightarrow> bool \<Rightarrow> string \<Rightarrow> (bool \<times> string) option" where
  "match_class fresh r found p =
     (if p \<noteq> [] \<and> hd p = CHR '']'' \<and> \<not> fresh then Some (found, tl p)
      else case class_range p of
             None \<Rightarrow> None
           | Some (lo, hi, q) \<Rightarrow> match_class False r (found \<or> lo \<le> r \<and> r \<le> hi) q)"
  by pat_completeness auto
termination by (relation "measure (\<lambda>(_, _, _, p). length p)") (auto dest: class_range_shorter simp del: class_range.simps)

declare match_class.simps [simp del]

function Match :: "string \<Rightarrow> string \<Rightarrow> bool" where
  "Match [] s \<longleftrightarrow> s = []"
| "Match (c # p) s \<longleftrightarrow>
     (if c = CHR ''*'' then
        Match p s \<or> (case s of [] \<Rightarrow> False | d # ds \<Rightarrow> if d = CHR ''/'' then False else Match (c # p) ds)
      else case s of
             [] \<Rightarrow> False
           | d # ds \<Rightarrow>
               if c = CHR ''?'' then d \<noteq> CHR ''/'' \<and> Match p ds
               else if c = CHR ''['' then
                 (let neg = (p \<noteq> [] \<and> hd p = CHR ''^'')
                  in case match_class True d False (if neg then tl p else p) of
                       None \<Rightarrow> False
                     | Some (found, q) \<Rightarrow> found \<noteq> neg \<and> Match q ds)
               else if c = CHR 0x5C then (case p of [] \<Rightarrow> False | e # q \<Rightarrow> e = d \<and> Match q ds)
               else c = d \<and> Match p ds)"
  by pat_completeness auto
termination
  by (relation "measures [\<lambda>(p, s). length s, \<lambda>(p, s). length p]") auto

definition matchGlob_base :: "watcher_cfg \<Rightarrow> string \<Rightarrow> bool" where
  "matchGlob_base c path \<longleftrightarrow> fileGlob c = [] \<or> Match (fileGlob c) (Base path)"

definition opString :: "fs_event \<Rightarrow> file_op" where
  "opString ev =
     (if fs_create ev then OpCreate else if fs_write ev then OpWrite
      else if fs_remove ev \<or> fs_rename ev then OpRemove else OpWrite)"

text \<open>The quiet test all delivery paths share: a debounced file younger than the window is still hot.\<close>

definition hot :: "watcher_cfg \<Rightarrow> int \<Rightarrow> int \<Rightarrow> bool" where
  "hot c at mtime \<longleftrightarrow> debounceEnabled c \<and> 0 \<le> at - mtime \<and> at - mtime < debounceWindow c"

section \<open>Timers and goroutines\<close>

definition goto :: "nat \<Rightarrow> goroutine \<Rightarrow> watch \<Rightarrow> watch" where
  "goto t g s = s\<lparr>w_threads := (w_threads s)(t \<mapsto> g)\<rparr>"

definition exit_goroutine :: "nat \<Rightarrow> watch \<Rightarrow> watch" where
  "exit_goroutine t s = s\<lparr>w_threads := (w_threads s)(t := None)\<rparr>"

fun armed :: "goroutine \<Rightarrow> bool" where
  "armed (DebounceArmed _ _ _ _) \<longleftrightarrow> True"
| "armed (RecheckArmed _ _ _) \<longleftrightarrow> True"
| "armed _ \<longleftrightarrow> False"

text \<open>\<^verbatim>\<open>Timer.Stop\<close>: a timer that has not fired never will; a callback already started goes on.\<close>

definition stopTimer :: "nat \<Rightarrow> watch \<Rightarrow> watch" where
  "stopTimer t s = (case w_threads s t of Some g \<Rightarrow> if armed g then exit_goroutine t s else s | None \<Rightarrow> s)"

definition stopPendingTimers :: "watch \<Rightarrow> watch" where
  "stopPendingTimers s = fold (\<lambda>(path, a). stopTimer (dp_timer (w_entries s a))) (w_pending s) s"

definition startRechecks :: "watch \<Rightarrow> watch" where
  "startRechecks s = s\<lparr>w_rechecksStopped := False\<rparr>"

definition stopAllRechecks :: "watch \<Rightarrow> watch" where
  "stopAllRechecks s =
     fold (\<lambda>(path, t) s. (stopTimer t s)\<lparr>w_rechecks := AList.delete path (w_rechecks s), w_recheckGens := (w_recheckGens s)(path := None)\<rparr>)
       (w_rechecks s) (s\<lparr>w_rechecksStopped := True\<rparr>)"

section \<open>Deliveries\<close>

definition claimDelivery :: "string \<Rightarrow> int \<Rightarrow> watch \<Rightarrow> bool \<times> watch" where
  "claimDelivery path modTime s =
     (if (case w_seen s path of Some prev \<Rightarrow> modTime \<le> prev | None \<Rightarrow> False) then (False, s)
      else if (case w_inflight s path of Some cur \<Rightarrow> modTime \<le> cur | None \<Rightarrow> False) then (False, s)
      else (True, s\<lparr>w_inflight := (w_inflight s)(path \<mapsto> modTime)\<rparr>))"

definition record_seen :: "string \<Rightarrow> int \<Rightarrow> watch \<Rightarrow> watch" where
  "record_seen path modTime s =
     (if (case w_seen s path of Some prev \<Rightarrow> prev < modTime | None \<Rightarrow> True)
      then s\<lparr>w_seen := (w_seen s)(path \<mapsto> modTime)\<rparr> else s)"

definition completeDelivery :: "string \<Rightarrow> int \<Rightarrow> bool \<Rightarrow> watch \<Rightarrow> watch" where
  "completeDelivery path modTime delivered s =
     (let s1 = (if delivered then record_seen path modTime s else s)
      in if w_inflight s1 path = Some modTime then s1\<lparr>w_inflight := (w_inflight s1)(path := None)\<rparr> else s1)"

text \<open>
  The two selects.  The consumer may take the event at any moment; the other branches are ready once the
  context is cancelled or the generation's channel is closed, and \<open>pick\<close> is the branch that wins.
\<close>

definition deliver :: "FileEvent \<Rightarrow> watch \<Rightarrow> watch" where
  "deliver fe s = s\<lparr>w_sent := w_sent s @ [(fe, w_now s)]\<rparr>"

definition abandon :: "FileEvent \<Rightarrow> watch \<Rightarrow> watch" where
  "abandon fe s = s\<lparr>w_abandoned := fe # w_abandoned s\<rparr>"

fun emitBlocking :: "emitOutcome \<Rightarrow> FileEvent \<Rightarrow> watch \<Rightarrow> (bool \<times> watch) option" where
  "emitBlocking emitDelivered fe s = Some (True, deliver fe s)"
| "emitBlocking emitAborted fe s = (if w_done s then Some (False, abandon fe s) else None)"
| "emitBlocking emitSuperseded fe s = None"

fun emit_select :: "emitOutcome \<Rightarrow> FileEvent \<Rightarrow> nat \<Rightarrow> watch \<Rightarrow> watch option" where
  "emit_select emitDelivered fe ch s = Some (deliver fe s)"
| "emit_select emitAborted fe ch s = (if w_done s then Some (abandon fe s) else None)"
| "emit_select emitSuperseded fe ch s = (if ch \<in> set (w_closed s) then Some (abandon fe s) else None)"

definition buildEvent :: "watcher_cfg \<Rightarrow> string \<Rightarrow> file_op \<Rightarrow> watch \<Rightarrow> (FileEvent \<times> watch) option" where
  "buildEvent c path op s =
     (if \<not> matchGlob_base c path then None
      else case w_fs s path of
             None \<Rightarrow> None
           | Some info \<Rightarrow>
               if st_dir info then None
               else
                 (let tail = (appendMode c = AppendModeTail);
                      offset = (if tail then (case w_tailOffsets s path of Some n \<Rightarrow> n | None \<Rightarrow> 0) else 0);
                      s1 = (if tail then s\<lparr>w_tailOffsets := (w_tailOffsets s)(path \<mapsto> st_size info)\<rparr> else s)
                  in Some (\<lparr>fe_path = path, fe_mtime = st_mtime info, fe_size = st_size info, fe_op = op, fe_offset = offset\<rparr>, s1)))"

section \<open>Rechecks\<close>

text \<open>
  \<^verbatim>\<open>scheduleDebounceRecheck\<close> in its two parts: the stat that yields the wait, and the locked section that
  installs the timer unless the gate is closed.
\<close>

definition recheck_wait :: "watcher_cfg \<Rightarrow> string \<Rightarrow> watch \<Rightarrow> int option" where
  "recheck_wait c path s =
     (case w_fs s path of
        None \<Rightarrow> None
      | Some info \<Rightarrow>
          (let age = w_now s - st_mtime info; wait = debounceWindow c - age + debounceRecheckGrace
           in Some (if 0 \<le> age \<and> debounceRecheckGrace \<le> wait then wait else debounceRecheckGrace)))"

definition install_recheck :: "string \<Rightarrow> int \<Rightarrow> watch \<Rightarrow> watch" where
  "install_recheck path wait s =
     (if w_rechecksStopped s \<or> w_done s then s
      else
        (let s1 = (case map_of (w_rechecks s) path of Some old \<Rightarrow> stopTimer old s | None \<Rightarrow> s);
             n = Suc (w_recheckGen s); t = w_next s
         in goto t (RecheckArmed path n (w_now s + wait))
              (s1\<lparr>w_recheckGen := n, w_recheckGens := (w_recheckGens s1)(path \<mapsto> n),
                  w_rechecks := AList.update path t (w_rechecks s1), w_next := Suc t\<rparr>)))"

definition settleRecheck :: "string \<Rightarrow> nat \<Rightarrow> watch \<Rightarrow> watch" where
  "settleRecheck path n s =
     (if w_recheckGens s path = Some n
      then s\<lparr>w_rechecks := AList.delete path (w_rechecks s), w_recheckGens := (w_recheckGens s)(path := None)\<rparr> else s)"

section \<open>Scanning one file\<close>

definition scan_event :: "watcher_cfg \<Rightarrow> string \<Rightarrow> stat_info \<Rightarrow> bool \<Rightarrow> watch \<Rightarrow> FileEvent" where
  "scan_event c path info known s =
     \<lparr>fe_path = path, fe_mtime = st_mtime info, fe_size = st_size info,
      fe_op = (if known then OpWrite else OpCreate),
      fe_offset = (if appendMode c = AppendModeTail then (case w_tailOffsets s path of Some n \<Rightarrow> n | None \<Rightarrow> 0) else 0)\<rparr>"

text \<open>
  \<^verbatim>\<open>scanFile\<close>, one step at a time: \<open>Inl pc\<close> goes on, \<open>Inr err\<close> is its return, an error exactly when
  the send was aborted.
\<close>

fun scanFile :: "watcher_cfg \<Rightarrow> emitOutcome \<Rightarrow> scan_pc \<Rightarrow> watch \<Rightarrow> ((scan_pc + bool) \<times> watch) option" where
  "scanFile c pick (ScanRead path info) s =
     (case w_seen s path of
        Some prev \<Rightarrow> if st_mtime info \<le> prev then Some (Inr False, s)
                      else Some (Inl (ScanClaim (scan_event c path info True s)), s)
      | None \<Rightarrow> Some (Inl (ScanClaim (scan_event c path info False s)), s))"
| "scanFile c pick (ScanClaim fe) s =
     (case claimDelivery (fe_path fe) (fe_mtime fe) s of
        (True, s1) \<Rightarrow> Some (Inl (ScanSend fe), s1)
      | (False, s1) \<Rightarrow> Some (Inr False, s1))"
| "scanFile c pick (ScanSend fe) s =
     (case emitBlocking pick fe s of
        None \<Rightarrow> None
      | Some (ok, s1) \<Rightarrow>
          Some (Inl (ScanComplete fe ok),
                if ok \<and> appendMode c = AppendModeTail
                then s1\<lparr>w_tailOffsets := (w_tailOffsets s1)(fe_path fe \<mapsto> fe_size fe)\<rparr> else s1))"
| "scanFile c pick (ScanComplete fe ok) s =
     Some (Inr (\<not> ok), completeDelivery (fe_path fe) (fe_mtime fe) ok s)"

section \<open>Timer goroutines\<close>

text \<open>
  The closure of \<^verbatim>\<open>armTimer\<close> with the \<^verbatim>\<open>flush\<close> it calls, and the closure of
  \<^verbatim>\<open>scheduleDebounceRecheck\<close> with \<^verbatim>\<open>recheckAfterDebounce\<close>.  \<open>None\<close>: the goroutine cannot move now
  (its timer is not due, or the chosen branch is not ready).
\<close>

fun advance :: "watcher_cfg \<Rightarrow> emitOutcome \<Rightarrow> nat \<Rightarrow> goroutine \<Rightarrow> watch \<Rightarrow> watch option" where
  "advance c pick t (DebounceArmed a n path due) s =
     (if due \<le> w_now s then Some (goto t (DebounceFired a n path) s) else None)"
| "advance c pick t (DebounceFired a n path) s =
     (let p = w_entries s a
      in if n \<noteq> dp_gen p then Some (exit_goroutine t s)
         else Some (goto t (FlushBuild a n path (dp_op p) (dp_cancel p)) s))"
| "advance c pick t (FlushBuild a n path op ch) s =
     (case buildEvent c path op s of
        None \<Rightarrow> Some (goto t (FlushReturn a n) s)
      | Some (fe, s1) \<Rightarrow> Some (goto t (FlushQuiet a n fe ch) s1))"
| "advance c pick t (FlushQuiet a n fe ch) s =
     Some (goto t (if hot c (w_now s) (fe_mtime fe) then FlushRecheck a n (fe_path fe) None else FlushClaim a n fe ch) s)"
| "advance c pick t (FlushClaim a n fe ch) s =
     (case claimDelivery (fe_path fe) (fe_mtime fe) s of
        (True, s1) \<Rightarrow> Some (goto t (FlushSend a n fe ch) s1)
      | (False, s1) \<Rightarrow> Some (goto t (FlushReturn a n) s1))"
| "advance c pick t (FlushSend a n fe ch) s =
     (if ch \<in> set (w_closed s) then Some (goto t (FlushRecheck a n (fe_path fe) (Some fe)) (abandon fe s))
      else Some (goto t (FlushPark a n fe ch) s))"
| "advance c pick t (FlushPark a n fe ch) s =
     (case emit_select pick fe ch s of
        None \<Rightarrow> None
      | Some s1 \<Rightarrow>
          Some (goto t (if pick = emitSuperseded then FlushRecheck a n (fe_path fe) (Some fe)
                        else FlushComplete a n fe (pick = emitDelivered)) s1))"
| "advance c pick t (FlushRecheck a n path held) s =
     (case recheck_wait c path s of
        None \<Rightarrow> Some (goto t (case held of None \<Rightarrow> FlushReturn a n | Some fe \<Rightarrow> FlushComplete a n fe False) s)
      | Some wait \<Rightarrow> Some (goto t (FlushRecheckArm a n path wait held) s))"
| "advance c pick t (FlushRecheckArm a n path wait held) s =
     Some (goto t (case held of None \<Rightarrow> FlushReturn a n | Some fe \<Rightarrow> FlushComplete a n fe False) (install_recheck path wait s))"
| "advance c pick t (FlushComplete a n fe ok) s =
     Some (goto t (FlushReturn a n) (completeDelivery (fe_path fe) (fe_mtime fe) ok s))"
| "advance c pick t (FlushReturn a n) s =
     Some (exit_goroutine t
       (if n = dp_gen (w_entries s a) then s\<lparr>w_entries := (w_entries s)(a := (w_entries s a)\<lparr>dp_fired := True\<rparr>)\<rparr> else s))"
| "advance c pick t (RecheckArmed path n due) s =
     (if due \<le> w_now s then Some (goto t (RecheckFired path n) s) else None)"
| "advance c pick t (RecheckFired path n) s = Some (goto t (RecheckStat path) (settleRecheck path n s))"
| "advance c pick t (RecheckStat path) s =
     (case w_fs s path of
        None \<Rightarrow> Some (exit_goroutine t s)
      | Some info \<Rightarrow> Some (goto t (RecheckQuiet path info) s))"
| "advance c pick t (RecheckQuiet path info) s =
     (if hot c (w_now s) (st_mtime info) then Some (exit_goroutine t s)
      else Some (goto t (RecheckScan (ScanRead path info)) s))"
| "advance c pick t (RecheckScan pc) s =
     (case scanFile c pick pc s of
        None \<Rightarrow> None
      | Some (Inl pc', s1) \<Rightarrow> Some (goto t (RecheckScan pc') s1)
      | Some (Inr err, s1) \<Rightarrow> Some (exit_goroutine t s1))"

section \<open>The event loop\<close>

definition SeedTailOffsets :: "(string \<times> int) list \<Rightarrow> watch \<Rightarrow> watch" where
  "SeedTailOffsets offsets s = fold (\<lambda>(path, off) s. s\<lparr>w_tailOffsets := (w_tailOffsets s)(path \<mapsto> off)\<rparr>) offsets s"

definition jump :: "loop_pc \<Rightarrow> watch \<Rightarrow> watch" where
  "jump pc s = s\<lparr>w_loop := pc\<rparr>"

text \<open>A Create or Write of a matching file: re-arm its entry under a new generation, or make one.\<close>

definition arm_entry :: "watcher_cfg \<Rightarrow> string \<Rightarrow> file_op \<Rightarrow> watch \<Rightarrow> watch" where
  "arm_entry c path op s =
     (case map_of (w_pending s) path of
        Some a \<Rightarrow>
          (let p = w_entries s a; s1 = stopTimer (dp_timer p) s; n = Suc (dp_gen p); ch = w_next s; t = Suc ch
           in goto t (DebounceArmed a n path (w_now s + debounceWindow c))
                (s1\<lparr>w_closed := dp_cancel p # w_closed s, w_next := Suc t,
                    w_entries := (w_entries s)(a := \<lparr>dp_timer = t, dp_op = op, dp_gen = n, dp_fired = False, dp_cancel = ch\<rparr>)\<rparr>))
      | None \<Rightarrow>
          (let a = w_next s; ch = Suc a; t = Suc ch
           in goto t (DebounceArmed a 1 path (w_now s + debounceWindow c))
                (s\<lparr>w_next := Suc t, w_pending := AList.update path a (w_pending s),
                   w_entries := (w_entries s)(a := \<lparr>dp_timer = t, dp_op = op, dp_gen = 1, dp_fired = False, dp_cancel = ch\<rparr>)\<rparr>)))"

text \<open>A Remove or Rename: the pending flush is cancelled and its entry dropped.\<close>

definition drop_entry :: "string \<Rightarrow> watch \<Rightarrow> watch" where
  "drop_entry path s =
     (case map_of (w_pending s) path of
        None \<Rightarrow> s
      | Some a \<Rightarrow>
          (stopTimer (dp_timer (w_entries s a)) s)
            \<lparr>w_closed := dp_cancel (w_entries s a) # w_closed s, w_pending := AList.delete path (w_pending s)\<rparr>)"

definition remove_event :: "string \<Rightarrow> FileEvent" where
  "remove_event path = \<lparr>fe_path = path, fe_mtime = 0, fe_size = 0, fe_op = OpRemove, fe_offset = 0\<rparr>"

definition debounced_event :: "watcher_cfg \<Rightarrow> fs_event \<Rightarrow> watch \<Rightarrow> watch" where
  "debounced_event c ev s =
     (if fs_remove ev \<or> fs_rename ev then
        (if matchGlob_base c (fs_name ev)
         then jump (SendingRemove (remove_event (fs_name ev))) (drop_entry (fs_name ev) s)
         else jump SweepDue s)
      else if (fs_create ev \<or> fs_write ev) \<and> matchGlob_base c (fs_name ev)
      then jump SweepDue (arm_entry c (fs_name ev) (opString ev) s)
      else jump SweepDue s)"

text \<open>The real-time loop, taken in tail mode only: the second half of an event handles its removal bits.\<close>

definition tail_removal :: "watcher_cfg \<Rightarrow> fs_event \<Rightarrow> watch \<Rightarrow> watch" where
  "tail_removal c ev s =
     (if (fs_remove ev \<or> fs_rename ev) \<and> matchGlob_base c (fs_name ev)
      then jump (SendingTailRemove (remove_event (fs_name ev))) s else jump Waiting s)"

definition tail_event :: "watcher_cfg \<Rightarrow> fs_event \<Rightarrow> watch \<Rightarrow> watch" where
  "tail_event c ev s =
     (case (if fs_create ev \<or> fs_write ev then buildEvent c (fs_name ev) (opString ev) s else None) of
        Some (fe, s1) \<Rightarrow> jump (SendingEvent fe ev) s1
      | None \<Rightarrow> tail_removal c ev s)"

text \<open>
  \<^verbatim>\<open>sweepPendingIfDue\<close>: charge a tick, and visit the entries one by one when the budget is used up.
  \<open>order\<close> is the order in which the map is walked.
\<close>

definition sweep_charge :: "watcher_cfg \<Rightarrow> string list \<Rightarrow> watch \<Rightarrow> watch option" where
  "sweep_charge c order s =
     (if w_sweepTick s + 1 < sweepEvery c then Some (jump Waiting (s\<lparr>w_sweepTick := w_sweepTick s + 1\<rparr>))
      else if distinct order \<and> set order = set (map fst (w_pending s))
      then Some (jump (Sweeping order) (s\<lparr>w_sweepTick := 0\<rparr>)) else None)"

definition sweep_visit :: "string \<Rightarrow> watch \<Rightarrow> watch" where
  "sweep_visit path s =
     (case map_of (w_pending s) path of
        Some a \<Rightarrow> if dp_fired (w_entries s a) then s\<lparr>w_pending := AList.delete path (w_pending s)\<rparr> else s
      | None \<Rightarrow> s)"

text \<open>Once a walk is over, its skipped paths are rechecked, except on the polling path, where the next tick looks again.\<close>

definition scan_over :: "string list \<Rightarrow> watch \<Rightarrow> watch" where
  "scan_over skipped s = (if w_polling s then jump Waiting s else jump (Rechecking skipped) s)"

fun loop_step :: "watcher_cfg \<Rightarrow> emitOutcome \<Rightarrow> string list \<Rightarrow> loop_pc \<Rightarrow> watch \<Rightarrow> watch option" where
  "loop_step c pick order (Scanning [] skipped) s = Some (scan_over skipped s)"
| "loop_step c pick order (Scanning (path # todo) skipped) s =
     (if \<not> matchGlob_base c path then Some (jump (Scanning todo skipped) s)
      else case w_fs s path of
             None \<Rightarrow> Some (jump (Scanning todo skipped) s)
           | Some info \<Rightarrow>
               if st_dir info then Some (jump (Scanning todo skipped) s)
               else Some (jump (ScanningQuiet path info todo skipped) s))"
| "loop_step c pick order (ScanningQuiet path info todo skipped) s =
     (if hot c (w_now s) (st_mtime info) then Some (jump (Scanning todo (skipped @ [path])) s)
      else Some (jump (ScanningFile (ScanRead path info) todo skipped) s))"
| "loop_step c pick order (ScanningFile pc todo skipped) s =
     (case scanFile c pick pc s of
        None \<Rightarrow> None
      | Some (Inl pc', s1) \<Rightarrow> Some (jump (ScanningFile pc' todo skipped) s1)
      | Some (Inr err, s1) \<Rightarrow> Some (if err then scan_over skipped s1 else jump (Scanning todo skipped) s1))"
| "loop_step c pick order (Rechecking []) s = Some (jump Waiting s)"
| "loop_step c pick order (Rechecking (path # todo)) s =
     (case recheck_wait c path s of
        None \<Rightarrow> Some (jump (Rechecking todo) s)
      | Some wait \<Rightarrow> Some (jump (RecheckingArm path wait todo) s))"
| "loop_step c pick order (RecheckingArm path wait todo) s = Some (jump (Rechecking todo) (install_recheck path wait s))"
| "loop_step c pick order Waiting s =
     (if w_done s
      then Some (jump Returning (if debounceEnabled c \<and> \<not> w_polling s then stopPendingTimers s else s)) else None)"
| "loop_step c pick order (SendingRemove fe) s =
     (case emitBlocking pick fe s of None \<Rightarrow> None | Some (ok, s1) \<Rightarrow> Some (jump SweepDue s1))"
| "loop_step c pick order SweepDue s = sweep_charge c order s"
| "loop_step c pick order (Sweeping []) s = Some (jump Waiting s)"
| "loop_step c pick order (Sweeping (path # todo)) s = Some (jump (Sweeping todo) (sweep_visit path s))"
| "loop_step c pick order (SendingEvent fe ev) s =
     (case emitBlocking pick fe s of None \<Rightarrow> None | Some (ok, s1) \<Rightarrow> Some (tail_removal c ev s1))"
| "loop_step c pick order (SendingTailRemove fe) s =
     (case emitBlocking pick fe s of None \<Rightarrow> None | Some (ok, s1) \<Rightarrow> Some (jump Waiting s1))"
| "loop_step c pick order Returning s = Some (jump Stopped ((stopAllRechecks s)\<lparr>w_running := False\<rparr>))"
| "loop_step c pick order Stopped s = None"

section \<open>Start and the whole system\<close>

text \<open>
  \<^verbatim>\<open>Start\<close> up to its first scan: the guard against a second live call, the recheck gate, a fresh seen map
  (and pending map), and the fallback to polling when fsnotify cannot be set up.  \<open>walk\<close> is the walk of the
  source directory.
\<close>

datatype watcher_error = ErrAlreadyRunning

definition Start_watcher :: "bool \<Rightarrow> string list \<Rightarrow> watch \<Rightarrow> watcher_error + watch" where
  "Start_watcher fsnotify_ok walk s =
     (if w_running s then Inl ErrAlreadyRunning
      else Inr (jump (Scanning walk [])
             (startRechecks (s\<lparr>w_running := True, w_polling := \<not> fsnotify_ok, w_seen := Map.empty, w_pending := []\<rparr>))))"

definition new_watch :: "(string \<rightharpoonup> stat_info) \<Rightarrow> int \<Rightarrow> watch" where
  "new_watch fs at =
     \<lparr>w_fs = fs, w_now = at, w_done = False, w_running = False, w_polling = False, w_seen = Map.empty,
      w_inflight = Map.empty, w_pending = [], w_entries = (\<lambda>_. \<lparr>dp_timer = 0, dp_op = OpWrite, dp_gen = 0, dp_fired = False, dp_cancel = 0\<rparr>),
      w_sweepTick = 0, w_rechecks = [], w_recheckGens = Map.empty, w_recheckGen = 0, w_rechecksStopped = False,
      w_tailOffsets = Map.empty, w_threads = Map.empty, w_closed = [], w_next = 1, w_loop = Stopped, w_sent = [], w_abandoned = []\<rparr>"

text \<open>
  What can happen next: the clock advances, a file changes or goes, the context is cancelled, the loop takes
  an fsnotify event, an overflow or another error, or a polling tick, or one goroutine takes a step.  While
  a sweep is under way its \<^verbatim>\<open>seenMu\<close> keeps out the sections of the other goroutines that need it.
\<close>

datatype action =
    Tick nat
  | Change string "stat_info option"
  | Cancel_ctx
  | Notify fs_event
  | Overflow "string list"
  | Watch_error
  | Poll "string list"
  | Run nat emitOutcome
  | Run_loop emitOutcome "string list"

fun needs_seenMu :: "goroutine \<Rightarrow> bool" where
  "needs_seenMu (FlushClaim _ _ _ _) \<longleftrightarrow> True"
| "needs_seenMu (FlushRecheckArm _ _ _ _ _) \<longleftrightarrow> True"
| "needs_seenMu (FlushComplete _ _ _ _) \<longleftrightarrow> True"
| "needs_seenMu (RecheckFired _ _) \<longleftrightarrow> True"
| "needs_seenMu (RecheckScan pc) \<longleftrightarrow> (case pc of ScanSend _ \<Rightarrow> False | _ \<Rightarrow> True)"
| "needs_seenMu _ \<longleftrightarrow> False"

definition sweeping :: "watch \<Rightarrow> bool" where
  "sweeping s \<longleftrightarrow> (case w_loop s of Sweeping _ \<Rightarrow> True | _ \<Rightarrow> False)"

fun handle_action :: "watcher_cfg \<Rightarrow> action \<Rightarrow> watch \<Rightarrow> watch option" where
  "handle_action c (Tick d) s = Some (s\<lparr>w_now := w_now s + int d\<rparr>)"
| "handle_action c (Change path info) s = Some (s\<lparr>w_fs := (w_fs s)(path := info)\<rparr>)"
| "handle_action c Cancel_ctx s = Some (s\<lparr>w_done := True\<rparr>)"
| "handle_action c (Notify ev) s =
     (if w_loop s = Waiting \<and> \<not> w_polling s
      then Some (if debounceEnabled c then debounced_event c ev s else tail_event c ev s) else None)"
| "handle_action c (Overflow walk) s =
     (if w_loop s = Waiting \<and> \<not> w_polling s then Some (jump (Scanning walk []) s) else None)"
| "handle_action c Watch_error s = (if w_loop s = Waiting \<and> \<not> w_polling s then Some s else None)"
| "handle_action c (Poll walk) s =
     (if w_loop s = Waiting \<and> w_polling s then Some (jump (Scanning walk []) s) else None)"
| "handle_action c (Run t pick) s =
     (case w_threads s t of
        None \<Rightarrow> None
      | Some g \<Rightarrow> if sweeping s \<and> needs_seenMu g then None else advance c pick t g s)"
| "handle_action c (Run_loop pick order) s = loop_step c pick order (w_loop s) s"

fun run_actions :: "watcher_cfg \<Rightarrow> action list \<Rightarrow> watch \<Rightarrow> watch option" where
  "run_actions c [] s = Some s"
| "run_actions c (x # xs) s = (case handle_action c x s of None \<Rightarrow> None | Some s1 \<Rightarrow> run_actions c xs s1)"

text \<open>The states one call of \<^verbatim>\<open>Start\<close> can reach on a fresh watcher.\<close>

definition reaches :: "watcher_cfg \<Rightarrow> action list \<Rightarrow> watch \<Rightarrow> bool" where
  "reaches c xs s \<longleftrightarrow>
     (\<exists>fs at offsets ok walk s0. Start_watcher ok walk (SeedTailOffsets offsets (new_watch fs at)) = Inr s0 \<and> run_actions c xs s0 = Some s)"

end
