(* ===== verification/Ledger.thy ===== *)
theory Ledger
  imports Prelude
begin

text \<open>
  What the watcher promises of its deliveries, apart from how its goroutines reach them: claims on file
  versions (a path and its modification time) are taken, delivered or given up, and settled, in any
  interleaving of their holders.  A system whose steps are ledger steps inherits the ledger's laws
  (locale \<open>delivery_ledger\<close>).
\<close>

section \<open>The ledger\<close>

datatype claim = Held string int | Settling string int bool

fun claimed :: "claim \<Rightarrow> string \<times> int" where
  "claimed (Held p m) = (p, m)"
| "claimed (Settling p m d) = (p, m)"

record 'h ledger =
  l_seen :: "string \<rightharpoonup> int"
  l_inflight :: "string \<rightharpoonup> int"
  l_open :: "'h \<rightharpoonup> claim"
  l_sent :: "(string \<times> int) list"
  l_gone :: "(string \<times> int) list"

text \<open>\<open>reached k m\<close>: the cursor \<open>k\<close> of a path is at version \<open>m\<close> or beyond.\<close>

definition reached :: "int option \<Rightarrow> int \<Rightarrow> bool" where
  "reached k m \<longleftrightarrow> (case k of Some j \<Rightarrow> m \<le> j | None \<Rightarrow> False)"

lemma reached_simps [simp]: "\<not> reached None m" "reached (Some j) m \<longleftrightarrow> m \<le> j"
  by (simp_all add: reached_def)

inductive ledger_step :: "'h ledger \<Rightarrow> 'h ledger \<Rightarrow> bool" where
  ledger_claim: "\<lbrakk>l_open l h = None; \<not> reached (l_seen l p) m; \<not> reached (l_inflight l p) m\<rbrakk>
    \<Longrightarrow> ledger_step l (l\<lparr>l_inflight := (l_inflight l)(p \<mapsto> m), l_open := (l_open l)(h \<mapsto> Held p m)\<rparr>)"
| ledger_deliver: "l_open l h = Some (Held p m)
    \<Longrightarrow> ledger_step l (l\<lparr>l_open := (l_open l)(h \<mapsto> Settling p m True), l_sent := l_sent l @ [(p, m)]\<rparr>)"
| ledger_give_up: "l_open l h = Some (Held p m)
    \<Longrightarrow> ledger_step l (l\<lparr>l_open := (l_open l)(h \<mapsto> Settling p m False), l_gone := (p, m) # l_gone l\<rparr>)"
| ledger_settle: "\<lbrakk>l_open l h = Some (Settling p m d);
      seen' = (if d \<and> \<not> reached (l_seen l p) m then (l_seen l)(p \<mapsto> m) else l_seen l);
      inflight' = (if l_inflight l p = Some m then (l_inflight l)(p := None) else l_inflight l)\<rbrakk>
    \<Longrightarrow> ledger_step l (l\<lparr>l_seen := seen', l_inflight := inflight', l_open := (l_open l)(h := None)\<rparr>)"

section \<open>Its invariant\<close>

text \<open>A version is excused when a newer version of its path was given up.\<close>

definition excused :: "'h ledger \<Rightarrow> string \<Rightarrow> int \<Rightarrow> bool" where
  "excused l p m \<longleftrightarrow> (\<exists>m'>m. (p, m') \<in> set (l_gone l))"

definition covered :: "'h ledger \<Rightarrow> string \<Rightarrow> int \<Rightarrow> bool" where
  "covered l p m \<longleftrightarrow> reached (l_seen l p) m \<or> reached (l_inflight l p) m \<or> excused l p m"

definition ledger_inv :: "'h ledger \<Rightarrow> bool" where
  "ledger_inv l \<longleftrightarrow>
     (\<forall>h k p m. l_open l h = Some k \<longrightarrow> claimed k = (p, m) \<longrightarrow> covered l p m) \<and>
     (\<forall>p m. (p, m) \<in> set (l_sent l) \<longrightarrow> covered l p m) \<and>
     (\<forall>h h' k k' p m. l_open l h = Some k \<longrightarrow> l_open l h' = Some k' \<longrightarrow> h \<noteq> h' \<longrightarrow> claimed k = (p, m) \<longrightarrow> claimed k' = (p, m)
        \<longrightarrow> excused l p m) \<and>
     (\<forall>h k p m. l_open l h = Some k \<longrightarrow> claimed k = (p, m) \<longrightarrow> k \<noteq> Settling p m True \<longrightarrow> (p, m) \<in> set (l_sent l)
        \<longrightarrow> excused l p m) \<and>
     (\<forall>p m. 1 < count_list (l_sent l) (p, m) \<longrightarrow> excused l p m) \<and>
     (\<forall>h p m. l_open l h = Some (Settling p m False) \<longrightarrow> (p, m) \<in> set (l_gone l)) \<and>
     (\<forall>h p m. l_open l h = Some (Settling p m True) \<longrightarrow> (p, m) \<in> set (l_sent l)) \<and>
     (\<forall>p m. l_inflight l p = Some m \<longrightarrow> (\<exists>h k. l_open l h = Some k \<and> claimed k = (p, m)))"

definition empty_ledger :: "'h ledger" where
  "empty_ledger = \<lparr>l_seen = Map.empty, l_inflight = Map.empty, l_open = Map.empty, l_sent = [], l_gone = []\<rparr>"

lemma empty_ledger_inv: "ledger_inv empty_ledger"
  by (simp add: ledger_inv_def empty_ledger_def)

lemma claimed_eq: "claimed k = (p, m) \<longleftrightarrow> k = Held p m \<or> k = Settling p m True \<or> k = Settling p m False"
  by (cases k) auto

lemma excused_frame [simp]:
  "excused (l\<lparr>l_seen := a\<rparr>) p m = excused l p m" "excused (l\<lparr>l_inflight := b\<rparr>) p m = excused l p m"
  "excused (l\<lparr>l_open := o'\<rparr>) p m = excused l p m" "excused (l\<lparr>l_sent := d\<rparr>) p m = excused l p m"
  "excused (l\<lparr>l_gone := x # l_gone l\<rparr>) p m \<longleftrightarrow> (fst x = p \<and> m < snd x) \<or> excused l p m"
  by (cases x; auto simp: excused_def)+

text \<open>The invariant, conjunct by conjunct.\<close>

lemma ledger_invI:
  assumes "\<And>h k p m. l_open l h = Some k \<Longrightarrow> claimed k = (p, m) \<Longrightarrow> covered l p m"
    and "\<And>p m. (p, m) \<in> set (l_sent l) \<Longrightarrow> covered l p m"
    and "\<And>h h' k k' p m. \<lbrakk>l_open l h = Some k; l_open l h' = Some k'; h \<noteq> h'; claimed k = (p, m); claimed k' = (p, m)\<rbrakk>
           \<Longrightarrow> excused l p m"
    and "\<And>h k p m. \<lbrakk>l_open l h = Some k; claimed k = (p, m); k \<noteq> Settling p m True; (p, m) \<in> set (l_sent l)\<rbrakk> \<Longrightarrow> excused l p m"
    and "\<And>p m. 1 < count_list (l_sent l) (p, m) \<Longrightarrow> excused l p m"
    and "\<And>h p m. l_open l h = Some (Settling p m False) \<Longrightarrow> (p, m) \<in> set (l_gone l)"
    and "\<And>h p m. l_open l h = Some (Settling p m True) \<Longrightarrow> (p, m) \<in> set (l_sent l)"
    and "\<And>p m. l_inflight l p = Some m \<Longrightarrow> \<exists>h k. l_open l h = Some k \<and> claimed k = (p, m)"
  shows "ledger_inv l"
  unfolding ledger_inv_def using assms by blast

lemma ledger_invD:
  "\<lbrakk>ledger_inv l; l_open l h = Some k; claimed k = (p, m)\<rbrakk> \<Longrightarrow> covered l p m"
  "\<lbrakk>ledger_inv l; (p, m) \<in> set (l_sent l)\<rbrakk> \<Longrightarrow> covered l p m"
  "\<lbrakk>ledger_inv l; l_open l h = Some k; l_open l h' = Some k'; h \<noteq> h'; claimed k = (p, m); claimed k' = (p, m)\<rbrakk> \<Longrightarrow> excused l p m"
  "\<lbrakk>ledger_inv l; l_open l h = Some k; claimed k = (p, m); k \<noteq> Settling p m True; (p, m) \<in> set (l_sent l)\<rbrakk> \<Longrightarrow> excused l p m"
  "\<lbrakk>ledger_inv l; 1 < count_list (l_sent l) (p, m)\<rbrakk> \<Longrightarrow> excused l p m"
  "\<lbrakk>ledger_inv l; l_open l h = Some (Settling p m False)\<rbrakk> \<Longrightarrow> (p, m) \<in> set (l_gone l)"
  "\<lbrakk>ledger_inv l; l_open l h = Some (Settling p m True)\<rbrakk> \<Longrightarrow> (p, m) \<in> set (l_sent l)"
  "\<lbrakk>ledger_inv l; l_inflight l p = Some m\<rbrakk> \<Longrightarrow> \<exists>h k. l_open l h = Some k \<and> claimed k = (p, m)"
  by (elim ledger_inv_def[THEN iffD1, elim_format] conjE, meson)+

lemma restaged_owner:
  assumes "\<exists>h' k'. f h' = Some k' \<and> claimed k' = v" and "f h = Some k0" "claimed k = claimed k0"
  shows "\<exists>h' k'. (f(h \<mapsto> k)) h' = Some k' \<and> claimed k' = v"
proof -
  obtain h' k' where "f h' = Some k'" "claimed k' = v" using assms(1) by blast
  then show ?thesis using assms(2,3) by (cases "h' = h") (auto intro: exI[of _ h'])
qed

lemma claim_keeps_inv:
  assumes inv: "ledger_inv l" and free: "l_open l h = None"
    and new: "\<not> reached (l_seen l p) m" "\<not> reached (l_inflight l p) m"
  shows "ledger_inv (l\<lparr>l_inflight := (l_inflight l)(p \<mapsto> m), l_open := (l_open l)(h \<mapsto> Held p m)\<rparr>)" (is "ledger_inv ?l")
proof -
  have cov: "covered ?l q n" if "covered l q n" for q n
    using that new by (cases "l_inflight l p") (auto simp: covered_def)
  have exc: "excused l p m" if "covered l p m"
    using that new by (simp add: covered_def)
  note old = ledger_invD[OF inv]
  show ?thesis
  proof (rule ledger_invI)
    fix h' k q n assume "l_open ?l h' = Some k" "claimed k = (q, n)"
    then show "covered ?l q n"
      using old(1)[of h' k q n, THEN cov] by (auto split: if_splits simp: covered_def)
  next
    fix q n assume "(q, n) \<in> set (l_sent ?l)"
    then show "covered ?l q n" using old(2)[of q n, THEN cov] by simp
  next
    fix h1 h2 k1 k2 q n
    assume "l_open ?l h1 = Some k1" "l_open ?l h2 = Some k2" "h1 \<noteq> h2" "claimed k1 = (q, n)" "claimed k2 = (q, n)"
    then show "excused ?l q n"
      using old(1) old(3) exc by (auto split: if_splits)
  next
    fix h' k q n assume "l_open ?l h' = Some k" "claimed k = (q, n)" "k \<noteq> Settling q n True" "(q, n) \<in> set (l_sent ?l)"
    then show "excused ?l q n" using old(2) old(4) exc by (auto split: if_splits)
  next
    fix q n assume "l_inflight ?l q = Some n"
    then show "\<exists>h k. l_open ?l h = Some k \<and> claimed k = (q, n)"
      using old(8)[of q n] free by (cases "q = p") (auto intro: exI[of _ h], metis option.distinct(1))
  qed (use old(5-7) in \<open>auto split: if_splits\<close>)
qed

lemma deliver_keeps_inv:
  assumes inv: "ledger_inv l" and held: "l_open l h = Some (Held p m)"
  shows "ledger_inv (l\<lparr>l_open := (l_open l)(h \<mapsto> Settling p m True), l_sent := l_sent l @ [(p, m)]\<rparr>)" (is "ledger_inv ?l")
proof -
  have cov: "covered ?l q n = covered l q n" for q n by (simp add: covered_def)
  have here: "covered l p m" and dup: "(p, m) \<in> set (l_sent l) \<Longrightarrow> excused l p m"
    using ledger_invD(1,4)[OF inv held] by auto
  note old = ledger_invD[OF inv]
  show ?thesis
  proof (rule ledger_invI)
    fix h' k q n assume "l_open ?l h' = Some k" "claimed k = (q, n)"
    then show "covered ?l q n" using old(1) here by (auto simp: cov split: if_splits)
  next
    fix h1 h2 k1 k2 q n
    assume "l_open ?l h1 = Some k1" "l_open ?l h2 = Some k2" "h1 \<noteq> h2" "claimed k1 = (q, n)" "claimed k2 = (q, n)"
    then show "excused ?l q n"
      using old(3)[of h1 _ h2] held by (auto split: if_splits)
  next
    fix h' k q n assume "l_open ?l h' = Some k" "claimed k = (q, n)" "k \<noteq> Settling q n True" "(q, n) \<in> set (l_sent ?l)"
    then show "excused ?l q n" using old(4)[of h' k q n] old(3)[OF held, of h' k] held by (auto split: if_splits)
  next
    fix q n assume "1 < count_list (l_sent ?l) (q, n)"
    then show "excused ?l q n" 
      using old(5) dup count_notin[of "(q, n)" "l_sent l"] by (fastforce simp: count_list_append split: if_splits)
  next
    fix q n assume "l_inflight ?l q = Some n"
    then show "\<exists>h k. l_open ?l h = Some k \<and> claimed k = (q, n)"
      using restaged_owner[where f = "l_open l", OF _ held, of "(q, n)" "Settling p m True"] old(8)[of q n] by simp
  qed (use here in \<open>auto simp: cov intro: old(2,6,7) split: if_splits\<close>)
qed

lemma give_up_keeps_inv:
  assumes inv: "ledger_inv l" and held: "l_open l h = Some (Held p m)"
  shows "ledger_inv (l\<lparr>l_open := (l_open l)(h \<mapsto> Settling p m False), l_gone := (p, m) # l_gone l\<rparr>)" (is "ledger_inv ?l")
proof -
  have exc: "excused ?l q n" if "excused l q n" for q n using that by (auto simp: excused_def)
  have cov: "covered ?l q n" if "covered l q n" for q n using that exc by (auto simp: covered_def)
  note old = ledger_invD[OF inv]
  show ?thesis
  proof (rule ledger_invI)
    fix h' k q n assume "l_open ?l h' = Some k" "claimed k = (q, n)"
    then show "covered ?l q n" using old(1)[of h' k q n, THEN cov] old(1)[OF held, THEN cov] by (auto split: if_splits)
  next
    fix h1 h2 k1 k2 q n
    assume "l_open ?l h1 = Some k1" "l_open ?l h2 = Some k2" "h1 \<noteq> h2" "claimed k1 = (q, n)" "claimed k2 = (q, n)"
    then show "excused ?l q n"
      using old(3)[of h1 _ h2, THEN exc] held by (auto split: if_splits)
  next
    fix h' k q n assume "l_open ?l h' = Some k" "claimed k = (q, n)" "k \<noteq> Settling q n True" "(q, n) \<in> set (l_sent ?l)"
    then show "excused ?l q n" using old(4)[of h' k q n, THEN exc] old(4)[OF held, THEN exc] by (auto split: if_splits)
  next
    fix q n assume "l_inflight ?l q = Some n"
    then show "\<exists>h k. l_open ?l h = Some k \<and> claimed k = (q, n)"
      using restaged_owner[where f = "l_open l", OF _ held, of "(q, n)" "Settling p m False"] old(8)[of q n] by simp
  qed (auto intro: cov exc old(2,6,7) old(5)[unfolded One_nat_def] split: if_splits)
qed

lemma settle_keeps_inv:
  assumes inv: "ledger_inv l" and stage: "l_open l h = Some (Settling p m d)"
    and seen': "seen' = (if d \<and> \<not> reached (l_seen l p) m then (l_seen l)(p \<mapsto> m) else l_seen l)"
    and inflight': "inflight' = (if l_inflight l p = Some m then (l_inflight l)(p := None) else l_inflight l)"
  shows "ledger_inv (l\<lparr>l_seen := seen', l_inflight := inflight', l_open := (l_open l)(h := None)\<rparr>)" (is "ledger_inv ?l")
proof -
  note old = ledger_invD[OF inv]
  have gone: "excused l p n" if "\<not> d" "n < m" for n using that old(6)[of h p m] stage by (auto simp: excused_def)
  have cov: "covered ?l q n" if "covered l q n" "d \<or> (q, n) \<noteq> (p, m) \<or> excused l p m" for q n
  proof (cases "q = p \<and> l_inflight l p = Some m \<and> n \<le> m")
    case True
    then show ?thesis using that gone[of n]
      by (cases d; cases "n = m") (auto simp: covered_def seen' inflight' reached_def split: option.splits)
  next
    case False
    then show ?thesis using that(1)
      by (auto simp: covered_def seen' inflight' reached_def split: option.splits if_splits)
  qed
  have rest: "d \<or> (q, n) \<noteq> (p, m) \<or> excused l p m" if "l_open l h' = Some k" "h' \<noteq> h" "claimed k = (q, n)" for h' k q n
    using old(3)[OF that(1) stage that(2)] that(3) by auto
  show ?thesis
  proof (rule ledger_invI)
    fix h' k q n assume "l_open ?l h' = Some k" "claimed k = (q, n)"
    then show "covered ?l q n" using cov[of q n] old(1)[of h' k q n] rest[of h' k q n] by (auto split: if_splits)
  next
    fix q n assume "(q, n) \<in> set (l_sent ?l)"
    then show "covered ?l q n" using cov[of q n] old(2)[of q n] old(4)[OF stage] by (cases d) auto
  next
    fix q n assume "l_inflight ?l q = Some n"
    then have "(q, n) \<noteq> (p, m)" "l_inflight l q = Some n" by (auto simp: inflight' split: if_splits)
    moreover obtain h' k where "l_open l h' = Some k" "claimed k = (q, n)" using old(8) calculation by blast
    ultimately show "\<exists>h k. l_open ?l h = Some k \<and> claimed k = (q, n)"
      using stage by (cases "h' = h") (auto intro!: exI[of _ h'])
  qed (auto intro: old(3,4,5,6,7) split: if_splits)
qed

section \<open>Systems that keep a ledger\<close>

lemma ledger_step_inv: "ledger_step l l' \<Longrightarrow> ledger_inv l \<Longrightarrow> ledger_inv l'"
  by (induction rule: ledger_step.induct)
     (rule claim_keeps_inv deliver_keeps_inv give_up_keeps_inv settle_keeps_inv; assumption)+

text \<open>The seen cursor of a path never moves back.\<close>

lemma ledger_step_seen_mono: "ledger_step l l' \<Longrightarrow> reached (l_seen l p) m \<Longrightarrow> reached (l_seen l' p) m"
  by (induction rule: ledger_step.induct) (auto simp: reached_def split: option.splits)

locale delivery_ledger =
  fixes view :: "'s \<Rightarrow> 'h ledger" and start :: "'s \<Rightarrow> bool" and move :: "'s \<Rightarrow> 's \<Rightarrow> bool"
  assumes starts_empty: "start s \<Longrightarrow> view s = empty_ledger"
    and moves_by_the_book: "move s s' \<Longrightarrow> view s' = view s \<or> ledger_step (view s) (view s')"
begin

lemma keeps_ledger: "reach start move s \<Longrightarrow> ledger_inv (view s)"
  by (induction rule: reach.induct)
     (metis starts_empty empty_ledger_inv, metis moves_by_the_book ledger_step_inv)

lemma at_most_once:
  assumes "reach start move s" "1 < count_list (l_sent (view s)) (p, m)"
  shows "\<exists>m'>m. (p, m') \<in> set (l_gone (view s))"
  using ledger_invD(5)[OF keeps_ledger[OF assms(1)] assms(2)] by (simp add: excused_def)

lemma no_leaked_claim:
  assumes "reach start move s" "l_inflight (view s) p = Some m"
  shows "\<exists>h k. l_open (view s) h = Some k \<and> claimed k = (p, m)"
  using ledger_invD(8)[OF keeps_ledger[OF assms(1)] assms(2)] .

end

end
