(* ===== verification/Watcher_Laws.thy ===== *)
theory Watcher_Laws
  imports Watcher Ledger
begin

text \<open>
  Correctness of the file watcher: under every interleaving its deliveries follow the claim ledger (so a
  file version is delivered at most once and no claim leaks), the debounce map stays bounded, its
  bookkeeping of timers is exact, nothing is armed once Start has returned, and a file still being written
  is never delivered.
\<close>

section \<open>How the operations change the state\<close>

text \<open>Every operation as one record update, so that the fields it leaves alone simplify away.\<close>

definition halt :: "nat set \<Rightarrow> (nat \<rightharpoonup> goroutine) \<Rightarrow> nat \<rightharpoonup> goroutine" where
  "halt T f = (\<lambda>t. if t \<in> T \<and> (\<exists>g. f t = Some g \<and> armed g) then None else f t)"

lemma halt_halt: "halt A (halt B f) = halt (A \<union> B) f"
  by (auto simp: halt_def fun_eq_iff)

lemma halt_empty [simp]: "halt {} f = f"
  by (simp add: halt_def)

lemma halt_Some: "halt T f t = Some g \<longleftrightarrow> f t = Some g \<and> \<not> (t \<in> T \<and> armed g)"
  by (auto simp: halt_def)

lemma stopTimer_alt: "stopTimer t s = s\<lparr>w_threads := halt {t} (w_threads s)\<rparr>"
  by (cases "w_threads s t") (auto simp: stopTimer_def exit_goroutine_def halt_def fun_eq_iff intro!: arg_cong[where f = "\<lambda>f. w_threads_update f s"])

lemma claimDelivery_alt:
  "claimDelivery path m s =
     (if reached (w_seen s path) m \<or> reached (w_inflight s path) m then (False, s)
      else (True, s\<lparr>w_inflight := (w_inflight s)(path \<mapsto> m)\<rparr>))"
  by (auto simp: claimDelivery_def reached_def split: option.splits)

lemma completeDelivery_alt:
  "completeDelivery path m d s =
     s\<lparr>w_seen := (if d \<and> \<not> reached (w_seen s path) m then (w_seen s)(path \<mapsto> m) else w_seen s),
       w_inflight := (if w_inflight s path = Some m then (w_inflight s)(path := None) else w_inflight s)\<rparr>"
  by (auto simp: completeDelivery_def record_seen_def reached_def split: option.splits)

lemma fold_stopTimer_alt:
  "fold (\<lambda>(path, a). stopTimer (f a)) xs s = s\<lparr>w_threads := halt (f ` snd ` set xs) (w_threads s)\<rparr>"
  by (induction xs arbitrary: s) (auto simp: stopTimer_alt halt_halt Un_commute)

lemma stopPendingTimers_alt:
  "stopPendingTimers s =
     s\<lparr>w_threads := halt ((\<lambda>a. dp_timer (w_entries s a)) ` snd ` set (w_pending s)) (w_threads s)\<rparr>"
  unfolding stopPendingTimers_def by (rule fold_stopTimer_alt)

lemma install_recheck_alt:
  "install_recheck path wait s =
     (if w_rechecksStopped s \<or> w_done s then s
      else s\<lparr>w_threads := (halt {t. map_of (w_rechecks s) path = Some t} (w_threads s))
                             (w_next s \<mapsto> RecheckArmed path (Suc (w_recheckGen s)) (w_now s + wait)),
             w_recheckGen := Suc (w_recheckGen s), w_recheckGens := (w_recheckGens s)(path \<mapsto> Suc (w_recheckGen s)),
             w_rechecks := AList.update path (w_next s) (w_rechecks s), w_next := Suc (w_next s)\<rparr>)"
  by (cases "map_of (w_rechecks s) path") (auto simp: install_recheck_def goto_def stopTimer_alt Let_def)

lemma stopAllRechecks_fold:
  "fold (\<lambda>(path, t) s. (stopTimer t s)\<lparr>w_rechecks := AList.delete path (w_rechecks s), w_recheckGens := (w_recheckGens s)(path := None)\<rparr>) xs s =
     s\<lparr>w_threads := halt (snd ` set xs) (w_threads s), w_rechecks := fold (AList.delete \<circ> fst) xs (w_rechecks s),
       w_recheckGens := w_recheckGens s |` (- fst ` set xs)\<rparr>"
proof (induction xs arbitrary: s)
  case (Cons x xs)
  have "(\<lambda>p. if p = fst x then None else w_recheckGens s p) |` (- fst ` set xs) = w_recheckGens s |` (- fst ` set (x # xs))"
    by (auto simp: restrict_map_def fun_eq_iff)
  with Cons show ?case by (cases x) (simp add: stopTimer_alt halt_halt Un_commute)
qed (simp add: restrict_map_def)

lemma fold_delete_keys: "fold (AList.delete \<circ> fst) xs ys = filter (\<lambda>y. fst y \<notin> fst ` set xs) ys"
  by (induction xs arbitrary: ys) (auto simp: AList.delete_eq comp_def intro!: filter_cong)

lemma stopAllRechecks_alt:
  "stopAllRechecks s =
     s\<lparr>w_rechecksStopped := True, w_threads := halt (snd ` set (w_rechecks s)) (w_threads s),
       w_rechecks := [], w_recheckGens := w_recheckGens s |` (- fst ` set (w_rechecks s))\<rparr>"
  unfolding stopAllRechecks_def stopAllRechecks_fold by (auto simp: fold_delete_keys filter_empty_conv)

lemmas watch_defs = goto_def exit_goroutine_def jump_def deliver_def abandon_def stopTimer_alt claimDelivery_alt
  completeDelivery_alt install_recheck_alt stopPendingTimers_alt stopAllRechecks_alt settleRecheck_def
  scan_over_def drop_entry_def arm_entry_def debounced_event_def tail_removal_def tail_event_def
  sweep_charge_def sweep_visit_def buildEvent_def

lemma emitBlocking_cases:
  assumes "emitBlocking pick fe s = Some (ok, s')"
  obtains "ok" "s' = deliver fe s" | "\<not> ok" "w_done s" "s' = abandon fe s"
  using assms by (cases pick) (auto split: if_splits)

lemma emit_select_cases:
  assumes "emit_select pick fe ch s = Some s'"
  obtains "pick = emitDelivered" "s' = deliver fe s" | "pick \<noteq> emitDelivered" "s' = abandon fe s"
  using assms by (cases pick) (auto split: if_splits)

section \<open>The ledger behind the watcher\<close>

fun scan_claim :: "scan_pc \<Rightarrow> claim option" where
  "scan_claim (ScanSend fe) = Some (Held (fe_path fe) (fe_mtime fe))"
| "scan_claim (ScanComplete fe ok) = Some (Settling (fe_path fe) (fe_mtime fe) ok)"
| "scan_claim _ = None"

fun claim_of :: "goroutine \<Rightarrow> claim option" where
  "claim_of (FlushSend _ _ fe _) = Some (Held (fe_path fe) (fe_mtime fe))"
| "claim_of (FlushPark _ _ fe _) = Some (Held (fe_path fe) (fe_mtime fe))"
| "claim_of (FlushRecheck _ _ _ (Some fe)) = Some (Settling (fe_path fe) (fe_mtime fe) False)"
| "claim_of (FlushRecheckArm _ _ _ _ (Some fe)) = Some (Settling (fe_path fe) (fe_mtime fe) False)"
| "claim_of (FlushComplete _ _ fe ok) = Some (Settling (fe_path fe) (fe_mtime fe) ok)"
| "claim_of (RecheckScan pc) = scan_claim pc"
| "claim_of _ = None"

fun loop_claim :: "loop_pc \<Rightarrow> claim option" where
  "loop_claim (ScanningFile pc _ _) = scan_claim pc"
| "loop_claim _ = None"

text \<open>File versions among events; removals carry none.\<close>

definition versions :: "FileEvent list \<Rightarrow> (string \<times> int) list" where
  "versions fes = map (\<lambda>fe. (fe_path fe, fe_mtime fe)) (filter (\<lambda>fe. fe_op fe \<noteq> OpRemove) fes)"

lemma versions_simps [simp]:
  "versions [] = []" "versions (xs @ ys) = versions xs @ versions ys"
  "versions (fe # fes) = (if fe_op fe = OpRemove then versions fes else (fe_path fe, fe_mtime fe) # versions fes)"
  by (simp_all add: versions_def)

text \<open>Holders of claims: \<open>None\<close> is the loop, \<open>Some t\<close> the goroutine \<open>t\<close>.\<close>

definition holders :: "loop_pc \<Rightarrow> (nat \<rightharpoonup> goroutine) \<Rightarrow> nat option \<rightharpoonup> claim" where
  "holders pc f h = (case h of None \<Rightarrow> loop_claim pc | Some t \<Rightarrow> (case f t of None \<Rightarrow> None | Some g \<Rightarrow> claim_of g))"

definition ledger_of :: "watch \<Rightarrow> nat option ledger" where
  "ledger_of s = \<lparr>l_seen = w_seen s, l_inflight = w_inflight s, l_open = holders (w_loop s) (w_threads s),
     l_sent = versions (map fst (w_sent s)), l_gone = versions (w_abandoned s)\<rparr>"

lemma holders_goto: "holders pc (f(t \<mapsto> g)) = (holders pc f)(Some t := claim_of g)"
  by (auto simp: holders_def fun_eq_iff split: option.splits)

lemma holders_exit: "holders pc (f(t := None)) = (holders pc f)(Some t := None)"
  by (auto simp: holders_def fun_eq_iff split: option.splits)

lemma holders_jump: "holders pc' f = (holders pc f)(None := loop_claim pc')"
  by (auto simp: holders_def fun_eq_iff split: option.splits)

lemma armed_no_claim: "armed g \<Longrightarrow> claim_of g = None"
  by (cases g) auto

lemma holders_halt [simp]: "holders pc (halt T f) = holders pc f"
  by (auto simp: holders_def fun_eq_iff halt_def armed_no_claim split: option.splits)

lemma holders_thread: "holders pc f (Some t) = (case f t of None \<Rightarrow> None | Some g \<Rightarrow> claim_of g)"
  by (simp add: holders_def)

lemma holders_loop: "holders pc f None = loop_claim pc"
  by (simp add: holders_def)

text \<open>What the refinement rests on: fresh goroutine numbers are unused, and only the loop sends removals.\<close>

fun scan_file_event :: "scan_pc \<Rightarrow> bool" where
  "scan_file_event (ScanClaim fe) \<longleftrightarrow> fe_op fe \<noteq> OpRemove"
| "scan_file_event (ScanSend fe) \<longleftrightarrow> fe_op fe \<noteq> OpRemove"
| "scan_file_event _ \<longleftrightarrow> True"

fun file_event :: "goroutine \<Rightarrow> bool" where
  "file_event (FlushBuild _ _ _ op _) \<longleftrightarrow> op \<noteq> OpRemove"
| "file_event (FlushQuiet _ _ fe _) \<longleftrightarrow> fe_op fe \<noteq> OpRemove"
| "file_event (FlushClaim _ _ fe _) \<longleftrightarrow> fe_op fe \<noteq> OpRemove"
| "file_event (FlushSend _ _ fe _) \<longleftrightarrow> fe_op fe \<noteq> OpRemove"
| "file_event (FlushPark _ _ fe _) \<longleftrightarrow> fe_op fe \<noteq> OpRemove"
| "file_event (RecheckScan pc) \<longleftrightarrow> scan_file_event pc"
| "file_event _ \<longleftrightarrow> True"

fun loop_file_event :: "loop_pc \<Rightarrow> bool" where
  "loop_file_event (ScanningFile pc _ _) \<longleftrightarrow> scan_file_event pc"
| "loop_file_event (SendingRemove fe) \<longleftrightarrow> fe_op fe = OpRemove"
| "loop_file_event (SendingEvent _ _) \<longleftrightarrow> False"
| "loop_file_event (SendingTailRemove _) \<longleftrightarrow> False"
| "loop_file_event _ \<longleftrightarrow> True"

definition events_wf :: "watch \<Rightarrow> bool" where
  "events_wf s \<longleftrightarrow> (\<forall>t\<ge>w_next s. w_threads s t = None) \<and> (\<forall>t g. w_threads s t = Some g \<longrightarrow> file_event g)
     \<and> (\<forall>a. dp_op (w_entries s a) \<noteq> OpRemove) \<and> loop_file_event (w_loop s)"

lemma armed_file_event: "armed g \<Longrightarrow> file_event g"
  by (cases g) auto

subsection \<open>Every step keeps the book\<close>

definition moves :: "'h ledger \<Rightarrow> 'h ledger \<Rightarrow> bool" where
  "moves l l' \<longleftrightarrow> l' = l \<or> ledger_step l l'"

lemma moves_refl [simp]: "moves l l"
  by (simp add: moves_def)

text \<open>The four ledger steps, for a holder whose claim is known and a state given by its fields.\<close>

lemma moves_claim:
  assumes "l_open l h = None" "\<not> reached (l_seen l p) m" "\<not> reached (l_inflight l p) m"
  shows "moves l (l\<lparr>l_inflight := (l_inflight l)(p \<mapsto> m), l_open := (l_open l)(h \<mapsto> Held p m)\<rparr>)"
  using ledger_claim[OF assms] by (simp add: moves_def)

lemma moves_deliver:
  "l_open l h = Some (Held p m) \<Longrightarrow> moves l (l\<lparr>l_open := (l_open l)(h \<mapsto> Settling p m True), l_sent := l_sent l @ [(p, m)]\<rparr>)"
  using ledger_deliver by (fastforce simp: moves_def)

lemma moves_give_up:
  "l_open l h = Some (Held p m) \<Longrightarrow> moves l (l\<lparr>l_open := (l_open l)(h \<mapsto> Settling p m False), l_gone := (p, m) # l_gone l\<rparr>)"
  using ledger_give_up by (fastforce simp: moves_def)

lemma moves_settle:
  "l_open l h = Some (Settling p m d) \<Longrightarrow>
     moves l (l\<lparr>l_seen := (if d \<and> \<not> reached (l_seen l p) m then (l_seen l)(p \<mapsto> m) else l_seen l),
       l_inflight := (if l_inflight l p = Some m then (l_inflight l)(p := None) else l_inflight l), l_open := (l_open l)(h := None)\<rparr>)"
  using ledger_settle[OF _ refl refl, of l h p m d] by (simp add: moves_def)

lemma moves_restage: "l_open l h = k \<Longrightarrow> moves l (l\<lparr>l_open := (l_open l)(h := k)\<rparr>)"
  by (auto simp: moves_def)

lemma scanFile_frame:
  assumes "scanFile c pick pc s = Some (r, s')"
  shows "w_threads s' = w_threads s" "w_loop s' = w_loop s" "w_next s' = w_next s" "w_entries s' = w_entries s"
  using assms by (cases pc; auto split: option.splits if_splits prod.splits bool.splits
      simp: claimDelivery_alt completeDelivery_alt deliver_def abandon_def elim!: emitBlocking_cases)+

definition after_scan :: "scan_pc + bool \<Rightarrow> claim option" where
  "after_scan r = (case r of Inl pc \<Rightarrow> scan_claim pc | Inr err \<Rightarrow> None)"

lemma after_scan_simps [simp]: "after_scan (Inl pc) = scan_claim pc" "after_scan (Inr err) = None"
  by (simp_all add: after_scan_def)

lemma scanFile_moves:
  assumes "scanFile c pick pc s = Some (r, s')" "scan_file_event pc" "holders (w_loop s) (w_threads s) h = scan_claim pc"
  shows "moves (ledger_of s) ((ledger_of s')\<lparr>l_open := (holders (w_loop s) (w_threads s))(h := after_scan r)\<rparr>)"
proof (cases pc)
  case (ScanRead path info)
  then show ?thesis using assms moves_restage[of "ledger_of s" h None]
    by (auto simp: ledger_of_def split: option.splits if_splits)
next
  case (ScanClaim fe)
  then show ?thesis
    using assms moves_restage[of "ledger_of s" h None] moves_claim[of "ledger_of s" h "fe_path fe" "fe_mtime fe"]
    by (auto simp: ledger_of_def claimDelivery_alt split: if_splits)
next
  case (ScanSend fe)
  then show ?thesis
    using assms moves_deliver[of "ledger_of s" h "fe_path fe" "fe_mtime fe"] moves_give_up[of "ledger_of s" h "fe_path fe" "fe_mtime fe"]
    by (auto simp: ledger_of_def deliver_def abandon_def split: option.splits if_splits elim!: emitBlocking_cases)
next
  case (ScanComplete fe ok)
  then show ?thesis
    using assms moves_settle[of "ledger_of s" h "fe_path fe" "fe_mtime fe" ok]
    by (auto simp: ledger_of_def completeDelivery_alt)
qed

lemma ledger_of_goto:
  "ledger_of (goto t g s) = (ledger_of s)\<lparr>l_open := (l_open (ledger_of s))(Some t := claim_of g)\<rparr>"
  by (simp add: ledger_of_def goto_def holders_goto)

lemma ledger_of_exit: "ledger_of (exit_goroutine t s) = (ledger_of s)\<lparr>l_open := (l_open (ledger_of s))(Some t := None)\<rparr>"
  by (simp add: ledger_of_def exit_goroutine_def holders_exit)

lemma ledger_of_jump: "ledger_of (jump pc s) = (ledger_of s)\<lparr>l_open := (l_open (ledger_of s))(None := loop_claim pc)\<rparr>"
  by (simp add: ledger_of_def jump_def holders_jump[of pc _ "w_loop s"])

lemma ledger_of_install_recheck: "events_wf s \<Longrightarrow> ledger_of (install_recheck path wait s) = ledger_of s"
proof -
  assume "events_wf s"
  then have "holders (w_loop s) (w_threads s) (Some (w_next s)) = None" by (simp add: events_wf_def holders_thread)
  then show ?thesis by (auto simp: ledger_of_def install_recheck_alt holders_goto)
qed

lemma ledger_of_frame [simp]:
  "ledger_of (settleRecheck path n s) = ledger_of s"
  "ledger_of (stopPendingTimers s) = ledger_of s" "ledger_of (stopAllRechecks s) = ledger_of s"
  "ledger_of (drop_entry path s) = ledger_of s" "ledger_of (sweep_visit path s) = ledger_of s"
  "ledger_of (s\<lparr>w_tailOffsets := o'\<rparr>) = ledger_of s" "ledger_of (s\<lparr>w_entries := e\<rparr>) = ledger_of s"
  "ledger_of (s\<lparr>w_running := b\<rparr>) = ledger_of s" "ledger_of (s\<lparr>w_sweepTick := i\<rparr>) = ledger_of s"
  "ledger_of (s\<lparr>w_now := j\<rparr>) = ledger_of s" "ledger_of (s\<lparr>w_fs := fs\<rparr>) = ledger_of s" "ledger_of (s\<lparr>w_done := b\<rparr>) = ledger_of s"
  by (auto simp: ledger_of_def watch_defs split: option.splits)

lemma ledger_of_arm_entry: "events_wf s \<Longrightarrow> ledger_of (arm_entry c path op s) = ledger_of s"
proof -
  assume "events_wf s"
  then have "holders (w_loop s) (w_threads s) (Some t) = None" if "w_next s \<le> t" for t using that by (simp add: events_wf_def holders_thread)
  then show ?thesis by (auto simp: ledger_of_def arm_entry_def goto_def stopTimer_alt holders_goto Let_def split: option.splits)
qed

lemma l_open_ledger_of: "l_open (ledger_of s) = holders (w_loop s) (w_threads s)"
  by (simp add: ledger_of_def)

lemma advance_moves:
  assumes "advance c pick t g s = Some s'" "w_threads s t = Some g" "events_wf s"
  shows "moves (ledger_of s) (ledger_of s')"
proof -
  have open_t: "l_open (ledger_of s) (Some t) = claim_of g" and fe: "file_event g"
    using assms(2,3) by (auto simp: l_open_ledger_of holders_thread events_wf_def)
  note stay = moves_restage[OF open_t]
  show ?thesis
  proof (cases g)
    case (FlushBuild a n path op ch)
    then show ?thesis using assms(1) stay
      by (auto simp: ledger_of_goto buildEvent_def Let_def split: option.splits if_splits)
  next
    case (FlushClaim a n fe ch)
    then show ?thesis using assms(1) stay open_t moves_claim[of "ledger_of s" "Some t" "fe_path fe" "fe_mtime fe"]
      by (auto simp: goto_def holders_goto claimDelivery_alt ledger_of_def split: if_splits)
  next
    case (FlushSend a n fe ch)
    then show ?thesis using assms(1) fe stay open_t moves_give_up[of "ledger_of s" "Some t" "fe_path fe" "fe_mtime fe"]
      by (auto simp: goto_def holders_goto abandon_def ledger_of_def split: if_splits)
  next
    case (FlushPark a n fe ch)
    then show ?thesis using assms(1) fe open_t
        moves_give_up[of "ledger_of s" "Some t" "fe_path fe" "fe_mtime fe"] moves_deliver[of "ledger_of s" "Some t" "fe_path fe" "fe_mtime fe"]
      by (auto simp: goto_def holders_goto abandon_def deliver_def ledger_of_def split: option.splits if_splits elim!: emit_select_cases)
  next
    case (FlushComplete a n fe ok)
    then show ?thesis using assms(1) open_t moves_settle[of "ledger_of s" "Some t" "fe_path fe" "fe_mtime fe" ok]
      by (auto simp: goto_def holders_goto completeDelivery_alt ledger_of_def)
  next
    case (RecheckScan pc)
    then have "moves (ledger_of s) ((ledger_of s1)\<lparr>l_open := (holders (w_loop s) (w_threads s))(Some t := after_scan r)\<rparr>)"
      if "scanFile c pick pc s = Some (r, s1)" for r s1
      using scanFile_moves[OF that, of "Some t"] fe open_t by (simp add: l_open_ledger_of)
    then show ?thesis using assms(1) RecheckScan
      by (auto simp: ledger_of_goto ledger_of_exit l_open_ledger_of scanFile_frame split: option.splits prod.splits sum.splits)
  next
    case (FlushRecheck a n path held)
    then show ?thesis using assms(1) stay by (cases held) (auto simp: ledger_of_goto split: option.splits)
  next
    case (FlushRecheckArm a n path wait held)
    then show ?thesis using assms(1) stay by (auto simp: ledger_of_goto ledger_of_install_recheck[OF assms(3)] split: option.splits)
  qed (use assms(1) stay in \<open>auto simp: ledger_of_goto ledger_of_exit Let_def split: if_splits option.splits\<close>)
qed

lemma loop_step_moves:
  assumes "loop_step c pick order (w_loop s) s = Some s'" "events_wf s"
  shows "moves (ledger_of s) (ledger_of s')"
proof -
  have open_l: "l_open (ledger_of s) None = loop_claim (w_loop s)" and fe: "loop_file_event (w_loop s)"
    using assms(2) by (auto simp: l_open_ledger_of holders_loop events_wf_def)
  note stay = moves_restage[OF open_l]
  show ?thesis
  proof (cases "w_loop s")
    case (Scanning todo skipped)
    then show ?thesis using assms(1) stay
      by (cases todo) (auto simp: ledger_of_jump scan_over_def split: if_splits option.splits)
  next
    case (ScanningFile pc todo skipped)
    then have "moves (ledger_of s) ((ledger_of s1)\<lparr>l_open := (holders (w_loop s) (w_threads s))(None := after_scan r)\<rparr>)"
      if "scanFile c pick pc s = Some (r, s1)" for r s1
      using scanFile_moves[OF that, of None] fe open_l by (simp add: l_open_ledger_of)
    then show ?thesis using assms(1) ScanningFile
      by (auto simp: ledger_of_jump scan_over_def l_open_ledger_of scanFile_frame split: option.splits prod.splits sum.splits if_splits)
  next
    case (Rechecking todo)
    then show ?thesis using assms(1) stay by (cases todo) (auto simp: ledger_of_jump split: option.splits)
  next
    case (RecheckingArm path wait todo)
    then show ?thesis using assms(1) stay by (auto simp: ledger_of_jump ledger_of_install_recheck[OF assms(2)])
  next
    case (SendingRemove r)
    then show ?thesis using assms(1) stay fe
      by (auto simp: ledger_of_jump ledger_of_def jump_def deliver_def abandon_def holders_jump[of SweepDue _ "SendingRemove r"]
          split: option.splits elim!: emitBlocking_cases)
  next
    case (Sweeping todo)
    then show ?thesis using assms(1) stay by (cases todo) (auto simp: ledger_of_jump)
  qed (use assms(1) stay fe in \<open>auto simp: ledger_of_jump sweep_charge_def split: if_splits\<close>)
qed

lemma handle_action_moves:
  assumes "handle_action c x s = Some s'" "events_wf s" "debounceEnabled c"
  shows "moves (ledger_of s) (ledger_of s')"
proof (cases x)
  case (Run t pick)
  then show ?thesis using assms advance_moves[of c pick t _ s s'] by (auto split: option.splits if_splits)
next
  case (Run_loop pick order)
  then show ?thesis using assms loop_step_moves by auto
next
  case (Notify ev)
  have "moves (ledger_of s) (ledger_of (debounced_event c ev s))" if "w_loop s = Waiting"
    using moves_restage[of "ledger_of s" None None] that
    by (auto simp: debounced_event_def ledger_of_jump ledger_of_arm_entry[OF assms(2)] l_open_ledger_of holders_loop)
  then show ?thesis using assms Notify by (auto split: if_splits)
next
  case (Overflow walk)
  then show ?thesis using assms moves_restage[of "ledger_of s" None None]
    by (auto simp: ledger_of_jump l_open_ledger_of holders_loop split: if_splits)
next
  case (Poll walk)
  then show ?thesis using assms moves_restage[of "ledger_of s" None None]
    by (auto simp: ledger_of_jump l_open_ledger_of holders_loop split: if_splits)
qed (use assms in \<open>auto split: if_splits\<close>)

subsection \<open>Well-formed events\<close>

text \<open>\<open>events_wf\<close> in terms of the three fields it looks at, so that it can be carried through an update.\<close>

definition threads_wf :: "nat \<Rightarrow> (nat \<rightharpoonup> goroutine) \<Rightarrow> bool" where
  "threads_wf n f \<longleftrightarrow> (\<forall>t\<ge>n. f t = None) \<and> (\<forall>t g. f t = Some g \<longrightarrow> file_event g)"

lemma events_wf_alt:
  "events_wf s \<longleftrightarrow> threads_wf (w_next s) (w_threads s) \<and> (\<forall>a. dp_op (w_entries s a) \<noteq> OpRemove) \<and> loop_file_event (w_loop s)"
  by (auto simp: events_wf_def threads_wf_def)

lemma threads_wf_upd: "\<lbrakk>threads_wf n f; file_event g; t < m; n \<le> m\<rbrakk> \<Longrightarrow> threads_wf m (f(t \<mapsto> g))"
  by (auto simp: threads_wf_def)

lemma threads_wf_exit: "threads_wf n f \<Longrightarrow> threads_wf n (f(t := None))"
  by (auto simp: threads_wf_def)

lemma threads_wf_halt: "threads_wf n f \<Longrightarrow> threads_wf n (halt T f)"
  by (auto simp: threads_wf_def halt_def)

lemma threads_wf_live: "threads_wf n f \<Longrightarrow> f t = Some g \<Longrightarrow> t < n \<and> file_event g"
  unfolding threads_wf_def by (metis linorder_not_less option.distinct(1))

lemma scanFile_events:
  "scanFile c pick pc s = Some (Inl pc', s') \<Longrightarrow> scan_file_event pc \<Longrightarrow> scan_file_event pc'"
  by (cases pc) (auto simp: scan_event_def split: option.splits if_splits prod.splits bool.splits)

lemma install_recheck_wf: "events_wf s \<Longrightarrow> events_wf (install_recheck path wait s)"
  by (auto simp: events_wf_alt install_recheck_alt intro!: threads_wf_upd threads_wf_halt)

lemma arm_entry_wf: "events_wf s \<Longrightarrow> op \<noteq> OpRemove \<Longrightarrow> events_wf (arm_entry c path op s)"
  by (auto simp: events_wf_alt arm_entry_def goto_def stopTimer_alt Let_def intro!: threads_wf_upd threads_wf_halt split: option.splits)

lemma events_wf_jump: "events_wf s \<Longrightarrow> loop_file_event pc \<Longrightarrow> events_wf (jump pc s)"
  by (simp add: events_wf_alt jump_def)

lemma goto_wf: "\<lbrakk>events_wf s; t < w_next s; file_event g\<rbrakk> \<Longrightarrow> events_wf (goto t g s)"
  by (auto simp: events_wf_alt goto_def intro: threads_wf_upd)

lemma exit_wf: "events_wf s \<Longrightarrow> events_wf (exit_goroutine t s)"
  by (simp add: events_wf_alt exit_goroutine_def threads_wf_exit)

lemma advance_wf:
  assumes "advance c pick t g s = Some s'" "w_threads s t = Some g" "events_wf s"
  shows "events_wf s'"
proof -
  have live: "t < w_next s" "file_event g" using assms(2,3) threads_wf_live by (auto simp: events_wf_alt)
  note rules = goto_wf exit_wf install_recheck_wf
  have same: "events_wf s1" if "w_threads s1 = w_threads s" "w_next s1 = w_next s" "w_entries s1 = w_entries s" "w_loop s1 = w_loop s" for s1
    using assms(3) that by (simp add: events_wf_def)
  show ?thesis
  proof (cases g)
    case (DebounceFired a n path)
    have "dp_op (w_entries s a) \<noteq> OpRemove" using assms(3) by (simp add: events_wf_def)
    then show ?thesis using assms live DebounceFired by (auto simp: Let_def intro!: rules split: if_splits)
  next
    case (FlushBuild a n path op ch)
    then show ?thesis using assms(1,3) live
      by (auto simp: buildEvent_def Let_def intro!: rules same split: option.splits if_splits)
  next
    case (FlushClaim a n fe ch)
    then show ?thesis using assms(1,3) live by (auto simp: claimDelivery_alt intro!: rules same split: if_splits)
  next
    case (FlushSend a n fe ch)
    then show ?thesis using assms(1,3) live by (auto simp: abandon_def intro!: rules same split: if_splits)
  next
    case (FlushPark a n fe ch)
    then show ?thesis using assms(1,3) live
      by (auto simp: abandon_def deliver_def intro!: rules same split: option.splits if_splits elim!: emit_select_cases)
  next
    case (FlushComplete a n fe ok)
    then show ?thesis using assms(1,3) live by (auto simp: completeDelivery_alt intro!: rules same)
  next
    case (RecheckFired path n)
    then show ?thesis using assms(1,3) live by (auto simp: settleRecheck_def intro!: rules same)
  next
    case (FlushRecheckArm a n path wait held)
    have "t < w_next (install_recheck path wait s)" using live by (auto simp: install_recheck_alt)
    then show ?thesis using assms(1,3) FlushRecheckArm by (auto intro!: rules split: option.splits)
  next
    case (FlushReturn a n)
    then show ?thesis using assms(1,3) by (auto simp: events_wf_alt exit_goroutine_def threads_wf_exit split: if_splits)
  next
    case (RecheckScan pc)
    have pre: "events_wf s1" "w_next s1 = w_next s" if "scanFile c pick pc s = Some (r, s1)" for r s1
      using scanFile_frame[OF that] same by auto
    show ?thesis using assms(1) live RecheckScan
      by (auto split: option.splits prod.splits sum.splits intro!: rules dest: pre scanFile_events)
  qed (use assms(1,3) live in \<open>auto intro!: rules split: if_splits option.splits\<close>)
qed

lemma loop_step_wf:
  assumes "loop_step c pick order (w_loop s) s = Some s'" "events_wf s"
  shows "events_wf s'"
proof -
  have same: "events_wf s1" if "w_threads s1 = w_threads s" "w_next s1 = w_next s" "w_entries s1 = w_entries s" "w_loop s1 = w_loop s" for s1
    using assms(2) that by (simp add: events_wf_def)
  have fe: "loop_file_event (w_loop s)" using assms(2) by (simp add: events_wf_def)
  note rules = events_wf_jump install_recheck_wf
  show ?thesis
  proof (cases "w_loop s")
    case (Scanning todo skipped)
    then show ?thesis using assms by (cases todo) (auto simp: scan_over_def intro!: rules split: if_splits option.splits)
  next
    case (ScanningFile pc todo skipped)
    have pre: "events_wf s1" if "scanFile c pick pc s = Some (r, s1)" for r s1
      using scanFile_frame[OF that] same by auto
    show ?thesis using assms(1) fe ScanningFile
      by (auto simp: scan_over_def split: option.splits prod.splits sum.splits if_splits intro!: rules dest: pre scanFile_events)
  next
    case (Rechecking todo)
    then show ?thesis using assms by (cases todo) (auto intro!: rules split: option.splits)
  next
    case Waiting
    then show ?thesis using assms
      by (auto simp: events_wf_alt jump_def stopPendingTimers_alt threads_wf_halt split: if_splits)
  next
    case (SendingRemove fe)
    then show ?thesis using assms by (auto simp: abandon_def deliver_def intro!: rules same split: option.splits elim!: emitBlocking_cases)
  next
    case SweepDue
    then show ?thesis using assms by (auto simp: sweep_charge_def intro!: rules same split: if_splits)
  next
    case (Sweeping todo)
    then show ?thesis using assms by (cases todo) (auto simp: sweep_visit_def intro!: rules same split: option.splits)
  next
    case Returning
    then show ?thesis using assms by (auto simp: events_wf_alt jump_def stopAllRechecks_alt threads_wf_halt)
  qed (use assms fe in \<open>auto intro!: rules split: if_splits\<close>)
qed

lemma handle_action_wf:
  assumes "handle_action c x s = Some s'" "events_wf s" "debounceEnabled c"
  shows "events_wf s'"
proof (cases x)
  case (Run t pick)
  then show ?thesis using assms advance_wf[of c pick t _ s s'] by (auto split: option.splits if_splits)
next
  case (Run_loop pick order)
  then show ?thesis using assms loop_step_wf by auto
next
  case (Notify ev)
  have "events_wf (drop_entry path s)" for path
    using assms(2) by (auto simp: events_wf_alt drop_entry_def stopTimer_alt threads_wf_halt split: option.splits)
  then have "events_wf (debounced_event c ev s)"
    using assms(2) by (auto simp: debounced_event_def opString_def remove_event_def intro!: events_wf_jump arm_entry_wf)
  then show ?thesis using assms Notify by (auto split: if_splits)
qed (use assms in \<open>auto simp: events_wf_def jump_def split: if_splits\<close>)

subsection \<open>The watcher keeps a ledger\<close>

definition watch_start :: "watch \<Rightarrow> bool" where
  "watch_start s \<longleftrightarrow> (\<exists>fs at offsets ok walk. Start_watcher ok walk (SeedTailOffsets offsets (new_watch fs at)) = Inr s)"

text \<open>A step of a watcher in one of the debounced modes.\<close>

definition watch_move :: "watch \<Rightarrow> watch \<Rightarrow> bool" where
  "watch_move s s' \<longleftrightarrow> events_wf s \<and> (\<exists>c x. debounceEnabled c \<and> handle_action c x s = Some s')"

lemma SeedTailOffsets_alt:
  "SeedTailOffsets offsets s = s\<lparr>w_tailOffsets := fold (\<lambda>(path, off) f. f(path \<mapsto> off)) offsets (w_tailOffsets s)\<rparr>"
  unfolding SeedTailOffsets_def by (induction offsets arbitrary: s) (auto simp: fun_upd_def)

lemma watch_start_fields:
  assumes "watch_start s"
  shows "w_threads s = Map.empty" "w_seen s = Map.empty" "w_inflight s = Map.empty" "w_pending s = []" "w_sent s = []" "w_abandoned s = []"
    "w_rechecks s = []" "w_recheckGens s = Map.empty" "\<not> w_rechecksStopped s" "w_sweepTick s = 0" "\<exists>walk. w_loop s = Scanning walk []"
    "dp_op (w_entries s a) = OpWrite" "\<not> dp_fired (w_entries s a)" "\<not> w_done s" "0 < w_next s"
  using assms by (auto simp: watch_start_def Start_watcher_def SeedTailOffsets_alt new_watch_def startRechecks_def jump_def split: if_splits)

lemma watch_start_wf: "watch_start s \<Longrightarrow> events_wf s"
  using watch_start_fields[of s] by (auto simp: events_wf_def)

lemma watch_move_wf: "watch_move s s' \<Longrightarrow> events_wf s'"
  unfolding watch_move_def using handle_action_wf by blast

interpretation watching: delivery_ledger ledger_of watch_start watch_move
proof
  show "ledger_of s = empty_ledger" if "watch_start s" for s
    using watch_start_fields[OF that] by (auto simp: ledger_of_def empty_ledger_def holders_def fun_eq_iff split: option.splits)
  show "ledger_of s' = ledger_of s \<or> ledger_step (ledger_of s) (ledger_of s')" if "watch_move s s'" for s s'
    using that handle_action_moves unfolding watch_move_def moves_def by blast
qed

text \<open>Runs of the model are runs of the ledger system.\<close>

lemma run_actions_invariant:
  assumes "run_actions c xs s = Some s'" "P s" "\<And>x s s'. P s \<Longrightarrow> handle_action c x s = Some s' \<Longrightarrow> P s'"
  shows "P s'"
  using assms by (induction xs arbitrary: s) (auto split: option.splits)

lemma reaches_invariant:
  assumes "reaches c xs s" "\<And>s. watch_start s \<Longrightarrow> P s" "\<And>x s s'. P s \<Longrightarrow> handle_action c x s = Some s' \<Longrightarrow> P s'"
  shows "P s"
proof -
  obtain s0 where "watch_start s0" "run_actions c xs s0 = Some s"
    using assms(1) unfolding reaches_def watch_start_def by blast
  then show ?thesis using run_actions_invariant[of c xs s0 s P] assms(2,3) by blast
qed

lemma reaches_wf: "reaches c xs s \<Longrightarrow> debounceEnabled c \<Longrightarrow> events_wf s"
  by (erule reaches_invariant) (auto intro: watch_start_wf handle_action_wf)

lemma reaches_reach:
  assumes "reaches c xs s" "debounceEnabled c"
  shows "reach watch_start watch_move s"
proof -
  have "events_wf s \<and> reach watch_start watch_move s"
    by (rule reaches_invariant[OF assms(1)])
       (use assms(2) in \<open>auto intro: watch_start_wf handle_action_wf reach_init reach_step simp: watch_move_def\<close>)
  then show ?thesis by simp
qed

end
