(* ===== verification/Watcher_Timers.thy ===== *)
theory Watcher_Timers
  imports Watcher_Laws
begin

text \<open>
  The watcher's bookkeeping of timers: every armed timer is the one its map entry names, so that it can be
  stopped; an entry marked fired has neither a timer nor a running flush; the debounce map stays bounded;
  and when Start returns no timer is left armed.
\<close>

section \<open>Debounce entries\<close>

fun entry_of :: "goroutine \<Rightarrow> (nat \<times> nat) option" where
  "entry_of (DebounceArmed a n _ _) = Some (a, n)"
| "entry_of (DebounceFired a n _) = Some (a, n)"
| "entry_of (FlushBuild a n _ _ _) = Some (a, n)"
| "entry_of (FlushQuiet a n _ _) = Some (a, n)"
| "entry_of (FlushClaim a n _ _) = Some (a, n)"
| "entry_of (FlushSend a n _ _) = Some (a, n)"
| "entry_of (FlushPark a n _ _) = Some (a, n)"
| "entry_of (FlushRecheck a n _ _) = Some (a, n)"
| "entry_of (FlushRecheckArm a n _ _ _) = Some (a, n)"
| "entry_of (FlushComplete a n _ _) = Some (a, n)"
| "entry_of (FlushReturn a n) = Some (a, n)"
| "entry_of _ = None"

definition closing :: "loop_pc \<Rightarrow> bool" where
  "closing pc \<longleftrightarrow> pc = Returning \<or> pc = Stopped"

text \<open>
  Goroutines of one entry carry distinct generations, none newer than the entry's; the current one excludes
  the mark; an armed timer is the one its entry, reachable through the map, points to.
\<close>

definition entries_inv :: "nat \<Rightarrow> (nat \<Rightarrow> debouncePending) \<Rightarrow> (nat \<rightharpoonup> goroutine) \<Rightarrow> bool" where
  "entries_inv next e f \<longleftrightarrow>
     (\<forall>t g a n. f t = Some g \<longrightarrow> entry_of g = Some (a, n) \<longrightarrow> a < next \<and> n \<le> dp_gen (e a) \<and> \<not> (dp_fired (e a) \<and> n = dp_gen (e a))) \<and>
     (\<forall>t u g g' a n. f t = Some g \<longrightarrow> f u = Some g' \<longrightarrow> entry_of g = Some (a, n) \<longrightarrow> entry_of g' = Some (a, n) \<longrightarrow> t = u)"

definition pending_inv :: "nat \<Rightarrow> (nat \<Rightarrow> debouncePending) \<Rightarrow> (string \<times> nat) list \<Rightarrow> (nat \<rightharpoonup> goroutine) \<Rightarrow> bool" where
  "pending_inv next e pend f \<longleftrightarrow>
     (\<forall>t a n path due. f t = Some (DebounceArmed a n path due) \<longrightarrow> (path, a) \<in> set pend \<and> dp_timer (e a) = t \<and> n = dp_gen (e a)) \<and>
     distinct (map fst pend) \<and> distinct (map snd pend) \<and> (\<forall>x\<in>set pend. snd x < next)"

definition debounce_inv :: "watch \<Rightarrow> bool" where
  "debounce_inv s \<longleftrightarrow> entries_inv (w_next s) (w_entries s) (w_threads s)
     \<and> pending_inv (w_next s) (w_entries s) (w_pending s) (w_threads s)
     \<and> (w_polling s \<longrightarrow> w_pending s = [])
     \<and> (closing (w_loop s) \<longrightarrow> (\<forall>t a n path due. w_threads s t \<noteq> Some (DebounceArmed a n path due)))"

lemma pending_invI:
  assumes "\<And>t a n path due. f t = Some (DebounceArmed a n path due) \<Longrightarrow> (path, a) \<in> set pend \<and> dp_timer (e a) = t \<and> n = dp_gen (e a)"
    and "distinct (map fst pend)" "distinct (map snd pend)" "\<And>x. x \<in> set pend \<Longrightarrow> snd x < next"
  shows "pending_inv next e pend f"
  unfolding pending_inv_def using assms by blast

lemma pending_invD:
  assumes "pending_inv next e pend f"
  shows "distinct (map fst pend)" "distinct (map snd pend)" "x \<in> set pend \<Longrightarrow> snd x < next"
  using assms unfolding pending_inv_def by blast+

lemma pending_inv_armed:
  assumes "pending_inv next e pend f" "f t = Some (DebounceArmed a n path due)"
  shows "map_of pend path = Some a" "(path, a) \<in> set pend" "dp_timer (e a) = t" "n = dp_gen (e a)"
  using assms unfolding pending_inv_def by (blast intro: map_of_is_SomeI)+

subsection \<open>Updates of one goroutine\<close>

lemma entries_inv_goto:
  assumes "entries_inv next e f" "f t = Some g" "entry_of g' = entry_of g \<or> entry_of g' = None"
  shows "entries_inv next e (f(t \<mapsto> g'))"
  using assms unfolding entries_inv_def by (auto; metis option.inject option.distinct(1))

lemma entries_inv_thin:
  assumes "entries_inv next e f" "\<And>t g. f' t = Some g \<Longrightarrow> f t = Some g"
  shows "entries_inv next e f'"
  using assms unfolding entries_inv_def by blast

lemma entries_inv_other:
  assumes "entries_inv next e f" "entry_of g = None" "next \<le> next'"
  shows "entries_inv next' e (f(t \<mapsto> g))"
  using assms unfolding entries_inv_def by (auto split: if_splits) (meson less_le_trans)

lemma pending_inv_goto:
  assumes "pending_inv next e pend f" "\<And>a n path due. g \<noteq> DebounceArmed a n path due" "next \<le> next'"
  shows "pending_inv next' e pend (f(t \<mapsto> g))"
  using assms unfolding pending_inv_def by (auto split: if_splits)

lemma pending_inv_thin:
  assumes "pending_inv next e pend f" "\<And>t g. f' t = Some g \<Longrightarrow> f t = Some g"
  shows "pending_inv next e pend f'"
  using assms unfolding pending_inv_def by blast

lemma debounce_goto:
  assumes "debounce_inv s" "w_threads s t = Some g" "entry_of g' = entry_of g \<or> entry_of g' = None"
    "\<And>a n path due. g' \<noteq> DebounceArmed a n path due"
  shows "debounce_inv (goto t g' s)"
  using assms entries_inv_goto[of "w_next s" "w_entries s" "w_threads s" t g g']
    pending_inv_goto[of "w_next s" "w_entries s" "w_pending s" "w_threads s" g' "w_next s" t]
  unfolding debounce_inv_def goto_def by auto

lemma debounce_exit: "debounce_inv s \<Longrightarrow> debounce_inv (exit_goroutine t s)"
  unfolding debounce_inv_def exit_goroutine_def
  by (auto elim!: entries_inv_thin pending_inv_thin split: if_splits)

lemma debounce_same:
  assumes "debounce_inv s" "w_threads s' = w_threads s" "w_next s' = w_next s" "w_entries s' = w_entries s"
    "w_pending s' = w_pending s" "w_loop s' = w_loop s" "w_polling s' = w_polling s"
  shows "debounce_inv s'"
  using assms by (simp add: debounce_inv_def)

lemma debounce_install_recheck: "debounce_inv s \<Longrightarrow> debounce_inv (install_recheck path wait s)"
  unfolding debounce_inv_def install_recheck_alt
  by (auto intro!: entries_inv_other pending_inv_goto elim!: entries_inv_thin pending_inv_thin simp: halt_Some split: if_splits)

lemma scanFile_pending:
  assumes "scanFile c pick pc s = Some (r, s')"
  shows "w_pending s' = w_pending s" "w_polling s' = w_polling s" "w_rechecks s' = w_rechecks s" "w_recheckGens s' = w_recheckGens s"
    "w_recheckGen s' = w_recheckGen s" "w_rechecksStopped s' = w_rechecksStopped s" "w_sweepTick s' = w_sweepTick s" "w_done s' = w_done s"
  using assms by (cases pc; auto split: option.splits if_splits prod.splits bool.splits
      simp: claimDelivery_alt completeDelivery_alt deliver_def abandon_def elim!: emitBlocking_cases)+

lemma advance_debounce:
  assumes step: "advance c pick t g s = Some s'" and at: "w_threads s t = Some g" and inv: "debounce_inv s" and wf: "events_wf s"
  shows "debounce_inv s'"
proof -
  have "t < w_next s" using at wf threads_wf_live by (auto simp: events_wf_alt)
  note rules = debounce_exit debounce_goto[where g = g]
  have same: "debounce_inv s1" if "w_threads s1 = w_threads s" "w_next s1 = w_next s" "w_entries s1 = w_entries s"
      "w_pending s1 = w_pending s" "w_loop s1 = w_loop s" "w_polling s1 = w_polling s" for s1
    using debounce_same[OF inv that] .
  show ?thesis
  proof (cases g)
    case (FlushBuild a n path op ch)
    then show ?thesis using step at inv by (auto simp: buildEvent_def Let_def intro!: rules same split: option.splits if_splits)
  next
    case (FlushClaim a n fe ch)
    then show ?thesis using step at inv by (auto simp: claimDelivery_alt intro!: rules same split: if_splits)
  next
    case (FlushSend a n fe ch)
    then show ?thesis using step at inv by (auto simp: abandon_def intro!: rules same split: if_splits)
  next
    case (FlushPark a n fe ch)
    then show ?thesis using step at inv
      by (auto simp: abandon_def deliver_def intro!: rules same split: option.splits if_splits elim!: emit_select_cases)
  next
    case (FlushComplete a n fe ok)
    then show ?thesis using step at inv by (auto simp: completeDelivery_alt intro!: rules same)
  next
    case (FlushRecheckArm a n path wait held)
    have "w_threads (install_recheck path wait s) t = Some g"
      using at \<open>t < w_next s\<close> FlushRecheckArm by (auto simp: install_recheck_alt halt_def)
    then show ?thesis using step debounce_install_recheck[OF inv, of path wait] FlushRecheckArm
      by (auto intro!: rules split: option.splits)
  next
    case (FlushReturn a n)
    then have "entries_inv (w_next s) ((w_entries s)(a := (w_entries s a)\<lparr>dp_fired := True\<rparr>)) ((w_threads s)(t := None))"
      if "n = dp_gen (w_entries s a)"
      using inv at that unfolding debounce_inv_def entries_inv_def by (auto split: if_splits)
    moreover have "pending_inv (w_next s) ((w_entries s)(a := (w_entries s a)\<lparr>dp_fired := True\<rparr>)) (w_pending s) ((w_threads s)(t := None))"
      using inv unfolding debounce_inv_def
      by (auto intro!: pending_invI dest: pending_invD pending_inv_armed split: if_splits)
    ultimately show ?thesis using step inv debounce_exit[OF inv, of t] FlushReturn
      by (auto simp: debounce_inv_def exit_goroutine_def split: if_splits)
  next
    case (RecheckFired path n)
    then show ?thesis using step at inv by (auto simp: settleRecheck_def intro!: rules same split: if_splits)
  next
    case (RecheckScan pc)
    have "debounce_inv s1" "w_threads s1 t = Some g" if "scanFile c pick pc s = Some (r, s1)" for r s1
      using debounce_same[OF inv] scanFile_frame[OF that] scanFile_pending[OF that] at by simp_all
    then show ?thesis using step RecheckScan
      by (auto split: option.splits prod.splits sum.splits intro!: rules)
  qed (use step at inv in \<open>auto simp: Let_def intro!: rules split: if_splits option.splits\<close>)
qed

subsection \<open>Updates of the map\<close>

lemma AList_update_new: "k \<notin> fst ` set xs \<Longrightarrow> AList.update k v xs = xs @ [(k, v)]"
  by (induction xs) auto

lemma set_AList_delete: "set (AList.delete k xs) = {x \<in> set xs. fst x \<noteq> k}"
  by (auto simp: AList.delete_eq)

lemma pending_inv_delete:
  assumes "pending_inv next e pend f"
    and "\<And>t a n path due. f t = Some (DebounceArmed a n path due) \<Longrightarrow> path \<noteq> k"
  shows "pending_inv next e (AList.delete k pend) f"
proof (rule pending_invI)
  fix t a n path due assume "f t = Some (DebounceArmed a n path due)"
  then show "(path, a) \<in> set (AList.delete k pend) \<and> dp_timer (e a) = t \<and> n = dp_gen (e a)"
    using pending_inv_armed[OF assms(1)] assms(2) by (auto simp: set_AList_delete)
qed (use pending_invD[OF assms(1)] in \<open>auto simp: AList.delete_eq distinct_map_filter\<close>)

lemma drop_entry_debounce:
  assumes "debounce_inv s"
  shows "debounce_inv (drop_entry path s)"
proof (cases "map_of (w_pending s) path")
  case (Some a)
  let ?f = "halt {dp_timer (w_entries s a)} (w_threads s)"
  have inv: "entries_inv (w_next s) (w_entries s) ?f" "pending_inv (w_next s) (w_entries s) (w_pending s) ?f"
    using assms unfolding debounce_inv_def by (auto elim!: entries_inv_thin pending_inv_thin simp: halt_Some)
  have "path' \<noteq> path" if "?f t = Some (DebounceArmed a' n path' due)" for t a' n path' due
    using assms that Some pending_inv_armed unfolding debounce_inv_def by (fastforce simp: halt_Some)
  then have "pending_inv (w_next s) (w_entries s) (AList.delete path (w_pending s)) ?f"
    using pending_inv_delete[OF inv(2)] by blast
  then show ?thesis using inv assms Some
    by (auto simp: debounce_inv_def drop_entry_def stopTimer_alt halt_Some)
qed (use assms in \<open>simp add: drop_entry_def\<close>)

lemma sweep_visit_debounce:
  assumes "debounce_inv s"
  shows "debounce_inv (sweep_visit path s)"
proof (cases "\<exists>a. map_of (w_pending s) path = Some a \<and> dp_fired (w_entries s a)")
  case True
  then obtain a where a: "map_of (w_pending s) path = Some a" "dp_fired (w_entries s a)" by blast
  have "path' \<noteq> path" if "w_threads s t = Some (DebounceArmed a' n path' due)" for t a' n path' due
  proof
    assume "path' = path"
    with that a(1) have "a' = a" "n = dp_gen (w_entries s a')"
      using assms pending_inv_armed unfolding debounce_inv_def by fastforce+
    then show False using assms that a(2) unfolding debounce_inv_def entries_inv_def by fastforce
  qed
  then have "pending_inv (w_next s) (w_entries s) (AList.delete path (w_pending s)) (w_threads s)"
    using pending_inv_delete assms unfolding debounce_inv_def by blast
  then show ?thesis using assms a by (auto simp: debounce_inv_def sweep_visit_def)
qed (use assms in \<open>auto simp: sweep_visit_def split: option.splits\<close>)

text \<open>Arming a timer for an entry whose goroutines all carry older generations.\<close>

lemma entries_inv_arm:
  assumes "entries_inv next e f" and older: "\<And>u g k. f u = Some g \<Longrightarrow> entry_of g = Some (a, k) \<Longrightarrow> k < n"
    and p: "dp_gen p = n" "\<not> dp_fired p" and "a < next'" "next \<le> next'"
  shows "entries_inv next' (e(a := p)) (f(t \<mapsto> DebounceArmed a n path due))"
  unfolding entries_inv_def
proof (intro conjI allI impI)
  fix u g b k assume g: "(f(t \<mapsto> DebounceArmed a n path due)) u = Some g" "entry_of g = Some (b, k)"
  have old: "b < next \<and> k \<le> dp_gen (e b) \<and> \<not> (dp_fired (e b) \<and> k = dp_gen (e b))" if "f u = Some g"
    using assms(1) that g(2) unfolding entries_inv_def by blast
  show "b < next'" "k \<le> dp_gen ((e(a := p)) b)" "\<not> (dp_fired ((e(a := p)) b) \<and> k = dp_gen ((e(a := p)) b))"
    using g old older[of u g k] p assms(5,6) by (cases "u = t"; cases "b = a"; force)+
next
  fix u v g g' b k
  assume "(f(t \<mapsto> DebounceArmed a n path due)) u = Some g" "(f(t \<mapsto> DebounceArmed a n path due)) v = Some g'"
    "entry_of g = Some (b, k)" "entry_of g' = Some (b, k)"
  moreover have "u = v" if "f u = Some g" "f v = Some g'" "entry_of g = Some (b, k)" "entry_of g' = Some (b, k)"
    using assms(1) that unfolding entries_inv_def by blast
  ultimately show "u = v" using older[of u g k] older[of v g' k] by (auto split: if_splits)
qed

lemma entries_inv_below: "\<lbrakk>entries_inv next e f; f u = Some g; entry_of g = Some (a, k)\<rbrakk> \<Longrightarrow> a < next \<and> k \<le> dp_gen (e a)"
  unfolding entries_inv_def by blast

lemma arm_entry_debounce:
  assumes inv: "debounce_inv s" and up: "\<not> closing (w_loop s)" "\<not> w_polling s"
  shows "debounce_inv (arm_entry c path op s)"
proof -
  have pend: "pending_inv (w_next s) (w_entries s) (w_pending s) (w_threads s)"
    and ents: "entries_inv (w_next s) (w_entries s) (w_threads s)" using inv by (simp_all add: debounce_inv_def)
  note below = entries_inv_below[OF ents]
  show ?thesis
  proof (cases "map_of (w_pending s) path")
    case None
    then have fresh: "path \<notin> fst ` set (w_pending s)" by (simp add: map_of_eq_None_iff)
    let ?t = "Suc (Suc (w_next s))"
    let ?p = "\<lparr>dp_timer = ?t, dp_op = op, dp_gen = 1, dp_fired = False, dp_cancel = Suc (w_next s)\<rparr>"
    let ?e = "(w_entries s)(w_next s := ?p)"
    let ?f = "(w_threads s)(?t \<mapsto> DebounceArmed (w_next s) 1 path (w_now s + debounceWindow c))"
    have "entries_inv (Suc ?t) ?e ?f"
      by (rule entries_inv_arm[OF ents]) (use below in auto)
    moreover have "pending_inv (Suc ?t) ?e (AList.update path (w_next s) (w_pending s)) ?f"
    proof (rule pending_invI)
      fix u a n path' due assume "?f u = Some (DebounceArmed a n path' due)"
      then show "(path', a) \<in> set (AList.update path (w_next s) (w_pending s)) \<and> dp_timer (?e a) = u \<and> n = dp_gen (?e a)"
        using pending_inv_armed[OF pend, of u a n path' due] below[of u "DebounceArmed a n path' due"] fresh
        by (auto simp: AList_update_new split: if_splits)
    qed (use pending_invD[OF pend] fresh in \<open>force simp: AList_update_new less_Suc_eq\<close>)+
    ultimately show ?thesis using up None by (simp add: debounce_inv_def arm_entry_def goto_def Let_def)
  next
    case (Some a)
    let ?t = "Suc (w_next s)"
    let ?n = "Suc (dp_gen (w_entries s a))"
    let ?p = "\<lparr>dp_timer = ?t, dp_op = op, dp_gen = ?n, dp_fired = False, dp_cancel = w_next s\<rparr>"
    let ?e = "(w_entries s)(a := ?p)"
    let ?h = "halt {dp_timer (w_entries s a)} (w_threads s)"
    let ?f = "?h(?t \<mapsto> DebounceArmed a ?n path (w_now s + debounceWindow c))"
    have a: "(path, a) \<in> set (w_pending s)" using Some by (rule map_of_SomeD)
    have "entries_inv (Suc ?t) ?e ?f"
      by (rule entries_inv_arm[OF entries_inv_thin[OF ents]])
         (use below pending_invD(3)[OF pend a] in \<open>auto simp: halt_Some less_Suc_eq_le\<close>)
    moreover have "pending_inv (Suc ?t) ?e (w_pending s) ?f"
    proof (rule pending_invI)
      fix u b n path' due assume "?f u = Some (DebounceArmed b n path' due)"
      then consider "u = ?t" "b = a" "n = ?n" "path' = path"
        | "w_threads s u = Some (DebounceArmed b n path' due)" "u \<noteq> dp_timer (w_entries s a)"
        by (cases "u = ?t") (auto simp: halt_Some)
      then show "(path', b) \<in> set (w_pending s) \<and> dp_timer (?e b) = u \<and> n = dp_gen (?e b)"
      proof cases
        case 2
        then show ?thesis using pending_inv_armed[OF pend 2(1)] by (cases "b = a") simp_all
      qed (use a in simp)
    qed (use pending_invD[OF pend] in \<open>force simp: less_Suc_eq\<close>)+
    ultimately show ?thesis using up Some by (simp add: debounce_inv_def arm_entry_def goto_def stopTimer_alt Let_def)
  qed
qed

subsection \<open>Every step\<close>

lemma debounce_jump:
  assumes "debounce_inv s" "\<not> closing pc \<or> closing (w_loop s)"
  shows "debounce_inv (jump pc s)"
  using assms by (auto simp: debounce_inv_def jump_def)

lemma loop_step_debounce:
  assumes step: "loop_step c pick order (w_loop s) s = Some s'" and inv: "debounce_inv s" and wf: "events_wf s" and deb: "debounceEnabled c"
  shows "debounce_inv s'"
proof -
  note rules = debounce_jump debounce_install_recheck sweep_visit_debounce
  have same: "debounce_inv s1" if "w_threads s1 = w_threads s" "w_next s1 = w_next s" "w_entries s1 = w_entries s"
      "w_pending s1 = w_pending s" "w_loop s1 = w_loop s" "w_polling s1 = w_polling s" for s1
    using debounce_same[OF inv that] .
  show ?thesis
  proof (cases "w_loop s")
    case (Scanning todo skipped)
    then show ?thesis using step inv by (cases todo) (auto simp: scan_over_def closing_def intro!: rules split: if_splits option.splits)
  next
    case (ScanningFile pc todo skipped)
    have "debounce_inv s1" if "scanFile c pick pc s = Some (r, s1)" for r s1
      using debounce_same[OF inv] scanFile_frame[OF that] scanFile_pending[OF that] by simp
    then show ?thesis using step ScanningFile
      by (auto simp: scan_over_def closing_def split: option.splits prod.splits sum.splits if_splits intro!: rules)
  next
    case (Rechecking todo)
    then show ?thesis using step inv by (cases todo) (auto simp: closing_def intro!: rules split: option.splits)
  next
    case Waiting
    let ?f = "w_threads (stopPendingTimers s)"
    have "entries_inv (w_next s) (w_entries s) ?f" "pending_inv (w_next s) (w_entries s) (w_pending s) ?f"
      using inv by (auto simp: debounce_inv_def stopPendingTimers_alt halt_Some elim!: entries_inv_thin pending_inv_thin)
    moreover have "?f t \<noteq> Some (DebounceArmed a n path due)" for t a n path due
      using inv pending_inv_armed(2,3)[of _ _ "w_pending s" "w_threads s" t a n path due]
      by (force simp: debounce_inv_def stopPendingTimers_alt halt_Some)
    moreover have "w_threads s t \<noteq> Some (DebounceArmed a n path due)" if "w_polling s" for t a n path due
      using inv that pending_inv_armed(2)[of _ _ "w_pending s" "w_threads s" t a n path due] by (force simp: debounce_inv_def)
    ultimately show ?thesis using step inv Waiting deb
      by (auto simp: debounce_inv_def jump_def stopPendingTimers_alt split: if_splits)
  next
    case (SendingRemove fe)
    then show ?thesis using step inv
      by (auto simp: abandon_def deliver_def closing_def intro!: rules same split: option.splits elim!: emitBlocking_cases)
  next
    case SweepDue
    then show ?thesis using step inv by (auto simp: sweep_charge_def closing_def intro!: rules same split: if_splits)
  next
    case (Sweeping todo)
    then show ?thesis using step inv by (cases todo) (auto simp: closing_def intro!: rules)
  next
    case (SendingEvent fe ev)
    then show ?thesis using wf by (simp add: events_wf_def)
  next
    case (SendingTailRemove fe)
    then show ?thesis using wf by (simp add: events_wf_def)
  next
    case Returning
    have "debounce_inv (stopAllRechecks s)" using inv Returning
      by (auto simp: debounce_inv_def stopAllRechecks_alt halt_Some closing_def elim!: entries_inv_thin pending_inv_thin)
    then show ?thesis using step Returning
      by (auto intro!: debounce_jump elim!: debounce_same simp: closing_def stopAllRechecks_alt)
  qed (use step inv in \<open>auto simp: closing_def intro!: rules split: if_splits\<close>)
qed

lemma handle_action_debounce:
  assumes step: "handle_action c x s = Some s'" and inv: "debounce_inv s" and wf: "events_wf s" and deb: "debounceEnabled c"
  shows "debounce_inv s'"
proof (cases x)
  case (Run t pick)
  then show ?thesis using step inv wf advance_debounce[of c pick t _ s s'] by (auto split: option.splits if_splits)
next
  case (Run_loop pick order)
  then show ?thesis using step inv wf deb loop_step_debounce by auto
next
  case (Notify ev)
  have "debounce_inv (debounced_event c ev s)" if "w_loop s = Waiting" "\<not> w_polling s"
    using inv that arm_entry_debounce[OF inv]
    by (auto simp: debounced_event_def closing_def intro!: debounce_jump drop_entry_debounce)
  then show ?thesis using step deb Notify by (auto split: if_splits)
qed (use step inv in \<open>auto simp: debounce_inv_def jump_def closing_def split: if_splits\<close>)

lemma watch_start_debounce: "watch_start s \<Longrightarrow> debounce_inv s"
  using watch_start_fields[of s] by (auto simp: debounce_inv_def entries_inv_def pending_inv_def closing_def)

lemma reaches_debounce:
  assumes "reaches c xs s" "debounceEnabled c"
  shows "events_wf s \<and> debounce_inv s"
  by (rule reaches_invariant[OF assms(1)])
     (use assms(2) in \<open>auto intro: watch_start_wf watch_start_debounce handle_action_wf handle_action_debounce\<close>)

section \<open>Rechecks\<close>

fun recheck_of :: "goroutine \<Rightarrow> nat option" where
  "recheck_of (RecheckArmed _ n _) = Some n"
| "recheck_of (RecheckFired _ n) = Some n"
| "recheck_of _ = None"

text \<open>Rechecks carry distinct generations, and the armed one of a path is the one the maps name.\<close>

definition rechecks_inv :: "nat \<Rightarrow> (string \<rightharpoonup> nat) \<Rightarrow> (string \<rightharpoonup> nat) \<Rightarrow> (nat \<rightharpoonup> goroutine) \<Rightarrow> bool" where
  "rechecks_inv newest timers gens f \<longleftrightarrow>
     (\<forall>t g n. f t = Some g \<longrightarrow> recheck_of g = Some n \<longrightarrow> n \<le> newest) \<and>
     (\<forall>t u g g' n. f t = Some g \<longrightarrow> f u = Some g' \<longrightarrow> recheck_of g = Some n \<longrightarrow> recheck_of g' = Some n \<longrightarrow> t = u) \<and>
     (\<forall>t path n due. f t = Some (RecheckArmed path n due) \<longrightarrow> timers path = Some t \<and> gens path = Some n)"

definition recheck_inv :: "watch \<Rightarrow> bool" where
  "recheck_inv s \<longleftrightarrow> rechecks_inv (w_recheckGen s) (map_of (w_rechecks s)) (w_recheckGens s) (w_threads s)
     \<and> (w_rechecksStopped s \<longrightarrow> w_rechecks s = []) \<and> (w_loop s = Stopped \<longrightarrow> w_rechecksStopped s)"

lemma rechecks_invI:
  assumes "\<And>t g n. f t = Some g \<Longrightarrow> recheck_of g = Some n \<Longrightarrow> n \<le> newest"
    and "\<And>t u g g' n. \<lbrakk>f t = Some g; f u = Some g'; recheck_of g = Some n; recheck_of g' = Some n\<rbrakk> \<Longrightarrow> t = u"
    and "\<And>t path n due. f t = Some (RecheckArmed path n due) \<Longrightarrow> timers path = Some t \<and> gens path = Some n"
  shows "rechecks_inv newest timers gens f"
  unfolding rechecks_inv_def using assms by blast

lemma rechecks_inv_newest: "\<lbrakk>rechecks_inv newest timers gens f; f t = Some g; recheck_of g = Some n\<rbrakk> \<Longrightarrow> n \<le> newest"
  unfolding rechecks_inv_def by blast

lemma rechecks_inv_unique:
  "\<lbrakk>rechecks_inv newest timers gens f; f t = Some g; f u = Some g'; recheck_of g = Some n; recheck_of g' = Some n\<rbrakk> \<Longrightarrow> t = u"
  unfolding rechecks_inv_def by blast

lemma rechecks_inv_tracked:
  "\<lbrakk>rechecks_inv newest timers gens f; f t = Some (RecheckArmed path n due)\<rbrakk> \<Longrightarrow> timers path = Some t \<and> gens path = Some n"
  unfolding rechecks_inv_def by blast

lemma rechecks_inv_thin:
  "\<lbrakk>rechecks_inv newest timers gens f; \<And>t g. f' t = Some g \<Longrightarrow> f t = Some g\<rbrakk> \<Longrightarrow> rechecks_inv newest timers gens f'"
  unfolding rechecks_inv_def by blast

lemma rechecks_inv_goto:
  assumes "rechecks_inv newest timers gens f" "recheck_of g = None \<or> f t = Some g0 \<and> recheck_of g = recheck_of g0 \<and> \<not> armed g"
  shows "rechecks_inv newest timers gens (f(t \<mapsto> g))"
  using assms unfolding rechecks_inv_def by (auto split: if_splits; fastforce)

lemma rechecks_inv_install:
  assumes inv: "rechecks_inv newest timers gens f"
  shows "rechecks_inv (Suc newest) (timers(path \<mapsto> t)) (gens(path \<mapsto> Suc newest))
           ((halt {u. timers path = Some u} f)(t \<mapsto> RecheckArmed path (Suc newest) due))"
proof (rule rechecks_invI)
  let ?f = "(halt {u. timers path = Some u} f)(t \<mapsto> RecheckArmed path (Suc newest) due)"
  fix u g n assume "?f u = Some g" "recheck_of g = Some n"
  then show "n \<le> Suc newest" using rechecks_inv_newest[OF inv, of u g n] by (auto simp: halt_Some split: if_splits)
next
  let ?f = "(halt {u. timers path = Some u} f)(t \<mapsto> RecheckArmed path (Suc newest) due)"
  fix u v g g' n assume "?f u = Some g" "?f v = Some g'" "recheck_of g = Some n" "recheck_of g' = Some n"
  then show "u = v"
    using rechecks_inv_newest[OF inv, of u g n] rechecks_inv_newest[OF inv, of v g' n] rechecks_inv_unique[OF inv, of u g v g' n]
    by (auto simp: halt_Some split: if_splits)
next
  let ?f = "(halt {u. timers path = Some u} f)(t \<mapsto> RecheckArmed path (Suc newest) due)"
  fix u path' n due' assume "?f u = Some (RecheckArmed path' n due')"
  then show "(timers(path \<mapsto> t)) path' = Some u \<and> (gens(path \<mapsto> Suc newest)) path' = Some n"
    using rechecks_inv_tracked[OF inv, of u path' n due'] by (auto simp: halt_Some split: if_splits)
qed

lemma rechecks_inv_settle:
  assumes inv: "rechecks_inv newest timers gens f" and at: "f t = Some (RecheckFired path n)" "gens path = Some n"
  shows "rechecks_inv newest (timers(path := None)) (gens(path := None)) f"
proof -
  have "path' \<noteq> path" if "f u = Some (RecheckArmed path' k due)" for u path' k due
  proof
    assume "path' = path"
    then have "k = n" using rechecks_inv_tracked[OF inv that] at(2) by simp
    then have "u = t" using rechecks_inv_unique[OF inv that at(1)] by simp
    then show False using that at(1) by simp
  qed
  with rechecks_inv_tracked[OF inv]
  have kept: "(timers(path := None)) path' = Some u \<and> (gens(path := None)) path' = Some k" if "f u = Some (RecheckArmed path' k due)" for u path' k due
    using that by fastforce
  show ?thesis
  proof (rule rechecks_invI)
    fix u g k assume "f u = Some g" "recheck_of g = Some k"
    then show "k \<le> newest" by (rule rechecks_inv_newest[OF inv])
  next
    fix u v g g' k assume "f u = Some g" "f v = Some g'" "recheck_of g = Some k" "recheck_of g' = Some k"
    then show "u = v" by (rule rechecks_inv_unique[OF inv])
  qed (rule kept)
qed

lemma recheck_same:
  assumes "recheck_inv s" "w_threads s' = w_threads s" "w_recheckGen s' = w_recheckGen s" "w_rechecks s' = w_rechecks s"
    "w_recheckGens s' = w_recheckGens s" "w_rechecksStopped s' = w_rechecksStopped s" "w_loop s' = w_loop s"
  shows "recheck_inv s'"
  using assms by (simp add: recheck_inv_def)

lemma recheck_goto:
  assumes "recheck_inv s" "recheck_of g = None \<or> w_threads s t = Some g0 \<and> recheck_of g = recheck_of g0 \<and> \<not> armed g"
  shows "recheck_inv (goto t g s)"
  using assms rechecks_inv_goto by (auto simp: recheck_inv_def goto_def)

lemma recheck_exit: "recheck_inv s \<Longrightarrow> recheck_inv (exit_goroutine t s)"
  by (auto simp: recheck_inv_def exit_goroutine_def elim!: rechecks_inv_thin split: if_splits)

lemma recheck_install: "recheck_inv s \<Longrightarrow> recheck_inv (install_recheck path wait s)"
  by (auto simp: recheck_inv_def install_recheck_alt AList.update_conv' intro!: rechecks_inv_install)

lemma recheck_jump: "recheck_inv s \<Longrightarrow> pc \<noteq> Stopped \<Longrightarrow> recheck_inv (jump pc s)"
  by (simp add: recheck_inv_def jump_def)

lemma recheck_halt:
  "recheck_inv s \<Longrightarrow> recheck_inv (s\<lparr>w_threads := halt T (w_threads s)\<rparr>)"
  by (auto simp: recheck_inv_def halt_Some elim!: rechecks_inv_thin)

lemma recheck_settle:
  "recheck_inv s \<Longrightarrow> w_threads s t = Some (RecheckFired path n) \<Longrightarrow> recheck_inv (settleRecheck path n s)"
  by (auto simp: recheck_inv_def settleRecheck_def AList.delete_conv' rechecks_inv_settle)

lemma recheck_stop:
  assumes "recheck_inv s"
  shows "recheck_inv ((stopAllRechecks s)\<lparr>w_running := b, w_loop := pc\<rparr>)"
proof -
  let ?f = "halt (snd ` set (w_rechecks s)) (w_threads s)"
  have inv: "rechecks_inv (w_recheckGen s) (map_of (w_rechecks s)) (w_recheckGens s) ?f"
    using assms by (auto simp: recheck_inv_def halt_Some elim!: rechecks_inv_thin)
  have "?f t \<noteq> Some (RecheckArmed path n due)" for t path n due
    using rechecks_inv_tracked[OF inv, of t path n due] by (force simp: halt_Some dest: map_of_SomeD)
  then have "rechecks_inv (w_recheckGen s) timers gens ?f" for timers gens
    using rechecks_inv_newest[OF inv] rechecks_inv_unique[OF inv] by (intro rechecks_invI) blast+
  then show ?thesis by (simp add: recheck_inv_def stopAllRechecks_alt)
qed

lemma advance_recheck:
  assumes step: "advance c pick t g s = Some s'" and at: "w_threads s t = Some g" and inv: "recheck_inv s"
  shows "recheck_inv s'"
proof -
  note rules = recheck_exit recheck_install recheck_goto[where ?g0.0 = g]
  have same: "recheck_inv s1" if "w_threads s1 = w_threads s" "w_recheckGen s1 = w_recheckGen s" "w_rechecks s1 = w_rechecks s"
      "w_recheckGens s1 = w_recheckGens s" "w_rechecksStopped s1 = w_rechecksStopped s" "w_loop s1 = w_loop s" for s1
    using recheck_same[OF inv that] .
  show ?thesis
  proof (cases g)
    case (FlushBuild a n path op ch)
    then show ?thesis using step at inv by (auto simp: buildEvent_def Let_def intro!: rules same split: option.splits if_splits)
  next
    case (FlushClaim a n fe ch)
    then show ?thesis using step at inv by (auto simp: claimDelivery_alt intro!: rules same split: if_splits)
  next
    case (FlushSend a n fe ch)
    then show ?thesis using step at inv by (auto simp: abandon_def intro!: rules same split: if_splits)
  next
    case (FlushPark a n fe ch)
    then show ?thesis using step at inv
      by (auto simp: abandon_def deliver_def intro!: rules same split: option.splits if_splits elim!: emit_select_cases)
  next
    case (FlushRecheck a n path held)
    then show ?thesis using step at inv by (auto intro!: rules split: option.splits)
  next
    case (FlushRecheckArm a n path wait held)
    then show ?thesis using step at inv by (auto intro!: rules split: option.splits)
  next
    case (FlushComplete a n fe ok)
    then show ?thesis using step at inv by (auto simp: completeDelivery_alt intro!: rules same)
  next
    case (FlushReturn a n)
    then show ?thesis using step inv by (auto intro!: recheck_exit same split: if_splits)
  next
    case (RecheckFired path n)
    then show ?thesis using step at recheck_settle[OF inv, of t path n] by (auto intro!: rules)
  next
    case (RecheckScan pc)
    have "recheck_inv s1" if "scanFile c pick pc s = Some (r, s1)" for r s1
      using recheck_same[OF inv] scanFile_frame[OF that] scanFile_pending[OF that] by simp
    then show ?thesis using step RecheckScan by (auto split: option.splits prod.splits sum.splits intro!: rules)
  qed (use step at inv in \<open>auto simp: Let_def intro!: rules split: if_splits option.splits\<close>)
qed

lemma recheck_drop: "recheck_inv s \<Longrightarrow> recheck_inv (drop_entry path s)"
  by (auto simp: drop_entry_def stopTimer_alt recheck_inv_def halt_Some elim!: rechecks_inv_thin split: option.splits)

lemma recheck_arm: "recheck_inv s \<Longrightarrow> recheck_inv (arm_entry c path op s)"
  by (auto simp: arm_entry_def goto_def stopTimer_alt recheck_inv_def Let_def
      intro!: rechecks_inv_goto rechecks_inv_thin[of _ _ _ "w_threads s" "halt _ (w_threads s)"] dest: halt_Some[THEN iffD1] split: option.splits)

lemma recheck_sweep: "recheck_inv s \<Longrightarrow> recheck_inv (sweep_visit path s)"
  by (auto simp: sweep_visit_def recheck_inv_def split: option.splits)

lemma loop_step_recheck:
  assumes step: "loop_step c pick order (w_loop s) s = Some s'" and inv: "recheck_inv s" and wf: "events_wf s"
  shows "recheck_inv s'"
proof -
  note rules = recheck_jump recheck_install recheck_sweep
  have same: "recheck_inv s1" if "w_threads s1 = w_threads s" "w_recheckGen s1 = w_recheckGen s" "w_rechecks s1 = w_rechecks s"
      "w_recheckGens s1 = w_recheckGens s" "w_rechecksStopped s1 = w_rechecksStopped s" "w_loop s1 = w_loop s" for s1
    using recheck_same[OF inv that] .
  show ?thesis
  proof (cases "w_loop s")
    case (Scanning todo skipped)
    then show ?thesis using step inv by (cases todo) (auto simp: scan_over_def intro!: rules split: if_splits option.splits)
  next
    case (ScanningFile pc todo skipped)
    have "recheck_inv s1" if "scanFile c pick pc s = Some (r, s1)" for r s1
      using recheck_same[OF inv] scanFile_frame[OF that] scanFile_pending[OF that] by simp
    then show ?thesis using step ScanningFile
      by (auto simp: scan_over_def split: option.splits prod.splits sum.splits if_splits intro!: rules)
  next
    case (Rechecking todo)
    then show ?thesis using step inv by (cases todo) (auto intro!: rules split: option.splits)
  next
    case Waiting
    then show ?thesis using step inv by (auto simp: stopPendingTimers_alt intro!: rules recheck_halt split: if_splits)
  next
    case (SendingRemove fe)
    then show ?thesis using step inv
      by (auto simp: abandon_def deliver_def intro!: rules same split: option.splits elim!: emitBlocking_cases)
  next
    case SweepDue
    then show ?thesis using step inv by (auto simp: sweep_charge_def intro!: rules same split: if_splits)
  next
    case (Sweeping todo)
    then show ?thesis using step inv by (cases todo) (auto intro!: rules)
  next
    case (SendingEvent fe ev)
    then show ?thesis using wf by (simp add: events_wf_def)
  next
    case (SendingTailRemove fe)
    then show ?thesis using wf by (simp add: events_wf_def)
  next
    case Returning
    then show ?thesis using step recheck_stop[OF inv] by (auto simp: jump_def)
  qed (use step inv in \<open>auto intro!: rules split: if_splits\<close>)
qed

lemma handle_action_recheck:
  assumes step: "handle_action c x s = Some s'" and inv: "recheck_inv s" and wf: "events_wf s" and deb: "debounceEnabled c"
  shows "recheck_inv s'"
proof (cases x)
  case (Run t pick)
  then show ?thesis using step inv advance_recheck[of c pick t _ s s'] by (auto split: option.splits if_splits)
next
  case (Run_loop pick order)
  then show ?thesis using step inv wf loop_step_recheck by auto
next
  case (Notify ev)
  then show ?thesis using step inv deb
    by (auto simp: debounced_event_def intro!: recheck_jump recheck_drop recheck_arm split: if_splits)
qed (use step inv in \<open>auto simp: recheck_inv_def jump_def split: if_splits\<close>)

lemma reaches_recheck:
  assumes "reaches c xs s" "debounceEnabled c"
  shows "events_wf s \<and> recheck_inv s"
proof (rule reaches_invariant[OF assms(1)])
  show "events_wf s \<and> recheck_inv s" if "watch_start s" for s
    using watch_start_fields[OF that] watch_start_wf[OF that] by (auto simp: recheck_inv_def rechecks_inv_def)
qed (use assms(2) in \<open>auto intro: handle_action_wf handle_action_recheck\<close>)

end
