(* ===== verification/Watcher_Bounds.thy ===== *)
theory Watcher_Bounds
  imports Watcher_Timers
begin

text \<open>
  The size of the debounce map, the quietness of delivered files, and the watcher's properties put
  together from the ledger and the timer invariants.
\<close>

section \<open>The debounce map stays bounded\<close>

text \<open>Entries still waiting for their flush, and the most of them at any moment of a run.\<close>

definition active_paths :: "watch \<Rightarrow> string set" where
  "active_paths s = {path. \<exists>a. (path, a) \<in> set (w_pending s) \<and> \<not> dp_fired (w_entries s a)}"

definition active :: "watch \<Rightarrow> nat" where
  "active s = length (filter (\<lambda>x. \<not> dp_fired (w_entries s (snd x))) (w_pending s))"

fun peak :: "watcher_cfg \<Rightarrow> action list \<Rightarrow> watch \<Rightarrow> nat" where
  "peak c [] s = active s"
| "peak c (x # xs) s = max (active s) (case handle_action c x s of None \<Rightarrow> 0 | Some s1 \<Rightarrow> peak c xs s1)"

definition sweep_inv :: "watcher_cfg \<Rightarrow> nat \<Rightarrow> watch \<Rightarrow> bool" where
  "sweep_inv c k s \<longleftrightarrow> 0 \<le> w_sweepTick s \<and> w_sweepTick s < sweepEvery c \<and>
     (case w_loop s of
        Sweeping todo \<Rightarrow> int (length (w_pending s)) \<le> int k + sweepEvery c \<and> w_sweepTick s = 0 \<and>
          (\<exists>A. finite A \<and> card A \<le> k \<and> fst ` set (w_pending s) \<subseteq> A \<union> set todo \<and> active_paths s \<subseteq> A)
      | SweepDue \<Rightarrow> int (length (w_pending s)) \<le> int k + w_sweepTick s + 1
      | SendingRemove _ \<Rightarrow> int (length (w_pending s)) \<le> int k + w_sweepTick s + 1
      | _ \<Rightarrow> int (length (w_pending s)) \<le> int k + w_sweepTick s)"

lemma active_paths_card: "card (active_paths s) \<le> active s" and active_paths_finite: "finite (active_paths s)"
proof -
  have eq: "active_paths s = fst ` set (filter (\<lambda>x. \<not> dp_fired (w_entries s (snd x))) (w_pending s))"
    by (force simp: active_paths_def)
  show "finite (active_paths s)" unfolding eq by simp
  show "card (active_paths s) \<le> active s" unfolding eq active_def
    by (rule order_trans[OF card_image_le card_length]) simp
qed

lemma active_paths_frame [simp]:
  "active_paths (s\<lparr>w_loop := pc\<rparr>) = active_paths s" "active_paths (s\<lparr>w_sweepTick := i\<rparr>) = active_paths s"
  by (simp_all add: active_paths_def)

lemma sweep_inv_same:
  assumes "sweep_inv c k s" "w_pending s' = w_pending s" "w_entries s' = w_entries s" "w_loop s' = w_loop s" "w_sweepTick s' = w_sweepTick s"
  shows "sweep_inv c k s'"
proof -
  have "active_paths s' = active_paths s" by (simp add: active_paths_def assms)
  then show ?thesis using assms(1) unfolding sweep_inv_def assms(2-5) by (simp split: loop_pc.splits)
qed

lemma sweep_inv_bound: "sweep_inv c k s \<Longrightarrow> int (length (w_pending s)) \<le> int k + sweepEvery c"
  by (auto simp: sweep_inv_def split: loop_pc.splits)

lemma sweepEvery_pos: "0 < sweepEvery c"
  by (simp add: sweepEvery_def defaultPendingSweepEvery_def)

lemma advance_pending:
  assumes "advance c pick t g s = Some s'"
  shows "w_pending s' = w_pending s" "w_loop s' = w_loop s" "w_sweepTick s' = w_sweepTick s"
    "dp_fired (w_entries s a) \<Longrightarrow> dp_fired (w_entries s' a)"
proof -
  have "w_pending s' = w_pending s \<and> w_loop s' = w_loop s \<and> w_sweepTick s' = w_sweepTick s
      \<and> (dp_fired (w_entries s a) \<longrightarrow> dp_fired (w_entries s' a))"
  proof (cases g)
    case (RecheckScan pc)
    then show ?thesis using assms
      by (auto simp: goto_def exit_goroutine_def split: option.splits prod.splits sum.splits dest: scanFile_pending scanFile_frame)
  qed (use assms in \<open>auto simp: watch_defs Let_def split: if_splits option.splits elim!: emit_select_cases\<close>)
  then show "w_pending s' = w_pending s" "w_loop s' = w_loop s" "w_sweepTick s' = w_sweepTick s"
    "dp_fired (w_entries s a) \<Longrightarrow> dp_fired (w_entries s' a)" by simp_all
qed

lemma advance_sweep: "advance c pick t g s = Some s' \<Longrightarrow> sweep_inv c k s \<Longrightarrow> sweep_inv c k s'"
proof -
  assume step: "advance c pick t g s = Some s'" and inv: "sweep_inv c k s"
  note frame = advance_pending(1-3)[OF step]
  have "active_paths s' \<subseteq> active_paths s"
    using advance_pending(4)[OF step] by (auto simp: active_paths_def frame)
  then show ?thesis using inv unfolding sweep_inv_def frame
    by (auto split: loop_pc.splits) (blast intro: subset_trans)
qed

lemma length_AList_delete: "length (AList.delete k xs) \<le> length xs"
  by (simp add: AList.delete_eq)

lemma length_AList_update: "length (AList.update k v xs) \<le> Suc (length xs)"
  by (induction xs) auto

lemma loop_step_sweep:
  assumes step: "loop_step c pick order (w_loop s) s = Some s'" and inv: "sweep_inv c k s" and most: "active s \<le> k"
    and keys: "distinct (map fst (w_pending s))"
  shows "sweep_inv c k s'"
proof (cases "w_loop s")
  case (Scanning todo skipped)
  then show ?thesis using step inv by (cases todo) (auto simp: scan_over_def jump_def sweep_inv_def split: if_splits option.splits)
next
  case (ScanningFile pc todo skipped)
  then show ?thesis using step inv
    by (auto simp: scan_over_def jump_def sweep_inv_def scanFile_pending(1,7) split: option.splits prod.splits sum.splits if_splits)
next
  case (Rechecking todo)
  then show ?thesis using step inv by (cases todo) (auto simp: jump_def sweep_inv_def split: option.splits)
next
  case (RecheckingArm path wait todo)
  then show ?thesis using step inv by (auto simp: jump_def sweep_inv_def install_recheck_alt)
next
  case SweepDue
  have "card (active_paths s) \<le> k" using active_paths_card[of s] most by simp
  then show ?thesis using step inv SweepDue active_paths_finite[of s] sweepEvery_pos[of c]
    by (auto simp: sweep_charge_def jump_def sweep_inv_def split: if_splits intro!: exI[of _ "active_paths s"])
next
  case (Sweeping todo)
  then obtain A where A: "finite A" "card A \<le> k" "fst ` set (w_pending s) \<subseteq> A \<union> set todo" "active_paths s \<subseteq> A"
    using inv by (auto simp: sweep_inv_def)
  show ?thesis
  proof (cases todo)
    case Nil
    have "length (w_pending s) = card (fst ` set (w_pending s))" using distinct_card[OF keys] by simp
    also have "\<dots> \<le> k" using A Nil card_mono[of A "fst ` set (w_pending s)"] by simp
    finally show ?thesis using step inv Sweeping Nil by (auto simp: jump_def sweep_inv_def)
  next
    case (Cons path rest)
    let ?s = "sweep_visit path s"
    have "path \<in> A" if "map_of (w_pending s) path = Some a" "\<not> dp_fired (w_entries s a)" for a
      using A(4) that by (auto simp: active_paths_def dest: map_of_SomeD)
    then have "fst ` set (w_pending ?s) \<subseteq> A \<union> set rest" "active_paths ?s \<subseteq> A" "length (w_pending ?s) \<le> length (w_pending s)"
      using A Cons length_AList_delete[of path "w_pending s"]
      by (auto simp: sweep_visit_def active_paths_def set_AList_delete map_of_eq_None_iff dest: map_of_SomeD split: option.splits)
    moreover have "w_sweepTick ?s = w_sweepTick s" by (simp add: sweep_visit_def split: option.splits)
    ultimately show ?thesis using step inv Sweeping Cons A(1,2)
      by (auto simp: jump_def sweep_inv_def intro: exI[of _ A])
  qed
qed (use step inv in \<open>auto simp: jump_def sweep_inv_def deliver_def abandon_def stopPendingTimers_alt stopAllRechecks_alt tail_removal_def
  split: if_splits option.splits elim!: emitBlocking_cases\<close>)

lemma handle_action_sweep:
  assumes step: "handle_action c x s = Some s'" and inv: "sweep_inv c k s" and most: "active s \<le> k"
    and ok: "debounce_inv s" "debounceEnabled c"
  shows "sweep_inv c k s'"
proof (cases x)
  case (Run t pick)
  then show ?thesis using step inv advance_sweep[of c pick t _ s s'] by (auto split: option.splits if_splits)
next
  case (Run_loop pick order)
  have "distinct (map fst (w_pending s))" using ok(1) pending_invD(1) by (auto simp: debounce_inv_def)
  then show ?thesis using step inv most Run_loop loop_step_sweep by auto
next
  case (Notify ev)
  have "length (w_pending (arm_entry c path op s)) \<le> Suc (length (w_pending s))" "w_sweepTick (arm_entry c path op s) = w_sweepTick s" for path op
    using length_AList_update by (auto simp: arm_entry_def goto_def stopTimer_alt Let_def split: option.splits)
  moreover have "length (w_pending (drop_entry path s)) \<le> length (w_pending s)" "w_sweepTick (drop_entry path s) = w_sweepTick s" for path
    using length_AList_delete by (auto simp: drop_entry_def stopTimer_alt split: option.splits)
  ultimately have "sweep_inv c k (debounced_event c ev s)" if "w_loop s = Waiting"
    using inv that unfolding sweep_inv_def debounced_event_def jump_def by auto (smt (verit) of_nat_Suc of_nat_mono)+
  then show ?thesis using step ok(2) Notify by (auto split: if_splits)
next
  case (Overflow walk)
  then show ?thesis using step inv by (auto simp: sweep_inv_def jump_def split: if_splits)
next
  case (Poll walk)
  then show ?thesis using step inv by (auto simp: sweep_inv_def jump_def split: if_splits)
qed (use step in \<open>auto intro: sweep_inv_same[OF inv] split: if_splits\<close>)

lemma run_actions_sweep:
  assumes "run_actions c xs s = Some s'" "sweep_inv c k s" "peak c xs s \<le> k" "events_wf s" "debounce_inv s" "debounceEnabled c"
  shows "sweep_inv c k s'"
  using assms
proof (induction xs arbitrary: s)
  case (Cons x xs)
  then obtain s1 where s1: "handle_action c x s = Some s1" "run_actions c xs s1 = Some s'" by (auto split: option.splits)
  show ?case
    using Cons.IH[OF s1(2)] handle_action_sweep[OF s1(1)] handle_action_wf[OF s1(1)] handle_action_debounce[OF s1(1)] Cons.prems s1(1)
    by simp
qed simp

section \<open>Only quiet files are delivered\<close>

text \<open>Modification times are not in the future.\<close>

definition no_future :: "watch \<Rightarrow> bool" where
  "no_future s \<longleftrightarrow> (\<forall>path info. w_fs s path = Some info \<longrightarrow> st_mtime info \<le> w_now s)"

fun honest :: "watcher_cfg \<Rightarrow> action list \<Rightarrow> watch \<Rightarrow> bool" where
  "honest c [] s \<longleftrightarrow> no_future s"
| "honest c (x # xs) s \<longleftrightarrow> no_future s \<and> (case handle_action c x s of None \<Rightarrow> True | Some s1 \<Rightarrow> honest c xs s1)"

fun scan_quiet :: "int \<Rightarrow> scan_pc \<Rightarrow> bool" where
  "scan_quiet before (ScanRead path info) \<longleftrightarrow> st_mtime info \<le> before"
| "scan_quiet before (ScanClaim fe) \<longleftrightarrow> fe_mtime fe \<le> before"
| "scan_quiet before (ScanSend fe) \<longleftrightarrow> fe_mtime fe \<le> before"
| "scan_quiet before (ScanComplete fe ok) \<longleftrightarrow> True"

text \<open>\<open>before\<close> is the latest quiet modification time; a stat not yet tested is only known to lie in the past.\<close>

fun quiet :: "int \<Rightarrow> int \<Rightarrow> goroutine \<Rightarrow> bool" where
  "quiet at before (FlushQuiet _ _ fe _) \<longleftrightarrow> fe_mtime fe \<le> at"
| "quiet at before (FlushClaim _ _ fe _) \<longleftrightarrow> fe_mtime fe \<le> before"
| "quiet at before (FlushSend _ _ fe _) \<longleftrightarrow> fe_mtime fe \<le> before"
| "quiet at before (FlushPark _ _ fe _) \<longleftrightarrow> fe_mtime fe \<le> before"
| "quiet at before (RecheckQuiet _ info) \<longleftrightarrow> st_mtime info \<le> at"
| "quiet at before (RecheckScan pc) \<longleftrightarrow> scan_quiet before pc"
| "quiet at before _ \<longleftrightarrow> True"

fun loop_quiet :: "int \<Rightarrow> int \<Rightarrow> loop_pc \<Rightarrow> bool" where
  "loop_quiet at before (ScanningQuiet _ info _ _) \<longleftrightarrow> st_mtime info \<le> at"
| "loop_quiet at before (ScanningFile pc _ _) \<longleftrightarrow> scan_quiet before pc"
| "loop_quiet at before _ \<longleftrightarrow> True"

definition quiet_inv :: "watcher_cfg \<Rightarrow> watch \<Rightarrow> bool" where
  "quiet_inv c s \<longleftrightarrow> (\<forall>t g. w_threads s t = Some g \<longrightarrow> quiet (w_now s) (w_now s - debounceWindow c) g)
     \<and> loop_quiet (w_now s) (w_now s - debounceWindow c) (w_loop s)
     \<and> (\<forall>(fe, at)\<in>set (w_sent s). fe_op fe \<noteq> OpRemove \<longrightarrow> debounceWindow c \<le> at - fe_mtime fe)"

lemma scan_quiet_mono: "scan_quiet b pc \<Longrightarrow> b \<le> b' \<Longrightarrow> scan_quiet b' pc"
  by (cases pc) auto

lemma quiet_mono: "quiet a b g \<Longrightarrow> a \<le> a' \<Longrightarrow> b \<le> b' \<Longrightarrow> quiet a' b' g"
  by (cases g) (auto intro: scan_quiet_mono)

lemma loop_quiet_mono: "loop_quiet a b pc \<Longrightarrow> a \<le> a' \<Longrightarrow> b \<le> b' \<Longrightarrow> loop_quiet a' b' pc"
  by (cases pc) (auto intro: scan_quiet_mono)

lemma not_hot: "\<lbrakk>debounceEnabled c; \<not> hot c at m; m \<le> at\<rbrakk> \<Longrightarrow> m \<le> at - debounceWindow c"
  by (auto simp: hot_def)

definition threads_quiet :: "watcher_cfg \<Rightarrow> int \<Rightarrow> (nat \<rightharpoonup> goroutine) \<Rightarrow> bool" where
  "threads_quiet c at f \<longleftrightarrow> (\<forall>t g. f t = Some g \<longrightarrow> quiet at (at - debounceWindow c) g)"

definition sent_quiet :: "watcher_cfg \<Rightarrow> (FileEvent \<times> int) list \<Rightarrow> bool" where
  "sent_quiet c xs \<longleftrightarrow> (\<forall>(fe, at)\<in>set xs. fe_op fe \<noteq> OpRemove \<longrightarrow> debounceWindow c \<le> at - fe_mtime fe)"

lemma quiet_inv_alt:
  "quiet_inv c s \<longleftrightarrow> threads_quiet c (w_now s) (w_threads s) \<and> loop_quiet (w_now s) (w_now s - debounceWindow c) (w_loop s) \<and> sent_quiet c (w_sent s)"
  by (simp add: quiet_inv_def threads_quiet_def sent_quiet_def)

lemma threads_quiet_upd: "threads_quiet c at f \<Longrightarrow> quiet at (at - debounceWindow c) g \<Longrightarrow> threads_quiet c at (f(t \<mapsto> g))"
  by (simp add: threads_quiet_def)

lemma threads_quiet_thin: "threads_quiet c at f \<Longrightarrow> (\<And>t g. f' t = Some g \<Longrightarrow> f t = Some g) \<Longrightarrow> threads_quiet c at f'"
  by (auto simp: threads_quiet_def)

lemma armed_quiet: "armed g \<Longrightarrow> quiet a b g"
  by (cases g) auto

lemma scanFile_quiet:
  assumes "scanFile c pick pc s = Some (r, s')" "scan_quiet (w_now s - debounceWindow c) pc" "sent_quiet c (w_sent s)"
  shows "sent_quiet c (w_sent s')" "w_now s' = w_now s" "r = Inl pc' \<Longrightarrow> scan_quiet (w_now s - debounceWindow c) pc'"
  using assms by (cases pc; auto simp: claimDelivery_alt completeDelivery_alt deliver_def abandon_def scan_event_def sent_quiet_def
      split: option.splits if_splits prod.splits bool.splits elim!: emitBlocking_cases)+

lemma quiet_goto:
  assumes "quiet_inv c s" "quiet (w_now s) (w_now s - debounceWindow c) g"
  shows "quiet_inv c (goto t g s)"
  using assms by (simp add: quiet_inv_alt goto_def threads_quiet_upd)

lemma quiet_exit: "quiet_inv c s \<Longrightarrow> quiet_inv c (exit_goroutine t s)"
  by (auto simp: quiet_inv_alt exit_goroutine_def elim!: threads_quiet_thin split: if_splits)

lemma quiet_same:
  assumes "quiet_inv c s" "w_threads s' = w_threads s" "w_now s' = w_now s" "w_loop s' = w_loop s" "w_sent s' = w_sent s"
  shows "quiet_inv c s'"
  using assms by (simp add: quiet_inv_alt)

lemma quiet_install: "quiet_inv c s \<Longrightarrow> quiet_inv c (install_recheck path wait s)"
  by (auto simp: quiet_inv_alt install_recheck_alt intro!: threads_quiet_upd threads_quiet_thin[of _ _ _ "halt _ (w_threads s)"]
      dest: halt_Some[THEN iffD1])

lemma quiet_jump: "quiet_inv c s \<Longrightarrow> loop_quiet (w_now s) (w_now s - debounceWindow c) pc \<Longrightarrow> quiet_inv c (jump pc s)"
  by (simp add: quiet_inv_alt jump_def)

lemma advance_quiet:
  assumes step: "advance c pick t g s = Some s'" and at: "w_threads s t = Some g" and inv: "quiet_inv c s"
    and past: "no_future s" and deb: "debounceEnabled c"
  shows "quiet_inv c s'"
proof -
  note rules = quiet_exit quiet_install quiet_goto
  have here: "quiet (w_now s) (w_now s - debounceWindow c) g" using inv at by (simp add: quiet_inv_def)
  have same: "quiet_inv c s1" if "w_threads s1 = w_threads s" "w_now s1 = w_now s" "w_loop s1 = w_loop s" "w_sent s1 = w_sent s" for s1
    using quiet_same[OF inv that] .
  show ?thesis
  proof (cases g)
    case (FlushBuild a n path op ch)
    then show ?thesis using step inv past
      by (auto simp: buildEvent_def no_future_def Let_def intro!: rules same split: option.splits if_splits)
  next
    case (FlushQuiet a n fe ch)
    then show ?thesis using step inv here not_hot[OF deb] by (auto intro!: rules)
  next
    case (FlushClaim a n fe ch)
    then show ?thesis using step inv here by (auto simp: claimDelivery_alt intro!: rules same split: if_splits)
  next
    case (FlushSend a n fe ch)
    then show ?thesis using step inv here by (auto simp: abandon_def intro!: rules same split: if_splits)
  next
    case (FlushPark a n fe ch)
    have "quiet_inv c (deliver fe s)" using inv here FlushPark by (simp add: quiet_inv_alt deliver_def sent_quiet_def)
    moreover have "quiet_inv c (abandon fe s)" by (rule same) (simp_all add: abandon_def)
    ultimately show ?thesis using step FlushPark
      by (auto intro!: rules split: option.splits if_splits elim!: emit_select_cases)
  next
    case (FlushComplete a n fe ok)
    then show ?thesis using step inv by (auto simp: completeDelivery_alt intro!: rules same)
  next
    case (FlushReturn a n)
    then show ?thesis using step inv by (auto intro!: quiet_exit same split: if_splits)
  next
    case (RecheckFired path n)
    then show ?thesis using step inv by (auto simp: settleRecheck_def intro!: rules same split: if_splits)
  next
    case (RecheckQuiet path info)
    then show ?thesis using step inv here not_hot[OF deb] by (auto intro!: rules split: if_splits)
  next
    case (RecheckScan pc)
    have sent: "sent_quiet c (w_sent s)" "scan_quiet (w_now s - debounceWindow c) pc" using inv here RecheckScan by (simp_all add: quiet_inv_alt)
    have "quiet_inv c s1" if "scanFile c pick pc s = Some (r, s1)" for r s1
      using inv scanFile_quiet[OF that sent(2,1)] scanFile_frame[OF that] by (simp add: quiet_inv_alt)
    then show ?thesis using step RecheckScan scanFile_quiet(2,3)[OF _ sent(2,1)]
      by (auto split: option.splits prod.splits sum.splits intro!: rules)
  qed (use step inv past in \<open>auto simp: Let_def no_future_def intro!: rules split: if_splits option.splits\<close>)
qed

lemma loop_step_quiet:
  assumes step: "loop_step c pick order (w_loop s) s = Some s'" and inv: "quiet_inv c s" and wf: "events_wf s"
    and past: "no_future s" and deb: "debounceEnabled c"
  shows "quiet_inv c s'"
proof -
  note rules = quiet_jump quiet_install
  have here: "loop_quiet (w_now s) (w_now s - debounceWindow c) (w_loop s)" and sent: "sent_quiet c (w_sent s)"
    using inv by (simp_all add: quiet_inv_alt)
  have same: "quiet_inv c s1" if "w_threads s1 = w_threads s" "w_now s1 = w_now s" "w_loop s1 = w_loop s" "w_sent s1 = w_sent s" for s1
    using quiet_same[OF inv that] .
  show ?thesis
  proof (cases "w_loop s")
    case (Scanning todo skipped)
    then show ?thesis using step inv past
      by (cases todo) (auto simp: scan_over_def no_future_def intro!: rules split: if_splits option.splits)
  next
    case (ScanningQuiet path info todo skipped)
    then show ?thesis using step inv here not_hot[OF deb] by (auto intro!: rules split: if_splits)
  next
    case (ScanningFile pc todo skipped)
    have pc: "scan_quiet (w_now s - debounceWindow c) pc" using here ScanningFile by simp
    have "quiet_inv c s1" if "scanFile c pick pc s = Some (r, s1)" for r s1
      using inv scanFile_quiet[OF that pc sent] scanFile_frame[OF that] by (simp add: quiet_inv_alt)
    then show ?thesis using step ScanningFile scanFile_quiet(2,3)[OF _ pc sent]
      by (auto simp: scan_over_def split: option.splits prod.splits sum.splits if_splits intro!: rules)
  next
    case (Rechecking todo)
    then show ?thesis using step inv by (cases todo) (auto intro!: rules split: option.splits)
  next
    case Waiting
    have "quiet_inv c (stopPendingTimers s)"
      using inv by (auto simp: quiet_inv_alt stopPendingTimers_alt halt_Some elim!: threads_quiet_thin)
    then show ?thesis using step inv Waiting by (auto intro!: rules split: if_splits)
  next
    case (SendingRemove fe)
    then have "fe_op fe = OpRemove" using wf by (simp add: events_wf_def)
    then show ?thesis using step inv sent SendingRemove
      by (auto simp: jump_def abandon_def deliver_def quiet_inv_alt sent_quiet_def split: option.splits elim!: emitBlocking_cases)
  next
    case SweepDue
    then show ?thesis using step inv by (auto simp: sweep_charge_def intro!: rules same split: if_splits)
  next
    case (Sweeping todo)
    then show ?thesis using step inv by (cases todo) (auto simp: sweep_visit_def intro!: rules same split: option.splits)
  next
    case (SendingEvent fe ev)
    then show ?thesis using wf by (simp add: events_wf_def)
  next
    case (SendingTailRemove fe)
    then show ?thesis using wf by (simp add: events_wf_def)
  next
    case Returning
    have "quiet_inv c ((stopAllRechecks s)\<lparr>w_running := False\<rparr>)"
      using inv by (auto simp: quiet_inv_alt stopAllRechecks_alt halt_Some elim!: threads_quiet_thin)
    then show ?thesis using step Returning by (auto intro!: rules)
  qed (use step inv in \<open>auto intro!: rules split: if_splits\<close>)
qed

lemma handle_action_quiet:
  assumes step: "handle_action c x s = Some s'" and inv: "quiet_inv c s" and wf: "events_wf s"
    and past: "no_future s" and deb: "debounceEnabled c"
  shows "quiet_inv c s'"
proof (cases x)
  case (Run t pick)
  then show ?thesis using step inv past deb advance_quiet[of c pick t _ s s'] by (auto split: option.splits if_splits)
next
  case (Run_loop pick order)
  then show ?thesis using step inv wf past deb loop_step_quiet by auto
next
  case (Notify ev)
  have "quiet_inv c (drop_entry path s)" for path
    using inv by (auto simp: drop_entry_def stopTimer_alt quiet_inv_alt halt_Some elim!: threads_quiet_thin split: option.splits)
  moreover have "quiet_inv c (arm_entry c path op s)" for path op
    using inv by (auto simp: arm_entry_def goto_def stopTimer_alt quiet_inv_alt Let_def
        intro!: threads_quiet_upd threads_quiet_thin[of _ _ _ "halt _ (w_threads s)"] dest: halt_Some[THEN iffD1] split: option.splits)
  ultimately show ?thesis using step inv deb Notify by (auto simp: debounced_event_def intro!: quiet_jump split: if_splits)
next
  case (Tick d)
  have "quiet (w_now s + int d) (w_now s + int d - debounceWindow c) g" if "w_threads s t = Some g" for t g
    using inv that quiet_mono[of "w_now s" "w_now s - debounceWindow c" g] by (simp add: quiet_inv_def)
  moreover have "loop_quiet (w_now s + int d) (w_now s + int d - debounceWindow c) (w_loop s)"
    using inv loop_quiet_mono[of "w_now s" "w_now s - debounceWindow c" "w_loop s"] by (simp add: quiet_inv_def)
  ultimately show ?thesis using step inv Tick by (auto simp: quiet_inv_alt threads_quiet_def)
qed (use step inv in \<open>auto simp: quiet_inv_alt jump_def split: if_splits\<close>)

lemma run_actions_quiet:
  assumes "run_actions c xs s = Some s'" "honest c xs s" "quiet_inv c s" "events_wf s" "debounceEnabled c"
  shows "quiet_inv c s'"
  using assms
proof (induction xs arbitrary: s)
  case (Cons x xs)
  then obtain s1 where s1: "handle_action c x s = Some s1" "run_actions c xs s1 = Some s'" by (auto split: option.splits)
  show ?case
    using Cons.IH[OF s1(2)] handle_action_quiet[OF s1(1)] handle_action_wf[OF s1(1)] Cons.prems s1(1) by simp
qed simp

text \<open>Steps of the loop move neither the files nor the clock.\<close>

lemma loop_step_clock:
  assumes "loop_step c pick order pc s = Some s'"
  shows "w_fs s' = w_fs s \<and> w_now s' = w_now s"
proof (cases pc)
  case (Scanning todo skipped)
  then show ?thesis using assms by (cases todo) (auto simp: scan_over_def jump_def split: if_splits option.splits)
next
  case (ScanningFile pc todo skipped)
  have "w_fs s1 = w_fs s \<and> w_now s1 = w_now s" if "scanFile c pick pc s = Some (r, s1)" for r s1
    using that by (cases pc) (auto simp: claimDelivery_alt completeDelivery_alt deliver_def abandon_def
        split: option.splits if_splits prod.splits bool.splits elim!: emitBlocking_cases)
  then show ?thesis using assms ScanningFile
    by (auto simp: scan_over_def jump_def split: option.splits prod.splits sum.splits if_splits)
next
  case (Rechecking todo)
  then show ?thesis using assms by (cases todo) (auto simp: jump_def split: option.splits)
next
  case (Sweeping todo)
  then show ?thesis using assms by (cases todo) (auto simp: jump_def sweep_visit_def split: option.splits)
qed (use assms in \<open>auto simp: jump_def deliver_def abandon_def stopPendingTimers_alt stopAllRechecks_alt install_recheck_alt
  sweep_charge_def tail_removal_def split: if_splits option.splits elim!: emitBlocking_cases\<close>)

lemma honest_loop: "no_future s \<Longrightarrow> honest c (replicate n (Run_loop pick order)) s"
  by (induction n arbitrary: s) (auto simp: no_future_def dest!: loop_step_clock split: option.splits)

section \<open>A sample watcher\<close>

definition sample_watcher :: watcher_cfg where
  "sample_watcher = New_watcher ''/d'' ''*'' False 0 ''overwrite''"

definition sample_start :: "int \<Rightarrow> watch" where
  "sample_start at =
     (case Start_watcher True [''/d/f''] (SeedTailOffsets [] (new_watch [''/d/f'' \<mapsto> \<lparr>st_mtime = 1000, st_size = 1, st_dir = False\<rparr>] at)) of
        Inr s \<Rightarrow> s
      | Inl err \<Rightarrow> new_watch Map.empty 0)"

definition write_event :: fs_event where
  "write_event = \<lparr>fs_name = ''/d/f'', fs_create = False, fs_write = True, fs_remove = False, fs_rename = False\<rparr>"

definition go :: "nat \<Rightarrow> nat \<Rightarrow> action list" where
  "go t n = replicate n (Run t emitDelivered)"

definition loop_go :: "nat \<Rightarrow> action list" where
  "loop_go n = replicate n (Run_loop emitDelivered [])"

text \<open>
  Two rechecks stat version 1000; the first waits before its claim, the second is parked in its send; a
  flush claims version 1700 over it and is superseded, which drops the claim of 1000 with its own.
\<close>

definition twice_run :: "action list" where
  "twice_run = loop_go 6 @ [Notify write_event] @ loop_go 1 @ [Tick 500] @ go 1 4 @ go 4 6 @ [Notify write_event] @ loop_go 1
     @ [Run 4 emitSuperseded] @ go 4 4 @ [Tick 100] @ go 7 6 @ [Change ''/d/f'' (Some \<lparr>st_mtime = 1700, st_size = 2, st_dir = False\<rparr>), Tick 600]
     @ go 6 6 @ [Notify write_event] @ loop_go 1 @ [Run 6 emitSuperseded] @ go 6 3 @ go 1 3 @ go 7 1"

text \<open>A file picked up by the initial scan, after which the context is cancelled and Start returns.\<close>

definition short_run :: "action list" where
  "short_run = loop_go 8 @ [Notify write_event] @ loop_go 1 @ [Cancel_ctx] @ loop_go 2"

lemma sample_debounced: "debounceEnabled sample_watcher"
  by code_simp

lemma sample_start_starts: "Start_watcher True [''/d/f''] (SeedTailOffsets [] (new_watch [''/d/f'' \<mapsto> \<lparr>st_mtime = 1000, st_size = 1, st_dir = False\<rparr>] at))
    = Inr (sample_start at)"
  by (simp add: sample_start_def SeedTailOffsets_def Start_watcher_def new_watch_def)

lemma sample_reaches: "run_actions c xs (sample_start at) = Some s \<Longrightarrow> reaches c xs s"
  unfolding reaches_def using sample_start_starts by blast

lemma sample_watch_start: "watch_start (sample_start at)"
  unfolding watch_start_def using sample_start_starts by blast

lemma twice_run_sent:
  "\<exists>s. run_actions sample_watcher twice_run (sample_start 1100) = Some s \<and> versions (map fst (w_sent s)) = [(''/d/f'', 1000), (''/d/f'', 1000)]
     \<and> map fe_mtime (w_abandoned s) = [1700, 1000]"
proof -
  have "case run_actions sample_watcher twice_run (sample_start 1100) of
      Some s \<Rightarrow> versions (map fst (w_sent s)) = [(''/d/f'', 1000), (''/d/f'', 1000)] \<and> map fe_mtime (w_abandoned s) = [1700, 1000]
    | None \<Rightarrow> False" by code_simp
  then show ?thesis by (auto split: option.splits)
qed

lemma short_run_stops:
  "\<exists>s. run_actions sample_watcher short_run (sample_start 2000) = Some s \<and> w_loop s = Stopped \<and> length (w_pending s) = 1
     \<and> map fst (w_sent s) = [\<lparr>fe_path = ''/d/f'', fe_mtime = 1000, fe_size = 1, fe_op = OpCreate, fe_offset = 0\<rparr>]"
proof -
  have "case run_actions sample_watcher short_run (sample_start 2000) of
      Some s \<Rightarrow> w_loop s = Stopped \<and> length (w_pending s) = 1
        \<and> map fst (w_sent s) = [\<lparr>fe_path = ''/d/f'', fe_mtime = 1000, fe_size = 1, fe_op = OpCreate, fe_offset = 0\<rparr>]
    | None \<Rightarrow> False" by code_simp
  then show ?thesis by (auto split: option.splits)
qed

section \<open>Properties of the watcher\<close>

text \<open>
  C38: Exactly-once delivery.  In every debounced mode and under every interleaving of the event loop, the
  debounce flushes, the rechecks and the scans, a file version reaches the consumer a second time only if the send
  of a newer version of the same file had been given up before; in particular never while no send is
  superseded or cut off by shutdown.
\<close>

theorem watcher_delivers_once:
  assumes "debounceEnabled c" "reaches c xs s" "1 < count_list (versions (map fst (w_sent s))) (path, m)"
  shows "\<exists>fe\<in>set (w_abandoned s). fe_op fe \<noteq> OpRemove \<and> fe_path fe = path \<and> m < fe_mtime fe"
  using watching.at_most_once[OF reaches_reach[OF assms(2,1)], of path m] assms(3)
  by (auto simp: ledger_of_def versions_def)

theorem watcher_delivers_once_witness:
  "\<exists>s. reaches sample_watcher twice_run s \<and> (\<exists>fe\<in>set (w_abandoned s). fe_op fe \<noteq> OpRemove \<and> fe_path fe = ''/d/f'' \<and> 1000 < fe_mtime fe)"
proof -
  obtain s where s: "run_actions sample_watcher twice_run (sample_start 1100) = Some s"
    "versions (map fst (w_sent s)) = [(''/d/f'', 1000), (''/d/f'', 1000)]"
    using twice_run_sent by blast
  have "1 < count_list (versions (map fst (w_sent s))) (''/d/f'', 1000)" by (simp add: s(2))
  then show ?thesis using watcher_delivers_once[OF sample_debounced sample_reaches[OF s(1)]] sample_reaches[OF s(1)] by blast
qed

text \<open>
  The exception is real.  With two rechecks of one version in flight, a newer claim that is superseded and rolled
  back erases the older claim with it, and both rechecks deliver the same version.
\<close>

theorem superseded_claim_delivers_twice:
  "\<exists>s. reaches sample_watcher twice_run s \<and> count_list (versions (map fst (w_sent s))) (''/d/f'', 1000) = 2"
proof -
  obtain s where s: "run_actions sample_watcher twice_run (sample_start 1100) = Some s"
    "versions (map fst (w_sent s)) = [(''/d/f'', 1000), (''/d/f'', 1000)]"
    using twice_run_sent by blast
  then show ?thesis using sample_reaches[OF s(1)] by auto
qed

text \<open>
  Nothing left behind.  Once Start has returned, and however long its last goroutines go on, no debounce or
  recheck timer is armed, none is tracked, and every delivery claim belongs to a goroutine still settling it.
\<close>

theorem Start_leaves_nothing_armed:
  assumes "debounceEnabled c" "reaches c xs s" "w_loop s = Stopped"
  shows "(\<forall>t g. w_threads s t = Some g \<longrightarrow> \<not> armed g) \<and> w_rechecks s = []
    \<and> (\<forall>path m. w_inflight s path = Some m \<longrightarrow> (\<exists>t g k. w_threads s t = Some g \<and> claim_of g = Some k \<and> claimed k = (path, m)))"
proof (intro conjI allI impI)
  have inv: "debounce_inv s" "recheck_inv s" using reaches_debounce reaches_recheck assms(1,2) by blast+
  show none: "w_rechecks s = []" using inv(2) assms(3) by (simp add: recheck_inv_def)
  show "\<not> armed g" if "w_threads s t = Some g" for t g
    using inv that assms(3) none rechecks_inv_tracked[of _ "map_of (w_rechecks s)" _ "w_threads s" t]
    by (cases g) (auto simp: debounce_inv_def closing_def recheck_inv_def)
  show "\<exists>t g k. w_threads s t = Some g \<and> claim_of g = Some k \<and> claimed k = (path, m)" if held: "w_inflight s path = Some m" for path m
  proof -
    obtain h k where "holders (w_loop s) (w_threads s) h = Some k" "claimed k = (path, m)"
      using watching.no_leaked_claim[OF reaches_reach[OF assms(2,1)], of path m] held by (auto simp: ledger_of_def)
    then show ?thesis using assms(3) by (cases h) (auto simp: holders_def split: option.splits)
  qed
qed

theorem Start_leaves_nothing_armed_witness:
  "\<exists>s. reaches sample_watcher short_run s \<and> (\<forall>t g. w_threads s t = Some g \<longrightarrow> \<not> armed g) \<and> w_rechecks s = []"
  using short_run_stops Start_leaves_nothing_armed[OF sample_debounced sample_reaches] sample_reaches by blast

text \<open>
  Timer bookkeeping.  In every reachable state a goroutine of an entry marked fired carries an older generation (so the
  sweep deletes only idle entries), every armed debounce timer is the one its entry in the map points to, and every armed
  recheck is the tracked one of its path with the tracked generation; so every armed timer can be stopped.
\<close>

theorem armed_timers_are_tracked:
  assumes "debounceEnabled c" "reaches c xs s" "w_threads s t = Some g"
  shows "(\<forall>a n. entry_of g = Some (a, n) \<longrightarrow> dp_fired (w_entries s a) \<longrightarrow> n < dp_gen (w_entries s a))
    \<and> (\<forall>a n path due. g = DebounceArmed a n path due \<longrightarrow>
         map_of (w_pending s) path = Some a \<and> dp_timer (w_entries s a) = t \<and> dp_gen (w_entries s a) = n)
    \<and> (\<forall>path n due. g = RecheckArmed path n due \<longrightarrow> map_of (w_rechecks s) path = Some t \<and> w_recheckGens s path = Some n)"
proof (intro conjI allI impI)
  have inv: "entries_inv (w_next s) (w_entries s) (w_threads s)" "pending_inv (w_next s) (w_entries s) (w_pending s) (w_threads s)"
    "rechecks_inv (w_recheckGen s) (map_of (w_rechecks s)) (w_recheckGens s) (w_threads s)"
    using reaches_debounce[OF assms(2,1)] reaches_recheck[OF assms(2,1)] by (simp_all add: debounce_inv_def recheck_inv_def)
  show "n < dp_gen (w_entries s a)" if "entry_of g = Some (a, n)" "dp_fired (w_entries s a)" for a n
    using inv(1) assms(3) that unfolding entries_inv_def by (metis le_neq_implies_less)
  show "map_of (w_pending s) path = Some a" "dp_timer (w_entries s a) = t" "dp_gen (w_entries s a) = n"
    if "g = DebounceArmed a n path due" for a n path due
    using pending_inv_armed[OF inv(2)] assms(3) that by auto
  show "map_of (w_rechecks s) path = Some t" "w_recheckGens s path = Some n" if "g = RecheckArmed path n due" for path n due
    using rechecks_inv_tracked[OF inv(3)] assms(3) that by auto
qed

theorem armed_timers_are_tracked_witness:
  "\<exists>s due. reaches sample_watcher (loop_go 6) s \<and> w_threads s 1 = Some (RecheckArmed ''/d/f'' 1 due) \<and> map_of (w_rechecks s) ''/d/f'' = Some 1"
proof -
  have "case run_actions sample_watcher (loop_go 6) (sample_start 1100) of
      Some s \<Rightarrow> w_threads s 1 = Some (RecheckArmed ''/d/f'' 1 1600) | None \<Rightarrow> False" by code_simp
  then obtain s where s: "run_actions sample_watcher (loop_go 6) (sample_start 1100) = Some s" "w_threads s 1 = Some (RecheckArmed ''/d/f'' 1 1600)"
    by (auto split: option.splits)
  show ?thesis using armed_timers_are_tracked[OF sample_debounced sample_reaches[OF s(1)] s(2)] s sample_reaches[OF s(1)] by auto
qed

text \<open>
  The debounce map is bounded.  At every moment of a run it holds at most the largest number of entries that were
  waiting for their flush at one time, plus one sweep's budget of events; no earlier peak of idle entries enlarges it.
\<close>

theorem pending_map_bounded:
  assumes "debounceEnabled c" "Start_watcher ok walk (SeedTailOffsets offsets (new_watch fs at)) = Inr s0"
    "run_actions c xs s0 = Some s"
  shows "int (length (w_pending s)) \<le> int (peak c xs s0) + sweepEvery c"
proof -
  have start: "watch_start s0" using assms(2) unfolding watch_start_def by blast
  have "sweep_inv c (peak c xs s0) s0"
    using watch_start_fields[OF start] sweepEvery_pos[of c] by (auto simp: sweep_inv_def)
  then have "sweep_inv c (peak c xs s0) s"
    using run_actions_sweep[OF assms(3)] watch_start_wf[OF start] watch_start_debounce[OF start] assms(1) by blast
  then show ?thesis by (rule sweep_inv_bound)
qed

theorem pending_map_bounded_witness:
  "\<exists>s. run_actions sample_watcher short_run (sample_start 2000) = Some s \<and> length (w_pending s) = 1
     \<and> int (length (w_pending s)) \<le> int (peak sample_watcher short_run (sample_start 2000)) + 64"
  using short_run_stops pending_map_bounded[OF sample_debounced sample_start_starts]
  by (fastforce simp: sweepEvery_def sample_watcher_def New_watcher_def defaultPendingSweepEvery_def)



end
