(* ===== verification/Index.thy ===== *)
theory Index
  imports Watcher Executor "HOL-Library.Word"
begin

text \<open>
  The file index of the control plane (controlplane/internal/indexer, db/ingest.go, db/ingest.sql.go,
  internal/storageevent): one row per object, written by agent reports and by storage events, ordered by the
  time of observation.  A \<open>catalog\<close> holds the PostgreSQL tables involved.  Every statement is atomic and other
  sessions may commit between any two of them; the driver may refuse a statement or lose its answer.  UUIDs
  are numbers, zero the nil UUID; texts are ASCII, so a rune is a character; instants have the database's
  resolution.  The JSON decoder, package uuid, package time and the collation of the database are parameters.
\<close>

section \<open>Tables\<close>

type_synonym uuid = nat

definition uuid_Nil :: uuid where
  "uuid_Nil = 0"

definition DefaultOrgID :: uuid where
  "DefaultOrgID = 1"

datatype FileStatus = FileStatusUploading | FileStatusCompleted | FileStatusFailed | FileStatusDeleted

record file_entry =
  fe_id :: uuid
  fe_org :: uuid
  fe_file_type :: "uuid option"
  fe_agent :: "uuid option"
  fe_rule :: "uuid option"
  fe_bucket :: uuid
  fe_storage_path :: string
  fe_original_path :: "string option"
  fe_file_name :: string
  fe_size :: int
  fe_sha256 :: "string option"
  fe_etag :: "string option"
  fe_content_type :: "string option"
  fe_mtime :: "int option"
  fe_status :: FileStatus
  fe_uploaded_at :: "int option"
  fe_created_at :: int
  fe_updated_at :: int
  fe_observed_at :: int
  fe_source :: string
  fe_event_seq :: "string option"
  fe_meta_incomplete :: bool

record bucket_row =
  b_id :: uuid
  b_org :: uuid
  b_name :: string

record collection_rule_row =
  cr_id :: uuid
  cr_org :: uuid
  cr_agent :: uuid
  cr_metadata :: string
  cr_template :: string

record file_type_row =
  ty_id :: uuid
  ty_org :: uuid
  ty_name :: string

record file_type_rule =
  tr_file_type :: uuid
  tr_pattern :: string
  tr_priority :: int

record file_tag =
  tag_entry :: uuid
  tag_key :: string
  tag_value :: string
  tag_source :: string

record tag_key_row =
  tk_id :: uuid
  tk_org :: uuid
  tk_key :: string
  tk_controlled :: bool
  tk_allow_path_var :: bool

record pending_value =
  pv_org :: uuid
  pv_tag_key :: uuid
  pv_value :: string
  pv_source :: string
  pv_rule :: "uuid option"
  pv_suggested :: "string option"
  pv_hits :: int

record upload_log =
  ul_org :: uuid
  ul_agent :: uuid
  ul_entry :: "uuid option"
  ul_rule :: "uuid option"
  ul_original_path :: string
  ul_storage_path :: string
  ul_size :: int
  ul_transferred :: int
  ul_status :: string
  ul_error :: "string option"
  ul_retry_count :: int
  ul_started :: int
  ul_finished :: int

datatype detail_value = DetailNumber int | DetailString string

record event_mark =
  mk_source :: string
  mk_reason :: string
  mk_bucket :: "string option"
  mk_from :: "int option"
  mk_to :: "int option"
  mk_detail :: "(string \<times> detail_value) list"

record catalog =
  buckets :: "bucket_row list"
  collection_rules :: "collection_rule_row list"
  file_types :: "file_type_row list"
  file_type_rules :: "file_type_rule list"
  file_entries :: "file_entry list"
  file_tags :: "file_tag list"
  tag_keys :: "tag_key_row list"
  tag_values :: "(uuid \<times> string) list"
  pending_tag_values :: "pending_value list"
  upload_logs :: "upload_log list"
  event_cursors :: "(string \<times> int) list"
  event_marks :: "event_mark list"
  next_uuid :: uuid

section \<open>Running statements\<close>

datatype db_error = ErrNoRows | DriverError string

text \<open>A failed statement did nothing, or took effect and its answer was lost.\<close>

datatype db_fault = Refused string | AnswerLost string

record rule_metadata =
  rm_file_type :: string
  rm_static_tags :: "(string \<times> string) list"
  rm_path_tag_map :: "(string \<times> string) list"

text \<open>
  What the index meets outside, by the number of the statement: faults, the database clock \<^verbatim>\<open>now()\<close>, the
  commits of other sessions just before; then the libraries.  \<open>cp_unmarshal\<close> gives the value
  \<^verbatim>\<open>json.Unmarshal\<close> leaves behind and whether it reported an error; its maps are listed in the order Go iterates
  over them.
\<close>

record cp_env =
  cp_fault :: "nat \<Rightarrow> db_fault option"
  cp_now :: "nat \<Rightarrow> int"
  cp_meanwhile :: "nat \<Rightarrow> catalog \<Rightarrow> catalog"
  cp_collate :: "string \<Rightarrow> string \<Rightarrow> bool"
  cp_time :: time_lib
  cp_parse_uuid :: "string \<Rightarrow> uuid option"
  cp_unmarshal :: "string \<Rightarrow> rule_metadata \<times> bool"
  cp_clock :: int
  cp_nats :: bool
  cp_publish :: "nat \<Rightarrow> bool"

datatype message =
    FileUploaded (msg_entry: uuid) (msg_agent: uuid) (msg_bucket: uuid) (msg_path: string) (msg_name: string) (msg_size: int) (msg_sha: string)
  | FileDeleted (msg_entry: uuid) (msg_bucket: uuid) (msg_path: string) (msg_name: string)

record indexer =
  ix_db :: catalog
  ix_stmt :: nat
  ix_suppressedWrites :: "64 word"
  ix_absentDeletes :: "64 word"
  ix_published :: "message list"

definition sql :: "cp_env \<Rightarrow> (int \<Rightarrow> catalog \<Rightarrow> 'a option \<times> catalog) \<Rightarrow> indexer \<Rightarrow> (db_error + 'a) \<times> indexer" where
  "sql e st s =
     (let k = ix_stmt s; c = cp_meanwhile e k (ix_db s); (r, c') = st (cp_now e k) c
      in case cp_fault e k of
           Some (Refused msg) \<Rightarrow> (Inl (DriverError msg), s\<lparr>ix_db := c, ix_stmt := Suc k\<rparr>)
         | Some (AnswerLost msg) \<Rightarrow> (Inl (DriverError msg), s\<lparr>ix_db := c', ix_stmt := Suc k\<rparr>)
         | None \<Rightarrow> ((case r of None \<Rightarrow> Inl ErrNoRows | Some x \<Rightarrow> Inr x), s\<lparr>ix_db := c', ix_stmt := Suc k\<rparr>))"

text \<open>A statement that only reads.\<close>

definition query :: "(catalog \<Rightarrow> 'a option) \<Rightarrow> int \<Rightarrow> catalog \<Rightarrow> 'a option \<times> catalog" where
  "query q now c = (q c, c)"

section \<open>File entries\<close>

record upsert_params =
  p_org :: uuid
  p_file_type :: "uuid option"
  p_agent :: "uuid option"
  p_rule :: "uuid option"
  p_bucket :: uuid
  p_storage_path :: string
  p_original_path :: "string option"
  p_file_name :: string
  p_size :: int
  p_sha256 :: "string option"
  p_etag :: "string option"
  p_content_type :: "string option"
  p_mtime :: "int option"
  p_status :: FileStatus
  p_uploaded_at :: "int option"
  p_source :: string
  p_observed_at :: int
  p_event_seq :: "string option"
  p_meta_incomplete :: bool

record delete_params =
  d_bucket :: uuid
  d_storage_path :: string
  d_observed_at :: int
  d_event_seq :: "string option"
  d_source :: string

definition coalesce :: "'a option \<Rightarrow> 'a option \<Rightarrow> 'a option" where
  "coalesce a b = (case a of None \<Rightarrow> b | Some x \<Rightarrow> Some x)"

definition lpad :: "string \<Rightarrow> string" where
  "lpad s = replicate (32 - length s) (CHR ''0'') @ take 32 s"

definition db_clocked :: "string \<Rightarrow> bool" where
  "db_clocked source \<longleftrightarrow> source = ''agent'' \<or> source = ''api''"

text \<open>The ordering guard of both writes: is the observation \<open>(obs, seq)\<close> not older than the row's?\<close>

definition not_older :: "(string \<Rightarrow> string \<Rightarrow> bool) \<Rightarrow> int \<Rightarrow> string option \<Rightarrow> file_entry \<Rightarrow> bool" where
  "not_older le obs seq fe \<longleftrightarrow>
     fe_observed_at fe < obs
     \<or> (obs = fe_observed_at fe
        \<and> (seq = None \<or> fe_event_seq fe = None \<or> le (lpad (the (fe_event_seq fe))) (lpad (the seq))))"

definition file_key :: "file_entry \<Rightarrow> uuid \<times> string" where
  "file_key fe = (fe_bucket fe, fe_storage_path fe)"

text \<open>The row a statement proposes (\<^verbatim>\<open>EXCLUDED\<close>), and the update of the conflicting one.\<close>

definition excluded :: "uuid \<Rightarrow> int \<Rightarrow> upsert_params \<Rightarrow> file_entry" where
  "excluded ident now p =
     \<lparr>fe_id = ident, fe_org = p_org p, fe_file_type = p_file_type p, fe_agent = p_agent p, fe_rule = p_rule p,
      fe_bucket = p_bucket p, fe_storage_path = p_storage_path p, fe_original_path = p_original_path p,
      fe_file_name = p_file_name p, fe_size = p_size p, fe_sha256 = p_sha256 p, fe_etag = p_etag p,
      fe_content_type = p_content_type p, fe_mtime = p_mtime p, fe_status = p_status p, fe_uploaded_at = p_uploaded_at p,
      fe_created_at = now, fe_updated_at = now,
      fe_observed_at = (if db_clocked (p_source p) then now else p_observed_at p),
      fe_source = p_source p, fe_event_seq = p_event_seq p, fe_meta_incomplete = p_meta_incomplete p\<rparr>"

definition conflict_update :: "int \<Rightarrow> file_entry \<Rightarrow> file_entry \<Rightarrow> file_entry" where
  "conflict_update now x fe = fe\<lparr>
      fe_file_type := coalesce (fe_file_type x) (fe_file_type fe),
      fe_agent := coalesce (fe_agent x) (fe_agent fe),
      fe_rule := coalesce (fe_rule x) (fe_rule fe),
      fe_original_path := coalesce (fe_original_path x) (fe_original_path fe),
      fe_file_name := fe_file_name x,
      fe_size := fe_size x,
      fe_sha256 := coalesce (fe_sha256 x) (fe_sha256 fe),
      fe_etag := coalesce (fe_etag x) (fe_etag fe),
      fe_content_type := coalesce (fe_content_type x) (fe_content_type fe),
      fe_mtime := coalesce (fe_mtime x) (fe_mtime fe),
      fe_status := fe_status x,
      fe_uploaded_at := coalesce (fe_uploaded_at x) (fe_uploaded_at fe),
      fe_observed_at := fe_observed_at x,
      fe_source := fe_source x,
      fe_event_seq := fe_event_seq x,
      fe_meta_incomplete := (if db_clocked (fe_source x) then fe_meta_incomplete x else fe_meta_incomplete fe),
      fe_updated_at := now\<rparr>"

definition GetIndexedFileByKey :: "uuid \<times> string \<Rightarrow> catalog \<Rightarrow> file_entry option" where
  "GetIndexedFileByKey k c = find_row file_key k (file_entries c)"

definition put_entry :: "file_entry \<Rightarrow> catalog \<Rightarrow> catalog" where
  "put_entry fe c = c\<lparr>file_entries := update_where (\<lambda>r. file_key r = file_key fe) (\<lambda>_. fe) (file_entries c)\<rparr>"

definition UpsertIndexedFile :: "(string \<Rightarrow> string \<Rightarrow> bool) \<Rightarrow> upsert_params \<Rightarrow> int \<Rightarrow> catalog \<Rightarrow> file_entry option \<times> catalog" where
  "UpsertIndexedFile le p now c =
     (let x = excluded (next_uuid c) now p
      in case GetIndexedFileByKey (p_bucket p, p_storage_path p) c of
           None \<Rightarrow> (Some x, c\<lparr>file_entries := file_entries c @ [x], next_uuid := Suc (next_uuid c)\<rparr>)
         | Some fe \<Rightarrow>
             if not_older le (fe_observed_at x) (fe_event_seq x) fe
             then (let fe' = conflict_update now x fe in (Some fe', put_entry fe' c))
             else (None, c))"

definition DeleteIndexedFile :: "(string \<Rightarrow> string \<Rightarrow> bool) \<Rightarrow> delete_params \<Rightarrow> int \<Rightarrow> catalog \<Rightarrow> file_entry option \<times> catalog" where
  "DeleteIndexedFile le d now c =
     (case GetIndexedFileByKey (d_bucket d, d_storage_path d) c of
        None \<Rightarrow> (None, c)
      | Some fe \<Rightarrow>
          if not_older le (d_observed_at d) (d_event_seq d) fe
          then (let fe' = fe\<lparr>fe_status := FileStatusDeleted, fe_updated_at := now, fe_observed_at := d_observed_at d,
                             fe_event_seq := d_event_seq d, fe_source := d_source d\<rparr>
                in (Some fe', put_entry fe' c))
          else (None, c))"

text \<open>The row together with \<^verbatim>\<open>suppressed\<close>; for a deletion \<open>None\<close> when there is no row.\<close>

definition UpsertObservedFile :: "cp_env \<Rightarrow> upsert_params \<Rightarrow> indexer \<Rightarrow> (db_error + file_entry \<times> bool) \<times> indexer" where
  "UpsertObservedFile e p s =
     (case sql e (UpsertIndexedFile (cp_collate e) p) s of
        (Inr fe, s1) \<Rightarrow> (Inr (fe, False), s1)
      | (Inl ErrNoRows, s1) \<Rightarrow>
          (case sql e (query (GetIndexedFileByKey (p_bucket p, p_storage_path p))) s1 of
             (Inr fe, s2) \<Rightarrow> (Inr (fe, True), s2)
           | (Inl err, s2) \<Rightarrow> (Inl err, s2))
      | (Inl err, s1) \<Rightarrow> (Inl err, s1))"

definition MarkObservedFileDeleted :: "cp_env \<Rightarrow> delete_params \<Rightarrow> indexer \<Rightarrow> (db_error + (file_entry \<times> bool) option) \<times> indexer" where
  "MarkObservedFileDeleted e d s =
     (case sql e (DeleteIndexedFile (cp_collate e) d) s of
        (Inr fe, s1) \<Rightarrow> (Inr (Some (fe, False)), s1)
      | (Inl ErrNoRows, s1) \<Rightarrow>
          (case sql e (query (GetIndexedFileByKey (d_bucket d, d_storage_path d))) s1 of
             (Inr fe, s2) \<Rightarrow> (Inr (Some (fe, True)), s2)
           | (Inl ErrNoRows, s2) \<Rightarrow> (Inr None, s2)
           | (Inl err, s2) \<Rightarrow> (Inl err, s2))
      | (Inl err, s1) \<Rightarrow> (Inl err, s1))"

section \<open>The other queries\<close>

definition GetBucketByName :: "uuid \<Rightarrow> string \<Rightarrow> catalog \<Rightarrow> bucket_row option" where
  "GetBucketByName org name c = List.find (\<lambda>b. b_org b = org \<and> b_name b = name) (buckets c)"

definition GetRuleTagInfo :: "uuid \<Rightarrow> uuid \<Rightarrow> catalog \<Rightarrow> collection_rule_row option" where
  "GetRuleTagInfo org rule c = List.find (\<lambda>r. cr_id r = rule \<and> cr_org r = org) (collection_rules c)"

definition ListFileTypeRules :: "catalog \<Rightarrow> file_type_rule list" where
  "ListFileTypeRules c = order_by (\<lambda>r. - tr_priority r) (file_type_rules c)"

definition GetFileTypeIDByName :: "uuid \<Rightarrow> string \<Rightarrow> catalog \<Rightarrow> uuid" where
  "GetFileTypeIDByName org name c =
     (case List.find (\<lambda>t. ty_org t = org \<and> ty_name t = name) (file_types c) of None \<Rightarrow> uuid_Nil | Some t \<Rightarrow> ty_id t)"

definition file_tag_key :: "file_tag \<Rightarrow> uuid \<times> string" where
  "file_tag_key t = (tag_entry t, tag_key t)"

definition UpsertFileTag :: "file_tag \<Rightarrow> int \<Rightarrow> catalog \<Rightarrow> unit option \<times> catalog" where
  "UpsertFileTag t now c =
     (Some (), c\<lparr>file_tags := upsert file_tag_key (\<lambda>old new. old\<lparr>tag_value := tag_value new, tag_source := tag_source new\<rparr>) t (file_tags c)\<rparr>)"

text \<open>The result says whether a row was inserted; without one \<^verbatim>\<open>RETURNING\<close> yields no row, which is no error.\<close>

definition InsertFileTagIfAbsent :: "file_tag \<Rightarrow> int \<Rightarrow> catalog \<Rightarrow> bool option \<times> catalog" where
  "InsertFileTagIfAbsent t now c =
     (Some (\<not> exists_where (\<lambda>r. file_tag_key r = file_tag_key t) (file_tags c)),
      c\<lparr>file_tags := insert_ignore file_tag_key t (file_tags c)\<rparr>)"

definition GetTagKeyByName :: "uuid \<Rightarrow> string \<Rightarrow> catalog \<Rightarrow> tag_key_row option" where
  "GetTagKeyByName org key c = List.find (\<lambda>k. tk_org k = org \<and> tk_key k = key) (tag_keys c)"

definition TagValueExists :: "uuid \<Rightarrow> string \<Rightarrow> catalog \<Rightarrow> bool" where
  "TagValueExists key value c \<longleftrightarrow> exists_where (\<lambda>v. v = (key, value)) (tag_values c)"

definition FindSimilarTagValue :: "uuid \<Rightarrow> string \<Rightarrow> catalog \<Rightarrow> string" where
  "FindSimilarTagValue key value c =
     (case List.find (\<lambda>v. fst v = key \<and> map ascii_lower (snd v) = map ascii_lower value) (tag_values c) of
        None \<Rightarrow> '''' | Some v \<Rightarrow> snd v)"

definition pending_key :: "pending_value \<Rightarrow> uuid \<times> string" where
  "pending_key v = (pv_tag_key v, pv_value v)"

definition UpsertPendingTagValue :: "pending_value \<Rightarrow> int \<Rightarrow> catalog \<Rightarrow> unit option \<times> catalog" where
  "UpsertPendingTagValue v now c =
     (Some (), c\<lparr>pending_tag_values := upsert pending_key (\<lambda>old new. old\<lparr>pv_hits := pv_hits old + 1\<rparr>) v (pending_tag_values c)\<rparr>)"

definition CreateUploadLog :: "upload_log \<Rightarrow> int \<Rightarrow> catalog \<Rightarrow> unit option \<times> catalog" where
  "CreateUploadLog l now c = (Some (), c\<lparr>upload_logs := upload_logs c @ [l]\<rparr>)"

definition fileNameFromPath :: "string \<Rightarrow> string" where
  "fileNameFromPath p = Base p"

section \<open>Classification\<close>

fun first_match :: "string \<Rightarrow> file_type_rule list \<Rightarrow> uuid" where
  "first_match path [] = uuid_Nil"
| "first_match path (r # rs) =
     (if Match (tr_pattern r) path then tr_file_type r
      else if Match (tr_pattern r) (Base path) then tr_file_type r
      else first_match path rs)"

definition Classify :: "cp_env \<Rightarrow> string \<Rightarrow> indexer \<Rightarrow> (db_error + uuid) \<times> indexer" where
  "Classify e path s =
     (case sql e (query (Some \<circ> ListFileTypeRules)) s of
        (Inl err, s1) \<Rightarrow> (Inl err, s1)
      | (Inr rules, s1) \<Rightarrow> (Inr (first_match path rules), s1))"

definition classify_or_Nil :: "cp_env \<Rightarrow> string \<Rightarrow> indexer \<Rightarrow> uuid \<times> indexer" where
  "classify_or_Nil e path s = (case Classify e path s of (Inl err, s1) \<Rightarrow> (uuid_Nil, s1) | (Inr t, s1) \<Rightarrow> (t, s1))"

definition classifyFileType :: "cp_env \<Rightarrow> uuid \<Rightarrow> string \<Rightarrow> string \<Rightarrow> indexer \<Rightarrow> uuid \<times> indexer" where
  "classifyFileType e org path declared s =
     (if declared = '''' then classify_or_Nil e path s
      else case sql e (query (Some \<circ> GetFileTypeIDByName org declared)) s of
             (Inr t, s1) \<Rightarrow> if t \<noteq> uuid_Nil then (t, s1) else classify_or_Nil e path s1
           | (Inl err, s1) \<Rightarrow> classify_or_Nil e path s1)"

section \<open>Tags\<close>

text \<open>
  A Go string is a sequence of bytes; \<open>rune_width\<close> is the number of bytes of its first character, 1 for a byte that starts no
  well-formed character, and \<open>RuneCount\<close> is \<^verbatim>\<open>utf8.RuneCountInString\<close>.
\<close>

definition in_range :: "nat \<Rightarrow> nat \<Rightarrow> char list \<Rightarrow> nat \<Rightarrow> bool" where
  "in_range lo hi s i \<longleftrightarrow> i < length s \<and> lo \<le> (of_char (s ! i) :: nat) \<and> (of_char (s ! i) :: nat) \<le> hi"

definition rune_width :: "string \<Rightarrow> nat" where
  "rune_width s =
     (let lead = (\<lambda>lo hi. in_range lo hi s 0); tail = in_range 128 191 s
      in if lead 194 223 \<and> tail 1 then 2
         else if (lead 224 224 \<and> in_range 160 191 s 1 \<or> lead 225 236 \<and> tail 1 \<or> lead 237 237 \<and> in_range 128 159 s 1 \<or> lead 238 239 \<and> tail 1)
                 \<and> tail 2 then 3
         else if (lead 240 240 \<and> in_range 144 191 s 1 \<or> lead 241 243 \<and> tail 1 \<or> lead 244 244 \<and> in_range 128 143 s 1)
                 \<and> tail 2 \<and> tail 3 then 4
         else 1)"

lemma rune_width_pos [simp]: "0 < rune_width s"
  by (simp add: rune_width_def Let_def)

function RuneCount :: "string \<Rightarrow> nat" where
  "RuneCount s = (if s = [] then 0 else Suc (RuneCount (drop (rune_width s) s)))"
  by auto
termination by (relation "measure length") (auto simp: length_greater_0_conv[symmetric] simp del: length_greater_0_conv)

declare RuneCount.simps [simp del]

definition tagWithinLimits :: "string \<Rightarrow> string \<Rightarrow> bool" where
  "tagWithinLimits key value \<longleftrightarrow> RuneCount key \<le> 64 \<and> RuneCount value \<le> 128"

fun applyStaticTags :: "cp_env \<Rightarrow> uuid \<Rightarrow> (string \<times> string) list \<Rightarrow> indexer \<Rightarrow> indexer" where
  "applyStaticTags e entry [] s = s"
| "applyStaticTags e entry ((key, value) # tags) s =
     (if key = '''' \<or> value = '''' \<or> \<not> tagWithinLimits key value then applyStaticTags e entry tags s
      else applyStaticTags e entry tags
             (snd (sql e (UpsertFileTag \<lparr>tag_entry = entry, tag_key = key, tag_value = value, tag_source = ''rule_static''\<rparr>) s)))"

definition templateVarName :: "string \<Rightarrow> string" where
  "templateVarName ref0 =
     (let ref = TrimSpace ref0
      in if length ref < 3 \<or> hd ref \<noteq> CHR ''{'' \<or> last ref \<noteq> CHR ''}'' then ''''
         else let inner = butlast (tl ref)
              in if CHR ''{'' \<in> set inner \<or> CHR ''}'' \<in> set inner then ''''
                 else TrimSpace (takeWhile (\<lambda>c. c \<noteq> CHR '':'') inner))"

definition queuePendingIfUnregistered :: "cp_env \<Rightarrow> uuid \<Rightarrow> tag_key_row \<Rightarrow> string \<Rightarrow> uuid option \<Rightarrow> indexer \<Rightarrow> indexer" where
  "queuePendingIfUnregistered e org info value rule s =
     (case sql e (query (Some \<circ> TagValueExists (tk_id info) value)) s of
        (Inl err, s1) \<Rightarrow> s1
      | (Inr known, s1) \<Rightarrow>
          if known then s1
          else
            (let (r, s2) = sql e (query (Some \<circ> FindSimilarTagValue (tk_id info) value)) s1;
                 suggested = (case r of Inl err \<Rightarrow> '''' | Inr v \<Rightarrow> v)
             in snd (sql e (UpsertPendingTagValue
                  \<lparr>pv_org = org, pv_tag_key = tk_id info, pv_value = value, pv_source = ''path_var'', pv_rule = rule,
                   pv_suggested = (if suggested = '''' then None else Some suggested), pv_hits = 1\<rparr>) s2)))"

text \<open>One entry of \<^verbatim>\<open>path_tag_map\<close>.\<close>

definition path_var_tag :: "cp_env \<Rightarrow> uuid \<Rightarrow> uuid \<Rightarrow> fields \<Rightarrow> uuid option \<Rightarrow> string \<times> string \<Rightarrow> indexer \<Rightarrow> indexer" where
  "path_var_tag e org entry vals rule kr s =
     (let (key, ref) = kr; varName = templateVarName ref
      in if key = '''' \<or> varName = '''' then s
         else case vals varName of
                None \<Rightarrow> s
              | Some val \<Rightarrow>
                  (let value = v_Raw val
                   in if value = '''' \<or> \<not> tagWithinLimits key value then s
                      else case sql e (query (Some \<circ> GetTagKeyByName org key)) s of
                             (Inl err, s1) \<Rightarrow> s1
                           | (Inr info, s1) \<Rightarrow>
                               if (case info of Some k \<Rightarrow> \<not> tk_allow_path_var k | None \<Rightarrow> False) then s1
                               else case sql e (InsertFileTagIfAbsent
                                           \<lparr>tag_entry = entry, tag_key = key, tag_value = value, tag_source = ''path_var''\<rparr>) s1 of
                                      (Inl err, s2) \<Rightarrow> s2
                                    | (Inr inserted, s2) \<Rightarrow>
                                        (case info of
                                           Some k \<Rightarrow> if inserted \<and> tk_controlled k
                                                     then queuePendingIfUnregistered e org k value rule s2 else s2
                                         | None \<Rightarrow> s2)))"

definition applyPathVarTags :: "cp_env \<Rightarrow> uuid \<Rightarrow> uuid \<Rightarrow> string \<Rightarrow> string \<Rightarrow> (string \<times> string) list \<Rightarrow> uuid option \<Rightarrow> indexer \<Rightarrow> indexer" where
  "applyPathVarTags e org entry path template m rule s =
     (if m = [] \<or> template = '''' then s
      else case New_parser (cp_time e) (NormalizeTemplate template) of
             Inl err \<Rightarrow> s
           | Inr parser \<Rightarrow>
               (case Parse (cp_time e) parser (NormalizeObjectKey path) of
                  Inl err \<Rightarrow> s
                | Inr vals \<Rightarrow> fold (path_var_tag e org entry vals rule) m s))"

section \<open>Events\<close>

definition publish :: "cp_env \<Rightarrow> message \<Rightarrow> indexer \<Rightarrow> indexer" where
  "publish e m s = (if cp_publish e (length (ix_published s)) then s\<lparr>ix_published := ix_published s @ [m]\<rparr> else s)"

definition publishFileUploaded :: "cp_env \<Rightarrow> file_entry \<Rightarrow> uuid \<Rightarrow> string \<Rightarrow> indexer \<Rightarrow> indexer" where
  "publishFileUploaded e fe agent sha s =
     publish e (FileUploaded (fe_id fe) agent (fe_bucket fe) (fe_storage_path fe) (fe_file_name fe) (fe_size fe) sha) s"

definition publishFileDeleted :: "cp_env \<Rightarrow> file_entry \<Rightarrow> indexer \<Rightarrow> indexer" where
  "publishFileDeleted e fe s =
     (if cp_nats e then publish e (FileDeleted (fe_id fe) (fe_bucket fe) (fe_storage_path fe) (fe_file_name fe)) s else s)"

section \<open>Agent reports\<close>

text \<open>An upload result as it arrives; a timestamp is \<open>None\<close> when absent or out of range.\<close>

record result_msg =
  rs_task_id :: string
  rs_rule_id :: string
  rs_local_path :: string
  rs_storage_path :: string
  rs_bucket :: string
  rs_size :: int
  rs_mtime :: "int option"
  rs_uploaded_at :: "int option"
  rs_retry_count :: int
  rs_success :: bool
  rs_sha256 :: string
  rs_etag :: string
  rs_error :: string

datatype index_error = ErrUnknownBucket | IndexFailure string db_error

definition non_empty :: "string \<Rightarrow> string option" where
  "non_empty x = (if x = '''' then None else Some x)"

definition non_Nil :: "uuid \<Rightarrow> uuid option" where
  "non_Nil t = (if t = uuid_Nil then None else Some t)"

definition no_metadata :: rule_metadata where
  "no_metadata = \<lparr>rm_file_type = '''', rm_static_tags = [], rm_path_tag_map = []\<rparr>"

text \<open>The rule a report names: the id kept for the row, its metadata, template and \<^verbatim>\<open>metaIncomplete\<close>.\<close>

definition resolve_rule :: "cp_env \<Rightarrow> uuid \<Rightarrow> uuid \<Rightarrow> string \<Rightarrow> indexer \<Rightarrow> (db_error + uuid option \<times> rule_metadata \<times> string \<times> bool) \<times> indexer" where
  "resolve_rule e agent org ruleStr s =
     (case (if ruleStr = '''' then None else cp_parse_uuid e ruleStr) of
        None \<Rightarrow> (Inr (None, no_metadata, '''', True), s)
      | Some rule \<Rightarrow>
          (case sql e (query (GetRuleTagInfo org rule)) s of
             (Inl ErrNoRows, s1) \<Rightarrow> (Inr (None, no_metadata, '''', True), s1)
           | (Inl err, s1) \<Rightarrow> (Inl err, s1)
           | (Inr info, s1) \<Rightarrow>
               if cr_agent info \<noteq> agent then (Inr (None, no_metadata, '''', True), s1)
               else if cr_metadata info = '''' then (Inr (Some rule, no_metadata, cr_template info, False), s1)
               else let (meta, failed) = cp_unmarshal e (cr_metadata info)
                    in (Inr (Some rule, meta, cr_template info, failed), s1)))"

definition report_params :: "uuid \<Rightarrow> uuid \<Rightarrow> uuid \<Rightarrow> uuid option \<Rightarrow> uuid \<Rightarrow> bool \<Rightarrow> int option \<Rightarrow> result_msg \<Rightarrow> upsert_params" where
  "report_params org agent bucket rule fileType incomplete uploadedAt m =
     \<lparr>p_org = org, p_file_type = non_Nil fileType, p_agent = Some agent, p_rule = rule, p_bucket = bucket,
      p_storage_path = rs_storage_path m, p_original_path = non_empty (rs_local_path m),
      p_file_name = fileNameFromPath (rs_storage_path m), p_size = rs_size m, p_sha256 = non_empty (rs_sha256 m),
      p_etag = non_empty (rs_etag m), p_content_type = None, p_mtime = rs_mtime m, p_status = FileStatusCompleted,
      p_uploaded_at = uploadedAt, p_source = ''agent'', p_observed_at = 0, p_event_seq = None,
      p_meta_incomplete = incomplete\<rparr>"

definition report_log :: "cp_env \<Rightarrow> uuid \<Rightarrow> uuid \<Rightarrow> uuid option \<Rightarrow> uuid option \<Rightarrow> result_msg \<Rightarrow> upload_log" where
  "report_log e org agent entry rule m =
     \<lparr>ul_org = org, ul_agent = agent, ul_entry = entry, ul_rule = rule, ul_original_path = rs_local_path m,
      ul_storage_path = rs_storage_path m, ul_size = rs_size m, ul_transferred = rs_size m,
      ul_status = (if rs_success m then ''completed'' else ''failed''),
      ul_error = (if rs_success m then None else non_empty (rs_error m)),
      ul_retry_count = rs_retry_count m, ul_started = cp_clock e, ul_finished = cp_clock e\<rparr>"

text \<open>The end of \<^verbatim>\<open>HandleUploadResult\<close>: the upload log and the event.\<close>

definition finish_report :: "cp_env \<Rightarrow> uuid \<Rightarrow> uuid \<Rightarrow> file_entry option \<Rightarrow> uuid option \<Rightarrow> result_msg \<Rightarrow> indexer \<Rightarrow> (index_error + unit) \<times> indexer" where
  "finish_report e org agent entry rule m s =
     (case sql e (CreateUploadLog (report_log e org agent (map_option fe_id entry) rule m)) s of
        (Inl err, s1) \<Rightarrow> (Inl (IndexFailure ''create upload log'' err), s1)
      | (Inr u, s1) \<Rightarrow>
          (case entry of
             Some fe \<Rightarrow> if cp_nats e then (Inr (), publishFileUploaded e fe agent (rs_sha256 m) s1) else (Inr (), s1)
           | None \<Rightarrow> (Inr (), s1)))"

definition HandleUploadResult :: "cp_env \<Rightarrow> uuid \<Rightarrow> uuid \<Rightarrow> result_msg \<Rightarrow> indexer \<Rightarrow> (index_error + unit) \<times> indexer" where
  "HandleUploadResult e agent org m s =
     (case sql e (query (GetBucketByName org (rs_bucket m))) s of
        (Inl err, s1) \<Rightarrow> (Inl (IndexFailure ''get bucket'' err), s1)
      | (Inr bucket, s1) \<Rightarrow>
          (case resolve_rule e agent org (rs_rule_id m) s1 of
             (Inl err, s2) \<Rightarrow> (Inl (IndexFailure ''validate upload rule'' err), s2)
           | (Inr (rule, meta, template, incomplete), s2) \<Rightarrow>
               (let (fileType, s3) = classifyFileType e org (rs_storage_path m) (rm_file_type meta) s2;
                    uploadedAt = (case rs_uploaded_at m of Some t \<Rightarrow> Some t | None \<Rightarrow> Some (cp_clock e))
                in if rs_success m then
                     (case UpsertObservedFile e (report_params org agent (b_id bucket) rule fileType incomplete uploadedAt m) s3 of
                        (Inl err, s4) \<Rightarrow> (Inl (IndexFailure ''upsert file entry'' err), s4)
                      | (Inr (fe, suppressed), s4) \<Rightarrow>
                          if suppressed then (Inr (), s4\<lparr>ix_suppressedWrites := ix_suppressedWrites s4 + 1\<rparr>)
                          else
                            (let s5 = applyStaticTags e (fe_id fe) (rm_static_tags meta) s4;
                                 s6 = applyPathVarTags e org (fe_id fe) (rs_storage_path m) template (rm_path_tag_map meta) rule s5
                             in finish_report e org agent (Some fe) rule m s6))
                   else finish_report e org agent None rule m s3)))"

section \<open>Storage events\<close>

datatype event_kind = KindObjectCreated | KindObjectRemoved | KindBucketRemoved | KindOther int

record storage_event =
  ev_kind :: event_kind
  ev_bucket :: string
  ev_key :: string
  ev_size :: int
  ev_etag :: string
  ev_observed_at :: int
  ev_seq :: string
  ev_source :: string

definition event_params :: "uuid \<Rightarrow> uuid \<Rightarrow> string \<Rightarrow> int \<Rightarrow> string \<Rightarrow> int \<Rightarrow> string \<Rightarrow> string \<Rightarrow> upsert_params" where
  "event_params bucket fileType key sizeBytes etag obs seq source =
     \<lparr>p_org = DefaultOrgID, p_file_type = non_Nil fileType, p_agent = None, p_rule = None, p_bucket = bucket,
      p_storage_path = key, p_original_path = None, p_file_name = fileNameFromPath key, p_size = sizeBytes,
      p_sha256 = None, p_etag = non_empty etag, p_content_type = None, p_mtime = None, p_status = FileStatusCompleted,
      p_uploaded_at = Some obs, p_source = source, p_observed_at = obs, p_event_seq = non_empty seq,
      p_meta_incomplete = True\<rparr>"

definition unknown_bucket :: "string \<Rightarrow> db_error \<Rightarrow> index_error" where
  "unknown_bucket stage err = (if err = ErrNoRows then ErrUnknownBucket else IndexFailure stage err)"

definition IndexUploadReporting :: "cp_env \<Rightarrow> string \<Rightarrow> string \<Rightarrow> int \<Rightarrow> string \<Rightarrow> int \<Rightarrow> string \<Rightarrow> string \<Rightarrow> indexer \<Rightarrow> (index_error + bool) \<times> indexer" where
  "IndexUploadReporting e bucketName key sizeBytes etag obs seq source s =
     (case sql e (query (GetBucketByName DefaultOrgID bucketName)) s of
        (Inl err, s1) \<Rightarrow> (Inl (unknown_bucket ''get bucket'' err), s1)
      | (Inr bucket, s1) \<Rightarrow>
          (let (fileType, s2) = classify_or_Nil e key s1
           in case UpsertObservedFile e (event_params (b_id bucket) fileType key sizeBytes etag obs seq source) s2 of
                (Inl err, s3) \<Rightarrow> (Inl (IndexFailure ''upsert file entry'' err), s3)
              | (Inr (fe, suppressed), s3) \<Rightarrow>
                  if suppressed then (Inr True, s3\<lparr>ix_suppressedWrites := ix_suppressedWrites s3 + 1\<rparr>)
                  else (Inr False, s3)))"

definition IndexUpload :: "cp_env \<Rightarrow> string \<Rightarrow> string \<Rightarrow> int \<Rightarrow> string \<Rightarrow> int \<Rightarrow> string \<Rightarrow> string \<Rightarrow> indexer \<Rightarrow> (index_error + unit) \<times> indexer" where
  "IndexUpload e bucketName key sizeBytes etag obs seq source s =
     (case IndexUploadReporting e bucketName key sizeBytes etag obs seq source s of
        (Inl err, s1) \<Rightarrow> (Inl err, s1) | (Inr suppressed, s1) \<Rightarrow> (Inr (), s1))"

definition event_deletion :: "uuid \<Rightarrow> string \<Rightarrow> int \<Rightarrow> string \<Rightarrow> string \<Rightarrow> delete_params" where
  "event_deletion bucket key obs seq source =
     \<lparr>d_bucket = bucket, d_storage_path = key, d_observed_at = obs, d_event_seq = non_empty seq, d_source = source\<rparr>"

definition IndexDeletionReporting :: "cp_env \<Rightarrow> string \<Rightarrow> string \<Rightarrow> int \<Rightarrow> string \<Rightarrow> string \<Rightarrow> indexer \<Rightarrow> (index_error + bool) \<times> indexer" where
  "IndexDeletionReporting e bucketName key obs seq source s =
     (case sql e (query (GetBucketByName DefaultOrgID bucketName)) s of
        (Inl err, s1) \<Rightarrow> (Inl (unknown_bucket ''get bucket'' err), s1)
      | (Inr bucket, s1) \<Rightarrow>
          (case MarkObservedFileDeleted e (event_deletion (b_id bucket) key obs seq source) s1 of
             (Inl err, s2) \<Rightarrow> (Inl (IndexFailure ''mark file entry deleted'' err), s2)
           | (Inr None, s2) \<Rightarrow> (Inr False, s2\<lparr>ix_absentDeletes := ix_absentDeletes s2 + 1\<rparr>)
           | (Inr (Some (fe, suppressed)), s2) \<Rightarrow>
               if suppressed then (Inr True, s2\<lparr>ix_suppressedWrites := ix_suppressedWrites s2 + 1\<rparr>)
               else (Inr False, publishFileDeleted e fe s2)))"

definition IndexDeletion :: "cp_env \<Rightarrow> string \<Rightarrow> string \<Rightarrow> int \<Rightarrow> string \<Rightarrow> string \<Rightarrow> indexer \<Rightarrow> (index_error + unit) \<times> indexer" where
  "IndexDeletion e bucketName key obs seq source s =
     (case IndexDeletionReporting e bucketName key obs seq source s of
        (Inl err, s1) \<Rightarrow> (Inl err, s1) | (Inr suppressed, s1) \<Rightarrow> (Inr (), s1))"

record row_state =
  rst_found :: bool
  rst_status :: "FileStatus option"
  rst_size :: int
  rst_etag :: string

definition no_row :: row_state where
  "no_row = \<lparr>rst_found = False, rst_status = None, rst_size = 0, rst_etag = ''''\<rparr>"

definition RowState :: "cp_env \<Rightarrow> string \<Rightarrow> string \<Rightarrow> indexer \<Rightarrow> (index_error + row_state) \<times> indexer" where
  "RowState e bucketName key s =
     (case sql e (query (GetBucketByName DefaultOrgID bucketName)) s of
        (Inl ErrNoRows, s1) \<Rightarrow> (Inr no_row, s1)
      | (Inl err, s1) \<Rightarrow> (Inl (IndexFailure ''get bucket'' err), s1)
      | (Inr bucket, s1) \<Rightarrow>
          (case sql e (query (GetIndexedFileByKey (b_id bucket, key))) s1 of
             (Inl ErrNoRows, s2) \<Rightarrow> (Inr no_row, s2)
           | (Inl err, s2) \<Rightarrow> (Inl (IndexFailure ''row state'' err), s2)
           | (Inr fe, s2) \<Rightarrow>
               (Inr \<lparr>rst_found = True, rst_status = Some (fe_status fe), rst_size = fe_size fe,
                     rst_etag = (case fe_etag fe of None \<Rightarrow> '''' | Some t \<Rightarrow> t)\<rparr>, s2)))"

section \<open>Sinks\<close>

datatype sink_error = ErrEmptySource | ErrUnsupportedKind | ErrSuppressed | SinkIndex index_error

definition index_result :: "(index_error + 'a) \<times> indexer \<Rightarrow> (sink_error + 'a) \<times> indexer" where
  "index_result r = (case r of (Inl err, s) \<Rightarrow> (Inl (SinkIndex err), s) | (Inr x, s) \<Rightarrow> (Inr x, s))"

definition indexSink_Apply :: "cp_env \<Rightarrow> storage_event \<Rightarrow> indexer \<Rightarrow> (sink_error + unit) \<times> indexer" where
  "indexSink_Apply e ev s =
     (if ev_source ev = '''' then (Inl ErrEmptySource, s)
      else case ev_kind ev of
             KindObjectCreated \<Rightarrow>
               index_result (IndexUpload e (ev_bucket ev) (ev_key ev) (ev_size ev) (ev_etag ev) (ev_observed_at ev) (ev_seq ev) (ev_source ev) s)
           | KindObjectRemoved \<Rightarrow>
               index_result (IndexDeletion e (ev_bucket ev) (ev_key ev) (ev_observed_at ev) (ev_seq ev) (ev_source ev) s)
           | _ \<Rightarrow> (Inl ErrUnsupportedKind, s))"

definition suppression_result :: "(index_error + bool) \<times> indexer \<Rightarrow> (sink_error + unit) \<times> indexer" where
  "suppression_result r =
     (case r of (Inl err, s) \<Rightarrow> (Inl (SinkIndex err), s)
      | (Inr suppressed, s) \<Rightarrow> if suppressed then (Inl ErrSuppressed, s) else (Inr (), s))"

definition suppressionAware_Apply :: "cp_env \<Rightarrow> storage_event \<Rightarrow> indexer \<Rightarrow> (sink_error + unit) \<times> indexer" where
  "suppressionAware_Apply e ev s =
     (if ev_source ev = '''' then (Inl ErrEmptySource, s)
      else case ev_kind ev of
             KindObjectCreated \<Rightarrow>
               suppression_result (IndexUploadReporting e (ev_bucket ev) (ev_key ev) (ev_size ev) (ev_etag ev) (ev_observed_at ev) (ev_seq ev) (ev_source ev) s)
           | KindObjectRemoved \<Rightarrow>
               suppression_result (IndexDeletionReporting e (ev_bucket ev) (ev_key ev) (ev_observed_at ev) (ev_seq ev) (ev_source ev) s)
           | _ \<Rightarrow> (Inl ErrUnsupportedKind, s))"


section \<open>The gRPC handler\<close>

text \<open>
  \<^verbatim>\<open>handleUploadResult\<close> of the gRPC server, with an indexer and a registry: the acknowledgement it hands to the
  agent's stream, if any.  The organisation comes from the token's claims.
\<close>

definition extractOrgID :: "cp_env \<Rightarrow> string option \<Rightarrow> uuid" where
  "extractOrgID e claim =
     (case claim of
        None \<Rightarrow> DefaultOrgID
      | Some org \<Rightarrow> if org = '''' then DefaultOrgID else case cp_parse_uuid e org of None \<Rightarrow> DefaultOrgID | Some ident \<Rightarrow> ident)"

definition handleUploadResult :: "cp_env \<Rightarrow> string \<Rightarrow> string option \<Rightarrow> result_msg \<Rightarrow> indexer \<Rightarrow> ack_msg option \<times> indexer" where
  "handleUploadResult e agentID claim m s =
     (case cp_parse_uuid e agentID of
        None \<Rightarrow> (None, s)
      | Some agent \<Rightarrow>
          (case HandleUploadResult e agent (extractOrgID e claim) m s of
             (Inl err, s1) \<Rightarrow> (None, s1)
           | (Inr u, s1) \<Rightarrow>
               ((if rs_task_id m = '''' then None
                 else Some \<lparr>ack_ref_message_id = rs_task_id m, ack_success = True\<rparr>), s1)))"

end
