(* ===== verification/Index_Laws.thy ===== *)
theory Index_Laws
  imports Index
begin

text \<open>
  What the file index guarantees: under every interleaving of sessions, driver faults included, the latest
  observation offered for an object decides its row; a report that is acknowledged is in the index; tags
  follow their governance, and processing a report again changes neither tags nor the review queue.
\<close>

section \<open>Sessions on the catalog\<close>

text \<open>An observation offered for a key: its time and the status it reports.\<close>

type_synonym observation = "int \<times> FileStatus"

type_synonym offer = "(uuid \<times> string) \<times> observation"

definition upsert_offer :: "upsert_params \<Rightarrow> int \<Rightarrow> offer" where
  "upsert_offer p now = ((p_bucket p, p_storage_path p), (if db_clocked (p_source p) then now else p_observed_at p, p_status p))"

definition delete_offer :: "delete_params \<Rightarrow> offer" where
  "delete_offer d = ((d_bucket d, d_storage_path d), (d_observed_at d, FileStatusDeleted))"

definition view :: "file_entry \<Rightarrow> observation" where
  "view fe = (fe_observed_at fe, fe_status fe)"

definition offers_on :: "uuid \<times> string \<Rightarrow> offer list \<Rightarrow> observation set" where
  "offers_on k os = {ob. (k, ob) \<in> set os}"

text \<open>\<open>latest x X\<close>: \<open>x\<close> is one of \<open>X\<close> and none of them is later.\<close>

definition latest :: "observation \<Rightarrow> observation set \<Rightarrow> bool" where
  "latest x X \<longleftrightarrow> x \<in> X \<and> (\<forall>y\<in>X. fst y \<le> fst x)"

text \<open>Buckets once found stay what they are; nothing else is asked of the tables besides the entries.\<close>

definition keeps_buckets :: "catalog \<Rightarrow> catalog \<Rightarrow> bool" where
  "keeps_buckets c c' \<longleftrightarrow> (\<forall>org name b. GetBucketByName org name c = Some b \<longrightarrow> GetBucketByName org name c' = Some b)"

text \<open>\<open>index_run le c os c'\<close>: sessions of the index take \<open>c\<close> to \<open>c'\<close>, offering \<open>os\<close> in that order.\<close>

inductive index_run :: "(string \<Rightarrow> string \<Rightarrow> bool) \<Rightarrow> catalog \<Rightarrow> offer list \<Rightarrow> catalog \<Rightarrow> bool"
  for le :: "string \<Rightarrow> string \<Rightarrow> bool" and c :: catalog where
  start: "index_run le c [] c"
| upsert: "index_run le c os c1 \<Longrightarrow> p_status p \<noteq> FileStatusDeleted
    \<Longrightarrow> index_run le c (os @ [upsert_offer p now]) (snd (UpsertIndexedFile le p now c1))"
| delete: "index_run le c os c1 \<Longrightarrow> index_run le c (os @ [delete_offer d]) (snd (DeleteIndexedFile le d now c1))"
| other: "index_run le c os c1 \<Longrightarrow> file_entries c2 = file_entries c1 \<Longrightarrow> keeps_buckets c1 c2 \<Longrightarrow> index_run le c os c2"

lemma index_run_trans:
  assumes "index_run le c os c1" "index_run le c1 os' c2"
  shows "index_run le c (os @ os') c2"
  using assms(2,1)
proof (induction rule: index_run.induct)
  case start then show ?case by simp
next
  case upsert then show ?case using index_run.upsert by (metis append.assoc)
next
  case delete then show ?case using index_run.delete by (metis append.assoc)
next
  case other then show ?case using index_run.other by blast
qed

section \<open>Rows\<close>

lemma find_update:
  "List.find (\<lambda>r. f r = k) (map (\<lambda>r. if f r = f x then x else r) t)
     = (if k = f x \<and> f x \<in> f ` set t then Some x else List.find (\<lambda>r. f r = k) t)"
  by (induction t) auto

lemma find_row_iff: "find_row f k t = None \<longleftrightarrow> k \<notin> f ` set t"
  by (auto simp: find_row_def find_None_iff)

lemma Get_key: "GetIndexedFileByKey k c = Some fe \<Longrightarrow> file_key fe = k \<and> fe \<in> set (file_entries c)"
  by (auto simp: GetIndexedFileByKey_def find_row_def find_Some_iff)

lemma Get_put_entry:
  assumes "GetIndexedFileByKey (file_key fe) c = Some x"
  shows "GetIndexedFileByKey k (put_entry fe c) = (if k = file_key fe then Some fe else GetIndexedFileByKey k c)"
proof -
  have "file_key fe \<in> file_key ` set (file_entries c)"
    using Get_key[OF assms] by (metis imageI)
  then show ?thesis
    by (simp add: GetIndexedFileByKey_def put_entry_def find_row_def update_where_def find_update)
qed

lemma find_snoc: "List.find P (t @ [x]) = (case List.find P t of None \<Rightarrow> if P x then Some x else None | Some y \<Rightarrow> Some y)"
  by (induction t) auto

lemma Get_snoc:
  "GetIndexedFileByKey k (c\<lparr>file_entries := file_entries c @ [x], next_uuid := n\<rparr>)
     = (case GetIndexedFileByKey k c of None \<Rightarrow> if k = file_key x then Some x else None | Some fe \<Rightarrow> Some fe)"
  by (auto simp: GetIndexedFileByKey_def find_row_def find_snoc split: option.splits)

lemma conflict_update_view:
  "view (conflict_update now x fe) = (fe_observed_at x, fe_status x)"
  "file_key (conflict_update now x fe) = file_key fe" "fe_id (conflict_update now x fe) = fe_id fe"
  by (simp_all add: view_def file_key_def conflict_update_def)

lemma excluded_view [simp]:
  "file_key (excluded n now p) = fst (upsert_offer p now)"
  "fe_observed_at (excluded n now p) = fst (snd (upsert_offer p now))"
  "fe_status (excluded n now p) = snd (snd (upsert_offer p now))"
  "fe_event_seq (excluded n now p) = p_event_seq p"
  by (simp_all add: excluded_def upsert_offer_def file_key_def)

lemma offer_key [simp]:
  "fst (upsert_offer p now) = (p_bucket p, p_storage_path p)" "fst (delete_offer d) = (d_bucket d, d_storage_path d)"
  "snd (delete_offer d) = (d_observed_at d, FileStatusDeleted)"
  by (simp_all add: upsert_offer_def delete_offer_def)

text \<open>What one write does to the rows, seen through observations.\<close>

lemma Upsert_row:
  "GetIndexedFileByKey k (snd (UpsertIndexedFile le p now c)) =
     (case GetIndexedFileByKey k c of
        None \<Rightarrow> if k = fst (upsert_offer p now) then Some (excluded (next_uuid c) now p) else None
      | Some fe \<Rightarrow>
          if k = fst (upsert_offer p now) \<and> not_older le (fst (snd (upsert_offer p now))) (p_event_seq p) fe
          then Some (conflict_update now (excluded (next_uuid c) now p) fe) else Some fe)"
proof (cases "GetIndexedFileByKey (p_bucket p, p_storage_path p) c")
  case None
  then show ?thesis
    by (auto simp: UpsertIndexedFile_def Let_def Get_snoc split: option.splits)
next
  case (Some fe)
  then have fe: "file_key fe = (p_bucket p, p_storage_path p)" using Get_key by blast
  let ?fe = "conflict_update now (excluded (next_uuid c) now p) fe"
  have "GetIndexedFileByKey (file_key ?fe) c = Some fe" using Some fe by (simp add: conflict_update_view)
  from Get_put_entry[OF this] Some fe show ?thesis
    by (auto simp: UpsertIndexedFile_def Let_def conflict_update_view split: option.splits)
qed

lemma Delete_row:
  "GetIndexedFileByKey k (snd (DeleteIndexedFile le d now c)) =
     (case GetIndexedFileByKey k c of
        None \<Rightarrow> None
      | Some fe \<Rightarrow>
          if k = fst (delete_offer d) \<and> not_older le (d_observed_at d) (d_event_seq d) fe
          then Some (fe\<lparr>fe_status := FileStatusDeleted, fe_updated_at := now, fe_observed_at := d_observed_at d,
                        fe_event_seq := d_event_seq d, fe_source := d_source d\<rparr>) else Some fe)"
proof (cases "GetIndexedFileByKey (d_bucket d, d_storage_path d) c")
  case (Some fe)
  then have fe: "file_key fe = (d_bucket d, d_storage_path d)" using Get_key by blast
  let ?fe = "fe\<lparr>fe_status := FileStatusDeleted, fe_updated_at := now, fe_observed_at := d_observed_at d,
    fe_event_seq := d_event_seq d, fe_source := d_source d\<rparr>"
  have k: "file_key ?fe = file_key fe" by (simp add: file_key_def)
  then have "GetIndexedFileByKey (file_key ?fe) c = Some fe" using Some fe by simp
  from Get_put_entry[OF this] Some fe k show ?thesis
    by (auto simp: DeleteIndexedFile_def Let_def split: option.splits)
qed (auto simp: DeleteIndexedFile_def split: option.splits)

lemma not_older_time: "not_older le t sq fe \<Longrightarrow> fe_observed_at fe \<le> t" "\<not> not_older le t sq fe \<Longrightarrow> t \<le> fe_observed_at fe"
  by (auto simp: not_older_def)

section \<open>The latest observation wins\<close>

lemma latest_insert:
  "latest x X \<Longrightarrow> fst y \<le> fst x \<Longrightarrow> latest x (insert y X)"
  "latest x X \<Longrightarrow> fst x \<le> fst y \<Longrightarrow> latest y (insert y X)"
  by (auto simp: latest_def)

lemma offers_on_snoc: "offers_on k (os @ [(k', ob)]) = (if k = k' then insert ob (offers_on k os) else offers_on k os)"
  by (auto simp: offers_on_def)

lemma latest_snoc:
  assumes "latest (view fe) (insert v (offers_on k os))"
    and "if k = fst ofr \<and> b then view fe' = snd ofr \<and> fe_observed_at fe \<le> fst (snd ofr)
         else fe' = fe \<and> (k = fst ofr \<longrightarrow> fst (snd ofr) \<le> fe_observed_at fe)"
  shows "latest (view fe') (insert v (offers_on k (os @ [ofr])))"
proof -
  obtain k' ob where o: "ofr = (k', ob)" by (cases ofr)
  have "insert v (insert ob (offers_on k os)) = insert ob (insert v (offers_on k os))" by auto
  then show ?thesis
    using assms latest_insert[OF assms(1), of ob] o
    by (auto simp: offers_on_snoc view_def split: if_splits)
qed

lemma run_latest:
  assumes "index_run le c os c'" "GetIndexedFileByKey k c = Some fe"
  shows "\<exists>fe'. GetIndexedFileByKey k c' = Some fe' \<and> fe_id fe' = fe_id fe
    \<and> latest (view fe') (insert (view fe) (offers_on k os))"
  using assms(1)
proof (induction rule: index_run.induct)
  case start
  then show ?case using assms(2) by (auto simp: latest_def offers_on_def)
next
  case (upsert os c1 p now)
  then obtain fe1 where fe1: "GetIndexedFileByKey k c1 = Some fe1" "fe_id fe1 = fe_id fe"
    "latest (view fe1) (insert (view fe) (offers_on k os))" by blast
  let ?b = "not_older le (fst (snd (upsert_offer p now))) (p_event_seq p) fe1"
  let ?new = "conflict_update now (excluded (next_uuid c1) now p) fe1"
  have new: "view ?new = snd (upsert_offer p now)" "fe_id ?new = fe_id fe"
    using fe1(2) by (simp_all add: conflict_update_view)
  have "latest (view (if k = fst (upsert_offer p now) \<and> ?b then ?new else fe1)) (insert (view fe) (offers_on k (os @ [upsert_offer p now])))"
    by (rule latest_snoc[OF fe1(3), where b = ?b]) (auto simp: new dest: not_older_time)
  then show ?case using fe1 new(2) by (auto simp: Upsert_row)
next
  case (delete os c1 d now)
  then obtain fe1 where fe1: "GetIndexedFileByKey k c1 = Some fe1" "fe_id fe1 = fe_id fe"
    "latest (view fe1) (insert (view fe) (offers_on k os))" by blast
  let ?b = "not_older le (d_observed_at d) (d_event_seq d) fe1"
  let ?new = "fe1\<lparr>fe_status := FileStatusDeleted, fe_updated_at := now, fe_observed_at := d_observed_at d,
    fe_event_seq := d_event_seq d, fe_source := d_source d\<rparr>"
  have new: "view ?new = snd (delete_offer d)" "fe_id ?new = fe_id fe" "fst (snd (delete_offer d)) = d_observed_at d"
    using fe1(2) by (simp_all add: view_def)
  have "latest (view (if k = fst (delete_offer d) \<and> ?b then ?new else fe1)) (insert (view fe) (offers_on k (os @ [delete_offer d])))"
    by (rule latest_snoc[OF fe1(3), where b = ?b]) (auto simp: new dest: not_older_time)
  then show ?case using fe1 new(2) by (auto simp: Delete_row)
next
  case (other os c1 c2)
  then show ?case by (simp add: GetIndexedFileByKey_def)
qed


section \<open>Operations as sessions\<close>

text \<open>Other sessions are sessions of the index too; \<open>W\<close> are the offers they may make.\<close>

definition sessions :: "cp_env \<Rightarrow> offer set \<Rightarrow> bool" where
  "sessions e W \<longleftrightarrow> (\<forall>k c. \<exists>os. index_run (cp_collate e) c os (cp_meanwhile e k c) \<and> set os \<subseteq> W)"

definition session_run :: "cp_env \<Rightarrow> indexer \<Rightarrow> offer list \<Rightarrow> indexer \<Rightarrow> bool" where
  "session_run e s os s' \<longleftrightarrow> index_run (cp_collate e) (ix_db s) os (ix_db s')"

lemma session_run_trans: "session_run e s os s1 \<Longrightarrow> session_run e s1 os' s2 \<Longrightarrow> session_run e s (os @ os') s2"
  by (auto simp: session_run_def intro: index_run_trans)

lemma keeps_buckets_refl: "buckets c' = buckets c \<Longrightarrow> keeps_buckets c c'"
  by (simp add: keeps_buckets_def GetBucketByName_def)

lemma write_buckets [simp]:
  "buckets (snd (UpsertIndexedFile le p now c)) = buckets c" "buckets (snd (DeleteIndexedFile le d now c)) = buckets c"
  by (auto simp: UpsertIndexedFile_def DeleteIndexedFile_def put_entry_def Let_def split: option.splits)

lemma run_buckets: "index_run le c os c' \<Longrightarrow> keeps_buckets c c'"
  by (induction rule: index_run.induct) (auto simp: keeps_buckets_def GetBucketByName_def)

text \<open>\<open>via e W F s s'\<close>: sessions lead from \<open>s\<close> to \<open>s'\<close>, offering all of \<open>F\<close> and besides only \<open>W\<close>.\<close>

definition via :: "cp_env \<Rightarrow> offer set \<Rightarrow> offer set \<Rightarrow> indexer \<Rightarrow> indexer \<Rightarrow> bool" where
  "via e W F s s' \<longleftrightarrow> (\<exists>os. session_run e s os s' \<and> F \<subseteq> set os \<and> set os \<subseteq> W \<union> F)"

lemma viaI: "index_run (cp_collate e) (ix_db s) os (ix_db s') \<Longrightarrow> F \<subseteq> set os \<Longrightarrow> set os \<subseteq> W \<union> F \<Longrightarrow> via e W F s s'"
  by (auto simp: via_def session_run_def)

lemma via_refl: "ix_db s' = ix_db s \<Longrightarrow> via e W {} s s'"
  by (auto simp: via_def session_run_def intro: index_run.start)

lemma via_trans: "via e W F s s1 \<Longrightarrow> via e W G s1 s2 \<Longrightarrow> via e W (F \<union> G) s s2"
proof -
  assume "via e W F s s1" "via e W G s1 s2"
  then obtain os os' where "session_run e s os s1" "F \<subseteq> set os" "set os \<subseteq> W \<union> F"
    "session_run e s1 os' s2" "G \<subseteq> set os'" "set os' \<subseteq> W \<union> G" by (auto simp: via_def)
  then have "session_run e s (os @ os') s2" "F \<union> G \<subseteq> set (os @ os')" "set (os @ os') \<subseteq> W \<union> (F \<union> G)"
    by (auto intro: session_run_trans)
  then show ?thesis unfolding via_def by blast
qed

lemma via_db: "via e W F s s1 \<Longrightarrow> ix_db s2 = ix_db s1 \<Longrightarrow> via e W F s s2"
  by (simp add: via_def session_run_def)


lemma via_mono: "via e W F s s' \<Longrightarrow> W \<subseteq> W' \<Longrightarrow> via e W' F s s'"
  by (auto simp: via_def)

lemma via_weaken: "via e W F s s' \<Longrightarrow> F \<subseteq> W \<Longrightarrow> G \<subseteq> F \<Longrightarrow> via e W G s s'"
  unfolding via_def by blast

text \<open>One statement: the commits before it, then its own effect, which is an offer or none.\<close>

lemma sql_via:
  assumes e: "sessions e W" and st: "\<And>now c. index_run (cp_collate e) c (f now) (snd (st now c))"
    and W: "\<And>n. set (f (cp_now e n)) \<subseteq> W" and r: "sql e st s = (r, s')"
  shows "via e W {} s s'" "(\<And>msg. r \<noteq> Inl (DriverError msg)) \<Longrightarrow> \<exists>n. via e W (set (f (cp_now e n))) s s'"
proof -
  let ?k = "ix_stmt s" and ?c = "cp_meanwhile e (ix_stmt s) (ix_db s)"
  obtain os where os: "index_run (cp_collate e) (ix_db s) os ?c" "set os \<subseteq> W" using e unfolding sessions_def by blast
  let ?os = "os @ f (cp_now e ?k)"
  have db: "index_run (cp_collate e) (ix_db s) ?os (snd (st (cp_now e ?k) ?c))" using index_run_trans[OF os(1) st] .
  have s': "ix_db s' = ?c \<or> ix_db s' = snd (st (cp_now e ?k) ?c)"
    and ok: "(\<And>msg. r \<noteq> Inl (DriverError msg)) \<Longrightarrow> ix_db s' = snd (st (cp_now e ?k) ?c)"
    using r by (auto simp: sql_def Let_def split: prod.splits option.splits db_fault.splits)
  show "via e W {} s s'"
    using s' viaI[of e s os s' "{}" W] viaI[of e s ?os s' "{}" W] db os W[of ?k] by auto
  show "\<exists>n. via e W (set (f (cp_now e n))) s s'" if "\<And>msg. r \<noteq> Inl (DriverError msg)"
    using ok[OF that] viaI[of e s ?os s' "set (f (cp_now e ?k))" W] db os W[of ?k] by auto
qed

text \<open>Statements that leave the entries alone.\<close>

lemma side_run:
  assumes "\<And>now c. file_entries (snd (st now c)) = file_entries c \<and> buckets (snd (st now c)) = buckets c"
  shows "index_run le c [] (snd (st now c))"
  using assms by (blast intro: index_run.other[OF index_run.start] keeps_buckets_refl)

lemma side_via:
  assumes "sessions e W" "\<And>now c. file_entries (snd (st now c)) = file_entries c \<and> buckets (snd (st now c)) = buckets c"
    and "sql e st s = (r, s')"
  shows "via e W {} s s'"
  by (rule sql_via(1)[OF assms(1) _ _ assms(3), of "\<lambda>_. []"]) (simp_all add: side_run assms(2))

lemma side_statements [simp]:
  "file_entries (snd (query q now c)) = file_entries c \<and> buckets (snd (query q now c)) = buckets c"
  "file_entries (snd (UpsertFileTag t now c)) = file_entries c \<and> buckets (snd (UpsertFileTag t now c)) = buckets c"
  "file_entries (snd (InsertFileTagIfAbsent t now c)) = file_entries c \<and> buckets (snd (InsertFileTagIfAbsent t now c)) = buckets c"
  "file_entries (snd (UpsertPendingTagValue v now c)) = file_entries c \<and> buckets (snd (UpsertPendingTagValue v now c)) = buckets c"
  "file_entries (snd (CreateUploadLog l now c)) = file_entries c \<and> buckets (snd (CreateUploadLog l now c)) = buckets c"
  by (simp_all add: query_def UpsertFileTag_def InsertFileTagIfAbsent_def UpsertPendingTagValue_def CreateUploadLog_def)

lemmas query_via = side_via[OF _ side_statements(1)]


lemma Upsert_via:
  assumes "sessions e W" "p_status p \<noteq> FileStatusDeleted" "\<And>n. upsert_offer p (cp_now e n) \<in> W" "UpsertObservedFile e p s = (r, s')"
  shows "via e W {} s s'" "r = Inr x \<Longrightarrow> \<exists>n. via e W {upsert_offer p (cp_now e n)} s s'"
proof -
  obtain r1 s1 where 1: "sql e (UpsertIndexedFile (cp_collate e) p) s = (r1, s1)" by fastforce
  have w: "index_run (cp_collate e) c [upsert_offer p now] (snd (UpsertIndexedFile (cp_collate e) p now c))" for now c
    using index_run.upsert[OF index_run.start assms(2)] by simp
  note v = sql_via[OF assms(1) w _ 1]
  obtain r2 s2 where 2: "sql e (query (GetIndexedFileByKey (p_bucket p, p_storage_path p))) s1 = (r2, s2)" by fastforce
  have q: "via e W {} s1 s2" by (rule query_via[OF assms(1) 2])
  have cases: "s' = s1 \<or> (s' = s2 \<and> r1 = Inl ErrNoRows)" and r: "r = Inr x \<Longrightarrow> \<forall>msg. r1 \<noteq> Inl (DriverError msg)"
    using assms(4) 1 2 by (auto simp: UpsertObservedFile_def split: sum.splits db_error.splits)
  have v1: "via e W {} s s1" using v(1) assms(3) by simp
  then show "via e W {} s s'" using cases via_trans[OF v1 q] by auto
  assume "r = Inr x"
  then obtain n where n: "via e W {upsert_offer p (cp_now e n)} s s1" using v(2) assms(3) r by auto
  then show "\<exists>n. via e W {upsert_offer p (cp_now e n)} s s'" using cases via_trans[OF n q] by auto
qed

lemma Delete_via:
  assumes "sessions e W" "delete_offer d \<in> W" "MarkObservedFileDeleted e d s = (r, s')"
  shows "via e W {} s s'" "r = Inr x \<Longrightarrow> via e W {delete_offer d} s s'"
proof -
  obtain r1 s1 where 1: "sql e (DeleteIndexedFile (cp_collate e) d) s = (r1, s1)" by fastforce
  have w: "index_run (cp_collate e) c [delete_offer d] (snd (DeleteIndexedFile (cp_collate e) d now c))" for now c
    using index_run.delete[OF index_run.start] by simp
  note v = sql_via[OF assms(1) w _ 1]
  obtain r2 s2 where 2: "sql e (query (GetIndexedFileByKey (d_bucket d, d_storage_path d))) s1 = (r2, s2)" by fastforce
  have q: "via e W {} s1 s2" by (rule query_via[OF assms(1) 2])
  have cases: "s' = s1 \<or> (s' = s2 \<and> r1 = Inl ErrNoRows)" and r: "r = Inr x \<Longrightarrow> \<forall>msg. r1 \<noteq> Inl (DriverError msg)"
    using assms(3) 1 2 by (auto simp: MarkObservedFileDeleted_def split: sum.splits db_error.splits)
  have v1: "via e W {} s s1" using v(1) assms(2) by simp
  then show "via e W {} s s'" using cases via_trans[OF v1 q] by auto
  assume "r = Inr x"
  then have n: "via e W {delete_offer d} s s1" using v(2) assms(2) r by auto
  then show "via e W {delete_offer d} s s'" using cases via_trans[OF n q] by auto
qed

text \<open>Everything around the one write offers nothing.\<close>

lemma via_pair: "(\<And>r s'. f = (r, s') \<Longrightarrow> via e W {} s s') \<Longrightarrow> via e W {} s (snd f)"
  by (cases f) simp

lemma via_step: "via e W {} s s1 \<Longrightarrow> via e W {} s1 s2 \<Longrightarrow> via e W {} s s2"
  using via_trans[of e W "{}" s s1 "{}" s2] by simp

lemma classify_via:
  assumes "sessions e W"
  shows "classify_or_Nil e path s = (t, s') \<Longrightarrow> via e W {} s s'"
    and "classifyFileType e org path declared s = (t, s') \<Longrightarrow> via e W {} s s'"
proof -
  have c: "via e W {} s s'" if "classify_or_Nil e path s = (t, s')" for s t s'
    using that query_via[OF assms]
    by (auto simp: classify_or_Nil_def Classify_def split: prod.splits sum.splits)
  then show "classify_or_Nil e path s = (t, s') \<Longrightarrow> via e W {} s s'" .
  assume r: "classifyFileType e org path declared s = (t, s')"
  obtain r1 s1 where 1: "sql e (query (Some \<circ> GetFileTypeIDByName org declared)) s = (r1, s1)" by fastforce
  have q: "via e W {} s s1" by (rule query_via[OF assms 1])
  show "via e W {} s s'"
  proof (cases "declared = ''''")
    case False
    then have "s' = s1 \<or> classify_or_Nil e path s1 = (t, s')"
      using r 1 by (auto simp: classifyFileType_def split: sum.splits if_splits)
    then show ?thesis using q c via_step by blast
  qed (use r c in \<open>simp add: classifyFileType_def\<close>)
qed

lemma static_tags_via:
  assumes "sessions e W"
  shows "via e W {} s (applyStaticTags e entry tags s)"
proof (induction tags arbitrary: s)
  case (Cons kv tags)
  obtain k v where kv: "kv = (k, v)" by (cases kv)
  let ?s = "snd (sql e (UpsertFileTag \<lparr>tag_entry = entry, tag_key = k, tag_value = v, tag_source = ''rule_static''\<rparr>) s)"
  have "via e W {} s ?s" by (rule via_pair) (rule side_via[OF assms side_statements(2)])
  then show ?case using via_step Cons.IH by (auto simp: kv)
qed (simp add: via_refl)

lemma pending_via:
  assumes "sessions e W"
  shows "via e W {} s (queuePendingIfUnregistered e org info value rule s)"
proof -
  obtain r1 s1 where 1: "sql e (query (Some \<circ> TagValueExists (tk_id info) value)) s = (r1, s1)" by fastforce
  obtain r2 s2 where 2: "sql e (query (Some \<circ> FindSimilarTagValue (tk_id info) value)) s1 = (r2, s2)" by fastforce
  have q1: "via e W {} s s1" by (rule query_via[OF assms 1])
  have q2: "via e W {} s s2" using via_step[OF q1] query_via[OF assms 2] by blast
  have q3: "via e W {} s (snd (sql e (UpsertPendingTagValue v) s2))" for v
    by (rule via_step[OF q2 via_pair]) (rule side_via[OF assms side_statements(4)])
  show ?thesis using q1 q3 1 2
    by (auto simp: queuePendingIfUnregistered_def Let_def split: sum.splits)
qed

lemma path_var_tag_via:
  assumes "sessions e W"
  shows "via e W {} s (path_var_tag e org entry vals rule kr s)"
proof -
  obtain key ref where kr: "kr = (key, ref)" by (cases kr)
  obtain r1 s1 where 1: "sql e (query (Some \<circ> GetTagKeyByName org key)) s = (r1, s1)" by fastforce
  have q1: "via e W {} s s1" by (rule query_via[OF assms 1])
  have q2: "via e W {} s s2" if "sql e (InsertFileTagIfAbsent t) s1 = (r, s2)" for t r s2
    using via_step[OF q1] side_via[OF assms side_statements(3) that] by blast
  have q3: "via e W {} s (queuePendingIfUnregistered e org k v rule s2)" if "sql e (InsertFileTagIfAbsent t) s1 = (r, s2)" for t r s2 k v
    using via_step[OF q2[OF that]] pending_via[OF assms] by blast
  show ?thesis
    using 1 q1 q2 q3
    by (auto simp: path_var_tag_def kr Let_def via_refl split: sum.splits option.splits prod.splits)
qed

lemma path_tags_via:
  assumes "sessions e W"
  shows "via e W {} s (applyPathVarTags e org entry path template m rule s)"
proof -
  have "via e W {} s (fold (path_var_tag e org entry vals rule) m s)" for vals s
  proof (induction m arbitrary: s)
    case (Cons kr m)
    show ?case using via_step[OF path_var_tag_via[OF assms] Cons.IH] by simp
  qed (simp add: via_refl)
  then show ?thesis by (auto simp: applyPathVarTags_def via_refl split: sum.splits)
qed


section \<open>The operations\<close>

lemma resolve_rule_via:
  assumes "sessions e W" "resolve_rule e agent org ruleStr s = (r, s')"
  shows "via e W {} s s'"
proof (cases "if ruleStr = '''' then None else cp_parse_uuid e ruleStr")
  case (Some rule)
  obtain r1 s1 where 1: "sql e (query (GetRuleTagInfo org rule)) s = (r1, s1)" by fastforce
  have "s' = s1" using assms(2) Some 1
    by (auto simp: resolve_rule_def split: sum.splits db_error.splits prod.splits if_splits)
  then show ?thesis using query_via[OF assms(1) 1] by simp
qed (use assms(2) in \<open>auto simp: resolve_rule_def via_refl\<close>)

lemma publish_db [simp]: "ix_db (publish e m s) = ix_db s" "ix_db (publishFileUploaded e fe a sh s) = ix_db s"
  "ix_db (publishFileDeleted e fe s) = ix_db s"
  by (simp_all add: publish_def publishFileUploaded_def publishFileDeleted_def)

lemma finish_report_via:
  assumes "sessions e W" "finish_report e org agent entry rule m s = (r, s')"
  shows "via e W {} s s'"
proof -
  obtain r1 s1 where 1: "sql e (CreateUploadLog (report_log e org agent (map_option fe_id entry) rule m)) s = (r1, s1)" by fastforce
  have "ix_db s' = ix_db s1" using assms(2) 1
    by (auto simp: finish_report_def split: sum.splits option.splits if_splits)
  then show ?thesis using side_via[OF assms(1) side_statements(5) 1] via_db by blast
qed

text \<open>The offers a session of an operation may make: which bucket id stands for the name is the table's business.\<close>

datatype index_op = Report uuid uuid result_msg | PlainEvent storage_event | AwareEvent storage_event

fun event_offers :: "cp_env \<Rightarrow> storage_event \<Rightarrow> offer set" where
  "event_offers e ev =
     (let at = (\<lambda>st. {((b, ev_key ev), (t, st)) | b t. if db_clocked (ev_source ev) then t \<in> range (cp_now e) else t = ev_observed_at ev})
      in case ev_kind ev of KindObjectCreated \<Rightarrow> at FileStatusCompleted
         | KindObjectRemoved \<Rightarrow> {((b, ev_key ev), (ev_observed_at ev, FileStatusDeleted)) | b. True} | _ \<Rightarrow> {})"

fun op_offers :: "cp_env \<Rightarrow> index_op \<Rightarrow> offer set" where
  "op_offers e (Report agent org m) = (if rs_success m then {((b, rs_storage_path m), (cp_now e n, FileStatusCompleted)) | b n. True} else {})"
| "op_offers e (PlainEvent ev) = event_offers e ev"
| "op_offers e (AwareEvent ev) = event_offers e ev"

fun op_bucket :: "index_op \<Rightarrow> catalog \<Rightarrow> bucket_row option" where
  "op_bucket (Report agent org m) c = GetBucketByName org (rs_bucket m) c"
| "op_bucket (PlainEvent ev) c = GetBucketByName DefaultOrgID (ev_bucket ev) c"
| "op_bucket (AwareEvent ev) c = GetBucketByName DefaultOrgID (ev_bucket ev) c"

fun op_path :: "index_op \<Rightarrow> string" where
  "op_path (Report agent org m) = rs_storage_path m"
| "op_path (PlainEvent ev) = ev_key ev"
| "op_path (AwareEvent ev) = ev_key ev"

text \<open>An operation and whether it reports the observation as processed; a suppressed one counts as such.\<close>

fun perform :: "cp_env \<Rightarrow> index_op \<Rightarrow> indexer \<Rightarrow> bool \<times> indexer" where
  "perform e (Report agent org m) s = (case HandleUploadResult e agent org m s of (r, s') \<Rightarrow> (isl r = False, s'))"
| "perform e (PlainEvent ev) s = (case indexSink_Apply e ev s of (r, s') \<Rightarrow> (isl r = False, s'))"
| "perform e (AwareEvent ev) s =
     (case suppressionAware_Apply e ev s of (r, s') \<Rightarrow> ((case r of Inr u \<Rightarrow> True | Inl err \<Rightarrow> err = ErrSuppressed), s'))"

text \<open>The lookup of the bucket every operation starts with.\<close>

lemma bucket_lookup:
  assumes "sessions e W" "sql e (query (GetBucketByName org name)) s = (Inr b, s1)"
  shows "via e W {} s s1" "GetBucketByName org name (ix_db s) = Some b0 \<Longrightarrow> b = b0"
proof -
  show "via e W {} s s1" by (rule query_via[OF assms])
  let ?c = "cp_meanwhile e (ix_stmt s) (ix_db s)"
  have "GetBucketByName org name ?c = Some b"
    using assms(2) by (auto simp: sql_def query_def Let_def split: option.splits db_fault.splits)
  moreover obtain os where "index_run (cp_collate e) (ix_db s) os ?c" using assms(1) unfolding sessions_def by blast
  ultimately show "GetBucketByName org name (ix_db s) = Some b0 \<Longrightarrow> b = b0"
    using run_buckets by (fastforce simp: keeps_buckets_def)
qed


definition offers_at :: "cp_env \<Rightarrow> offer set \<Rightarrow> uuid \<times> string \<Rightarrow> offer set \<Rightarrow> indexer \<Rightarrow> indexer \<Rightarrow> bool" where
  "offers_at e W k A s s' \<longleftrightarrow> (\<exists>ob. (k, ob) \<in> A \<and> via e W {(k, ob)} s s')"

lemma offers_atI: "via e W {(k, ob)} s s' \<Longrightarrow> (k, ob) \<in> A \<Longrightarrow> offers_at e W k A s s'"
  unfolding offers_at_def by blast

lemma via_prefix: "via e W {} s s1 \<Longrightarrow> via e W F s1 s2 \<Longrightarrow> via e W F s s2"
  using via_trans[of e W "{}" s s1 F s2] by simp

lemma upload_event_via:
  assumes e: "sessions e W" and W: "event_offers e ev \<subseteq> W" and ev: "ev_kind ev = KindObjectCreated"
    and r: "IndexUploadReporting e (ev_bucket ev) (ev_key ev) (ev_size ev) (ev_etag ev) (ev_observed_at ev) (ev_seq ev) (ev_source ev) s = (r, s')"
  shows "via e W {} s s'"
    and "r = Inr x \<Longrightarrow> GetBucketByName DefaultOrgID (ev_bucket ev) (ix_db s) = Some b \<Longrightarrow> offers_at e W (b_id b, ev_key ev) (event_offers e ev) s s'"
proof -
  obtain r1 s1 where 1: "sql e (query (GetBucketByName DefaultOrgID (ev_bucket ev))) s = (r1, s1)" by fastforce
  have q: "via e W {} s s1" by (rule query_via[OF e 1])
  have "via e W {} s s' \<and> (r = Inr x \<longrightarrow> GetBucketByName DefaultOrgID (ev_bucket ev) (ix_db s) = Some b \<longrightarrow> offers_at e W (b_id b, ev_key ev) (event_offers e ev) s s')"
  proof (cases r1)
    case (Inl err)
    then show ?thesis using r 1 q by (auto simp: IndexUploadReporting_def)
  next
    case (Inr bk)
    obtain ft s2 where 2: "classify_or_Nil e (ev_key ev) s1 = (ft, s2)" by fastforce
    let ?p = "event_params (b_id bk) ft (ev_key ev) (ev_size ev) (ev_etag ev) (ev_observed_at ev) (ev_seq ev) (ev_source ev)"
    obtain r3 s3 where 3: "UpsertObservedFile e ?p s2 = (r3, s3)" by fastforce
    have of: "upsert_offer ?p (cp_now e n) \<in> event_offers e ev" for n
      by (auto simp: upsert_offer_def event_params_def ev)
    have v2: "via e W {} s s2" using via_step[OF q classify_via(1)[OF e 2]] .
    have st: "p_status ?p \<noteq> FileStatusDeleted" by (simp add: event_params_def)
    note v = Upsert_via[OF e st subsetD[OF W of] 3]
    have db: "ix_db s' = ix_db s3" and res: "r = Inr x \<Longrightarrow> \<exists>y. r3 = Inr y"
      using r 1 2 3 Inr by (auto simp: IndexUploadReporting_def split: sum.splits if_splits)
    have "offers_at e W (b_id b, ev_key ev) (event_offers e ev) s s'" if ok: "r = Inr x" "GetBucketByName DefaultOrgID (ev_bucket ev) (ix_db s) = Some b"
    proof -
      have "bk = b" using bucket_lookup(2)[OF e] 1 Inr ok(2) by blast
      then obtain n where n: "via e W {upsert_offer ?p (cp_now e n)} s s'"
        using res[OF ok(1)] v(2) via_prefix[OF v2] via_db[OF _ db] by blast
      have "upsert_offer ?p (cp_now e n) = ((b_id b, ev_key ev), snd (upsert_offer ?p (cp_now e n)))"
        using \<open>bk = b\<close> by (simp add: upsert_offer_def event_params_def)
      then show ?thesis using n of offers_atI by metis
    qed
    then show ?thesis using via_db[OF via_step[OF v2 v(1)] db] by blast
  qed
  then show "via e W {} s s'"
    and "r = Inr x \<Longrightarrow> GetBucketByName DefaultOrgID (ev_bucket ev) (ix_db s) = Some b \<Longrightarrow> offers_at e W (b_id b, ev_key ev) (event_offers e ev) s s'" by auto
qed

lemma removal_event_via:
  assumes e: "sessions e W" and W: "event_offers e ev \<subseteq> W" and ev: "ev_kind ev = KindObjectRemoved"
    and r: "IndexDeletionReporting e (ev_bucket ev) (ev_key ev) (ev_observed_at ev) (ev_seq ev) (ev_source ev) s = (r, s')"
  shows "via e W {} s s'"
    and "r = Inr x \<Longrightarrow> GetBucketByName DefaultOrgID (ev_bucket ev) (ix_db s) = Some b \<Longrightarrow> offers_at e W (b_id b, ev_key ev) (event_offers e ev) s s'"
proof -
  obtain r1 s1 where 1: "sql e (query (GetBucketByName DefaultOrgID (ev_bucket ev))) s = (r1, s1)" by fastforce
  have q: "via e W {} s s1" by (rule query_via[OF e 1])
  have "via e W {} s s' \<and> (r = Inr x \<longrightarrow> GetBucketByName DefaultOrgID (ev_bucket ev) (ix_db s) = Some b \<longrightarrow> offers_at e W (b_id b, ev_key ev) (event_offers e ev) s s')"
  proof (cases r1)
    case (Inl err)
    then show ?thesis using r 1 q by (auto simp: IndexDeletionReporting_def)
  next
    case (Inr bk)
    let ?d = "event_deletion (b_id bk) (ev_key ev) (ev_observed_at ev) (ev_seq ev) (ev_source ev)"
    obtain r2 s2 where 2: "MarkObservedFileDeleted e ?d s1 = (r2, s2)" by fastforce
    have of: "delete_offer ?d \<in> event_offers e ev" by (auto simp: delete_offer_def event_deletion_def ev)
    note v = Delete_via[OF e subsetD[OF W of] 2]
    have db: "ix_db s' = ix_db s2" and res: "r = Inr x \<Longrightarrow> \<exists>y. r2 = Inr y"
      using r 1 2 Inr by (auto simp: IndexDeletionReporting_def split: sum.splits if_splits option.splits)
    have "offers_at e W (b_id b, ev_key ev) (event_offers e ev) s s'" if ok: "r = Inr x" "GetBucketByName DefaultOrgID (ev_bucket ev) (ix_db s) = Some b"
    proof -
      have b: "bk = b" using bucket_lookup(2)[OF e] 1 Inr ok(2) by blast
      have n: "via e W {delete_offer ?d} s s'"
        using res[OF ok(1)] v(2) via_prefix[OF q] via_db[OF _ db] by blast
      have "delete_offer ?d = ((b_id b, ev_key ev), snd (delete_offer ?d))"
        using b by (simp add: delete_offer_def event_deletion_def)
      then show ?thesis using n of offers_atI by metis
    qed
    then show ?thesis using via_db[OF via_step[OF q v(1)] db] by blast
  qed
  then show "via e W {} s s'"
    and "r = Inr x \<Longrightarrow> GetBucketByName DefaultOrgID (ev_bucket ev) (ix_db s) = Some b \<Longrightarrow> offers_at e W (b_id b, ev_key ev) (event_offers e ev) s s'" by auto
qed


lemma report_via:
  assumes e: "sessions e W" and W: "op_offers e (Report agent org m) \<subseteq> W"
    and r: "HandleUploadResult e agent org m s = (r, s')"
  shows "via e W {} s s'"
    and "r = Inr x \<Longrightarrow> rs_success m \<Longrightarrow> GetBucketByName org (rs_bucket m) (ix_db s) = Some b
      \<Longrightarrow> offers_at e W (b_id b, rs_storage_path m) (op_offers e (Report agent org m)) s s'"
proof -
  obtain r1 s1 where 1: "sql e (query (GetBucketByName org (rs_bucket m))) s = (r1, s1)" by fastforce
  have q: "via e W {} s s1" by (rule query_via[OF e 1])
  have "via e W {} s s' \<and> (r = Inr x \<longrightarrow> rs_success m \<longrightarrow> GetBucketByName org (rs_bucket m) (ix_db s) = Some b
      \<longrightarrow> offers_at e W (b_id b, rs_storage_path m) (op_offers e (Report agent org m)) s s')"
  proof (cases r1)
    case (Inl err)
    then show ?thesis using r 1 q by (auto simp: HandleUploadResult_def)
  next
    case (Inr bk)
    obtain r2 s2 where 2: "resolve_rule e agent org (rs_rule_id m) s1 = (r2, s2)" by fastforce
    have v2: "via e W {} s s2" using via_step[OF q resolve_rule_via[OF e 2]] .
    show ?thesis
    proof (cases r2)
      case (Inl err)
      then show ?thesis using r 1 2 v2 \<open>r1 = Inr bk\<close> by (auto simp: HandleUploadResult_def)
    next
      case (Inr info)
      obtain rule meta template inc where i: "info = (rule, meta, template, inc)" by (cases info)
      obtain ft s3 where 3: "classifyFileType e org (rs_storage_path m) (rm_file_type meta) s2 = (ft, s3)" by fastforce
      have v3: "via e W {} s s3" using via_step[OF v2 classify_via(2)[OF e 3]] .
      let ?p = "report_params org agent (b_id bk) rule ft inc (case rs_uploaded_at m of Some t \<Rightarrow> Some t | None \<Rightarrow> Some (cp_clock e)) m"
      obtain r4 s4 where 4: "UpsertObservedFile e ?p s3 = (r4, s4)" by fastforce
      note rest = r 1 2 3 4 \<open>r1 = Inr bk\<close> Inr i
      show ?thesis
      proof (cases "rs_success m")
        case False
        then have "finish_report e org agent None rule m s3 = (r, s')" using rest by (simp add: HandleUploadResult_def)
        then show ?thesis using via_step[OF v3 finish_report_via[OF e]] False by blast
      next
        case True
        have of: "upsert_offer ?p (cp_now e n) \<in> op_offers e (Report agent org m)" for n
          using True by (auto simp: upsert_offer_def report_params_def db_clocked_def)
        have st: "p_status ?p \<noteq> FileStatusDeleted" by (simp add: report_params_def)
        note v = Upsert_via[OF e st subsetD[OF W of] 4]
        have tail: "via e W {} s4 s' \<and> (r = Inr x \<longrightarrow> (\<exists>y. r4 = Inr y))"
        proof (cases r4)
          case (Inl err)
          then show ?thesis using rest True by (auto simp: HandleUploadResult_def via_refl)
        next
          case (Inr y)
          obtain fe sup where y: "y = (fe, sup)" by (cases y)
          let ?s6 = "applyPathVarTags e org (fe_id fe) (rs_storage_path m) template (rm_path_tag_map meta) rule
            (applyStaticTags e (fe_id fe) (rm_static_tags meta) s4)"
          have 6: "via e W {} s4 ?s6" using via_step[OF static_tags_via[OF e] path_tags_via[OF e]] .
          have "ix_db s' = ix_db s4 \<or> finish_report e org agent (Some fe) rule m ?s6 = (r, s')"
            using rest True Inr y by (auto simp: HandleUploadResult_def Let_def split: if_splits)
          then show ?thesis using Inr via_refl via_step[OF 6 finish_report_via[OF e]] by blast
        qed
        have "offers_at e W (b_id b, rs_storage_path m) (op_offers e (Report agent org m)) s s'"
          if ok: "r = Inr x" "GetBucketByName org (rs_bucket m) (ix_db s) = Some b"
        proof -
          have b: "bk = b" using bucket_lookup(2)[OF e] 1 \<open>r1 = Inr bk\<close> ok(2) by blast
          obtain n where n: "via e W {upsert_offer ?p (cp_now e n)} s3 s4" using tail ok(1) v(2) by blast
          have "via e W {upsert_offer ?p (cp_now e n)} s s'"
            using via_trans[OF via_prefix[OF v3 n] conjunct1[OF tail]] by simp
          moreover have "upsert_offer ?p (cp_now e n) = ((b_id b, rs_storage_path m), snd (upsert_offer ?p (cp_now e n)))"
            using b by (simp add: upsert_offer_def report_params_def)
          ultimately show ?thesis using of offers_atI by metis
        qed
        then show ?thesis using via_step[OF via_step[OF v3 v(1)] conjunct1[OF tail]] by blast
      qed
    qed
  qed
  then show "via e W {} s s'"
    and "r = Inr x \<Longrightarrow> rs_success m \<Longrightarrow> GetBucketByName org (rs_bucket m) (ix_db s) = Some b
      \<Longrightarrow> offers_at e W (b_id b, rs_storage_path m) (op_offers e (Report agent org m)) s s'" by auto
qed


lemma sink_reduce:
  assumes "ev_source ev \<noteq> ''''"
  shows "ev_kind ev = KindObjectCreated \<Longrightarrow> indexSink_Apply e ev s = (r, s') \<Longrightarrow>
      \<exists>r0. IndexUploadReporting e (ev_bucket ev) (ev_key ev) (ev_size ev) (ev_etag ev) (ev_observed_at ev) (ev_seq ev) (ev_source ev) s = (r0, s')
        \<and> (isl r \<longleftrightarrow> isl r0)"
    and "ev_kind ev = KindObjectRemoved \<Longrightarrow> indexSink_Apply e ev s = (r, s') \<Longrightarrow>
      \<exists>r0. IndexDeletionReporting e (ev_bucket ev) (ev_key ev) (ev_observed_at ev) (ev_seq ev) (ev_source ev) s = (r0, s')
        \<and> (isl r \<longleftrightarrow> isl r0)"
    and "ev_kind ev = KindObjectCreated \<Longrightarrow> suppressionAware_Apply e ev s = (q, s') \<Longrightarrow>
      \<exists>r0. IndexUploadReporting e (ev_bucket ev) (ev_key ev) (ev_size ev) (ev_etag ev) (ev_observed_at ev) (ev_seq ev) (ev_source ev) s = (r0, s')
        \<and> (isl r0 \<longleftrightarrow> isl q \<and> q \<noteq> Inl ErrSuppressed)"
    and "ev_kind ev = KindObjectRemoved \<Longrightarrow> suppressionAware_Apply e ev s = (q, s') \<Longrightarrow>
      \<exists>r0. IndexDeletionReporting e (ev_bucket ev) (ev_key ev) (ev_observed_at ev) (ev_seq ev) (ev_source ev) s = (r0, s')
        \<and> (isl r0 \<longleftrightarrow> isl q \<and> q \<noteq> Inl ErrSuppressed)"
  using assms
  by (auto simp: indexSink_Apply_def suppressionAware_Apply_def IndexUpload_def IndexDeletion_def index_result_def
      suppression_result_def split: prod.splits sum.splits if_splits)

lemma no_offer_kind: "event_offers e ev \<noteq> {} \<Longrightarrow> ev_kind ev = KindObjectCreated \<or> ev_kind ev = KindObjectRemoved"
  by (cases "ev_kind ev") auto

lemma event_via:
  assumes e: "sessions e W" and W: "event_offers e ev \<subseteq> W"
    and r: "(\<exists>r. indexSink_Apply e ev s = (r, s') \<and> ok = (\<not> isl r))
      \<or> (\<exists>r. suppressionAware_Apply e ev s = (r, s') \<and> ok = (\<not> isl r \<or> r = Inl ErrSuppressed))"
  shows "via e W {} s s' \<and> (ok \<longrightarrow> GetBucketByName DefaultOrgID (ev_bucket ev) (ix_db s) = Some b
      \<longrightarrow> offers_at e W (b_id b, ev_key ev) (event_offers e ev) s s')"
proof (cases "ev_source ev = '''' \<or> event_offers e ev = {}")
  case True
  then have "ix_db s' = ix_db s \<and> \<not> ok"
    using r by (cases "ev_kind ev") (auto simp: indexSink_Apply_def suppressionAware_Apply_def Let_def split: if_splits)
  then show ?thesis using via_refl by blast
next
  case False
  then consider "ev_kind ev = KindObjectCreated" | "ev_kind ev = KindObjectRemoved" using no_offer_kind by blast
  then show ?thesis
  proof cases
    case 1
    then obtain r0 where r0: "IndexUploadReporting e (ev_bucket ev) (ev_key ev) (ev_size ev) (ev_etag ev) (ev_observed_at ev) (ev_seq ev) (ev_source ev) s = (r0, s')"
      "ok \<longrightarrow> \<not> isl r0" using r sink_reduce(1,3)[of ev e s] False by fastforce
    show ?thesis using upload_event_via[OF e W 1 r0(1)] r0(2) by (metis isl_def sum.exhaust_sel)
  next
    case 2
    then obtain r0 where r0: "IndexDeletionReporting e (ev_bucket ev) (ev_key ev) (ev_observed_at ev) (ev_seq ev) (ev_source ev) s = (r0, s')"
      "ok \<longrightarrow> \<not> isl r0" using r sink_reduce(2,4)[of ev e s] False by fastforce
    show ?thesis using removal_event_via[OF e W 2 r0(1)] r0(2) by (metis isl_def sum.exhaust_sel)
  qed
qed

lemma perform_via:
  assumes e: "sessions e W" and W: "op_offers e a \<subseteq> W" and r: "perform e a s = (ok, s')"
  shows "via e W {} s s'"
    and "ok \<Longrightarrow> op_offers e a \<noteq> {} \<Longrightarrow> op_bucket a (ix_db s) = Some b \<Longrightarrow> offers_at e W (b_id b, op_path a) (op_offers e a) s s'"
proof -
  have "via e W {} s s' \<and> (ok \<longrightarrow> op_offers e a \<noteq> {} \<longrightarrow> op_bucket a (ix_db s) = Some b \<longrightarrow> offers_at e W (b_id b, op_path a) (op_offers e a) s s')"
  proof (cases a)
    case (Report agent org m)
    obtain r0 where r0: "HandleUploadResult e agent org m s = (r0, s')" "ok \<longrightarrow> \<not> isl r0"
      using r Report by (auto split: prod.splits)
    have W': "op_offers e (Report agent org m) \<subseteq> W" using W Report by simp
    have "\<exists>x. r0 = Inr x" if "ok" using r0(2) that by (cases r0) auto
    moreover have "rs_success m" if "op_offers e (Report agent org m) \<noteq> {}" using that by (auto split: if_splits)
    ultimately show ?thesis using report_via[OF e W' r0(1)] unfolding Report op_bucket.simps op_path.simps by blast
  next
    case (PlainEvent ev)
    then have "\<exists>r. indexSink_Apply e ev s = (r, s') \<and> ok = (\<not> isl r)" using r by (auto split: prod.splits)
    then show ?thesis using event_via[OF e, of ev s s' ok b] W PlainEvent by simp
  next
    case (AwareEvent ev)
    then have "\<exists>r. suppressionAware_Apply e ev s = (r, s') \<and> ok = (\<not> isl r \<or> r = Inl ErrSuppressed)"
      using r by (auto split: prod.splits sum.splits)
    then show ?thesis using event_via[OF e, of ev s s' ok b] W AwareEvent by simp
  qed
  then show "via e W {} s s'"
    and "ok \<Longrightarrow> op_offers e a \<noteq> {} \<Longrightarrow> op_bucket a (ix_db s) = Some b \<Longrightarrow> offers_at e W (b_id b, op_path a) (op_offers e a) s s'" by auto
qed


section \<open>Sequences of operations\<close>

fun perform_all :: "cp_env \<Rightarrow> index_op list \<Rightarrow> indexer \<Rightarrow> bool list \<times> indexer" where
  "perform_all e [] s = ([], s)"
| "perform_all e (a # ops) s = (let (ok, s1) = perform e a s; (oks, s2) = perform_all e ops s1 in (ok # oks, s2))"

text \<open>Operation \<open>a\<close>, started where \<open>c\<close> is the catalog, is about the object \<open>k\<close>.\<close>

definition concerns :: "cp_env \<Rightarrow> catalog \<Rightarrow> uuid \<times> string \<Rightarrow> index_op \<Rightarrow> bool" where
  "concerns e c k a \<longleftrightarrow> op_offers e a \<noteq> {} \<and> (\<exists>b. op_bucket a c = Some b \<and> k = (b_id b, op_path a))"

lemma via_keeps: "via e W F s s' \<Longrightarrow> concerns e (ix_db s) k a \<Longrightarrow> concerns e (ix_db s') k a"
  by (cases a) (auto simp: via_def session_run_def concerns_def keeps_buckets_def dest!: run_buckets)

lemma perform_all_via:
  assumes e: "sessions e W" and W: "(\<Union>a\<in>set ops. op_offers e a) \<subseteq> W" and r: "perform_all e ops s = (oks, s')"
  shows "\<exists>F. via e W F s s' \<and> F \<subseteq> W \<and> length oks = length ops
    \<and> (\<forall>i<length ops. oks ! i \<longrightarrow> concerns e (ix_db s) k (ops ! i) \<longrightarrow> (\<exists>ob. (k, ob) \<in> F \<inter> op_offers e (ops ! i)))"
  using W r
proof (induction ops arbitrary: s oks)
  case Nil
  then show ?case using via_refl by (intro exI[of _ "{}"]) auto
next
  case (Cons a ops)
  obtain ok s1 oks' where p: "perform e a s = (ok, s1)" "perform_all e ops s1 = (oks', s')" "oks = ok # oks'"
    using Cons.prems(2) by (auto split: prod.splits)
  have Wa: "op_offers e a \<subseteq> W" and Wr: "(\<Union>a\<in>set ops. op_offers e a) \<subseteq> W" using Cons.prems(1) by auto
  note v = perform_via[OF e Wa p(1)]
  obtain G where G: "via e W G s1 s'" "G \<subseteq> W" "length oks' = length ops"
    "\<forall>i<length ops. oks' ! i \<longrightarrow> concerns e (ix_db s1) k (ops ! i) \<longrightarrow> (\<exists>ob. (k, ob) \<in> G \<inter> op_offers e (ops ! i))"
    using Cons.IH[OF Wr p(2)] by blast
  obtain F where F: "via e W F s s1" "F \<subseteq> W" "ok \<and> concerns e (ix_db s) k a \<longrightarrow> (\<exists>ob. (k, ob) \<in> F \<inter> op_offers e a)"
  proof (cases "ok \<and> concerns e (ix_db s) k a")
    case True
    then have "offers_at e W k (op_offers e a) s s1" using v(2) by (auto simp: concerns_def)
    then obtain ob where "(k, ob) \<in> op_offers e a" "via e W {(k, ob)} s s1" unfolding offers_at_def by blast
    then show ?thesis using that[of "{(k, ob)}"] Wa by auto
  qed (use that[of "{}"] v(1) in auto)
  have later: "concerns e (ix_db s) k b \<Longrightarrow> concerns e (ix_db s1) k b" for b using via_keeps[OF v(1)] .
  have "\<exists>ob. (k, ob) \<in> (F \<union> G) \<inter> op_offers e ((a # ops) ! i)"
    if i: "i < length (a # ops)" "oks ! i" "concerns e (ix_db s) k ((a # ops) ! i)" for i
  proof (cases i)
    case 0
    then show ?thesis using i p(3) F(3) by auto
  next
    case (Suc j)
    then have "\<exists>ob. (k, ob) \<in> G \<inter> op_offers e (ops ! j)" using i p(3) G(4) later by simp
    then show ?thesis using Suc by auto
  qed
  then show ?case using via_trans[OF F(1) G(1)] F(2) G(2,3) p(3) by (intro exI[of _ "F \<union> G"]) auto
qed


lemma sessions_mono: "sessions e W \<Longrightarrow> W \<subseteq> W' \<Longrightarrow> sessions e W'"
  unfolding sessions_def by blast

text \<open>
  C3: the latest observation of an object wins.  Take any sequence of agent reports and storage events, through the
  plain or the suppression-aware sink, with any driver faults (a lost answer included) and any commits of other index
  sessions, whose offers are among \<open>W\<close>, between two statements.  If the object has a row at the start, then it has the
  same row at the end, and its time and status are those of a latest element of a set \<open>X\<close> of observations: the initial
  one, nothing but offers of these operations and sessions, and for every operation on the object that was reported
  as processed, its own observation.
\<close>

theorem index_latest_observation_wins:
  assumes "sessions e W" "perform_all e ops s = (oks, s')" "GetIndexedFileByKey k (ix_db s) = Some fe"
  shows "\<exists>fe' X. GetIndexedFileByKey k (ix_db s') = Some fe' \<and> fe_id fe' = fe_id fe
    \<and> latest (view fe') (insert (view fe) X)
    \<and> (\<forall>ob\<in>X. (k, ob) \<in> W \<union> (\<Union>a\<in>set ops. op_offers e a))
    \<and> (\<forall>i<length ops. oks ! i \<longrightarrow> concerns e (ix_db s) k (ops ! i) \<longrightarrow> (\<exists>ob\<in>X. (k, ob) \<in> op_offers e (ops ! i)))"
proof -
  let ?W = "W \<union> (\<Union>a\<in>set ops. op_offers e a)"
  have W: "sessions e ?W" "(\<Union>a\<in>set ops. op_offers e a) \<subseteq> ?W" using sessions_mono[OF assms(1)] by simp_all
  obtain F where F: "via e ?W F s s'" "F \<subseteq> ?W"
    "\<forall>i<length ops. oks ! i \<longrightarrow> concerns e (ix_db s) k (ops ! i) \<longrightarrow> (\<exists>ob. (k, ob) \<in> F \<inter> op_offers e (ops ! i))"
    using perform_all_via[OF W assms(2), of k] by (elim exE conjE) (rule that)
  obtain os where os: "index_run (cp_collate e) (ix_db s) os (ix_db s')" "F \<subseteq> set os" "set os \<subseteq> ?W \<union> F"
    using F(1) unfolding via_def session_run_def by (elim exE conjE) (rule that)
  have os': "set os \<subseteq> ?W" using os(3) Un_absorb2[OF F(2)] by simp
  obtain fe' where fe': "GetIndexedFileByKey k (ix_db s') = Some fe'" "fe_id fe' = fe_id fe"
    "latest (view fe') (insert (view fe) (offers_on k os))" using run_latest[OF os(1) assms(3)] by blast
  have "\<exists>ob\<in>offers_on k os. (k, ob) \<in> op_offers e (ops ! i)"
    if i: "i < length ops" "oks ! i" "concerns e (ix_db s) k (ops ! i)" for i
  proof -
    have "\<exists>ob. (k, ob) \<in> F \<inter> op_offers e (ops ! i)" using F(3) i by simp
    then obtain ob where "(k, ob) \<in> F" "(k, ob) \<in> op_offers e (ops ! i)" by auto
    then show ?thesis using os(2) by (intro bexI[of _ ob]) (auto simp: offers_on_def)
  qed
  moreover have "\<forall>ob\<in>offers_on k os. (k, ob) \<in> ?W" using os' by (auto simp: offers_on_def)
  ultimately show ?thesis using fe' by (intro exI[of _ fe'] exI[of _ "offers_on k os"]) blast
qed

section \<open>Samples\<close>

definition quiet_env :: cp_env where
  "quiet_env = \<lparr>cp_fault = (\<lambda>_. None), cp_now = (\<lambda>n. 1000 + int n), cp_meanwhile = (\<lambda>_ c. c), cp_collate = (\<lambda>a b. True),
     cp_time = \<lparr>LoadLocation = (\<lambda>_. True), ParseInLocation = (\<lambda>_ _ _. None), FormatIn = (\<lambda>_ _ _. '''')\<rparr>,
     cp_parse_uuid = (\<lambda>x. if x = ''7'' then Some 7 else if x = ''8'' then Some 8 else None),
     cp_unmarshal = (\<lambda>_. (\<lparr>rm_file_type = '''', rm_static_tags = [(''site'', ''north'')], rm_path_tag_map = [(''site'', ''{site}''), (''vendor'', ''{vendor}'')]\<rparr>, False)),
     cp_clock = 999, cp_nats = True, cp_publish = (\<lambda>_. True)\<rparr>"

definition sample_catalog :: catalog where
  "sample_catalog = \<lparr>buckets = [\<lparr>b_id = 2, b_org = DefaultOrgID, b_name = ''data''\<rparr>],
     collection_rules = [\<lparr>cr_id = 8, cr_org = DefaultOrgID, cr_agent = 7, cr_metadata = ''m'', cr_template = ''/{site}/{vendor}/x''\<rparr>],
     file_types = [], file_type_rules = [\<lparr>tr_file_type = 5, tr_pattern = ''*.csv'', tr_priority = 1\<rparr>],
     file_entries = [], file_tags = [],
     tag_keys = [\<lparr>tk_id = 3, tk_org = DefaultOrgID, tk_key = ''vendor'', tk_controlled = True, tk_allow_path_var = True\<rparr>],
     tag_values = [(3, ''ACME'')], pending_tag_values = [], upload_logs = [], event_cursors = [], event_marks = [], next_uuid = 100\<rparr>"

definition sample_indexer :: indexer where
  "sample_indexer = \<lparr>ix_db = sample_catalog, ix_stmt = 0, ix_suppressedWrites = 0, ix_absentDeletes = 0, ix_published = []\<rparr>"

definition sample_event :: "event_kind \<Rightarrow> int \<Rightarrow> storage_event" where
  "sample_event kind obs = \<lparr>ev_kind = kind, ev_bucket = ''data'', ev_key = ''north/acme/x'', ev_size = 4, ev_etag = ''e'',
     ev_observed_at = obs, ev_seq = '''', ev_source = ''minio_event''\<rparr>"

definition sample_result :: result_msg where
  "sample_result = \<lparr>rs_task_id = ''t'', rs_rule_id = ''8'', rs_local_path = ''/in/x'', rs_storage_path = ''north/acme/x'', rs_bucket = ''data'',
     rs_size = 9, rs_mtime = Some 5, rs_uploaded_at = None, rs_retry_count = 0, rs_success = True, rs_sha256 = ''aa'', rs_etag = ''f'', rs_error = ''''\<rparr>"

definition indexed_sample :: indexer where
  "indexed_sample = snd (perform quiet_env (PlainEvent (sample_event KindObjectCreated 10)) sample_indexer)"

lemma quiet_sessions: "sessions quiet_env {}"
  by (auto simp: sessions_def quiet_env_def intro!: exI[of _ "[]"] index_run.start)

text \<open>A removal observed at 30, a creation observed at 20 that arrives late, and a refused empty source.\<close>

definition sample_ops :: "index_op list" where
  "sample_ops = [AwareEvent (sample_event KindObjectRemoved 30), PlainEvent (sample_event KindObjectCreated 20),
     PlainEvent (sample_event KindObjectCreated 40\<lparr>ev_source := ''''\<rparr>)]"

theorem index_latest_observation_wins_witness:
  "fst (perform_all quiet_env sample_ops indexed_sample) = [True, True, False]
   \<and> map_option view (GetIndexedFileByKey (2, ''north/acme/x'') (ix_db (snd (perform_all quiet_env sample_ops indexed_sample)))) = Some (30, FileStatusDeleted)
   \<and> (\<exists>fe'. GetIndexedFileByKey (2, ''north/acme/x'') (ix_db (snd (perform_all quiet_env sample_ops indexed_sample))) = Some fe' \<and> fe_id fe' = 100)"
proof -
  have "map_option fe_id (GetIndexedFileByKey (2, ''north/acme/x'') (ix_db indexed_sample)) = Some 100" by code_simp
  then obtain fe where fe: "GetIndexedFileByKey (2, ''north/acme/x'') (ix_db indexed_sample) = Some fe" "fe_id fe = 100" by auto
  have "fst (perform_all quiet_env sample_ops indexed_sample) = [True, True, False]" by code_simp
  moreover have "map_option view (GetIndexedFileByKey (2, ''north/acme/x'') (ix_db (snd (perform_all quiet_env sample_ops indexed_sample)))) = Some (30, FileStatusDeleted)"
    by code_simp
  ultimately show ?thesis
    using index_latest_observation_wins[OF quiet_sessions surjective_pairing fe(1), of sample_ops] fe(2) by auto
qed

end
