(* ===== verification/Index_Tags.thy ===== *)
theory Index_Tags
  imports Index_Laws
begin

text \<open>
  What one report does to the catalog when no other session interferes, driver faults still allowed: the row,
  the log and the event of an applied report, nothing for a suppressed one; which tags and review-queue entries a
  path template may produce; and that a report processed again adds neither.
\<close>

section \<open>Frames\<close>

definition alone :: "cp_env \<Rightarrow> bool" where
  "alone e \<longleftrightarrow> (\<forall>k c. cp_meanwhile e k c = c)"

text \<open>A statement fails without effect, or takes effect and its answer may be lost.\<close>

lemma sql_alone:
  assumes "alone e" "sql e st s = (r, s')"
  obtains (refused) msg where "r = Inl (DriverError msg)" "s' = s\<lparr>ix_stmt := Suc (ix_stmt s)\<rparr>"
  | (lost) msg where "r = Inl (DriverError msg)" "cp_fault e (ix_stmt s) = Some (AnswerLost msg)"
      "s' = s\<lparr>ix_db := snd (st (cp_now e (ix_stmt s)) (ix_db s)), ix_stmt := Suc (ix_stmt s)\<rparr>"
  | (answered) "r = (case fst (st (cp_now e (ix_stmt s)) (ix_db s)) of None \<Rightarrow> Inl ErrNoRows | Some x \<Rightarrow> Inr x)"
      "s' = s\<lparr>ix_db := snd (st (cp_now e (ix_stmt s)) (ix_db s)), ix_stmt := Suc (ix_stmt s)\<rparr>"
proof -
  have "cp_meanwhile e (ix_stmt s) (ix_db s) = ix_db s" using assms(1) by (simp add: alone_def)
  then show ?thesis using assms(2) refused lost answered
    by (auto simp: sql_def Let_def split: prod.splits option.splits db_fault.splits)
qed

lemma query_alone:
  assumes "alone e" "sql e (query q) s = (r, s')"
  shows "s' = s\<lparr>ix_stmt := Suc (ix_stmt s)\<rparr>"
    "(\<exists>msg. r = Inl (DriverError msg) \<and> cp_fault e (ix_stmt s) \<noteq> None) \<or> r = (case q (ix_db s) of None \<Rightarrow> Inl ErrNoRows | Some x \<Rightarrow> Inr x)"
proof -
  have "cp_meanwhile e (ix_stmt s) (ix_db s) = ix_db s" using assms(1) by (simp add: alone_def)
  then show "s' = s\<lparr>ix_stmt := Suc (ix_stmt s)\<rparr>"
    "(\<exists>msg. r = Inl (DriverError msg) \<and> cp_fault e (ix_stmt s) \<noteq> None) \<or> r = (case q (ix_db s) of None \<Rightarrow> Inl ErrNoRows | Some x \<Rightarrow> Inr x)"
    using assms(2) by (auto simp: sql_def query_def Let_def split: option.splits db_fault.splits)
qed

text \<open>\<open>tag_frame s s'\<close>: at most the tags, the review queue and the statement counter differ.\<close>

definition tag_frame :: "indexer \<Rightarrow> indexer \<Rightarrow> bool" where
  "tag_frame s s' \<longleftrightarrow>
     (\<exists>ft pv n. s' = s\<lparr>ix_db := (ix_db s)\<lparr>file_tags := ft, pending_tag_values := pv\<rparr>, ix_stmt := n\<rparr>)"

lemma tag_frame_trans:
  assumes "tag_frame s s1" "tag_frame s1 s2"
  shows "tag_frame s s2"
proof -
  obtain ft pv n where "s2 = s\<lparr>ix_db := (ix_db s)\<lparr>file_tags := ft, pending_tag_values := pv\<rparr>, ix_stmt := n\<rparr>"
    using assms by (auto simp: tag_frame_def)
  then show ?thesis unfolding tag_frame_def by blast
qed

lemma tag_frameI: "ix_db s' = (ix_db s)\<lparr>file_tags := ft, pending_tag_values := pv\<rparr> \<Longrightarrow> s' = s\<lparr>ix_db := ix_db s', ix_stmt := n\<rparr> \<Longrightarrow> tag_frame s s'"
  unfolding tag_frame_def by metis

lemma tag_frame_stmt: "tag_frame s (s\<lparr>ix_stmt := n\<rparr>)"
  by (rule tag_frameI[where ft = "file_tags (ix_db s)" and pv = "pending_tag_values (ix_db s)" and n = n]) simp_all

lemma tag_frame_tags: "tag_frame s (s\<lparr>ix_db := (ix_db s)\<lparr>file_tags := ft\<rparr>, ix_stmt := n\<rparr>)"
  by (rule tag_frameI[where ft = ft and pv = "pending_tag_values (ix_db s)" and n = n]) simp_all

lemma tag_frame_refl: "tag_frame s s"
  using tag_frame_stmt[of s "ix_stmt s"] by simp

lemma tag_frameD:
  assumes "tag_frame s s'"
  shows "file_entries (ix_db s') = file_entries (ix_db s)" "upload_logs (ix_db s') = upload_logs (ix_db s)"
    "buckets (ix_db s') = buckets (ix_db s)" "tag_keys (ix_db s') = tag_keys (ix_db s)" "tag_values (ix_db s') = tag_values (ix_db s)"
    "ix_published s' = ix_published s" "ix_suppressedWrites s' = ix_suppressedWrites s" "ix_absentDeletes s' = ix_absentDeletes s"
  using assms by (auto simp: tag_frame_def)

section \<open>Path-variable tags\<close>

text \<open>The value a path gives a key, when the entry \<open>(key, ref)\<close> of \<^verbatim>\<open>path_tag_map\<close> may set it.\<close>

definition path_value :: "catalog \<Rightarrow> uuid \<Rightarrow> fields \<Rightarrow> string \<times> string \<Rightarrow> string option" where
  "path_value c org vals kr =
     (let (key, ref) = kr
      in case vals (templateVarName ref) of
           None \<Rightarrow> None
         | Some val \<Rightarrow>
             if key \<noteq> '''' \<and> templateVarName ref \<noteq> '''' \<and> v_Raw val \<noteq> '''' \<and> tagWithinLimits key (v_Raw val)
                \<and> (case GetTagKeyByName org key c of None \<Rightarrow> True | Some k \<Rightarrow> tk_allow_path_var k)
             then Some (v_Raw val) else None)"

text \<open>A value waits for review when its key is controlled and it is not registered.\<close>

definition unregistered :: "catalog \<Rightarrow> uuid \<Rightarrow> string \<Rightarrow> string \<Rightarrow> tag_key_row \<Rightarrow> bool" where
  "unregistered c org key value k \<longleftrightarrow> GetTagKeyByName org key c = Some k \<and> tk_controlled k \<and> \<not> TagValueExists (tk_id k) value c"

definition same_vocabulary :: "catalog \<Rightarrow> catalog \<Rightarrow> bool" where
  "same_vocabulary c c' \<longleftrightarrow> tag_keys c' = tag_keys c \<and> tag_values c' = tag_values c"

lemma vocabulary_cong:
  assumes "same_vocabulary c c'"
  shows "GetTagKeyByName org key c' = GetTagKeyByName org key c" "TagValueExists k v c' = TagValueExists k v c"
    "path_value c' org vals kr = path_value c org vals kr" "unregistered c' org key v row = unregistered c org key v row"
proof -
  show *: "GetTagKeyByName org key c' = GetTagKeyByName org key c" "TagValueExists k v c' = TagValueExists k v c" for org key k v
    using assms by (simp_all add: same_vocabulary_def GetTagKeyByName_def TagValueExists_def)
  show "path_value c' org vals kr = path_value c org vals kr" "unregistered c' org key v row = unregistered c org key v row"
    by (cases kr; cases "vals (templateVarName (snd kr))"; simp add: path_value_def *) (simp add: unregistered_def *)
qed

definition fresh_tag :: "uuid \<Rightarrow> uuid \<Rightarrow> fields \<Rightarrow> (string \<times> string) list \<Rightarrow> catalog \<Rightarrow> file_tag \<Rightarrow> bool" where
  "fresh_tag org entry vals m c t \<longleftrightarrow>
     tag_entry t = entry \<and> tag_source t = ''path_var''
     \<and> (\<exists>ref. (tag_key t, ref) \<in> set m \<and> path_value c org vals (tag_key t, ref) = Some (tag_value t))
     \<and> file_tag_key t \<notin> file_tag_key ` set (file_tags c)"

definition review_of :: "uuid \<Rightarrow> catalog \<Rightarrow> file_tag set \<Rightarrow> pending_value \<Rightarrow> bool" where
  "review_of org c new v \<longleftrightarrow> (\<exists>t\<in>new. \<exists>k. unregistered c org (tag_key t) (tag_value t) k \<and> pending_key v = (tk_id k, tag_value t))"

text \<open>
  \<open>path_tagged\<close>: the tags of \<open>c\<close> stay as they are and in their places; new ones come from the map; the review queue gains
  or counts only unregistered values of new tags.
\<close>

definition path_tagged :: "uuid \<Rightarrow> uuid \<Rightarrow> fields \<Rightarrow> (string \<times> string) list \<Rightarrow> catalog \<Rightarrow> catalog \<Rightarrow> bool" where
  "path_tagged org entry vals m c c' \<longleftrightarrow>
     same_vocabulary c c'
     \<and> (\<exists>new. file_tags c' = file_tags c @ new \<and> (\<forall>t\<in>set new. fresh_tag org entry vals m c t)
          \<and> (\<forall>v\<in>set (pending_tag_values c') - set (pending_tag_values c). review_of org c (set new) v)
          \<and> (new = [] \<longrightarrow> pending_tag_values c' = pending_tag_values c))"

lemma path_tagged_refl: "path_tagged org entry vals m c c"
  by (simp add: path_tagged_def same_vocabulary_def)

lemma path_tagged_cong:
  "path_tagged org entry vals m c c' \<Longrightarrow> file_tags c'' = file_tags c' \<Longrightarrow> pending_tag_values c'' = pending_tag_values c'
    \<Longrightarrow> same_vocabulary c' c'' \<Longrightarrow> path_tagged org entry vals m c c''"
  by (simp add: path_tagged_def same_vocabulary_def)

lemma path_tagged_trans:
  assumes 1: "path_tagged org entry vals m c c1" and 2: "path_tagged org entry vals m c1 c2"
  shows "path_tagged org entry vals m c c2"
proof -
  have voc: "same_vocabulary c c1" "same_vocabulary c c2" using 1 2 by (auto simp: path_tagged_def same_vocabulary_def)
  obtain n1 where n1: "file_tags c1 = file_tags c @ n1" "\<forall>t\<in>set n1. fresh_tag org entry vals m c t"
    "\<forall>v\<in>set (pending_tag_values c1) - set (pending_tag_values c). review_of org c (set n1) v"
    "n1 = [] \<longrightarrow> pending_tag_values c1 = pending_tag_values c"
    using 1 unfolding path_tagged_def by blast
  obtain n2 where n2: "file_tags c2 = file_tags c1 @ n2" "\<forall>t\<in>set n2. fresh_tag org entry vals m c1 t"
    "\<forall>v\<in>set (pending_tag_values c2) - set (pending_tag_values c1). review_of org c1 (set n2) v"
    "n2 = [] \<longrightarrow> pending_tag_values c2 = pending_tag_values c1"
    using 2 unfolding path_tagged_def by blast
  have fresh: "fresh_tag org entry vals m c t" if "fresh_tag org entry vals m c1 t" for t
    using that by (auto simp: fresh_tag_def vocabulary_cong[OF voc(1)] n1(1))
  have rev: "review_of org c1 N v \<Longrightarrow> review_of org c N v" "review_of org c N v \<Longrightarrow> N \<subseteq> N' \<Longrightarrow> review_of org c N' v" for N N' v
    by (auto simp: review_of_def vocabulary_cong[OF voc(1)])
  have "\<forall>v\<in>set (pending_tag_values c2) - set (pending_tag_values c). review_of org c (set (n1 @ n2)) v"
    using n1(3) n2(3) rev by (metis DiffD1 DiffD2 DiffI Un_upper1 Un_upper2 set_append)
  then show ?thesis
    unfolding path_tagged_def using n1 n2 fresh voc(2) by (intro conjI exI[of _ "n1 @ n2"]) auto
qed


lemma set_upsert: "r \<in> set (upsert key f new t) \<Longrightarrow> r \<in> set t \<or> key r = key new \<or> (\<exists>x\<in>set t. key x = key new \<and> r = f x new)"
  by (auto simp: upsert_def update_where_def split: if_splits)

lemma pending_frame:
  assumes "alone e"
  shows "tag_frame s (queuePendingIfUnregistered e org info w rule s)"
    and "file_tags (ix_db (queuePendingIfUnregistered e org info w rule s)) = file_tags (ix_db s)"
    and "v \<in> set (pending_tag_values (ix_db (queuePendingIfUnregistered e org info w rule s))) - set (pending_tag_values (ix_db s))
      \<Longrightarrow> pending_key v = (tk_id info, w) \<and> \<not> TagValueExists (tk_id info) w (ix_db s)"
proof -
  obtain r1 s1 where 1: "sql e (query (Some \<circ> TagValueExists (tk_id info) w)) s = (r1, s1)" by fastforce
  obtain r2 s2 where 2: "sql e (query (Some \<circ> FindSimilarTagValue (tk_id info) w)) s1 = (r2, s2)" by fastforce
  note s1 = query_alone[OF assms 1] and s2 = query_alone[OF assms 2]
  let ?v = "\<lambda>sg. \<lparr>pv_org = org, pv_tag_key = tk_id info, pv_value = w, pv_source = ''path_var'', pv_rule = rule,
    pv_suggested = (if sg = '''' then None else Some sg), pv_hits = 1\<rparr>"
  have "queuePendingIfUnregistered e org info w rule s = s1
    \<or> \<not> TagValueExists (tk_id info) w (ix_db s) \<and> (\<exists>sg. queuePendingIfUnregistered e org info w rule s = snd (sql e (UpsertPendingTagValue (?v sg)) s2))"
    using 1 2 s1(2) by (auto simp: queuePendingIfUnregistered_def Let_def split: sum.splits)
  then consider (same) "queuePendingIfUnregistered e org info w rule s = s1"
    | (put) sg s3 r3 where "\<not> TagValueExists (tk_id info) w (ix_db s)" "sql e (UpsertPendingTagValue (?v sg)) s2 = (r3, s3)"
        "queuePendingIfUnregistered e org info w rule s = s3"
    by (metis prod.collapse)
  then have "tag_frame s (queuePendingIfUnregistered e org info w rule s)
    \<and> file_tags (ix_db (queuePendingIfUnregistered e org info w rule s)) = file_tags (ix_db s)
    \<and> (v \<in> set (pending_tag_values (ix_db (queuePendingIfUnregistered e org info w rule s))) - set (pending_tag_values (ix_db s))
      \<longrightarrow> pending_key v = (tk_id info, w) \<and> \<not> TagValueExists (tk_id info) w (ix_db s))"
  proof cases
    case same
    then show ?thesis using s1(1) tag_frame_stmt by simp
  next
    case put
    let ?pv = "upsert pending_key (\<lambda>old new. old\<lparr>pv_hits := pv_hits old + 1\<rparr>) (?v sg) (pending_tag_values (ix_db s))"
    have "\<exists>n. s3 = s\<lparr>ix_stmt := n\<rparr> \<or> s3 = s\<lparr>ix_db := (ix_db s)\<lparr>pending_tag_values := ?pv\<rparr>, ix_stmt := n\<rparr>"
      using s1(1) s2(1) by (rule_tac sql_alone[OF assms put(2)]) (auto simp: UpsertPendingTagValue_def)
    then obtain n where n: "s3 = s\<lparr>ix_stmt := n\<rparr> \<or> s3 = s\<lparr>ix_db := (ix_db s)\<lparr>pending_tag_values := ?pv\<rparr>, ix_stmt := n\<rparr>" ..
    have "tag_frame s (s\<lparr>ix_db := (ix_db s)\<lparr>pending_tag_values := ?pv\<rparr>, ix_stmt := n\<rparr>)"
      by (rule tag_frameI[where ft = "file_tags (ix_db s)" and pv = ?pv and n = n]) simp_all
    moreover have "pending_key v = (tk_id info, w)" if "v \<in> set ?pv - set (pending_tag_values (ix_db s))"
      using that set_upsert[of v pending_key] by (fastforce simp: pending_key_def)
    ultimately show ?thesis using n put tag_frame_stmt by auto
  qed
  then show "tag_frame s (queuePendingIfUnregistered e org info w rule s)"
    "file_tags (ix_db (queuePendingIfUnregistered e org info w rule s)) = file_tags (ix_db s)"
    "v \<in> set (pending_tag_values (ix_db (queuePendingIfUnregistered e org info w rule s))) - set (pending_tag_values (ix_db s))
      \<Longrightarrow> pending_key v = (tk_id info, w) \<and> \<not> TagValueExists (tk_id info) w (ix_db s)" by auto
qed


lemma path_var_tag_cases:
  assumes "alone e"
  obtains (skip) n where "path_var_tag e org entry vals rule (key, ref) s = s\<lparr>ix_stmt := n\<rparr>"
      "path_value (ix_db s) org vals (key, ref) = None \<or> (\<exists>k. cp_fault e k \<noteq> None)"
  | (tag) w r1 s1 s2 where "path_value (ix_db s) org vals (key, ref) = Some w" "s1 = s\<lparr>ix_stmt := Suc (ix_stmt s)\<rparr>"
      "sql e (InsertFileTagIfAbsent \<lparr>tag_entry = entry, tag_key = key, tag_value = w, tag_source = ''path_var''\<rparr>) s1 = (r1, s2)"
      "path_var_tag e org entry vals rule (key, ref) s =
         (case (GetTagKeyByName org key (ix_db s), r1) of
            (Some k, Inr True) \<Rightarrow> if tk_controlled k then queuePendingIfUnregistered e org k w rule s2 else s2
          | _ \<Rightarrow> s2)"
proof (cases "key = '''' \<or> templateVarName ref = '''' \<or> vals (templateVarName ref) = None")
  case True
  then have "path_var_tag e org entry vals rule (key, ref) s = s\<lparr>ix_stmt := ix_stmt s\<rparr>" "path_value (ix_db s) org vals (key, ref) = None"
    by (auto simp: path_var_tag_def path_value_def Let_def split: option.splits)
  then show ?thesis using skip by blast
next
  case False
  then obtain val where val: "vals (templateVarName ref) = Some val" by auto
  obtain r0 s1 where 1: "sql e (query (Some \<circ> GetTagKeyByName org key)) s = (r0, s1)" by fastforce
  note q = query_alone[OF assms 1]
  show ?thesis
  proof (cases "v_Raw val = '''' \<or> \<not> tagWithinLimits key (v_Raw val)")
    case True
    then have "path_var_tag e org entry vals rule (key, ref) s = s\<lparr>ix_stmt := ix_stmt s\<rparr>" "path_value (ix_db s) org vals (key, ref) = None"
      using val by (auto simp: path_var_tag_def path_value_def Let_def)
    then show ?thesis using skip by blast
  next
    case lim: False
    show ?thesis
    proof (cases "\<exists>err. r0 = Inl err")
      case True
      then have "path_var_tag e org entry vals rule (key, ref) s = s1" "\<exists>k. cp_fault e k \<noteq> None"
        using False lim val 1 q(2) by (auto simp: path_var_tag_def Let_def)
      then show ?thesis using skip q(1) by simp
    next
      case ok: False
      then have r0: "r0 = Inr (GetTagKeyByName org key (ix_db s))" using q(2) by auto
      show ?thesis
      proof (cases "path_value (ix_db s) org vals (key, ref)")
        case None
        then have "path_var_tag e org entry vals rule (key, ref) s = s1"
          using False lim val 1 r0 by (auto simp: path_var_tag_def path_value_def Let_def split: option.splits if_splits)
        then show ?thesis using skip q(1) None by simp
      next
        case (Some w)
        then have v: "w = v_Raw val" "case GetTagKeyByName org key (ix_db s) of None \<Rightarrow> True | Some k \<Rightarrow> tk_allow_path_var k"
          using val by (auto simp: path_value_def split: if_splits option.splits)
        obtain r1 s2 where 2: "sql e (InsertFileTagIfAbsent \<lparr>tag_entry = entry, tag_key = key, tag_value = w, tag_source = ''path_var''\<rparr>) s1 = (r1, s2)"
          by fastforce
        have "path_var_tag e org entry vals rule (key, ref) s =
         (case (GetTagKeyByName org key (ix_db s), r1) of
            (Some k, Inr True) \<Rightarrow> if tk_controlled k then queuePendingIfUnregistered e org k w rule s2 else s2
          | _ \<Rightarrow> s2)"
          using False lim val 1 r0 v 2 by (auto simp: path_var_tag_def Let_def split: option.splits sum.splits bool.splits)
        then show ?thesis using tag[OF Some q(1) 2] by blast
      qed
    qed
  qed
qed


lemma path_tagged_mono: "path_tagged org entry vals m c c' \<Longrightarrow> set m \<subseteq> set m' \<Longrightarrow> path_tagged org entry vals m' c c'"
  unfolding path_tagged_def fresh_tag_def by (blast dest: subsetD)

text \<open>The insertion of one tag, whatever its answer.\<close>

lemma insert_effect:
  assumes "alone e" "sql e (InsertFileTagIfAbsent t) s = (r, s')"
  shows "(s' = s\<lparr>ix_stmt := Suc (ix_stmt s)\<rparr> \<and> isl r)
    \<or> s' = s\<lparr>ix_db := (ix_db s)\<lparr>file_tags := insert_ignore file_tag_key t (file_tags (ix_db s))\<rparr>, ix_stmt := Suc (ix_stmt s)\<rparr>"
    and "r = Inr True \<Longrightarrow> file_tag_key t \<notin> file_tag_key ` set (file_tags (ix_db s))"
    and "cp_fault e (ix_stmt s) = None \<Longrightarrow> file_tag_key t \<in> file_tag_key ` set (file_tags (ix_db s'))"
proof -
  have "cp_meanwhile e (ix_stmt s) (ix_db s) = ix_db s" using assms(1) by (simp add: alone_def)
  note q = assms(2)[unfolded sql_def InsertFileTagIfAbsent_def Let_def this, simplified]
  show "(s' = s\<lparr>ix_stmt := Suc (ix_stmt s)\<rparr> \<and> isl r)
    \<or> s' = s\<lparr>ix_db := (ix_db s)\<lparr>file_tags := insert_ignore file_tag_key t (file_tags (ix_db s))\<rparr>, ix_stmt := Suc (ix_stmt s)\<rparr>"
    using q by (auto split: option.splits db_fault.splits)
  show "r = Inr True \<Longrightarrow> file_tag_key t \<notin> file_tag_key ` set (file_tags (ix_db s))"
    using q by (auto simp: exists_where_iff split: option.splits db_fault.splits)
  show "cp_fault e (ix_stmt s) = None \<Longrightarrow> file_tag_key t \<in> file_tag_key ` set (file_tags (ix_db s'))"
    using q by (auto simp: insert_ignore_def exists_where_iff split: if_splits) (metis imageI)
qed

lemma path_var_tag_effect:
  assumes "alone e"
  shows "tag_frame s (path_var_tag e org entry vals rule kr s)"
    and "path_tagged org entry vals [kr] (ix_db s) (ix_db (path_var_tag e org entry vals rule kr s))"
    and "(\<And>k. cp_fault e k = None) \<Longrightarrow> path_value (ix_db s) org vals kr \<noteq> None
      \<Longrightarrow> (entry, fst kr) \<in> file_tag_key ` set (file_tags (ix_db (path_var_tag e org entry vals rule kr s)))"
proof -
  obtain key ref where kr: "kr = (key, ref)" by (cases kr)
  let ?s' = "path_var_tag e org entry vals rule kr s"
  have "tag_frame s ?s' \<and> path_tagged org entry vals [kr] (ix_db s) (ix_db ?s')
    \<and> ((\<forall>k. cp_fault e k = None) \<longrightarrow> path_value (ix_db s) org vals kr \<noteq> None \<longrightarrow> (entry, fst kr) \<in> file_tag_key ` set (file_tags (ix_db ?s')))"
  proof (rule path_var_tag_cases[OF assms, of org entry vals rule key ref s])
    fix n
    assume "path_var_tag e org entry vals rule (key, ref) s = s\<lparr>ix_stmt := n\<rparr>"
      "path_value (ix_db s) org vals (key, ref) = None \<or> (\<exists>k. cp_fault e k \<noteq> None)"
    then show ?thesis using kr tag_frame_stmt path_tagged_refl by auto
  next
    fix w r1 s1 s2
    let ?t = "\<lparr>tag_entry = entry, tag_key = key, tag_value = w, tag_source = ''path_var''\<rparr>"
    assume w: "path_value (ix_db s) org vals (key, ref) = Some w" and s1: "s1 = s\<lparr>ix_stmt := Suc (ix_stmt s)\<rparr>"
      and 2: "sql e (InsertFileTagIfAbsent ?t) s1 = (r1, s2)"
      and res: "path_var_tag e org entry vals rule (key, ref) s =
         (case (GetTagKeyByName org key (ix_db s), r1) of
            (Some k, Inr True) \<Rightarrow> if tk_controlled k then queuePendingIfUnregistered e org k w rule s2 else s2
          | _ \<Rightarrow> s2)"
    note ins = insert_effect[OF assms 2]
    have db2: "ix_db s2 = ix_db s \<or> ix_db s2 = (ix_db s)\<lparr>file_tags := insert_ignore file_tag_key ?t (file_tags (ix_db s))\<rparr>"
      using ins(1) s1 by auto
    have f2: "tag_frame s s2" using ins(1) s1 tag_frame_stmt tag_frame_tags by auto
    have fresh: "fresh_tag org entry vals [kr] (ix_db s) ?t" if "file_tag_key ?t \<notin> file_tag_key ` set (file_tags (ix_db s))"
      using that w by (auto simp: fresh_tag_def kr)
    have pt: "path_tagged org entry vals [kr] (ix_db s) (ix_db s2)"
    proof (cases "file_tags (ix_db s2) = file_tags (ix_db s)")
      case True
      then show ?thesis using db2 by (auto simp: path_tagged_def same_vocabulary_def)
    next
      case False
      then have "file_tags (ix_db s2) = file_tags (ix_db s) @ [?t]" "file_tag_key ?t \<notin> file_tag_key ` set (file_tags (ix_db s))"
        using db2 by (auto simp: insert_ignore_def exists_where_iff image_iff split: if_splits)
      then show ?thesis using db2 fresh unfolding path_tagged_def same_vocabulary_def by (intro conjI exI[of _ "[?t]"]) auto
    qed
    have present: "(entry, key) \<in> file_tag_key ` set (file_tags (ix_db s2))" if "\<forall>k. cp_fault e k = None"
      using ins(3) that by (simp add: file_tag_key_def)
    consider (plain) "?s' = s2"
      | (queue) k where "GetTagKeyByName org key (ix_db s) = Some k" "r1 = Inr True" "tk_controlled k"
          "?s' = queuePendingIfUnregistered e org k w rule s2"
      using res kr by (auto split: option.splits sum.splits bool.splits if_splits)
    then show ?thesis
    proof cases
      case plain
      then show ?thesis using f2 pt present kr by simp
    next
      case (queue k)
      note pf = pending_frame[OF assms, where s = s2 and org = org and info = k and w = w and rule = rule]
      have new: "file_tag_key ?t \<notin> file_tag_key ` set (file_tags (ix_db s))" using ins(2)[OF queue(2)] s1 by simp
      have "ix_db s2 = (ix_db s)\<lparr>file_tags := file_tags (ix_db s) @ [?t]\<rparr>"
        using ins(1) queue(2) s1 new by (auto simp: insert_ignore_def exists_where_iff image_iff)
      moreover have "same_vocabulary (ix_db s2) (ix_db ?s')" using tag_frameD[OF pf(1)] queue(4) by (simp add: same_vocabulary_def)
      moreover have "review_of org (ix_db s) {?t} v"
        if "v \<in> set (pending_tag_values (ix_db ?s')) - set (pending_tag_values (ix_db s2))" for v
        using pf(3)[where v = v] that queue calculation(1)
        by (auto simp: review_of_def unregistered_def TagValueExists_def)
      ultimately have "path_tagged org entry vals [kr] (ix_db s) (ix_db ?s')"
        using pf(2) queue(4) fresh[OF new] unfolding path_tagged_def same_vocabulary_def by (intro conjI exI[of _ "[?t]"]) auto
      then show ?thesis using tag_frame_trans[OF f2 pf(1)] queue(4) present pf(2) kr by simp
    qed
  qed
  then show "tag_frame s ?s'" "path_tagged org entry vals [kr] (ix_db s) (ix_db ?s')"
    "(\<And>k. cp_fault e k = None) \<Longrightarrow> path_value (ix_db s) org vals kr \<noteq> None \<Longrightarrow> (entry, fst kr) \<in> file_tag_key ` set (file_tags (ix_db ?s'))"
    by auto
qed


lemma path_fold_effect:
  assumes "alone e"
  shows "tag_frame s (fold (path_var_tag e org entry vals rule) m s)"
    and "path_tagged org entry vals m (ix_db s) (ix_db (fold (path_var_tag e org entry vals rule) m s))"
    and "(\<And>k. cp_fault e k = None) \<Longrightarrow> kr \<in> set m \<Longrightarrow> path_value (ix_db s) org vals kr \<noteq> None
      \<Longrightarrow> (entry, fst kr) \<in> file_tag_key ` set (file_tags (ix_db (fold (path_var_tag e org entry vals rule) m s)))"
proof -
  let ?f = "path_var_tag e org entry vals rule"
  have "tag_frame s (fold ?f m s) \<and> path_tagged org entry vals m (ix_db s) (ix_db (fold ?f m s))
    \<and> ((\<forall>k. cp_fault e k = None) \<longrightarrow> (\<forall>kr\<in>set m. path_value (ix_db s) org vals kr \<noteq> None
         \<longrightarrow> (entry, fst kr) \<in> file_tag_key ` set (file_tags (ix_db (fold ?f m s)))))"
  proof (induction m arbitrary: s)
    case Nil
    then show ?case using tag_frame_refl path_tagged_refl by simp
  next
    case (Cons kr m)
    let ?s1 = "?f kr s" and ?s2 = "fold ?f m (?f kr s)"
    note head = path_var_tag_effect[OF assms, where s = s and org = org and entry = entry and vals = vals and rule = rule and kr = kr]
    have rest: "tag_frame ?s1 ?s2" "path_tagged org entry vals m (ix_db ?s1) (ix_db ?s2)"
      "(\<forall>k. cp_fault e k = None) \<longrightarrow> (\<forall>kr\<in>set m. path_value (ix_db ?s1) org vals kr \<noteq> None
         \<longrightarrow> (entry, fst kr) \<in> file_tag_key ` set (file_tags (ix_db ?s2)))" using Cons.IH[of ?s1] by auto
    have voc: "same_vocabulary (ix_db s) (ix_db ?s1)" using head(2) by (simp add: path_tagged_def)
    have "file_tag_key ` set (file_tags (ix_db ?s1)) \<subseteq> file_tag_key ` set (file_tags (ix_db ?s2))"
      using rest(2) by (auto simp: path_tagged_def)
    moreover have "path_tagged org entry vals (kr # m) (ix_db s) (ix_db ?s2)"
      using path_tagged_trans[OF path_tagged_mono[OF head(2)] path_tagged_mono[OF rest(2)], of "kr # m"] by auto
    ultimately show ?case
      using tag_frame_trans[OF head(1) rest(1)] head(3) rest(3) vocabulary_cong(3)[OF voc] by auto
  qed
  then show "tag_frame s (fold ?f m s)" "path_tagged org entry vals m (ix_db s) (ix_db (fold ?f m s))"
    "(\<And>k. cp_fault e k = None) \<Longrightarrow> kr \<in> set m \<Longrightarrow> path_value (ix_db s) org vals kr \<noteq> None
      \<Longrightarrow> (entry, fst kr) \<in> file_tag_key ` set (file_tags (ix_db (fold ?f m s)))" by auto
qed

text \<open>The variables a template finds in an object key; none when the tags are not even attempted.\<close>

definition path_variables :: "time_lib \<Rightarrow> string \<Rightarrow> string \<Rightarrow> fields" where
  "path_variables lib template path =
     (if template = '''' then Map.empty
      else case New_parser lib (NormalizeTemplate template) of
             Inl err \<Rightarrow> Map.empty
           | Inr parser \<Rightarrow> (case Parse lib parser (NormalizeObjectKey path) of Inl err \<Rightarrow> Map.empty | Inr vals \<Rightarrow> vals))"

lemma path_var_tag_empty [simp]: "path_var_tag e org entry Map.empty rule kr s = s"
  by (cases kr) (simp add: path_var_tag_def)

lemma applyPathVarTags_fold:
  "applyPathVarTags e org entry path template m rule s
     = fold (path_var_tag e org entry (path_variables (cp_time e) template path) rule) m s"
proof -
  have "fold (path_var_tag e org entry Map.empty rule) m s = s" for s by (induction m) auto
  then show ?thesis by (auto simp: applyPathVarTags_def path_variables_def split: sum.splits)
qed

lemmas path_tags_effect = path_fold_effect[where vals = "path_variables (cp_time e) template path" and e = e for e template path,
  folded applyPathVarTags_fold]

lemma path_tagged_noop:
  assumes "path_tagged org entry vals m c c'"
    "\<And>kr. kr \<in> set m \<Longrightarrow> path_value c org vals kr \<noteq> None \<Longrightarrow> (entry, fst kr) \<in> file_tag_key ` set (file_tags c)"
  shows "file_tags c' = file_tags c" "pending_tag_values c' = pending_tag_values c"
proof -
  obtain new where new: "file_tags c' = file_tags c @ new" "\<forall>t\<in>set new. fresh_tag org entry vals m c t"
    "new = [] \<longrightarrow> pending_tag_values c' = pending_tag_values c"
    using assms(1) unfolding path_tagged_def by blast
  have "\<not> fresh_tag org entry vals m c t" for t using assms(2) by (force simp: fresh_tag_def file_tag_key_def)
  then have "new = []" using new(2) by (cases new) auto
  then show "file_tags c' = file_tags c" "pending_tag_values c' = pending_tag_values c" using new by auto
qed

section \<open>Static tags\<close>

definition static_tag :: "uuid \<Rightarrow> string \<times> string \<Rightarrow> file_tag" where
  "static_tag entry kv = \<lparr>tag_entry = entry, tag_key = fst kv, tag_value = snd kv, tag_source = ''rule_static''\<rparr>"

definition declarable :: "string \<times> string \<Rightarrow> bool" where
  "declarable kv \<longleftrightarrow> fst kv \<noteq> '''' \<and> snd kv \<noteq> '''' \<and> tagWithinLimits (fst kv) (snd kv)"

text \<open>The key has the static tag and no other.\<close>

definition has_static :: "uuid \<Rightarrow> catalog \<Rightarrow> string \<times> string \<Rightarrow> bool" where
  "has_static entry c kv \<longleftrightarrow> static_tag entry kv \<in> set (file_tags c)
     \<and> (\<forall>t\<in>set (file_tags c). file_tag_key t = (entry, fst kv) \<longrightarrow> t = static_tag entry kv)"

lemma UpsertFileTag_static:
  "snd (UpsertFileTag (static_tag entry kv) now c) = c\<lparr>file_tags :=
     (if \<exists>t\<in>set (file_tags c). file_tag_key t = (entry, fst kv)
      then map (\<lambda>t. if file_tag_key t = (entry, fst kv) then static_tag entry kv else t) (file_tags c)
      else file_tags c @ [static_tag entry kv])\<rparr>"
proof -
  have "(if file_tag_key t = (entry, fst kv) then t\<lparr>tag_value := snd kv, tag_source := ''rule_static''\<rparr> else t)
    = (if file_tag_key t = (entry, fst kv) then static_tag entry kv else t)" for t :: file_tag
    by (simp add: file_tag_key_def static_tag_def)
  then show ?thesis
    by (simp add: UpsertFileTag_def upsert_def update_where_def exists_where_iff static_tag_def file_tag_key_def cong: map_cong)
qed


lemma static_step:
  assumes "alone e" "sql e (UpsertFileTag (static_tag entry kv)) s = (r, s')"
  shows "tag_frame s s'" "pending_tag_values (ix_db s') = pending_tag_values (ix_db s)"
    "has_static entry (ix_db s) kv \<Longrightarrow> file_tags (ix_db s') = file_tags (ix_db s)"
    "cp_fault e (ix_stmt s) = None \<Longrightarrow> has_static entry (ix_db s') kv"
    "fst kv' \<noteq> fst kv \<Longrightarrow> has_static entry (ix_db s) kv' \<Longrightarrow> has_static entry (ix_db s') kv'"
proof -
  let ?c = "snd (UpsertFileTag (static_tag entry kv) (cp_now e (ix_stmt s)) (ix_db s))"
  have s': "s' = s\<lparr>ix_stmt := Suc (ix_stmt s)\<rparr> \<or> s' = s\<lparr>ix_db := ?c, ix_stmt := Suc (ix_stmt s)\<rparr>"
    and full: "cp_fault e (ix_stmt s) = None \<Longrightarrow> ix_db s' = ?c"
    using assms by (auto simp: alone_def sql_def Let_def split: prod.splits option.splits db_fault.splits)
  show "tag_frame s s'" using s' by (elim disjE) (simp_all only: tag_frame_stmt UpsertFileTag_static tag_frame_tags)
  show "pending_tag_values (ix_db s') = pending_tag_values (ix_db s)" using s' by (auto simp: UpsertFileTag_static)
  have k: "file_tag_key (static_tag entry kv) = (entry, fst kv)" for kv by (simp add: file_tag_key_def static_tag_def)
  show "has_static entry (ix_db s') kv" if "cp_fault e (ix_stmt s) = None"
    using full[OF that] by (auto simp: has_static_def UpsertFileTag_static k split: if_splits)
  show "file_tags (ix_db s') = file_tags (ix_db s)" if h: "has_static entry (ix_db s) kv"
  proof -
    have "file_tags ?c = file_tags (ix_db s)"
      using h k[of kv] by (auto simp: has_static_def UpsertFileTag_static intro!: map_idI bexI[of _ "static_tag entry kv"])
    then show ?thesis using s' by auto
  qed
  show "has_static entry (ix_db s') kv'" if h: "fst kv' \<noteq> fst kv" "has_static entry (ix_db s) kv'"
  proof -
    have sub: "t = static_tag entry kv \<or> t \<in> set (file_tags (ix_db s))" if "t \<in> set (file_tags ?c)" for t
      using that by (auto simp: UpsertFileTag_static split: if_splits)
    have keep: "t \<in> set (file_tags ?c)" if "t \<in> set (file_tags (ix_db s))" "file_tag_key t \<noteq> (entry, fst kv)" for t
      using that by (auto simp: UpsertFileTag_static image_iff intro!: bexI[of _ t])
    have all: "\<forall>t\<in>set (file_tags (ix_db s)). file_tag_key t = (entry, fst kv') \<longrightarrow> t = static_tag entry kv'"
      and mem: "static_tag entry kv' \<in> set (file_tags (ix_db s))" using h(2) by (auto simp: has_static_def)
    have "t = static_tag entry kv'" if "t \<in> set (file_tags ?c)" "file_tag_key t = (entry, fst kv')" for t
    proof -
      have "t \<noteq> static_tag entry kv" using that(2) k[of kv] h(1) by auto
      then show ?thesis using sub[OF that(1)] all that(2) by blast
    qed
    moreover have "file_tag_key (static_tag entry kv') \<noteq> (entry, fst kv)" unfolding k using h(1) by simp
    ultimately have "has_static entry ?c kv'" unfolding has_static_def using keep[OF mem] by blast
    moreover have "ix_db s' = ix_db s \<or> ix_db s' = ?c" using s' by (elim disjE) simp_all
    ultimately show ?thesis using h(2) by (elim disjE) simp_all
  qed
qed


lemma applyStaticTags_Cons:
  "applyStaticTags e entry (kv # tags) s =
     (if declarable kv then applyStaticTags e entry tags (snd (sql e (UpsertFileTag (static_tag entry kv)) s))
      else applyStaticTags e entry tags s)"
  by (cases kv) (auto simp: declarable_def static_tag_def)

lemma static_tags_frame:
  assumes "alone e"
  shows "tag_frame s (applyStaticTags e entry tags s)"
    and "pending_tag_values (ix_db (applyStaticTags e entry tags s)) = pending_tag_values (ix_db s)"
proof -
  have "tag_frame s (applyStaticTags e entry tags s) \<and> pending_tag_values (ix_db (applyStaticTags e entry tags s)) = pending_tag_values (ix_db s)"
  proof (induction tags arbitrary: s)
    case (Cons kv tags)
    obtain r s1 where 1: "sql e (UpsertFileTag (static_tag entry kv)) s = (r, s1)" by fastforce
    show ?case using Cons.IH[of s] Cons.IH[of s1] tag_frame_trans[OF static_step(1)[OF assms 1]] static_step(2)[OF assms 1] 1
      by (simp add: applyStaticTags_Cons)
  qed (simp add: tag_frame_refl)
  then show "tag_frame s (applyStaticTags e entry tags s)"
    and "pending_tag_values (ix_db (applyStaticTags e entry tags s)) = pending_tag_values (ix_db s)" by auto
qed

lemma static_tags_noop:
  assumes "alone e" "\<And>kv. kv \<in> set tags \<Longrightarrow> declarable kv \<Longrightarrow> has_static entry (ix_db s) kv"
  shows "file_tags (ix_db (applyStaticTags e entry tags s)) = file_tags (ix_db s)"
  using assms(2)
proof (induction tags arbitrary: s)
  case (Cons kv tags)
  obtain r s1 where 1: "sql e (UpsertFileTag (static_tag entry kv)) s = (r, s1)" by fastforce
  show ?case
  proof (cases "declarable kv")
    case True
    then have same: "file_tags (ix_db s1) = file_tags (ix_db s)" using static_step(3)[OF assms(1) 1] Cons.prems by simp
    then have "has_static entry (ix_db s1) kv'" if "kv' \<in> set tags" "declarable kv'" for kv'
      using that Cons.prems by (simp add: has_static_def)
    then show ?thesis using Cons.IH[of s1] same True 1 by (simp add: applyStaticTags_Cons)
  qed (use Cons in \<open>simp add: applyStaticTags_Cons\<close>)
qed simp

lemma static_tags_keep:
  assumes "alone e" "fst kv' \<notin> fst ` set tags" "has_static entry (ix_db s) kv'"
  shows "has_static entry (ix_db (applyStaticTags e entry tags s)) kv'"
  using assms(2,3)
proof (induction tags arbitrary: s)
  case (Cons kv tags)
  obtain r s1 where 1: "sql e (UpsertFileTag (static_tag entry kv)) s = (r, s1)" by fastforce
  show ?case using Cons.IH[of s] Cons.IH[of s1] Cons.prems static_step(5)[OF assms(1) 1, of kv'] 1 by (simp add: applyStaticTags_Cons)
qed simp

lemma static_tags_set:
  assumes "alone e" "\<And>k. cp_fault e k = None" "distinct (map fst tags)" "kv \<in> set tags" "declarable kv"
  shows "has_static entry (ix_db (applyStaticTags e entry tags s)) kv"
  using assms(3,4)
proof (induction tags arbitrary: s)
  case (Cons kv0 tags)
  obtain r s1 where 1: "sql e (UpsertFileTag (static_tag entry kv0)) s = (r, s1)" by fastforce
  show ?case
  proof (cases "kv = kv0")
    case True
    then have "has_static entry (ix_db s1) kv" using static_step(4)[OF assms(1) 1] assms(2) by simp
    then show ?thesis using static_tags_keep[OF assms(1)] Cons.prems True assms(5) 1 by (simp add: applyStaticTags_Cons)
  next
    case False
    then show ?thesis using Cons.IH[of s] Cons.IH[of s1] Cons.prems 1 by (simp add: applyStaticTags_Cons)
  qed
qed simp


section \<open>Reports\<close>

text \<open>The rule as the table has it, without the query.\<close>

definition rule_info :: "cp_env \<Rightarrow> uuid \<Rightarrow> uuid \<Rightarrow> string \<Rightarrow> catalog \<Rightarrow> uuid option \<times> rule_metadata \<times> string \<times> bool" where
  "rule_info e agent org ruleStr c =
     (case (if ruleStr = '''' then None else cp_parse_uuid e ruleStr) of
        None \<Rightarrow> (None, no_metadata, '''', True)
      | Some rule \<Rightarrow>
          (case GetRuleTagInfo org rule c of
             None \<Rightarrow> (None, no_metadata, '''', True)
           | Some info \<Rightarrow>
               if cr_agent info \<noteq> agent then (None, no_metadata, '''', True)
               else if cr_metadata info = '''' then (Some rule, no_metadata, cr_template info, False)
               else let (meta, failed) = cp_unmarshal e (cr_metadata info) in (Some rule, meta, cr_template info, failed)))"

lemma resolve_rule_alone:
  assumes "alone e" "resolve_rule e agent org ruleStr s = (r, s')"
  shows "\<exists>n. s' = s\<lparr>ix_stmt := n\<rparr>" "r = Inr info \<Longrightarrow> info = rule_info e agent org ruleStr (ix_db s)"
proof -
  have "(\<exists>n. s' = s\<lparr>ix_stmt := n\<rparr>) \<and> (r = Inr info \<longrightarrow> info = rule_info e agent org ruleStr (ix_db s))"
  proof (cases "if ruleStr = '''' then None else cp_parse_uuid e ruleStr")
    case None
    then have "s' = s\<lparr>ix_stmt := ix_stmt s\<rparr>" "r = Inr (rule_info e agent org ruleStr (ix_db s))"
      using assms(2) by (auto simp: resolve_rule_def rule_info_def)
    then show ?thesis by blast
  next
    case (Some rule)
    obtain r1 s1 where 1: "sql e (query (GetRuleTagInfo org rule)) s = (r1, s1)" by fastforce
    note q = query_alone[OF assms(1) 1]
    have "s' = s1" "r = Inr info \<longrightarrow> info = rule_info e agent org ruleStr (ix_db s)"
      using assms(2) Some 1 q(2)
      by (auto simp: resolve_rule_def rule_info_def split: sum.splits db_error.splits prod.splits option.splits if_splits)
    then show ?thesis using q(1) by blast
  qed
  then show "\<exists>n. s' = s\<lparr>ix_stmt := n\<rparr>" "r = Inr info \<Longrightarrow> info = rule_info e agent org ruleStr (ix_db s)" by auto
qed

lemma classify_alone:
  assumes "alone e"
  shows "classify_or_Nil e path s = (t, s') \<Longrightarrow> \<exists>n. s' = s\<lparr>ix_stmt := n\<rparr>"
    and "classifyFileType e org path declared s = (t, s') \<Longrightarrow> \<exists>n. s' = s\<lparr>ix_stmt := n\<rparr>"
proof -
  have c: "\<exists>n. s' = s\<lparr>ix_stmt := n\<rparr>" if "classify_or_Nil e path s = (t, s')" for s t s'
    using that query_alone(1)[OF assms] by (fastforce simp: classify_or_Nil_def Classify_def split: prod.splits sum.splits)
  then show "classify_or_Nil e path s = (t, s') \<Longrightarrow> \<exists>n. s' = s\<lparr>ix_stmt := n\<rparr>" .
  assume r: "classifyFileType e org path declared s = (t, s')"
  obtain r1 s1 where 1: "sql e (query (Some \<circ> GetFileTypeIDByName org declared)) s = (r1, s1)" by fastforce
  have "s' = s1 \<or> classify_or_Nil e path s1 = (t, s') \<or> classify_or_Nil e path s = (t, s')"
    using r 1 by (auto simp: classifyFileType_def split: sum.splits if_splits)
  then show "\<exists>n. s' = s\<lparr>ix_stmt := n\<rparr>" using query_alone(1)[OF assms 1] c by fastforce
qed

text \<open>The write of a report: failed, suppressed (and nothing changed), or applied.\<close>

lemma upsert_alone:
  assumes "alone e" "UpsertObservedFile e p s = (r, s')"
  obtains (failed) err n c where "r = Inl err" "s' = s\<lparr>ix_db := c, ix_stmt := n\<rparr>" "file_tags c = file_tags (ix_db s)"
      "pending_tag_values c = pending_tag_values (ix_db s)"
  | (suppressed) fe n where "r = Inr (fe, True)" "s' = s\<lparr>ix_stmt := n\<rparr>"
      "GetIndexedFileByKey (p_bucket p, p_storage_path p) (ix_db s) = Some fe"
      "fst (snd (upsert_offer p (cp_now e (ix_stmt s)))) \<le> fe_observed_at fe"
  | (applied) fe n where "r = Inr (fe, False)" "UpsertIndexedFile (cp_collate e) p (cp_now e (ix_stmt s)) (ix_db s) = (Some fe, ix_db s')"
      "s' = s\<lparr>ix_db := ix_db s', ix_stmt := n\<rparr>"
proof -
  obtain r1 s1 where 1: "sql e (UpsertIndexedFile (cp_collate e) p) s = (r1, s1)" by fastforce
  obtain r2 s2 where 2: "sql e (query (GetIndexedFileByKey (p_bucket p, p_storage_path p))) s1 = (r2, s2)" by fastforce
  let ?now = "cp_now e (ix_stmt s)"
  let ?u = "UpsertIndexedFile (cp_collate e) p ?now (ix_db s)"
  have tags: "file_tags (snd ?u) = file_tags (ix_db s)" "pending_tag_values (snd ?u) = pending_tag_values (ix_db s)"
    by (auto simp: UpsertIndexedFile_def put_entry_def Let_def split: option.splits)
  have none: "snd ?u = ix_db s \<and> (\<exists>fe. GetIndexedFileByKey (p_bucket p, p_storage_path p) (ix_db s) = Some fe
      \<and> fst (snd (upsert_offer p ?now)) \<le> fe_observed_at fe)" if "fst ?u = None"
    using that by (auto simp: UpsertIndexedFile_def Let_def split: option.splits if_splits dest: not_older_time(2))
  show ?thesis using assms(1) 1
  proof (cases rule: sql_alone)
    case (refused msg)
    then show ?thesis using failed[of "DriverError msg" "Suc (ix_stmt s)" "ix_db s"] assms(2) 1 by (auto simp: UpsertObservedFile_def)
  next
    case (lost msg)
    then show ?thesis using failed[of "DriverError msg" "Suc (ix_stmt s)" "snd ?u"] tags assms(2) 1 by (auto simp: UpsertObservedFile_def)
  next
    case answered
    show ?thesis
    proof (cases "fst ?u")
      case (Some fe)
      then have r: "r = Inr (fe, False)" and s': "s' = s1" using answered(1) assms(2) 1 by (auto simp: UpsertObservedFile_def)
      have db: "ix_db s' = snd ?u" using answered(2) s' by simp
      then have "?u = (Some fe, ix_db s')" using Some by (simp add: prod_eq_iff)
      moreover have "s' = s\<lparr>ix_db := ix_db s', ix_stmt := Suc (ix_stmt s)\<rparr>" unfolding db unfolding s' by (rule answered(2))
      ultimately show ?thesis by (rule applied[OF r])
    next
      case None
      then obtain fe where fe: "GetIndexedFileByKey (p_bucket p, p_storage_path p) (ix_db s) = Some fe"
        "fst (snd (upsert_offer p ?now)) \<le> fe_observed_at fe" "snd ?u = ix_db s" using none by blast
      have s1: "s1 = s\<lparr>ix_stmt := Suc (ix_stmt s)\<rparr>" "r1 = Inl ErrNoRows" using answered None fe(3) by auto
      note q = query_alone[OF assms(1) 2]
      have "s' = s\<lparr>ix_stmt := Suc (Suc (ix_stmt s))\<rparr>" using assms(2) 1 2 q(1) s1 by (auto simp: UpsertObservedFile_def split: sum.splits)
      then show ?thesis
        using q(2) fe(1,2) assms(2) 1 2 s1 suppressed[of fe "Suc (Suc (ix_stmt s))"] failed[of _ "Suc (Suc (ix_stmt s))" "ix_db s"]
        by (auto simp: UpsertObservedFile_def)
    qed
  qed
qed


abbreviation report_upsert :: "cp_env \<Rightarrow> uuid \<Rightarrow> uuid \<Rightarrow> uuid \<Rightarrow> uuid option \<Rightarrow> uuid \<Rightarrow> bool \<Rightarrow> result_msg \<Rightarrow> upsert_params" where
  "report_upsert e org agent b rule ft inc m \<equiv>
     report_params org agent b rule ft inc (case rs_uploaded_at m of Some t \<Rightarrow> Some t | None \<Rightarrow> Some (cp_clock e)) m"

lemma report_stages:
  assumes a: "alone e" and r: "HandleUploadResult e agent org m s = (r, s')"
  obtains (failed) err where "r = Inl err" "file_tags (ix_db s') = file_tags (ix_db s)"
      "pending_tag_values (ix_db s') = pending_tag_values (ix_db s)"
  | (unsuccessful) n rule where "\<not> rs_success m" "finish_report e org agent None rule m (s\<lparr>ix_stmt := n\<rparr>) = (r, s')"
  | (suppressed) b fe n k where "rs_success m" "r = Inr ()" "GetBucketByName org (rs_bucket m) (ix_db s) = Some b"
      "GetIndexedFileByKey (b_id b, rs_storage_path m) (ix_db s) = Some fe" "cp_now e k \<le> fe_observed_at fe"
      "s' = s\<lparr>ix_stmt := n, ix_suppressedWrites := ix_suppressedWrites s + 1\<rparr>"
  | (applied) b rule meta template inc ft k fe c n where "rs_success m" "GetBucketByName org (rs_bucket m) (ix_db s) = Some b"
      "rule_info e agent org (rs_rule_id m) (ix_db s) = (rule, meta, template, inc)"
      "UpsertIndexedFile (cp_collate e) (report_upsert e org agent (b_id b) rule ft inc m) (cp_now e k) (ix_db s) = (Some fe, c)"
      "finish_report e org agent (Some fe) rule m
         (applyPathVarTags e org (fe_id fe) (rs_storage_path m) template (rm_path_tag_map meta) rule
           (applyStaticTags e (fe_id fe) (rm_static_tags meta) (s\<lparr>ix_db := c, ix_stmt := n\<rparr>))) = (r, s')"
proof -
  obtain r1 s1 where 1: "sql e (query (GetBucketByName org (rs_bucket m))) s = (r1, s1)" by fastforce
  note q1 = query_alone[OF a 1]
  show ?thesis
  proof (cases r1)
    case (Inl err)
    then show ?thesis using r 1 q1(1) by (auto simp: HandleUploadResult_def intro: failed)
  next
    case (Inr b)
    then have b: "GetBucketByName org (rs_bucket m) (ix_db s) = Some b" using q1(2) by (auto split: option.splits)
    obtain r2 s2 where 2: "resolve_rule e agent org (rs_rule_id m) s1 = (r2, s2)" by fastforce
    note q2 = resolve_rule_alone[OF a 2]
    show ?thesis
    proof (cases r2)
      case (Inl err)
      then show ?thesis using r 1 2 \<open>r1 = Inr b\<close> q1(1) q2(1) by (auto simp: HandleUploadResult_def intro: failed)
    next
      case i: (Inr info)
      obtain rule meta template inc where info: "info = (rule, meta, template, inc)" by (cases info)
      then have ri: "rule_info e agent org (rs_rule_id m) (ix_db s) = (rule, meta, template, inc)" using q2(2)[OF i] q1(1) by simp
      obtain ft s3 where 3: "classifyFileType e org (rs_storage_path m) (rm_file_type meta) s2 = (ft, s3)" by fastforce
      obtain n3 where s3: "s3 = s\<lparr>ix_stmt := n3\<rparr>" using classify_alone(2)[OF a 3] q2(1) q1(1) by auto
      let ?p = "report_upsert e org agent (b_id b) rule ft inc m"
      have at: "fst (snd (upsert_offer ?p now)) = now" "(p_bucket ?p, p_storage_path ?p) = (b_id b, rs_storage_path m)" for now
        by (simp_all add: upsert_offer_def report_params_def db_clocked_def)
      obtain r4 s4 where 4: "UpsertObservedFile e ?p s3 = (r4, s4)" by fastforce
      note rest = r 1 2 3 4 \<open>r1 = Inr b\<close> i info
      show ?thesis
      proof (cases "rs_success m")
        case False
        then show ?thesis using rest s3 unsuccessful by (simp add: HandleUploadResult_def)
      next
        case True
        show ?thesis using a 4
        proof (cases rule: upsert_alone)
          case (failed err n c)
          then show ?thesis using rest True s3 that(1) by (auto simp: HandleUploadResult_def)
        next
          case (suppressed fe n)
          then show ?thesis using rest True s3 b at that(3)[of b fe] by (auto simp: HandleUploadResult_def)
        next
          case (applied fe n)
          have up: "UpsertIndexedFile (cp_collate e) ?p (cp_now e n3) (ix_db s) = (Some fe, ix_db s4)" using applied(2) s3 by simp
          have s4: "s4 = s\<lparr>ix_db := ix_db s4, ix_stmt := n\<rparr>" using applied(3) s3 by simp
          have "finish_report e org agent (Some fe) rule m
            (applyPathVarTags e org (fe_id fe) (rs_storage_path m) template (rm_path_tag_map meta) rule
              (applyStaticTags e (fe_id fe) (rm_static_tags meta) s4)) = (r, s')"
            using rest True applied(1) by (simp add: HandleUploadResult_def Let_def)
          then show ?thesis using that(4)[OF True b ri up, of n] s4 by simp
        qed
      qed
    qed
  qed
qed


lemma finish_effect:
  assumes a: "alone e" and r: "finish_report e org agent entry rule m s = (r, s')"
  shows "file_tags (ix_db s') = file_tags (ix_db s)" "pending_tag_values (ix_db s') = pending_tag_values (ix_db s)"
    "file_entries (ix_db s') = file_entries (ix_db s)" "next_uuid (ix_db s') = next_uuid (ix_db s)"
    "same_vocabulary (ix_db s) (ix_db s')" "collection_rules (ix_db s') = collection_rules (ix_db s)" "buckets (ix_db s') = buckets (ix_db s)"
    and "r = Inr () \<Longrightarrow> upload_logs (ix_db s') = upload_logs (ix_db s) @ [report_log e org agent (map_option fe_id entry) rule m]
      \<and> ix_published s' = ix_published s @ (case entry of
          Some fe \<Rightarrow> if cp_nats e \<and> cp_publish e (length (ix_published s))
            then [FileUploaded (fe_id fe) agent (fe_bucket fe) (fe_storage_path fe) (fe_file_name fe) (fe_size fe) (rs_sha256 m)] else []
        | None \<Rightarrow> [])"
proof -
  let ?l = "report_log e org agent (map_option fe_id entry) rule m"
  obtain r1 s1 where 1: "sql e (CreateUploadLog ?l) s = (r1, s1)" by fastforce
  have db: "ix_db s' = ix_db s1"
    and ok: "r = Inr () \<Longrightarrow> r1 = Inr () \<and> ix_published s' = ix_published s1 @ (case entry of
          Some fe \<Rightarrow> if cp_nats e \<and> cp_publish e (length (ix_published s1))
            then [FileUploaded (fe_id fe) agent (fe_bucket fe) (fe_storage_path fe) (fe_file_name fe) (fe_size fe) (rs_sha256 m)] else []
        | None \<Rightarrow> [])"
    using r 1 by (auto simp: finish_report_def publishFileUploaded_def publish_def split: sum.splits option.splits if_splits)
  have s1: "s1 = s\<lparr>ix_stmt := Suc (ix_stmt s)\<rparr> \<and> r1 \<noteq> Inr ()
      \<or> s1 = s\<lparr>ix_db := (ix_db s)\<lparr>upload_logs := upload_logs (ix_db s) @ [?l]\<rparr>, ix_stmt := Suc (ix_stmt s)\<rparr>"
    using 1 by (rule_tac sql_alone[OF a 1]) (auto simp: CreateUploadLog_def)
  show "file_tags (ix_db s') = file_tags (ix_db s)" "pending_tag_values (ix_db s') = pending_tag_values (ix_db s)"
    "file_entries (ix_db s') = file_entries (ix_db s)" "next_uuid (ix_db s') = next_uuid (ix_db s)"
    "same_vocabulary (ix_db s) (ix_db s')" "collection_rules (ix_db s') = collection_rules (ix_db s)" "buckets (ix_db s') = buckets (ix_db s)"
    using s1 db by (auto simp: same_vocabulary_def)
  show "r = Inr () \<Longrightarrow> upload_logs (ix_db s') = upload_logs (ix_db s) @ [?l]
      \<and> ix_published s' = ix_published s @ (case entry of
          Some fe \<Rightarrow> if cp_nats e \<and> cp_publish e (length (ix_published s))
            then [FileUploaded (fe_id fe) agent (fe_bucket fe) (fe_storage_path fe) (fe_file_name fe) (fe_size fe) (rs_sha256 m)] else []
        | None \<Rightarrow> [])"
  proof -
    assume "r = Inr ()"
    moreover have "ix_published s1 = ix_published s" using s1 by auto
    ultimately show ?thesis using s1 db ok by (cases entry) auto
  qed
qed

text \<open>The row an applied write leaves.\<close>

lemma upsert_row:
  assumes "UpsertIndexedFile le p now c = (Some fe, c')"
  shows "GetIndexedFileByKey (p_bucket p, p_storage_path p) c' = Some fe"
    "k \<noteq> (p_bucket p, p_storage_path p) \<Longrightarrow> GetIndexedFileByKey k c' = GetIndexedFileByKey k c"
    "fe_status fe = p_status p" "fe_size fe = p_size p" "fe_source fe = p_source p" "view fe = snd (upsert_offer p now)"
    "p_agent p = Some a \<Longrightarrow> fe_agent fe = Some a" "p_sha256 p = Some h \<Longrightarrow> fe_sha256 fe = Some h" "p_etag p = Some t \<Longrightarrow> fe_etag fe = Some t"
    "p_rule p = Some i \<Longrightarrow> fe_rule fe = Some i" "fe_bucket fe = p_bucket p" "fe_storage_path fe = p_storage_path p"
    "fe_file_name fe = p_file_name p"
    "GetIndexedFileByKey (p_bucket p, p_storage_path p) c = Some fe0 \<Longrightarrow> fe_id fe = fe_id fe0"
    "file_tags c' = file_tags c" "pending_tag_values c' = pending_tag_values c" "same_vocabulary c c'" "collection_rules c' = collection_rules c"
    "upload_logs c' = upload_logs c" "buckets c' = buckets c"
proof -
  let ?x = "excluded (next_uuid c) now p"
  have c': "c' = snd (UpsertIndexedFile le p now c)" using assms by simp
  have fe: "GetIndexedFileByKey (p_bucket p, p_storage_path p) c = None \<and> fe = ?x
    \<or> (\<exists>fe0. GetIndexedFileByKey (p_bucket p, p_storage_path p) c = Some fe0 \<and> file_key fe0 = (p_bucket p, p_storage_path p) \<and> fe = conflict_update now ?x fe0
         \<and> not_older le (fst (snd (upsert_offer p now))) (p_event_seq p) fe0)"
    using assms Get_key by (auto simp: UpsertIndexedFile_def Let_def split: option.splits if_splits)
  then show "GetIndexedFileByKey (p_bucket p, p_storage_path p) c' = Some fe" unfolding c' by (auto simp: Upsert_row)
  show "k \<noteq> (p_bucket p, p_storage_path p) \<Longrightarrow> GetIndexedFileByKey k c' = GetIndexedFileByKey k c"
    unfolding c' by (auto simp: Upsert_row split: option.splits)
  show "fe_status fe = p_status p" "fe_size fe = p_size p" "fe_source fe = p_source p" "view fe = snd (upsert_offer p now)"
    "p_agent p = Some a \<Longrightarrow> fe_agent fe = Some a" "p_sha256 p = Some h \<Longrightarrow> fe_sha256 fe = Some h" "p_etag p = Some t \<Longrightarrow> fe_etag fe = Some t"
    "p_rule p = Some i \<Longrightarrow> fe_rule fe = Some i" "fe_bucket fe = p_bucket p" "fe_storage_path fe = p_storage_path p"
    "fe_file_name fe = p_file_name p"
    using fe by (auto simp: excluded_def conflict_update_def coalesce_def file_key_def view_def upsert_offer_def)
  show "GetIndexedFileByKey (p_bucket p, p_storage_path p) c = Some fe0 \<Longrightarrow> fe_id fe = fe_id fe0"
    using fe by (auto simp: conflict_update_view)
  show "file_tags c' = file_tags c" "pending_tag_values c' = pending_tag_values c" "same_vocabulary c c'" "collection_rules c' = collection_rules c"
    "upload_logs c' = upload_logs c" "buckets c' = buckets c"
    unfolding c' by (auto simp: UpsertIndexedFile_def put_entry_def Let_def same_vocabulary_def split: option.splits)
qed





text \<open>The site tag is declared statically and so stays; the vendor is read from the path and waits for review.\<close>

definition tagged_sample :: indexer where
  "tagged_sample = snd (HandleUploadResult quiet_env 7 DefaultOrgID sample_result sample_indexer)"



section \<open>Processing a report again\<close>

lemma has_static_path:
  assumes "path_tagged org entry vals m c c'" "has_static entry c kv"
  shows "has_static entry c' kv"
proof -
  obtain new where new: "file_tags c' = file_tags c @ new" "\<forall>t\<in>set new. fresh_tag org entry vals m c t"
    using assms(1) unfolding path_tagged_def by blast
  have "file_tag_key (static_tag entry kv) = (entry, fst kv)" by (simp add: file_tag_key_def static_tag_def)
  moreover have "static_tag entry kv \<in> set (file_tags c)" using assms(2) by (simp add: has_static_def)
  ultimately have "(entry, fst kv) \<in> file_tag_key ` set (file_tags c)" by (metis imageI)
  then have "file_tag_key t \<noteq> (entry, fst kv)" if "t \<in> set new" for t
    using new(2) that by (auto simp: fresh_tag_def)
  then show ?thesis using assms(2) new(1) by (auto simp: has_static_def)
qed

lemma rule_info_cong:
  assumes "cp_parse_uuid e' = cp_parse_uuid e" "cp_unmarshal e' = cp_unmarshal e" "collection_rules c' = collection_rules c"
  shows "rule_info e' agent org ruleStr c' = rule_info e agent org ruleStr c"
  unfolding rule_info_def GetRuleTagInfo_def assms ..

lemma tag_frame_rest: "tag_frame s s' \<Longrightarrow> collection_rules (ix_db s') = collection_rules (ix_db s) \<and> next_uuid (ix_db s') = next_uuid (ix_db s)
    \<and> same_vocabulary (ix_db s) (ix_db s')"
  by (auto simp: tag_frame_def same_vocabulary_def)

text \<open>What an applied report leaves settled for its entry: the static tags and a tag for every variable it may set.\<close>

definition settled :: "uuid \<Rightarrow> uuid \<Rightarrow> rule_metadata \<Rightarrow> fields \<Rightarrow> catalog \<Rightarrow> bool" where
  "settled org entry meta vals c \<longleftrightarrow>
     (\<forall>kv\<in>set (rm_static_tags meta). declarable kv \<longrightarrow> has_static entry c kv)
     \<and> (\<forall>kr\<in>set (rm_path_tag_map meta). path_value c org vals kr \<noteq> None \<longrightarrow> (entry, fst kr) \<in> file_tag_key ` set (file_tags c))"

lemma settled_cong: "file_tags c' = file_tags c \<Longrightarrow> same_vocabulary c c' \<Longrightarrow> settled org entry meta vals c' = settled org entry meta vals c"
  by (simp add: settled_def has_static_def vocabulary_cong)

abbreviation report_tags :: "cp_env \<Rightarrow> uuid \<Rightarrow> uuid \<Rightarrow> string \<Rightarrow> string \<Rightarrow> rule_metadata \<Rightarrow> uuid option \<Rightarrow> indexer \<Rightarrow> indexer" where
  "report_tags e org entry path template meta rule s \<equiv>
     applyPathVarTags e org entry path template (rm_path_tag_map meta) rule (applyStaticTags e entry (rm_static_tags meta) s)"

lemma tags_settle:
  assumes "alone e" "\<And>k. cp_fault e k = None" "distinct (map fst (rm_static_tags meta))"
  shows "settled org entry meta (path_variables (cp_time e) template path) (ix_db (report_tags e org entry path template meta rule s))"
proof -
  let ?s' = "report_tags e org entry path template meta rule s" and ?s5 = "applyStaticTags e entry (rm_static_tags meta) s" and ?vals = "path_variables (cp_time e) template path"
  have pt: "path_tagged org entry ?vals (rm_path_tag_map meta) (ix_db ?s5) (ix_db ?s')"
    by (rule path_tags_effect(2)[OF assms(1)])
  then have voc: "same_vocabulary (ix_db ?s5) (ix_db ?s')" by (simp add: path_tagged_def)
  have "has_static entry (ix_db ?s') kv" if "kv \<in> set (rm_static_tags meta)" "declarable kv" for kv
    using has_static_path[OF pt static_tags_set[OF assms(1-3) that]] .
  moreover have "(entry, fst kr) \<in> file_tag_key ` set (file_tags (ix_db ?s'))"
    if "kr \<in> set (rm_path_tag_map meta)" "path_value (ix_db ?s') org ?vals kr \<noteq> None" for kr
    using path_tags_effect(3)[OF assms(1,2) that(1)] that(2) vocabulary_cong(3)[OF voc] by metis
  ultimately show ?thesis unfolding settled_def by blast
qed

lemma settled_tags_stay:
  assumes "alone e" "settled org entry meta (path_variables (cp_time e) template path) (ix_db s)"
  shows "file_tags (ix_db (report_tags e org entry path template meta rule s)) = file_tags (ix_db s)"
    "pending_tag_values (ix_db (report_tags e org entry path template meta rule s)) = pending_tag_values (ix_db s)"
proof -
  let ?s' = "report_tags e org entry path template meta rule s" and ?s5 = "applyStaticTags e entry (rm_static_tags meta) s" and ?vals = "path_variables (cp_time e) template path"
  have 5: "file_tags (ix_db ?s5) = file_tags (ix_db s)" "pending_tag_values (ix_db ?s5) = pending_tag_values (ix_db s)"
    "same_vocabulary (ix_db s) (ix_db ?s5)"
    using static_tags_noop[OF assms(1)] assms(2) static_tags_frame[OF assms(1)] tag_frame_rest unfolding settled_def by blast+
  have pt: "path_tagged org entry ?vals (rm_path_tag_map meta) (ix_db ?s5) (ix_db ?s')"
    by (rule path_tags_effect(2)[OF assms(1)])
  have "settled org entry meta ?vals (ix_db ?s5)" using settled_cong[OF 5(1,3)] assms(2) by blast
  then have "file_tags (ix_db ?s') = file_tags (ix_db ?s5) \<and> pending_tag_values (ix_db ?s') = pending_tag_values (ix_db ?s5)"
    using path_tagged_noop[OF pt] unfolding settled_def by blast
  then show "file_tags (ix_db ?s') = file_tags (ix_db s)" "pending_tag_values (ix_db ?s') = pending_tag_values (ix_db s)" using 5 by auto
qed

text \<open>
  a report processed again changes no tags.  An acknowledgement may be lost, and then the agent sends the report
  again.  If the first run met no fault and was not suppressed, then a second run of the same report, with any faults of its
  own and at any time, leaves all file tags and the review queue, hit counts included, as the first run left them.  The keys
  of the decoded metadata are those of a map, hence distinct.
\<close>

theorem reprocessed_report_keeps_tags:
  assumes e: "alone e" "\<And>k. cp_fault e k = None" "\<And>x. distinct (map fst (rm_static_tags (fst (cp_unmarshal e x))))"
    and first: "HandleUploadResult e agent org m s = (Inr (), s1)" "ix_suppressedWrites s1 = ix_suppressedWrites s"
    and e': "alone e'" "cp_parse_uuid e' = cp_parse_uuid e" "cp_unmarshal e' = cp_unmarshal e" "cp_time e' = cp_time e"
    and second: "HandleUploadResult e' agent org m s1 = (r, s2)"
  shows "file_tags (ix_db s2) = file_tags (ix_db s1) \<and> pending_tag_values (ix_db s2) = pending_tag_values (ix_db s1)"
  using e'(1) second
proof (cases rule: report_stages)
  case (unsuccessful n rule)
  then show ?thesis using finish_effect(1,2)[OF e'(1) unsuccessful(2)] by simp
next
  case two: (applied b' rule' meta' template' inc' ft' k' fe' c' n')
  show ?thesis using e(1) first(1)
  proof (cases rule: report_stages)
    case (applied b rule meta template inc ft k fe c n)
    let ?s4 = "s\<lparr>ix_db := c, ix_stmt := n\<rparr>" and ?vals = "path_variables (cp_time e) template (rs_storage_path m)"
    let ?s6 = "applyPathVarTags e org (fe_id fe) (rs_storage_path m) template (rm_path_tag_map meta) rule
      (applyStaticTags e (fe_id fe) (rm_static_tags meta) ?s4)"
    have f: "tag_frame ?s4 ?s6" using tag_frame_trans static_tags_frame(1)[OF e(1)] path_tags_effect(1)[OF e(1)] by blast
    note row = upsert_row[OF applied(4)] and fin = finish_effect[OF e(1) applied(5)] and row' = upsert_row[OF two(4)]
    have "b' = b" using applied(2) two(2) fin(7) tag_frameD(3)[OF f] row(20) by (simp add: GetBucketByName_def)
    moreover have "collection_rules (ix_db s1) = collection_rules (ix_db s)" using fin(6) tag_frame_rest[OF f] row(18) by simp
    then have info: "rule' = rule \<and> meta' = meta \<and> template' = template" using rule_info_cong[OF e'(2,3)] applied(3) two(3) by auto
    moreover have "GetIndexedFileByKey (b_id b, rs_storage_path m) (ix_db s1) = Some fe"
      using row(1) fin(3) tag_frameD(1)[OF f] by (simp add: GetIndexedFileByKey_def report_params_def)
    ultimately have id: "fe_id fe' = fe_id fe" using row'(14) by (simp add: report_params_def)
    have "distinct (map fst (rm_static_tags meta))"
      using applied(3) e(3) by (auto simp: rule_info_def no_metadata_def split: option.splits if_splits prod.splits) (metis fst_conv)
    then have "settled org (fe_id fe) meta ?vals (ix_db ?s6)" by (rule tags_settle[OF e(1,2)])
    then have s1: "settled org (fe_id fe) meta ?vals (ix_db s1)" using settled_cong[OF fin(1,5)] by blast
    have "settled org (fe_id fe) meta ?vals c'" using settled_cong[OF row'(15,17)] s1 by blast
    then have "settled org (fe_id fe') meta' (path_variables (cp_time e') template' (rs_storage_path m)) (ix_db (s1\<lparr>ix_db := c', ix_stmt := n'\<rparr>))"
      using id info e'(4) by simp
    note stay = settled_tags_stay[OF e'(1) this]
    show ?thesis using finish_effect(1,2)[OF e'(1) two(5)] stay row'(15,16) by simp
  qed (use first two in auto)
qed auto


text \<open>The second run happens at a later time and the insertion of one tag is refused.\<close>

definition later_env :: cp_env where
  "later_env = quiet_env\<lparr>cp_now := (\<lambda>n. 5000 + int n), cp_fault := (\<lambda>k. if k = 12 then Some (Refused ''busy'') else None)\<rparr>"

theorem reprocessed_report_keeps_tags_witness:
  "file_tags (ix_db (snd (HandleUploadResult later_env 7 DefaultOrgID sample_result tagged_sample))) = file_tags (ix_db tagged_sample)
   \<and> pending_tag_values (ix_db (snd (HandleUploadResult later_env 7 DefaultOrgID sample_result tagged_sample))) = pending_tag_values (ix_db tagged_sample)
   \<and> length (file_tags (ix_db tagged_sample)) = 2 \<and> map pv_hits (pending_tag_values (ix_db tagged_sample)) = [1]"
proof -
  have "fst (HandleUploadResult quiet_env 7 DefaultOrgID sample_result sample_indexer) = Inr ()" by code_simp
  then have "HandleUploadResult quiet_env 7 DefaultOrgID sample_result sample_indexer = (Inr (), tagged_sample)"
    by (simp add: prod_eq_iff tagged_sample_def)
  moreover have "length (file_tags (ix_db tagged_sample)) = 2" "map pv_hits (pending_tag_values (ix_db tagged_sample)) = [1]"
    "ix_suppressedWrites tagged_sample = ix_suppressedWrites sample_indexer" by code_simp+
  moreover have "alone quiet_env" "\<And>k. cp_fault quiet_env k = None" "\<And>x. distinct (map fst (rm_static_tags (fst (cp_unmarshal quiet_env x))))"
    "alone later_env" "cp_parse_uuid later_env = cp_parse_uuid quiet_env" "cp_unmarshal later_env = cp_unmarshal quiet_env" "cp_time later_env = cp_time quiet_env"
    by (simp_all add: alone_def later_env_def quiet_env_def)
  ultimately show ?thesis
    using reprocessed_report_keeps_tags[of quiet_env 7 DefaultOrgID sample_result sample_indexer tagged_sample later_env]
      surjective_pairing by blast
qed

end
