(* ===== verification/Filer.thy ===== *)
theory Filer
  imports Trollsift "HOL-Library.Word"
begin

text \<open>
  What the control plane makes of the filer's metadata stream (controlplane/internal/storage/seaweedfs:
  translate.go, cursor.go): changes of the object namespace, cursors and gap windows.  The protobuf
  messages are records; an absent message is \<open>None\<close> and its getters return zero values.
\<close>

section \<open>Strings\<close>

definition HasSuffix :: "string \<Rightarrow> string \<Rightarrow> bool" where
  "HasSuffix s suf \<longleftrightarrow> HasPrefix (rev s) (rev suf)"

definition CutPrefix :: "string \<Rightarrow> string \<Rightarrow> string option" where
  "CutPrefix s pre = (if HasPrefix s pre then Some (drop (length pre) s) else None)"

text \<open>\<^verbatim>\<open>strings.Cut\<close> at one character: the part before, and the part after when the character occurs.\<close>

definition Cut :: "string \<Rightarrow> char \<Rightarrow> string \<times> string option" where
  "Cut s c = (let pre = takeWhile (\<lambda>x. x \<noteq> c) s
              in if pre = s then (s, None) else (pre, Some (drop (Suc (length pre)) s)))"

section \<open>Messages\<close>

record filer_entry =
  e_name :: string
  e_directory :: bool
  e_extended :: "(string \<times> string) list"
  e_size :: "64 word option"

record notification =
  n_old :: "filer_entry option"
  n_new :: "filer_entry option"
  n_parent :: string

record filer_event =
  r_directory :: string
  r_event :: "notification option"
  r_ts :: int

text \<open>A response is an event with the rest of its batch; the batches of batch members are never read.\<close>

record metadata_response = filer_event +
  r_events :: "filer_event list"

datatype ChangeKind = ChangeCreated | ChangeRemoved | ChangeBucketRemoved

record storage_change =
  ch_kind :: ChangeKind
  ch_bucket :: string
  ch_key :: string
  ch_size :: int
  ch_ts :: int
  ch_directory :: bool

section \<open>Translation\<close>

definition bucketsPrefix :: string where
  "bucketsPrefix = ''/buckets/''"

definition prefixObjectExtKey :: string where
  "prefixObjectExtKey = ''x-seaweedfs-prefix-object''"

definition isPrefixObject :: "filer_entry option \<Rightarrow> bool" where
  "isPrefixObject e =
     (case e of
        None \<Rightarrow> False
      | Some x \<Rightarrow> e_directory x \<and> prefixObjectExtKey \<in> fst ` set (e_extended x))"

definition GetIsDirectory :: "filer_entry option \<Rightarrow> bool" where
  "GetIsDirectory e = (case e of None \<Rightarrow> False | Some x \<Rightarrow> e_directory x)"

definition GetName :: "filer_entry option \<Rightarrow> string" where
  "GetName e = (case e of None \<Rightarrow> [] | Some x \<Rightarrow> e_name x)"

definition representsObject :: "filer_entry option \<Rightarrow> bool" where
  "representsObject e \<longleftrightarrow> \<not> GetIsDirectory e \<or> isPrefixObject e"

definition fileSize_of :: "filer_entry option \<Rightarrow> int" where
  "fileSize_of e = (case e of None \<Rightarrow> 0 | Some x \<Rightarrow> (case e_size x of None \<Rightarrow> 0 | Some n \<Rightarrow> sint n))"

definition newDir :: "filer_event \<Rightarrow> notification \<Rightarrow> string" where
  "newDir r n = (if n_parent n \<noteq> [] then n_parent n else r_directory r)"

definition joinPath :: "string \<Rightarrow> string \<Rightarrow> string" where
  "joinPath dir name =
     (if dir = [] then CHR ''/'' # name
      else if HasSuffix dir ''/'' then dir @ name
      else dir @ CHR ''/'' # name)"

definition isHidden :: "string \<Rightarrow> bool" where
  "isHidden bucket \<longleftrightarrow> HasPrefix bucket ''.''"

definition isUploadsStaging :: "string \<Rightarrow> bool" where
  "isUploadsStaging key \<longleftrightarrow> key = ''.uploads'' \<or> HasPrefix key ''.uploads/''"

definition splitObjectPath :: "string \<Rightarrow> (string \<times> string) option" where
  "splitObjectPath full =
     (case CutPrefix full bucketsPrefix of
        None \<Rightarrow> None
      | Some rest \<Rightarrow>
          (case Cut rest (CHR ''/'') of
             (b, None) \<Rightarrow> None
           | (b, Some k) \<Rightarrow>
               if b = [] \<or> k = [] then None
               else if isHidden b \<or> isUploadsStaging k then None
               else Some (b, k)))"

definition bucketRoot :: "string \<Rightarrow> string option" where
  "bucketRoot full =
     (case CutPrefix full bucketsPrefix of
        None \<Rightarrow> None
      | Some rest \<Rightarrow> if rest = [] \<or> CHR ''/'' \<in> set rest \<or> isHidden rest then None else Some rest)"

definition created :: "int \<Rightarrow> int \<Rightarrow> string \<times> string \<Rightarrow> storage_change" where
  "created sz ts bk = \<lparr>ch_kind = ChangeCreated, ch_bucket = fst bk, ch_key = snd bk, ch_size = sz, ch_ts = ts, ch_directory = False\<rparr>"

definition removed :: "int \<Rightarrow> string \<times> string \<Rightarrow> storage_change" where
  "removed ts bk = \<lparr>ch_kind = ChangeRemoved, ch_bucket = fst bk, ch_key = snd bk, ch_size = 0, ch_ts = ts, ch_directory = False\<rparr>"

definition bucket_removed :: "int \<Rightarrow> string \<Rightarrow> storage_change" where
  "bucket_removed ts b = \<lparr>ch_kind = ChangeBucketRemoved, ch_bucket = b, ch_key = [], ch_size = 0, ch_ts = ts, ch_directory = True\<rparr>"

definition opt_list :: "('a \<Rightarrow> 'b) \<Rightarrow> 'a option \<Rightarrow> 'b list" where
  "opt_list f x = (case x of None \<Rightarrow> [] | Some y \<Rightarrow> [f y])"

text \<open>\<^verbatim>\<open>appendOne\<close> as the list of changes it appends.\<close>

definition appendOne :: "filer_event \<Rightarrow> storage_change list" where
  "appendOne r =
     (case r_event r of
        None \<Rightarrow> []
      | Some n \<Rightarrow>
          (let old = n_old n; neu = n_new n; ts = r_ts r;
               oldFull = joinPath (r_directory r) (GetName old);
               newFull = joinPath (newDir r n) (GetName neu);
               oldObj = representsObject old; newObj = representsObject neu
           in if old = None \<and> neu \<noteq> None then
                (if newObj then opt_list (created (fileSize_of neu) ts) (splitObjectPath newFull) else [])
              else if old \<noteq> None \<and> neu = None then
                (if oldObj then opt_list (removed ts) (splitObjectPath oldFull)
                 else opt_list (bucket_removed ts) (bucketRoot oldFull))
              else if \<not> oldObj \<and> \<not> newObj then []
              else if oldFull = newFull then
                opt_list (if newObj then created (fileSize_of neu) ts else removed ts) (splitObjectPath newFull)
              else
                (if oldObj then opt_list (removed ts) (splitObjectPath oldFull) else [])
                @ (if newObj then opt_list (created (fileSize_of neu) ts) (splitObjectPath newFull) else [])))"

definition Translate :: "metadata_response option \<Rightarrow> storage_change list" where
  "Translate resp =
     (case resp of
        None \<Rightarrow> []
      | Some r \<Rightarrow> appendOne (filer_event.truncate r) @ concat (map appendOne (r_events r)))"

definition IsIdleHeartbeat :: "metadata_response option \<Rightarrow> int option" where
  "IsIdleHeartbeat resp =
     (case resp of
        None \<Rightarrow> None
      | Some r \<Rightarrow> if r_event r \<noteq> None \<or> r_events r \<noteq> [] \<or> r_ts r \<le> 0 then None else Some (r_ts r))"

section \<open>Cursors\<close>

definition ResumeFrom :: "int \<Rightarrow> int \<Rightarrow> int" where
  "ResumeFrom declared margin =
     (let m = (if margin < 0 then 0 else margin); resume = int64 (declared - m)
      in if resume < 0 then 0 else resume)"

definition GapWindow :: "int \<Rightarrow> int \<Rightarrow> int \<Rightarrow> int \<times> int" where
  "GapWindow c h margin =
     (let lo = min c h; hi = max c h; m = (if margin < 0 then 0 else margin) in (int64 (lo - m), hi))"

definition systemLogDir :: string where
  "systemLogDir = ''/topics/.system/log''"

datatype log_name_error = ErrEmptyLogName | ExtraComponent | MalformedDay | EmptyMinute | MalformedMinute | MinuteOutOfRange

definition TrimSlashes :: "string \<Rightarrow> string" where
  "TrimSlashes s = rev (dropWhile (\<lambda>c. c = CHR ''/'') (rev (dropWhile (\<lambda>c. c = CHR ''/'') s)))"

definition number :: "string \<Rightarrow> nat" where
  "number s = foldl (\<lambda>n c. n * 10 + (of_char c - 48)) 0 s"

definition is_leap :: "int \<Rightarrow> bool" where
  "is_leap y \<longleftrightarrow> y mod 4 = 0 \<and> (y mod 100 \<noteq> 0 \<or> y mod 400 = 0)"

definition days_in_month :: "int \<Rightarrow> nat \<Rightarrow> nat" where
  "days_in_month y m = (if m = 2 then (if is_leap y then 29 else 28) else if m \<in> {4, 6, 9, 11} then 30 else 31)"

text \<open>Days from 1970-01-01 to the start of a month.\<close>

definition days_before_year :: "int \<Rightarrow> int" where
  "days_before_year y = 365 * (y - 1970) + ((y - 1) div 4 - (y - 1) div 100 + (y - 1) div 400) - 477"

definition days_before_month :: "int \<Rightarrow> nat \<Rightarrow> int" where
  "days_before_month y m = days_before_year y + (\<Sum>k\<leftarrow>[1..<m]. int (days_in_month y k))"

text \<open>\<^verbatim>\<open>time.Parse\<close> with the layout \<^verbatim>\<open>2006-01-02\<close>, as days since 1970.\<close>

definition parseDayDir :: "string \<Rightarrow> int option" where
  "parseDayDir s =
     (if length s = 10 \<and> list_all is_digit (take 4 s) \<and> s ! 4 = CHR ''-'' \<and> list_all is_digit (take 2 (drop 5 s))
         \<and> s ! 7 = CHR ''-'' \<and> list_all is_digit (drop 8 s)
      then
        (let y = int (number (take 4 s)); m = number (take 2 (drop 5 s)); d = number (drop 8 s)
         in if 1 \<le> m \<and> m \<le> 12 \<and> 1 \<le> d \<and> d \<le> days_in_month y m then Some (days_before_month y m + int d - 1) else None)
      else None)"

definition is_hex :: "char \<Rightarrow> bool" where
  "is_hex c \<longleftrightarrow> is_digit c \<or> c \<in> set ''abcdefABCDEF''"

text \<open>The name of a minute file, as minutes since midnight.\<close>

definition parseMinuteFile :: "string \<Rightarrow> log_name_error + nat" where
  "parseMinuteFile s =
     (let hm = take 5 s; suffix = drop 5 s
      in if length hm = 5 \<and> list_all is_digit (take 2 hm) \<and> hm ! 2 = CHR ''-'' \<and> list_all is_digit (drop 3 hm)
            \<and> (suffix = [] \<or> (hd suffix = CHR ''.'' \<and> 2 \<le> length suffix \<and> length suffix \<le> 17 \<and> list_all is_hex (tl suffix)))
         then
           (let hour = number (take 2 hm); minute = number (drop 3 hm)
            in if 23 < hour \<or> 59 < minute then Inl MinuteOutOfRange else Inr (60 * hour + minute))
         else Inl MalformedMinute)"

definition CursorBeforeEarliestLog :: "int \<Rightarrow> string \<Rightarrow> log_name_error + bool" where
  "CursorBeforeEarliestLog cursor earliestLogName =
     (let name = TrimSpace earliestLogName;
          name = (case CutPrefix name systemLogDir of Some rest \<Rightarrow> rest | None \<Rightarrow> name);
          name = TrimSlashes name
      in if name = [] then Inl ErrEmptyLogName
         else
           (let (dayPart, filePart) = Cut name (CHR ''/'')
            in if (case filePart of Some f \<Rightarrow> CHR ''/'' \<in> set f | None \<Rightarrow> False) then Inl ExtraComponent
               else case parseDayDir dayPart of
                      None \<Rightarrow> Inl MalformedDay
                    | Some day \<Rightarrow>
                        (case filePart of
                           None \<Rightarrow> Inr (cursor < int64 (day * 86400 * 1000000000))
                         | Some f \<Rightarrow>
                             if f = [] then Inl EmptyMinute
                             else case parseMinuteFile f of
                                    Inl err \<Rightarrow> Inl err
                                  | Inr minute \<Rightarrow> Inr (cursor < int64 ((day * 86400 + 60 * int minute) * 1000000000)))))"

section \<open>Laws\<close>

lemma CutPrefix_Some: "CutPrefix s pre = Some rest \<longleftrightarrow> s = pre @ rest"
  by (auto simp: CutPrefix_def HasPrefix_def) (metis append_take_drop_id)

lemma Cut_Some: "Cut s c = (a, Some b) \<longleftrightarrow> s = a @ c # b \<and> c \<notin> set a"
proof
  assume "Cut s c = (a, Some b)"
  then have a: "a = takeWhile (\<lambda>x. x \<noteq> c) s" "takeWhile (\<lambda>x. x \<noteq> c) s \<noteq> s" and b: "b = drop (Suc (length a)) s"
    by (auto simp: Cut_def Let_def split: if_splits)
  obtain d ds where d: "dropWhile (\<lambda>x. x \<noteq> c) s = d # ds"
    using a(2) by (metis append_Nil2 neq_Nil_conv takeWhile_dropWhile_id)
  have "d = c" using d by (metis (mono_tags, lifting) hd_dropWhile list.distinct(1) list.sel(1))
  have s: "s = a @ c # ds" using takeWhile_dropWhile_id[of "\<lambda>x. x \<noteq> c" s] d \<open>d = c\<close> a(1) by simp
  then have "b = ds" using b by simp
  then show "s = a @ c # b \<and> c \<notin> set a" using s a(1) by (auto dest: set_takeWhileD)
next
  assume "s = a @ c # b \<and> c \<notin> set a"
  then have "takeWhile (\<lambda>x. x \<noteq> c) s = a" "s \<noteq> a" by (auto simp: takeWhile_append2 takeWhile_tail)
  then show "Cut s c = (a, Some b)" using \<open>s = a @ c # b \<and> c \<notin> set a\<close> by (auto simp: Cut_def)
qed

text \<open>Bucket and key of a path are the parts it is made of, so a path is determined by them.\<close>

definition object_name :: "string \<Rightarrow> string \<Rightarrow> bool" where
  "object_name b k \<longleftrightarrow> b \<noteq> [] \<and> CHR ''/'' \<notin> set b \<and> \<not> isHidden b \<and> k \<noteq> [] \<and> \<not> isUploadsStaging k"

lemma splitObjectPath_Some:
  "splitObjectPath full = Some (b, k) \<longleftrightarrow> full = ''/buckets/'' @ b @ CHR ''/'' # k \<and> object_name b k"
proof
  assume "splitObjectPath full = Some (b, k)"
  then obtain rest where "CutPrefix full bucketsPrefix = Some rest" "Cut rest (CHR ''/'') = (b, Some k)" "b \<noteq> []" "k \<noteq> []"
    "\<not> isHidden b" "\<not> isUploadsStaging k"
    by (auto simp: splitObjectPath_def split: option.splits prod.splits if_splits)
  then show "full = ''/buckets/'' @ b @ CHR ''/'' # k \<and> object_name b k"
    by (simp add: CutPrefix_Some Cut_Some bucketsPrefix_def object_name_def)
next
  assume *: "full = ''/buckets/'' @ b @ CHR ''/'' # k \<and> object_name b k"
  then have "CutPrefix full bucketsPrefix = Some (b @ CHR ''/'' # k)" "Cut (b @ CHR ''/'' # k) (CHR ''/'') = (b, Some k)"
    by (simp_all add: CutPrefix_Some Cut_Some bucketsPrefix_def object_name_def)
  then show "splitObjectPath full = Some (b, k)" using * by (simp add: splitObjectPath_def object_name_def)
qed

lemma splitObjectPath_inj: "splitObjectPath p = Some x \<Longrightarrow> splitObjectPath q = Some x \<Longrightarrow> p = q"
  by (cases x) (simp add: splitObjectPath_Some)

text \<open>
  The reference: an event takes the object of its old entry away and brings the object of its new entry;
  a plain directory is only of interest when it is the directory of a bucket that goes.
\<close>

definition object_at :: "string \<Rightarrow> filer_entry option \<Rightarrow> (string \<times> string) option" where
  "object_at dir e =
     (case e of None \<Rightarrow> None | Some x \<Rightarrow> if representsObject e then splitObjectPath (joinPath dir (e_name x)) else None)"

definition namespace_diff :: "filer_event \<Rightarrow> storage_change list" where
  "namespace_diff r =
     (case r_event r of
        None \<Rightarrow> []
      | Some n \<Rightarrow>
          (let old = object_at (r_directory r) (n_old n); neu = object_at (newDir r n) (n_new n)
           in (if old = neu then [] else opt_list (removed (r_ts r)) old)
              @ opt_list (created (fileSize_of (n_new n)) (r_ts r)) neu
              @ (if n_new n = None \<and> \<not> representsObject (n_old n)
                 then opt_list (bucket_removed (r_ts r)) (bucketRoot (joinPath (r_directory r) (GetName (n_old n)))) else [])))"

definition carries_entry :: "filer_event \<Rightarrow> bool" where
  "carries_entry r \<longleftrightarrow> (case r_event r of None \<Rightarrow> True | Some n \<Rightarrow> n_old n \<noteq> None \<or> n_new n \<noteq> None)"

lemma opt_list_simps [simp]: "opt_list f None = []" "opt_list f (Some x) = [f x]"
  by (simp_all add: opt_list_def)

lemma appendOne_diff:
  assumes "carries_entry r"
  shows "appendOne r = namespace_diff r"
proof (cases "r_event r")
  case (Some n)
  let ?old = "joinPath (r_directory r) (GetName (n_old n))" and ?new = "joinPath (newDir r n) (GetName (n_new n))"
  consider (create) y where "n_old n = None" "n_new n = Some y" | (delete) x where "n_old n = Some x" "n_new n = None"
    | (update) x y where "n_old n = Some x" "n_new n = Some y"
    using assms Some by (cases "n_old n"; cases "n_new n") (auto simp: carries_entry_def)
  then show ?thesis
  proof cases
    case create
    then show ?thesis using Some by (simp add: appendOne_def namespace_diff_def object_at_def GetName_def Let_def)
  next
    case delete
    then show ?thesis using Some by (simp add: appendOne_def namespace_diff_def object_at_def GetName_def Let_def)
  next
    case update
    have "splitObjectPath ?old \<noteq> splitObjectPath ?new \<or> splitObjectPath ?old = None" if "?old \<noteq> ?new"
      using splitObjectPath_inj that by (metis option.exhaust)
    then show ?thesis using Some update
      by (cases "?old = ?new"; cases "splitObjectPath ?old"; cases "splitObjectPath ?new")
         (auto simp: appendOne_def namespace_diff_def object_at_def GetName_def Let_def)
  qed
qed (simp add: appendOne_def namespace_diff_def)

lemma object_at_name: "object_at dir e = Some (b, k) \<Longrightarrow> object_name b k"
  by (auto simp: object_at_def splitObjectPath_Some split: option.splits if_splits)

lemma bucketRoot_name: "bucketRoot full = Some b \<Longrightarrow> b \<noteq> [] \<and> CHR ''/'' \<notin> set b \<and> \<not> isHidden b"
  by (auto simp: bucketRoot_def split: option.splits if_splits)

lemma diff_names:
  assumes "ch \<in> set (namespace_diff r)"
  shows "if ch_kind ch = ChangeBucketRemoved then ch_bucket ch \<noteq> [] \<and> CHR ''/'' \<notin> set (ch_bucket ch) \<and> \<not> isHidden (ch_bucket ch)
         else object_name (ch_bucket ch) (ch_key ch)"
proof -
  obtain n where n: "r_event r = Some n" using assms by (cases "r_event r") (auto simp: namespace_diff_def)
  let ?old = "object_at (r_directory r) (n_old n)" and ?neu = "object_at (newDir r n) (n_new n)"
  have "ch \<in> set (opt_list (removed (r_ts r)) ?old) \<or> ch \<in> set (opt_list (created (fileSize_of (n_new n)) (r_ts r)) ?neu)
      \<or> ch \<in> set (opt_list (bucket_removed (r_ts r)) (bucketRoot (joinPath (r_directory r) (GetName (n_old n)))))"
    using assms n by (auto simp: namespace_diff_def Let_def split: if_splits)
  then show ?thesis
  proof (elim disjE)
    assume "ch \<in> set (opt_list (removed (r_ts r)) ?old)"
    then show ?thesis using object_at_name[of "r_directory r" "n_old n"] by (cases ?old) (auto simp: removed_def)
  next
    assume "ch \<in> set (opt_list (created (fileSize_of (n_new n)) (r_ts r)) ?neu)"
    then show ?thesis using object_at_name[of "newDir r n" "n_new n"] by (cases ?neu) (auto simp: created_def)
  next
    assume "ch \<in> set (opt_list (bucket_removed (r_ts r)) (bucketRoot (joinPath (r_directory r) (GetName (n_old n)))))"
    then show ?thesis using bucketRoot_name[of "joinPath (r_directory r) (GetName (n_old n))"]
      by (cases "bucketRoot (joinPath (r_directory r) (GetName (n_old n)))") (auto simp: bucket_removed_def)
  qed
qed


definition sample_entry :: "string \<Rightarrow> bool \<Rightarrow> filer_entry" where
  "sample_entry name dir = \<lparr>e_name = name, e_directory = dir, e_extended = [], e_size = Some 7\<rparr>"

text \<open>A rename out of multipart staging, and the removal of a bucket's directory in the same batch.\<close>

definition sample_batch :: metadata_response where
  "sample_batch =
     \<lparr>r_directory = ''/buckets/data/.uploads/1'', r_event = Some \<lparr>n_old = Some (sample_entry ''p'' False), n_new = Some (sample_entry ''f'' False), n_parent = ''/buckets/data''\<rparr>,
      r_ts = 5,
      r_events = [\<lparr>r_directory = ''/buckets'', r_event = Some \<lparr>n_old = Some (sample_entry ''old'' True), n_new = None, n_parent = ''''\<rparr>, r_ts = 6\<rparr>]\<rparr>"


text \<open>
  A notification without either entry passes for an overwrite: the getters of an absent entry report a
  nameless file, and the change names the directory itself with a trailing slash.
\<close>

lemma empty_notification_reports_creation:
  "Translate (Some \<lparr>r_directory = ''/buckets/data/d'', r_event = Some \<lparr>n_old = None, n_new = None, n_parent = ''''\<rparr>, r_ts = 5, r_events = []\<rparr>)
     = [created 0 5 (''data'', ''d/'')]"
  by code_simp

text \<open>Heartbeats and flush reports carry no change.\<close>

lemma heartbeat_no_change: "IsIdleHeartbeat resp = Some ts \<Longrightarrow> Translate resp = [] \<and> 0 < ts"
  by (cases resp) (auto simp: IsIdleHeartbeat_def Translate_def appendOne_def filer_event.defs split: if_splits option.splits)

lemma ResumeFrom_range:
  assumes "0 \<le> declared" "declared < 2 ^ 63" "margin < 2 ^ 63"
  shows "0 \<le> ResumeFrom declared margin" "ResumeFrom declared margin \<le> declared"
  using assms int64_id[of "declared - margin"] int64_id[of declared] by (auto simp: ResumeFrom_def Let_def)

end
