(* ===== verification/Adapter.thy ===== *)
theory Adapter
  imports Filer Index
begin

text \<open>
  The storage event source of the control plane (controlplane/internal/storage/seaweedfs: adapter.go, readback.go,
  subscribe.go, and the store behind it in cmd/server/main.go).  One adapter follows the filer's metadata stream: every
  change is only a hint to read the object back, the fact read is applied to the index, and the time of a heartbeat becomes
  the persisted cursor.  The filer, the object store and the clock of the process are the outside, numbered
  by use; the database is the one of the index.
\<close>

section \<open>Configuration\<close>

record adapter_cfg =
  SourceID :: string
  ClientName :: string
  ClientID :: int
  ResumeMargin :: int
  ApplyMaxRetries :: int
  ApplyRetryBackoff :: int
  CursorFlushInterval :: int
  SelfCheckTimeout :: int

datatype cfg_error = NoSourceID | NoClientName | NegativeMargin | NegativeRetries | NegativeBackoff | NegativeFlush

definition DefaultResumeMargin :: int where "DefaultResumeMargin = 60000000000"
definition DefaultApplyMaxRetries :: int where "DefaultApplyMaxRetries = 8"
definition DefaultApplyRetryBackoff :: int where "DefaultApplyRetryBackoff = 1000000000"
definition DefaultCursorFlushInterval :: int where "DefaultCursorFlushInterval = 1000000000"

definition or_default :: "int \<Rightarrow> int \<Rightarrow> int" where
  "or_default d x = (if x = 0 then d else x)"

definition validate_adapter :: "adapter_cfg \<Rightarrow> cfg_error + adapter_cfg" where
  "validate_adapter c =
     (if SourceID c = '''' then Inl NoSourceID
      else if ClientName c = '''' then Inl NoClientName
      else
        let c = c\<lparr>ResumeMargin := or_default DefaultResumeMargin (ResumeMargin c)\<rparr>
        in if ResumeMargin c < 0 then Inl NegativeMargin
        else let c = c\<lparr>ApplyMaxRetries := or_default DefaultApplyMaxRetries (ApplyMaxRetries c)\<rparr>
        in if ApplyMaxRetries c < 0 then Inl NegativeRetries
        else let c = c\<lparr>ApplyRetryBackoff := or_default DefaultApplyRetryBackoff (ApplyRetryBackoff c)\<rparr>
        in if ApplyRetryBackoff c < 0 then Inl NegativeBackoff
        else let c = c\<lparr>CursorFlushInterval := or_default DefaultCursorFlushInterval (CursorFlushInterval c)\<rparr>
        in if CursorFlushInterval c < 0 then Inl NegativeFlush
        else Inr c)"

section \<open>State and outside\<close>

datatype head_result = HeadOk int string | HeadAbsent | HeadError string

text \<open>
  \<open>ad_head n b k\<close> answers the \<open>n\<close>-th HEAD; \<open>ad_cancelled n\<close> tells whether the \<open>n\<close>-th wait ended by cancellation; \<open>ad_clock n\<close> is the
  \<open>n\<close>-th reading of the process clock; \<open>ad_dial n\<close> is the failure to dial, if any, and \<open>ad_subscribe n since\<close> what the \<open>n\<close>-th subscription gives: a failure, or the
  responses received until the stream broke; \<open>ad_first_entry\<close> lists the first entry of a directory of the filer.
\<close>

record ad_env =
  ad_cp :: cp_env
  ad_head :: "nat \<Rightarrow> string \<Rightarrow> string \<Rightarrow> head_result"
  ad_cancelled :: "nat \<Rightarrow> bool"
  ad_clock :: "nat \<Rightarrow> int"
  ad_dial :: "nat \<Rightarrow> string option"
  ad_subscribe :: "nat \<Rightarrow> int \<Rightarrow> string + metadata_response list"
  ad_first_entry :: "string \<Rightarrow> string + string"

text \<open>\<open>ad_processed\<close> records the changes processed so far; the code keeps no such list.\<close>

record adapter =
  ad_ix :: indexer
  ad_epoch :: "32 word"
  ad_unknownBuckets :: "64 word"
  ad_lastFlush :: "int option"
  ad_heads :: nat
  ad_sleeps :: nat
  ad_ticks :: nat
  ad_streams :: nat
  ad_processed :: "storage_change list"

datatype ad_error = CtxDone | ClockFailed db_error | HeadFailed string | ApplyFailed sink_error | Exhausted int ad_error
  | CountFailed db_error | MarkFailed db_error | CursorFailed db_error | DialFailed string | SubscribeFailed string | RecvFailed

text \<open>An action of the index or a statement of the shared database, run inside the adapter.\<close>

definition on_index :: "(indexer \<Rightarrow> 'a \<times> indexer) \<Rightarrow> adapter \<Rightarrow> 'a \<times> adapter" where
  "on_index f s = (let (r, ix) = f (ad_ix s) in (r, s\<lparr>ad_ix := ix\<rparr>))"

section \<open>Cursors and marks in the database\<close>

definition cursor_of :: "string \<Rightarrow> catalog \<Rightarrow> int option" where
  "cursor_of src c = map_of (event_cursors c) src"

definition GetStorageEventCursor :: "string \<Rightarrow> catalog \<Rightarrow> int option" where
  "GetStorageEventCursor src c = cursor_of src c"

text \<open>\<^verbatim>\<open>DeclaredCursor\<close>: the stored value, \<open>None\<close> when there is no row.\<close>

definition DeclaredCursor :: "ad_env \<Rightarrow> string \<Rightarrow> adapter \<Rightarrow> (db_error + int option) \<times> adapter" where
  "DeclaredCursor e src s =
     (case on_index (sql (ad_cp e) (query (GetStorageEventCursor src))) s of
        (Inl ErrNoRows, s1) \<Rightarrow> (Inr None, s1)
      | (Inl err, s1) \<Rightarrow> (Inl err, s1)
      | (Inr v, s1) \<Rightarrow> (Inr (Some v), s1))"

definition UpsertStorageEventCursor :: "string \<Rightarrow> int \<Rightarrow> int \<Rightarrow> catalog \<Rightarrow> unit option \<times> catalog" where
  "UpsertStorageEventCursor src ts now c =
     (Some (), c\<lparr>event_cursors := upsert fst (\<lambda>old new. (fst old, max (snd old) (snd new))) (src, ts) (event_cursors c)\<rparr>)"

definition InsertStorageEventMark :: "event_mark \<Rightarrow> int \<Rightarrow> catalog \<Rightarrow> unit option \<times> catalog" where
  "InsertStorageEventMark mk now c = (Some (), c\<lparr>event_marks := event_marks c @ [mk]\<rparr>)"

definition CountActiveFileEntriesByBucketName :: "string \<Rightarrow> catalog \<Rightarrow> nat" where
  "CountActiveFileEntriesByBucketName name c =
     sum_list (map (\<lambda>b. count_where (\<lambda>fe. fe_bucket fe = b_id b \<and> fe_status fe \<noteq> FileStatusDeleted) (file_entries c))
       (select_where (\<lambda>b. b_name b = name) (buckets c)))"

definition SelectDBClockTimestamp :: "int \<Rightarrow> catalog \<Rightarrow> int option \<times> catalog" where
  "SelectDBClockTimestamp now c = (Some now, c)"

definition RecordMark :: "ad_env \<Rightarrow> event_mark \<Rightarrow> adapter \<Rightarrow> (db_error + unit) \<times> adapter" where
  "RecordMark e mk s = on_index (sql (ad_cp e) (InsertStorageEventMark mk)) s"

definition SaveCursor :: "ad_env \<Rightarrow> string \<Rightarrow> int \<Rightarrow> adapter \<Rightarrow> (db_error + unit) \<times> adapter" where
  "SaveCursor e src ts s = on_index (sql (ad_cp e) (UpsertStorageEventCursor src ts)) s"

section \<open>Reading back\<close>

definition readback_event :: "event_kind \<Rightarrow> storage_change \<Rightarrow> int \<Rightarrow> string \<Rightarrow> int \<Rightarrow> storage_event" where
  "readback_event kind ch sizeBytes etag obs =
     \<lparr>ev_kind = kind, ev_bucket = ch_bucket ch, ev_key = ch_key ch, ev_size = sizeBytes, ev_etag = etag,
      ev_observed_at = obs, ev_seq = '''', ev_source = ''storage_readback''\<rparr>"

definition readBack :: "ad_env \<Rightarrow> storage_change \<Rightarrow> adapter \<Rightarrow> (ad_error + storage_event) \<times> adapter" where
  "readBack e ch s =
     (case on_index (sql (ad_cp e) SelectDBClockTimestamp) s of
        (Inl err, s1) \<Rightarrow> (Inl (ClockFailed err), s1)
      | (Inr obs, s1) \<Rightarrow>
          (let s2 = s1\<lparr>ad_heads := Suc (ad_heads s1)\<rparr>
           in case ad_head e (ad_heads s1) (ch_bucket ch) (ch_key ch) of
                HeadAbsent \<Rightarrow> (Inr (readback_event KindObjectRemoved ch 0 '''' obs), s2)
              | HeadError msg \<Rightarrow> (Inl (HeadFailed msg), s2)
              | HeadOk sz etag \<Rightarrow> (Inr (readback_event KindObjectCreated ch sz etag obs), s2)))"

definition sameStateAsFact :: "storage_event \<Rightarrow> row_state \<Rightarrow> bool" where
  "sameStateAsFact ev st =
     (case ev_kind ev of
        KindObjectCreated \<Rightarrow> rst_found st \<and> rst_status st = Some FileStatusCompleted \<and> rst_size st = ev_size ev \<and> rst_etag st = ev_etag ev
      | KindObjectRemoved \<Rightarrow> \<not> rst_found st \<or> rst_status st = Some FileStatusDeleted
      | _ \<Rightarrow> False)"

definition sleep :: "ad_env \<Rightarrow> adapter \<Rightarrow> bool \<times> adapter" where
  "sleep e s = (ad_cancelled e (ad_sleeps s), s\<lparr>ad_sleeps := Suc (ad_sleeps s)\<rparr>)"

section \<open>Processing a change\<close>

text \<open>The retry loop of \<^verbatim>\<open>processChange\<close>: \<open>n\<close> attempts left, \<open>k\<close> made, the error of the last.\<close>

fun attempts :: "ad_env \<Rightarrow> adapter_cfg \<Rightarrow> storage_change \<Rightarrow> nat \<Rightarrow> nat \<Rightarrow> ad_error \<Rightarrow> adapter \<Rightarrow> (ad_error + unit) \<times> adapter" where
  "attempts e c ch 0 k lastErr s = (Inl (Exhausted (ApplyMaxRetries c + 1) lastErr), s)"
| "attempts e c ch (Suc n) k lastErr s =
     (case (if 0 < k then sleep e s else (False, s)) of
        (True, s0) \<Rightarrow> (Inl CtxDone, s0)
      | (False, s0) \<Rightarrow>
          (case readBack e ch s0 of
             (Inl err, s1) \<Rightarrow> attempts e c ch n (Suc k) err s1
           | (Inr ev, s1) \<Rightarrow>
               (case on_index (suppressionAware_Apply (ad_cp e) ev) s1 of
                  (Inr u, s2) \<Rightarrow> (Inr (), s2)
                | (Inl err, s2) \<Rightarrow>
                    if err = SinkIndex ErrUnknownBucket then (Inr (), s2\<lparr>ad_unknownBuckets := ad_unknownBuckets s2 + 1\<rparr>)
                    else if err = ErrSuppressed then
                      (case on_index (RowState (ad_cp e) (ev_bucket ev) (ev_key ev)) s2 of
                         (Inr st, s3) \<Rightarrow> if sameStateAsFact ev st then (Inr (), s3)
                                         else attempts e c ch n (Suc k) (ApplyFailed err) s3
                       | (Inl err', s3) \<Rightarrow> attempts e c ch n (Suc k) (ApplyFailed err) s3)
                    else attempts e c ch n (Suc k) (ApplyFailed err) s2)))"

definition handleBucketRemoved :: "ad_env \<Rightarrow> adapter_cfg \<Rightarrow> storage_change \<Rightarrow> adapter \<Rightarrow> (ad_error + unit) \<times> adapter" where
  "handleBucketRemoved e c ch s =
     (case on_index (sql (ad_cp e) (query (Some \<circ> CountActiveFileEntriesByBucketName (ch_bucket ch)))) s of
        (Inl err, s1) \<Rightarrow> (Inl (CountFailed err), s1)
      | (Inr n, s1) \<Rightarrow>
          (case RecordMark e \<lparr>mk_source = SourceID c, mk_reason = ''bucket_removed'', mk_bucket = Some (ch_bucket ch), mk_from = None,
                  mk_to = None, mk_detail = [(''active_entries'', DetailNumber (int n))]\<rparr> s1 of
             (Inl err, s2) \<Rightarrow> (Inl (MarkFailed err), s2)
           | (Inr u, s2) \<Rightarrow> (Inr (), s2)))"

definition processChange :: "ad_env \<Rightarrow> adapter_cfg \<Rightarrow> storage_change \<Rightarrow> adapter \<Rightarrow> (ad_error + unit) \<times> adapter" where
  "processChange e c ch s =
     (if ch_kind ch = ChangeBucketRemoved then handleBucketRemoved e c ch s
      else attempts e c ch (nat (ApplyMaxRetries c + 1)) 0 CtxDone s)"

section \<open>The stream\<close>

definition recordGapWindow :: "ad_env \<Rightarrow> adapter_cfg \<Rightarrow> int \<Rightarrow> int \<Rightarrow> adapter \<Rightarrow> (ad_error + unit) \<times> adapter" where
  "recordGapWindow e c declared ts s =
     (let (from_ts, to_ts) = GapWindow declared ts (ResumeMargin c)
      in case RecordMark e \<lparr>mk_source = SourceID c, mk_reason = ''gap'', mk_bucket = None, mk_from = Some from_ts, mk_to = Some to_ts, mk_detail = []\<rparr> s of
           (Inl err, s1) \<Rightarrow> (Inl (MarkFailed err), s1)
         | (Inr u, s1) \<Rightarrow> (Inr (), s1))"

text \<open>The result is the new value of \<^verbatim>\<open>*lastDeclared\<close>.\<close>

definition persistCursor :: "ad_env \<Rightarrow> adapter_cfg \<Rightarrow> int \<Rightarrow> int \<Rightarrow> adapter \<Rightarrow> (ad_error + int) \<times> adapter" where
  "persistCursor e c declared ts s =
     (if ts \<le> declared then (Inr declared, s)
      else
        let throttled = (case ad_lastFlush s of None \<Rightarrow> False | Some t \<Rightarrow> ad_clock e (ad_ticks s) - t < CursorFlushInterval c);
            s1 = (if ad_lastFlush s = None then s else s\<lparr>ad_ticks := Suc (ad_ticks s)\<rparr>)
        in if throttled then (Inr declared, s1)
           else case SaveCursor e (SourceID c) ts s1 of
                  (Inl err, s2) \<Rightarrow> (Inl (CursorFailed err), s2)
                | (Inr u, s2) \<Rightarrow> (Inr ts, s2\<lparr>ad_lastFlush := Some (ad_clock e (ad_ticks s2)), ad_ticks := Suc (ad_ticks s2)\<rparr>))"

fun process_changes :: "ad_env \<Rightarrow> adapter_cfg \<Rightarrow> storage_change list \<Rightarrow> adapter \<Rightarrow> (ad_error + unit) \<times> adapter" where
  "process_changes e c [] s = (Inr (), s)"
| "process_changes e c (ch # chs) s =
     (case processChange e c ch s of
        (Inl err, s1) \<Rightarrow> (Inl err, s1)
      | (Inr u, s1) \<Rightarrow> process_changes e c chs (s1\<lparr>ad_processed := ad_processed s1 @ [ch]\<rparr>))"

text \<open>The receive loop of \<^verbatim>\<open>runStream\<close> over the responses until the stream breaks: its error and \<^verbatim>\<open>*lastDeclared\<close>.\<close>

fun stream_loop :: "ad_env \<Rightarrow> adapter_cfg \<Rightarrow> bool \<Rightarrow> int \<Rightarrow> metadata_response list \<Rightarrow> adapter \<Rightarrow> ad_error \<times> int \<times> adapter" where
  "stream_loop e c firstHeartbeat declared [] s = (RecvFailed, declared, s)"
| "stream_loop e c firstHeartbeat declared (resp # rest) s =
     (case IsIdleHeartbeat (Some resp) of
        Some ts \<Rightarrow>
          (case (if firstHeartbeat then recordGapWindow e c declared ts s else (Inr (), s)) of
             (Inl err, s1) \<Rightarrow> (err, declared, s1)
           | (Inr u, s1) \<Rightarrow>
               (case persistCursor e c declared ts s1 of
                  (Inl err, s2) \<Rightarrow> (err, declared, s2)
                | (Inr declared', s2) \<Rightarrow> stream_loop e c False declared' rest s2))
      | None \<Rightarrow>
          (case process_changes e c (Translate (Some resp)) s of
             (Inl err, s1) \<Rightarrow> (err, declared, s1)
           | (Inr u, s1) \<Rightarrow> stream_loop e c firstHeartbeat declared rest s1))"

definition runStream :: "ad_env \<Rightarrow> adapter_cfg \<Rightarrow> int \<Rightarrow> adapter \<Rightarrow> ad_error \<times> int \<times> adapter" where
  "runStream e c declared s =
     (let n = ad_streams s; s1 = s\<lparr>ad_streams := Suc n\<rparr>
      in case ad_dial e n of
           Some msg \<Rightarrow> (DialFailed msg, declared, s1)
         | None \<Rightarrow>
             (let s2 = s1\<lparr>ad_epoch := ad_epoch s1 + 1\<rparr>
              in case ad_subscribe e n (ResumeFrom declared (ResumeMargin c)) of
                   Inl msg \<Rightarrow> (SubscribeFailed msg, declared, s2)
                 | Inr resps \<Rightarrow> stream_loop e c True declared resps s2))"

section \<open>The run loop\<close>

definition selfCheck :: "ad_env \<Rightarrow> adapter_cfg \<Rightarrow> int \<Rightarrow> adapter \<Rightarrow> adapter" where
  "selfCheck e c cursor s =
     (case ad_first_entry e systemLogDir of
        Inl msg \<Rightarrow> s
      | Inr earliest \<Rightarrow>
          (let name = (if CHR ''/'' \<in> set earliest then earliest
                       else case ad_first_entry e (systemLogDir @ ''/'' @ earliest) of
                              Inl msg \<Rightarrow> earliest
                            | Inr dayEarliest \<Rightarrow> if dayEarliest = '''' then earliest else earliest @ ''/'' @ dayEarliest)
           in case CursorBeforeEarliestLog cursor name of
                Inl err \<Rightarrow> s
              | Inr before \<Rightarrow>
                  if \<not> before then s
                  else snd (RecordMark e \<lparr>mk_source = SourceID c, mk_reason = ''cursor_before_earliest_log'', mk_bucket = None, mk_from = None,
                         mk_to = None, mk_detail = [(''cursor'', DetailNumber cursor), (''earliest_log'', DetailString name)]\<rparr> s)))"

text \<open>Loading the cursor, with at most \<open>n\<close> tries; \<open>None\<close> while no try has succeeded or when the context is done.\<close>

fun load_cursor :: "ad_env \<Rightarrow> adapter_cfg \<Rightarrow> nat \<Rightarrow> adapter \<Rightarrow> int option option \<times> adapter" where
  "load_cursor e c 0 s = (None, s)"
| "load_cursor e c (Suc n) s =
     (case DeclaredCursor e (SourceID c) s of
        (Inr v, s1) \<Rightarrow> (Some v, s1)
      | (Inl err, s1) \<Rightarrow> (case sleep e s1 of (True, s2) \<Rightarrow> (None, s2) | (False, s2) \<Rightarrow> load_cursor e c n s2))"

fun stream_rounds :: "ad_env \<Rightarrow> adapter_cfg \<Rightarrow> nat \<Rightarrow> int \<Rightarrow> adapter \<Rightarrow> int \<times> adapter" where
  "stream_rounds e c 0 declared s = (declared, s)"
| "stream_rounds e c (Suc n) declared s =
     (case runStream e c declared s of (err, declared', s1) \<Rightarrow>
        (case sleep e s1 of (True, s2) \<Rightarrow> (declared', s2) | (False, s2) \<Rightarrow> stream_rounds e c n declared' s2))"

text \<open>
  \<^verbatim>\<open>Run\<close> never ends by itself: \<open>Run e c tries rounds\<close> is what it has done after at most so many tries to load the cursor
  and so many subscriptions, fewer when the context was cancelled in between.
\<close>

definition Run :: "ad_env \<Rightarrow> adapter_cfg \<Rightarrow> nat \<Rightarrow> nat \<Rightarrow> adapter \<Rightarrow> adapter" where
  "Run e c tries rounds s =
     (case load_cursor e c tries s of
        (None, s1) \<Rightarrow> s1
      | (Some None, s1) \<Rightarrow> snd (stream_rounds e c rounds 0 s1)
      | (Some (Some declared), s1) \<Rightarrow> snd (stream_rounds e c rounds declared (selfCheck e c declared s1)))"

end
