(* ===== verification/Adapter_Laws.thy ===== *)
theory Adapter_Laws
  imports Adapter Index_Laws
begin

text \<open>
  What the storage event source guarantees: the persisted cursor is a claim of completeness and never moves back, a change
  counts as processed only once the index agrees with what was read back from the object store, and facts follow the
  store, not the event.
\<close>

section \<open>What leaves the cursor alone\<close>

text \<open>No other session writes the cursor of this source.\<close>

definition cursor_owner :: "string \<Rightarrow> cp_env \<Rightarrow> bool" where
  "cursor_owner src e \<longleftrightarrow> (\<forall>k c. cursor_of src (cp_meanwhile e k c) = cursor_of src c)"

abbreviation ix_cursor :: "string \<Rightarrow> indexer \<Rightarrow> int option" where
  "ix_cursor src s \<equiv> cursor_of src (ix_db s)"

abbreviation ad_cursor :: "string \<Rightarrow> adapter \<Rightarrow> int option" where
  "ad_cursor src s \<equiv> ix_cursor src (ad_ix s)"

lemma sql_cursor:
  assumes "cursor_owner src e" "\<And>now c. event_cursors (snd (st now c)) = event_cursors c" "sql e st s = (r, s')"
  shows "ix_cursor src s' = ix_cursor src s"
proof -
  have "cursor_of src (snd (st now c)) = cursor_of src c" for now c using assms(2) by (simp add: cursor_of_def)
  then show ?thesis using assms(1,3)
    by (auto simp: sql_def cursor_owner_def Let_def split: prod.splits option.splits db_fault.splits) (metis snd_conv)+
qed

lemma statement_cursor [simp]:
  "event_cursors (snd (query q now c)) = event_cursors c"
  "event_cursors (snd (UpsertIndexedFile le p now c)) = event_cursors c"
  "event_cursors (snd (DeleteIndexedFile le d now c)) = event_cursors c"
  "event_cursors (snd (InsertStorageEventMark mk now c)) = event_cursors c"
  "event_cursors (snd (SelectDBClockTimestamp now c)) = event_cursors c"
  by (auto simp: query_def UpsertIndexedFile_def DeleteIndexedFile_def put_entry_def InsertStorageEventMark_def
      SelectDBClockTimestamp_def Let_def split: option.splits)

lemmas query_cursor = sql_cursor[OF _ statement_cursor(1)]

lemma write_cursor:
  assumes "cursor_owner src e"
  shows "UpsertObservedFile e p s = (r, s') \<Longrightarrow> ix_cursor src s' = ix_cursor src s"
    and "MarkObservedFileDeleted e d s = (r', s') \<Longrightarrow> ix_cursor src s' = ix_cursor src s"
proof -
  show "ix_cursor src s' = ix_cursor src s" if u: "UpsertObservedFile e p s = (r, s')"
  proof -
    obtain r1 s1 where 1: "sql e (UpsertIndexedFile (cp_collate e) p) s = (r1, s1)" by fastforce
    obtain r2 s2 where 2: "sql e (query (GetIndexedFileByKey (p_bucket p, p_storage_path p))) s1 = (r2, s2)" by fastforce
    have "s' = s1 \<or> s' = s2" using u 1 2 by (auto simp: UpsertObservedFile_def split: sum.splits db_error.splits)
    then show ?thesis using sql_cursor[OF assms statement_cursor(2) 1] query_cursor[OF assms 2] by auto
  qed
  show "ix_cursor src s' = ix_cursor src s" if d: "MarkObservedFileDeleted e d s = (r', s')"
  proof -
    obtain r1 s1 where 1: "sql e (DeleteIndexedFile (cp_collate e) d) s = (r1, s1)" by fastforce
    obtain r2 s2 where 2: "sql e (query (GetIndexedFileByKey (d_bucket d, d_storage_path d))) s1 = (r2, s2)" by fastforce
    have "s' = s1 \<or> s' = s2" using d 1 2 by (auto simp: MarkObservedFileDeleted_def split: sum.splits db_error.splits)
    then show ?thesis using sql_cursor[OF assms statement_cursor(3) 1] query_cursor[OF assms 2] by auto
  qed
qed

lemma classify_cursor: "cursor_owner src e \<Longrightarrow> classify_or_Nil e path s = (t, s') \<Longrightarrow> ix_cursor src s' = ix_cursor src s"
  by (auto simp: classify_or_Nil_def Classify_def split: prod.splits sum.splits dest: query_cursor)

lemma upload_cursor:
  assumes "cursor_owner src e" "IndexUploadReporting e b k sz et obs sq so s = (r, s')"
  shows "ix_cursor src s' = ix_cursor src s"
proof -
  obtain r1 s1 where 1: "sql e (query (GetBucketByName DefaultOrgID b)) s = (r1, s1)" by fastforce
  obtain ft s2 where 2: "classify_or_Nil e k s1 = (ft, s2)" by fastforce
  have "ix_db s' = ix_db s1 \<or> (\<exists>p r3 s3. UpsertObservedFile e p s2 = (r3, s3) \<and> ix_db s' = ix_db s3)"
    using assms(2) 1 2 by (auto simp: IndexUploadReporting_def split: sum.splits prod.splits if_splits) blast+
  then show ?thesis using query_cursor[OF assms(1) 1] classify_cursor[OF assms(1) 2] write_cursor(1)[OF assms(1)] by fastforce
qed

lemma deletion_cursor:
  assumes "cursor_owner src e" "IndexDeletionReporting e b k obs sq so s = (r, s')"
  shows "ix_cursor src s' = ix_cursor src s"
proof -
  obtain r1 s1 where 1: "sql e (query (GetBucketByName DefaultOrgID b)) s = (r1, s1)" by fastforce
  have "ix_db s' = ix_db s1 \<or> (\<exists>d r3 s3. MarkObservedFileDeleted e d s1 = (r3, s3) \<and> ix_db s' = ix_db s3)"
    using assms(2) 1 by (auto simp: IndexDeletionReporting_def split: sum.splits prod.splits if_splits option.splits) (metis publish_db(3))+
  then show ?thesis using query_cursor[OF assms(1) 1] write_cursor(2)[OF assms(1)] by fastforce
qed

lemma apply_cursor:
  assumes "cursor_owner src e" "suppressionAware_Apply e ev s = (r, s')"
  shows "ix_cursor src s' = ix_cursor src s"
  using assms upload_cursor deletion_cursor
  by (auto simp: suppressionAware_Apply_def suppression_result_def split: if_splits event_kind.splits prod.splits sum.splits)

lemma rowstate_cursor:
  assumes "cursor_owner src e" "RowState e b k s = (r, s')"
  shows "ix_cursor src s' = ix_cursor src s"
proof -
  obtain r1 s1 where 1: "sql e (query (GetBucketByName DefaultOrgID b)) s = (r1, s1)" by fastforce
  have "s' = s1 \<or> (\<exists>(q :: catalog \<Rightarrow> file_entry option) r3. sql e (query q) s1 = (r3, s'))"
    using assms(2) 1 by (auto simp: RowState_def split: sum.splits prod.splits db_error.splits)
  then show ?thesis
  proof (elim disjE exE)
    fix q :: "catalog \<Rightarrow> file_entry option" and r3
    assume "sql e (query q) s1 = (r3, s')"
    from query_cursor[OF assms(1) this] show ?thesis using query_cursor[OF assms(1) 1] by simp
  qed (use query_cursor[OF assms(1) 1] in simp)
qed


text \<open>\<open>quiet src s s'\<close>: the cursor and the record of processed changes are the same.\<close>

definition quiet :: "string \<Rightarrow> adapter \<Rightarrow> adapter \<Rightarrow> bool" where
  "quiet src s s' \<longleftrightarrow> ad_cursor src s' = ad_cursor src s \<and> ad_processed s' = ad_processed s"

lemma quiet_refl [simp]: "quiet src s s"
  by (simp add: quiet_def)

lemma quiet_trans: "quiet src s s1 \<Longrightarrow> quiet src s1 s2 \<Longrightarrow> quiet src s s2"
  by (simp add: quiet_def)

lemma quiet_counters [simp]:
  "quiet src s (s'\<lparr>ad_heads := n\<rparr>) = quiet src s s'" "quiet src s (s'\<lparr>ad_sleeps := n\<rparr>) = quiet src s s'"
  "quiet src s (s'\<lparr>ad_ticks := n\<rparr>) = quiet src s s'" "quiet src s (s'\<lparr>ad_unknownBuckets := w\<rparr>) = quiet src s s'"
  "quiet src s (s'\<lparr>ad_streams := n\<rparr>) = quiet src s s'" "quiet src s (s'\<lparr>ad_epoch := v\<rparr>) = quiet src s s'"
  "quiet src s (s'\<lparr>ad_lastFlush := t\<rparr>) = quiet src s s'"
  by (simp_all add: quiet_def)

lemma on_index_quiet:
  assumes "\<And>r ix. f (ad_ix s) = (r, ix) \<Longrightarrow> ix_cursor src ix = ix_cursor src (ad_ix s)" "on_index f s = (r, s')"
  shows "quiet src s s'"
  using assms by (auto simp: on_index_def quiet_def split: prod.splits)

lemma sql_quiet:
  assumes "cursor_owner src (ad_cp e)" "\<And>now c. event_cursors (snd (st now c)) = event_cursors c"
    "on_index (sql (ad_cp e) st) s = (r, s')"
  shows "quiet src s s'"
  by (rule on_index_quiet[OF _ assms(3)]) (rule sql_cursor[OF assms(1,2)])

lemma sleep_quiet: "sleep e s = (b, s') \<Longrightarrow> quiet src s s'"
  by (auto simp: sleep_def)

lemma mark_quiet: "cursor_owner src (ad_cp e) \<Longrightarrow> RecordMark e mk s = (r, s') \<Longrightarrow> quiet src s s'"
  unfolding RecordMark_def by (rule sql_quiet[OF _ statement_cursor(4)])

lemma readBack_quiet:
  assumes "cursor_owner src (ad_cp e)" "readBack e ch s = (r, s')"
  shows "quiet src s s'"
proof -
  obtain r1 s1 where 1: "on_index (sql (ad_cp e) SelectDBClockTimestamp) s = (r1, s1)" by fastforce
  have "quiet src s s1" by (rule sql_quiet[OF assms(1) statement_cursor(5) 1])
  then show ?thesis using assms(2) 1 by (auto simp: readBack_def Let_def split: sum.splits head_result.splits)
qed

lemma attempts_quiet:
  assumes own: "cursor_owner src (ad_cp e)" and r: "attempts e c ch n k lastErr s = (r, s')"
  shows "quiet src s s'"
  using r
proof (induction n arbitrary: k lastErr s)
  case (Suc n)
  obtain b s0 where 0: "(if 0 < k then sleep e s else (False, s)) = (b, s0)" by fastforce
  have q0: "quiet src s s0" using 0 sleep_quiet[of e s] by (auto split: if_splits)
  show ?case
  proof (cases b)
    case False
    obtain r1 s1 where 1: "readBack e ch s0 = (r1, s1)" by fastforce
    have q1: "quiet src s s1" using quiet_trans[OF q0 readBack_quiet[OF own 1]] .
    show ?thesis
    proof (cases r1)
      case (Inl err)
      then show ?thesis using Suc.prems 0 1 False quiet_trans[OF q1 Suc.IH] by simp
    next
      case (Inr ev)
      obtain r2 s2 where 2: "on_index (suppressionAware_Apply (ad_cp e) ev) s1 = (r2, s2)" by fastforce
      have q2: "quiet src s s2" using quiet_trans[OF q1 on_index_quiet[OF apply_cursor[OF own] 2]] .
      obtain r3 s3 where 3: "on_index (RowState (ad_cp e) (ev_bucket ev) (ev_key ev)) s2 = (r3, s3)" by fastforce
      have q3: "quiet src s s3" using quiet_trans[OF q2 on_index_quiet[OF rowstate_cursor[OF own] 3]] .
      have "s' = s2 \<or> s' = s2\<lparr>ad_unknownBuckets := ad_unknownBuckets s2 + 1\<rparr> \<or> s' = s3
          \<or> (\<exists>err. attempts e c ch n (Suc k) err s2 = (r, s') \<or> attempts e c ch n (Suc k) err s3 = (r, s'))"
        using Suc.prems 0 1 2 3 False Inr by (auto split: sum.splits if_splits)
      then show ?thesis using q2 q3 quiet_trans[OF q2 Suc.IH] quiet_trans[OF q3 Suc.IH] by auto
    qed
  qed (use Suc.prems 0 q0 in auto)
qed simp

lemma processChange_quiet:
  assumes own: "cursor_owner src (ad_cp e)" and r: "processChange e c ch s = (r, s')"
  shows "quiet src s s'"
proof (cases "ch_kind ch = ChangeBucketRemoved")
  case True
  obtain r1 s1 where 1: "on_index (sql (ad_cp e) (query (Some \<circ> CountActiveFileEntriesByBucketName (ch_bucket ch)))) s = (r1, s1)" by fastforce
  have q1: "quiet src s s1" by (rule sql_quiet[OF own statement_cursor(1) 1])
  have "s' = s1 \<or> (\<exists>mk r2. RecordMark e mk s1 = (r2, s'))"
    using r 1 True by (auto simp: processChange_def handleBucketRemoved_def split: sum.splits prod.splits)
  then show ?thesis using q1 quiet_trans[OF q1 mark_quiet[OF own]] by blast
qed (use r attempts_quiet[OF own] in \<open>auto simp: processChange_def\<close>)

lemma process_changes_effect:
  assumes own: "cursor_owner src (ad_cp e)" and r: "process_changes e c chs s = (r, s')"
  shows "ad_cursor src s' = ad_cursor src s" "set (ad_processed s) \<subseteq> set (ad_processed s')"
    "r = Inr () \<Longrightarrow> set chs \<subseteq> set (ad_processed s')"
proof -
  have "ad_cursor src s' = ad_cursor src s \<and> set (ad_processed s) \<subseteq> set (ad_processed s') \<and> (r = Inr () \<longrightarrow> set chs \<subseteq> set (ad_processed s'))"
    using r
  proof (induction chs arbitrary: s)
    case (Cons ch chs)
    obtain r1 s1 where 1: "processChange e c ch s = (r1, s1)" by fastforce
    have q: "quiet src s s1" by (rule processChange_quiet[OF own 1])
    show ?case
    proof (cases r1)
      case (Inl err)
      then show ?thesis using Cons.prems 1 q by (auto simp: quiet_def)
    next
      case (Inr u)
      then show ?thesis using Cons.IH[of "s1\<lparr>ad_processed := ad_processed s1 @ [ch]\<rparr>"] Cons.prems 1 q by (auto simp: quiet_def)
    qed
  qed simp
  then show "ad_cursor src s' = ad_cursor src s" "set (ad_processed s) \<subseteq> set (ad_processed s')"
    "r = Inr () \<Longrightarrow> set chs \<subseteq> set (ad_processed s')" by auto
qed


section \<open>The cursor is a claim of completeness\<close>

definition carries :: "metadata_response \<Rightarrow> filer_event \<Rightarrow> bool" where
  "carries resp ev \<longleftrightarrow> ev = filer_event.truncate resp \<or> ev \<in> set (r_events resp)"

text \<open>
  What the filer documents of an idle heartbeat on its local stream, for the log of all its events: no event at or below the
  heartbeat and above the subscription's start arrives after it.
\<close>

definition filer_contract :: "ad_env \<Rightarrow> filer_event set \<Rightarrow> bool" where
  "filer_contract e log \<longleftrightarrow>
     (\<forall>ev\<in>log. 0 < r_ts ev)
     \<and> (\<forall>n since resps i h. ad_subscribe e n since = Inr resps \<longrightarrow> i < length resps \<longrightarrow> IsIdleHeartbeat (Some (resps ! i)) = Some h
          \<longrightarrow> h < 2 ^ 63 \<and> (\<forall>ev\<in>log. since < r_ts ev \<longrightarrow> r_ts ev \<le> h \<longrightarrow> (\<exists>j<i. carries (resps ! j) ev)))"

text \<open>All changes of the event have been processed; so have those of all events up to a time.\<close>

definition handled :: "adapter \<Rightarrow> filer_event \<Rightarrow> bool" where
  "handled s ev \<longleftrightarrow> set (appendOne ev) \<subseteq> set (ad_processed s)"

definition complete :: "filer_event set \<Rightarrow> adapter \<Rightarrow> int \<Rightarrow> bool" where
  "complete log s t \<longleftrightarrow> (\<forall>ev\<in>log. r_ts ev \<le> t \<longrightarrow> handled s ev)"

definition cursor_claim :: "filer_event set \<Rightarrow> string \<Rightarrow> adapter \<Rightarrow> bool" where
  "cursor_claim log src s \<longleftrightarrow> (\<forall>v. ad_cursor src s = Some v \<longrightarrow> complete log s v)"

definition cursor_forward :: "string \<Rightarrow> adapter \<Rightarrow> adapter \<Rightarrow> bool" where
  "cursor_forward src s s' \<longleftrightarrow> (\<forall>v. ad_cursor src s = Some v \<longrightarrow> (\<exists>v'. ad_cursor src s' = Some v' \<and> v \<le> v'))"

lemma complete_grow: "complete log s t \<Longrightarrow> set (ad_processed s) \<subseteq> set (ad_processed s') \<Longrightarrow> complete log s' t"
  by (auto simp: complete_def handled_def)

lemma cursor_claim_grow:
  "cursor_claim log src s \<Longrightarrow> ad_cursor src s' = ad_cursor src s \<Longrightarrow> set (ad_processed s) \<subseteq> set (ad_processed s') \<Longrightarrow> cursor_claim log src s'"
  using complete_grow by (auto simp: cursor_claim_def)

lemma cursor_forward_same: "ad_cursor src s' = ad_cursor src s \<Longrightarrow> cursor_forward src s s'"
  by (simp add: cursor_forward_def)

lemma cursor_forward_trans: "cursor_forward src s s1 \<Longrightarrow> cursor_forward src s1 s2 \<Longrightarrow> cursor_forward src s s2"
  unfolding cursor_forward_def by (meson order_trans)

lemma map_of_update: "map_of (map (\<lambda>p. if fst p = k then (fst p, f (snd p)) else p) t) k = map_option f (map_of t k)"
  by (induction t) auto

lemma map_of_snoc_new: "k \<notin> fst ` set t \<Longrightarrow> map_of (t @ [(k, v)]) k = Some v"
  by (induction t) auto

lemma upsert_cursor_of:
  "cursor_of src (snd (UpsertStorageEventCursor src ts now c)) = Some (case cursor_of src c of None \<Rightarrow> ts | Some v \<Rightarrow> max v ts)"
proof (cases "cursor_of src c")
  case None
  then have "src \<notin> fst ` set (event_cursors c)" by (simp add: cursor_of_def map_of_eq_None_iff)
  moreover from this have "\<not> exists_where (\<lambda>r. fst r = src) (event_cursors c)" by (auto simp: exists_where_iff)
  ultimately show ?thesis using None map_of_snoc_new[of src "event_cursors c" ts]
    by (simp add: cursor_of_def UpsertStorageEventCursor_def upsert_def del: map_of_append)
next
  case (Some v)
  then have "exists_where (\<lambda>r. fst r = src) (event_cursors c)"
    by (auto simp: cursor_of_def exists_where_iff dest: map_of_SomeD intro: bexI[of _ "(src, v)"])
  moreover have "(\<lambda>r. if fst r = src then (fst r, max (snd r) ts) else r) = (\<lambda>p. if fst p = src then (fst p, (\<lambda>x. max x ts) (snd p)) else p)" by auto
  ultimately show ?thesis using Some map_of_update[of src "\<lambda>x. max x ts" "event_cursors c"]
    by (simp add: cursor_of_def UpsertStorageEventCursor_def upsert_def update_where_def)
qed

definition raised :: "int \<Rightarrow> int option \<Rightarrow> int option" where
  "raised ts v = Some (case v of None \<Rightarrow> ts | Some v \<Rightarrow> max v ts)"

lemma SaveCursor_effect:
  assumes own: "cursor_owner src (ad_cp e)" and r: "SaveCursor e src ts s = (r, s')"
  shows "ad_processed s' = ad_processed s" "ad_cursor src s' = ad_cursor src s \<or> ad_cursor src s' = raised ts (ad_cursor src s)"
proof -
  obtain r1 ix where 1: "sql (ad_cp e) (UpsertStorageEventCursor src ts) (ad_ix s) = (r1, ix)" by fastforce
  have up: "cursor_of src c' = raised ts (cursor_of src c)" if "UpsertStorageEventCursor src ts now c = (r', c')" for now c r' c'
    using upsert_cursor_of[of src ts now c] that by (simp add: raised_def)
  have m: "cursor_of src (cp_meanwhile (ad_cp e) k c) = cursor_of src c" for k c using own by (simp add: cursor_owner_def)
  have "ix_cursor src ix = ix_cursor src (ad_ix s) \<or> ix_cursor src ix = raised ts (ix_cursor src (ad_ix s))"
    using 1 by (auto simp: sql_def Let_def m up split: prod.splits option.splits db_fault.splits)
  then show "ad_processed s' = ad_processed s" "ad_cursor src s' = ad_cursor src s \<or> ad_cursor src s' = raised ts (ad_cursor src s)"
    using r 1 by (auto simp: SaveCursor_def on_index_def)
qed

lemma persistCursor_effect:
  assumes own: "cursor_owner (SourceID c) (ad_cp e)" and r: "persistCursor e c declared ts s = (r, s')"
    and t: "complete log s ts" "cursor_claim log (SourceID c) s"
  shows "ad_processed s' = ad_processed s" "cursor_claim log (SourceID c) s'" "cursor_forward (SourceID c) s s'"
    "r = Inr d \<Longrightarrow> d = declared \<or> d = ts \<and> declared < ts"
proof -
  let ?src = "SourceID c"
  let ?s1 = "if ad_lastFlush s = None then s else s\<lparr>ad_ticks := Suc (ad_ticks s)\<rparr>"
  obtain r2 s2 where 2: "SaveCursor e ?src ts ?s1 = (r2, s2)" by fastforce
  note sv = SaveCursor_effect[OF own 2]
  have pre: "ad_processed ?s1 = ad_processed s" "ad_cursor ?src ?s1 = ad_cursor ?src s" by simp_all
  have s': "(ad_processed s' = ad_processed s \<and> ad_cursor ?src s' = ad_cursor ?src s) \<or> (ad_processed s' = ad_processed s2 \<and> ad_cursor ?src s' = ad_cursor ?src s2)"
    using r 2 by (auto simp: persistCursor_def Let_def split: if_splits sum.splits option.splits prod.splits)
  show p: "ad_processed s' = ad_processed s" using s' sv(1) pre by auto
  have cur: "ad_cursor ?src s' = ad_cursor ?src s \<or> ad_cursor ?src s' = raised ts (ad_cursor ?src s)"
    using s' sv(2) pre by auto
  have c: "complete log s' v" if "complete log s v" for v using that p by (simp add: complete_def handled_def)
  show "cursor_claim log ?src s'" using cur t c unfolding cursor_claim_def raised_def by (auto simp: max_def split: option.splits)
  show "cursor_forward ?src s s'" using cur by (auto simp: cursor_forward_def raised_def)
  show "r = Inr d \<Longrightarrow> d = declared \<or> d = ts \<and> declared < ts"
    using r by (auto simp: persistCursor_def Let_def split: if_splits sum.splits option.splits prod.splits)
qed


text \<open>\<open>sound\<close>: what holds between two responses; \<open>declared\<close> is the last declared cursor of the run.\<close>

definition sound :: "filer_event set \<Rightarrow> string \<Rightarrow> int \<Rightarrow> adapter \<Rightarrow> bool" where
  "sound log src declared s \<longleftrightarrow> complete log s declared \<and> cursor_claim log src s \<and> 0 \<le> declared \<and> declared < 2 ^ 63"

lemma sound_quiet: "sound log src d s \<Longrightarrow> quiet src s s' \<Longrightarrow> sound log src d s'"
  unfolding sound_def quiet_def using complete_grow[of log s d s'] cursor_claim_grow[of log src s s'] by auto

lemma forward_quiet: "quiet src s s' \<Longrightarrow> cursor_forward src s s'"
  by (simp add: quiet_def cursor_forward_def)

lemma set_Translate: "set (Translate (Some resp)) = (\<Union>ev\<in>{ev. carries resp ev}. set (appendOne ev))"
  by (auto simp: Translate_def carries_def)

lemma gap_quiet: "cursor_owner src (ad_cp e) \<Longrightarrow> recordGapWindow e c d ts s = (r, s') \<Longrightarrow> quiet src s s'"
  by (auto simp: recordGapWindow_def Let_def split: prod.splits sum.splits dest: mark_quiet)

lemma stream_loop_sound:
  assumes own: "cursor_owner (SourceID c) (ad_cp e)" and filer: "filer_contract e log"
  shows "ad_subscribe e n since = Inr (seen @ rest) \<Longrightarrow> \<forall>resp\<in>set seen. \<forall>ev. carries resp ev \<longrightarrow> handled s ev
    \<Longrightarrow> complete log s since \<Longrightarrow> sound log (SourceID c) declared s \<Longrightarrow> stream_loop e c first declared rest s = (err, d', s')
    \<Longrightarrow> sound log (SourceID c) d' s' \<and> cursor_forward (SourceID c) s s'"
proof (induction rest arbitrary: seen first declared s)
  case Nil
  then show ?case by (simp add: cursor_forward_def)
next
  case (Cons resp rest)
  let ?src = "SourceID c"
  have grown: "ad_subscribe e n since = Inr ((seen @ [resp]) @ rest)" using Cons.prems(1) by simp
  show ?case
  proof (cases "IsIdleHeartbeat (Some resp)")
    case None
    obtain r1 s1 where 1: "process_changes e c (Translate (Some resp)) s = (r1, s1)" by fastforce
    note pc = process_changes_effect[OF own 1]
    have s1: "sound log ?src declared s1" "cursor_forward ?src s s1" "complete log s1 since"
      using Cons.prems(3,4) pc complete_grow cursor_claim_grow cursor_forward_same by (auto simp: sound_def)
    show ?thesis
    proof (cases r1)
      case (Inl a)
      then show ?thesis using Cons.prems(5) None 1 s1 by simp
    next
      case (Inr u)
      have "handled s1 ev" if "handled s ev" for ev using that pc(2) by (auto simp: handled_def)
      moreover have "handled s1 ev" if "carries resp ev" for ev
        using that pc(3) Inr set_Translate[of resp] by (auto simp: handled_def)
      ultimately have "\<forall>resp\<in>set (seen @ [resp]). \<forall>ev. carries resp ev \<longrightarrow> handled s1 ev"
        using Cons.prems(2) by auto
      from Cons.IH[OF grown this s1(3,1)] show ?thesis
        using Cons.prems(5) None 1 Inr s1(2) cursor_forward_trans by auto
    qed
  next
    case (Some h)
    have barren: "appendOne ev = []" if "carries resp ev" for ev
      using that heartbeat_no_change[OF Some] set_Translate[of resp] by auto
    have "IsIdleHeartbeat (Some ((seen @ resp # rest) ! length seen)) = Some h" using Some by simp
    then have "h < 2 ^ 63 \<and> (\<forall>ev\<in>log. since < r_ts ev \<longrightarrow> r_ts ev \<le> h \<longrightarrow> (\<exists>j<length seen. carries ((seen @ resp # rest) ! j) ev))"
      using filer Cons.prems(1) unfolding filer_contract_def by (metis length_append length_Cons less_add_Suc1 add_Suc_right)
    then have h: "h < 2 ^ 63" "\<And>ev. ev \<in> log \<Longrightarrow> since < r_ts ev \<Longrightarrow> r_ts ev \<le> h \<Longrightarrow> \<exists>resp\<in>set seen. carries resp ev"
      by (auto simp: nth_append) (metis nth_mem)
    have "complete log s h" unfolding complete_def
    proof (intro ballI impI)
      fix ev assume ev: "ev \<in> log" "r_ts ev \<le> h"
      show "handled s ev"
      proof (cases "r_ts ev \<le> since")
        case True
        then show ?thesis using Cons.prems(3) ev(1) by (simp add: complete_def)
      next
        case False
        then show ?thesis using Cons.prems(2) h(2)[OF ev(1) _ ev(2)] by auto
      qed
    qed
    moreover obtain r1 s1 where 1: "(if first then recordGapWindow e c declared h s else (Inr (), s)) = (r1, s1)" by fastforce
    have q: "quiet ?src s s1" using 1 gap_quiet[OF own] by (auto split: if_splits)
    ultimately have c1: "complete log s1 h" "sound log ?src declared s1" "complete log s1 since" "cursor_forward ?src s s1"
      using complete_grow sound_quiet Cons.prems(3,4) forward_quiet by (auto simp: quiet_def)
    show ?thesis
    proof (cases r1)
      case (Inl a)
      then show ?thesis using Cons.prems(5) Some 1 c1 by simp
    next
      case (Inr u)
      obtain r2 s2 where 2: "persistCursor e c declared h s1 = (r2, s2)" by fastforce
      have "cursor_claim log ?src s1" using c1(2) by (simp add: sound_def)
      note ps = persistCursor_effect[OF own 2 c1(1) this]
      have fw: "cursor_forward ?src s s2" using cursor_forward_trans[OF c1(4) ps(3)] .
      have keep: "complete log s2 t" if "complete log s1 t" for t using complete_grow[OF that] ps(1) by simp
      show ?thesis
      proof (cases r2)
        case Inl
        then show ?thesis using Cons.prems(5) Some 1 2 \<open>r1 = Inr u\<close> c1 fw keep ps(2) by (simp add: sound_def)
      next
        case (Inr d)
        have s2: "sound log ?src d s2" using c1 keep ps(2) ps(4)[of d] Inr h(1) by (auto simp: sound_def)
        have "handled s2 ev" if "handled s ev" for ev using that q ps(1) by (simp add: handled_def quiet_def)
        moreover have "handled s2 ev" if "carries resp ev" for ev using barren[OF that] by (simp add: handled_def)
        ultimately have "\<forall>resp\<in>set (seen @ [resp]). \<forall>ev. carries resp ev \<longrightarrow> handled s2 ev"
          using Cons.prems(2) by auto
        from Cons.IH[OF grown this keep[OF c1(3)] s2] show ?thesis
          using Cons.prems(5) Some 1 2 \<open>r1 = Inr u\<close> Inr fw cursor_forward_trans by auto
      qed
    qed
  qed
qed

lemma runStream_sound:
  assumes own: "cursor_owner (SourceID c) (ad_cp e)" and filer: "filer_contract e log" and m: "ResumeMargin c < 2 ^ 63"
    and s: "sound log (SourceID c) declared s" and r: "runStream e c declared s = (err, d', s')"
  shows "sound log (SourceID c) d' s' \<and> cursor_forward (SourceID c) s s'"
proof -
  let ?since = "ResumeFrom declared (ResumeMargin c)"
  let ?s2 = "s\<lparr>ad_streams := Suc (ad_streams s), ad_epoch := ad_epoch s + 1\<rparr>"
  have q: "quiet (SourceID c) s ?s2" "quiet (SourceID c) s (s\<lparr>ad_streams := Suc (ad_streams s)\<rparr>)" by simp_all
  show ?thesis
  proof (cases "\<exists>resps. ad_dial e (ad_streams s) = None \<and> ad_subscribe e (ad_streams s) ?since = Inr resps")
    case True
    then obtain resps where d: "ad_dial e (ad_streams s) = None" and 1: "ad_subscribe e (ad_streams s) ?since = Inr ([] @ resps)" by auto
    have s2: "sound log (SourceID c) declared ?s2" using sound_quiet[OF s q(1)] .
    moreover have "?since \<le> declared" using ResumeFrom_range(2)[of declared "ResumeMargin c"] s m by (simp add: sound_def)
    ultimately have since: "complete log ?s2 ?since" by (auto simp: sound_def complete_def)
    have l: "stream_loop e c True declared resps ?s2 = (err, d', s')" using r d 1 by (simp add: runStream_def Let_def)
    have "\<forall>resp\<in>set []. \<forall>ev. carries resp ev \<longrightarrow> handled ?s2 ev" by simp
    from stream_loop_sound[OF own filer 1 this since s2 l] show ?thesis
      using cursor_forward_trans[OF forward_quiet[OF q(1)]] by simp
  next
    case False
    then have "(s' = ?s2 \<or> s' = s\<lparr>ad_streams := Suc (ad_streams s)\<rparr>) \<and> d' = declared"
      using r by (auto simp: runStream_def Let_def split: option.splits sum.splits)
    then show ?thesis using sound_quiet[OF s] forward_quiet q by auto
  qed
qed

lemma stream_rounds_sound:
  assumes own: "cursor_owner (SourceID c) (ad_cp e)" and filer: "filer_contract e log" and m: "ResumeMargin c < 2 ^ 63"
  shows "sound log (SourceID c) declared s \<Longrightarrow> stream_rounds e c n declared s = (d', s')
    \<Longrightarrow> sound log (SourceID c) d' s' \<and> cursor_forward (SourceID c) s s'"
proof (induction n arbitrary: declared s)
  case (Suc n)
  obtain err d1 s1 where 1: "runStream e c declared s = (err, d1, s1)" by (cases "runStream e c declared s") auto
  note r = runStream_sound[OF own filer m Suc.prems(1) 1]
  obtain b s2 where 2: "sleep e s1 = (b, s2)" by fastforce
  have q: "quiet (SourceID c) s1 s2" by (rule sleep_quiet[OF 2])
  have s2: "sound log (SourceID c) d1 s2" "cursor_forward (SourceID c) s s2"
    using r sound_quiet[OF _ q] cursor_forward_trans[OF _ forward_quiet[OF q]] by auto
  show ?case
  proof (cases b)
    case False
    then have "stream_rounds e c n d1 s2 = (d', s')" using Suc.prems(2) 1 2 by simp
    then show ?thesis using Suc.IH[OF s2(1)] cursor_forward_trans[OF s2(2)] by auto
  qed (use Suc.prems(2) 1 2 s2 in auto)
qed (simp add: cursor_forward_def)

lemma DeclaredCursor_reads:
  assumes own: "cursor_owner src (ad_cp e)" and r: "DeclaredCursor e src s = (r, s')"
  shows "quiet src s s'" "r = Inr v \<Longrightarrow> v = ad_cursor src s"
proof -
  obtain r1 ix where 1: "sql (ad_cp e) (query (GetStorageEventCursor src)) (ad_ix s) = (r1, ix)" by fastforce
  have q: "ix_cursor src ix = ix_cursor src (ad_ix s)" by (rule query_cursor[OF own 1])
  then show "quiet src s s'" using r 1 by (auto simp: DeclaredCursor_def on_index_def quiet_def split: sum.splits db_error.splits)
  have m: "cursor_of src (cp_meanwhile (ad_cp e) k c) = cursor_of src c" for k c using own by (simp add: cursor_owner_def)
  have "r1 = Inr w \<Longrightarrow> ix_cursor src (ad_ix s) = Some w" "r1 = Inl ErrNoRows \<Longrightarrow> ix_cursor src (ad_ix s) = None" for w
    using 1 by (auto simp: sql_def Let_def query_def GetStorageEventCursor_def m split: prod.splits option.splits db_fault.splits)
  then show "r = Inr v \<Longrightarrow> v = ad_cursor src s"
    using r 1 by (auto simp: DeclaredCursor_def on_index_def split: sum.splits db_error.splits)
qed

lemma load_cursor_reads:
  assumes own: "cursor_owner (SourceID c) (ad_cp e)" and r: "load_cursor e c n s = (r, s')"
  shows "quiet (SourceID c) s s' \<and> (\<forall>v. r = Some v \<longrightarrow> v = ad_cursor (SourceID c) s')"
  using r
proof (induction n arbitrary: s)
  case (Suc n)
  obtain r1 s1 where 1: "DeclaredCursor e (SourceID c) s = (r1, s1)" by fastforce
  note d = DeclaredCursor_reads[OF own 1]
  show ?case
  proof (cases r1)
    case (Inl err)
    obtain b s2 where 2: "sleep e s1 = (b, s2)" by fastforce
    have q: "quiet (SourceID c) s s2" using quiet_trans[OF d(1) sleep_quiet[OF 2]] .
    show ?thesis using Suc.prems 1 2 Inl q Suc.IH[of s2] quiet_trans[OF q] by (cases b) auto
  next
    case (Inr v)
    then show ?thesis using Suc.prems 1 d by (auto simp: quiet_def)
  qed
qed simp

lemma selfCheck_quiet: "cursor_owner src (ad_cp e) \<Longrightarrow> quiet src s (selfCheck e c v s)"
  by (auto simp: selfCheck_def Let_def split: sum.splits intro: mark_quiet[OF _ surjective_pairing])

text \<open>
  C19: Whatever the faults of the database, the object store and the stream, the persisted cursor of the storage event
  source stays a claim of completeness: after any number of subscriptions every event of the filer's log up to the
  cursor has had all its changes processed, and the cursor has not moved back.  The filer is assumed to
  keep the promise of its heartbeats, and no other session to write this cursor.
\<close>

theorem cursor_is_completeness_claim:
  assumes "filer_contract e log" "cursor_owner (SourceID c) (ad_cp e)" "ResumeMargin c < 2 ^ 63"
    and "cursor_claim log (SourceID c) s" "\<And>v. ad_cursor (SourceID c) s = Some v \<Longrightarrow> 0 \<le> v \<and> v < 2 ^ 63"
    and "s' = Run e c tries rounds s"
  shows "(\<forall>v. ad_cursor (SourceID c) s' = Some v \<longrightarrow> (\<forall>ev\<in>log. r_ts ev \<le> v \<longrightarrow> set (appendOne ev) \<subseteq> set (ad_processed s')))
    \<and> (\<forall>v. ad_cursor (SourceID c) s = Some v \<longrightarrow> (\<exists>v'. ad_cursor (SourceID c) s' = Some v' \<and> v \<le> v'))"
proof -
  let ?src = "SourceID c"
  obtain r1 s1 where 1: "load_cursor e c tries s = (r1, s1)" by fastforce
  note l = load_cursor_reads[OF assms(2) 1]
  have cl: "cursor_claim log ?src s1" using cursor_claim_grow[OF assms(4)] l by (auto simp: quiet_def)
  have "cursor_claim log ?src s' \<and> cursor_forward ?src s1 s'"
  proof (cases r1)
    case None
    then show ?thesis using assms(6) 1 cl by (simp add: Run_def cursor_forward_def)
  next
    case (Some v)
    let ?d = "case v of None \<Rightarrow> 0 | Some w \<Rightarrow> w"
    let ?s2 = "case v of None \<Rightarrow> s1 | Some w \<Rightarrow> selfCheck e c w s1"
    have v: "v = ad_cursor ?src s1" "v = ad_cursor ?src s" using l Some by (auto simp: quiet_def)
    have q: "quiet ?src s1 ?s2" using selfCheck_quiet[OF assms(2)] by (auto split: option.splits)
    have "sound log ?src ?d s1"
    proof (cases v)
      case None
      have "complete log s1 0" using assms(1) by (auto simp: filer_contract_def complete_def)
      then show ?thesis using None cl by (simp add: sound_def)
    next
      case (Some w)
      then show ?thesis using v cl assms(5)[of w] by (auto simp: sound_def cursor_claim_def)
    qed
    then have s2: "sound log ?src ?d ?s2" by (rule sound_quiet[OF _ q])
    obtain d' s3 where 3: "stream_rounds e c rounds ?d ?s2 = (d', s3)" by fastforce
    have "s' = s3" using assms(6) 1 Some 3 by (simp add: Run_def split: option.splits)
    then show ?thesis using stream_rounds_sound[OF assms(2,1,3) s2 3] cursor_forward_trans[OF forward_quiet[OF q]] by (auto simp: sound_def)
  qed
  moreover have "cursor_forward ?src s s1" using l forward_quiet by blast
  ultimately show ?thesis using cursor_forward_trans unfolding cursor_claim_def cursor_forward_def complete_def handled_def by blast
qed


section \<open>Facts follow the store\<close>

text \<open>What a HEAD says of the object, and the observations the HEADs numbered \<open>lo\<close> to \<open>hi\<close> may offer for a key.\<close>

definition head_status :: "head_result \<Rightarrow> FileStatus option" where
  "head_status h = (case h of HeadOk sz etag \<Rightarrow> Some FileStatusCompleted | HeadAbsent \<Rightarrow> Some FileStatusDeleted | HeadError msg \<Rightarrow> None)"

definition head_observations :: "ad_env \<Rightarrow> storage_change \<Rightarrow> nat \<Rightarrow> nat \<Rightarrow> observation set" where
  "head_observations e ch lo hi =
     {(cp_now (ad_cp e) t, st) | t st. \<exists>n. lo \<le> n \<and> n < hi \<and> head_status (ad_head e n (ch_bucket ch) (ch_key ch)) = Some st}"

abbreviation head_offers :: "ad_env \<Rightarrow> storage_change \<Rightarrow> nat \<Rightarrow> nat \<Rightarrow> offer set" where
  "head_offers e ch lo hi \<equiv> {((b, ch_key ch), ob) | b ob. ob \<in> head_observations e ch lo hi}"

lemma head_observationsI:
  "lo \<le> n \<Longrightarrow> n < hi \<Longrightarrow> head_status (ad_head e n (ch_bucket ch) (ch_key ch)) = Some st \<Longrightarrow> (cp_now (ad_cp e) t, st) \<in> head_observations e ch lo hi"
  unfolding head_observations_def by blast

lemma head_observations_mono: "lo \<le> lo' \<Longrightarrow> hi' \<le> hi \<Longrightarrow> head_observations e ch lo' hi' \<subseteq> head_observations e ch lo hi"
proof
  fix ob assume m: "lo \<le> lo'" "hi' \<le> hi" and "ob \<in> head_observations e ch lo' hi'"
  then obtain t st n where "ob = (cp_now (ad_cp e) t, st)" "lo' \<le> n" "n < hi'" "head_status (ad_head e n (ch_bucket ch) (ch_key ch)) = Some st"
    unfolding head_observations_def by blast
  then show "ob \<in> head_observations e ch lo hi" using m head_observationsI[of lo n hi e ch st t] by simp
qed

lemma readBack_heads: "readBack e ch s = (r, s') \<Longrightarrow> ad_heads s \<le> ad_heads s'"
  by (auto simp: readBack_def on_index_def Let_def split: prod.splits sum.splits head_result.splits)

lemma attempts_heads: "attempts e c ch n k err s = (r, s') \<Longrightarrow> ad_heads s \<le> ad_heads s'"
proof (induction n arbitrary: k err s)
  case (Suc n)
  obtain b s0 where 0: "(if 0 < k then sleep e s else (False, s)) = (b, s0)" by fastforce
  have h0: "ad_heads s0 = ad_heads s" using 0 by (auto simp: sleep_def split: if_splits)
  obtain r1 s1 where 1: "readBack e ch s0 = (r1, s1)" by fastforce
  have h1: "ad_heads s \<le> ad_heads s1" using readBack_heads[OF 1] h0 by simp
  have h2: "ad_heads s2 = ad_heads s1" if "on_index f s1 = (r2, s2)" for f :: "indexer \<Rightarrow> 'x \<times> indexer" and r2 s2
    using that by (auto simp: on_index_def split: prod.splits)
  show ?case using Suc.prems 0 1 h0 h1 Suc.IH
    by (auto simp: on_index_def split: bool.splits sum.splits prod.splits if_splits) (force intro: order_trans)+
qed simp

lemma readBack_fact:
  assumes e: "sessions (ad_cp e) W" and r: "readBack e ch s = (r, s')"
  shows "via (ad_cp e) W {} (ad_ix s) (ad_ix s')"
    and "r = Inr ev \<Longrightarrow> ev_bucket ev = ch_bucket ch \<and> ev_key ev = ch_key ch
      \<and> event_offers (ad_cp e) ev \<subseteq> head_offers e ch (ad_heads s) (ad_heads s')"
proof -
  obtain r1 ix where 1: "sql (ad_cp e) SelectDBClockTimestamp (ad_ix s) = (r1, ix)" by fastforce
  have "via (ad_cp e) W {} (ad_ix s) ix" by (rule side_via[OF e _ 1]) (simp add: SelectDBClockTimestamp_def)
  then show "via (ad_cp e) W {} (ad_ix s) (ad_ix s')"
    using r 1 by (auto simp: readBack_def on_index_def Let_def split: sum.splits head_result.splits)
  have t: "obs = cp_now (ad_cp e) (ix_stmt (ad_ix s))" if "r1 = Inr obs" for obs
    using 1 that by (auto simp: sql_def SelectDBClockTimestamp_def Let_def split: option.splits db_fault.splits)
  show "ev_bucket ev = ch_bucket ch \<and> ev_key ev = ch_key ch \<and> event_offers (ad_cp e) ev \<subseteq> head_offers e ch (ad_heads s) (ad_heads s')"
    if "r = Inr ev"
    using r 1 t that
    by (auto simp: readBack_def on_index_def Let_def readback_event_def head_status_def db_clocked_def
        split: sum.splits head_result.splits intro!: head_observationsI[of _ "ad_heads s"])
qed

lemma known_bucket_applies:
  assumes e: "sessions e W" and b: "GetBucketByName DefaultOrgID (ev_bucket ev) (ix_db s) = Some b"
    and r: "suppressionAware_Apply e ev s = (r, s')"
  shows "r \<noteq> Inl (SinkIndex ErrUnknownBucket)"
proof -
  let ?c = "cp_meanwhile e (ix_stmt s) (ix_db s)"
  obtain os where "index_run (cp_collate e) (ix_db s) os ?c" using e unfolding sessions_def by blast
  then have "GetBucketByName DefaultOrgID (ev_bucket ev) ?c = Some b" using run_buckets b by (auto simp: keeps_buckets_def)
  then have "fst (sql e (query (GetBucketByName DefaultOrgID (ev_bucket ev))) s) \<noteq> Inl ErrNoRows"
    by (auto simp: sql_def query_def Let_def split: option.splits db_fault.splits)
  then show ?thesis using r
    by (auto simp: suppressionAware_Apply_def suppression_result_def IndexUploadReporting_def IndexDeletionReporting_def unknown_bucket_def
        split: if_splits event_kind.splits prod.splits sum.splits option.splits)
qed

lemma rowstate_via:
  assumes e: "sessions e W" and r: "RowState e bk key s = (r, s')"
  shows "via e W {} s s'"
proof -
  obtain r1 s1 where 1: "sql e (query (GetBucketByName DefaultOrgID bk)) s = (r1, s1)" by fastforce
  have "s' = s1 \<or> (\<exists>(q :: catalog \<Rightarrow> file_entry option) r2. sql e (query q) s1 = (r2, s'))"
    using r 1 by (auto simp: RowState_def split: sum.splits prod.splits db_error.splits)
  then show ?thesis
  proof (elim disjE exE)
    fix q :: "catalog \<Rightarrow> file_entry option" and r2
    assume "sql e (query q) s1 = (r2, s')"
    from via_prefix[OF query_via[OF e 1] query_via[OF e this]] show ?thesis .
  qed (use query_via[OF e 1] in simp)
qed


text \<open>A round of attempts that ends well has offered what a HEAD of this call said.\<close>

lemma attempts_offer:
  assumes e: "sessions (ad_cp e) W" and W: "head_offers e ch lo hi \<subseteq> W"
  shows "attempts e c ch n k err s = (Inr (), s') \<Longrightarrow> lo \<le> ad_heads s \<Longrightarrow> ad_heads s' \<le> hi
    \<Longrightarrow> GetBucketByName DefaultOrgID (ch_bucket ch) (ix_db (ad_ix s)) = Some b
    \<Longrightarrow> \<exists>ob\<in>head_observations e ch lo hi. via (ad_cp e) W {((b_id b, ch_key ch), ob)} (ad_ix s) (ad_ix s')"
proof (induction n arbitrary: k err s)
  case (Suc n)
  let ?k = "(b_id b, ch_key ch)"
  obtain stop s0 where 0: "(if 0 < k then sleep e s else (False, s)) = (stop, s0)" by fastforce
  have s0: "ad_ix s0 = ad_ix s" "ad_heads s0 = ad_heads s" "\<not> stop" using 0 Suc.prems(1) by (auto simp: sleep_def split: if_splits)
  obtain r1 s1 where 1: "readBack e ch s0 = (r1, s1)" by fastforce
  note rb = readBack_fact[OF e 1]
  have v1: "via (ad_cp e) W {} (ad_ix s) (ad_ix s1)" using rb(1) s0 by simp
  have h1: "lo \<le> ad_heads s1" using readBack_heads[OF 1] s0 Suc.prems(2) by simp
  have later: "\<exists>ob\<in>head_observations e ch lo hi. via (ad_cp e) W {(?k, ob)} (ad_ix s) (ad_ix s')"
    if a: "attempts e c ch n (Suc k) err' sx = (Inr (), s')" and v: "via (ad_cp e) W {} (ad_ix s) (ad_ix sx)" and h: "lo \<le> ad_heads sx" for err' sx
  proof -
    have "GetBucketByName DefaultOrgID (ch_bucket ch) (ix_db (ad_ix sx)) = Some b"
      using v Suc.prems(4) by (auto simp: via_def session_run_def keeps_buckets_def dest!: run_buckets)
    from Suc.IH[OF a h Suc.prems(3) this] show ?thesis using via_prefix[OF v] by blast
  qed
  show ?case
  proof (cases r1)
    case (Inl err')
    then show ?thesis using later[of err' s1] Suc.prems(1) 0 1 s0 v1 h1 by simp
  next
    case (Inr ev)
    note ev = rb(2)[OF Inr]
    obtain r2 ix2 where 2: "suppressionAware_Apply (ad_cp e) ev (ad_ix s1) = (r2, ix2)" by fastforce
    let ?s2 = "s1\<lparr>ad_ix := ix2\<rparr>"
    obtain r3 ix3 where 3: "RowState (ad_cp e) (ev_bucket ev) (ev_key ev) ix2 = (r3, ix3)" by fastforce
    let ?s3 = "s1\<lparr>ad_ix := ix3\<rparr>"
    have oi: "on_index (suppressionAware_Apply (ad_cp e) ev) s1 = (r2, ?s2)" "on_index (RowState (ad_cp e) (ev_bucket ev) (ev_key ev)) ?s2 = (r3, ?s3)"
      using 2 3 by (simp_all add: on_index_def)
    have b1: "GetBucketByName DefaultOrgID (ev_bucket ev) (ix_db (ad_ix s1)) = Some b"
      using v1 Suc.prems(4) ev by (auto simp: via_def session_run_def keeps_buckets_def dest!: run_buckets)
    have known: "r2 \<noteq> Inl (SinkIndex ErrUnknownBucket)" by (rule known_bucket_applies[OF e b1 2])
    have "ad_heads s1 \<le> ad_heads s'"
      using Suc.prems(1) 0 1 s0 Inr oi attempts_heads by (fastforce split: sum.splits if_splits)
    then have hi: "ad_heads s1 \<le> hi" using Suc.prems(3) by simp
    have sub: "event_offers (ad_cp e) ev \<subseteq> head_offers e ch lo hi"
      using ev head_observations_mono[of lo "ad_heads s0" "ad_heads s1" hi e ch] hi Suc.prems(2) s0 by fastforce
    have made: "via (ad_cp e) W {} (ad_ix s1) ix2 \<and> (\<not> isl r2 \<or> r2 = Inl ErrSuppressed \<longrightarrow> offers_at (ad_cp e) W (b_id b, ev_key ev) (event_offers (ad_cp e) ev) (ad_ix s1) ix2)"
      using event_via[OF e, of ev "ad_ix s1" ix2 _ b] sub W 2 b1 by blast
    have v2: "via (ad_cp e) W {} (ad_ix s) ix2"
      and won: "\<not> isl r2 \<or> r2 = Inl ErrSuppressed \<Longrightarrow> \<exists>ob\<in>head_observations e ch lo hi. via (ad_cp e) W {(?k, ob)} (ad_ix s) ix2"
    proof -
      show "\<exists>ob\<in>head_observations e ch lo hi. via (ad_cp e) W {(?k, ob)} (ad_ix s) ix2" if taken: "\<not> isl r2 \<or> r2 = Inl ErrSuppressed"
      proof -
        obtain ob where "((b_id b, ev_key ev), ob) \<in> event_offers (ad_cp e) ev" "via (ad_cp e) W {((b_id b, ev_key ev), ob)} (ad_ix s1) ix2"
          using made taken unfolding offers_at_def by blast
        moreover have "ob \<in> head_observations e ch lo hi" using calculation(1) sub by auto
        ultimately show ?thesis using via_prefix[OF v1] ev by auto
      qed
    qed (use made via_prefix[OF v1] in blast)
    have v3: "via (ad_cp e) W {} ix2 ix3" by (rule rowstate_via[OF e 3])
    consider "\<not> isl r2" "s' = ?s2" | "r2 = Inl ErrSuppressed" "s' = ?s3"
      | err' where "attempts e c ch n (Suc k) err' ?s2 = (Inr (), s')" | err' where "attempts e c ch n (Suc k) err' ?s3 = (Inr (), s')"
    proof (cases r2)
      case (Inl err2)
      note go = Suc.prems(1) 0 1 s0 Inr oi known
      show ?thesis
      proof (cases "err2 = ErrSuppressed")
        case True
        then have "s' = ?s3 \<or> attempts e c ch n (Suc k) (ApplyFailed err2) ?s3 = (Inr (), s')"
          using Inl go by (cases r3) (simp_all split: if_splits)
        then show ?thesis using that(2,4) Inl True by blast
      next
        case False
        then show ?thesis using Inl go that(3) by simp
      qed
    qed (use Suc.prems(1) 0 1 s0 Inr oi that(1) in simp)
    then show ?thesis
    proof cases
      case 1
      then show ?thesis using won by simp
    next
      case 2
      then obtain ob where "ob \<in> head_observations e ch lo hi" "via (ad_cp e) W {(?k, ob)} (ad_ix s) ix2" using won by blast
      then show ?thesis using via_trans[OF _ v3] 2 by fastforce
    next
      case 3
      then show ?thesis using later v2 h1 by simp
    next
      case 4
      then show ?thesis using later[of _ ?s3] via_prefix[OF v2 v3] h1 by simp
    qed
  qed
qed simp



section \<open>Samples\<close>

text \<open>An object is announced at 50 and a heartbeat comes at 60; the first HEAD fails and the next one finds the object gone.\<close>

definition announcement :: metadata_response where
  "announcement = \<lparr>r_directory = ''/buckets/data/north/acme'',
     r_event = Some \<lparr>n_old = None, n_new = Some (sample_entry ''x'' False), n_parent = ''/buckets/data/north/acme''\<rparr>, r_ts = 50, r_events = []\<rparr>"

definition heartbeat :: metadata_response where
  "heartbeat = \<lparr>r_directory = '''', r_event = None, r_ts = 60, r_events = []\<rparr>"

definition sample_ad_env :: ad_env where
  "sample_ad_env = \<lparr>ad_cp = quiet_env, ad_head = (\<lambda>n _ _. if n = 0 then HeadError ''503'' else HeadAbsent), ad_cancelled = (\<lambda>_. False),
     ad_clock = int, ad_dial = (\<lambda>_. None), ad_subscribe = (\<lambda>_ _. Inr [announcement, heartbeat]), ad_first_entry = (\<lambda>_. Inl ''down'')\<rparr>"

definition sample_cfg :: adapter_cfg where
  "sample_cfg = \<lparr>SourceID = ''sw'', ClientName = ''fa'', ClientID = 1, ResumeMargin = 60, ApplyMaxRetries = 8, ApplyRetryBackoff = 1,
     CursorFlushInterval = 1, SelfCheckTimeout = 1\<rparr>"

definition sample_adapter :: adapter where
  "sample_adapter = \<lparr>ad_ix = indexed_sample, ad_epoch = 0, ad_unknownBuckets = 0, ad_lastFlush = None, ad_heads = 0, ad_sleeps = 0, ad_ticks = 0,
     ad_streams = 0, ad_processed = []\<rparr>"

definition sample_change :: storage_change where
  "sample_change = created 7 50 (''data'', ''north/acme/x'')"

lemma sample_filer: "filer_contract sample_ad_env {filer_event.truncate announcement}"
proof -
  have hb: "IsIdleHeartbeat (Some announcement) = None" "IsIdleHeartbeat (Some heartbeat) = Some 60" by code_simp+
  have "r_ts (filer_event.truncate announcement) = 50" by code_simp
  then show ?thesis
    by (auto simp: filer_contract_def sample_ad_env_def carries_def less_Suc_eq nth_Cons' hb split: if_splits)
qed

lemma sample_owner: "cursor_owner src (ad_cp sample_ad_env)"
  by (simp add: cursor_owner_def sample_ad_env_def quiet_env_def)

theorem cursor_is_completeness_claim_witness:
  "let s' = Run sample_ad_env sample_cfg 1 1 sample_adapter
   in ad_cursor ''sw'' sample_adapter = None \<and> ad_cursor ''sw'' s' = Some 60 \<and> sample_change \<in> set (ad_processed s')"
proof -
  let ?s = "Run sample_ad_env sample_cfg 1 1 sample_adapter"
  have c: "ad_cursor ''sw'' sample_adapter = None" "ad_cursor ''sw'' ?s = Some 60" by code_simp+
  have a: "appendOne (filer_event.truncate announcement) = [sample_change]" "r_ts (filer_event.truncate announcement) = 50"
    "SourceID sample_cfg = ''sw''" "ResumeMargin sample_cfg = 60" by code_simp+
  have "cursor_claim {filer_event.truncate announcement} (SourceID sample_cfg) sample_adapter" using c a by (simp add: cursor_claim_def)
  from cursor_is_completeness_claim[OF sample_filer sample_owner _ this _ refl, of 1 1] c a show ?thesis by (simp add: Let_def)
qed


end
