(* ===== verification/Agents.thy ===== *)
theory Agents
  imports Index
begin

text \<open>
  The agents of the control plane: their table and its statements (db/agents.sql.go), registration, approval and
  revocation (controlplane/internal/agent/manager.go), and the sweeper that marks vanished agents offline
  (controlplane/internal/worker/offline_sweeper.go).  Between two statements any other session may have committed; a
  failed statement did nothing or lost its answer.  Agent ids are the UUIDs their canonical strings denote.
\<close>

section \<open>The table\<close>

datatype AgentStatus = AgentStatusPending | AgentStatusApproved | AgentStatusOnline | AgentStatusOffline | AgentStatusRevoked

record agent_row =
  ag_id :: uuid
  ag_org :: uuid
  ag_name :: string
  ag_fingerprint :: string
  ag_status :: AgentStatus
  ag_token_hash :: "string option"
  ag_token_expires :: "int option"
  ag_os_info :: "(string \<times> string) list"
  ag_ip :: "string option"

type_synonym agents = "agent_row list"

type_synonym 'a agent_stmt = "agents \<Rightarrow> (db_error + 'a) \<times> agents"

definition on_row :: "agent_row option \<Rightarrow> agents \<Rightarrow> (db_error + agent_row) \<times> agents" where
  "on_row r t = ((case r of None \<Rightarrow> Inl ErrNoRows | Some x \<Rightarrow> Inr x), t)"

definition GetAgentByID :: "uuid \<Rightarrow> agent_row agent_stmt" where
  "GetAgentByID i t = on_row (find_row ag_id i t) t"

definition GetAgentByFingerprint :: "string \<Rightarrow> agent_row agent_stmt" where
  "GetAgentByFingerprint f t = on_row (find_row ag_fingerprint f t) t"

definition ListAgentsByStatus :: "uuid \<Rightarrow> AgentStatus \<Rightarrow> agents agent_stmt" where
  "ListAgentsByStatus org st t = (Inr (select_where (\<lambda>r. ag_org r = org \<and> ag_status r = st) t), t)"

text \<open>The key and the fingerprint are unique; a violation is an error of the driver.\<close>

definition CreateAgent :: "agent_row \<Rightarrow> agent_row agent_stmt" where
  "CreateAgent new t =
     (if exists_where (\<lambda>r. ag_id r = ag_id new \<or> ag_fingerprint r = ag_fingerprint new) t
      then (Inl (DriverError ''unique violation''), t)
      else (Inr new, t @ [new]))"

definition update_agent :: "uuid \<Rightarrow> (agent_row \<Rightarrow> agent_row) \<Rightarrow> agent_row agent_stmt" where
  "update_agent i f t = (let t' = update_where (\<lambda>r. ag_id r = i) f t in on_row (find_row ag_id i t') t')"

definition UpdateAgentStatus :: "uuid \<Rightarrow> AgentStatus \<Rightarrow> agent_row agent_stmt" where
  "UpdateAgentStatus i st = update_agent i (\<lambda>r. r\<lparr>ag_status := st\<rparr>)"

definition UpdateAgentAuthToken :: "uuid \<Rightarrow> string option \<Rightarrow> int option \<Rightarrow> agent_row agent_stmt" where
  "UpdateAgentAuthToken i h x = update_agent i (\<lambda>r. r\<lparr>ag_token_hash := h, ag_token_expires := x\<rparr>)"

text \<open>The conditional transitions give the number of rows affected.\<close>

definition move_status :: "AgentStatus set \<Rightarrow> AgentStatus \<Rightarrow> uuid \<Rightarrow> nat agent_stmt" where
  "move_status from st i t =
     (let P = (\<lambda>r. ag_id r = i \<and> ag_status r \<in> from)
      in (Inr (count_where P t), update_where P (\<lambda>r. r\<lparr>ag_status := st\<rparr>) t))"

definition MarkAgentOfflineIfOnline :: "uuid \<Rightarrow> nat agent_stmt" where
  "MarkAgentOfflineIfOnline = move_status {AgentStatusOnline} AgentStatusOffline"

definition MarkAgentOnlineIfOffline :: "uuid \<Rightarrow> nat agent_stmt" where
  "MarkAgentOnlineIfOffline = move_status {AgentStatusOffline} AgentStatusOnline"

definition MarkAgentOnlineIfUsable :: "uuid \<Rightarrow> nat agent_stmt" where
  "MarkAgentOnlineIfUsable = move_status {AgentStatusApproved, AgentStatusOffline, AgentStatusOnline} AgentStatusOnline"

section \<open>The manager\<close>

text \<open>
  The outside, by the number of the statement: faults, commits of other sessions, ids drawn by the database, tokens
  signed by the JWT service, the clock; then the libraries and the wiring.
\<close>

record ag_env =
  ge_fault :: "nat \<Rightarrow> db_fault option"
  ge_meanwhile :: "nat \<Rightarrow> agents \<Rightarrow> agents"
  ge_new_id :: "nat \<Rightarrow> uuid"
  ge_token :: "nat \<Rightarrow> uuid \<Rightarrow> uuid \<Rightarrow> string \<Rightarrow> string \<Rightarrow> string + string"
  ge_now :: "nat \<Rightarrow> int"
  ge_sha256 :: "string \<Rightarrow> string"
  ge_parse_uuid :: "string \<Rightarrow> uuid option"
  ge_parse_ip :: "string \<Rightarrow> string option"
  ge_inet :: "string \<Rightarrow> string option"
  ge_ttl :: int
  ge_jwt :: bool
  ge_cache :: bool
  ge_cache_ok :: "nat \<Rightarrow> bool"
  ge_nats :: bool
  ge_publish :: "nat \<Rightarrow> bool"

datatype agent_message = AgentApproved uuid uuid string | AgentRevoked uuid uuid string | AgentOnlineMsg uuid | AgentOfflineMsg uuid

record manager =
  mg_agents :: agents
  mg_stmt :: nat
  mg_presence :: "uuid list"
  mg_published :: "agent_message list"

definition agent_sql :: "ag_env \<Rightarrow> 'a agent_stmt \<Rightarrow> manager \<Rightarrow> (db_error + 'a) \<times> manager" where
  "agent_sql e st s =
     (let k = mg_stmt s; t = ge_meanwhile e k (mg_agents s); (r, t') = st t
      in case ge_fault e k of
           Some (Refused msg) \<Rightarrow> (Inl (DriverError msg), s\<lparr>mg_agents := t, mg_stmt := Suc k\<rparr>)
         | Some (AnswerLost msg) \<Rightarrow> (Inl (DriverError msg), s\<lparr>mg_agents := t', mg_stmt := Suc k\<rparr>)
         | None \<Rightarrow> (r, s\<lparr>mg_agents := t', mg_stmt := Suc k\<rparr>))"

definition publishEvent :: "ag_env \<Rightarrow> agent_message \<Rightarrow> manager \<Rightarrow> manager" where
  "publishEvent e m s =
     (if ge_nats e \<and> ge_publish e (length (mg_published s)) then s\<lparr>mg_published := mg_published s @ [m]\<rparr> else s)"

datatype mg_error = FingerprintRequired | FingerprintMismatch | InvalidAgentID | NoJWTService | TokenError string
  | StageFailed string db_error

record register_request =
  rq_fingerprint :: string
  rq_hostname :: string
  rq_ip :: string
  rq_os_type :: string
  rq_os_version :: string
  rq_arch :: string
  rq_version :: string

record register_response =
  rp_agent :: uuid
  rp_status :: AgentStatus
  rp_message :: string
  rp_name :: string

definition os_info :: "register_request \<Rightarrow> (string \<times> string) list" where
  "os_info q = [(''agent_version'', rq_version q), (''arch'', rq_arch q), (''hostname'', rq_hostname q),
     (''os_type'', rq_os_type q), (''os_version'', rq_os_version q)]"

definition agent_ip :: "ag_env \<Rightarrow> string \<Rightarrow> string option" where
  "agent_ip e ip =
     (let ipStr = (if ip = '''' then ''127.0.0.1'' else ip);
          parsed = (case ge_parse_ip e ipStr of None \<Rightarrow> ''127.0.0.1'' | Some p \<Rightarrow> p)
      in case ge_inet e parsed of None \<Rightarrow> ge_inet e ''127.0.0.1'' | Some v \<Rightarrow> Some v)"

definition Register_agent :: "ag_env \<Rightarrow> register_request \<Rightarrow> manager \<Rightarrow> (mg_error + register_response) \<times> manager" where
  "Register_agent e q s =
     (if rq_fingerprint q = '''' then (Inl FingerprintRequired, s)
      else case agent_sql e (GetAgentByFingerprint (rq_fingerprint q)) s of
        (Inr existing, s1) \<Rightarrow>
          (Inr \<lparr>rp_agent = ag_id existing, rp_status = ag_status existing,
                rp_message = (if ag_status existing = AgentStatusApproved \<and> ag_token_hash existing \<noteq> None
                              then ''Agent already approved'' else ''Agent already registered''),
                rp_name = ag_name existing\<rparr>, s1)
      | (Inl err, s1) \<Rightarrow>
          if err \<noteq> ErrNoRows then (Inl (StageFailed ''lookup fingerprint'' err), s1)
          else case agent_sql e (CreateAgent \<lparr>ag_id = ge_new_id e (mg_stmt s1), ag_org = DefaultOrgID, ag_name = rq_hostname q,
                   ag_fingerprint = rq_fingerprint q, ag_status = AgentStatusPending, ag_token_hash = None, ag_token_expires = None,
                   ag_os_info = os_info q, ag_ip = agent_ip e (rq_ip q)\<rparr>) s1 of
            (Inl err, s2) \<Rightarrow> (Inl (StageFailed ''create agent'' err), s2)
          | (Inr r, s2) \<Rightarrow>
              (Inr \<lparr>rp_agent = ag_id r, rp_status = AgentStatusPending, rp_message = ''Agent registered. Awaiting approval.'',
                    rp_name = ag_name r\<rparr>, s2))"

fun statusMessage :: "AgentStatus \<Rightarrow> string" where
  "statusMessage AgentStatusPending = ''Awaiting approval''"
| "statusMessage AgentStatusApproved = ''Approved''"
| "statusMessage AgentStatusOnline = ''Online''"
| "statusMessage AgentStatusOffline = ''Offline''"
| "statusMessage AgentStatusRevoked = ''Revoked''"

record poll_response =
  pl_status :: AgentStatus
  pl_message :: string
  pl_name :: string
  pl_token :: string

text \<open>Signing a token and storing its hash, as approval and polling both do.\<close>

definition store_token :: "ag_env \<Rightarrow> uuid \<Rightarrow> string \<Rightarrow> manager \<Rightarrow> (db_error + agent_row) \<times> manager" where
  "store_token e i tok s = agent_sql e (UpdateAgentAuthToken i (Some (ge_sha256 e tok)) (Some (ge_now e (mg_stmt s) + ge_ttl e))) s"

definition PollApproval :: "ag_env \<Rightarrow> string \<Rightarrow> string \<Rightarrow> manager \<Rightarrow> (mg_error + poll_response) \<times> manager" where
  "PollApproval e agentId fingerprint s =
     (case ge_parse_uuid e agentId of
        None \<Rightarrow> (Inl InvalidAgentID, s)
      | Some i \<Rightarrow>
          (case agent_sql e (GetAgentByID i) s of
             (Inl err, s1) \<Rightarrow> (Inl (StageFailed ''get agent'' err), s1)
           | (Inr a, s1) \<Rightarrow>
               if fingerprint = '''' \<or> fingerprint \<noteq> ag_fingerprint a then (Inl FingerprintMismatch, s1)
               else
                 let resp = \<lparr>pl_status = ag_status a, pl_message = statusMessage (ag_status a), pl_name = ag_name a, pl_token = ''''\<rparr>
                 in if ag_status a \<noteq> AgentStatusApproved then (Inr resp, s1)
                    else if \<not> ge_jwt e then (Inl NoJWTService, s1)
                    else case ge_token e (mg_stmt s1) (ag_id a) (ag_org a) ''agent'' (ag_name a) of
                      Inl msg \<Rightarrow> (Inl (TokenError msg), s1)
                    | Inr tok \<Rightarrow>
                        (case store_token e (ag_id a) tok s1 of
                           (Inl err, s2) \<Rightarrow> (Inl (StageFailed ''update auth token'' err), s2)
                         | (Inr r, s2) \<Rightarrow> (Inr (resp\<lparr>pl_token := tok\<rparr>), s2))))"

definition ApproveAgent :: "ag_env \<Rightarrow> uuid \<Rightarrow> uuid \<Rightarrow> manager \<Rightarrow> (mg_error + string) \<times> manager" where
  "ApproveAgent e i by_user s =
     (case agent_sql e (GetAgentByID i) s of
        (Inl err, s1) \<Rightarrow> (Inl (StageFailed ''get agent'' err), s1)
      | (Inr a, s1) \<Rightarrow>
          (case ge_token e (mg_stmt s1) i (ag_org a) ''agent'' (ag_name a) of
             Inl msg \<Rightarrow> (Inl (TokenError msg), s1)
           | Inr tok \<Rightarrow>
               (case store_token e i tok s1 of
                  (Inl err, s2) \<Rightarrow> (Inl (StageFailed ''update auth token'' err), s2)
                | (Inr r, s2) \<Rightarrow>
                    (case agent_sql e (UpdateAgentStatus i AgentStatusApproved) s2 of
                       (Inl err, s3) \<Rightarrow> (Inl (StageFailed ''update status'' err), s3)
                     | (Inr r, s3) \<Rightarrow> (Inr tok, publishEvent e (AgentApproved i by_user (ag_name a)) s3)))))"

definition RevokeAgent :: "ag_env \<Rightarrow> uuid \<Rightarrow> uuid \<Rightarrow> manager \<Rightarrow> (mg_error + unit) \<times> manager" where
  "RevokeAgent e i by_user s =
     (case agent_sql e (GetAgentByID i) s of
        (Inl err, s1) \<Rightarrow> (Inl (StageFailed ''get agent'' err), s1)
      | (Inr a, s1) \<Rightarrow>
          (case agent_sql e (UpdateAgentStatus i AgentStatusRevoked) s1 of
             (Inl err, s2) \<Rightarrow> (Inl (StageFailed ''update status'' err), s2)
           | (Inr r, s2) \<Rightarrow>
               (let s3 = (if ge_cache e \<and> ge_cache_ok e (mg_stmt s2) then s2\<lparr>mg_presence := removeAll i (mg_presence s2)\<rparr> else s2)
                in (Inr (), publishEvent e (AgentRevoked i by_user (ag_name a)) s3))))"

section \<open>The offline sweeper\<close>

text \<open>
  \<open>sw_done k\<close> tells whether the context is done at the \<open>k\<close>-th look; \<open>sw_mget\<close> is Redis' answer for the listed agents:
  an error, or for each whether its presence key exists.
\<close>

record sweep_env =
  sw_done :: "nat \<Rightarrow> bool"
  sw_mget :: "uuid list \<Rightarrow> bool list option"

fun sweep_agents :: "ag_env \<Rightarrow> sweep_env \<Rightarrow> nat \<Rightarrow> agents \<Rightarrow> bool list \<Rightarrow> nat \<Rightarrow> manager \<Rightarrow> nat \<times> manager" where
  "sweep_agents e w k [] ps n s = (n, s)"
| "sweep_agents e w k (a # as) ps n s =
     (if sw_done w k then (n, s)
      else case ps of
             [] \<Rightarrow> sweep_agents e w (Suc k) as [] n s
           | p # ps' \<Rightarrow>
               if p then sweep_agents e w (Suc k) as ps' n s
               else (case agent_sql e (MarkAgentOfflineIfOnline (ag_id a)) s of
                       (Inl err, s1) \<Rightarrow> sweep_agents e w (Suc k) as ps' n s1
                     | (Inr rows, s1) \<Rightarrow>
                         if rows = 0 then sweep_agents e w (Suc k) as ps' n s1
                         else sweep_agents e w (Suc k) as ps' (Suc n) (publishEvent e (AgentOfflineMsg (ag_id a)) s1)))"

definition Sweep :: "ag_env \<Rightarrow> sweep_env \<Rightarrow> uuid \<Rightarrow> manager \<Rightarrow> nat \<times> manager" where
  "Sweep e w org s =
     (if sw_done w 0 then (0, s)
      else case agent_sql e (ListAgentsByStatus org AgentStatusOnline) s of
             (Inl err, s1) \<Rightarrow> (0, s1)
           | (Inr as, s1) \<Rightarrow>
               if as = [] then (0, s1)
               else case sw_mget w (map ag_id as) of
                      None \<Rightarrow> (0, s1)
                    | Some ps \<Rightarrow> sweep_agents e w 1 as ps 0 s1)"


section \<open>Keeping an invariant of the table\<close>

text \<open>
  What an invariant of the table needs of the statements so that every operation of the manager and the sweeper keeps
  it; approval is the one operation that may move an agent out of any status.
\<close>

locale agents_invariant =
  fixes P :: "agents \<Rightarrow> bool"
  assumes P_create: "P t \<Longrightarrow> ag_status new = AgentStatusPending \<Longrightarrow> ag_fingerprint new \<noteq> '''' \<Longrightarrow> P (snd (CreateAgent new t))"
    and P_token: "P t \<Longrightarrow> P (snd (UpdateAgentAuthToken i h x t))"
    and P_revoke: "P t \<Longrightarrow> P (snd (UpdateAgentStatus i AgentStatusRevoked t))"
    and P_offline: "P t \<Longrightarrow> P (snd (MarkAgentOfflineIfOnline i t))"
begin

lemma sql_keeps:
  assumes "\<And>k t. P t \<Longrightarrow> P (ge_meanwhile e k t)" "\<And>t. P t \<Longrightarrow> P (snd (st t))" "P (mg_agents s)" "agent_sql e st s = (r, s')"
  shows "P (mg_agents s')"
proof -
  let ?t = "ge_meanwhile e (mg_stmt s) (mg_agents s)"
  have "mg_agents s' = ?t \<or> mg_agents s' = snd (st ?t)"
    using assms(4) by (auto simp: agent_sql_def Let_def split: prod.splits option.splits db_fault.splits)
  then show ?thesis using assms(1-3) by auto
qed

lemma read_keeps:
  assumes "\<And>k t. P t \<Longrightarrow> P (ge_meanwhile e k t)" "\<And>t. snd (st t) = t" "P (mg_agents s)" "agent_sql e st s = (r, s')"
  shows "P (mg_agents s')"
  by (rule sql_keeps[OF assms(1) _ assms(3,4)]) (simp_all add: assms(2))

lemma publish_keeps: "P (mg_agents (publishEvent e m s)) = P (mg_agents s)"
  by (simp add: publishEvent_def)

lemma register_keeps:
  assumes m: "\<And>k t. P t \<Longrightarrow> P (ge_meanwhile e k t)" and P: "P (mg_agents s)"
  shows "P (mg_agents (snd (Register_agent e q s)))"
proof (cases "rq_fingerprint q = ''''")
  case False
  obtain r1 s1 where 1: "agent_sql e (GetAgentByFingerprint (rq_fingerprint q)) s = (r1, s1)" by fastforce
  have P1: "P (mg_agents s1)" by (rule read_keeps[OF m _ P 1]) (simp_all add: GetAgentByFingerprint_def on_row_def)
  show ?thesis
  proof (cases "r1 = Inl ErrNoRows")
    case True
    let ?new = "\<lparr>ag_id = ge_new_id e (mg_stmt s1), ag_org = DefaultOrgID, ag_name = rq_hostname q,
      ag_fingerprint = rq_fingerprint q, ag_status = AgentStatusPending, ag_token_hash = None, ag_token_expires = None,
      ag_os_info = os_info q, ag_ip = agent_ip e (rq_ip q)\<rparr>"
    obtain r2 s2 where 2: "agent_sql e (CreateAgent ?new) s1 = (r2, s2)" by fastforce
    have "P (mg_agents s2)" by (rule sql_keeps[OF m _ P1 2]) (simp_all add: P_create False)
    then show ?thesis using False True 1 2 by (simp add: Register_agent_def split: sum.splits)
  next
    case other: False
    then show ?thesis using False 1 P1 by (auto simp: Register_agent_def split: sum.splits)
  qed
qed (simp add: Register_agent_def P)

lemma store_keeps:
  assumes m: "\<And>k t. P t \<Longrightarrow> P (ge_meanwhile e k t)" and P: "P (mg_agents s)" and r: "store_token e i tok s = (r, s')"
  shows "P (mg_agents s')"
  by (rule sql_keeps[OF m P_token P r[unfolded store_token_def]])

lemma poll_keeps:
  assumes m: "\<And>k t. P t \<Longrightarrow> P (ge_meanwhile e k t)" and P: "P (mg_agents s)"
  shows "P (mg_agents (snd (PollApproval e aid f s)))"
proof (cases "ge_parse_uuid e aid")
  case (Some i)
  obtain r1 s1 where 1: "agent_sql e (GetAgentByID i) s = (r1, s1)" by fastforce
  have P1: "P (mg_agents s1)" by (rule read_keeps[OF m _ P 1]) (simp_all add: GetAgentByID_def on_row_def)
  have "snd (PollApproval e aid f s) = s1 \<or> (\<exists>j tok r. store_token e j tok s1 = (r, snd (PollApproval e aid f s)))"
    using Some 1 by (auto simp: PollApproval_def Let_def split: sum.splits prod.splits if_splits)
  then show ?thesis using P1 store_keeps[OF m P1] by fastforce
qed (simp add: PollApproval_def P)

lemma revoke_keeps:
  assumes m: "\<And>k t. P t \<Longrightarrow> P (ge_meanwhile e k t)" and P: "P (mg_agents s)"
  shows "P (mg_agents (snd (RevokeAgent e i u s)))"
proof -
  obtain r1 s1 where 1: "agent_sql e (GetAgentByID i) s = (r1, s1)" by fastforce
  have P1: "P (mg_agents s1)" by (rule read_keeps[OF m _ P 1]) (simp_all add: GetAgentByID_def on_row_def)
  obtain r2 s2 where 2: "agent_sql e (UpdateAgentStatus i AgentStatusRevoked) s1 = (r2, s2)" by fastforce
  have P2: "P (mg_agents s2)" by (rule sql_keeps[OF m P_revoke P1 2])
  show ?thesis using 1 2 P1 P2 by (auto simp: RevokeAgent_def Let_def publish_keeps split: sum.splits)
qed

lemma sweep_agents_keeps:
  assumes m: "\<And>k t. P t \<Longrightarrow> P (ge_meanwhile e k t)"
  shows "P (mg_agents s) \<Longrightarrow> P (mg_agents (snd (sweep_agents e w k as ps n s)))"
proof (induction as arbitrary: k ps n s)
  case (Cons a as)
  obtain r1 s1 where 1: "agent_sql e (MarkAgentOfflineIfOnline (ag_id a)) s = (r1, s1)" by fastforce
  have P1: "P (mg_agents s1)" by (rule sql_keeps[OF m P_offline Cons.prems 1])
  then have "P (mg_agents (publishEvent e x s1))" for x by (simp add: publish_keeps)
  then show ?case using Cons 1 P1 by (auto split: list.splits sum.splits)
qed simp

lemma sweep_keeps:
  assumes m: "\<And>k t. P t \<Longrightarrow> P (ge_meanwhile e k t)" and P: "P (mg_agents s)"
  shows "P (mg_agents (snd (Sweep e w org s)))"
proof -
  obtain r1 s1 where 1: "agent_sql e (ListAgentsByStatus org AgentStatusOnline) s = (r1, s1)" by fastforce
  have "P (mg_agents s1)" by (rule read_keeps[OF m _ P 1]) (simp_all add: ListAgentsByStatus_def)
  then show ?thesis using 1 P sweep_agents_keeps[OF m] by (auto simp: Sweep_def split: sum.splits option.splits)
qed

lemma approve_keeps:
  assumes m: "\<And>k t. P t \<Longrightarrow> P (ge_meanwhile e k t)" and P: "P (mg_agents s)"
    and a: "\<And>t. P t \<Longrightarrow> P (snd (UpdateAgentStatus i AgentStatusApproved t))"
  shows "P (mg_agents (snd (ApproveAgent e i u s)))"
proof -
  obtain r1 s1 where 1: "agent_sql e (GetAgentByID i) s = (r1, s1)" by fastforce
  have P1: "P (mg_agents s1)" by (rule read_keeps[OF m _ P 1]) (simp_all add: GetAgentByID_def on_row_def)
  have P2: "P (mg_agents s2)" if "store_token e i tok s1 = (r2, s2)" for tok r2 s2 by (rule store_keeps[OF m P1 that])
  have P3: "P (mg_agents s3)" if "store_token e i tok s1 = (r2, s2)" "agent_sql e (UpdateAgentStatus i AgentStatusApproved) s2 = (r3, s3)" for tok r2 s2 r3 s3
    by (rule sql_keeps[OF m a P2[OF that(1)] that(2)])
  show ?thesis using 1 P1 P2 P3 by (auto simp: ApproveAgent_def publish_keeps split: sum.splits prod.splits)
qed

end

lemma update_agent_table: "snd (update_agent i f t) = update_where (\<lambda>r. ag_id r = i) f t"
  by (simp add: update_agent_def on_row_def Let_def)

lemma move_status_table: "snd (move_status from st i t) = update_where (\<lambda>r. ag_id r = i \<and> ag_status r \<in> from) (\<lambda>r. r\<lparr>ag_status := st\<rparr>) t"
  by (simp add: move_status_def Let_def)

lemmas agent_writes = UpdateAgentAuthToken_def UpdateAgentStatus_def MarkAgentOfflineIfOnline_def MarkAgentOnlineIfOffline_def
  MarkAgentOnlineIfUsable_def update_agent_table move_status_table

text \<open>Ids and fingerprints are unique, and no fingerprint is empty.\<close>

definition agents_wf :: "agents \<Rightarrow> bool" where
  "agents_wf t \<longleftrightarrow> distinct (map ag_id t) \<and> distinct (map ag_fingerprint t) \<and> '''' \<notin> ag_fingerprint ` set t"

lemma update_where_maps:
  assumes "\<And>r. key (f r) = key r"
  shows "map key (update_where Q f t) = map key t"
  using assms by (simp add: update_where_def)

lemma agents_wf_update:
  assumes "\<And>r. ag_id (f r) = ag_id r" "\<And>r. ag_fingerprint (f r) = ag_fingerprint r"
  shows "agents_wf (update_where Q f t) = agents_wf t"
  using update_where_maps[of ag_id f Q t] update_where_maps[of ag_fingerprint f Q t] assms
  unfolding agents_wf_def by (metis list.set_map)

interpretation agents_type: agents_invariant agents_wf
proof unfold_locales
  fix t and new :: agent_row
  assume wf: "agents_wf t" and "ag_fingerprint new \<noteq> ''''"
  then show "agents_wf (snd (CreateAgent new t))"
    by (auto simp: agents_wf_def CreateAgent_def exists_where_iff)
qed (simp_all add: agent_writes agents_wf_update)


section \<open>Tokens\<close>

lemma find_update_agent:
  assumes "\<And>r. ag_id (f r) = ag_id r"
  shows "find_row ag_id i (update_where (\<lambda>r. ag_id r = i) f t) = map_option f (find_row ag_id i t)"
  by (induction t) (auto simp: find_row_def update_where_def assms)

text \<open>
  C5: A poll hands out a token only to the machine that registered: the row with this id, as read by the poll, is
  approved and has the presented, non-empty fingerprint; the token is the one signed for that agent, and the row left behind
  holds its hash.
\<close>

theorem poll_token_only_to_owner:
  assumes r: "PollApproval e aid f s = (Inr resp, s')" and tok: "pl_token resp \<noteq> ''''"
  shows "\<exists>i a. ge_parse_uuid e aid = Some i \<and> find_row ag_id i (ge_meanwhile e (mg_stmt s) (mg_agents s)) = Some a
    \<and> ag_status a = AgentStatusApproved \<and> f \<noteq> '''' \<and> ag_fingerprint a = f
    \<and> ge_token e (Suc (mg_stmt s)) i (ag_org a) ''agent'' (ag_name a) = Inr (pl_token resp)
    \<and> map_option ag_token_hash (find_row ag_id i (mg_agents s')) = Some (Some (ge_sha256 e (pl_token resp)))"
proof -
  obtain i where i: "ge_parse_uuid e aid = Some i" using r by (auto simp: PollApproval_def split: option.splits)
  obtain r1 s1 where 1: "agent_sql e (GetAgentByID i) s = (r1, s1)" by fastforce
  obtain a where a: "r1 = Inr a" using r i 1 by (cases r1) (auto simp: PollApproval_def)
  have row: "find_row ag_id i (ge_meanwhile e (mg_stmt s) (mg_agents s)) = Some a" "mg_stmt s1 = Suc (mg_stmt s)"
    using 1 a by (auto simp: agent_sql_def Let_def GetAgentByID_def on_row_def split: option.splits db_fault.splits)
  then have id: "ag_id a = i" by (auto simp: find_row_def find_Some_iff)
  have f: "f \<noteq> ''''" "f = ag_fingerprint a" "ag_status a = AgentStatusApproved" "ge_jwt e"
    using r i 1 a tok by (auto simp: PollApproval_def Let_def split: if_splits)
  obtain t where t: "ge_token e (mg_stmt s1) i (ag_org a) ''agent'' (ag_name a) = Inr t"
    using r i 1 a f id by (auto simp: PollApproval_def Let_def split: sum.splits)
  obtain r2 s2 where 2: "store_token e i t s1 = (r2, s2)" by fastforce
  have r2: "\<exists>x. r2 = Inr x" "s' = s2" "pl_token resp = t"
    using r i 1 a f id t 2 by (auto simp: PollApproval_def Let_def split: sum.splits)
  let ?t = "ge_meanwhile e (mg_stmt s1) (mg_agents s1)"
  let ?upd = "\<lambda>r. r\<lparr>ag_token_hash := Some (ge_sha256 e t), ag_token_expires := Some (ge_now e (mg_stmt s1) + ge_ttl e)\<rparr>"
  have "find_row ag_id i (update_where (\<lambda>r. ag_id r = i) ?upd ?t) \<noteq> None \<and> mg_agents s2 = update_where (\<lambda>r. ag_id r = i) ?upd ?t"
    using 2 r2(1) by (auto simp: store_token_def agent_sql_def Let_def UpdateAgentAuthToken_def update_agent_def on_row_def split: option.splits db_fault.splits)
  then have "map_option ag_token_hash (find_row ag_id i (mg_agents s2)) = Some (Some (ge_sha256 e t))"
    by (auto simp: find_update_agent)
  then show ?thesis using i row f id t r2(2,3) by auto
qed


section \<open>Samples\<close>

definition sample_agent :: "AgentStatus \<Rightarrow> agent_row" where
  "sample_agent st = \<lparr>ag_id = 7, ag_org = DefaultOrgID, ag_name = ''edge'', ag_fingerprint = ''ff'', ag_status = st, ag_token_hash = None,
     ag_token_expires = None, ag_os_info = [], ag_ip = None\<rparr>"

definition sample_ag_env :: ag_env where
  "sample_ag_env = \<lparr>ge_fault = (\<lambda>_. None), ge_meanwhile = (\<lambda>_ t. t), ge_new_id = (\<lambda>n. 100 + n), ge_token = (\<lambda>_ _ _ _ name. Inr (''jwt.'' @ name)),
     ge_now = int, ge_sha256 = rev, ge_parse_uuid = (\<lambda>x. if x = ''7'' then Some 7 else None), ge_parse_ip = Some, ge_inet = Some, ge_ttl = 60,
     ge_jwt = True, ge_cache = True, ge_cache_ok = (\<lambda>_. True), ge_nats = True, ge_publish = (\<lambda>_. True)\<rparr>"

definition sample_manager :: "AgentStatus \<Rightarrow> manager" where
  "sample_manager st = \<lparr>mg_agents = [sample_agent st], mg_stmt = 0, mg_presence = [], mg_published = []\<rparr>"

definition sample_request :: register_request where
  "sample_request = \<lparr>rq_fingerprint = ''aa'', rq_hostname = ''h'', rq_ip = '''', rq_os_type = ''linux'', rq_os_version = ''6'', rq_arch = ''arm'', rq_version = ''1''\<rparr>"


theorem poll_token_only_to_owner_witness:
  "let p = PollApproval sample_ag_env ''7'' ''ff'' (sample_manager AgentStatusApproved)
   in map_option pl_token (case fst p of Inr x \<Rightarrow> Some x | Inl _ \<Rightarrow> None) = Some ''jwt.edge''
     \<and> map_option ag_token_hash (find_row ag_id 7 (mg_agents (snd p))) = Some (Some (rev ''jwt.edge''))
     \<and> fst (PollApproval sample_ag_env ''7'' ''ee'' (sample_manager AgentStatusApproved)) = Inl FingerprintMismatch"
proof -
  let ?p = "PollApproval sample_ag_env ''7'' ''ff'' (sample_manager AgentStatusApproved)"
  let ?resp = "\<lparr>pl_status = AgentStatusApproved, pl_message = ''Approved'', pl_name = ''edge'', pl_token = ''jwt.edge''\<rparr>"
  have 1: "fst ?p = Inr ?resp" by code_simp
  then have p: "?p = (Inr ?resp, snd ?p)" by (simp add: prod_eq_iff)
  have "fst (PollApproval sample_ag_env ''7'' ''ee'' (sample_manager AgentStatusApproved)) = Inl FingerprintMismatch" by code_simp
  then show ?thesis using poll_token_only_to_owner[OF p] 1 by (auto simp: sample_ag_env_def Let_def split: if_splits)
qed

end
