(* ===== verification/Registry.thy ===== *)
theory Registry
  imports Agents Collect
begin

text \<open>
  The connections of the agents (controlplane/internal/grpcserver/registry.go), the life of a stream in \<^verbatim>\<open>Connect\<close>
  (handler.go) and the revocation of an agent (api/handler/agents.go): registry, send goroutine, handler and revoking
  request as interleaved atomic steps, one per critical section, statement or channel operation.
\<close>

section \<open>Connections\<close>

datatype server_message =
    MsgPushRule collection_rule
  | MsgCancelRule string
  | MsgRulesSync "collection_rule list"
  | MsgCredentials "string list"
  | MsgRevoke string
  | MsgAck string bool
  | MsgListDirectory string string
  | MsgDryRun string

text \<open>Where the send goroutine of a connection and its \<^verbatim>\<open>Connect\<close> call are.\<close>

datatype writer_pc = WriterNone | WriterSelect | WriterSending server_message | WriterNoting | WriterStopped

text \<open>A heartbeat's telemetry; the rate is mantissa and exponent, absent when it is not a finite number, which JSON cannot carry.\<close>

record agent_stats =
  as_queue_depth :: int
  as_uptime_seconds :: int
  as_upload_bps :: "(int \<times> int) option"
  as_version :: string

datatype beat_pc = BeatPresence | BeatMarker | BeatHeal | BeatStats

datatype handler_pc =
    AtPresence
  | AtOnlineGate
  | AtCredentials
  | AtRuleSync
  | AtMarker
  | AtReceive
  | AtBeat beat_pc agent_stats
  | Returning
  | Returned

text \<open>
  \<^verbatim>\<open>SendCh\<close> is its buffer and whether it is closed; \<open>cn_notify\<close> counts the generations of the \<^verbatim>\<open>notify\<close> channel.  The
  code does not keep \<open>cn_enqueued\<close> and \<open>cn_written\<close>, the messages accepted and written so far, nor \<open>cn_ungated\<close>, that the statement
  of the online gate failed.
\<close>

record agent_conn =
  cn_agent :: uuid
  cn_queue :: "server_message list"
  cn_closed :: bool
  cn_queuedSeq :: "64 word"
  cn_sentSeq :: "64 word"
  cn_notify :: nat
  cn_writerDone :: bool
  cn_stopping :: bool
  cn_cancelled :: bool
  cn_degraded :: bool
  cn_writer :: writer_pc
  cn_handler :: handler_pc
  cn_enqueued :: "server_message list"
  cn_written :: "server_message list"
  cn_ungated :: bool

record registry =
  rg_conns :: "uuid \<rightharpoonup> nat"
  rg_heap :: "agent_conn list"

definition sendChCapacity :: nat where
  "sendChCapacity = 32"

definition new_conn :: "uuid \<Rightarrow> agent_conn" where
  "new_conn a = \<lparr>cn_agent = a, cn_queue = [], cn_closed = False, cn_queuedSeq = 0, cn_sentSeq = 0, cn_notify = 0, cn_writerDone = False,
     cn_stopping = False, cn_cancelled = False, cn_degraded = False, cn_writer = WriterNone, cn_handler = AtPresence,
     cn_enqueued = [], cn_written = [], cn_ungated = False\<rparr>"

definition conn_at :: "registry \<Rightarrow> nat \<Rightarrow> agent_conn" where
  "conn_at r i = rg_heap r ! i"

definition on_conn :: "nat \<Rightarrow> (agent_conn \<Rightarrow> agent_conn) \<Rightarrow> registry \<Rightarrow> registry" where
  "on_conn i f r = r\<lparr>rg_heap := (rg_heap r)[i := f (conn_at r i)]\<rparr>"

definition cancel_conn :: "nat \<Rightarrow> registry \<Rightarrow> registry" where
  "cancel_conn i = on_conn i (\<lambda>c. c\<lparr>cn_cancelled := True\<rparr>)"

definition requestStop :: "nat \<Rightarrow> registry \<Rightarrow> registry" where
  "requestStop i = on_conn i (\<lambda>c. c\<lparr>cn_stopping := True\<rparr>)"

definition markWriterStopped :: "nat \<Rightarrow> registry \<Rightarrow> registry" where
  "markWriterStopped i = on_conn i (\<lambda>c. c\<lparr>cn_writerDone := True\<rparr>)"

definition noteWritten :: "nat \<Rightarrow> registry \<Rightarrow> registry" where
  "noteWritten i = on_conn i (\<lambda>c. c\<lparr>cn_sentSeq := cn_sentSeq c + 1, cn_notify := Suc (cn_notify c)\<rparr>)"

definition Register_conn :: "uuid \<Rightarrow> registry \<Rightarrow> nat \<times> registry" where
  "Register_conn a r =
     (let i = length (rg_heap r);
          r1 = (case rg_conns r a of None \<Rightarrow> r | Some prev \<Rightarrow> cancel_conn prev r)
      in (i, r1\<lparr>rg_heap := rg_heap r1 @ [new_conn a], rg_conns := (rg_conns r1)(a \<mapsto> i)\<rparr>))"

text \<open>\<open>None\<close> is a panic: closing a closed channel, or sending on one.\<close>

definition Unregister :: "nat \<Rightarrow> registry \<Rightarrow> (bool \<times> registry) option" where
  "Unregister i r =
     (let a = cn_agent (conn_at r i)
      in if rg_conns r a \<noteq> Some i then Some (False, r)
         else if cn_closed (conn_at r i) then None
         else Some (True, markWriterStopped i ((on_conn i (\<lambda>c. c\<lparr>cn_closed := True\<rparr>) r)\<lparr>rg_conns := (rg_conns r)(a := None)\<rparr>)))"

definition enqueue :: "nat \<Rightarrow> server_message \<Rightarrow> registry \<Rightarrow> (64 word option \<times> registry) option" where
  "enqueue i m r =
     (let c = conn_at r i
      in if cn_closed c then None
         else if length (cn_queue c) < sendChCapacity
         then Some (Some (cn_queuedSeq c + 1),
                    on_conn i (\<lambda>c. c\<lparr>cn_queue := cn_queue c @ [m], cn_queuedSeq := cn_queuedSeq c + 1, cn_enqueued := cn_enqueued c @ [m]\<rparr>) r)
         else Some (None, r))"

definition Send_to :: "uuid \<Rightarrow> server_message \<Rightarrow> registry \<Rightarrow> (bool \<times> registry) option" where
  "Send_to a m r =
     (case rg_conns r a of
        None \<Rightarrow> Some (False, r)
      | Some i \<Rightarrow> map_option (\<lambda>(q, r'). (q \<noteq> None, r')) (enqueue i m r))"

text \<open>The first half of \<^verbatim>\<open>sendSync\<close>: identity check and enqueue under the registry lock.\<close>

definition sendSync_enqueue :: "nat \<Rightarrow> server_message \<Rightarrow> registry \<Rightarrow> (64 word option \<times> registry) option" where
  "sendSync_enqueue i m r =
     (if rg_conns r (cn_agent (conn_at r i)) \<noteq> Some i then Some (None, r) else enqueue i m r)"

definition IsOnline :: "uuid \<Rightarrow> registry \<Rightarrow> bool" where
  "IsOnline a r \<longleftrightarrow> rg_conns r a \<noteq> None"

definition Disconnect :: "uuid \<Rightarrow> registry \<Rightarrow> bool \<times> registry" where
  "Disconnect a r = (case rg_conns r a of None \<Rightarrow> (False, r) | Some i \<Rightarrow> (True, cancel_conn i r))"

definition Stop_conn :: "uuid \<Rightarrow> registry \<Rightarrow> bool \<times> registry" where
  "Stop_conn a r = (case rg_conns r a of None \<Rightarrow> (False, r) | Some i \<Rightarrow> (True, requestStop i r))"

section \<open>The server\<close>

text \<open>
  A revoking request: before the status is written; after it; with the presence key deleted; with the connection captured; polling and parked in
  \<^verbatim>\<open>waitForWrite\<close>; about to stop or to cut the connection; finished.  The number is the count of approvals of the agent when
  the status was written.
\<close>

datatype revoke_pc =
    RvStart uuid
  | RvWritten uuid nat
  | RvForgotten uuid nat
  | RvCapture uuid nat
  | RvSend uuid nat nat
  | RvPoll uuid nat nat "64 word"
  | RvWait uuid nat nat "64 word" nat
  | RvStop uuid nat nat
  | RvCut uuid nat nat
  | RvDone uuid nat "nat option" bool
  | RvFailed uuid

text \<open>What is left of the deferred function of a \<^verbatim>\<open>Connect\<close> call that owned its registry entry.\<close>

datatype cleanup = ClPresence uuid | ClMarker uuid | ClOffline uuid | ClDone

text \<open>
  \<open>sv_online\<close>, \<open>sv_marked\<close> and \<open>sv_stats\<close> are the agents' presence, degraded-sync and telemetry keys in the cache,
  \<open>sv_published\<close> the events the server handed to NATS.
\<close>

record server =
  sv_reg :: registry
  sv_agents :: agents
  sv_checked :: "uuid list"
  sv_revokes :: "revoke_pc list"
  sv_approvals :: "uuid \<Rightarrow> nat"
  sv_panicked :: bool
  sv_online :: "uuid set"
  sv_marked :: "uuid set"
  sv_stats :: "uuid \<rightharpoonup> agent_stats"
  sv_published :: "agent_message list"
  sv_cleanups :: "cleanup list"

text \<open>Whether a statement succeeded, did nothing, or took effect and lost its answer.\<close>

datatype db_answer = Answered | NotRun | Lost

definition status_usable :: "AgentStatus \<Rightarrow> bool" where
  "status_usable st \<longleftrightarrow> st \<in> {AgentStatusApproved, AgentStatusOnline, AgentStatusOffline}"

definition assertAgentUsable :: "db_answer \<Rightarrow> uuid \<Rightarrow> agents \<Rightarrow> bool" where
  "assertAgentUsable ans a t \<longleftrightarrow>
     ans = Answered \<and> (case fst (GetAgentByID a t) of Inl err \<Rightarrow> False | Inr r \<Rightarrow> status_usable (ag_status r))"

definition in_reg :: "(registry \<Rightarrow> registry) \<Rightarrow> server \<Rightarrow> server" where
  "in_reg f s = s\<lparr>sv_reg := f (sv_reg s)\<rparr>"

definition write_agents :: "db_answer \<Rightarrow> 'a agent_stmt \<Rightarrow> server \<Rightarrow> server" where
  "write_agents ans st s = (if ans = NotRun then s else s\<lparr>sv_agents := snd (st (sv_agents s))\<rparr>)"

text \<open>A cache write that may fail; its error is only logged.\<close>

definition cached :: "bool \<Rightarrow> (server \<Rightarrow> server) \<Rightarrow> server \<Rightarrow> server" where
  "cached good f s = (if good then f s else s)"

definition set_online :: "uuid \<Rightarrow> server \<Rightarrow> server" where
  "set_online a s = s\<lparr>sv_online := insert a (sv_online s)\<rparr>"

definition del_online :: "uuid \<Rightarrow> server \<Rightarrow> server" where
  "del_online a s = s\<lparr>sv_online := sv_online s - {a}\<rparr>"

definition set_marker :: "uuid \<Rightarrow> server \<Rightarrow> server" where
  "set_marker a s = s\<lparr>sv_marked := insert a (sv_marked s)\<rparr>"

definition del_marker :: "uuid \<Rightarrow> server \<Rightarrow> server" where
  "del_marker a s = s\<lparr>sv_marked := sv_marked s - {a}\<rparr>"

definition publish_event :: "agent_message \<Rightarrow> server \<Rightarrow> server" where
  "publish_event m s = s\<lparr>sv_published := sv_published s @ [m]\<rparr>"

definition set_handler :: "nat \<Rightarrow> handler_pc \<Rightarrow> server \<Rightarrow> server" where
  "set_handler i h = in_reg (on_conn i (\<lambda>c. c\<lparr>cn_handler := h\<rparr>))"

definition set_writer :: "nat \<Rightarrow> writer_pc \<Rightarrow> registry \<Rightarrow> registry" where
  "set_writer i w = on_conn i (\<lambda>c. c\<lparr>cn_writer := w\<rparr>)"

text \<open>A send by agent id, by any goroutine.\<close>

definition send_agent :: "uuid \<Rightarrow> server_message \<Rightarrow> server \<Rightarrow> bool \<times> server" where
  "send_agent a m s = (case Send_to a m (sv_reg s) of None \<Rightarrow> (False, s\<lparr>sv_panicked := True\<rparr>) | Some (ok, r) \<Rightarrow> (ok, s\<lparr>sv_reg := r\<rparr>))"

section \<open>Connect\<close>

definition mark_presence :: "bool \<Rightarrow> nat \<Rightarrow> server \<Rightarrow> server" where
  "mark_presence good i s = set_handler i AtOnlineGate (cached good (set_online (cn_agent (conn_at (sv_reg s) i))) s)"

text \<open>The gate: \<^verbatim>\<open>MarkAgentOnlineIfUsable\<close>; past it the send goroutine is started.  A failed statement lets the stream pass.\<close>

definition online_gate :: "db_answer \<Rightarrow> nat \<Rightarrow> server \<Rightarrow> server" where
  "online_gate ans i s =
     (let a = cn_agent (conn_at (sv_reg s) i); s1 = write_agents ans (MarkAgentOnlineIfUsable a) s;
          rows = fst (MarkAgentOnlineIfUsable a (sv_agents s))
      in if ans = Answered \<and> rows = Inr 0 then set_handler i Returning s1
         else in_reg (on_conn i (\<lambda>c. c\<lparr>cn_handler := AtCredentials, cn_writer := WriterSelect, cn_ungated := (ans \<noteq> Answered)\<rparr>))
                (publish_event (AgentOnlineMsg a) s1))"

definition push_credentials :: "nat \<Rightarrow> string list option \<Rightarrow> server \<Rightarrow> server" where
  "push_credentials i covered s =
     set_handler i AtRuleSync
       (case covered of None \<Rightarrow> s | Some bs \<Rightarrow> snd (send_agent (cn_agent (conn_at (sv_reg s) i)) (MsgCredentials bs) s))"

datatype sync_outcome = SyncSnapshot "collection_rule list" | SyncDegraded | SyncFailed

definition sync_rules :: "nat \<Rightarrow> sync_outcome \<Rightarrow> server \<Rightarrow> server" where
  "sync_rules i out s =
     (case out of
        SyncFailed \<Rightarrow> set_handler i Returning s
      | SyncDegraded \<Rightarrow> in_reg (on_conn i (\<lambda>c. c\<lparr>cn_degraded := True, cn_handler := AtMarker\<rparr>)) s
      | SyncSnapshot rules \<Rightarrow>
          (let (ok, s1) = send_agent (cn_agent (conn_at (sv_reg s) i)) (MsgRulesSync rules) s
           in set_handler i (if ok then AtMarker else Returning) s1))"

definition settle_marker :: "bool \<Rightarrow> nat \<Rightarrow> server \<Rightarrow> server" where
  "settle_marker good i s =
     (let c = conn_at (sv_reg s) i
      in set_handler i AtReceive (cached good (if cn_degraded c then set_marker (cn_agent c) else del_marker (cn_agent c)) s))"

text \<open>A heartbeat, call by call; the columns \<^verbatim>\<open>last_seen_at\<close> and \<^verbatim>\<open>updated_at\<close> it also writes are not part of the rows.\<close>

definition beat_step :: "bool \<Rightarrow> db_answer \<Rightarrow> nat \<Rightarrow> beat_pc \<Rightarrow> agent_stats \<Rightarrow> server \<Rightarrow> server" where
  "beat_step good ans i b hb s =
     (let c = conn_at (sv_reg s) i; a = cn_agent c
      in case b of
           BeatPresence \<Rightarrow> set_handler i (AtBeat BeatMarker hb) (cached good (set_online a) s)
         | BeatMarker \<Rightarrow> set_handler i (AtBeat BeatHeal hb) (if cn_degraded c then cached good (set_marker a) s else s)
         | BeatHeal \<Rightarrow>
             (let s1 = write_agents ans (MarkAgentOnlineIfOffline a) s; rows = fst (MarkAgentOnlineIfOffline a (sv_agents s))
              in set_handler i (AtBeat BeatStats hb) (if ans = Answered \<and> rows \<noteq> Inr 0 then publish_event (AgentOnlineMsg a) s1 else s1))
         | BeatStats \<Rightarrow>
             set_handler i AtReceive
               (if as_upload_bps hb = None then s else cached good (\<lambda>s. s\<lparr>sv_stats := (sv_stats s)(a \<mapsto> hb)\<rparr>) s))"

text \<open>The deferred function: the entry is removed, and the connection that owned it cleans up after the agent.\<close>

definition leave :: "nat \<Rightarrow> server \<Rightarrow> server" where
  "leave i s =
     (case Unregister i (sv_reg s) of
        None \<Rightarrow> s\<lparr>sv_panicked := True\<rparr>
      | Some (owned, r) \<Rightarrow>
          set_handler i Returned
            (s\<lparr>sv_reg := r, sv_cleanups := sv_cleanups s @ (if owned then [ClPresence (cn_agent (conn_at r i))] else [])\<rparr>))"

definition set_cleanup :: "nat \<Rightarrow> cleanup \<Rightarrow> server \<Rightarrow> server" where
  "set_cleanup k p s = s\<lparr>sv_cleanups := (sv_cleanups s)[k := p]\<rparr>"

definition markOfflineOnDisconnect :: "db_answer \<Rightarrow> uuid \<Rightarrow> server \<Rightarrow> server" where
  "markOfflineOnDisconnect ans a s =
     (let s1 = write_agents ans (MarkAgentOfflineIfOnline a) s; rows = fst (MarkAgentOfflineIfOnline a (sv_agents s))
      in if ans \<noteq> Answered \<or> rows \<noteq> Inr 0 then publish_event (AgentOfflineMsg a) s1 else s1)"

definition cleanup_step :: "bool \<Rightarrow> db_answer \<Rightarrow> nat \<Rightarrow> server \<Rightarrow> server option" where
  "cleanup_step good ans k s =
     (case sv_cleanups s ! k of
        ClPresence a \<Rightarrow> Some (set_cleanup k (ClMarker a) (cached good (del_online a) s))
      | ClMarker a \<Rightarrow> Some (set_cleanup k (ClOffline a) (cached good (del_marker a) s))
      | ClOffline a \<Rightarrow> Some (set_cleanup k ClDone (markOfflineOnDisconnect ans a s))
      | ClDone \<Rightarrow> None)"

section \<open>Revoking\<close>

definition set_revoke :: "nat \<Rightarrow> revoke_pc \<Rightarrow> server \<Rightarrow> server" where
  "set_revoke j p s = s\<lparr>sv_revokes := (sv_revokes s)[j := p]\<rparr>"

definition revoke_status :: "db_answer \<Rightarrow> nat \<Rightarrow> uuid \<Rightarrow> server \<Rightarrow> server" where
  "revoke_status ans j a s =
     (let s1 = write_agents ans (UpdateAgentStatus a AgentStatusRevoked) s
      in set_revoke j (if ans = Answered \<and> find_row ag_id a (sv_agents s1) \<noteq> None then RvWritten a (sv_approvals s a) else RvFailed a) s1)"

definition revoke_send :: "nat \<Rightarrow> uuid \<Rightarrow> nat \<Rightarrow> nat \<Rightarrow> server \<Rightarrow> server" where
  "revoke_send j a k i s =
     (case sendSync_enqueue i (MsgRevoke ''revoked_by_admin'') (sv_reg s) of
        None \<Rightarrow> s\<lparr>sv_panicked := True\<rparr>
      | Some (None, r) \<Rightarrow> set_revoke j (RvCut a k i) s
      | Some (Some seq, r) \<Rightarrow> set_revoke j (RvPoll a k i seq) (s\<lparr>sv_reg := r\<rparr>))"

text \<open>What ends a wait: progress of the writer, its end, or the timer.\<close>

datatype wake = WakeNotify | WakeDone | WakeTimer

definition wakes :: "wake \<Rightarrow> nat \<Rightarrow> agent_conn \<Rightarrow> bool" where
  "wakes w gen c \<longleftrightarrow> (case w of WakeNotify \<Rightarrow> gen < cn_notify c | WakeDone \<Rightarrow> cn_writerDone c | WakeTimer \<Rightarrow> True)"

definition revoke_step :: "db_answer \<Rightarrow> wake \<Rightarrow> nat \<Rightarrow> server \<Rightarrow> server option" where
  "revoke_step ans w j s =
     (case sv_revokes s ! j of
        RvStart a \<Rightarrow> Some (revoke_status ans j a s)
      | RvWritten a k \<Rightarrow> Some (set_revoke j (RvForgotten a k) (cached (ans \<noteq> NotRun) (del_online a) s))
      | RvForgotten a k \<Rightarrow> Some (set_revoke j (if IsOnline a (sv_reg s) then RvCapture a k else RvDone a k None False) s)
      | RvCapture a k \<Rightarrow>
          Some (set_revoke j (case rg_conns (sv_reg s) a of None \<Rightarrow> RvDone a k None False | Some i \<Rightarrow> RvSend a k i) s)
      | RvSend a k i \<Rightarrow> Some (revoke_send j a k i s)
      | RvPoll a k i seq \<Rightarrow>
          Some (set_revoke j (if seq \<le> cn_sentSeq (conn_at (sv_reg s) i) then RvStop a k i
                              else RvWait a k i seq (cn_notify (conn_at (sv_reg s) i))) s)
      | RvWait a k i seq gen \<Rightarrow>
          if wakes w gen (conn_at (sv_reg s) i) then Some (set_revoke j (if w = WakeNotify then RvPoll a k i seq else RvCut a k i) s)
          else None
      | RvStop a k i \<Rightarrow> Some (set_revoke j (RvDone a k (Some i) True) (in_reg (requestStop i) s))
      | RvCut a k i \<Rightarrow> Some (set_revoke j (RvDone a k (Some i) False) (in_reg (cancel_conn i) s))
      | RvDone a k c g \<Rightarrow> None
      | RvFailed a \<Rightarrow> None)"

section \<open>Steps\<close>

datatype sv_action =
    Open uuid db_answer
  | Admit uuid
  | Presence nat bool
  | Gate nat db_answer
  | Credentials nat "string list option"
  | Sync nat sync_outcome
  | Marker nat bool
  | Heartbeat nat agent_stats
  | BeatStep nat bool db_answer
  | Reply nat server_message
  | SeeStop nat
  | SeeCancel nat
  | RecvError nat
  | Leave nat
  | Cleanup nat bool db_answer
  | WriterTake nat
  | WriterSent nat bool
  | WriterNote nat
  | WriterQuit nat
  | SendMessage uuid server_message
  | CallStop uuid
  | CallDisconnect uuid
  | Revoke uuid
  | RevokeStep nat db_answer wake
  | Approve uuid
  | NewAgent agent_row
  | SweepAgent uuid db_answer
  | ExpireKeys "uuid set" "uuid set" "uuid set"

definition handler_at :: "server \<Rightarrow> nat \<Rightarrow> handler_pc \<Rightarrow> bool" where
  "handler_at s i h \<longleftrightarrow> i < length (rg_heap (sv_reg s)) \<and> cn_handler (conn_at (sv_reg s) i) = h"

definition writer_at :: "server \<Rightarrow> nat \<Rightarrow> writer_pc \<Rightarrow> bool" where
  "writer_at s i w \<longleftrightarrow> i < length (rg_heap (sv_reg s)) \<and> cn_writer (conn_at (sv_reg s) i) = w"

definition stop_writer :: "nat \<Rightarrow> server \<Rightarrow> server" where
  "stop_writer i = in_reg (markWriterStopped i \<circ> set_writer i WriterStopped)"

fun act :: "sv_action \<Rightarrow> server \<Rightarrow> server option" where
  "act (Open a ans) s = (if assertAgentUsable ans a (sv_agents s) then Some (s\<lparr>sv_checked := a # sv_checked s\<rparr>) else Some s)"
| "act (Admit a) s =
     (if a \<in> set (sv_checked s) then Some (in_reg (snd \<circ> Register_conn a) (s\<lparr>sv_checked := remove1 a (sv_checked s)\<rparr>)) else None)"
| "act (Presence i good) s = (if handler_at s i AtPresence then Some (mark_presence good i s) else None)"
| "act (Gate i ans) s = (if handler_at s i AtOnlineGate then Some (online_gate ans i s) else None)"
| "act (Credentials i bs) s = (if handler_at s i AtCredentials then Some (push_credentials i bs s) else None)"
| "act (Sync i out) s = (if handler_at s i AtRuleSync then Some (sync_rules i out s) else None)"
| "act (Marker i good) s = (if handler_at s i AtMarker then Some (settle_marker good i s) else None)"
| "act (Heartbeat i hb) s = (if handler_at s i AtReceive then Some (set_handler i (AtBeat BeatPresence hb) s) else None)"
| "act (BeatStep i good ans) s =
     (if i < length (rg_heap (sv_reg s)) then
        (case cn_handler (conn_at (sv_reg s) i) of AtBeat b hb \<Rightarrow> Some (beat_step good ans i b hb s) | _ \<Rightarrow> None)
      else None)"
| "act (Reply i m) s = (if handler_at s i AtReceive then Some (snd (send_agent (cn_agent (conn_at (sv_reg s) i)) m s)) else None)"
| "act (SeeStop i) s = (if handler_at s i AtReceive \<and> cn_stopping (conn_at (sv_reg s) i) then Some (set_handler i Returning s) else None)"
| "act (SeeCancel i) s = (if handler_at s i AtReceive \<and> cn_cancelled (conn_at (sv_reg s) i) then Some (set_handler i Returning s) else None)"
| "act (RecvError i) s =
     (if handler_at s i AtReceive
      then Some (set_handler i Returning (if cn_stopping (conn_at (sv_reg s) i) then s else in_reg (cancel_conn i) s)) else None)"
| "act (Leave i) s = (if handler_at s i Returning then Some (leave i s) else None)"
| "act (Cleanup k good ans) s = (if k < length (sv_cleanups s) then cleanup_step good ans k s else None)"
| "act (WriterTake i) s =
     (if writer_at s i WriterSelect then
        (case cn_queue (conn_at (sv_reg s) i) of
           [] \<Rightarrow> None
         | m # q \<Rightarrow> Some (in_reg (on_conn i (\<lambda>c. c\<lparr>cn_queue := q, cn_writer := WriterSending m\<rparr>)) s))
      else None)"
| "act (WriterSent i ok) s =
     (if i < length (rg_heap (sv_reg s)) then
        (case cn_writer (conn_at (sv_reg s) i) of
           WriterSending m \<Rightarrow>
             if ok then Some (in_reg (on_conn i (\<lambda>c. c\<lparr>cn_written := cn_written c @ [m], cn_writer := WriterNoting\<rparr>)) s)
             else Some (stop_writer i s)
         | _ \<Rightarrow> None)
      else None)"
| "act (WriterNote i) s = (if writer_at s i WriterNoting then Some (in_reg (set_writer i WriterSelect \<circ> noteWritten i) s) else None)"
| "act (WriterQuit i) s =
     (if writer_at s i WriterSelect \<and> (cn_cancelled (conn_at (sv_reg s) i) \<or> cn_closed (conn_at (sv_reg s) i) \<and> cn_queue (conn_at (sv_reg s) i) = [])
      then Some (stop_writer i s) else None)"
| "act (SendMessage a m) s = Some (snd (send_agent a m s))"
| "act (CallStop a) s = Some (in_reg (snd \<circ> Stop_conn a) s)"
| "act (CallDisconnect a) s = Some (in_reg (snd \<circ> Disconnect a) s)"
| "act (Revoke a) s = Some (s\<lparr>sv_revokes := sv_revokes s @ [RvStart a]\<rparr>)"
| "act (RevokeStep j ans w) s = (if j < length (sv_revokes s) then revoke_step ans w j s else None)"
| "act (Approve a) s =
     Some (s\<lparr>sv_agents := snd (UpdateAgentStatus a AgentStatusApproved (sv_agents s)), sv_approvals := (sv_approvals s)(a := Suc (sv_approvals s a))\<rparr>)"
| "act (NewAgent new) s = Some (s\<lparr>sv_agents := snd (CreateAgent (new\<lparr>ag_status := AgentStatusPending\<rparr>) (sv_agents s))\<rparr>)"
| "act (SweepAgent a ans) s = Some (write_agents ans (MarkAgentOfflineIfOnline a) s)"
| "act (ExpireKeys xs ys zs) s = Some (s\<lparr>sv_online := sv_online s - xs, sv_marked := sv_marked s - ys, sv_stats := sv_stats s |` (- zs)\<rparr>)"

inductive sv_step :: "server \<Rightarrow> server \<Rightarrow> bool" where
  sv_act: "\<not> sv_panicked s \<Longrightarrow> act a s = Some s' \<Longrightarrow> sv_step s s'"

definition sv_init :: "server \<Rightarrow> bool" where
  "sv_init s \<longleftrightarrow> sv_reg s = \<lparr>rg_conns = Map.empty, rg_heap = []\<rparr> \<and> sv_checked s = [] \<and> sv_revokes s = [] \<and> \<not> sv_panicked s"

end
