(* ===== verification/Registry_Laws.thy ===== *)
theory Registry_Laws
  imports Registry
begin

text \<open>
  What the registry guarantees under every interleaving: no panic, messages in order and confirmations that mean what
  they say, one live connection per agent, and revocation that cuts every admitted stream.
\<close>

section \<open>One connection\<close>

definition in_flight :: "agent_conn \<Rightarrow> server_message list" where
  "in_flight c = (case cn_writer c of WriterSending m \<Rightarrow> [m] | _ \<Rightarrow> [])"

text \<open>Messages are written in the order they were accepted, and the counters count them.\<close>

definition conn_fifo :: "agent_conn \<Rightarrow> bool" where
  "conn_fifo c \<longleftrightarrow>
     (if cn_writer c = WriterStopped then \<exists>lost. cn_enqueued c = cn_written c @ lost
      else cn_enqueued c = cn_written c @ in_flight c @ cn_queue c)
     \<and> cn_queuedSeq c = of_nat (length (cn_enqueued c))
     \<and> of_nat (length (cn_written c)) = cn_sentSeq c + (if cn_writer c = WriterNoting then 1 else 0)
     \<and> (cn_writer c = WriterNoting \<longrightarrow> cn_written c \<noteq> []) \<and> length (cn_queue c) \<le> sendChCapacity"

text \<open>\<open>advances c c'\<close>: what every step does at most to a connection.\<close>

definition advances :: "agent_conn \<Rightarrow> agent_conn \<Rightarrow> bool" where
  "advances c c' \<longleftrightarrow> cn_agent c' = cn_agent c
     \<and> (\<exists>new. cn_enqueued c' = cn_enqueued c @ new) \<and> (\<exists>new. cn_written c' = cn_written c @ new)
     \<and> (cn_cancelled c \<longrightarrow> cn_cancelled c') \<and> (cn_stopping c \<longrightarrow> cn_stopping c')
     \<and> (cn_handler c = Returned \<longrightarrow> cn_handler c' = Returned)
     \<and> cn_notify c \<le> cn_notify c' \<and> (cn_notify c' = cn_notify c \<longrightarrow> cn_sentSeq c' = cn_sentSeq c)
     \<and> (conn_fifo c \<longrightarrow> conn_fifo c')"

lemma advances_refl [simp]: "advances c c"
  by (simp add: advances_def)

lemma advances_trans: "advances c c1 \<Longrightarrow> advances c1 c2 \<Longrightarrow> advances c c2"
  unfolding advances_def by auto

lemma fifo_new [simp]: "conn_fifo (new_conn a)"
  by (simp add: conn_fifo_def new_conn_def in_flight_def)

lemma fifo_frame:
  assumes "cn_enqueued c' = cn_enqueued c" "cn_written c' = cn_written c" "cn_queue c' = cn_queue c" "cn_writer c' = cn_writer c"
    "cn_queuedSeq c' = cn_queuedSeq c" "cn_sentSeq c' = cn_sentSeq c"
  shows "conn_fifo c' = conn_fifo c"
  using assms by (simp add: conn_fifo_def in_flight_def)

text \<open>The single changes.\<close>

lemma advances_flags [simp]:
  "advances c (c\<lparr>cn_cancelled := True\<rparr>)" "advances c (c\<lparr>cn_stopping := True\<rparr>)" "advances c (c\<lparr>cn_writerDone := True\<rparr>)"
  "advances c (c\<lparr>cn_closed := b\<rparr>)" "advances c (c\<lparr>cn_handler := Returned\<rparr>)"
  "cn_handler c \<noteq> Returned \<Longrightarrow> advances c (c\<lparr>cn_handler := h\<rparr>)"
  "cn_handler c \<noteq> Returned \<Longrightarrow> advances c (c\<lparr>cn_degraded := True, cn_handler := h\<rparr>)"
  by (simp_all add: advances_def conn_fifo_def in_flight_def)

lemma advances_enqueue:
  "length (cn_queue c) < sendChCapacity \<Longrightarrow>
    advances c (c\<lparr>cn_queue := cn_queue c @ [m], cn_queuedSeq := cn_queuedSeq c + 1, cn_enqueued := cn_enqueued c @ [m]\<rparr>)"
  by (auto simp: advances_def conn_fifo_def in_flight_def split: writer_pc.splits)

lemma advances_writer:
  "cn_writer c = WriterSelect \<Longrightarrow> cn_queue c = m # q \<Longrightarrow> advances c (c\<lparr>cn_queue := q, cn_writer := WriterSending m\<rparr>)"
  "cn_writer c = WriterSending m \<Longrightarrow> advances c (c\<lparr>cn_written := cn_written c @ [m], cn_writer := WriterNoting\<rparr>)"
  "cn_writer c = WriterSending m \<Longrightarrow> advances c (c\<lparr>cn_writer := WriterStopped\<rparr>)"
  "cn_writer c = WriterSelect \<Longrightarrow> advances c (c\<lparr>cn_writer := WriterStopped\<rparr>)"
  "cn_writer c = WriterNoting \<Longrightarrow> advances c (c\<lparr>cn_sentSeq := cn_sentSeq c + 1, cn_notify := Suc (cn_notify c), cn_writer := WriterSelect\<rparr>)"
  "cn_writer c = WriterNone \<Longrightarrow> cn_handler c \<noteq> Returned \<Longrightarrow> advances c (c\<lparr>cn_handler := h, cn_writer := WriterSelect, cn_ungated := g\<rparr>)"
  by (auto simp: advances_def conn_fifo_def in_flight_def)


section \<open>The registry\<close>

lemma on_conn_simps [simp]:
  "rg_conns (on_conn i f r) = rg_conns r" "length (rg_heap (on_conn i f r)) = length (rg_heap r)"
  "j < length (rg_heap r) \<Longrightarrow> conn_at (on_conn i f r) j = (if i = j then f (conn_at r j) else conn_at r j)"
  by (simp_all add: on_conn_def conn_at_def)

lemmas conn_changes = cancel_conn_def requestStop_def markWriterStopped_def noteWritten_def set_writer_def

text \<open>
  The map holds only open connections of the right agent; a connection outside it was cancelled or its handler is gone;
  the send goroutine starts at the gate.
\<close>

definition listed_ok :: "registry \<Rightarrow> bool" where
  "listed_ok r \<longleftrightarrow> (\<forall>a i. rg_conns r a = Some i \<longrightarrow>
     i < length (rg_heap r) \<and> cn_agent (conn_at r i) = a \<and> \<not> cn_closed (conn_at r i) \<and> cn_handler (conn_at r i) \<noteq> Returned)"

definition strays_ok :: "registry \<Rightarrow> bool" where
  "strays_ok r \<longleftrightarrow> (\<forall>i<length (rg_heap r).
     rg_conns r (cn_agent (conn_at r i)) = Some i \<or> cn_cancelled (conn_at r i) \<or> cn_handler (conn_at r i) = Returned)"

definition conn_ok :: "agent_conn \<Rightarrow> bool" where
  "conn_ok c \<longleftrightarrow> conn_fifo c \<and> (cn_handler c \<in> {AtPresence, AtOnlineGate} \<longrightarrow> cn_writer c = WriterNone)"

definition reg_ok :: "registry \<Rightarrow> bool" where
  "reg_ok r \<longleftrightarrow> listed_ok r \<and> strays_ok r \<and> (\<forall>i<length (rg_heap r). conn_ok (conn_at r i))"

text \<open>\<open>evolves r r'\<close>: every connection advances and new ones come at the end.\<close>

definition evolves :: "registry \<Rightarrow> registry \<Rightarrow> bool" where
  "evolves r r' \<longleftrightarrow> length (rg_heap r) \<le> length (rg_heap r') \<and> (\<forall>i<length (rg_heap r). advances (conn_at r i) (conn_at r' i))"

lemma evolves_refl [simp]: "evolves r r"
  by (simp add: evolves_def)

lemma evolves_trans: "evolves r r1 \<Longrightarrow> evolves r1 r2 \<Longrightarrow> evolves r r2"
  unfolding evolves_def using advances_trans order_less_le_trans by (meson order_trans)

text \<open>Changing one connection in place.\<close>

definition in_place :: "agent_conn \<Rightarrow> agent_conn \<Rightarrow> bool" where
  "in_place c c' \<longleftrightarrow> advances c c' \<and> cn_closed c' = cn_closed c \<and> (cn_handler c' = Returned \<longrightarrow> cn_handler c = Returned)
     \<and> (conn_ok c \<longrightarrow> conn_ok c')"

lemma in_place_refl [simp]: "in_place c c"
  by (simp add: in_place_def)

text \<open>Connections change in place, and some leave the map when their handlers return.\<close>

lemma departures_ok:
  assumes ok: "reg_ok r" and sub: "\<And>a i. rg_conns r' a = Some i \<Longrightarrow> rg_conns r a = Some i" and len: "length (rg_heap r') = length (rg_heap r)"
    and adv: "\<And>i. i < length (rg_heap r) \<Longrightarrow> advances (conn_at r i) (conn_at r' i) \<and> conn_ok (conn_at r' i)"
    and stay: "\<And>i. i < length (rg_heap r) \<Longrightarrow> rg_conns r' (cn_agent (conn_at r i)) = Some i \<Longrightarrow> in_place (conn_at r i) (conn_at r' i)"
    and go: "\<And>i. i < length (rg_heap r) \<Longrightarrow> rg_conns r (cn_agent (conn_at r i)) = Some i \<Longrightarrow> rg_conns r' (cn_agent (conn_at r i)) \<noteq> Some i
      \<Longrightarrow> cn_handler (conn_at r' i) = Returned"
  shows "reg_ok r'" "evolves r r'"
proof -
  have "listed_ok r'" unfolding listed_ok_def
  proof (intro allI impI)
    fix a i assume s: "rg_conns r' a = Some i"
    then have l: "i < length (rg_heap r) \<and> cn_agent (conn_at r i) = a \<and> \<not> cn_closed (conn_at r i) \<and> cn_handler (conn_at r i) \<noteq> Returned"
      using ok sub[OF s] by (simp add: reg_ok_def listed_ok_def)
    then show "i < length (rg_heap r') \<and> cn_agent (conn_at r' i) = a \<and> \<not> cn_closed (conn_at r' i) \<and> cn_handler (conn_at r' i) \<noteq> Returned"
      using stay[of i] len s by (auto simp: in_place_def advances_def)
  qed
  moreover have "strays_ok r'" unfolding strays_ok_def
  proof (intro allI impI)
    fix i assume i: "i < length (rg_heap r')"
    then have "rg_conns r (cn_agent (conn_at r i)) = Some i \<or> cn_cancelled (conn_at r i) \<or> cn_handler (conn_at r i) = Returned"
      using ok len by (simp add: reg_ok_def strays_ok_def)
    then show "rg_conns r' (cn_agent (conn_at r' i)) = Some i \<or> cn_cancelled (conn_at r' i) \<or> cn_handler (conn_at r' i) = Returned"
      using adv[of i] go[of i] i len by (auto simp: advances_def)
  qed
  ultimately show "reg_ok r'" using adv len by (simp add: reg_ok_def)
  show "evolves r r'" using len adv by (simp add: evolves_def)
qed

lemma in_places_ok:
  assumes ok: "reg_ok r" and same: "rg_conns r' = rg_conns r" "length (rg_heap r') = length (rg_heap r)"
    and p: "\<And>i. i < length (rg_heap r) \<Longrightarrow> in_place (conn_at r i) (conn_at r' i)"
  shows "reg_ok r'" "evolves r r'"
proof -
  have "advances (conn_at r i) (conn_at r' i) \<and> conn_ok (conn_at r' i)" if "i < length (rg_heap r)" for i
    using p[OF that] ok that by (auto simp: in_place_def reg_ok_def)
  note d = departures_ok[OF ok _ same(2) this p, simplified same(1)]
  show "reg_ok r'" "evolves r r'" by (rule d; simp)+
qed

lemma on_conn_ok:
  assumes "reg_ok r" "i < length (rg_heap r) \<Longrightarrow> in_place (conn_at r i) (f (conn_at r i))"
  shows "reg_ok (on_conn i f r)" "evolves r (on_conn i f r)"
proof -
  have p: "in_place (conn_at r j) (conn_at (on_conn i f r) j)" if "j < length (rg_heap r)" for j using assms(2) that by auto
  show "reg_ok (on_conn i f r)" by (rule in_places_ok(1)[OF assms(1) _ _ p]) simp_all
  show "evolves r (on_conn i f r)" by (rule in_places_ok(2)[OF assms(1) _ _ p]) simp_all
qed

lemma Register_ok:
  assumes ok: "reg_ok r" and r: "Register_conn a r = (i, r')"
  shows "reg_ok r'" "evolves r r'" "i = length (rg_heap r)" "conn_at r' i = new_conn a" "length (rg_heap r') = Suc (length (rg_heap r))"
proof -
  let ?r1 = "case rg_conns r a of None \<Rightarrow> r | Some prev \<Rightarrow> cancel_conn prev r"
  have flag: "in_place c (c\<lparr>cn_cancelled := True\<rparr>)" for c by (simp add: in_place_def conn_ok_def conn_fifo_def in_flight_def)
  have r1: "reg_ok ?r1" "evolves r ?r1" "rg_conns ?r1 = rg_conns r" "length (rg_heap ?r1) = length (rg_heap r)"
    using on_conn_ok[OF ok, of _ "\<lambda>c. c\<lparr>cn_cancelled := True\<rparr>"] flag ok by (auto simp: cancel_conn_def split: option.splits)
  have dis: "cn_cancelled (conn_at ?r1 j)" if "rg_conns r a = Some j" for j
    using that ok by (simp add: cancel_conn_def reg_ok_def listed_ok_def)
  have r': "i = length (rg_heap r)" "r' = ?r1\<lparr>rg_heap := rg_heap ?r1 @ [new_conn a], rg_conns := (rg_conns ?r1)(a \<mapsto> i)\<rparr>"
    using r by (auto simp: Register_conn_def Let_def)
  then have at: "conn_at r' j = (if j = length (rg_heap r) then new_conn a else conn_at ?r1 j)" if "j \<le> length (rg_heap r)" for j
    using that r1(4) by (auto simp: conn_at_def nth_append)
  have len: "length (rg_heap r') = Suc (length (rg_heap r))" using r' r1(4) by simp
  have conns: "rg_conns r' = (rg_conns r)(a \<mapsto> length (rg_heap r))" using r' r1(3) by simp
  show "i = length (rg_heap r)" "conn_at r' i = new_conn a" "length (rg_heap r') = Suc (length (rg_heap r))" using r' at len by simp_all
  show "evolves r r'" using r1(2,4) len at by (simp add: evolves_def)
  have "listed_ok r'" unfolding listed_ok_def
  proof (intro allI impI)
    fix b j assume j: "rg_conns r' b = Some j"
    show "j < length (rg_heap r') \<and> cn_agent (conn_at r' j) = b \<and> \<not> cn_closed (conn_at r' j) \<and> cn_handler (conn_at r' j) \<noteq> Returned"
    proof (cases "b = a")
      case True
      then show ?thesis using j conns len at by (simp add: new_conn_def)
    next
      case False
      then have "rg_conns ?r1 b = Some j" using j conns r1(3) by simp
      then show ?thesis using r1(1,4) len at[of j] unfolding reg_ok_def listed_ok_def by (metis less_irrefl less_SucI order_less_imp_le)
    qed
  qed
  moreover have "strays_ok r'" unfolding strays_ok_def
  proof (intro allI impI)
    fix j assume j: "j < length (rg_heap r')"
    show "rg_conns r' (cn_agent (conn_at r' j)) = Some j \<or> cn_cancelled (conn_at r' j) \<or> cn_handler (conn_at r' j) = Returned"
    proof (cases "j = length (rg_heap r)")
      case True
      then show ?thesis using conns at by (simp add: new_conn_def)
    next
      case False
      then have j': "j < length (rg_heap r)" "conn_at r' j = conn_at ?r1 j" using j len at[of j] by auto
      then have "rg_conns ?r1 (cn_agent (conn_at ?r1 j)) = Some j \<or> cn_cancelled (conn_at ?r1 j) \<or> cn_handler (conn_at ?r1 j) = Returned"
        using r1(1,4) by (auto simp: reg_ok_def strays_ok_def)
      then show ?thesis using j' conns r1(3) dis by (cases "cn_agent (conn_at ?r1 j) = a") auto
    qed
  qed
  moreover have "\<forall>j<length (rg_heap r'). conn_ok (conn_at r' j)"
    using r1(1,4) len at by (auto simp: reg_ok_def less_Suc_eq conn_ok_def new_conn_def) (use fifo_new in \<open>simp add: new_conn_def\<close>)
  ultimately show "reg_ok r'" by (simp add: reg_ok_def)
qed


lemma enqueue_ok:
  assumes ok: "reg_ok r" and i: "rg_conns r (cn_agent (conn_at r i)) = Some i"
  shows "\<exists>q r'. enqueue i m r = Some (q, r') \<and> reg_ok r' \<and> evolves r r' \<and> rg_conns r' = rg_conns r \<and> length (rg_heap r') = length (rg_heap r)
    \<and> (\<forall>j<length (rg_heap r). conn_at r' j = conn_at r j
        \<or> j = i \<and> conn_at r' j = (conn_at r j)\<lparr>cn_queue := cn_queue (conn_at r j) @ [m], cn_queuedSeq := cn_queuedSeq (conn_at r j) + 1,
            cn_enqueued := cn_enqueued (conn_at r j) @ [m]\<rparr>)
    \<and> (\<forall>seq. q = Some seq \<longrightarrow> seq = cn_queuedSeq (conn_at r i) + 1 \<and> cn_enqueued (conn_at r' i) = cn_enqueued (conn_at r i) @ [m])"
proof -
  have open': "\<not> cn_closed (conn_at r i)" and len: "i < length (rg_heap r)" using ok i by (auto simp: reg_ok_def listed_ok_def)
  show ?thesis
  proof (cases "length (cn_queue (conn_at r i)) < sendChCapacity")
    case True
    let ?f = "\<lambda>c. c\<lparr>cn_queue := cn_queue c @ [m], cn_queuedSeq := cn_queuedSeq c + 1, cn_enqueued := cn_enqueued c @ [m]\<rparr>"
    have adv: "advances (conn_at r i) (?f (conn_at r i))" by (rule advances_enqueue[OF True])
    then have "in_place (conn_at r i) (?f (conn_at r i))" by (auto simp: in_place_def conn_ok_def advances_def)
    note p = on_conn_ok[OF ok, of i ?f, OF this]
    show ?thesis using p open' True len by (simp add: enqueue_def Let_def)
  next
    case False
    then show ?thesis using open' ok by (simp add: enqueue_def Let_def)
  qed
qed

lemma send_agent_ok:
  assumes ok: "reg_ok (sv_reg s)" and r: "send_agent a m s = (q, s')"
  shows "reg_ok (sv_reg s')" "evolves (sv_reg s) (sv_reg s')" "rg_conns (sv_reg s') = rg_conns (sv_reg s)" "sv_panicked s' = sv_panicked s"
    "sv_agents s' = sv_agents s" "sv_revokes s' = sv_revokes s" "sv_approvals s' = sv_approvals s"
    "length (rg_heap (sv_reg s')) = length (rg_heap (sv_reg s))"
    "\<And>j. j < length (rg_heap (sv_reg s)) \<Longrightarrow> cn_handler (conn_at (sv_reg s') j) = cn_handler (conn_at (sv_reg s) j)
        \<and> cn_ungated (conn_at (sv_reg s') j) = cn_ungated (conn_at (sv_reg s) j)"
proof -
  have "\<exists>r'. s' = s\<lparr>sv_reg := r'\<rparr> \<and> reg_ok r' \<and> evolves (sv_reg s) r' \<and> rg_conns r' = rg_conns (sv_reg s) \<and> length (rg_heap r') = length (rg_heap (sv_reg s))
    \<and> (\<forall>j<length (rg_heap (sv_reg s)). cn_handler (conn_at r' j) = cn_handler (conn_at (sv_reg s) j) \<and> cn_ungated (conn_at r' j) = cn_ungated (conn_at (sv_reg s) j))"
  proof (cases "rg_conns (sv_reg s) a")
    case None
    then show ?thesis using r ok by (intro exI[of _ "sv_reg s"]) (auto simp: send_agent_def Send_to_def)
  next
    case (Some i)
    then have "rg_conns (sv_reg s) (cn_agent (conn_at (sv_reg s) i)) = Some i" using ok by (simp add: reg_ok_def listed_ok_def)
    from enqueue_ok[OF ok this, of m] obtain p r' where e: "enqueue i m (sv_reg s) = Some (p, r')" "reg_ok r'" "evolves (sv_reg s) r'"
      "rg_conns r' = rg_conns (sv_reg s)" "length (rg_heap r') = length (rg_heap (sv_reg s))"
      and at: "\<forall>j<length (rg_heap (sv_reg s)). conn_at r' j = conn_at (sv_reg s) j
        \<or> j = i \<and> conn_at r' j = (conn_at (sv_reg s) j)\<lparr>cn_queue := cn_queue (conn_at (sv_reg s) j) @ [m],
            cn_queuedSeq := cn_queuedSeq (conn_at (sv_reg s) j) + 1, cn_enqueued := cn_enqueued (conn_at (sv_reg s) j) @ [m]\<rparr>" by blast
    have "s' = s\<lparr>sv_reg := r'\<rparr>" using r Some e(1) by (simp add: send_agent_def Send_to_def)
    moreover have "\<forall>j<length (rg_heap (sv_reg s)). cn_handler (conn_at r' j) = cn_handler (conn_at (sv_reg s) j) \<and> cn_ungated (conn_at r' j) = cn_ungated (conn_at (sv_reg s) j)"
      using at by fastforce
    ultimately show ?thesis using e by blast
  qed
  then show "reg_ok (sv_reg s')" "evolves (sv_reg s) (sv_reg s')" "rg_conns (sv_reg s') = rg_conns (sv_reg s)" "sv_panicked s' = sv_panicked s"
    "sv_agents s' = sv_agents s" "sv_revokes s' = sv_revokes s" "sv_approvals s' = sv_approvals s"
    "length (rg_heap (sv_reg s')) = length (rg_heap (sv_reg s))"
    "\<And>j. j < length (rg_heap (sv_reg s)) \<Longrightarrow> cn_handler (conn_at (sv_reg s') j) = cn_handler (conn_at (sv_reg s) j)
        \<and> cn_ungated (conn_at (sv_reg s') j) = cn_ungated (conn_at (sv_reg s) j)" by auto
qed

lemma leave_ok:
  assumes ok: "reg_ok (sv_reg s)" and i: "i < length (rg_heap (sv_reg s))"
  shows "reg_ok (sv_reg (leave i s))" "evolves (sv_reg s) (sv_reg (leave i s))" "sv_panicked (leave i s) = sv_panicked s"
    "length (rg_heap (sv_reg (leave i s))) = length (rg_heap (sv_reg s))" "cn_handler (conn_at (sv_reg (leave i s)) i) = Returned"
    "\<And>j. j < length (rg_heap (sv_reg s)) \<Longrightarrow> j \<noteq> i \<Longrightarrow> conn_at (sv_reg (leave i s)) j = conn_at (sv_reg s) j"
proof -
  let ?r = "sv_reg s" and ?a = "cn_agent (conn_at (sv_reg s) i)" and ?r' = "sv_reg (leave i s)"
  have op: "rg_conns ?r ?a = Some i \<Longrightarrow> \<not> cn_closed (conn_at ?r i)" using ok by (simp add: reg_ok_def listed_ok_def)
  have w: "sv_reg (write_agents ans (st :: nat agent_stmt) x) = sv_reg x" "sv_panicked (write_agents ans st x) = sv_panicked x" for st x
    by (simp_all add: write_agents_def)
  have back_in: "rg_heap (r\<lparr>rg_conns := m\<rparr>) = rg_heap r" "conn_at (r\<lparr>rg_conns := m\<rparr>) j = conn_at r j" for r m j by (simp_all add: conn_at_def)
  have r': "rg_conns ?r' = (if rg_conns ?r ?a = Some i then (rg_conns ?r)(?a := None) else rg_conns ?r)"
    "length (rg_heap ?r') = length (rg_heap ?r)" "sv_panicked (leave i s) = sv_panicked s"
    "\<And>j. j < length (rg_heap ?r) \<Longrightarrow> j \<noteq> i \<Longrightarrow> conn_at ?r' j = conn_at ?r j"
    "advances (conn_at ?r i) (conn_at ?r' i)" "cn_handler (conn_at ?r' i) = Returned"
    using i op by (simp_all add: leave_def Unregister_def Let_def set_handler_def in_reg_def w conn_changes back_in)
      (simp_all add: advances_def conn_fifo_def in_flight_def)
  show "sv_panicked (leave i s) = sv_panicked s" "length (rg_heap ?r') = length (rg_heap ?r)" "cn_handler (conn_at ?r' i) = Returned"
    "\<And>j. j < length (rg_heap ?r) \<Longrightarrow> j \<noteq> i \<Longrightarrow> conn_at ?r' j = conn_at ?r j" using r'(2,3,4,6) by blast+
  have adv: "advances (conn_at ?r j) (conn_at ?r' j) \<and> conn_ok (conn_at ?r' j)" if "j < length (rg_heap ?r)" for j
    using that r'(4-6) ok by (cases "j = i") (auto simp: reg_ok_def conn_ok_def advances_def)
  have sub: "rg_conns ?r b = Some j" if "rg_conns ?r' b = Some j" for b j using that r'(1) by (simp split: if_splits)
  have stay: "in_place (conn_at ?r j) (conn_at ?r' j)" if "j < length (rg_heap ?r)" "rg_conns ?r' (cn_agent (conn_at ?r j)) = Some j" for j
    using that r'(1,4) by (cases "j = i") (auto split: if_splits)
  have go: "cn_handler (conn_at ?r' j) = Returned"
    if "j < length (rg_heap ?r)" "rg_conns ?r (cn_agent (conn_at ?r j)) = Some j" "rg_conns ?r' (cn_agent (conn_at ?r j)) \<noteq> Some j" for j
  proof (cases "j = i")
    case False
    then have "rg_conns ?r' (cn_agent (conn_at ?r j)) = rg_conns ?r (cn_agent (conn_at ?r j))"
      using that(2) unfolding r'(1) by (cases "cn_agent (conn_at ?r j) = ?a") auto
    then show ?thesis using that(2,3) by simp
  qed (use r'(6) in simp)
  show "reg_ok ?r'" by (rule departures_ok(1)[OF ok sub r'(2) adv stay go])
  show "evolves ?r ?r'" by (rule departures_ok(2)[OF ok sub r'(2) adv stay go])
qed


section \<open>Every step\<close>

lemma on_conn_twice [simp]: "on_conn i g (on_conn i f r) = on_conn i (g \<circ> f) r"
  by (cases "i < length (rg_heap r)") (simp_all add: on_conn_def conn_at_def list_update_beyond)

lemma in_place_updates:
  "in_place c (c\<lparr>cn_cancelled := True\<rparr>)" "in_place c (c\<lparr>cn_stopping := True\<rparr>)"
  "cn_handler c \<noteq> Returned \<Longrightarrow> h \<notin> {Returned, AtPresence, AtOnlineGate} \<Longrightarrow> in_place c (c\<lparr>cn_handler := h\<rparr>)"
  "cn_handler c = AtPresence \<Longrightarrow> in_place c (c\<lparr>cn_handler := AtOnlineGate\<rparr>)"
  "cn_handler c \<noteq> Returned \<Longrightarrow> h \<notin> {Returned, AtPresence, AtOnlineGate} \<Longrightarrow> in_place c (c\<lparr>cn_degraded := True, cn_handler := h\<rparr>)"
  "cn_writer c = WriterNone \<Longrightarrow> cn_handler c = AtOnlineGate \<Longrightarrow> in_place c (c\<lparr>cn_handler := AtCredentials, cn_writer := WriterSelect, cn_ungated := g\<rparr>)"
  "cn_writer c = WriterSelect \<Longrightarrow> cn_queue c = m # q \<Longrightarrow> in_place c (c\<lparr>cn_queue := q, cn_writer := WriterSending m\<rparr>)"
  "cn_writer c = WriterSending m \<Longrightarrow> in_place c (c\<lparr>cn_written := cn_written c @ [m], cn_writer := WriterNoting\<rparr>)"
  "cn_writer c = WriterSending m \<Longrightarrow> in_place c (c\<lparr>cn_writer := WriterStopped, cn_writerDone := True\<rparr>)"
  "cn_writer c = WriterSelect \<Longrightarrow> in_place c (c\<lparr>cn_writer := WriterStopped, cn_writerDone := True\<rparr>)"
  "cn_writer c = WriterNoting \<Longrightarrow> in_place c (c\<lparr>cn_sentSeq := cn_sentSeq c + 1, cn_notify := Suc (cn_notify c), cn_writer := WriterSelect\<rparr>)"
  by (auto simp: in_place_def advances_def conn_ok_def conn_fifo_def in_flight_def)

text \<open>\<open>stepped s s'\<close>: the registry stays in order and nobody panics; \<open>live\<close>: a stream past the gate that nothing is about to end.\<close>

definition admitted :: "agent_conn \<Rightarrow> bool" where
  "admitted c \<longleftrightarrow> cn_handler c \<notin> {AtPresence, AtOnlineGate, Returning, Returned}"

definition live :: "agent_conn \<Rightarrow> bool" where
  "live c \<longleftrightarrow> admitted c \<and> \<not> cn_cancelled c \<and> \<not> cn_stopping c \<and> \<not> cn_ungated c"

definition stepped :: "server \<Rightarrow> server \<Rightarrow> bool" where
  "stepped s s' \<longleftrightarrow> reg_ok (sv_reg s') \<and> evolves (sv_reg s) (sv_reg s') \<and> sv_panicked s' = sv_panicked s
     \<and> (\<forall>j<length (rg_heap (sv_reg s')). live (conn_at (sv_reg s') j) \<longrightarrow> j < length (rg_heap (sv_reg s)) \<and> live (conn_at (sv_reg s) j))"

lemma stepped_refl: "reg_ok (sv_reg s) \<Longrightarrow> sv_reg s' = sv_reg s \<Longrightarrow> sv_panicked s' = sv_panicked s \<Longrightarrow> stepped s s'"
  by (simp add: stepped_def)

lemma stepped_trans: "stepped s s1 \<Longrightarrow> stepped s1 s2 \<Longrightarrow> stepped s s2"
  unfolding stepped_def using evolves_trans by metis

lemma stepped_on_conn:
  assumes "reg_ok (sv_reg s)" "i < length (rg_heap (sv_reg s)) \<Longrightarrow> in_place (conn_at (sv_reg s) i) (f (conn_at (sv_reg s) i))"
    and "live (f (conn_at (sv_reg s) i)) \<Longrightarrow> live (conn_at (sv_reg s) i)"
  shows "stepped s (in_reg (on_conn i f) s)"
  using on_conn_ok[OF assms(1), of i f] assms(2,3) by (auto simp: stepped_def in_reg_def)

lemma stepped_send: "reg_ok (sv_reg s) \<Longrightarrow> stepped s (snd (send_agent a m s))"
proof -
  assume ok: "reg_ok (sv_reg s)"
  obtain q s' where r: "send_agent a m s = (q, s')" by fastforce
  note k = send_agent_ok[OF ok r]
  have "live (conn_at (sv_reg s) j)" if j: "j < length (rg_heap (sv_reg s))" "live (conn_at (sv_reg s') j)" for j
    using k(2) k(9)[OF j(1)] j by (auto simp: evolves_def advances_def live_def admitted_def)
  then show ?thesis using k r by (simp add: stepped_def)
qed

lemma stepped_handler:
  assumes "reg_ok (sv_reg s)" "handler_at s i h0" "h0 \<noteq> Returned" "h \<notin> {Returned, AtPresence, AtOnlineGate}"
    and "admitted (conn_at (sv_reg s) i) \<or> h = Returning"
  shows "stepped s (set_handler i h s)"
  unfolding set_handler_def
  by (rule stepped_on_conn[OF assms(1)]) (use assms in \<open>auto simp: handler_at_def live_def admitted_def intro: in_place_updates\<close>)

lemma stepped_leave:
  assumes ok: "reg_ok (sv_reg s)" and i: "handler_at s i Returning"
  shows "stepped s (leave i s)"
proof -
  have i': "i < length (rg_heap (sv_reg s))" using i by (simp add: handler_at_def)
  note k = leave_ok[OF ok i']
  have "live (conn_at (sv_reg s) j)" if j: "j < length (rg_heap (sv_reg s))" "live (conn_at (sv_reg (leave i s)) j)" for j
    using j k(5,6) by (cases "j = i") (auto simp: live_def admitted_def)
  then show ?thesis using k(1-4) by (simp add: stepped_def)
qed

lemma write_agents_simps [simp]:
  "sv_reg (write_agents ans st s) = sv_reg s" "sv_panicked (write_agents ans st s) = sv_panicked s"
  "sv_revokes (write_agents ans st s) = sv_revokes s" "sv_approvals (write_agents ans st s) = sv_approvals s"
  by (simp_all add: write_agents_def)

lemma set_revoke_simps [simp]:
  "sv_reg (set_revoke j p s) = sv_reg s" "sv_panicked (set_revoke j p s) = sv_panicked s" "sv_agents (set_revoke j p s) = sv_agents s"
  "sv_approvals (set_revoke j p s) = sv_approvals s"
  by (simp_all add: set_revoke_def)

lemma in_reg_simps [simp]:
  "sv_reg (in_reg f s) = f (sv_reg s)" "sv_agents (in_reg f s) = sv_agents s" "sv_panicked (in_reg f s) = sv_panicked s"
  "sv_revokes (in_reg f s) = sv_revokes s" "sv_approvals (in_reg f s) = sv_approvals s"
  by (simp_all add: in_reg_def)

text \<open>Cache keys and events are all that these change.\<close>

lemmas outside_defs [simp] = set_online_def del_online_def set_marker_def del_marker_def publish_event_def set_cleanup_def

lemma cached_simps [simp]:
  "sv_reg (cached good f s) = (if good then sv_reg (f s) else sv_reg s)" "sv_agents (cached good f s) = (if good then sv_agents (f s) else sv_agents s)"
  "sv_panicked (cached good f s) = (if good then sv_panicked (f s) else sv_panicked s)"
  "sv_revokes (cached good f s) = (if good then sv_revokes (f s) else sv_revokes s)"
  "sv_approvals (cached good f s) = (if good then sv_approvals (f s) else sv_approvals s)"
  by (simp_all add: cached_def)

lemma stepped_moved:
  assumes "stepped s s1" "sv_reg s' = sv_reg s1" "sv_panicked s' = sv_panicked s1"
  shows "stepped s s'"
  using assms by (simp add: stepped_def)

text \<open>A heartbeat moves its handler on and may restore the agent's status.\<close>

lemma beat_step_effect:
  "\<exists>h. h \<in> insert AtReceive (range (\<lambda>b. AtBeat b hb)) \<and> sv_reg (beat_step good ans i b hb s) = sv_reg (set_handler i h s)"
  "sv_panicked (beat_step good ans i b hb s) = sv_panicked s" "sv_revokes (beat_step good ans i b hb s) = sv_revokes s"
  "sv_approvals (beat_step good ans i b hb s) = sv_approvals s"
  "sv_agents (beat_step good ans i b hb s) = sv_agents s
     \<or> (\<exists>c. sv_agents (beat_step good ans i b hb s) = snd (MarkAgentOnlineIfOffline c (sv_agents s)))"
proof -
  show "\<exists>h. h \<in> insert AtReceive (range (\<lambda>b. AtBeat b hb)) \<and> sv_reg (beat_step good ans i b hb s) = sv_reg (set_handler i h s)"
    by (cases b) (auto simp: beat_step_def set_handler_def Let_def)
qed (cases b; auto simp: beat_step_def set_handler_def Let_def write_agents_def; fail)+

lemma cleanup_effect:
  assumes "cleanup_step good ans k s = Some s'"
  shows "sv_reg s' = sv_reg s" "sv_panicked s' = sv_panicked s" "sv_revokes s' = sv_revokes s" "sv_approvals s' = sv_approvals s"
    "sv_agents s' = sv_agents s \<or> (\<exists>c. sv_agents s' = snd (MarkAgentOfflineIfOnline c (sv_agents s)))"
  using assms by (auto simp: cleanup_step_def markOfflineOnDisconnect_def Let_def write_agents_def split: cleanup.splits if_splits)

text \<open>The gate itself: the one step after which a stream may be live that was not.\<close>

lemma gate_ok:
  assumes ok: "reg_ok (sv_reg s)" and i: "handler_at s i AtOnlineGate"
  shows "reg_ok (sv_reg (online_gate ans i s))" "evolves (sv_reg s) (sv_reg (online_gate ans i s))"
    "sv_panicked (online_gate ans i s) = sv_panicked s"
    "live (conn_at (sv_reg (online_gate ans i s)) j) \<Longrightarrow> j < length (rg_heap (sv_reg s)) \<Longrightarrow> live (conn_at (sv_reg s) j)
       \<or> j = i \<and> ans = Answered \<and> fst (MarkAgentOnlineIfUsable (cn_agent (conn_at (sv_reg s) i)) (sv_agents s)) \<noteq> Inr 0"
proof -
  let ?f = "\<lambda>c. c\<lparr>cn_handler := AtCredentials, cn_writer := WriterSelect, cn_ungated := (ans \<noteq> Answered)\<rparr>" and ?h = "\<lambda>c. c\<lparr>cn_handler := Returning\<rparr>"
  have c: "cn_handler (conn_at (sv_reg s) i) = AtOnlineGate" "cn_writer (conn_at (sv_reg s) i) = WriterNone" "i < length (rg_heap (sv_reg s))"
    using ok i by (auto simp: reg_ok_def conn_ok_def handler_at_def)
  have f: "in_place (conn_at (sv_reg s) i) (?f (conn_at (sv_reg s) i))" "in_place (conn_at (sv_reg s) i) (?h (conn_at (sv_reg s) i))"
    using c by (auto intro: in_place_updates)
  have g: "sv_reg (online_gate ans i s) = on_conn i (if ans = Answered \<and> fst (MarkAgentOnlineIfUsable (cn_agent (conn_at (sv_reg s) i)) (sv_agents s)) = Inr 0 then ?h else ?f) (sv_reg s)"
    by (auto simp: online_gate_def Let_def set_handler_def)
  show "reg_ok (sv_reg (online_gate ans i s))" "evolves (sv_reg s) (sv_reg (online_gate ans i s))"
    using on_conn_ok[OF ok] f unfolding g by (simp_all split: if_splits)
  show "sv_panicked (online_gate ans i s) = sv_panicked s" by (auto simp: online_gate_def Let_def set_handler_def)
  show "live (conn_at (sv_reg s) j)
       \<or> j = i \<and> ans = Answered \<and> fst (MarkAgentOnlineIfUsable (cn_agent (conn_at (sv_reg s) i)) (sv_agents s)) \<noteq> Inr 0"
    if "live (conn_at (sv_reg (online_gate ans i s)) j)" "j < length (rg_heap (sv_reg s))"
    using that c unfolding g by (auto simp: live_def admitted_def split: if_splits)
qed


lemma stepped_revoke:
  assumes ok: "reg_ok (sv_reg s)" and r: "revoke_step ans w j s = Some s'"
  shows "stepped s s'"
proof (cases "sv_revokes s ! j")
  case (RvSend a k i)
  let ?m = "MsgRevoke ''revoked_by_admin''"
  show ?thesis
  proof (cases "rg_conns (sv_reg s) (cn_agent (conn_at (sv_reg s) i)) = Some i")
    case True
    from enqueue_ok[OF ok True, of ?m] obtain q r' where e: "enqueue i ?m (sv_reg s) = Some (q, r')" "reg_ok r'" "evolves (sv_reg s) r'"
      "length (rg_heap r') = length (rg_heap (sv_reg s))"
      and at: "\<forall>j<length (rg_heap (sv_reg s)). conn_at r' j = conn_at (sv_reg s) j
        \<or> j = i \<and> conn_at r' j = (conn_at (sv_reg s) j)\<lparr>cn_queue := cn_queue (conn_at (sv_reg s) j) @ [?m],
            cn_queuedSeq := cn_queuedSeq (conn_at (sv_reg s) j) + 1, cn_enqueued := cn_enqueued (conn_at (sv_reg s) j) @ [?m]\<rparr>" by blast
    have s': "sv_reg s' = sv_reg s \<or> sv_reg s' = r'" "sv_panicked s' = sv_panicked s"
      using r RvSend True e(1) by (auto simp: revoke_step_def revoke_send_def sendSync_enqueue_def split: option.splits)
    have "live (conn_at r' j) \<Longrightarrow> live (conn_at (sv_reg s) j)" if "j < length (rg_heap (sv_reg s))" for j
      using at that by (fastforce simp: live_def admitted_def)
    then show ?thesis using s' e ok by (auto simp: stepped_def)
  next
    case False
    then have "sv_reg s' = sv_reg s" "sv_panicked s' = sv_panicked s"
      using r RvSend by (auto simp: revoke_step_def revoke_send_def sendSync_enqueue_def)
    then show ?thesis using ok by (rule stepped_refl[rotated])
  qed
next
  case (RvStop a k i)
  have "stepped s (in_reg (on_conn i (\<lambda>c. c\<lparr>cn_stopping := True\<rparr>)) s)"
    by (rule stepped_on_conn[OF ok]) (auto simp: live_def intro: in_place_updates)
  moreover have "sv_reg s' = sv_reg (in_reg (on_conn i (\<lambda>c. c\<lparr>cn_stopping := True\<rparr>)) s)" "sv_panicked s' = sv_panicked s"
    using r RvStop by (auto simp: revoke_step_def requestStop_def)
  ultimately show ?thesis by (simp add: stepped_def)
next
  case (RvCut a k i)
  have "stepped s (in_reg (on_conn i (\<lambda>c. c\<lparr>cn_cancelled := True\<rparr>)) s)"
    by (rule stepped_on_conn[OF ok]) (auto simp: live_def intro: in_place_updates)
  moreover have "sv_reg s' = sv_reg (in_reg (on_conn i (\<lambda>c. c\<lparr>cn_cancelled := True\<rparr>)) s)" "sv_panicked s' = sv_panicked s"
    using r RvCut by (auto simp: revoke_step_def cancel_conn_def)
  ultimately show ?thesis by (simp add: stepped_def)
qed (use r in \<open>auto simp: revoke_step_def revoke_status_def Let_def split: if_splits intro!: stepped_refl[OF ok]\<close>)

lemma stepped_register:
  assumes ok: "reg_ok (sv_reg s)" and s1: "sv_reg s1 = sv_reg s" "sv_panicked s1 = sv_panicked s"
  shows "stepped s (in_reg (snd \<circ> Register_conn a) s1)"
proof -
  obtain i r' where r: "Register_conn a (sv_reg s) = (i, r')" by fastforce
  note k = Register_ok[OF ok r]
  have "live (conn_at r' j) \<Longrightarrow> j < length (rg_heap (sv_reg s)) \<and> live (conn_at (sv_reg s) j)" if j: "j < length (rg_heap r')" for j
  proof (cases "j = i")
    case True
    then show "live (conn_at r' j) \<Longrightarrow> ?thesis" using k(4) by (simp add: live_def admitted_def new_conn_def)
  next
    case False
    then have j': "j < length (rg_heap (sv_reg s))" using j k(3,5) by simp
    have "conn_at r' j = conn_at (sv_reg s) j \<or> conn_at r' j = (conn_at (sv_reg s) j)\<lparr>cn_cancelled := True\<rparr>"
      using r j' by (cases "rg_conns (sv_reg s) a = Some j")
        (auto simp: Register_conn_def Let_def conn_at_def nth_append cancel_conn_def on_conn_def split: option.splits)
    then show "live (conn_at r' j) \<Longrightarrow> ?thesis" using j' by (auto simp: live_def admitted_def)
  qed
  then show ?thesis using k(1,2) r s1 by (simp add: stepped_def)
qed

lemma act_stepped:
  assumes ok: "reg_ok (sv_reg s)" and r: "act x s = Some s'" and "\<And>i ans. x \<noteq> Gate i ans"
  shows "stepped s s'"
proof (cases x)
  case (Admit a)
  then show ?thesis using r stepped_register[OF ok] by (auto split: if_splits)
next
  case (Credentials i bs)
  then have h: "handler_at s i AtCredentials" using r by (auto split: if_splits)
  let ?s1 = "case bs of None \<Rightarrow> s | Some b \<Rightarrow> snd (send_agent (cn_agent (conn_at (sv_reg s) i)) (MsgCredentials b) s)"
  have 1: "stepped s ?s1" using stepped_send[OF ok] stepped_refl[OF ok] by (simp split: option.splits)
  have h1: "handler_at ?s1 i AtCredentials"
    using h send_agent_ok(8,9)[OF ok, OF surjective_pairing] by (auto simp: handler_at_def split: option.splits)
  have "stepped ?s1 (set_handler i AtRuleSync ?s1)"
    by (rule stepped_handler[OF _ h1]) (use 1 h1 in \<open>auto simp: stepped_def admitted_def handler_at_def\<close>)
  then show ?thesis using r Credentials h stepped_trans[OF 1] by (simp add: push_credentials_def)
next
  case (Sync i out)
  then have h: "handler_at s i AtRuleSync" and s': "s' = sync_rules i out s" using r by (auto split: if_splits)
  show ?thesis
  proof (cases out)
    case (SyncSnapshot rules)
    obtain q s1 where 1: "send_agent (cn_agent (conn_at (sv_reg s) i)) (MsgRulesSync rules) s = (q, s1)" by fastforce
    have st: "stepped s s1" using stepped_send[OF ok, of "cn_agent (conn_at (sv_reg s) i)" "MsgRulesSync rules"] 1 by simp
    have h1: "handler_at s1 i AtRuleSync" using h send_agent_ok(8,9)[OF ok 1] by (simp add: handler_at_def)
    have "stepped s1 (set_handler i (if q then AtMarker else Returning) s1)"
      by (rule stepped_handler[OF _ h1]) (use st h1 in \<open>auto simp: stepped_def admitted_def handler_at_def\<close>)
    then show ?thesis using s' SyncSnapshot 1 stepped_trans[OF st] by (simp add: sync_rules_def)
  next
    case SyncDegraded
    have "stepped s (in_reg (on_conn i (\<lambda>c. c\<lparr>cn_degraded := True, cn_handler := AtMarker\<rparr>)) s)"
      by (rule stepped_on_conn[OF ok]) (use h in \<open>auto simp: handler_at_def live_def admitted_def intro: in_place_updates\<close>)
    then show ?thesis using s' SyncDegraded by (simp add: sync_rules_def)
  next
    case SyncFailed
    then show ?thesis using s' h stepped_handler[OF ok h] by (simp add: sync_rules_def)
  qed
next
  case (RecvError i)
  then have h: "handler_at s i AtReceive" using r by (auto split: if_splits)
  let ?s1 = "if cn_stopping (conn_at (sv_reg s) i) then s else in_reg (cancel_conn i) s"
  have 1: "stepped s ?s1"
    using stepped_refl[OF ok] stepped_on_conn[OF ok, of i "\<lambda>c. c\<lparr>cn_cancelled := True\<rparr>"]
    by (auto simp: cancel_conn_def live_def intro: in_place_updates)
  have h1: "handler_at ?s1 i AtReceive" using h by (simp add: handler_at_def cancel_conn_def)
  have "stepped ?s1 (set_handler i Returning ?s1)" by (rule stepped_handler[OF _ h1]) (use 1 in \<open>auto simp: stepped_def\<close>)
  then show ?thesis using r RecvError h stepped_trans[OF 1] by simp
next
  case (SeeStop i)
  then show ?thesis using r stepped_handler[OF ok, of i AtReceive Returning] by (auto split: if_splits)
next
  case (SeeCancel i)
  then show ?thesis using r stepped_handler[OF ok, of i AtReceive Returning] by (auto split: if_splits)
next
  case (Leave i)
  then show ?thesis using r stepped_leave[OF ok] by (auto split: if_splits)
next
  case (Reply i m)
  then show ?thesis using r stepped_send[OF ok] by (auto split: if_splits)
next
  case (SendMessage a m)
  then show ?thesis using r stepped_send[OF ok] by auto
next
  case (RevokeStep j ans w)
  then show ?thesis using r stepped_revoke[OF ok] by (auto split: if_splits)
next
  case (WriterTake i)
  then obtain m q where w: "cn_writer (conn_at (sv_reg s) i) = WriterSelect" "cn_queue (conn_at (sv_reg s) i) = m # q"
    and s': "s' = in_reg (on_conn i (\<lambda>c. c\<lparr>cn_queue := q, cn_writer := WriterSending m\<rparr>)) s"
    using r by (auto simp: writer_at_def split: if_splits list.splits)
  show ?thesis unfolding s' by (rule stepped_on_conn[OF ok]) (use w in \<open>auto simp: live_def admitted_def intro: in_place_updates\<close>)
next
  case (WriterSent i good)
  then obtain m where w: "cn_writer (conn_at (sv_reg s) i) = WriterSending m"
    and s': "s' = in_reg (on_conn i (if good then (\<lambda>c. c\<lparr>cn_written := cn_written c @ [m], cn_writer := WriterNoting\<rparr>)
      else (\<lambda>c. c\<lparr>cn_writer := WriterStopped, cn_writerDone := True\<rparr>))) s"
    using r by (auto simp: stop_writer_def conn_changes in_reg_def comp_def split: if_splits writer_pc.splits)
  show ?thesis unfolding s' by (cases good; simp only: if_True if_False; rule stepped_on_conn[OF ok]) (use w in \<open>auto simp: live_def admitted_def intro: in_place_updates\<close>)
next
  case (WriterNote i)
  then have w: "cn_writer (conn_at (sv_reg s) i) = WriterNoting"
    and s': "s' = in_reg (on_conn i (\<lambda>c. c\<lparr>cn_sentSeq := cn_sentSeq c + 1, cn_notify := Suc (cn_notify c), cn_writer := WriterSelect\<rparr>)) s"
    using r by (auto simp: writer_at_def conn_changes in_reg_def comp_def split: if_splits)
  show ?thesis unfolding s' by (rule stepped_on_conn[OF ok]) (use w in \<open>auto simp: live_def admitted_def intro: in_place_updates\<close>)
next
  case (WriterQuit i)
  then have w: "cn_writer (conn_at (sv_reg s) i) = WriterSelect"
    and s': "s' = in_reg (on_conn i (\<lambda>c. c\<lparr>cn_writer := WriterStopped, cn_writerDone := True\<rparr>)) s"
    using r by (auto simp: writer_at_def stop_writer_def conn_changes in_reg_def comp_def split: if_splits)
  show ?thesis unfolding s' by (rule stepped_on_conn[OF ok]) (use w in \<open>auto simp: live_def admitted_def intro: in_place_updates\<close>)
next
  case (CallStop a)
  have "stepped s (in_reg (on_conn i (\<lambda>c. c\<lparr>cn_stopping := True\<rparr>)) s)" for i
    by (rule stepped_on_conn[OF ok]) (auto simp: live_def intro: in_place_updates)
  then show ?thesis using r CallStop stepped_refl[OF ok]
    by (cases "rg_conns (sv_reg s) a") (auto simp: Stop_conn_def requestStop_def in_reg_def)
next
  case (CallDisconnect a)
  have "stepped s (in_reg (on_conn i (\<lambda>c. c\<lparr>cn_cancelled := True\<rparr>)) s)" for i
    by (rule stepped_on_conn[OF ok]) (auto simp: live_def intro: in_place_updates)
  then show ?thesis using r CallDisconnect stepped_refl[OF ok]
    by (cases "rg_conns (sv_reg s) a") (auto simp: Disconnect_def cancel_conn_def in_reg_def)
next
  case (Presence i good)
  then have h: "handler_at s i AtPresence" and s': "s' = mark_presence good i s" using r by (auto split: if_splits)
  have "stepped s (in_reg (on_conn i (\<lambda>c. c\<lparr>cn_handler := AtOnlineGate\<rparr>)) s)"
    by (rule stepped_on_conn[OF ok]) (use h in \<open>auto simp: handler_at_def live_def admitted_def intro: in_place_updates\<close>)
  then show ?thesis by (rule stepped_moved) (simp_all add: s' mark_presence_def set_handler_def)
next
  case (Marker i good)
  then have h: "handler_at s i AtMarker" and s': "s' = settle_marker good i s" using r by (auto split: if_splits)
  have "stepped s (set_handler i AtReceive s)"
    by (rule stepped_handler[OF ok h]) (use h in \<open>auto simp: handler_at_def admitted_def\<close>)
  then show ?thesis by (rule stepped_moved) (simp_all add: s' settle_marker_def set_handler_def Let_def)
next
  case (Heartbeat i hb)
  then have h: "handler_at s i AtReceive" using r by (auto split: if_splits)
  then show ?thesis using r Heartbeat stepped_handler[OF ok h, of "AtBeat BeatPresence hb"] by (simp add: admitted_def handler_at_def)
next
  case (BeatStep i good ans)
  then obtain b hb where h: "handler_at s i (AtBeat b hb)" and s': "s' = beat_step good ans i b hb s"
    using r by (auto simp: handler_at_def split: if_splits handler_pc.splits)
  from beat_step_effect(1)[of hb good ans i b s] obtain h' where h': "h' \<in> insert AtReceive (range (\<lambda>b. AtBeat b hb))"
    "sv_reg s' = sv_reg (set_handler i h' s)" unfolding s' by blast
  have "stepped s (set_handler i h' s)"
    by (rule stepped_handler[OF ok h]) (use h h'(1) in \<open>auto simp: handler_at_def admitted_def\<close>)
  then show ?thesis by (rule stepped_moved) (use h'(2) s' beat_step_effect(2) in \<open>simp_all add: set_handler_def\<close>)
next
  case (Cleanup k good ans)
  then show ?thesis using r cleanup_effect stepped_refl[OF ok] by (auto split: if_splits)
qed (use assms in \<open>auto split: if_splits intro!: stepped_refl\<close>)


section \<open>Revocation\<close>

definition revoked :: "uuid \<Rightarrow> agents \<Rightarrow> bool" where
  "revoked a t \<longleftrightarrow> (\<exists>r\<in>set t. ag_id r = a) \<and> (\<forall>r\<in>set t. ag_id r = a \<longrightarrow> ag_status r = AgentStatusRevoked)"

lemma revoked_update:
  assumes "\<And>r. ag_id (f r) = ag_id r" "\<And>r. ag_id r = a \<Longrightarrow> ag_status r = AgentStatusRevoked \<Longrightarrow> Q r \<Longrightarrow> ag_status (f r) = AgentStatusRevoked"
    and "revoked a t"
  shows "revoked a (update_where Q f t)"
proof -
  obtain r where "r \<in> set t" "ag_id r = a" using assms(3) by (auto simp: revoked_def)
  then have "(if Q r then f r else r) \<in> set (update_where Q f t)" "ag_id (if Q r then f r else r) = a"
    using assms(1) by (auto simp: update_where_def)
  then show ?thesis using assms by (auto simp: revoked_def update_where_def)
qed

lemma revoked_moves:
  assumes "AgentStatusRevoked \<notin> from" "revoked a t"
  shows "revoked a (snd (move_status from st i t))"
  unfolding move_status_table by (rule revoked_update[OF _ _ assms(2)]) (use assms(1) in auto)

lemma revoked_gate: "revoked a t \<Longrightarrow> fst (MarkAgentOnlineIfUsable a t) = Inr 0"
  by (auto simp: revoked_def MarkAgentOnlineIfUsable_def move_status_def count_where_def filter_empty_conv)

lemma revoked_statements:
  assumes "revoked a t"
  shows "revoked a (snd (MarkAgentOnlineIfUsable i t))" "revoked a (snd (MarkAgentOnlineIfOffline i t))"
    "revoked a (snd (MarkAgentOfflineIfOnline i t))" "revoked a (snd (UpdateAgentStatus i AgentStatusRevoked t))"
    "revoked a (snd (CreateAgent new t))" "i \<noteq> a \<Longrightarrow> revoked a (snd (UpdateAgentStatus i st t))"
proof -
  show "revoked a (snd (MarkAgentOnlineIfUsable i t))" "revoked a (snd (MarkAgentOnlineIfOffline i t))" "revoked a (snd (MarkAgentOfflineIfOnline i t))"
    unfolding MarkAgentOnlineIfUsable_def MarkAgentOnlineIfOffline_def MarkAgentOfflineIfOnline_def
    by (rule revoked_moves[OF _ assms]; simp)+
  show "revoked a (snd (UpdateAgentStatus i AgentStatusRevoked t))" "i \<noteq> a \<Longrightarrow> revoked a (snd (UpdateAgentStatus i st t))"
    unfolding UpdateAgentStatus_def update_agent_table by (rule revoked_update[OF _ _ assms]; simp)+
  show "revoked a (snd (CreateAgent new t))"
    using assms by (auto simp: revoked_def CreateAgent_def exists_where_iff)
qed

lemma revoked_made:
  assumes "find_row ag_id a (snd (UpdateAgentStatus a AgentStatusRevoked t)) \<noteq> None"
  shows "revoked a (snd (UpdateAgentStatus a AgentStatusRevoked t))"
proof -
  have "\<exists>r\<in>set (snd (UpdateAgentStatus a AgentStatusRevoked t)). ag_id r = a"
    using assms by (auto simp: find_row_def find_None_iff)
  moreover have "\<forall>r\<in>set (snd (UpdateAgentStatus a AgentStatusRevoked t)). ag_id r = a \<longrightarrow> ag_status r = AgentStatusRevoked"
    unfolding UpdateAgentStatus_def update_agent_table update_where_def set_map
    by (intro ballI impI, elim imageE) (simp split: if_splits)
  ultimately show ?thesis unfolding revoked_def by blast
qed

definition target :: "server \<Rightarrow> uuid \<Rightarrow> nat \<Rightarrow> bool" where
  "target s a i \<longleftrightarrow> i < length (rg_heap (sv_reg s)) \<and> cn_agent (conn_at (sv_reg s) i) = a"

text \<open>All live streams of the agent are among \<open>X\<close>.\<close>

definition live_within :: "server \<Rightarrow> uuid \<Rightarrow> nat set \<Rightarrow> bool" where
  "live_within s a X \<longleftrightarrow> (\<forall>j<length (rg_heap (sv_reg s)). cn_agent (conn_at (sv_reg s) j) = a \<longrightarrow> live (conn_at (sv_reg s) j) \<longrightarrow> j \<in> X)"

abbreviation revoke_command :: server_message where
  "revoke_command \<equiv> MsgRevoke ''revoked_by_admin''"

definition ticket :: "agent_conn \<Rightarrow> 64 word \<Rightarrow> bool" where
  "ticket c seq \<longleftrightarrow> (\<exists>n<length (cn_enqueued c). cn_enqueued c ! n = revoke_command \<and> seq = of_nat (Suc n))"

definition confirmed :: "agent_conn \<Rightarrow> bool" where
  "confirmed c \<longleftrightarrow> (length (cn_enqueued c) < 2 ^ 64 \<longrightarrow> revoke_command \<in> set (cn_written c))"

text \<open>Since the status was written in the current approval: the agent is revoked and its live streams are within \<open>X\<close>.\<close>

definition since :: "server \<Rightarrow> uuid \<Rightarrow> nat \<Rightarrow> nat set \<Rightarrow> bool" where
  "since s a k X \<longleftrightarrow> k \<le> sv_approvals s a \<and> (k = sv_approvals s a \<longrightarrow> revoked a (sv_agents s) \<and> live_within s a X)"

fun rv_ok :: "server \<Rightarrow> revoke_pc \<Rightarrow> bool" where
  "rv_ok s (RvStart a) = True"
| "rv_ok s (RvWritten a k) = since s a k UNIV"
| "rv_ok s (RvForgotten a k) = since s a k UNIV"
| "rv_ok s (RvCapture a k) = since s a k UNIV"
| "rv_ok s (RvSend a k i) = (target s a i \<and> since s a k {i})"
| "rv_ok s (RvPoll a k i seq) = (target s a i \<and> since s a k {i} \<and> ticket (conn_at (sv_reg s) i) seq)"
| "rv_ok s (RvWait a k i seq gen) = (target s a i \<and> since s a k {i} \<and> ticket (conn_at (sv_reg s) i) seq
     \<and> gen \<le> cn_notify (conn_at (sv_reg s) i) \<and> (gen = cn_notify (conn_at (sv_reg s) i) \<longrightarrow> \<not> seq \<le> cn_sentSeq (conn_at (sv_reg s) i)))"
| "rv_ok s (RvStop a k i) = (target s a i \<and> since s a k {i} \<and> confirmed (conn_at (sv_reg s) i))"
| "rv_ok s (RvCut a k i) = (target s a i \<and> since s a k {i})"
| "rv_ok s (RvDone a k c g) = (since s a k {} \<and> (g \<longrightarrow> (\<exists>i. c = Some i \<and> target s a i \<and> confirmed (conn_at (sv_reg s) i))))"
| "rv_ok s (RvFailed a) = True"

definition sv_inv :: "server \<Rightarrow> bool" where
  "sv_inv s \<longleftrightarrow> reg_ok (sv_reg s) \<and> \<not> sv_panicked s \<and> (\<forall>p\<in>set (sv_revokes s). rv_ok s p)"

text \<open>What a step does to everything a request relies on.\<close>

definition calm :: "server \<Rightarrow> server \<Rightarrow> bool" where
  "calm s s' \<longleftrightarrow> evolves (sv_reg s) (sv_reg s')
     \<and> (\<forall>j<length (rg_heap (sv_reg s')). live (conn_at (sv_reg s') j) \<longrightarrow>
          j < length (rg_heap (sv_reg s)) \<and> live (conn_at (sv_reg s) j) \<or> \<not> revoked (cn_agent (conn_at (sv_reg s') j)) (sv_agents s))
     \<and> (\<forall>a. sv_approvals s a \<le> sv_approvals s' a)
     \<and> (\<forall>a. sv_approvals s' a = sv_approvals s a \<longrightarrow> revoked a (sv_agents s) \<longrightarrow> revoked a (sv_agents s'))"

lemma calm_since:
  assumes "calm s s'" "since s a k X"
  shows "since s' a k X"
proof -
  have "live_within s' a X" if k: "revoked a (sv_agents s)" "live_within s a X"
    unfolding live_within_def
  proof (intro allI impI)
    fix j assume j: "j < length (rg_heap (sv_reg s'))" "cn_agent (conn_at (sv_reg s') j) = a" "live (conn_at (sv_reg s') j)"
    then have "j < length (rg_heap (sv_reg s)) \<and> live (conn_at (sv_reg s) j)" using assms(1) k(1) unfolding calm_def by blast
    moreover from this have "cn_agent (conn_at (sv_reg s) j) = a" using assms(1) j(2) by (auto simp: calm_def evolves_def advances_def)
    ultimately show "j \<in> X" using k(2) by (auto simp: live_within_def)
  qed
  moreover have "sv_approvals s a \<le> sv_approvals s' a" using assms(1) by (simp add: calm_def)
  moreover have "revoked a (sv_agents s')" if "revoked a (sv_agents s)" "sv_approvals s' a = sv_approvals s a"
    using assms(1) that unfolding calm_def by blast
  ultimately show ?thesis using assms(2) unfolding since_def by (metis le_antisym le_trans)
qed

lemma advances_keep:
  assumes "advances c c'"
  shows "ticket c seq \<Longrightarrow> ticket c' seq" "confirmed c \<Longrightarrow> confirmed c'"
  using assms by (auto simp: advances_def ticket_def confirmed_def nth_append intro: less_trans)

lemma calm_rv:
  assumes c: "calm s s'" and p: "rv_ok s p"
  shows "rv_ok s' p"
proof -
  have t: "target s a i \<Longrightarrow> target s' a i \<and> advances (conn_at (sv_reg s) i) (conn_at (sv_reg s') i)" for a i
    using c by (auto simp: target_def calm_def evolves_def advances_def)
  have tk: "ticket (conn_at (sv_reg s') i) seq" if "target s a i" "ticket (conn_at (sv_reg s) i) seq" for a i seq
    using advances_keep(1) t[OF that(1)] that(2) by blast
  have cf: "confirmed (conn_at (sv_reg s') i)" if "target s a i" "confirmed (conn_at (sv_reg s) i)" for a i
    using advances_keep(2) t[OF that(1)] that(2) by blast
  show ?thesis
  proof (cases p)
    case (RvWait a k i seq gen)
    then have adv: "advances (conn_at (sv_reg s) i) (conn_at (sv_reg s') i)" using p t by auto
    have n: "cn_notify (conn_at (sv_reg s) i) \<le> cn_notify (conn_at (sv_reg s') i)"
      "cn_notify (conn_at (sv_reg s') i) = cn_notify (conn_at (sv_reg s) i) \<Longrightarrow> cn_sentSeq (conn_at (sv_reg s') i) = cn_sentSeq (conn_at (sv_reg s) i)"
      using adv by (auto simp: advances_def)
    show ?thesis using p t calm_since[OF c] advances_keep(1)[OF adv] RvWait n by auto
  qed (use p t calm_since[OF c] tk cf in auto)
qed


text \<open>A sequence number below the writer's count means the message itself was written.\<close>

lemma written_confirms:
  assumes f: "conn_fifo c" and t: "ticket c seq" and le: "seq \<le> cn_sentSeq c"
  shows "confirmed c"
  unfolding confirmed_def
proof
  assume small: "length (cn_enqueued c) < 2 ^ 64"
  obtain n where n: "n < length (cn_enqueued c)" "cn_enqueued c ! n = revoke_command" "seq = of_nat (Suc n)" using t by (auto simp: ticket_def)
  obtain rest where rest: "cn_enqueued c = cn_written c @ rest" using f by (auto simp: conn_fifo_def split: if_splits)
  define w where "w = (if cn_writer c = WriterNoting then length (cn_written c) - 1 else length (cn_written c))"
  have sent: "cn_sentSeq c = of_nat w"
    using f by (cases "cn_written c") (auto simp: conn_fifo_def w_def)
  have w: "w \<le> length (cn_written c)" "w < 2 ^ 64" using small rest by (auto simp: w_def)
  have "unat seq = Suc n" "unat (cn_sentSeq c) = w" using n(1,3) w(2) small sent by (simp_all add: unat_of_nat take_bit_nat_eq_self del: of_nat_Suc)
  then have "Suc n \<le> length (cn_written c)" using le w(1) by (simp add: word_le_nat_alt)
  then show "revoke_command \<in> set (cn_written c)" using n(2) rest by (metis Suc_le_lessD nth_append nth_mem)
qed


lemma send_agent_agents [simp]:
  "sv_agents (snd (send_agent a m s)) = sv_agents s" "sv_approvals (snd (send_agent a m s)) = sv_approvals s"
  "sv_revokes (snd (send_agent a m s)) = sv_revokes s"
  by (auto simp: send_agent_def split: option.splits)

lemma writes_keep_revoked:
  assumes "\<And>t. revoked a t \<Longrightarrow> revoked a (snd (st t))" "revoked a (sv_agents s)"
  shows "revoked a (sv_agents (write_agents ans st s))"
  using assms by (simp add: write_agents_def)

lemma set_handler_agents [simp]: "sv_agents (set_handler i h s) = sv_agents s" "sv_approvals (set_handler i h s) = sv_approvals s"
  "sv_revokes (set_handler i h s) = sv_revokes s"
  by (simp_all add: set_handler_def)

lemma leave_agents:
  "sv_agents (leave i s) = sv_agents s" "sv_approvals (leave i s) = sv_approvals s" "sv_revokes (leave i s) = sv_revokes s"
  by (auto simp: leave_def Let_def write_agents_def split: option.splits)

lemma gate_agents:
  "sv_agents (online_gate ans i s) = sv_agents s \<or> (\<exists>b. sv_agents (online_gate ans i s) = snd (MarkAgentOnlineIfUsable b (sv_agents s)))"
  "sv_approvals (online_gate ans i s) = sv_approvals s" "sv_revokes (online_gate ans i s) = sv_revokes s"
  by (auto simp: online_gate_def Let_def write_agents_def)

lemma revoke_step_agents:
  assumes "revoke_step ans w j s = Some s'"
  shows "sv_agents s' = sv_agents s \<or> (\<exists>b. sv_agents s' = snd (UpdateAgentStatus b AgentStatusRevoked (sv_agents s)))"
    "sv_approvals s' = sv_approvals s" "\<exists>p. sv_revokes s' = (sv_revokes s)[j := p] \<or> sv_revokes s' = sv_revokes s"
  using assms
  by (auto simp: revoke_step_def revoke_status_def revoke_send_def write_agents_def set_revoke_def Let_def
      split: revoke_pc.splits option.splits if_splits prod.splits)

lemma sync_rules_agents [simp]:
  "sv_agents (sync_rules i out s) = sv_agents s" "sv_approvals (sync_rules i out s) = sv_approvals s" "sv_revokes (sync_rules i out s) = sv_revokes s"
proof -
  have "sv_agents (sync_rules i out s) = sv_agents s \<and> sv_approvals (sync_rules i out s) = sv_approvals s \<and> sv_revokes (sync_rules i out s) = sv_revokes s"
  proof (cases out)
    case (SyncSnapshot rules)
    obtain q s1 where 1: "send_agent (cn_agent (conn_at (sv_reg s) i)) (MsgRulesSync rules) s = (q, s1)" by fastforce
    show ?thesis using SyncSnapshot 1 send_agent_agents[of "cn_agent (conn_at (sv_reg s) i)" "MsgRulesSync rules" s] by (simp add: sync_rules_def)
  qed (simp_all add: sync_rules_def)
  then show "sv_agents (sync_rules i out s) = sv_agents s" "sv_approvals (sync_rules i out s) = sv_approvals s" "sv_revokes (sync_rules i out s) = sv_revokes s" by auto
qed

lemma act_agents:
  assumes "act x s = Some s'"
  shows "sv_approvals s a \<le> sv_approvals s' a" "sv_approvals s' a = sv_approvals s a \<Longrightarrow> revoked a (sv_agents s) \<Longrightarrow> revoked a (sv_agents s')"
proof -
  have "sv_approvals s a \<le> sv_approvals s' a \<and> (sv_approvals s' a = sv_approvals s a \<longrightarrow> revoked a (sv_agents s) \<longrightarrow> revoked a (sv_agents s'))"
  proof (cases x)
    case (Gate i ans)
    then have "s' = online_gate ans i s" using assms by (auto split: if_splits)
    then show ?thesis using gate_agents(1,2)[of ans i s] revoked_statements(1) by fastforce
  next
    case (Leave i)
    then have "s' = leave i s" using assms by (auto split: if_splits)
    then show ?thesis using leave_agents(1,2)[of i s] by simp
  next
    case (RevokeStep j ans w)
    then have "revoke_step ans w j s = Some s'" using assms by (auto split: if_splits)
    from revoke_step_agents(1,2)[OF this] show ?thesis using revoked_statements(4) by fastforce
  next
    case (BeatStep i good ans)
    then obtain b hb where "s' = beat_step good ans i b hb s" using assms by (auto split: if_splits handler_pc.splits)
    then show ?thesis using beat_step_effect(4,5)[of good ans i b hb s] revoked_statements(2) by fastforce
  next
    case (Cleanup k good ans)
    then have "cleanup_step good ans k s = Some s'" using assms by (auto split: if_splits)
    from cleanup_effect(4,5)[OF this] show ?thesis using revoked_statements(3) by fastforce
  next
    case (SweepAgent b ans)
    then show ?thesis using assms writes_keep_revoked[OF revoked_statements(3)] by auto
  next
    case (Approve b)
    then show ?thesis using assms revoked_statements(6) by (auto split: if_splits)
  next
    case (NewAgent new)
    then show ?thesis using assms revoked_statements(5) by auto
  next
    case (Sync i out)
    then show ?thesis using assms by (auto split: if_splits)
  next
    case (Credentials i bs)
    then show ?thesis using assms by (auto simp: push_credentials_def split: if_splits option.splits)
  qed (use assms in \<open>auto simp: stop_writer_def mark_presence_def settle_marker_def Let_def split: if_splits list.splits writer_pc.splits\<close>)
  then show "sv_approvals s a \<le> sv_approvals s' a" "sv_approvals s' a = sv_approvals s a \<Longrightarrow> revoked a (sv_agents s) \<Longrightarrow> revoked a (sv_agents s')" by auto
qed

lemma act_calm:
  assumes ok: "reg_ok (sv_reg s)" and r: "act x s = Some s'"
  shows "reg_ok (sv_reg s')" "sv_panicked s' = sv_panicked s" "calm s s'"
proof -
  have k: "reg_ok (sv_reg s') \<and> sv_panicked s' = sv_panicked s \<and> evolves (sv_reg s) (sv_reg s')
    \<and> (\<forall>j<length (rg_heap (sv_reg s')). live (conn_at (sv_reg s') j) \<longrightarrow>
          j < length (rg_heap (sv_reg s)) \<and> live (conn_at (sv_reg s) j) \<or> \<not> revoked (cn_agent (conn_at (sv_reg s') j)) (sv_agents s))"
  proof (cases "\<exists>i ans. x = Gate i ans")
    case False
    then have "stepped s s'" using act_stepped[OF ok r] by blast
    then show ?thesis by (auto simp: stepped_def)
  next
    case True
    then obtain i ans where i: "handler_at s i AtOnlineGate" and s': "s' = online_gate ans i s" using r by (auto split: if_splits)
    note g = gate_ok[OF ok i]
    have "length (rg_heap (sv_reg s')) = length (rg_heap (sv_reg s))"
      unfolding s' by (auto simp: online_gate_def Let_def set_handler_def)
    moreover have "cn_agent (conn_at (sv_reg s') i) = cn_agent (conn_at (sv_reg s) i)"
      using g(2)[of ans] i s' by (auto simp: evolves_def advances_def handler_at_def)
    ultimately show ?thesis using g(1-3)[of ans] g(4)[of ans] revoked_gate s' by (simp, metis)
  qed
  then show "reg_ok (sv_reg s')" "sv_panicked s' = sv_panicked s" by auto
  show "calm s s'" unfolding calm_def using k act_agents[OF r] by blast
qed


lemma listed_live:
  assumes "reg_ok (sv_reg s)"
  shows "live_within s a (case rg_conns (sv_reg s) a of None \<Rightarrow> {} | Some i \<Rightarrow> {i})"
  unfolding live_within_def
proof (intro allI impI)
  fix j assume j: "j < length (rg_heap (sv_reg s))" "cn_agent (conn_at (sv_reg s) j) = a" "live (conn_at (sv_reg s) j)"
  then have "\<not> cn_cancelled (conn_at (sv_reg s) j)" "cn_handler (conn_at (sv_reg s) j) \<noteq> Returned" by (auto simp: live_def admitted_def)
  then have "rg_conns (sv_reg s) a = Some j" using assms j unfolding reg_ok_def strays_ok_def by blast
  then show "j \<in> (case rg_conns (sv_reg s) a of None \<Rightarrow> {} | Some i \<Rightarrow> {i})" by simp
qed

lemma since_here: "since s a k X \<Longrightarrow> live_within s a Y \<Longrightarrow> since s a k Y"
  by (auto simp: since_def)

lemma since_set_revoke [simp]: "since (set_revoke j p s) a k X = since s a k X" "target (set_revoke j p s) a i = target s a i"
  by (simp_all add: since_def live_within_def target_def)

lemma revoke_step_pc:
  assumes ok: "reg_ok (sv_reg s)" and j: "j < length (sv_revokes s)" and p: "rv_ok s (sv_revokes s ! j)"
    and r: "revoke_step ans w j s = Some s'" and c: "calm s s'" and ok': "reg_ok (sv_reg s')" "\<not> sv_panicked s'"
  shows "rv_ok s' (sv_revokes s' ! j)"
proof (cases "sv_revokes s ! j")
  case (RvStart a)
  let ?s1 = "write_agents ans (UpdateAgentStatus a AgentStatusRevoked) s"
  have s': "s' = set_revoke j (if ans = Answered \<and> find_row ag_id a (sv_agents ?s1) \<noteq> None then RvWritten a (sv_approvals s a) else RvFailed a) ?s1"
    using r RvStart by (simp add: revoke_step_def revoke_status_def Let_def)
  show ?thesis
  proof (cases "ans = Answered \<and> find_row ag_id a (sv_agents ?s1) \<noteq> None")
    case True
    then have t: "sv_agents ?s1 = snd (UpdateAgentStatus a AgentStatusRevoked (sv_agents s))" by (simp add: write_agents_def)
    have "find_row ag_id a (sv_agents ?s1) \<noteq> None" using True by blast
    then have "revoked a (sv_agents ?s1)" unfolding t by (rule revoked_made)
    then show ?thesis using s' True j by (simp add: set_revoke_def since_def live_within_def)
  next
    case False
    then show ?thesis using s' j by (auto simp: set_revoke_def)
  qed
next
  case (RvWritten a k)
  then show ?thesis using r p j by (auto simp: revoke_step_def set_revoke_def since_def live_within_def cached_def del_online_def)
next
  case (RvForgotten a k)
  have "since s a k {}" if "\<not> IsOnline a (sv_reg s)"
    using since_here[of s a k UNIV "{}"] listed_live[OF ok, of a] p RvForgotten that by (simp add: IsOnline_def)
  then show ?thesis using r RvForgotten p j by (auto simp: revoke_step_def set_revoke_def since_def live_within_def)
next
  case (RvCapture a k)
  have k: "since s a k (case rg_conns (sv_reg s) a of None \<Rightarrow> {} | Some i \<Rightarrow> {i})"
    using since_here[OF _ listed_live[OF ok]] p RvCapture by simp
  have "target s a i" if "rg_conns (sv_reg s) a = Some i" for i using ok that by (auto simp: target_def reg_ok_def listed_ok_def)
  moreover have "s' = set_revoke j (case rg_conns (sv_reg s) a of None \<Rightarrow> RvDone a k None False | Some i \<Rightarrow> RvSend a k i) s"
    using r RvCapture by (simp add: revoke_step_def)
  ultimately show ?thesis using k j by (cases "rg_conns (sv_reg s) a") (simp_all add: set_revoke_def since_def live_within_def target_def)
next
  case (RvSend a k i)
  have t: "target s a i" "since s a k {i}" using p RvSend by auto
  have t': "target s' a i" "since s' a k {i}" using calm_since[OF c] calm_rv[OF c, of "RvSend a k i"] p RvSend by auto
  show ?thesis
  proof (cases "rg_conns (sv_reg s) (cn_agent (conn_at (sv_reg s) i)) = Some i")
    case True
    from enqueue_ok[OF ok True, of revoke_command] obtain q r' where e: "enqueue i revoke_command (sv_reg s) = Some (q, r')"
      and seq: "\<And>seq. q = Some seq \<Longrightarrow> seq = cn_queuedSeq (conn_at (sv_reg s) i) + 1 \<and> cn_enqueued (conn_at r' i) = cn_enqueued (conn_at (sv_reg s) i) @ [revoke_command]"
      by blast
    have fifo: "cn_queuedSeq (conn_at (sv_reg s) i) = of_nat (length (cn_enqueued (conn_at (sv_reg s) i)))"
      using ok t(1) by (auto simp: target_def reg_ok_def conn_ok_def conn_fifo_def)
    have "ticket (conn_at r' i) q'" if "q = Some q'" for q'
      using seq[OF that] fifo by (auto simp: ticket_def intro!: exI[of _ "length (cn_enqueued (conn_at (sv_reg s) i))"])
    then show ?thesis using r RvSend e True t' j
      by (cases q) (auto simp: revoke_step_def revoke_send_def sendSync_enqueue_def set_revoke_def)
  next
    case False
    then show ?thesis using r RvSend t' j by (auto simp: revoke_step_def revoke_send_def sendSync_enqueue_def set_revoke_def)
  qed
next
  case (RvPoll a k i seq)
  then have t: "target s a i" "since s a k {i}" "ticket (conn_at (sv_reg s) i) seq" using p by auto
  have "conn_fifo (conn_at (sv_reg s) i)" using ok t(1) by (auto simp: target_def reg_ok_def conn_ok_def)
  from written_confirms[OF this t(3)] show ?thesis
    using r RvPoll t j by (auto simp: revoke_step_def set_revoke_def since_def live_within_def target_def)
next
  case (RvWait a k i seq gen)
  then show ?thesis using r p j by (auto simp: revoke_step_def set_revoke_def since_def live_within_def target_def split: if_splits)
next
  case (RvStop a k i)
  have t: "target s' a i" "since s' a k {i}" "confirmed (conn_at (sv_reg s') i)" using calm_rv[OF c, of "RvStop a k i"] p RvStop by auto
  have s': "s' = set_revoke j (RvDone a k (Some i) True) (in_reg (requestStop i) s)" using r RvStop by (simp add: revoke_step_def)
  then have "cn_stopping (conn_at (sv_reg s') i)" using p RvStop by (simp add: requestStop_def target_def)
  then have "since s' a k {}" using t(2) by (auto simp: since_def live_within_def live_def)
  moreover have "sv_revokes s' ! j = RvDone a k (Some i) True" using s' j by (simp add: set_revoke_def)
  ultimately show ?thesis using t(1,3) by simp
next
  case (RvCut a k i)
  have t: "target s' a i" "since s' a k {i}" using calm_rv[OF c, of "RvCut a k i"] p RvCut by auto
  have s': "s' = set_revoke j (RvDone a k (Some i) False) (in_reg (cancel_conn i) s)" using r RvCut by (simp add: revoke_step_def)
  then have "cn_cancelled (conn_at (sv_reg s') i)" using p RvCut by (simp add: cancel_conn_def target_def)
  then have "since s' a k {}" using t(2) by (auto simp: since_def live_within_def live_def)
  moreover have "sv_revokes s' ! j = RvDone a k (Some i) False" using s' j by (simp add: set_revoke_def)
  ultimately show ?thesis by simp
qed (use r in \<open>auto simp: revoke_step_def\<close>)

lemma act_revokes:
  assumes "act x s = Some s'"
  shows "sv_revokes s' = sv_revokes s \<or> (\<exists>a. sv_revokes s' = sv_revokes s @ [RvStart a])
    \<or> (\<exists>j ans w p. revoke_step ans w j s = Some s' \<and> j < length (sv_revokes s) \<and> sv_revokes s' = (sv_revokes s)[j := p])"
proof (cases x)
  case (RevokeStep j ans w)
  then have "revoke_step ans w j s = Some s'" "j < length (sv_revokes s)" using assms by (auto split: if_splits)
  then show ?thesis using revoke_step_agents(3) by metis
next
  case (Gate i ans)
  then show ?thesis using assms gate_agents(3) by (auto split: if_splits)
next
  case (Leave i)
  then show ?thesis using assms leave_agents(3) by (auto split: if_splits)
next
  case (Sync i out)
  then show ?thesis using assms by (auto split: if_splits)
next
  case (Credentials i bs)
  then show ?thesis using assms by (auto simp: push_credentials_def split: if_splits option.splits)
next
  case (BeatStep i good ans)
  then show ?thesis using assms beat_step_effect(3) by (auto split: if_splits handler_pc.splits)
next
  case (Cleanup k good ans)
  then show ?thesis using assms cleanup_effect(3) by (auto split: if_splits)
qed (use assms in \<open>auto simp: stop_writer_def mark_presence_def settle_marker_def Let_def split: if_splits list.splits writer_pc.splits\<close>)

lemma act_inv:
  assumes inv: "sv_inv s" and r: "act x s = Some s'"
  shows "sv_inv s'"
proof -
  have ok: "reg_ok (sv_reg s)" and np: "\<not> sv_panicked s" and pcs: "\<And>p. p \<in> set (sv_revokes s) \<Longrightarrow> rv_ok s p" using inv by (auto simp: sv_inv_def)
  note c = act_calm[OF ok r]
  have old: "rv_ok s' p" if "p \<in> set (sv_revokes s)" for p using calm_rv[OF c(3) pcs[OF that]] .
  from act_revokes[OF r] have "\<forall>p\<in>set (sv_revokes s'). rv_ok s' p"
  proof (elim disjE exE conjE)
    fix j ans w p
    assume st: "revoke_step ans w j s = Some s'" and j: "j < length (sv_revokes s)" and upd: "sv_revokes s' = (sv_revokes s)[j := p]"
    have "rv_ok s' (sv_revokes s' ! j)" using revoke_step_pc[OF ok j pcs st c(3,1)] j c(2) np by simp
    then show ?thesis using upd j old set_update_subset_insert[of "sv_revokes s" j p] by auto
  qed (use old in auto)
  then show ?thesis using c(1,2) np by (simp add: sv_inv_def)
qed

interpretation server_system: invariant_system sv_init sv_step sv_inv
proof
  show "sv_init s \<Longrightarrow> sv_inv s" for s by (auto simp: sv_init_def sv_inv_def reg_ok_def listed_ok_def strays_ok_def)
  show "sv_inv s \<Longrightarrow> sv_step s s' \<Longrightarrow> sv_inv s'" for s s' by (erule sv_step.cases) (auto intro: act_inv)
qed


section \<open>Properties\<close>

text \<open>
  C6: The registry never panics: over every interleaving of streams opening, reconnecting and ending, senders, writers,
  stops, cuts and revocations no message is sent on a closed channel and no channel is closed twice, and every agent's
  entry is its own open connection, every other connection of the agent being cancelled or gone.
\<close>

theorem registry_never_panics:
  assumes "reach sv_init sv_step s"
  shows "\<not> sv_panicked s
    \<and> (\<forall>a i. rg_conns (sv_reg s) a = Some i \<longrightarrow> cn_agent (conn_at (sv_reg s) i) = a \<and> \<not> cn_closed (conn_at (sv_reg s) i))
    \<and> (\<forall>i<length (rg_heap (sv_reg s)). rg_conns (sv_reg s) (cn_agent (conn_at (sv_reg s) i)) \<noteq> Some i \<longrightarrow>
         cn_cancelled (conn_at (sv_reg s) i) \<or> cn_handler (conn_at (sv_reg s) i) = Returned)"
  using server_system.reach_inv[OF assms] by (auto simp: sv_inv_def reg_ok_def listed_ok_def strays_ok_def)

text \<open>
  C7: A revocation cuts every stream it has to.  Once a revoking request has finished and the agent was not approved again
  since it wrote the status, the agent is still revoked and each of its streams past the online gate is stopping or
  cancelled, whatever reconnects raced the request; the one way around is a driver error in the gate's own
  statement.  A request that ended gracefully has had its command written to the connection it stopped, as
  long as fewer than \<open>2\<^sup>6\<^sup>4\<close> messages were queued there.
\<close>

theorem revocation_cuts_every_stream:
  assumes "reach sv_init sv_step s" "RvDone a k c graceful \<in> set (sv_revokes s)"
  shows "(k = sv_approvals s a \<longrightarrow> revoked a (sv_agents s)
      \<and> (\<forall>i<length (rg_heap (sv_reg s)). cn_agent (conn_at (sv_reg s) i) = a \<longrightarrow> cn_handler (conn_at (sv_reg s) i) \<notin> {AtPresence, AtOnlineGate, Returning, Returned}
          \<longrightarrow> cn_cancelled (conn_at (sv_reg s) i) \<or> cn_stopping (conn_at (sv_reg s) i) \<or> cn_ungated (conn_at (sv_reg s) i)))
    \<and> (graceful \<longrightarrow> (\<exists>i. c = Some i \<and> cn_agent (conn_at (sv_reg s) i) = a
          \<and> (length (cn_enqueued (conn_at (sv_reg s) i)) < 2 ^ 64 \<longrightarrow> MsgRevoke ''revoked_by_admin'' \<in> set (cn_written (conn_at (sv_reg s) i)))))"
proof -
  have "rv_ok s (RvDone a k c graceful)" using server_system.reach_inv[OF assms(1)] assms(2) by (auto simp: sv_inv_def)
  then show ?thesis by (auto simp: since_def live_within_def live_def admitted_def target_def confirmed_def)
qed

text \<open>
  C8: Messages reach a stream in the order they were accepted, none of them twice, at most 32 of them wait, and a waiting
  request is never left asleep: as soon as its message counts as written, its channel generation has been closed.
\<close>

theorem sends_in_order:
  assumes "reach sv_init sv_step s"
  shows "(\<forall>i<length (rg_heap (sv_reg s)). \<exists>rest. cn_enqueued (conn_at (sv_reg s) i) = cn_written (conn_at (sv_reg s) i) @ rest
        \<and> length (cn_queue (conn_at (sv_reg s) i)) \<le> sendChCapacity)
    \<and> (\<forall>a k i seq gen. RvWait a k i seq gen \<in> set (sv_revokes s) \<longrightarrow> seq \<le> cn_sentSeq (conn_at (sv_reg s) i)
        \<longrightarrow> wakes WakeNotify gen (conn_at (sv_reg s) i))"
proof -
  have inv: "sv_inv s" by (rule server_system.reach_inv[OF assms])
  have "\<exists>rest. cn_enqueued c = cn_written c @ rest \<and> length (cn_queue c) \<le> sendChCapacity" if "conn_fifo c" for c
    using that by (auto simp: conn_fifo_def split: if_splits)
  moreover have "wakes WakeNotify gen (conn_at (sv_reg s) i)"
    if "RvWait a k i seq gen \<in> set (sv_revokes s)" "seq \<le> cn_sentSeq (conn_at (sv_reg s) i)" for a k i seq gen
  proof -
    have "rv_ok s (RvWait a k i seq gen)" using inv that(1) by (auto simp: sv_inv_def)
    then show ?thesis using that(2) by (auto simp: wakes_def)
  qed
  ultimately show ?thesis using inv by (auto simp: sv_inv_def reg_ok_def conn_ok_def)
qed


section \<open>Samples\<close>

fun run_acts :: "sv_action list \<Rightarrow> server \<Rightarrow> server option" where
  "run_acts [] s = Some s"
| "run_acts (x # xs) s = (case act x s of None \<Rightarrow> None | Some s1 \<Rightarrow> run_acts xs s1)"

lemma run_acts_reach: "reach sv_init sv_step s \<Longrightarrow> run_acts xs s = Some s' \<Longrightarrow> reach sv_init sv_step s'"
proof (induction xs arbitrary: s)
  case (Cons x xs)
  then obtain s1 where 1: "act x s = Some s1" "run_acts xs s1 = Some s'" by (auto split: option.splits)
  have "\<not> sv_panicked s" using server_system.reach_inv[OF Cons.prems(1)] by (simp add: sv_inv_def)
  then have "reach sv_init sv_step s1" using Cons.prems(1) 1(1) by (blast intro: reach.intros sv_act)
  then show ?case using Cons.IH 1(2) by blast
qed simp

definition sample_server :: server where
  "sample_server = \<lparr>sv_reg = \<lparr>rg_conns = Map.empty, rg_heap = []\<rparr>, sv_agents = [sample_agent AgentStatusApproved], sv_checked = [], sv_revokes = [],
     sv_approvals = (\<lambda>_. 0), sv_panicked = False, sv_online = {}, sv_marked = {}, sv_stats = Map.empty, sv_published = [], sv_cleanups = []\<rparr>"

text \<open>An agent connects and is revoked; it reconnects while the request waits for its command to be written.\<close>

definition sample_acts :: "sv_action list" where
  "sample_acts = [Open 7 Answered, Open 7 Answered, Admit 7, Presence 0 True, Gate 0 Answered, Credentials 0 None, Sync 0 (SyncSnapshot []), Marker 0 True, WriterTake 0,
     WriterSent 0 True, WriterNote 0, Revoke 7, RevokeStep 0 Answered WakeTimer, RevokeStep 0 Answered WakeTimer, RevokeStep 0 Answered WakeTimer, RevokeStep 0 Answered WakeTimer,
     RevokeStep 0 Answered WakeTimer, RevokeStep 0 Answered WakeTimer, WriterTake 0, WriterSent 0 True, WriterNote 0]"

definition sample_rest :: "sv_action list" where
  "sample_rest = [RevokeStep 0 Answered WakeNotify, RevokeStep 0 Answered WakeTimer, Admit 7, RevokeStep 0 Answered WakeTimer, Presence 1 True, Gate 1 Answered]"

definition sample_waiting :: server where
  "sample_waiting = the (run_acts sample_acts sample_server)"

definition sample_revoked :: server where
  "sample_revoked = the (run_acts sample_rest sample_waiting)"

lemma sample_runs: "run_acts sample_acts sample_server = Some sample_waiting" "run_acts sample_rest sample_waiting = Some sample_revoked"
proof -
  have "run_acts sample_acts sample_server \<noteq> None" "run_acts sample_rest sample_waiting \<noteq> None" by code_simp+
  then show "run_acts sample_acts sample_server = Some sample_waiting" "run_acts sample_rest sample_waiting = Some sample_revoked"
    by (auto simp: sample_waiting_def sample_revoked_def)
qed

lemma sample_reach: "reach sv_init sv_step sample_waiting" "reach sv_init sv_step sample_revoked"
proof -
  have "reach sv_init sv_step sample_server" by (rule reach.intros) (simp add: sv_init_def sample_server_def)
  then show "reach sv_init sv_step sample_waiting" using run_acts_reach sample_runs(1) by blast
  then show "reach sv_init sv_step sample_revoked" using run_acts_reach sample_runs(2) by blast
qed

theorem registry_never_panics_witness:
  "\<not> sv_panicked sample_revoked \<and> length (rg_heap (sv_reg sample_revoked)) = 2 \<and> cn_cancelled (conn_at (sv_reg sample_revoked) 0)"
proof -
  have "length (rg_heap (sv_reg sample_revoked)) = 2" "rg_conns (sv_reg sample_revoked) (cn_agent (conn_at (sv_reg sample_revoked) 0)) \<noteq> Some 0"
    "cn_handler (conn_at (sv_reg sample_revoked) 0) \<noteq> Returned" "0 < length (rg_heap (sv_reg sample_revoked))" by code_simp+
  then show ?thesis using registry_never_panics[OF sample_reach(2)] by blast
qed

theorem revocation_cuts_every_stream_witness:
  "RvDone 7 0 (Some 0) True \<in> set (sv_revokes sample_revoked) \<and> revoked 7 (sv_agents sample_revoked)
   \<and> MsgRevoke ''revoked_by_admin'' \<in> set (cn_written (conn_at (sv_reg sample_revoked) 0))
   \<and> cn_handler (conn_at (sv_reg sample_revoked) 0) = AtReceive
   \<and> (cn_cancelled (conn_at (sv_reg sample_revoked) 0) \<or> cn_stopping (conn_at (sv_reg sample_revoked) 0))
   \<and> cn_handler (conn_at (sv_reg sample_revoked) 1) = Returning"
proof -
  have "RvDone 7 0 (Some 0) True \<in> set (sv_revokes sample_revoked)" by code_simp
  note claim = revocation_cuts_every_stream[OF sample_reach(2) this]
  have "sv_approvals sample_revoked 7 = 0" "0 < length (rg_heap (sv_reg sample_revoked))" "cn_agent (conn_at (sv_reg sample_revoked) 0) = 7"
    "cn_handler (conn_at (sv_reg sample_revoked) 0) = AtReceive" "\<not> cn_ungated (conn_at (sv_reg sample_revoked) 0)"
    "length (cn_enqueued (conn_at (sv_reg sample_revoked) 0)) = 2" "cn_handler (conn_at (sv_reg sample_revoked) 1) = Returning"
    "RvDone 7 0 (Some 0) True \<in> set (sv_revokes sample_revoked)" by code_simp+
  then show ?thesis using claim by auto
qed

theorem sends_in_order_witness:
  "RvWait 7 0 0 2 1 \<in> set (sv_revokes sample_waiting) \<and> wakes WakeNotify 1 (conn_at (sv_reg sample_waiting) 0)
   \<and> cn_written (conn_at (sv_reg sample_waiting) 0) = [MsgRulesSync [], MsgRevoke ''revoked_by_admin'']"
proof -
  have "RvWait 7 0 0 2 1 \<in> set (sv_revokes sample_waiting)" "2 \<le> cn_sentSeq (conn_at (sv_reg sample_waiting) 0)"
    "cn_written (conn_at (sv_reg sample_waiting) 0) = [MsgRulesSync [], MsgRevoke ''revoked_by_admin'']" by code_simp+
  then show ?thesis using sends_in_order[OF sample_reach(1)] by blast
qed

text \<open>
  The gap the gate leaves: its statement fails while the agent is being revoked, the request finds no connection to cut,
  and the stream goes on although the request has finished.
\<close>

lemma failed_gate_survives_revocation:
  "case run_acts [Open 7 Answered, Revoke 7, RevokeStep 0 Answered WakeTimer, RevokeStep 0 Answered WakeTimer, RevokeStep 0 Answered WakeTimer, Admit 7, Presence 0 True, Gate 0 NotRun, Credentials 0 None,
     Sync 0 (SyncSnapshot []), Marker 0 True] sample_server of
     None \<Rightarrow> False
   | Some s \<Rightarrow> sv_revokes s = [RvDone 7 0 None False] \<and> revoked 7 (sv_agents s) \<and> cn_handler (conn_at (sv_reg s) 0) = AtReceive
       \<and> \<not> cn_cancelled (conn_at (sv_reg s) 0) \<and> \<not> cn_stopping (conn_at (sv_reg s) 0)"
  by code_simp

end
