(* ===== verification/Rules.thy ===== *)
theory Rules
  imports Agents Collect
begin

text \<open>
  Collection rules in the control plane: the table and its queries (controlplane/internal/db/rules.sql.go) and the REST
  handlers that write it (api/handler/agents.go), with the dispatch calls they make.
\<close>

section \<open>The table\<close>

datatype RuleStatus = RuleStatusActive | RuleStatusInactive

record coll_rule =
  col_id :: uuid
  col_org :: uuid
  col_agent :: uuid
  col_bucket :: uuid
  col_name :: string
  col_mode :: string
  col_status :: RuleStatus
  col_base_path :: string
  col_path_pattern :: string
  col_dest :: string
  col_recursive :: bool
  col_cron :: "string option"
  col_run_once :: bool
  col_append :: string
  col_metadata :: string
  col_created :: int

record rules_db =
  rd_rules :: "coll_rule list"
  rd_buckets :: "bucket_row list"

type_synonym 'a rule_stmt = "rules_db \<Rightarrow> (db_error + 'a) \<times> rules_db"

definition one_row :: "'a option \<Rightarrow> db_error + 'a" where
  "one_row r = (case r of None \<Rightarrow> Inl ErrNoRows | Some x \<Rightarrow> Inr x)"

definition GetBucketByID :: "uuid \<Rightarrow> bucket_row rule_stmt" where
  "GetBucketByID i d = (one_row (find_row b_id i (rd_buckets d)), d)"

definition GetCollectionRuleByID :: "uuid \<Rightarrow> coll_rule rule_stmt" where
  "GetCollectionRuleByID i d = (one_row (find_row col_id i (rd_rules d)), d)"

definition ListCollectionRulesByAgent :: "uuid \<Rightarrow> coll_rule list rule_stmt" where
  "ListCollectionRulesByAgent a d = (Inr (order_by (\<lambda>r. - col_created r) (select_where (\<lambda>r. col_agent r = a) (rd_rules d))), d)"

text \<open>The key is unique, the mode an enumeration and the bucket a reference; a violation is an error of the driver.\<close>

definition rule_refused :: "coll_rule \<Rightarrow> rules_db \<Rightarrow> bool" where
  "rule_refused r d \<longleftrightarrow> col_mode r \<notin> {''watch'', ''scheduled''} \<or> find_row b_id (col_bucket r) (rd_buckets d) = None"

definition CreateCollectionRule :: "coll_rule \<Rightarrow> coll_rule rule_stmt" where
  "CreateCollectionRule new d =
     (if rule_refused new d \<or> exists_where (\<lambda>r. col_id r = col_id new) (rd_rules d) then (Inl (DriverError ''constraint''), d)
      else (Inr new, d\<lparr>rd_rules := rd_rules d @ [new]\<rparr>))"

text \<open>Updates and deletions are scoped by the rule, its agent and its organisation.\<close>

definition in_scope :: "uuid \<Rightarrow> uuid \<Rightarrow> uuid \<Rightarrow> coll_rule \<Rightarrow> bool" where
  "in_scope i a org r \<longleftrightarrow> col_id r = i \<and> col_agent r = a \<and> col_org r = org"

definition update_rule :: "uuid \<Rightarrow> uuid \<Rightarrow> uuid \<Rightarrow> (coll_rule \<Rightarrow> coll_rule) \<Rightarrow> coll_rule rule_stmt" where
  "update_rule i a org f d =
     (let t' = update_where (in_scope i a org) f (rd_rules d)
      in (one_row (List.find (in_scope i a org) t'), d\<lparr>rd_rules := t'\<rparr>))"

definition UpdateCollectionRuleStatus :: "uuid \<Rightarrow> RuleStatus \<Rightarrow> uuid \<Rightarrow> uuid \<Rightarrow> coll_rule rule_stmt" where
  "UpdateCollectionRuleStatus i st a org = update_rule i a org (\<lambda>r. r\<lparr>col_status := st\<rparr>)"

text \<open>\<open>p\<close> is \<^verbatim>\<open>UpdateCollectionRuleParams\<close>; every column but the key, the owners and the creation time is written.\<close>

definition UpdateCollectionRule :: "coll_rule \<Rightarrow> coll_rule rule_stmt" where
  "UpdateCollectionRule p d =
     (if exists_where (in_scope (col_id p) (col_agent p) (col_org p)) (rd_rules d) \<and> rule_refused p d then (Inl (DriverError ''constraint''), d)
      else update_rule (col_id p) (col_agent p) (col_org p) (\<lambda>r. p\<lparr>col_created := col_created r\<rparr>) d)"

definition DeleteCollectionRule :: "uuid \<Rightarrow> uuid \<Rightarrow> uuid \<Rightarrow> nat rule_stmt" where
  "DeleteCollectionRule i a org d =
     (Inr (count_where (in_scope i a org) (rd_rules d)), d\<lparr>rd_rules := delete_where (in_scope i a org) (rd_rules d)\<rparr>)"

section \<open>Requests\<close>

text \<open>
  The outside, by the number of the statement: faults, commits of other sessions, ids and the clock of the database; then
  \<^verbatim>\<open>uuid.Parse\<close>, package time and whether a dispatcher is wired.
\<close>

record rules_env =
  rw_fault :: "nat \<Rightarrow> db_fault option"
  rw_meanwhile :: "nat \<Rightarrow> rules_db \<Rightarrow> rules_db"
  rw_new_id :: "nat \<Rightarrow> uuid"
  rw_now :: "nat \<Rightarrow> int"
  rw_parse_uuid :: "string \<Rightarrow> uuid option"
  rw_time :: time_lib
  rw_dispatcher :: bool

record rules_session =
  rs_db :: rules_db
  rs_stmt :: nat

definition rule_sql :: "rules_env \<Rightarrow> 'a rule_stmt \<Rightarrow> rules_session \<Rightarrow> (db_error + 'a) \<times> rules_session" where
  "rule_sql e st s =
     (let k = rs_stmt s; d = rw_meanwhile e k (rs_db s); (r, d') = st d
      in case rw_fault e k of
           Some (Refused msg) \<Rightarrow> (Inl (DriverError msg), s\<lparr>rs_db := d, rs_stmt := Suc k\<rparr>)
         | Some (AnswerLost msg) \<Rightarrow> (Inl (DriverError msg), s\<lparr>rs_db := d', rs_stmt := Suc k\<rparr>)
         | None \<Rightarrow> (r, s\<lparr>rs_db := d', rs_stmt := Suc k\<rparr>))"

definition orgIDFromClaims :: "rules_env \<Rightarrow> string option \<Rightarrow> uuid" where
  "orgIDFromClaims e claims = (case claims of None \<Rightarrow> 0 | Some s \<Rightarrow> (case rw_parse_uuid e s of None \<Rightarrow> 0 | Some org \<Rightarrow> org))"

text \<open>Calls into the dispatcher, in order.\<close>

datatype dispatch_call = PushCall coll_rule | CancelCall uuid uuid

text \<open>Contract warnings about a field.\<close>

datatype rule_warning = DeprecatedTime string | ReservedMisuse string string | InvalidPattern string

datatype rule_reply =
    Problem nat string
  | RuleReply nat coll_rule "rule_warning list"
  | RuleList "coll_rule list"
  | NoContent

definition field_warnings :: "time_lib \<Rightarrow> string \<Rightarrow> string \<Rightarrow> rule_warning list" where
  "field_warnings lib field v =
     (if UsesDeprecatedTimeField v then [DeprecatedTime field] else [])
     @ (case ValidateReservedTimeUse lib v of None \<Rightarrow> [] | Some reason \<Rightarrow> [ReservedMisuse field reason])
     @ (if field = ''path_pattern'' \<and> \<not> IsTrollsiftPattern v then []
        else case New_parser lib v of Inl err \<Rightarrow> [InvalidPattern field] | Inr p \<Rightarrow> [])"

definition ruleTemplateWarnings :: "time_lib \<Rightarrow> string \<Rightarrow> string \<Rightarrow> rule_warning list" where
  "ruleTemplateWarnings lib pattern dest = field_warnings lib ''path_pattern'' pattern @ field_warnings lib ''dest_path_template'' dest"

definition respondRule :: "rules_env \<Rightarrow> nat \<Rightarrow> coll_rule \<Rightarrow> rule_reply" where
  "respondRule e code r = RuleReply code r (ruleTemplateWarnings (rw_time e) (col_path_pattern r) (col_dest r))"

definition is_tail :: "string \<Rightarrow> bool" where
  "is_tail m \<longleftrightarrow> map ascii_lower (TrimSpace m) = ''tail''"

definition MaxRulesPerAgent :: nat where
  "MaxRulesPerAgent = 1000"

definition MaxRulesSnapshotBytes :: int where
  "MaxRulesSnapshotBytes = 3 * 2 ^ 20"

record create_request =
  cq_bucket :: string
  cq_name :: string
  cq_mode :: string
  cq_base_path :: string
  cq_path_pattern :: string
  cq_dest :: string
  cq_recursive :: bool
  cq_cron :: string
  cq_run_once :: bool
  cq_append :: string
  cq_enabled :: "bool option"
  cq_metadata :: string

definition estimatedRuleBytes :: "create_request \<Rightarrow> nat" where
  "estimatedRuleBytes q = 512 + length (cq_name q) + length (cq_base_path q) + length (cq_path_pattern q)
     + length (cq_dest q) + length (cq_cron q) + length (cq_metadata q)"

definition estimatedRuleBytesFromDB :: "coll_rule \<Rightarrow> nat" where
  "estimatedRuleBytesFromDB r = 512 + length (col_name r) + length (col_base_path r) + length (col_path_pattern r)
     + length (col_dest r) + (case col_cron r of None \<Rightarrow> 0 | Some c \<Rightarrow> length c) + length (col_metadata r)"

text \<open>The fields tagged \<^verbatim>\<open>binding:"required"\<close> must not be empty.\<close>

definition bind_create :: "create_request option \<Rightarrow> create_request option" where
  "bind_create body =
     (case body of None \<Rightarrow> None
      | Some q \<Rightarrow> if '''' \<in> {cq_bucket q, cq_name q, cq_mode q, cq_base_path q, cq_path_pattern q, cq_dest q} then None else Some q)"

definition overwrite_default :: "string \<Rightarrow> string" where
  "overwrite_default m = (if m = '''' then ''overwrite'' else m)"

definition metadata_default :: "string \<Rightarrow> string" where
  "metadata_default m = (if m = '''' then ''{}'' else m)"

definition enabled_status :: "bool option \<Rightarrow> RuleStatus" where
  "enabled_status b = (if b = Some False then RuleStatusInactive else RuleStatusActive)"

text \<open>The row a request describes.\<close>

definition requested_rule :: "uuid \<Rightarrow> uuid \<Rightarrow> uuid \<Rightarrow> uuid \<Rightarrow> int \<Rightarrow> create_request \<Rightarrow> coll_rule" where
  "requested_rule i org a b now q =
     \<lparr>col_id = i, col_org = org, col_agent = a, col_bucket = b, col_name = cq_name q, col_mode = map ascii_lower (cq_mode q),
      col_status = enabled_status (cq_enabled q), col_base_path = cq_base_path q, col_path_pattern = cq_path_pattern q, col_dest = cq_dest q,
      col_recursive = cq_recursive q, col_cron = (if cq_cron q = '''' then None else Some (cq_cron q)), col_run_once = cq_run_once q,
      col_append = overwrite_default (cq_append q), col_metadata = metadata_default (cq_metadata q), col_created = now\<rparr>"

type_synonym handled = "rule_reply \<times> dispatch_call list \<times> rules_session"

definition create_checked :: "rules_env \<Rightarrow> uuid \<Rightarrow> uuid \<Rightarrow> uuid \<Rightarrow> create_request \<Rightarrow> coll_rule list \<Rightarrow> rules_session \<Rightarrow> handled" where
  "create_checked e a org b q rules s =
     (if MaxRulesPerAgent \<le> length rules then (Problem 422 ''RULE_COUNT_LIMIT'', [], s)
      else if MaxRulesSnapshotBytes < int (estimatedRuleBytes q + sum_list (map estimatedRuleBytesFromDB rules))
      then (Problem 422 ''RULE_SNAPSHOT_SIZE_LIMIT'', [], s)
      else if is_tail (overwrite_default (cq_append q)) then (Problem 422 ''VALIDATION_ERROR'', [], s)
      else case rule_sql e (CreateCollectionRule (requested_rule (rw_new_id e (rs_stmt s)) org a b (rw_now e (rs_stmt s)) q)) s of
             (Inl err, s1) \<Rightarrow> (Problem 500 ''INTERNAL_ERROR'', [], s1)
           | (Inr rule, s1) \<Rightarrow> (respondRule e 201 rule, if rw_dispatcher e then [PushCall rule] else [], s1))"

definition CreateRule :: "rules_env \<Rightarrow> string \<Rightarrow> string option \<Rightarrow> create_request option \<Rightarrow> rules_session \<Rightarrow> handled" where
  "CreateRule e aid claims body s =
     (case rw_parse_uuid e aid of
        None \<Rightarrow> (Problem 400 ''INVALID_ID'', [], s)
      | Some a \<Rightarrow>
          (case bind_create body of
             None \<Rightarrow> (Problem 400 ''INVALID_REQUEST'', [], s)
           | Some q \<Rightarrow>
               (case rw_parse_uuid e (cq_bucket q) of
                  None \<Rightarrow> (Problem 400 ''INVALID_BUCKET_ID'', [], s)
                | Some b \<Rightarrow>
                    (case rule_sql e (ListCollectionRulesByAgent a) s of
                       (Inl err, s1) \<Rightarrow> (Problem 500 ''INTERNAL_ERROR'', [], s1)
                     | (Inr rules, s1) \<Rightarrow> create_checked e a (orgIDFromClaims e claims) b q rules s1))))"

section \<open>Updates and deletions\<close>

definition redispatchRule :: "rules_env \<Rightarrow> coll_rule \<Rightarrow> RuleStatus \<Rightarrow> dispatch_call list" where
  "redispatchRule e rule st =
     (if \<not> rw_dispatcher e then []
      else case st of RuleStatusActive \<Rightarrow> [PushCall rule] | RuleStatusInactive \<Rightarrow> [CancelCall (col_id rule) (col_agent rule)])"

definition updated :: "rules_env \<Rightarrow> RuleStatus \<Rightarrow> coll_rule rule_stmt \<Rightarrow> rules_session \<Rightarrow> handled" where
  "updated e st stm s =
     (case rule_sql e stm s of
        (Inl err, s1) \<Rightarrow> (if err = ErrNoRows then Problem 404 ''NOT_FOUND'' else Problem 500 ''INTERNAL_ERROR'', [], s1)
      | (Inr rule, s1) \<Rightarrow> (respondRule e 200 rule, redispatchRule e rule st, s1))"

definition parse_status :: "string \<Rightarrow> RuleStatus option" where
  "parse_status x = (if x = ''active'' then Some RuleStatusActive else if x = ''inactive'' then Some RuleStatusInactive else None)"

definition updateRuleStatus :: "rules_env \<Rightarrow> string \<Rightarrow> string option \<Rightarrow> uuid \<Rightarrow> string \<Rightarrow> rules_session \<Rightarrow> handled" where
  "updateRuleStatus e aid claims rid status s =
     (case rw_parse_uuid e aid of
        None \<Rightarrow> (Problem 400 ''INVALID_ID'', [], s)
      | Some a \<Rightarrow>
          (case parse_status status of
             None \<Rightarrow> (Problem 400 ''INVALID_STATUS'', [], s)
           | Some st \<Rightarrow> updated e st (UpdateCollectionRuleStatus rid st a (orgIDFromClaims e claims)) s))"

definition updateRuleFull :: "rules_env \<Rightarrow> string \<Rightarrow> string option \<Rightarrow> uuid \<Rightarrow> create_request \<Rightarrow> rules_session \<Rightarrow> handled" where
  "updateRuleFull e aid claims rid q s =
     (case rw_parse_uuid e aid of
        None \<Rightarrow> (Problem 400 ''INVALID_ID'', [], s)
      | Some a \<Rightarrow>
          if '''' \<in> {cq_name q, cq_bucket q, cq_mode q, cq_base_path q, cq_path_pattern q, cq_dest q} then (Problem 422 ''VALIDATION_ERROR'', [], s)
          else (case rw_parse_uuid e (cq_bucket q) of
             None \<Rightarrow> (Problem 400 ''INVALID_BUCKET_ID'', [], s)
           | Some b \<Rightarrow>
               if map ascii_lower (cq_mode q) \<notin> {''watch'', ''scheduled''} then (Problem 422 ''VALIDATION_ERROR'', [], s)
               else if is_tail (overwrite_default (cq_append q)) then (Problem 422 ''VALIDATION_ERROR'', [], s)
               else updated e (enabled_status (cq_enabled q))
                      (UpdateCollectionRule (requested_rule rid (orgIDFromClaims e claims) a b 0 q)) s))"

text \<open>\<open>uq_name\<close> of the body is absent for the status toggle; a present name selects the full update.\<close>

record update_request = create_request +
  uq_status :: string
  uq_name :: "string option"

definition UpdateRule :: "rules_env \<Rightarrow> string \<Rightarrow> string \<Rightarrow> string option \<Rightarrow> update_request option \<Rightarrow> rules_session \<Rightarrow> handled" where
  "UpdateRule e aid rid claims body s =
     (case rw_parse_uuid e rid of
        None \<Rightarrow> (Problem 400 ''INVALID_ID'', [], s)
      | Some i \<Rightarrow>
          (case body of
             None \<Rightarrow> (Problem 400 ''INVALID_REQUEST'', [], s)
           | Some q \<Rightarrow>
               (case uq_name q of
                  Some name \<Rightarrow> updateRuleFull e aid claims i ((create_request.truncate q)\<lparr>cq_name := name\<rparr>) s
                | None \<Rightarrow> updateRuleStatus e aid claims i (uq_status q) s)))"

definition DeleteRule :: "rules_env \<Rightarrow> string \<Rightarrow> string \<Rightarrow> string option \<Rightarrow> rules_session \<Rightarrow> handled" where
  "DeleteRule e aid rid claims s =
     (case rw_parse_uuid e aid of
        None \<Rightarrow> (Problem 400 ''INVALID_ID'', [], s)
      | Some a \<Rightarrow>
          (case rw_parse_uuid e rid of
             None \<Rightarrow> (Problem 400 ''INVALID_ID'', [], s)
           | Some i \<Rightarrow>
               (case rule_sql e (GetCollectionRuleByID i) s of
                  (Inl err, s1) \<Rightarrow> (if err = ErrNoRows then Problem 404 ''NOT_FOUND'' else Problem 500 ''INTERNAL_ERROR'', [], s1)
                | (Inr rule, s1) \<Rightarrow>
                    (case rule_sql e (DeleteCollectionRule i a (orgIDFromClaims e claims)) s1 of
                       (Inl err, s2) \<Rightarrow> (Problem 500 ''INTERNAL_ERROR'', [], s2)
                     | (Inr rows, s2) \<Rightarrow>
                         if rows = 0 then (Problem 404 ''NOT_FOUND'', [], s2)
                         else (NoContent, if rw_dispatcher e then [CancelCall i (col_agent rule)] else [], s2)))))"

definition ListRules :: "rules_env \<Rightarrow> string \<Rightarrow> rules_session \<Rightarrow> handled" where
  "ListRules e aid s =
     (case rw_parse_uuid e aid of
        None \<Rightarrow> (Problem 400 ''INVALID_ID'', [], s)
      | Some a \<Rightarrow>
          (case rule_sql e (ListCollectionRulesByAgent a) s of
             (Inl err, s1) \<Rightarrow> (Problem 500 ''INTERNAL_ERROR'', [], s1)
           | (Inr rules, s1) \<Rightarrow> (RuleList rules, [], s1)))"

end
