(* ===== verification/Rules_Laws.thy ===== *)
theory Rules_Laws
  imports Rules Registry
begin

text \<open>
  The rule handlers stay inside the agent and organisation they are called for, whatever other sessions do, and the
  creation gate bounds the snapshot a reconnecting agent is sent.
\<close>

section \<open>Scope\<close>

datatype rule_request =
    ReqCreate "create_request option"
  | ReqUpdate string "update_request option"
  | ReqDelete string
  | ReqList

definition serve :: "rules_env \<Rightarrow> string \<Rightarrow> string option \<Rightarrow> rule_request \<Rightarrow> rules_session \<Rightarrow> handled" where
  "serve e aid claims req s =
     (case req of
        ReqCreate body \<Rightarrow> CreateRule e aid claims body s
      | ReqUpdate rid body \<Rightarrow> UpdateRule e aid rid claims body s
      | ReqDelete rid \<Rightarrow> DeleteRule e aid rid claims s
      | ReqList \<Rightarrow> ListRules e aid s)"

lemma rule_sql_ran:
  assumes "rule_sql e st s = (r, s')"
  shows "rs_db s' = rw_meanwhile e (rs_stmt s) (rs_db s) \<or> rs_db s' = snd (st (rw_meanwhile e (rs_stmt s) (rs_db s)))"
  using assms by (auto simp: rule_sql_def Let_def split: prod.splits option.splits db_fault.splits)

lemma rule_sql_answered:
  assumes "rule_sql e st s = (Inr x, s')"
  shows "st (rw_meanwhile e (rs_stmt s) (rs_db s)) = (Inr x, rs_db s')"
  using assms by (auto simp: rule_sql_def Let_def split: prod.splits option.splits db_fault.splits)

lemmas rule_reads = GetBucketByID_def GetCollectionRuleByID_def ListCollectionRulesByAgent_def

text \<open>What the statements of one agent's rules keep, every request for that agent keeps.\<close>

locale rules_scope =
  fixes a org :: uuid and P :: "rules_db \<Rightarrow> bool"
  assumes P_create: "P d \<Longrightarrow> col_agent new = a \<Longrightarrow> col_org new = org \<Longrightarrow> P (snd (CreateCollectionRule new d))"
    and P_update: "P d \<Longrightarrow> (\<And>r. in_scope i a org r \<Longrightarrow> in_scope i a org (f r)) \<Longrightarrow> P (snd (update_rule i a org f d))"
    and P_delete: "P d \<Longrightarrow> P (snd (DeleteCollectionRule i a org d))"
begin

lemma sql_keeps:
  assumes "\<And>k d. P d \<Longrightarrow> P (rw_meanwhile e k d)" "\<And>d. P d \<Longrightarrow> P (snd (st d))" "P (rs_db s)" "rule_sql e st s = (r, s')"
  shows "P (rs_db s')"
  using rule_sql_ran[OF assms(4)] assms(1-3) by auto

lemma read_keeps:
  assumes "\<And>k d. P d \<Longrightarrow> P (rw_meanwhile e k d)" "\<And>d. snd (st d) = d" "P (rs_db s)" "rule_sql e st s = (r, s')"
  shows "P (rs_db s')"
  by (rule sql_keeps[OF assms(1) _ assms(3,4)]) (simp_all add: assms(2))

lemma full_update_keeps:
  assumes "P d" "col_agent p = a" "col_org p = org"
  shows "P (snd (UpdateCollectionRule p d))"
  using P_update[OF assms(1), of "col_id p" "\<lambda>r. p\<lparr>col_created := col_created r\<rparr>"] assms
  by (auto simp: UpdateCollectionRule_def in_scope_def)

lemma updated_keeps:
  assumes m: "\<And>k d. P d \<Longrightarrow> P (rw_meanwhile e k d)" and st: "\<And>d. P d \<Longrightarrow> P (snd (stm d))" and P: "P (rs_db s)"
  shows "P (rs_db (snd (snd (updated e st stm s))))"
proof -
  obtain r s1 where 1: "rule_sql e stm s = (r, s1)" by fastforce
  show ?thesis using sql_keeps[OF m st P 1] 1 by (cases r) (simp_all add: updated_def)
qed

lemma create_keeps:
  assumes m: "\<And>k d. P d \<Longrightarrow> P (rw_meanwhile e k d)" and P: "P (rs_db s)"
    and a: "rw_parse_uuid e aid = Some a" and org: "orgIDFromClaims e claims = org"
  shows "P (rs_db (snd (snd (CreateRule e aid claims body s))))"
proof -
  obtain r s1 where 1: "rule_sql e (ListCollectionRulesByAgent a) s = (r, s1)" by fastforce
  have P1: "P (rs_db s1)" by (rule read_keeps[OF m _ P 1]) (simp_all add: rule_reads)
  have "P (rs_db (snd (snd (create_checked e a org b q rules s1))))" for b q rules
  proof -
    let ?new = "requested_rule (rw_new_id e (rs_stmt s1)) org a b (rw_now e (rs_stmt s1)) q"
    obtain r2 s2 where 2: "rule_sql e (CreateCollectionRule ?new) s1 = (r2, s2)" by fastforce
    have "P (rs_db s2)" by (rule sql_keeps[OF m _ P1 2]) (simp_all add: P_create requested_rule_def)
    then show ?thesis using P1 2 by (cases r2) (simp_all add: create_checked_def)
  qed
  then show ?thesis using a org 1 P P1 by (cases r) (auto simp: CreateRule_def split: option.splits)
qed

lemma update_keeps:
  assumes m: "\<And>k d. P d \<Longrightarrow> P (rw_meanwhile e k d)" and P: "P (rs_db s)"
    and a: "rw_parse_uuid e aid = Some a" and org: "orgIDFromClaims e claims = org"
  shows "P (rs_db (snd (snd (UpdateRule e aid rid claims body s))))"
proof -
  have 1: "P (rs_db (snd (snd (updateRuleStatus e aid claims i st s))))" for i st
    unfolding updateRuleStatus_def a org
    by (auto simp: P UpdateCollectionRuleStatus_def split: option.splits intro!: updated_keeps[OF m _ P] P_update) (simp add: in_scope_def)
  have 2: "P (rs_db (snd (snd (updateRuleFull e aid claims i q s))))" for i q
    unfolding updateRuleFull_def a org
    by (auto simp: P requested_rule_def split: option.splits intro!: updated_keeps[OF m _ P] full_update_keeps)
  show ?thesis using 1 2 P by (auto simp: UpdateRule_def split: option.splits)
qed

lemma delete_keeps:
  assumes m: "\<And>k d. P d \<Longrightarrow> P (rw_meanwhile e k d)" and P: "P (rs_db s)"
    and a: "rw_parse_uuid e aid = Some a" and org: "orgIDFromClaims e claims = org"
  shows "P (rs_db (snd (snd (DeleteRule e aid rid claims s))))"
proof (cases "rw_parse_uuid e rid")
  case (Some i)
  obtain r s1 where 1: "rule_sql e (GetCollectionRuleByID i) s = (r, s1)" by fastforce
  have P1: "P (rs_db s1)" by (rule read_keeps[OF m _ P 1]) (simp_all add: rule_reads)
  obtain r2 s2 where 2: "rule_sql e (DeleteCollectionRule i a org) s1 = (r2, s2)" by fastforce
  have "P (rs_db s2)" by (rule sql_keeps[OF m P_delete P1 2])
  then show ?thesis using a org Some 1 2 P1 by (cases r; cases r2) (simp_all add: DeleteRule_def)
qed (simp add: DeleteRule_def a P)

lemma serve_keeps:
  assumes m: "\<And>k d. P d \<Longrightarrow> P (rw_meanwhile e k d)" and P: "P (rs_db s)"
    and a: "rw_parse_uuid e aid = Some a" and org: "orgIDFromClaims e claims = org"
  shows "P (rs_db (snd (snd (serve e aid claims req s))))"
proof (cases req)
  case ReqList
  obtain r s1 where 1: "rule_sql e (ListCollectionRulesByAgent a) s = (r, s1)" by fastforce
  have "P (rs_db s1)" by (rule read_keeps[OF m _ P 1]) (simp_all add: rule_reads)
  then show ?thesis using ReqList a 1 by (cases r) (simp_all add: serve_def ListRules_def)
qed (simp_all add: serve_def create_keeps[OF m P a org] update_keeps[OF m P a org] delete_keeps[OF m P a org])

end

definition rules_wf :: "rules_db \<Rightarrow> bool" where
  "rules_wf d \<longleftrightarrow> unique_key col_id (rd_rules d)"

text \<open>The rules of other agents and organisations.\<close>

definition foreign :: "uuid \<Rightarrow> uuid \<Rightarrow> rules_db \<Rightarrow> coll_rule list" where
  "foreign a org d = filter (\<lambda>r. \<not> (col_agent r = a \<and> col_org r = org)) (rd_rules d)"

lemma filter_map_same:
  assumes "\<And>r. Q (f r) = Q r" "\<And>r. Q r \<Longrightarrow> f r = r"
  shows "filter Q (map f t) = filter Q t"
  using assms by (induction t) auto

interpretation scoped: rules_scope a org "\<lambda>d. rules_wf d \<and> foreign a org d = F" for a org F
proof unfold_locales
  fix d and new :: coll_rule
  assume "rules_wf d \<and> foreign a org d = F" "col_agent new = a" "col_org new = org"
  then show "rules_wf (snd (CreateCollectionRule new d)) \<and> foreign a org (snd (CreateCollectionRule new d)) = F"
    by (auto simp: CreateCollectionRule_def rules_wf_def foreign_def unique_key_snoc)
next
  fix d i f
  assume wf: "rules_wf d \<and> foreign a org d = F" and f: "\<And>r. in_scope i a org r \<Longrightarrow> in_scope i a org (f r)"
  let ?g = "\<lambda>r. if in_scope i a org r then f r else r"
  have own: "col_id (f r) = i \<and> col_agent (f r) = a \<and> col_org (f r) = org" if "in_scope i a org r" for r
    using f[OF that] by (simp add: in_scope_def)
  have "map col_id (map ?g (rd_rules d)) = map col_id (rd_rules d)" using own by (auto simp: in_scope_def)
  moreover have "filter (\<lambda>r. \<not> (col_agent r = a \<and> col_org r = org)) (map ?g (rd_rules d)) = filter (\<lambda>r. \<not> (col_agent r = a \<and> col_org r = org)) (rd_rules d)"
    by (rule filter_map_same) (use own in \<open>auto simp: in_scope_def\<close>)
  ultimately show "rules_wf (snd (update_rule i a org f d)) \<and> foreign a org (snd (update_rule i a org f d)) = F"
    using wf by (simp add: rules_wf_def foreign_def update_rule_def update_where_def unique_key_def Let_def del: map_map)
next
  fix d i
  assume wf: "rules_wf d \<and> foreign a org d = F"
  have "filter (\<lambda>r. \<not> (col_agent r = a \<and> col_org r = org)) (delete_where (in_scope i a org) (rd_rules d)) = foreign a org d"
    by (auto simp: foreign_def delete_where_def in_scope_def intro!: filter_cong)
  then show "rules_wf (snd (DeleteCollectionRule i a org d)) \<and> foreign a org (snd (DeleteCollectionRule i a org d)) = F"
    using wf by (simp add: DeleteCollectionRule_def rules_wf_def foreign_def unique_key_delete)
qed


section \<open>Calls into the dispatcher\<close>

fun call_for :: "uuid \<Rightarrow> uuid \<Rightarrow> rules_db \<Rightarrow> dispatch_call \<Rightarrow> bool" where
  "call_for a org d (PushCall r) \<longleftrightarrow> r \<in> set (rd_rules d) \<and> col_agent r = a \<and> col_org r = org"
| "call_for a org d (CancelCall i b) \<longleftrightarrow> b = a"

lemma one_row_Inr [simp]: "one_row r = Inr x \<longleftrightarrow> r = Some x"
  by (cases r) (simp_all add: one_row_def)

lemma update_rule_row:
  assumes "update_rule i a org f d = (Inr r, d')"
  shows "r \<in> set (rd_rules d') \<and> in_scope i a org r"
  using assms by (auto simp: update_rule_def Let_def find_Some_iff)

lemma create_row:
  assumes "CreateCollectionRule new d = (Inr r, d')"
  shows "new \<in> set (rd_rules d') \<and> r = new"
  using assms by (auto simp: CreateCollectionRule_def split: if_splits)

lemma updated_calls:
  assumes row: "\<And>d r d'. stm d = (Inr r, d') \<Longrightarrow> r \<in> set (rd_rules d') \<and> col_agent r = a \<and> col_org r = org"
    and r: "updated e st stm s = (reply, calls, s')" and c: "c \<in> set calls"
  shows "call_for a org (rs_db s') c"
proof -
  obtain x s1 where 1: "rule_sql e stm s = (x, s1)" by fastforce
  then show ?thesis using r c row[OF rule_sql_answered]
    by (cases x) (auto simp: updated_def redispatchRule_def split: if_splits RuleStatus.splits)
qed

lemma create_calls:
  assumes a: "rw_parse_uuid e aid = Some a" and org: "orgIDFromClaims e claims = org"
    and r: "CreateRule e aid claims body s = (reply, calls, s')" and c: "c \<in> set calls"
  shows "call_for a org (rs_db s') c"
proof -
  have new: "call_for a org (rs_db s') c" if "create_checked e a org b q rules s1 = (reply, calls, s')" for b q rules s1
  proof -
    let ?new = "requested_rule (rw_new_id e (rs_stmt s1)) org a b (rw_now e (rs_stmt s1)) q"
    obtain x s2 where 2: "rule_sql e (CreateCollectionRule ?new) s1 = (x, s2)" by fastforce
    have row: "?new \<in> set (rd_rules (rs_db s2)) \<and> y = ?new" if "x = Inr y" for y
      using create_row[OF rule_sql_answered[OF 2[unfolded that]]] by blast
    have own: "col_agent ?new = a" "col_org ?new = org" by (simp_all add: requested_rule_def)
    show ?thesis
    proof (cases x)
      case (Inr y)
      then show ?thesis using that c 2 row[OF Inr] own by (auto simp: create_checked_def split: if_splits)
    qed (use that c 2 in \<open>auto simp: create_checked_def split: if_splits\<close>)
  qed
  then show ?thesis using r c a org by (auto simp: CreateRule_def split: option.splits sum.splits prod.splits)
qed

lemma update_calls:
  assumes a: "rw_parse_uuid e aid = Some a" and org: "orgIDFromClaims e claims = org"
    and r: "UpdateRule e aid rid claims body s = (reply, calls, s')" and c: "c \<in> set calls"
  shows "call_for a org (rs_db s') c"
proof -
  have 1: "call_for a org (rs_db s') c" if u: "updated e st (UpdateCollectionRuleStatus i st a org) s = (reply, calls, s')" for i st
    by (rule updated_calls[OF _ u c]) (use update_rule_row in \<open>fastforce simp: UpdateCollectionRuleStatus_def in_scope_def\<close>)
  have 2: "call_for a org (rs_db s') c" if u: "updated e st (UpdateCollectionRule p) s = (reply, calls, s')" and p: "col_agent p = a" "col_org p = org" for st p
    by (rule updated_calls[OF _ u c]) (use update_rule_row p in \<open>fastforce simp: UpdateCollectionRule_def in_scope_def split: if_splits\<close>)
  show ?thesis using r c a org 1 2
    by (auto simp: UpdateRule_def updateRuleStatus_def updateRuleFull_def requested_rule_def split: option.splits if_splits)
qed

text \<open>A deletion that removed a row cancels the rule at its owner: a row of another agent would still be there, under the same key.\<close>

lemma delete_calls:
  assumes a: "rw_parse_uuid e aid = Some a" and org: "orgIDFromClaims e claims = org"
    and m: "\<And>k d. rules_wf d \<and> foreign a org d = F \<Longrightarrow> rules_wf (rw_meanwhile e k d) \<and> foreign a org (rw_meanwhile e k d) = F"
    and wf: "rules_wf (rs_db s) \<and> foreign a org (rs_db s) = F"
    and r: "DeleteRule e aid rid claims s = (reply, calls, s')" and c: "c \<in> set calls"
  shows "call_for a org (rs_db s') c"
proof -
  obtain i rule s1 rows s2 where i: "rw_parse_uuid e rid = Some i" and 1: "rule_sql e (GetCollectionRuleByID i) s = (Inr rule, s1)"
    and 2: "rule_sql e (DeleteCollectionRule i a org) s1 = (Inr rows, s2)" "rows \<noteq> 0" "c = CancelCall i (col_agent rule)"
    using r a org c by (auto simp: DeleteRule_def split: option.splits sum.splits prod.splits if_splits)
  have d1: "rules_wf (rs_db s1) \<and> foreign a org (rs_db s1) = F"
    by (rule scoped.read_keeps[where e = e, OF m _ wf 1]) (simp_all add: rule_reads)
  have row: "rule \<in> set (rd_rules (rs_db s1))" "col_id rule = i"
    using rule_sql_answered[OF 1] by (auto simp: GetCollectionRuleByID_def find_row_Some_iff find_row_def find_Some_iff)
  let ?d = "rw_meanwhile e (rs_stmt s1) (rs_db s1)"
  have d2: "rules_wf ?d" "foreign a org ?d = foreign a org (rs_db s1)" using m[OF d1] d1 by auto
  obtain own where own: "own \<in> set (rd_rules ?d)" "in_scope i a org own"
    using rule_sql_answered[OF 2(1)] 2(2) by (auto simp: DeleteCollectionRule_def sql_simps)
  have "col_agent rule = a"
  proof (rule ccontr)
    assume "col_agent rule \<noteq> a"
    then have "rule \<in> set (foreign a org ?d)" using row(1) unfolding d2(2) by (simp add: foreign_def)
    then have "rule \<in> set (rd_rules ?d)" by (simp add: foreign_def)
    then have "rule = own" using d2(1) own row(2) unfolding rules_wf_def in_scope_def by (auto dest: unique_keyD)
    then show False using own(2) \<open>col_agent rule \<noteq> a\<close> by (simp add: in_scope_def)
  qed
  then show ?thesis using 2(3) by simp
qed

section \<open>Properties\<close>

text \<open>
  C11: A rule request stays in its scope.  Whatever faults occur and as long as other sessions leave the rules of other
  agents and organisations alone, listing, creating, updating or deleting through an agent's URL leaves them alone as well and keys
  unique, and every command it dispatches goes to that agent, a pushed rule being the row just written.
\<close>

theorem rule_requests_scoped:
  assumes "rw_parse_uuid e aid = Some a" "orgIDFromClaims e claims = org"
    and "\<And>k d. rules_wf d \<Longrightarrow> rules_wf (rw_meanwhile e k d) \<and> foreign a org (rw_meanwhile e k d) = foreign a org d"
    and "rules_wf (rs_db s)" "serve e aid claims req s = (reply, calls, s')"
  shows "rules_wf (rs_db s') \<and> foreign a org (rs_db s') = foreign a org (rs_db s) \<and> (\<forall>c\<in>set calls. call_for a org (rs_db s') c)"
proof (intro conjI ballI)
  let ?F = "foreign a org (rs_db s)"
  have m: "rules_wf d \<and> foreign a org d = ?F \<Longrightarrow> rules_wf (rw_meanwhile e k d) \<and> foreign a org (rw_meanwhile e k d) = ?F" for k d
    using assms(3) by auto
  have "rules_wf (rs_db s') \<and> foreign a org (rs_db s') = ?F"
    using scoped.serve_keeps[where e = e, OF m _ assms(1,2), of s req] assms(4,5) by simp
  then show "rules_wf (rs_db s')" "foreign a org (rs_db s') = ?F" by auto
  show "call_for a org (rs_db s') c" if c: "c \<in> set calls" for c
    using assms(5) c create_calls[OF assms(1,2) _ c] update_calls[OF assms(1,2) _ c] delete_calls[OF assms(1,2) m _ _ c, of s] assms(1,4)
    by (auto simp: serve_def ListRules_def split: rule_request.splits sum.splits prod.splits)
qed


section \<open>Samples\<close>

definition sample_rules_env :: "time_lib \<Rightarrow> rules_env" where
  "sample_rules_env lib = \<lparr>rw_fault = (\<lambda>_. None), rw_meanwhile = (\<lambda>_ d. d), rw_new_id = (\<lambda>k. 100 + k), rw_now = int,
     rw_parse_uuid = map_of [(''1'', 1), (''2'', 2), (''7'', 7), (''40'', 40), (''41'', 41)], rw_time = lib, rw_dispatcher = True\<rparr>"

definition sample_coll_rule :: "uuid \<Rightarrow> uuid \<Rightarrow> coll_rule" where
  "sample_coll_rule i a = \<lparr>col_id = i, col_org = 1, col_agent = a, col_bucket = 2, col_name = ''r'', col_mode = ''watch'', col_status = RuleStatusActive,
     col_base_path = ''/in'', col_path_pattern = ''*.nc'', col_dest = ''out'', col_recursive = False, col_cron = None, col_run_once = False,
     col_append = ''overwrite'', col_metadata = ''{}'', col_created = 0\<rparr>"

definition sample_rules_session :: rules_session where
  "sample_rules_session = \<lparr>rs_db = \<lparr>rd_rules = [sample_coll_rule 40 7, sample_coll_rule 41 8],
     rd_buckets = [\<lparr>b_id = 2, b_org = 1, b_name = ''data''\<rparr>]\<rparr>, rs_stmt = 0\<rparr>"

text \<open>Agent 7's URL deletes rule 40 and cancels it there; naming rule 41 of agent 8 finds nothing.\<close>

theorem rule_requests_scoped_witness:
  "\<forall>lib. let e = sample_rules_env lib; (reply, calls, s) = serve e ''7'' (Some ''1'') (ReqDelete ''40'') sample_rules_session;
         (reply', calls', s') = serve e ''7'' (Some ''1'') (ReqDelete ''41'') sample_rules_session
     in reply = NoContent \<and> calls = [CancelCall 40 7] \<and> foreign 7 1 (rs_db s) = [sample_coll_rule 41 8] \<and> call_for 7 1 (rs_db s) (CancelCall 40 7)
       \<and> reply' = Problem 404 ''NOT_FOUND'' \<and> calls' = [] \<and> rs_db s' = rs_db sample_rules_session"
proof
  fix lib
  let ?e = "sample_rules_env lib"
  let ?d = "\<lparr>rd_rules = [sample_coll_rule 41 8], rd_buckets = [\<lparr>b_id = 2, b_org = 1, b_name = ''data''\<rparr>]\<rparr>"
  note ev = serve_def DeleteRule_def rule_sql_def GetCollectionRuleByID_def DeleteCollectionRule_def sample_rules_env_def sample_rules_session_def
    sample_coll_rule_def one_row_def find_row_def in_scope_def orgIDFromClaims_def count_where_def delete_where_def
  have 1: "serve ?e ''7'' (Some ''1'') (ReqDelete ''40'') sample_rules_session = (NoContent, [CancelCall 40 7], \<lparr>rs_db = ?d, rs_stmt = 2\<rparr>)"
    by (simp add: ev)
  have 2: "serve ?e ''7'' (Some ''1'') (ReqDelete ''41'') sample_rules_session = (Problem 404 ''NOT_FOUND'', [], sample_rules_session\<lparr>rs_stmt := 2\<rparr>)"
    by (simp add: ev)
  have "rules_wf (rs_db sample_rules_session)" "rw_parse_uuid ?e ''7'' = Some 7" "orgIDFromClaims ?e (Some ''1'') = 1"
    "\<And>k d. rules_wf d \<Longrightarrow> rules_wf (rw_meanwhile ?e k d) \<and> foreign 7 1 (rw_meanwhile ?e k d) = foreign 7 1 d"
    by (simp_all add: ev rules_wf_def unique_key_def)
  note rule_requests_scoped[OF this(2,3,4,1) 1]
  moreover have "foreign 7 1 (rs_db sample_rules_session) = [sample_coll_rule 41 8]" by (simp add: ev foreign_def)
  ultimately show "let e = ?e; (reply, calls, s) = serve e ''7'' (Some ''1'') (ReqDelete ''40'') sample_rules_session;
         (reply', calls', s') = serve e ''7'' (Some ''1'') (ReqDelete ''41'') sample_rules_session
     in reply = NoContent \<and> calls = [CancelCall 40 7] \<and> foreign 7 1 (rs_db s) = [sample_coll_rule 41 8] \<and> call_for 7 1 (rs_db s) (CancelCall 40 7)
       \<and> reply' = Problem 404 ''NOT_FOUND'' \<and> calls' = [] \<and> rs_db s' = rs_db sample_rules_session"
    using 1 2 by simp
qed

text \<open>The update path has neither gate: an edit takes the stored rules past the snapshot budget.\<close>

lemma update_bypasses_budget:
  assumes "q = \<lparr>cq_bucket = ''2'', cq_name = '''', cq_mode = ''watch'', cq_base_path = ''/in'', cq_path_pattern = ''*'', cq_dest = replicate n (CHR ''x''),
       cq_recursive = False, cq_cron = '''', cq_run_once = False, cq_append = '''', cq_enabled = None, cq_metadata = '''', uq_status = '''', uq_name = Some ''r''\<rparr>"
    and "MaxRulesSnapshotBytes < int n" "UpdateRule (sample_rules_env lib) ''7'' ''40'' (Some ''1'') (Some q) sample_rules_session = (reply, calls, s')"
  shows "MaxRulesSnapshotBytes < int (sum_list (map estimatedRuleBytesFromDB (filter (\<lambda>r. col_agent r = 7) (rd_rules (rs_db s')))))"
  using assms
  by (auto simp: UpdateRule_def updateRuleFull_def updated_def rule_sql_def UpdateCollectionRule_def update_rule_def update_where_def in_scope_def one_row_def
      orgIDFromClaims_def rule_refused_def requested_rule_def sample_rules_env_def sample_rules_session_def sample_coll_rule_def find_row_def
      create_request.defs estimatedRuleBytesFromDB_def ascii_lower_def is_tail_def overwrite_default_def TrimSpace_def is_space_def
      exists_where_def Let_def MaxRulesSnapshotBytes_def split: if_splits)

end
