(* ===== verification/Access.thy ===== *)
theory Access
  imports Rules
begin

text \<open>
  Who may call the control plane: tokens and their blacklist (controlplane/internal/auth/jwt.go), the REST middlewares
  (api/middleware/jwt.go, ratelimit.go), the routes they guard (api/router.go), the login handlers (api/handler/auth.go) and the
  gRPC interceptor (grpcserver/interceptor.go).
\<close>

section \<open>Tokens\<close>

record claims =
  cl_subject :: string
  cl_jti :: string
  cl_issued :: int
  cl_expires :: int
  cl_org :: string
  cl_role :: string
  cl_username :: string
  cl_type :: string

text \<open>The answer of Redis to a command: it worked, did not run, or ran and its answer was lost.\<close>

datatype redis_answer = RedisOK | RedisDown | RedisLost

text \<open>
  The outside, by the number of the step: the clock in seconds, Redis, fresh token ids; whether Redis is wired; the JWT library's signing and
  parsing (against the clock); bcrypt.
\<close>

record access_env =
  ae_now :: "nat \<Rightarrow> int"
  ae_answer :: "nat \<Rightarrow> redis_answer"
  ae_jti :: "nat \<Rightarrow> string"
  ae_redis :: bool
  ae_sign :: "claims \<Rightarrow> string + string"
  ae_parse :: "int \<Rightarrow> string \<Rightarrow> claims option"
  ae_bcrypt :: "string \<Rightarrow> string \<Rightarrow> bool"

text \<open>
  Redis keys with the time they expire: blacklisted token ids, and request counters by user.  \<open>ac_logins\<close> are the users whose last login
  was to be updated, in order.
\<close>

record access =
  ac_black :: "(string \<times> int) list"
  ac_rate :: "(string \<times> int \<times> int) list"
  ac_logins :: "uuid list"
  ac_step :: nat

definition tick :: "access \<Rightarrow> access" where
  "tick s = s\<lparr>ac_step := Suc (ac_step s)\<rparr>"

definition generate :: "access_env \<Rightarrow> string \<Rightarrow> string \<Rightarrow> string \<Rightarrow> string \<Rightarrow> string \<Rightarrow> int \<Rightarrow> access \<Rightarrow> (string + string) \<times> access" where
  "generate e subject org role username tokenType ttl s =
     (let now = ae_now e (ac_step s)
      in (ae_sign e \<lparr>cl_subject = subject, cl_jti = ae_jti e (ac_step s), cl_issued = now, cl_expires = now + ttl, cl_org = org,
             cl_role = role, cl_username = username, cl_type = tokenType\<rparr>, tick s))"

definition GenerateAccessToken :: "access_env \<Rightarrow> string \<Rightarrow> string \<Rightarrow> string \<Rightarrow> string \<Rightarrow> int \<Rightarrow> access \<Rightarrow> (string + string) \<times> access" where
  "GenerateAccessToken e subject org role username = generate e subject org role username ''access''"

definition GenerateRefreshToken :: "access_env \<Rightarrow> string \<Rightarrow> string \<Rightarrow> string \<Rightarrow> string \<Rightarrow> int \<Rightarrow> access \<Rightarrow> (string + string) \<times> access" where
  "GenerateRefreshToken e subject org role username = generate e subject org role username ''refresh''"

definition ValidateToken :: "access_env \<Rightarrow> string \<Rightarrow> access \<Rightarrow> claims option \<times> access" where
  "ValidateToken e tok s = (ae_parse e (ae_now e (ac_step s)) tok, tick s)"

definition blacklisted :: "int \<Rightarrow> string \<Rightarrow> access \<Rightarrow> bool" where
  "blacklisted now jti s \<longleftrightarrow> (case map_of (ac_black s) jti of None \<Rightarrow> False | Some x \<Rightarrow> now < x)"

definition IsRevoked :: "access_env \<Rightarrow> string \<Rightarrow> access \<Rightarrow> (unit + bool) \<times> access" where
  "IsRevoked e jti s =
     (if \<not> ae_redis e then (Inr False, s)
      else if ae_answer e (ac_step s) = RedisOK then (Inr (blacklisted (ae_now e (ac_step s)) jti s), tick s)
      else (Inl (), tick s))"

datatype revoke_error = RevokeInvalid | RevokeNoJti | RevokeRedis

definition RevokeToken :: "access_env \<Rightarrow> string \<Rightarrow> access \<Rightarrow> (revoke_error + unit) \<times> access" where
  "RevokeToken e tok s =
     (if \<not> ae_redis e then (Inr (), s)
      else case ValidateToken e tok s of
             (None, s1) \<Rightarrow> (Inl RevokeInvalid, s1)
           | (Some c, s1) \<Rightarrow>
               if cl_jti c = '''' then (Inl RevokeNoJti, s1)
               else let k = ac_step s1; now = ae_now e k; s2 = tick s1
                    in if cl_expires c - now \<le> 0 then (Inr (), s2)
                       else (if ae_answer e k = RedisOK then Inr () else Inl RevokeRedis,
                             if ae_answer e k = RedisDown then s2 else s2\<lparr>ac_black := (cl_jti c, cl_expires c) # ac_black s2\<rparr>))"

section \<open>Guards of the REST API\<close>

datatype http_error = HttpError nat string

definition JWT :: "access_env \<Rightarrow> string \<Rightarrow> access \<Rightarrow> (http_error + claims) \<times> access" where
  "JWT e raw s =
     (if raw = '''' then (Inl (HttpError 401 ''MISSING_TOKEN''), s)
      else if \<not> HasPrefix raw ''Bearer '' then (Inl (HttpError 401 ''INVALID_TOKEN_SCHEME''), s)
      else let tok = TrimPrefix raw ''Bearer ''
           in if tok = '''' then (Inl (HttpError 401 ''EMPTY_TOKEN''), s)
              else case ValidateToken e tok s of
                     (None, s1) \<Rightarrow> (Inl (HttpError 401 ''INVALID_TOKEN''), s1)
                   | (Some c, s1) \<Rightarrow>
                       if cl_jti c = '''' then (Inr c, s1)
                       else case IsRevoked e (cl_jti c) s1 of
                              (Inl err, s2) \<Rightarrow> (Inr c, s2)
                            | (Inr revoked, s2) \<Rightarrow> (if revoked then Inl (HttpError 401 ''TOKEN_REVOKED'') else Inr c, s2))"

definition RequireRole :: "string list \<Rightarrow> claims option \<Rightarrow> bool" where
  "RequireRole roles c \<longleftrightarrow> (case c of None \<Rightarrow> False | Some c \<Rightarrow> cl_role c \<in> set roles)"

text \<open>The script behind \<^verbatim>\<open>IncrWithWindow\<close>: the first increment of a window sets the expiry.\<close>

definition rateLimitWindow :: int where
  "rateLimitWindow = 60"

definition IncrWithWindow :: "access_env \<Rightarrow> string \<Rightarrow> access \<Rightarrow> (unit + int) \<times> access" where
  "IncrWithWindow e user s =
     (let k = ac_step s; now = ae_now e k;
          (n, x) = (case map_of (ac_rate s) user of Some (n, x) \<Rightarrow> (if now < x then (n + 1, x) else (1, now + rateLimitWindow))
                                                   | None \<Rightarrow> (1, now + rateLimitWindow));
          s1 = (tick s)\<lparr>ac_rate := (user, n, x) # ac_rate s\<rparr>
      in case ae_answer e k of RedisOK \<Rightarrow> (Inr n, s1) | RedisDown \<Rightarrow> (Inl (), tick s) | RedisLost \<Rightarrow> (Inl (), s1))"

definition RateLimit :: "access_env \<Rightarrow> int \<Rightarrow> claims option \<Rightarrow> access \<Rightarrow> http_error option \<times> access" where
  "RateLimit e perMinute c s =
     (case c of
        None \<Rightarrow> (None, s)
      | Some c \<Rightarrow>
          if cl_subject c = '''' then (None, s)
          else case IncrWithWindow e (cl_subject c) s of
                 (Inl err, s1) \<Rightarrow> (None, s1)
               | (Inr n, s1) \<Rightarrow> (if perMinute < n then Some (HttpError 429 ''RATE_LIMITED'') else None, s1))"

text \<open>The routes under \<^verbatim>\<open>/api/v1\<close> and whether they are for super administrators only.\<close>

definition v1_routes :: "((string \<times> string) \<times> bool) list" where
  "v1_routes =
    [((''GET'', ''/users''), True), ((''POST'', ''/users''), True), ((''PUT'', ''/users/:id''), True), ((''PUT'', ''/users/:id/active''), True),
     ((''DELETE'', ''/users/:id''), True), ((''PUT'', ''/users/:id/password''), False),
     ((''GET'', ''/agents''), False), ((''GET'', ''/agents/:id''), False), ((''PATCH'', ''/agents/:id''), True),
     ((''POST'', ''/agents/:id/approve''), True), ((''POST'', ''/agents/:id/revoke''), True), ((''POST'', ''/agents/:id/list-dir''), False),
     ((''POST'', ''/agents/:id/test-rule''), False), ((''GET'', ''/agents/:id/rules''), False), ((''POST'', ''/agents/:id/rules''), False),
     ((''PUT'', ''/agents/:id/rules/:rid''), False), ((''DELETE'', ''/agents/:id/rules/:rid''), False), ((''GET'', ''/agents/:id/upload-logs''), False),
     ((''GET'', ''/files''), False), ((''GET'', ''/files/:id''), False), ((''GET'', ''/files/:id/download-url''), False),
     ((''POST'', ''/files/batch-download-urls''), False), ((''PUT'', ''/files/:id/tags''), True), ((''POST'', ''/files/batch-tag''), True),
     ((''GET'', ''/file-types''), False), ((''POST'', ''/file-types''), False), ((''PUT'', ''/file-types/:id''), False), ((''DELETE'', ''/file-types/:id''), False),
     ((''GET'', ''/tag-keys''), False), ((''POST'', ''/tag-keys''), True), ((''PATCH'', ''/tag-keys/:key''), True), ((''DELETE'', ''/tag-keys/:key''), True),
     ((''GET'', ''/tag-keys/:key/values''), False), ((''POST'', ''/tag-keys/:key/values''), True), ((''DELETE'', ''/tag-keys/:key/values/:vid''), True),
     ((''GET'', ''/pending-tag-values''), False), ((''POST'', ''/pending-tag-values/:id/approve''), True),
     ((''POST'', ''/pending-tag-values/:id/merge''), True), ((''POST'', ''/pending-tag-values/:id/reject''), True),
     ((''GET'', ''/retag-jobs/:id''), False), ((''GET'', ''/buckets''), False), ((''POST'', ''/buckets''), True),
     ((''GET'', ''/event-rules''), False), ((''POST'', ''/event-rules''), False), ((''PUT'', ''/event-rules/:id''), False),
     ((''DELETE'', ''/event-rules/:id''), False), ((''GET'', ''/event-rules/:id/deliveries''), False),
     ((''GET'', ''/upload-logs''), False), ((''GET'', ''/upload-logs/:id''), False), ((''GET'', ''/stats/dashboard''), False)]"

text \<open>What stands before the handler of a route; \<open>limit\<close> is the configured rate, wired when positive.\<close>

definition v1_gate :: "access_env \<Rightarrow> int \<Rightarrow> string \<times> string \<Rightarrow> string \<Rightarrow> access \<Rightarrow> (http_error + claims) \<times> access" where
  "v1_gate e limit route raw s =
     (case map_of v1_routes route of
        None \<Rightarrow> (Inl (HttpError 404 ''NOT_FOUND''), s)
      | Some admin \<Rightarrow>
          (case JWT e raw s of
             (Inl err, s1) \<Rightarrow> (Inl err, s1)
           | (Inr c, s1) \<Rightarrow>
               (case (if 0 < limit then RateLimit e limit (Some c) s1 else (None, s1)) of
                  (Some err, s2) \<Rightarrow> (Inl err, s2)
                | (None, s2) \<Rightarrow> (if admin \<and> \<not> RequireRole [''super_admin''] (Some c) then Inl (HttpError 403 ''FORBIDDEN'') else Inr c, s2))))"

section \<open>Signing in\<close>

record user_row =
  us_id :: uuid
  us_org :: uuid
  us_username :: string
  us_hash :: string
  us_role :: string
  us_active :: bool

definition accessTokenTTL :: int where
  "accessTokenTTL = 2 * 3600"

definition refreshTokenTTL :: int where
  "refreshTokenTTL = 7 * 24 * 3600"

record token_pair =
  tp_access :: string
  tp_refresh :: string

definition token_pair_for :: "access_env \<Rightarrow> string \<Rightarrow> string \<Rightarrow> string \<Rightarrow> string \<Rightarrow> access \<Rightarrow> (http_error + token_pair) \<times> access" where
  "token_pair_for e subject org role username s =
     (case GenerateAccessToken e subject org role username accessTokenTTL s of
        (Inl err, s1) \<Rightarrow> (Inl (HttpError 500 ''TOKEN_ERROR''), s1)
      | (Inr a, s1) \<Rightarrow>
          (case GenerateRefreshToken e subject org role username refreshTokenTTL s1 of
             (Inl err, s2) \<Rightarrow> (Inl (HttpError 500 ''TOKEN_ERROR''), s2)
           | (Inr r, s2) \<Rightarrow> (Inr \<lparr>tp_access = a, tp_refresh = r\<rparr>, s2)))"

text \<open>\<open>lookup\<close> is the answer of \<^verbatim>\<open>GetUserByUsername\<close> and \<open>show\<close> is \<^verbatim>\<open>UUID.String\<close>; the body is absent when it does not bind.\<close>

definition Login :: "access_env \<Rightarrow> (string \<Rightarrow> db_error + user_row) \<Rightarrow> (uuid \<Rightarrow> string) \<Rightarrow> (string \<times> string) option \<Rightarrow> access
    \<Rightarrow> (http_error + token_pair) \<times> access" where
  "Login e lookup show body s =
     (case body of
        None \<Rightarrow> (Inl (HttpError 400 ''INVALID_REQUEST''), s)
      | Some (username, password) \<Rightarrow>
          if username = '''' \<or> password = '''' then (Inl (HttpError 400 ''INVALID_REQUEST''), s)
          else (case lookup username of
             Inl err \<Rightarrow> (Inl (if err = ErrNoRows then HttpError 401 ''INVALID_CREDENTIALS'' else HttpError 500 ''INTERNAL_ERROR''), s)
           | Inr u \<Rightarrow>
               if \<not> us_active u then (Inl (HttpError 401 ''ACCOUNT_DISABLED''), s)
               else if \<not> ae_bcrypt e (us_hash u) password then (Inl (HttpError 401 ''INVALID_CREDENTIALS''), s)
               else (case token_pair_for e (show (us_id u)) (show (us_org u)) (us_role u) (us_username u) s of
                  (Inl err, s1) \<Rightarrow> (Inl err, s1)
                | (Inr p, s1) \<Rightarrow> (Inr p, s1\<lparr>ac_logins := ac_logins s1 @ [us_id u]\<rparr>))))"

text \<open>The refresh token of a request: the body's, or else a bearer header's.  \<open>malformed\<close>: a body that is no JSON.\<close>

definition presented_token :: "string \<Rightarrow> string \<Rightarrow> string" where
  "presented_token body_token raw =
     (let t = TrimSpace body_token
      in if t = '''' \<and> HasPrefix raw ''Bearer '' then TrimSpace (TrimPrefix raw ''Bearer '') else t)"

definition Refresh :: "access_env \<Rightarrow> bool \<Rightarrow> string \<Rightarrow> string \<Rightarrow> access \<Rightarrow> (http_error + token_pair) \<times> access" where
  "Refresh e malformed body_token raw s =
     (let tok = presented_token body_token raw
      in if tok = '''' then (Inl (if malformed then HttpError 400 ''INVALID_REQUEST'' else HttpError 401 ''MISSING_TOKEN''), s)
         else case ValidateToken e tok s of
                (None, s1) \<Rightarrow> (Inl (HttpError 401 ''INVALID_TOKEN''), s1)
              | (Some c, s1) \<Rightarrow>
                  if cl_type c \<noteq> ''refresh'' then (Inl (HttpError 401 ''WRONG_TOKEN_TYPE''), s1)
                  else (case IsRevoked e (cl_jti c) s1 of
                     (r, s2) \<Rightarrow>
                       if r = Inr True then (Inl (HttpError 401 ''TOKEN_REVOKED''), s2)
                       else (case token_pair_for e (cl_subject c) (cl_org c) (cl_role c) (cl_username c) s2 of
                          (Inl err, s3) \<Rightarrow> (Inl err, s3)
                        | (Inr p, s3) \<Rightarrow>
                            (case RevokeToken e tok s3 of
                               (Inl err, s4) \<Rightarrow> (Inr p, s4)
                             | (Inr u, s4) \<Rightarrow> (Inr p, snd (IsRevoked e (cl_jti c) s4))))))"

definition Logout :: "access_env \<Rightarrow> string \<Rightarrow> access \<Rightarrow> access" where
  "Logout e raw s =
     (if \<not> HasPrefix raw ''Bearer '' then s
      else let tok = TrimPrefix raw ''Bearer ''
           in case ValidateToken e tok s of
                (None, s1) \<Rightarrow> s1
              | (Some c, s1) \<Rightarrow> if cl_jti c = '''' then s1 else snd (RevokeToken e tok s1))"

definition Me :: "access_env \<Rightarrow> string \<Rightarrow> access \<Rightarrow> (http_error + claims) \<times> access" where
  "Me e raw s =
     (if \<not> HasPrefix raw ''Bearer '' then (Inl (HttpError 401 ''MISSING_TOKEN''), s)
      else case ValidateToken e (TrimPrefix raw ''Bearer '') s of
             (None, s1) \<Rightarrow> (Inl (HttpError 401 ''INVALID_TOKEN''), s1)
           | (Some c, s1) \<Rightarrow>
               (case IsRevoked e (cl_jti c) s1 of
                  (r, s2) \<Rightarrow> (if r = Inr True then Inl (HttpError 401 ''TOKEN_REVOKED'') else Inr c, s2)))"

section \<open>The gRPC interceptor\<close>

datatype grpc_code = Unauthenticated | Internal

definition jwtExemptMethods :: "string list" where
  "jwtExemptMethods = [''/fileagent.v1.AgentService/Register'', ''/fileagent.v1.AgentService/PollApproval'',
     ''/grpc.reflection.v1.ServerReflection/ServerReflectionInfo'', ''/grpc.reflection.v1alpha.ServerReflection/ServerReflectionInfo'']"

text \<open>\<open>md\<close> are the values of the authorization key of the metadata, if there is metadata; \<open>verified\<close>: a JWT service is wired.\<close>

definition authenticateGRPC :: "access_env \<Rightarrow> bool \<Rightarrow> string list option \<Rightarrow> access \<Rightarrow> (grpc_code + claims option) \<times> access" where
  "authenticateGRPC e verified md s =
     (case md of
        None \<Rightarrow> (Inl Unauthenticated, s)
      | Some [] \<Rightarrow> (Inl Unauthenticated, s)
      | Some (bearer # rest) \<Rightarrow>
          if \<not> HasPrefix bearer ''Bearer '' \<or> TrimPrefix bearer ''Bearer '' = '''' then (Inl Unauthenticated, s)
          else if \<not> verified then (Inr None, s)
          else (case ValidateToken e (TrimPrefix bearer ''Bearer '') s of
             (None, s1) \<Rightarrow> (Inl Unauthenticated, s1)
           | (Some c, s1) \<Rightarrow>
               (case IsRevoked e (cl_jti c) s1 of
                  (Inl err, s2) \<Rightarrow> (Inl Internal, s2)
                | (Inr revoked, s2) \<Rightarrow> (if revoked then Inl Unauthenticated else Inr (Some c), s2))))"

definition jwtInterceptor :: "access_env \<Rightarrow> bool \<Rightarrow> string \<Rightarrow> string list option \<Rightarrow> access \<Rightarrow> (grpc_code + claims option) \<times> access" where
  "jwtInterceptor e verified meth md s = (if meth \<in> set jwtExemptMethods then (Inr None, s) else authenticateGRPC e verified md s)"

definition extractAgentID :: "claims option \<Rightarrow> string" where
  "extractAgentID c = (case c of None \<Rightarrow> '''' | Some c \<Rightarrow> cl_subject c)"

end
