(* ===== verification/Access_Laws.thy ===== *)
theory Access_Laws
  imports Access
begin

text \<open>
  What passes the guards: only validly signed tokens that are not known to be revoked, with the role the route
  asks for; and refresh tokens work once.
\<close>

section \<open>Single steps\<close>

lemma tick_simps [simp]: "ac_step (tick s) = Suc (ac_step s)" "ac_black (tick s) = ac_black s" "ac_rate (tick s) = ac_rate s"
  by (simp_all add: tick_def)

lemma Validate_simps [simp]: "ValidateToken e tok s = (ae_parse e (ae_now e (ac_step s)) tok, tick s)"
  by (simp add: ValidateToken_def)

lemma blacklisted_tick [simp]: "blacklisted now jti (tick s) = blacklisted now jti s"
  by (simp add: blacklisted_def)

lemma bearer_split: "HasPrefix raw ''Bearer '' \<Longrightarrow> raw = ''Bearer '' @ TrimPrefix raw ''Bearer ''"
proof -
  assume "HasPrefix raw ''Bearer ''"
  then have "take 7 raw = ''Bearer ''" "TrimPrefix raw ''Bearer '' = drop 7 raw" by (simp_all add: HasPrefix_def TrimPrefix_def eval_nat_numeral)
  then show ?thesis by (metis append_take_drop_id)
qed

lemma IsRevoked_state: "snd (IsRevoked e jti s) = s \<or> snd (IsRevoked e jti s) = tick s"
  by (simp add: IsRevoked_def)

lemma JWT_admits:
  assumes "JWT e raw s = (Inr c, s')"
  shows "\<exists>tok. raw = ''Bearer '' @ tok \<and> tok \<noteq> '''' \<and> ae_parse e (ae_now e (ac_step s)) tok = Some c
    \<and> (ae_redis e \<longrightarrow> cl_jti c \<noteq> '''' \<longrightarrow> ae_answer e (Suc (ac_step s)) = RedisOK \<longrightarrow>
         \<not> blacklisted (ae_now e (Suc (ac_step s))) (cl_jti c) s)"
  using assms bearer_split[of raw]
  by (auto simp: JWT_def Let_def IsRevoked_def split: if_splits option.splits)

text \<open>The interceptor, unlike the REST middleware, refuses a token whose revocation it cannot check.\<close>

lemma interceptor_fails_closed:
  assumes "jwtInterceptor e True meth md s = (Inr (Some c), s')"
  shows "meth \<notin> set jwtExemptMethods \<and> (\<exists>tok. (\<exists>rest. md = Some ((''Bearer '' @ tok) # rest)) \<and> ae_parse e (ae_now e (ac_step s)) tok = Some c
    \<and> (ae_redis e \<longrightarrow> ae_answer e (Suc (ac_step s)) = RedisOK \<and> \<not> blacklisted (ae_now e (Suc (ac_step s))) (cl_jti c) s))"
  using assms bearer_split
  by (fastforce simp: jwtInterceptor_def authenticateGRPC_def IsRevoked_def split: if_splits option.splits list.splits)

section \<open>Rotation\<close>

text \<open>Requests to the auth endpoints and the guarded routes, one after the other.\<close>

datatype access_op =
    OpLogin "string \<Rightarrow> db_error + user_row" "uuid \<Rightarrow> string" "(string \<times> string) option"
  | OpRefresh bool string string
  | OpLogout string
  | OpMe string
  | OpGate int "string \<times> string" string
  | OpRPC bool string "string list option"

fun perform_op :: "access_env \<Rightarrow> access_op \<Rightarrow> access \<Rightarrow> access" where
  "perform_op e (OpLogin lookup show body) s = snd (Login e lookup show body s)"
| "perform_op e (OpRefresh malformed tok raw) s = snd (Refresh e malformed tok raw s)"
| "perform_op e (OpLogout raw) s = Logout e raw s"
| "perform_op e (OpMe raw) s = snd (Me e raw s)"
| "perform_op e (OpGate limit route raw) s = snd (v1_gate e limit route raw s)"
| "perform_op e (OpRPC verified meth md) s = snd (jwtInterceptor e verified meth md s)"

text \<open>
  What is documented of the JWT library and of token ids: a token, once accepted, is accepted until it expires and always for
  the same claims, ids are not empty and belong to one token.
\<close>

definition tokens_ok :: "access_env \<Rightarrow> bool" where
  "tokens_ok e \<longleftrightarrow>
     (\<forall>n tok c. ae_parse e n tok = Some c \<longrightarrow> n < cl_expires c \<and> cl_jti c \<noteq> '''')
     \<and> (\<forall>n n' tok c c'. ae_parse e n tok = Some c \<longrightarrow> ae_parse e n' tok = Some c' \<longrightarrow> c' = c)
     \<and> (\<forall>n n' tok c. ae_parse e n tok = Some c \<longrightarrow> n \<le> n' \<longrightarrow> n' < cl_expires c \<longrightarrow> ae_parse e n' tok \<noteq> None)
     \<and> (\<forall>n n' tok tok' c c'. ae_parse e n tok = Some c \<longrightarrow> ae_parse e n' tok' = Some c' \<longrightarrow> cl_jti c' = cl_jti c \<longrightarrow> c' = c)"

text \<open>A step keeps every blacklist entry of a token, and steps are counted upwards.\<close>

definition keeps_entry :: "string \<Rightarrow> int \<Rightarrow> access \<Rightarrow> access \<Rightarrow> bool" where
  "keeps_entry jti x s s' \<longleftrightarrow> ac_step s \<le> ac_step s' \<and> (map_of (ac_black s) jti = Some x \<longrightarrow> map_of (ac_black s') jti = Some x)"

lemma entry_kept_refl [simp]: "keeps_entry jti x s s"
  by (simp add: keeps_entry_def)

lemma entry_kept_trans: "keeps_entry jti x s s1 \<Longrightarrow> keeps_entry jti x s1 s2 \<Longrightarrow> keeps_entry jti x s s2"
  by (simp add: keeps_entry_def)

lemma keeps_tick [simp]: "keeps_entry jti x s (tick s)" "keeps_entry jti x s (s\<lparr>ac_rate := r\<rparr>)"
  by (simp_all add: keeps_entry_def)

lemma keeps_IsRevoked [simp]: "keeps_entry jti x s (snd (IsRevoked e j s))"
  using IsRevoked_state[of e j s] by (elim disjE) simp_all

lemma checked_keeps: "IsRevoked e j (tick s) = (r, s') \<Longrightarrow> keeps_entry jti x s s'"
  using entry_kept_trans[OF keeps_tick(1) keeps_IsRevoked, of jti x s e j] by simp

lemma keeps_Revoke:
  assumes ok: "tokens_ok e" and c: "ae_parse e n tok = Some c"
  shows "keeps_entry (cl_jti c) (cl_expires c) s (snd (RevokeToken e t s))"
proof -
  have "cl_expires c' = cl_expires c" if "ae_parse e m t = Some c'" "cl_jti c' = cl_jti c" for m c'
    using ok that c unfolding tokens_ok_def by metis
  then show ?thesis by (auto simp: RevokeToken_def keeps_entry_def Let_def split: option.splits)
qed

lemma keeps_pair [simp]: "keeps_entry jti x s (snd (token_pair_for e subject org role username s))"
  by (auto simp: token_pair_for_def GenerateAccessToken_def GenerateRefreshToken_def generate_def Let_def keeps_entry_def split: sum.splits)

lemma keeps_JWT [simp]: "keeps_entry jti x s (snd (JWT e raw s))"
  by (auto simp: JWT_def Let_def split: option.splits sum.splits prod.splits dest: checked_keeps)

lemma keeps_rate [simp]: "keeps_entry jti x s (snd (RateLimit e limit c s))"
  by (auto simp: RateLimit_def IncrWithWindow_def Let_def keeps_entry_def split: option.splits sum.splits prod.splits redis_answer.splits if_splits)

lemma perform_op_keeps:
  assumes ok: "tokens_ok e" and c: "ae_parse e n tok = Some c"
  shows "keeps_entry (cl_jti c) (cl_expires c) s (perform_op e op s)"
proof (cases op)
  case (OpLogin lookup show' body)
  have "keeps_entry (cl_jti c) (cl_expires c) s s1" if "token_pair_for e sb og ro us s = (r, s1)" for sb og ro us r s1
    using keeps_pair[of "cl_jti c" "cl_expires c" s e sb og ro us] that by simp
  then show ?thesis using OpLogin by (auto simp: Login_def keeps_entry_def split: option.splits sum.splits prod.splits)
next
  case (OpRefresh malformed t raw)
  let ?t = "presented_token t raw"
  have all: "keeps_entry (cl_jti c) (cl_expires c) s s4"
    if "IsRevoked e j (tick s) = (r1, s2)" "token_pair_for e sb og ro us s2 = (r2, s3)" "RevokeToken e ?t s3 = (r3, s4)" for j r1 s2 sb og ro us r2 s3 r3 s4
  proof -
    have "keeps_entry (cl_jti c) (cl_expires c) s s3" using entry_kept_trans[OF checked_keeps[OF that(1)] keeps_pair] that(2) by (metis snd_conv)
    then show ?thesis using entry_kept_trans[OF _ keeps_Revoke[OF ok c]] that(3) by (metis snd_conv)
  qed
  have two: "keeps_entry (cl_jti c) (cl_expires c) s s3"
    if "IsRevoked e j (tick s) = (r1, s2)" "token_pair_for e sb og ro us s2 = (r2, s3)" for j r1 s2 sb og ro us r2 s3
    using entry_kept_trans[OF checked_keeps[OF that(1)] keeps_pair] that(2) by (metis snd_conv)
  show ?thesis using OpRefresh
    by (auto simp: Refresh_def Let_def split: option.splits sum.splits prod.splits dest: checked_keeps two all intro: entry_kept_trans[OF all])
next
  case (OpLogout raw)
  then show ?thesis using entry_kept_trans[OF keeps_tick(1) keeps_Revoke[OF ok c]] by (auto simp: Logout_def Let_def split: option.splits)
next
  case (OpMe raw)
  then show ?thesis by (auto simp: Me_def split: option.splits prod.splits dest: checked_keeps)
next
  case (OpGate limit route raw)
  obtain r s1 where 1: "JWT e raw s = (r, s1)" by fastforce
  have k1: "keeps_entry (cl_jti c) (cl_expires c) s s1" using keeps_JWT[of "cl_jti c" "cl_expires c" s e raw] 1 by simp
  have k2: "keeps_entry (cl_jti c) (cl_expires c) s s2" if "RateLimit e limit (Some c') s1 = (q, s2)" for c' q s2
    using entry_kept_trans[OF k1 keeps_rate] that by (metis snd_conv)
  show ?thesis using OpGate 1 k1
    by (cases r; cases "map_of v1_routes route") (auto simp: v1_gate_def split: option.split prod.splits dest: k2)
next
  case (OpRPC verified meth md)
  then show ?thesis
    by (auto simp: jwtInterceptor_def authenticateGRPC_def split: option.splits list.splits sum.splits prod.splits dest: checked_keeps)
qed

lemma access_run_keeps:
  assumes "tokens_ok e" "ae_parse e n tok = Some c"
  shows "keeps_entry (cl_jti c) (cl_expires c) s (fold (perform_op e) ops s)"
  using perform_op_keeps[OF assms] entry_kept_trans by (induction ops arbitrary: s) (simp, simp, blast)


lemma token_pair_claims:
  assumes "token_pair_for e subject org role username s = (Inr p, s')"
  obtains a b where "ae_sign e a = Inr (tp_access p) \<and> cl_type a = ''access''" "ae_sign e b = Inr (tp_refresh p) \<and> cl_type b = ''refresh''"
    "\<forall>d\<in>{a, b}. cl_subject d = subject \<and> cl_org d = org \<and> cl_role d = role \<and> cl_username d = username"
proof -
  let ?c = "\<lambda>ty ttl t. \<lparr>cl_subject = subject, cl_jti = ae_jti e (ac_step t), cl_issued = ae_now e (ac_step t), cl_expires = ae_now e (ac_step t) + ttl,
    cl_org = org, cl_role = role, cl_username = username, cl_type = ty\<rparr>"
  have "ae_sign e (?c ''access'' accessTokenTTL s) = Inr (tp_access p)" "ae_sign e (?c ''refresh'' refreshTokenTTL (tick s)) = Inr (tp_refresh p)"
    using assms by (auto simp: token_pair_for_def GenerateAccessToken_def GenerateRefreshToken_def generate_def Let_def split: sum.splits)
  then show ?thesis by (intro that[of "?c ''access'' accessTokenTTL s" "?c ''refresh'' refreshTokenTTL (tick s)"]) simp_all
qed

lemma pair_steps: "token_pair_for e subject org role username s = (r, s') \<Longrightarrow> ac_step s \<le> ac_step s'"
  using keeps_pair[of undefined undefined s e subject org role username] by (simp add: keeps_entry_def)

text \<open>After a rotation the token is on the blacklist until it expires, or has expired already.\<close>

lemma rotation_blacklists:
  assumes ok: "tokens_ok e" and redis: "ae_redis e" "\<And>k. ae_answer e k = RedisOK" and clock: "mono (ae_now e)"
    and c: "ae_parse e n tok = Some c" "n \<le> ae_now e (ac_step s3)"
    and s1: "s1 = (case RevokeToken e tok s3 of (Inl err, s4) \<Rightarrow> s4 | (Inr u, s4) \<Rightarrow> snd (IsRevoked e (cl_jti c) s4))"
  shows "map_of (ac_black s1) (cl_jti c) = Some (cl_expires c) \<or> (\<forall>k\<ge>ac_step s1. cl_expires c \<le> ae_now e k \<or> ae_parse e (ae_now e k) tok = None)"
proof -
  have step: "ac_step s3 \<le> ac_step s1"
    using s1 redis by (auto simp: RevokeToken_def IsRevoked_def Let_def split: option.splits)
  show ?thesis
  proof (cases "ae_parse e (ae_now e (ac_step s3)) tok")
    case None
    then have "cl_expires c \<le> ae_now e (ac_step s3)" using ok c unfolding tokens_ok_def by (meson not_le)
    then have "cl_expires c \<le> ae_now e k" if "ac_step s1 \<le> k" for k using monoD[OF clock, of "ac_step s3" k] step that by simp
    then show ?thesis by simp
  next
    case (Some c')
    then have c': "c' = c" "cl_jti c \<noteq> ''''" using ok c(1) unfolding tokens_ok_def by blast+
    show ?thesis
    proof (cases "cl_expires c - ae_now e (Suc (ac_step s3)) \<le> 0")
      case True
      then have "Suc (ac_step s3) \<le> ac_step s1" using s1 redis Some c' by (simp add: RevokeToken_def IsRevoked_def Let_def)
      then have "cl_expires c \<le> ae_now e k" if "ac_step s1 \<le> k" for k
        using True monoD[OF clock, of "Suc (ac_step s3)" k] that by simp
      then show ?thesis by simp
    next
      case False
      then show ?thesis using s1 redis Some c' by (simp add: RevokeToken_def IsRevoked_def Let_def)
    qed
  qed
qed

section \<open>Properties\<close>


text \<open>
  C17: A refresh token works once.  With Redis answering, a successful refresh issues a pair for the same subject,
  organisation, role and name, and however requests go on afterwards, presenting the same token again is refused, unless it expires
  between the two looks at the clock of that very request.
\<close>

theorem refresh_token_single_use:
  assumes ok: "tokens_ok e" and redis: "ae_redis e" "\<And>k. ae_answer e k = RedisOK" and clock: "mono (ae_now e)"
    and r: "Refresh e malformed body raw s = (Inr p, s1)" and again: "presented_token body' raw' = presented_token body raw"
    and s2: "s2 = fold (perform_op e) ops s1"
    and gap: "\<And>c. ae_parse e (ae_now e (ac_step s2)) (presented_token body raw) = Some c \<Longrightarrow> ae_now e (Suc (ac_step s2)) < cl_expires c"
  shows "(\<exists>c a b. ae_parse e (ae_now e (ac_step s)) (presented_token body raw) = Some c \<and> cl_type c = ''refresh''
      \<and> ae_sign e a = Inr (tp_access p) \<and> cl_type a = ''access'' \<and> ae_sign e b = Inr (tp_refresh p) \<and> cl_type b = ''refresh''
      \<and> (\<forall>d\<in>{a, b}. cl_subject d = cl_subject c \<and> cl_org d = cl_org c \<and> cl_role d = cl_role c \<and> cl_username d = cl_username c))
    \<and> fst (Refresh e malformed' body' raw' s2) \<in> {Inl (HttpError 401 ''INVALID_TOKEN''), Inl (HttpError 401 ''TOKEN_REVOKED'')}"
proof -
  let ?tok = "presented_token body raw"
  obtain c s3 where c: "ae_parse e (ae_now e (ac_step s)) ?tok = Some c" "cl_type c = ''refresh''" "?tok \<noteq> ''''"
    and pair: "token_pair_for e (cl_subject c) (cl_org c) (cl_role c) (cl_username c) (tick (tick s)) = (Inr p, s3)"
    and s1: "s1 = (case RevokeToken e ?tok s3 of (Inl err, s4) \<Rightarrow> s4 | (Inr u, s4) \<Rightarrow> snd (IsRevoked e (cl_jti c) s4))"
    using r redis by (auto simp: Refresh_def Let_def IsRevoked_def split: if_splits option.splits sum.splits prod.splits)
  have same: "ae_parse e n ?tok \<in> {Some c, None}" for n
    using ok c(1) unfolding tokens_ok_def by (cases "ae_parse e n ?tok") blast+
  have exp: "ae_parse e n ?tok = None" if "cl_expires c \<le> n" for n using ok same[of n] that unfolding tokens_ok_def by fastforce
  have listed: "map_of (ac_black s1) (cl_jti c) = Some (cl_expires c) \<or> (\<forall>k\<ge>ac_step s1. cl_expires c \<le> ae_now e k \<or> ae_parse e (ae_now e k) ?tok = None)"
    by (rule rotation_blacklists[OF ok redis clock c(1) _ s1]) (use pair_steps[OF pair] monoD[OF clock, of "ac_step s" "ac_step s3"] in simp)
  have k: "keeps_entry (cl_jti c) (cl_expires c) s1 s2" unfolding s2 by (rule access_run_keeps[OF ok c(1)])
  have refused: "fst (Refresh e malformed' body' raw' s2) \<in> {Inl (HttpError 401 ''INVALID_TOKEN''), Inl (HttpError 401 ''TOKEN_REVOKED'')}"
  proof (cases "ae_parse e (ae_now e (ac_step s2)) ?tok")
    case None
    then show ?thesis using again c(3) by (simp add: Refresh_def)
  next
    case (Some c')
    then have c': "c' = c" using same by (metis insertE option.distinct(1) option.inject singletonD)
    then have "map_of (ac_black s1) (cl_jti c) = Some (cl_expires c)" using listed Some k exp by (auto simp: keeps_entry_def)
    then have "blacklisted (ae_now e (Suc (ac_step s2))) (cl_jti c) s2" using k gap[OF Some] c' by (simp add: keeps_entry_def blacklisted_def)
    then show ?thesis using Some c' c(2,3) again redis by (simp add: Refresh_def IsRevoked_def)
  qed
  obtain a b where "ae_sign e a = Inr (tp_access p) \<and> cl_type a = ''access''" "ae_sign e b = Inr (tp_refresh p) \<and> cl_type b = ''refresh''"
    "\<forall>d\<in>{a, b}. cl_subject d = cl_subject c \<and> cl_org d = cl_org c \<and> cl_role d = cl_role c \<and> cl_username d = cl_username c"
    by (rule token_pair_claims[OF pair])
  then show ?thesis using refused c(1,2) by blast
qed


section \<open>Samples\<close>

definition sample_claims :: "string \<Rightarrow> string \<Rightarrow> string \<Rightarrow> string \<Rightarrow> claims" where
  "sample_claims subject jti role ty = \<lparr>cl_subject = subject, cl_jti = jti, cl_issued = 0, cl_expires = 1000, cl_org = ''1'', cl_role = role,
     cl_username = ''u'', cl_type = ty\<rparr>"

text \<open>Three tokens: a refresh token and an access token of an administrator, and an agent's token.\<close>

definition sample_tokens :: "string \<rightharpoonup> claims" where
  "sample_tokens = map_of [(''R'', sample_claims ''9'' ''r'' ''super_admin'' ''refresh''), (''A'', sample_claims ''9'' ''a'' ''super_admin'' ''access''),
     (''G'', sample_claims ''7'' ''g'' ''agent'' ''access'')]"

definition sample_access_env :: access_env where
  "sample_access_env = \<lparr>ae_now = int, ae_answer = (\<lambda>_. RedisOK), ae_jti = (\<lambda>k. replicate k (CHR ''x'')), ae_redis = True,
     ae_sign = (\<lambda>c. Inr (cl_type c)), ae_parse = (\<lambda>n t. case sample_tokens t of None \<Rightarrow> None | Some c \<Rightarrow> if n < cl_expires c then Some c else None),
     ae_bcrypt = (\<lambda>h p. h = p)\<rparr>"

definition sample_access :: access where
  "sample_access = \<lparr>ac_black = [], ac_rate = [], ac_logins = [], ac_step = 0\<rparr>"

lemma sample_tokens_ok: "tokens_ok sample_access_env"
proof -
  have 1: "sample_tokens t = Some c \<Longrightarrow> cl_jti c \<noteq> ''''" for t c
    by (auto simp: sample_tokens_def sample_claims_def split: if_splits)
  have 2: "c' = c" if "sample_tokens t = Some c" "sample_tokens t' = Some c'" "cl_jti c' = cl_jti c" for t t' c c'
    using that by (auto simp: sample_tokens_def sample_claims_def split: if_splits)
  show ?thesis using 1 2 unfolding tokens_ok_def sample_access_env_def by (auto split: option.splits if_splits)
qed


theorem refresh_token_single_use_witness:
  "let (r, s1) = Refresh sample_access_env False ''R'' '''' sample_access; s2 = fold (perform_op sample_access_env) [OpMe ''Bearer A''] s1
   in (\<exists>p. r = Inr p \<and> tp_refresh p = ''refresh'')
      \<and> fst (Refresh sample_access_env False '''' ''Bearer R'' s2) \<in> {Inl (HttpError 401 ''INVALID_TOKEN''), Inl (HttpError 401 ''TOKEN_REVOKED'')}"
proof -
  let ?e = sample_access_env
  let ?s1 = "snd (Refresh ?e False ''R'' '''' sample_access)"
  let ?s2 = "fold (perform_op ?e) [OpMe ''Bearer A''] ?s1"
  have r: "Refresh ?e False ''R'' '''' sample_access = (Inr \<lparr>tp_access = ''access'', tp_refresh = ''refresh''\<rparr>, ?s1)"
    and n: "ac_step ?s2 = 9" and t: "presented_token '''' ''Bearer R'' = presented_token ''R'' ''''" by code_simp+
  have e: "ae_redis ?e" "\<And>k. ae_answer ?e k = RedisOK" "mono (ae_now ?e)" by (simp_all add: sample_access_env_def mono_def)
  have gap: "ae_now ?e (Suc (ac_step ?s2)) < cl_expires c" if "ae_parse ?e (ae_now ?e (ac_step ?s2)) (presented_token ''R'' '''') = Some c" for c
    unfolding n using that n
    by (auto simp: sample_access_env_def sample_tokens_def sample_claims_def presented_token_def TrimSpace_def is_space_def split: if_splits)
  have "fst (Refresh ?e False ''R'' '''' sample_access) = Inr \<lparr>tp_access = ''access'', tp_refresh = ''refresh''\<rparr>" by code_simp
  then show ?thesis using refresh_token_single_use[OF sample_tokens_ok e r t refl gap, of False] by (simp add: Let_def case_prod_beta)
qed

text \<open>
  The REST middleware looks at neither the type nor, on most routes, the role of a token: an agent's token creates
  collection rules, and a refresh token serves as an access token.
\<close>

lemma agent_token_creates_rules:
  "fst (v1_gate sample_access_env 5 (''POST'', ''/agents/:id/rules'') ''Bearer G'' sample_access) = Inr (sample_claims ''7'' ''g'' ''agent'' ''access'')"
  "fst (v1_gate sample_access_env 5 (''POST'', ''/agents/:id/rules'') ''Bearer R'' sample_access) = Inr (sample_claims ''9'' ''r'' ''super_admin'' ''refresh'')"
  by code_simp+

end
