(* ===== verification/Sessions.thy ===== *)
theory Sessions
  imports Rules_Laws Access_Laws
begin

text \<open>
  The storage sessions handed to agents: session policies and the STS call (controlplane/internal/storage/policy.go, sts.go)
  and the choice of buckets behind a refresh or a push (grpcserver/handler.go).
\<close>

section \<open>Session policies\<close>

record policy_statement =
  ps_effect :: string
  ps_action :: "string list"
  ps_resource :: "string list"

record policy_document =
  pd_version :: string
  pd_statement :: "policy_statement list"

definition bucketActions :: "string list" where
  "bucketActions = [''s3:ListBucketMultipartUploads'']"

definition objectActions :: "string list" where
  "objectActions = [''s3:PutObject'', ''s3:AbortMultipartUpload'', ''s3:ListMultipartUploadParts'']"

definition bucket_arn :: "string \<Rightarrow> string" where
  "bucket_arn n = ''arn:aws:s3:::'' @ n"

definition object_arn :: "string \<Rightarrow> string" where
  "object_arn n = ''arn:aws:s3:::'' @ n @ ''/*''"

definition BuildSessionPolicy :: "string list \<Rightarrow> policy_document option" where
  "BuildSessionPolicy bks =
     (let names = sort (remdups (filter (\<lambda>n. n \<noteq> '''') bks))
      in if names = [] then None
         else Some \<lparr>pd_version = ''2012-10-17'',
                pd_statement = [\<lparr>ps_effect = ''Allow'', ps_action = bucketActions, ps_resource = map bucket_arn names\<rparr>,
                                \<lparr>ps_effect = ''Allow'', ps_action = objectActions, ps_resource = map object_arn names\<rparr>]\<rparr>)"

section \<open>The STS call\<close>

record sts_settings =
  st_endpoint :: string
  st_publicEndpoint :: string
  st_accessKey :: string
  st_secretKey :: string
  st_roleARN :: string
  st_useSSL :: bool
  st_publicUseSSL :: bool

definition STSManager :: "string \<Rightarrow> string \<Rightarrow> string \<Rightarrow> string \<Rightarrow> bool \<Rightarrow> sts_settings" where
  "STSManager endpoint accessKey secretKey roleARN useSSL = \<lparr>st_endpoint = endpoint, st_publicEndpoint = endpoint, st_accessKey = accessKey,
     st_secretKey = secretKey, st_roleARN = roleARN, st_useSSL = useSSL, st_publicUseSSL = useSSL\<rparr>"

definition WithPublicEndpoint :: "string \<Rightarrow> bool \<Rightarrow> sts_settings \<Rightarrow> sts_settings" where
  "WithPublicEndpoint endpoint useSSL m = m\<lparr>st_publicEndpoint := endpoint, st_publicUseSSL := useSSL\<rparr>"

record sts_request =
  sr_endpoint :: string
  sr_accessKey :: string
  sr_secretKey :: string
  sr_roleARN :: string
  sr_session :: string
  sr_policy :: policy_document
  sr_seconds :: int

record credentials_payload =
  kp_accessKey :: string
  kp_secretKey :: string
  kp_sessionToken :: string
  kp_endpoint :: string
  kp_useSSL :: bool
  kp_expiresAt :: int

datatype sts_error = ContextDone | NoBuckets | KeysRequired | StsFailed string

text \<open>
  \<open>assume_role\<close> is the STS service: an error, or key, secret and session token.  The second component is the request
  sent; the policy travels as its JSON text.
\<close>

definition IssueCredentials :: "(sts_request \<Rightarrow> string + (string \<times> string \<times> string)) \<Rightarrow> int \<Rightarrow> sts_settings \<Rightarrow> bool \<Rightarrow> string \<Rightarrow> string list
    \<Rightarrow> (sts_error + credentials_payload) \<times> sts_request option" where
  "IssueCredentials assume_role now m ctx_done agentID bks =
     (if ctx_done then (Inl ContextDone, None)
      else case BuildSessionPolicy bks of
             None \<Rightarrow> (Inl NoBuckets, None)
           | Some doc \<Rightarrow>
               if st_accessKey m = '''' \<or> st_secretKey m = '''' then (Inl KeysRequired, None)
               else let q = \<lparr>sr_endpoint = (if st_useSSL m then ''https'' else ''http'') @ ''://'' @ st_endpoint m, sr_accessKey = st_accessKey m,
                       sr_secretKey = st_secretKey m, sr_roleARN = st_roleARN m, sr_session = ''agent-'' @ agentID, sr_policy = doc, sr_seconds = 3600\<rparr>
                    in (case assume_role q of
                          Inl msg \<Rightarrow> Inl (StsFailed msg)
                        | Inr (key, secret, token) \<Rightarrow>
                            Inr \<lparr>kp_accessKey = key, kp_secretKey = secret, kp_sessionToken = token, kp_endpoint = st_publicEndpoint m,
                                 kp_useSSL = st_publicUseSSL m, kp_expiresAt = now + 3600\<rparr>, Some q))"

section \<open>Choosing the buckets\<close>

datatype rpc_error = RpcUnimplemented | RpcUnauthenticated | RpcPermissionDenied | RpcInvalidArgument | RpcNotFound | RpcInternal | RpcFailedPrecondition

text \<open>The buckets of the active rules, each looked up once; a lookup that fails is skipped.\<close>

fun active_buckets :: "rules_env \<Rightarrow> uuid set \<Rightarrow> coll_rule list \<Rightarrow> rules_session \<Rightarrow> string list \<times> rules_session" where
  "active_buckets e seen [] s = ([], s)"
| "active_buckets e seen (r # rs) s =
     (if col_status r \<noteq> RuleStatusActive \<or> col_bucket r \<in> seen then active_buckets e seen rs s
      else let (x, s1) = rule_sql e (GetBucketByID (col_bucket r)) s; (names, s2) = active_buckets e (insert (col_bucket r) seen) rs s1
           in ((case x of Inl err \<Rightarrow> names | Inr b \<Rightarrow> b_name b # names), s2))"

definition bucketsForAgent :: "rules_env \<Rightarrow> string \<Rightarrow> string \<Rightarrow> rules_session \<Rightarrow> (rpc_error + string list) \<times> rules_session" where
  "bucketsForAgent e agentID ruleID s =
     (case rw_parse_uuid e agentID of
        None \<Rightarrow> (Inl RpcInvalidArgument, s)
      | Some a \<Rightarrow>
          if ruleID \<noteq> '''' then
            (case rw_parse_uuid e ruleID of
               None \<Rightarrow> (Inl RpcInvalidArgument, s)
             | Some i \<Rightarrow>
                 (case rule_sql e (GetCollectionRuleByID i) s of
                    (Inl err, s1) \<Rightarrow> (Inl RpcNotFound, s1)
                  | (Inr rule, s1) \<Rightarrow>
                      if col_agent rule \<noteq> a then (Inl RpcPermissionDenied, s1)
                      else (case rule_sql e (GetBucketByID (col_bucket rule)) s1 of
                              (Inl err, s2) \<Rightarrow> (Inl RpcNotFound, s2)
                            | (Inr b, s2) \<Rightarrow> (Inr [b_name b], s2))))
          else (case rule_sql e (ListCollectionRulesByAgent a) s of
                  (Inl err, s1) \<Rightarrow> (Inl RpcInternal, s1)
                | (Inr rules, s1) \<Rightarrow>
                    (case active_buckets e {} rules s1 of
                       (names, s2) \<Rightarrow> (if names = [] then Inl RpcFailedPrecondition else Inr names, s2))))"

text \<open>What the server holds besides: the STS service and its settings, whether it and the rule queries are wired, the agents table.\<close>

record session_env =
  se_rules :: rules_env
  se_assume :: "sts_request \<Rightarrow> string + (string \<times> string \<times> string)"
  se_sts :: sts_settings
  se_wired :: bool
  se_now :: int
  se_ctx_done :: bool
  se_liveness :: db_answer

text \<open>\<open>tok\<close> are the verified claims of the call; the request names an agent and a rule.\<close>

definition RefreshCredentials :: "session_env \<Rightarrow> agents \<Rightarrow> claims option \<Rightarrow> string \<Rightarrow> string \<Rightarrow> rules_session
    \<Rightarrow> (rpc_error + credentials_payload) \<times> sts_request option \<times> rules_session" where
  "RefreshCredentials e t tok claimed ruleID s =
     (if \<not> se_wired e then (Inl RpcUnimplemented, None, s)
      else let agentID = extractAgentID tok
           in if agentID = '''' then (Inl RpcUnauthenticated, None, s)
              else if claimed \<noteq> '''' \<and> claimed \<noteq> agentID then (Inl RpcPermissionDenied, None, s)
              else (case rw_parse_uuid (se_rules e) agentID of
                      None \<Rightarrow> (Inl RpcInvalidArgument, None, s)
                    | Some a \<Rightarrow>
                        if \<not> assertAgentUsable (se_liveness e) a t then (Inl RpcPermissionDenied, None, s)
                        else (case bucketsForAgent (se_rules e) agentID ruleID s of
                                (Inl err, s1) \<Rightarrow> (Inl err, None, s1)
                              | (Inr bks, s1) \<Rightarrow>
                                  (case IssueCredentials (se_assume e) (se_now e) (se_sts e) (se_ctx_done e) agentID bks of
                                     (Inl err, q) \<Rightarrow> (Inl RpcInternal, q, s1)
                                   | (Inr creds, q) \<Rightarrow> (Inr creds, q, s1)))))"

text \<open>A push: the payload to send over the agent's stream, if there is one.\<close>

definition pushCredentials :: "session_env \<Rightarrow> string \<Rightarrow> rules_session \<Rightarrow> credentials_payload option \<times> sts_request option \<times> rules_session" where
  "pushCredentials e agentID s =
     (if \<not> se_wired e then (None, None, s)
      else case bucketsForAgent (se_rules e) agentID '''' s of
             (Inl err, s1) \<Rightarrow> (None, None, s1)
           | (Inr bks, s1) \<Rightarrow>
               (case IssueCredentials (se_assume e) (se_now e) (se_sts e) (se_ctx_done e) agentID bks of
                  (Inl err, q) \<Rightarrow> (None, q, s1)
                | (Inr creds, q) \<Rightarrow> (Some creds, q, s1)))"

section \<open>Whose buckets\<close>

text \<open>The database as the \<open>n\<close>-th statement of a session sees it when all of them only read.\<close>

fun seen :: "rules_env \<Rightarrow> rules_session \<Rightarrow> nat \<Rightarrow> rules_db" where
  "seen e s 0 = rw_meanwhile e (rs_stmt s) (rs_db s)"
| "seen e s (Suc n) = rw_meanwhile e (rs_stmt s + Suc n) (seen e s n)"

lemma read_step:
  assumes "rule_sql e st s = (r, s')" "\<And>d. snd (st d) = d"
  shows "seen e s' n = seen e s (Suc n)" "r = Inr x \<Longrightarrow> fst (st (seen e s 0)) = Inr x"
proof -
  have s': "rs_db s' = seen e s 0" "rs_stmt s' = Suc (rs_stmt s)"
    using assms by (auto simp: rule_sql_def Let_def split: prod.splits option.splits db_fault.splits) (metis snd_conv)+
  show "seen e s' n = seen e s (Suc n)" by (induction n) (simp_all add: s')
  show "r = Inr x \<Longrightarrow> fst (st (seen e s 0)) = Inr x"
    using assms(1) by (auto simp: rule_sql_def Let_def split: prod.splits option.splits db_fault.splits)
qed

lemma rule_reads_only: "snd (GetBucketByID i d) = d" "snd (GetCollectionRuleByID i d) = d" "snd (ListCollectionRulesByAgent i d) = d"
  by (simp_all add: GetBucketByID_def GetCollectionRuleByID_def ListCollectionRulesByAgent_def)

text \<open>A bucket that a rule of the agent targets, as the session's statements saw them; active unless the rule was named.\<close>

definition own_bucket :: "rules_env \<Rightarrow> rules_session \<Rightarrow> uuid \<Rightarrow> bool \<Rightarrow> string \<Rightarrow> bool" where
  "own_bucket e s a named n \<longleftrightarrow> (\<exists>k r b. r \<in> set (rd_rules (seen e s 0)) \<and> col_agent r = a \<and> (\<not> named \<longrightarrow> col_status r = RuleStatusActive)
     \<and> b \<in> set (rd_buckets (seen e s k)) \<and> b_id b = col_bucket r \<and> b_name b = n)"

lemma bucket_found:
  assumes "rule_sql e (GetBucketByID i) s = (Inr b, s')"
  shows "b \<in> set (rd_buckets (seen e s 0)) \<and> b_id b = i"
  using read_step(2)[OF assms rule_reads_only(1) refl]
  by (auto simp: GetBucketByID_def one_row_def find_row_def find_Some_iff split: option.splits)

lemma active_buckets_own:
  assumes "active_buckets e ids rs s = (names, s')" "n \<in> set names"
  shows "\<exists>k r b. r \<in> set rs \<and> col_status r = RuleStatusActive \<and> b \<in> set (rd_buckets (seen e s k)) \<and> b_id b = col_bucket r \<and> b_name b = n"
  using assms
proof (induction rs arbitrary: ids s names s')
  case (Cons r rs)
  show ?case
  proof (cases "col_status r \<noteq> RuleStatusActive \<or> col_bucket r \<in> ids")
    case True
    then have "active_buckets e ids rs s = (names, s')" using Cons.prems(1) by simp
    from Cons.IH[OF this Cons.prems(2)] show ?thesis by auto
  next
    case False
    obtain x s1 where 1: "rule_sql e (GetBucketByID (col_bucket r)) s = (x, s1)" by fastforce
    obtain names' s2 where 2: "active_buckets e (insert (col_bucket r) ids) rs s1 = (names', s2)" by fastforce
    have names: "names = (case x of Inl err \<Rightarrow> names' | Inr b \<Rightarrow> b_name b # names')" using Cons.prems(1) False 1 2 by simp
    show ?thesis
    proof (cases "n \<in> set names'")
      case True
      from Cons.IH[OF 2 this] obtain k r' b where "r' \<in> set rs" "col_status r' = RuleStatusActive" "b \<in> set (rd_buckets (seen e s1 k))"
        "b_id b = col_bucket r'" "b_name b = n" by blast
      then show ?thesis using read_step(1)[OF 1 rule_reads_only(1)] by (intro exI[of _ "Suc k"] exI[of _ r'] exI[of _ b]) simp
    next
      case new: False
      then obtain b where "x = Inr b" "n = b_name b" using names Cons.prems(2) by (auto split: sum.splits)
      then show ?thesis using bucket_found[of e "col_bucket r" s b s1] 1 False
        by (intro exI[of _ 0] exI[of _ r] exI[of _ b]) simp
    qed
  qed
qed simp

lemma bucketsForAgent_own:
  assumes r: "bucketsForAgent e agentID ruleID s = (Inr names, s')" and n: "n \<in> set names"
  shows "\<exists>a. rw_parse_uuid e agentID = Some a \<and> own_bucket e s a (ruleID \<noteq> '''') n"
proof -
  obtain a where a: "rw_parse_uuid e agentID = Some a" using r by (auto simp: bucketsForAgent_def split: option.splits)
  have "own_bucket e s a (ruleID \<noteq> '''') n"
  proof (cases "ruleID = ''''")
    case False
    then obtain i rule s1 b where 1: "rule_sql e (GetCollectionRuleByID i) s = (Inr rule, s1)" and own: "col_agent rule = a"
      and 2: "rule_sql e (GetBucketByID (col_bucket rule)) s1 = (Inr b, s')" "names = [b_name b]"
      using r a by (auto simp: bucketsForAgent_def split: option.splits sum.splits prod.splits if_splits)
    have "rule \<in> set (rd_rules (seen e s 0))"
      using read_step(2)[OF 1 rule_reads_only(2) refl]
      by (auto simp: GetCollectionRuleByID_def one_row_def find_row_def find_Some_iff split: option.splits)
    then show ?thesis using bucket_found[OF 2(1)] read_step(1)[OF 1 rule_reads_only(2), of 0] own 2(2) n False
      unfolding own_bucket_def by (intro exI[of _ "Suc 0"] exI[of _ rule] exI[of _ b]) simp
  next
    case True
    then obtain rules s1 where 1: "rule_sql e (ListCollectionRulesByAgent a) s = (Inr rules, s1)" and 2: "active_buckets e {} rules s1 = (names, s')"
      using r a by (auto simp: bucketsForAgent_def split: option.splits sum.splits prod.splits if_splits)
    from active_buckets_own[OF 2 n] obtain k r' b where b: "r' \<in> set rules" "col_status r' = RuleStatusActive" "b \<in> set (rd_buckets (seen e s1 k))"
      "b_id b = col_bucket r'" "b_name b = n" by blast
    have "r' \<in> set (rd_rules (seen e s 0))" "col_agent r' = a"
      using read_step(2)[OF 1 rule_reads_only(3) refl] b(1) by (auto simp: ListCollectionRulesByAgent_def sql_simps set_order_by)
    then show ?thesis using b read_step(1)[OF 1 rule_reads_only(3)] True
      unfolding own_bucket_def by (intro exI[of _ "Suc k"] exI[of _ r'] exI[of _ b]) simp
  qed
  then show ?thesis using a by blast
qed

lemma policy_names:
  assumes "BuildSessionPolicy names = Some doc"
  shows "\<forall>st\<in>set (pd_statement doc). set (ps_action st) \<subseteq> set (bucketActions @ objectActions)
     \<and> (\<forall>res\<in>set (ps_resource st). \<exists>n\<in>set names. n \<noteq> '''' \<and> (res = bucket_arn n \<or> res = object_arn n))"
    "\<forall>n\<in>set names. n \<noteq> '''' \<longrightarrow> (\<exists>st\<in>set (pd_statement doc). ps_action st = objectActions \<and> object_arn n \<in> set (ps_resource st))"
  using assms by (auto simp: BuildSessionPolicy_def Let_def split: if_splits) blast+



section \<open>Samples\<close>

definition sample_session_env :: "time_lib \<Rightarrow> session_env" where
  "sample_session_env lib = \<lparr>se_rules = sample_rules_env lib, se_assume = (\<lambda>q. Inr (''k'', ''s'', sr_session q)), se_sts = STSManager ''store:8333'' ''root'' ''pw'' ''arn'' False,
     se_wired = True, se_now = 0, se_ctx_done = False, se_liveness = Answered\<rparr>"


end
