(* ===== verification/Dispatch.thy ===== *)
theory Dispatch
  imports Registry_Laws Sessions
begin

text \<open>
  The dispatcher of rule commands (controlplane/internal/agent/dispatch.go): the per-agent serialisation entries, the pushes and
  cancellations the REST handlers ask for and the snapshot of a connecting agent, as calls that interleave with each other and
  with the server.
\<close>

section \<open>Serialisation entries\<close>

text \<open>\<^verbatim>\<open>agentLockEntry\<close>: the goroutine inside its mutex, the users of the entry, and whether it is retired.\<close>

record lock_entry =
  ke_holder :: "nat option"
  ke_users :: int
  ke_dead :: bool

record agent_locks =
  lk_entries :: "uuid \<rightharpoonup> nat"
  lk_heap :: "lock_entry list"

definition on_entry :: "nat \<Rightarrow> (lock_entry \<Rightarrow> lock_entry) \<Rightarrow> agent_locks \<Rightarrow> agent_locks" where
  "on_entry x f l = l\<lparr>lk_heap := (lk_heap l)[x := f (lk_heap l ! x)]\<rparr>"

definition acquire :: "uuid \<Rightarrow> agent_locks \<Rightarrow> nat \<times> agent_locks" where
  "acquire a l =
     (let fresh = length (lk_heap l);
          l' = l\<lparr>lk_entries := (lk_entries l)(a \<mapsto> fresh), lk_heap := lk_heap l @ [\<lparr>ke_holder = None, ke_users = 1, ke_dead = False\<rparr>]\<rparr>
      in case lk_entries l a of
           None \<Rightarrow> (fresh, l')
         | Some x \<Rightarrow> if ke_dead (lk_heap l ! x) then (fresh, l') else (x, on_entry x (\<lambda>k. k\<lparr>ke_users := ke_users k + 1\<rparr>) l))"

definition release :: "uuid \<Rightarrow> nat \<Rightarrow> agent_locks \<Rightarrow> agent_locks" where
  "release a x l =
     (let l1 = on_entry x (\<lambda>k. k\<lparr>ke_users := ke_users k - 1\<rparr>) l
      in if ke_dead (lk_heap l1 ! x) \<and> ke_users (lk_heap l1 ! x) = 0 \<and> lk_entries l1 a = Some x then l1\<lparr>lk_entries := (lk_entries l1)(a := None)\<rparr> else l1)"

definition retire :: "uuid \<Rightarrow> agent_locks \<Rightarrow> agent_locks" where
  "retire a l =
     (case lk_entries l a of
        None \<Rightarrow> l
      | Some x \<Rightarrow>
          (let l1 = on_entry x (\<lambda>k. k\<lparr>ke_dead := True\<rparr>) l
           in if ke_users (lk_heap l1 ! x) = 0 then l1\<lparr>lk_entries := (lk_entries l1)(a := None)\<rparr> else l1))"

section \<open>Messages\<close>

text \<open>\<^verbatim>\<open>UUID.String\<close>, \<^verbatim>\<open>proto.Size\<close> and whether a credential pusher is wired.\<close>

record dispatch_env =
  de_string :: "uuid \<Rightarrow> string"
  de_size :: "server_message \<Rightarrow> int"
  de_pusher :: bool

definition ruleToProto :: "dispatch_env \<Rightarrow> coll_rule \<Rightarrow> string \<Rightarrow> collection_rule" where
  "ruleToProto e r bucket =
     \<lparr>RuleID = de_string e (col_id r), Name = col_name r, Mode = col_mode r, BasePath = col_base_path r, PathPattern = col_path_pattern r,
      UploadBucket = bucket, DestPathTemplate = col_dest r, Recursive = col_recursive r,
      CronExpr = (case col_cron r of None \<Rightarrow> '''' | Some c \<Rightarrow> c), RunOnceOnStart = col_run_once r, AppendMode = col_append r,
      Enabled = (col_status r = RuleStatusActive)\<rparr>"

definition otherRulesCoverBucket :: "coll_rule \<Rightarrow> coll_rule list \<Rightarrow> bool" where
  "otherRulesCoverBucket rule rules \<longleftrightarrow>
     (\<exists>r\<in>set rules. col_id r \<noteq> col_id rule \<and> col_status r = RuleStatusActive \<and> col_bucket r = col_bucket rule)"

section \<open>Calls\<close>

datatype dispatch_op = Call dispatch_call | SyncCall uuid

fun op_agent :: "dispatch_op \<Rightarrow> uuid" where
  "op_agent (Call (PushCall r)) = col_agent r"
| "op_agent (Call (CancelCall i a)) = a"
| "op_agent (SyncCall a) = a"

datatype push_outcome = OutOk | OutError | OutDegraded

text \<open>Where a call is; the numbers are serialisation entries.\<close>

datatype dispatch_pc =
    DStart
  | DLock
  | DLookup
  | DReady "server_message option"
  | DWaiting "server_message option" nat
  | DHolding "server_message option" nat
  | DBuilding nat "coll_rule list" "collection_rule list" "uuid \<rightharpoonup> string"
  | DSent nat push_outcome
  | DReleasing nat push_outcome
  | DAfter push_outcome
  | DPush
  | DUnlock push_outcome
  | DDone push_outcome

text \<open>
  The code does not keep the last three: how many calls had begun when a snapshot was listed, whether the call's entry was retired
  since it was acquired, and the commands of later calls sent to the agent between the listing and the end of the call's mutex section.
\<close>

record dispatch_state =
  dc_op :: dispatch_op
  dc_pc :: dispatch_pc
  dc_listed :: "nat option"
  dc_retired :: bool
  dc_missed :: "server_message list"

text \<open>\<open>dp_nx\<close> are the rules whose dispatch lock is set in Redis.\<close>

record dispatcher =
  dp_server :: server
  dp_db :: rules_db
  dp_locks :: agent_locks
  dp_nx :: "uuid set"
  dp_calls :: "dispatch_state list"

definition call_at :: "dispatcher \<Rightarrow> nat \<Rightarrow> dispatch_state" where
  "call_at s i = dp_calls s ! i"

definition goto_pc :: "nat \<Rightarrow> dispatch_pc \<Rightarrow> dispatcher \<Rightarrow> dispatcher" where
  "goto_pc i p s = s\<lparr>dp_calls := (dp_calls s)[i := (call_at s i)\<lparr>dc_pc := p\<rparr>]\<rparr>"

text \<open>The entry a call uses.\<close>

fun pc_entry :: "dispatch_pc \<Rightarrow> nat option" where
  "pc_entry (DWaiting m x) = Some x"
| "pc_entry (DHolding m x) = Some x"
| "pc_entry (DBuilding x todo snap names) = Some x"
| "pc_entry (DSent x out) = Some x"
| "pc_entry (DReleasing x out) = Some x"
| "pc_entry p = None"

fun holds :: "dispatch_pc \<Rightarrow> bool" where
  "holds (DHolding m x) = True"
| "holds (DBuilding x todo snap names) = True"
| "holds (DSent x out) = True"
| "holds p = False"

text \<open>A command sent for a call: it is noted at the snapshots listed before the call began.\<close>

definition note_missed :: "nat \<Rightarrow> uuid \<Rightarrow> server_message \<Rightarrow> dispatcher \<Rightarrow> dispatcher" where
  "note_missed j a m s = s\<lparr>dp_calls := map (\<lambda>c. if op_agent (dc_op c) = a \<and> holds (dc_pc c) \<and> (case dc_listed c of None \<Rightarrow> False | Some n \<Rightarrow> n \<le> j)
     then c\<lparr>dc_missed := dc_missed c @ [m]\<rparr> else c) (dp_calls s)\<rparr>"

definition send_call :: "nat \<Rightarrow> server_message \<Rightarrow> dispatcher \<Rightarrow> bool \<times> dispatcher" where
  "send_call j m s =
     (let a = op_agent (dc_op (call_at s j)); (ok, sv) = send_agent a m (dp_server s); s1 = s\<lparr>dp_server := sv\<rparr>
      in (ok, if ok then note_missed j a m s1 else s1))"

definition unlock_entry :: "nat \<Rightarrow> dispatcher \<Rightarrow> dispatcher" where
  "unlock_entry x s = s\<lparr>dp_locks := on_entry x (\<lambda>k. k\<lparr>ke_holder := None\<rparr>) (dp_locks s)\<rparr>"

section \<open>Steps of a call\<close>

definition start_step :: "dispatch_env \<Rightarrow> nat \<Rightarrow> dispatcher \<Rightarrow> dispatcher" where
  "start_step e i s =
     (case dc_op (call_at s i) of
        SyncCall a \<Rightarrow> goto_pc i (DReady None) s
      | Call (PushCall r) \<Rightarrow> goto_pc i (if IsOnline (col_agent r) (sv_reg (dp_server s)) then DLock else DDone OutOk) s
      | Call (CancelCall rid a) \<Rightarrow>
          goto_pc i (if IsOnline a (sv_reg (dp_server s)) then DReady (Some (MsgCancelRule (de_string e rid))) else DDone OutOk) s)"

text \<open>\<^verbatim>\<open>SetNX\<close> on the rule's dispatch lock; a lock already held ends the call without an error.\<close>

definition nx_step :: "redis_answer \<Rightarrow> nat \<Rightarrow> coll_rule \<Rightarrow> dispatcher \<Rightarrow> dispatcher" where
  "nx_step ans i r s =
     (if ans = RedisDown then goto_pc i (DDone OutError) s
      else if col_id r \<in> dp_nx s then goto_pc i (DDone (if ans = RedisOK then OutOk else OutError)) s
      else goto_pc i (if ans = RedisOK then DLookup else DDone OutError) (s\<lparr>dp_nx := insert (col_id r) (dp_nx s)\<rparr>))"

definition lookupBucketName :: "bool \<Rightarrow> uuid \<Rightarrow> dispatcher \<Rightarrow> string option" where
  "lookupBucketName ok b s = (if ok then map_option b_name (find_row b_id b (rd_buckets (dp_db s))) else None)"

definition lookup_step :: "dispatch_env \<Rightarrow> bool \<Rightarrow> nat \<Rightarrow> coll_rule \<Rightarrow> dispatcher \<Rightarrow> dispatcher" where
  "lookup_step e ok i r s =
     (case lookupBucketName ok (col_bucket r) s of
        None \<Rightarrow> goto_pc i (DUnlock OutError) s
      | Some n \<Rightarrow> goto_pc i (DReady (Some (MsgPushRule (ruleToProto e r n)))) s)"

definition acquire_step :: "nat \<Rightarrow> server_message option \<Rightarrow> dispatcher \<Rightarrow> dispatcher" where
  "acquire_step i m s = (case acquire (op_agent (dc_op (call_at s i))) (dp_locks s) of (x, l) \<Rightarrow> goto_pc i (DWaiting m x) (s\<lparr>dp_locks := l\<rparr>))"

definition lock_step :: "nat \<Rightarrow> server_message option \<Rightarrow> nat \<Rightarrow> dispatcher \<Rightarrow> dispatcher option" where
  "lock_step i m x s =
     (if ke_holder (lk_heap (dp_locks s) ! x) = None
      then Some (goto_pc i (DHolding m x) (s\<lparr>dp_locks := on_entry x (\<lambda>k. k\<lparr>ke_holder := Some i\<rparr>) (dp_locks s)\<rparr>))
      else None)"

text \<open>Inside the mutex: a command is sent, a snapshot is begun with the list of the agent's rules.\<close>

definition hold_step :: "bool \<Rightarrow> nat \<Rightarrow> server_message option \<Rightarrow> nat \<Rightarrow> dispatcher \<Rightarrow> dispatcher" where
  "hold_step ok i m x s =
     (case m of
        Some msg \<Rightarrow> (case send_call i msg s of (sent, s1) \<Rightarrow> goto_pc i (DSent x (if sent then OutOk else OutError)) s1)
      | None \<Rightarrow>
          if ok then
            (let rules = order_by (\<lambda>r. - col_created r) (select_where (\<lambda>r. col_agent r = op_agent (dc_op (call_at s i))) (rd_rules (dp_db s)));
                 s1 = goto_pc i (DBuilding x rules [] Map.empty) s
             in s1\<lparr>dp_calls := (dp_calls s1)[i := (call_at s1 i)\<lparr>dc_listed := Some (length (dp_calls s1))\<rparr>]\<rparr>)
          else goto_pc i (DSent x OutError) s)"

definition build_step :: "dispatch_env \<Rightarrow> bool \<Rightarrow> nat \<Rightarrow> nat \<Rightarrow> coll_rule list \<Rightarrow> collection_rule list \<Rightarrow> (uuid \<rightharpoonup> string) \<Rightarrow> dispatcher \<Rightarrow> dispatcher" where
  "build_step e ok i x todo snap names s =
     (case todo of
        r # rs \<Rightarrow>
          (case names (col_bucket r) of
             Some n \<Rightarrow> goto_pc i (DBuilding x rs (snap @ [ruleToProto e r n]) names) s
           | None \<Rightarrow>
               (case lookupBucketName ok (col_bucket r) s of
                  None \<Rightarrow> goto_pc i (DSent x OutError) s
                | Some n \<Rightarrow> goto_pc i (DBuilding x rs (snap @ [ruleToProto e r n]) (names(col_bucket r \<mapsto> n))) s))
      | [] \<Rightarrow>
          if MaxRulesSnapshotBytes < de_size e (MsgRulesSync snap) then goto_pc i (DSent x OutDegraded) s
          else (case send_call i (MsgRulesSync snap) s of (sent, s1) \<Rightarrow> goto_pc i (DSent x (if sent then OutOk else OutError)) s1))"

definition release_step :: "nat \<Rightarrow> nat \<Rightarrow> push_outcome \<Rightarrow> dispatcher \<Rightarrow> dispatcher" where
  "release_step i x out s =
     (let op = dc_op (call_at s i)
      in goto_pc i (case op of Call (PushCall r) \<Rightarrow> DAfter out | Call (CancelCall rid a) \<Rightarrow> DDone OutOk | SyncCall a \<Rightarrow> DDone out)
           (s\<lparr>dp_locks := release (op_agent op) x (dp_locks s)\<rparr>))"

definition after_step :: "dispatch_env \<Rightarrow> bool \<Rightarrow> nat \<Rightarrow> coll_rule \<Rightarrow> push_outcome \<Rightarrow> dispatcher \<Rightarrow> dispatcher" where
  "after_step e ok i r out s =
     goto_pc i
       (if out \<noteq> OutOk \<or> \<not> de_pusher e \<or> col_status r \<noteq> RuleStatusActive \<or> \<not> ok then DUnlock out
        else if otherRulesCoverBucket r (select_where (\<lambda>q. col_agent q = col_agent r) (rd_rules (dp_db s))) then DUnlock out else DPush) s"

text \<open>\<open>covered\<close> are the buckets of the session pushed, if there is one.\<close>

definition push_step :: "string list option \<Rightarrow> nat \<Rightarrow> dispatcher \<Rightarrow> dispatcher" where
  "push_step covered i s =
     goto_pc i (DUnlock OutOk)
       (case covered of None \<Rightarrow> s | Some bs \<Rightarrow> s\<lparr>dp_server := snd (send_agent (op_agent (dc_op (call_at s i))) (MsgCredentials bs) (dp_server s))\<rparr>)"

text \<open>One step of a call: \<open>ok\<close> is the database's answer, \<open>ans\<close> that of Redis.\<close>

definition call_step :: "dispatch_env \<Rightarrow> bool \<Rightarrow> redis_answer \<Rightarrow> string list option \<Rightarrow> nat \<Rightarrow> dispatcher \<Rightarrow> dispatcher option" where
  "call_step e ok ans covered i s =
     (let op = dc_op (call_at s i)
      in case dc_pc (call_at s i) of
           DStart \<Rightarrow> Some (start_step e i s)
         | DLock \<Rightarrow> (case op of Call (PushCall r) \<Rightarrow> Some (nx_step ans i r s) | _ \<Rightarrow> None)
         | DLookup \<Rightarrow> (case op of Call (PushCall r) \<Rightarrow> Some (lookup_step e ok i r s) | _ \<Rightarrow> None)
         | DReady m \<Rightarrow> Some (acquire_step i m s)
         | DWaiting m x \<Rightarrow> lock_step i m x s
         | DHolding m x \<Rightarrow> Some (hold_step ok i m x s)
         | DBuilding x todo snap names \<Rightarrow> Some (build_step e ok i x todo snap names s)
         | DSent x out \<Rightarrow> Some (goto_pc i (DReleasing x out) (unlock_entry x s))
         | DReleasing x out \<Rightarrow> Some (release_step i x out s)
         | DAfter out \<Rightarrow> (case op of Call (PushCall r) \<Rightarrow> Some (after_step e ok i r out s) | _ \<Rightarrow> None)
         | DPush \<Rightarrow> Some (push_step covered i s)
         | DUnlock out \<Rightarrow> (case op of Call (PushCall r) \<Rightarrow>
               Some (goto_pc i (DDone out) (if ans = RedisDown then s else s\<lparr>dp_nx := dp_nx s - {col_id r}\<rparr>)) | _ \<Rightarrow> None)
         | DDone out \<Rightarrow> None)"

section \<open>The system\<close>

text \<open>
  Everything else that happens: calls begin, rules and buckets change, dispatch locks expire, the server goes on (its own
  messages carry no rules), a connecting handler takes up the outcome of its agent's snapshot, and a connection that left retires the agent's
  entry before it cleans up the cache.
\<close>

fun carries_rules :: "server_message \<Rightarrow> bool" where
  "carries_rules (MsgPushRule r) = True"
| "carries_rules (MsgCancelRule i) = True"
| "carries_rules (MsgRulesSync rs) = True"
| "carries_rules m = False"

fun own_traffic :: "sv_action \<Rightarrow> bool" where
  "own_traffic (Sync i out) \<longleftrightarrow> False"
| "own_traffic (SendMessage a m) \<longleftrightarrow> \<not> carries_rules m"
| "own_traffic (Reply i m) \<longleftrightarrow> \<not> carries_rules m"
| "own_traffic x \<longleftrightarrow> True"

definition begin_call :: "dispatch_op \<Rightarrow> dispatcher \<Rightarrow> dispatcher" where
  "begin_call op s = s\<lparr>dp_calls := dp_calls s @ [\<lparr>dc_op = op, dc_pc = DStart, dc_listed = None, dc_retired = False, dc_missed = []\<rparr>]\<rparr>"

definition synced :: "nat \<Rightarrow> push_outcome \<Rightarrow> server \<Rightarrow> server" where
  "synced i out s =
     (case out of
        OutOk \<Rightarrow> set_handler i AtMarker s
      | OutDegraded \<Rightarrow> sync_rules i SyncDegraded s
      | OutError \<Rightarrow> sync_rules i SyncFailed s)"

definition ReleaseAgent :: "uuid \<Rightarrow> dispatcher \<Rightarrow> dispatcher" where
  "ReleaseAgent a s = s\<lparr>dp_locks := retire a (dp_locks s),
     dp_calls := map (\<lambda>c. if op_agent (dc_op c) = a \<and> pc_entry (dc_pc c) \<noteq> None then c\<lparr>dc_retired := True\<rparr> else c) (dp_calls s)\<rparr>"

datatype dp_action =
    Begin dispatch_op
  | StepCall nat bool redis_answer "string list option"
  | ChangeRules rules_db
  | ExpireLocks "uuid set"
  | ServerAct sv_action
  | Synced nat nat
  | Release nat

fun dp_act :: "dispatch_env \<Rightarrow> dp_action \<Rightarrow> dispatcher \<Rightarrow> dispatcher option" where
  "dp_act e (Begin op) s = Some (begin_call op s)"
| "dp_act e (StepCall i ok ans covered) s = (if i < length (dp_calls s) then call_step e ok ans covered i s else None)"
| "dp_act e (ChangeRules d) s = Some (s\<lparr>dp_db := d\<rparr>)"
| "dp_act e (ExpireLocks xs) s = Some (s\<lparr>dp_nx := dp_nx s - xs\<rparr>)"
| "dp_act e (ServerAct a) s =
     (if own_traffic a \<and> \<not> sv_panicked (dp_server s) then map_option (\<lambda>sv. s\<lparr>dp_server := sv\<rparr>) (act a (dp_server s)) else None)"
| "dp_act e (Synced i j) s =
     (if handler_at (dp_server s) i AtRuleSync \<and> j < length (dp_calls s) \<and> dc_op (call_at s j) = SyncCall (cn_agent (conn_at (sv_reg (dp_server s)) i)) then
        (case dc_pc (call_at s j) of DDone out \<Rightarrow> Some (s\<lparr>dp_server := synced i out (dp_server s)\<rparr>) | _ \<Rightarrow> None)
      else None)"
| "dp_act e (Release k) s =
     (if k < length (sv_cleanups (dp_server s)) then
        (case sv_cleanups (dp_server s) ! k of ClPresence a \<Rightarrow> Some (ReleaseAgent a s) | _ \<Rightarrow> None)
      else None)"

inductive dp_step :: "dispatch_env \<Rightarrow> dispatcher \<Rightarrow> dispatcher \<Rightarrow> bool" for e where
  dp_act: "dp_act e x s = Some s' \<Longrightarrow> dp_step e s s'"

definition dp_init :: "dispatcher \<Rightarrow> bool" where
  "dp_init s \<longleftrightarrow> sv_init (dp_server s) \<and> dp_locks s = \<lparr>lk_entries = Map.empty, lk_heap = []\<rparr> \<and> dp_nx s = {} \<and> dp_calls s = []"

end
