(* ===== verification/Dispatch_Laws.thy ===== *)
theory Dispatch_Laws
  imports Dispatch
begin

text \<open>
  What the serialisation entries guarantee: they are exclusive and are reclaimed, and no command of a later call overtakes a
  snapshot unless the agent's entry was retired while the snapshot was being built.
\<close>

section \<open>Entries\<close>

lemma on_entry_simps [simp]:
  "length (lk_heap (on_entry x f l)) = length (lk_heap l)" "lk_entries (on_entry x f l) = lk_entries l"
  by (simp_all add: on_entry_def)

lemma on_entry_nth: "y < length (lk_heap l) \<Longrightarrow> lk_heap (on_entry x f l) ! y = (if y = x then f (lk_heap l ! x) else lk_heap l ! y)"
  by (simp add: on_entry_def nth_list_update)

definition users_of :: "nat \<Rightarrow> dispatch_state list \<Rightarrow> nat" where
  "users_of x cs = count_where (\<lambda>c. pc_entry (dc_pc c) = Some x) cs"

text \<open>A call has reached its mutex only after it took an entry.\<close>

fun before_entry :: "dispatch_pc \<Rightarrow> bool" where
  "before_entry DStart = True"
| "before_entry DLock = True"
| "before_entry DLookup = True"
| "before_entry (DReady m) = True"
| "before_entry p = False"

text \<open>What a call relates to: its entry is live and the agent's own unless it was retired, and its mutex is held when it says so.\<close>

definition call_ok :: "agent_locks \<Rightarrow> nat \<Rightarrow> dispatch_state \<Rightarrow> bool" where
  "call_ok l i c \<longleftrightarrow>
     (\<forall>x. pc_entry (dc_pc c) = Some x \<longrightarrow> x < length (lk_heap l)
        \<and> (\<forall>b. lk_entries l b = Some x \<longrightarrow> b = op_agent (dc_op c))
        \<and> (\<not> dc_retired c \<longrightarrow> lk_entries l (op_agent (dc_op c)) = Some x \<and> \<not> ke_dead (lk_heap l ! x))
        \<and> (holds (dc_pc c) \<longrightarrow> ke_holder (lk_heap l ! x) = Some i))
   \<and> (before_entry (dc_pc c) \<longrightarrow> \<not> dc_retired c \<and> dc_listed c = None)
   \<and> (dc_missed c \<noteq> [] \<longrightarrow> dc_retired c)"

definition locks_ok :: "agent_locks \<Rightarrow> bool" where
  "locks_ok l \<longleftrightarrow> (\<forall>a x. lk_entries l a = Some x \<longrightarrow> x < length (lk_heap l) \<and> (\<forall>b. lk_entries l b = Some x \<longrightarrow> b = a)
     \<and> (ke_dead (lk_heap l ! x) \<longrightarrow> ke_users (lk_heap l ! x) \<noteq> 0))"

text \<open>A snapshot listed before a call began, and that call, are retired together.\<close>

definition listed_ok :: "dispatch_state list \<Rightarrow> bool" where
  "listed_ok cs \<longleftrightarrow> (\<forall>i n. i < length cs \<longrightarrow> dc_listed (cs ! i) = Some n \<longrightarrow> i < n \<and> n \<le> length cs
     \<and> (\<forall>j. n \<le> j \<longrightarrow> j < length cs \<longrightarrow> op_agent (dc_op (cs ! j)) = op_agent (dc_op (cs ! i)) \<longrightarrow> pc_entry (dc_pc (cs ! j)) \<noteq> None \<longrightarrow>
          pc_entry (dc_pc (cs ! i)) \<noteq> None \<longrightarrow> dc_retired (cs ! j) \<longrightarrow> dc_retired (cs ! i)))"

definition counts_ok :: "agent_locks \<Rightarrow> dispatch_state list \<Rightarrow> bool" where
  "counts_ok l cs \<longleftrightarrow> (\<forall>x<length (lk_heap l). ke_users (lk_heap l ! x) = int (users_of x cs))"

definition ser_inv :: "agent_locks \<Rightarrow> dispatch_state list \<Rightarrow> bool" where
  "ser_inv l cs \<longleftrightarrow> (\<forall>i<length cs. call_ok l i (cs ! i)) \<and> locks_ok l \<and> listed_ok cs \<and> counts_ok l cs"

lemma ser_invI:
  assumes "\<And>i. i < length cs \<Longrightarrow> call_ok l i (cs ! i)" "locks_ok l" "listed_ok cs" "counts_ok l cs"
  shows "ser_inv l cs"
  using assms by (simp add: ser_inv_def)

lemma ser_invD:
  assumes "ser_inv l cs"
  shows "i < length cs \<Longrightarrow> call_ok l i (cs ! i)" "locks_ok l" "listed_ok cs" "counts_ok l cs"
  using assms by (simp_all add: ser_inv_def)

lemma users_of_update:
  assumes "i < length cs"
  shows "users_of x (cs[i := c]) + (if pc_entry (dc_pc (cs ! i)) = Some x then 1 else 0) = users_of x cs + (if pc_entry (dc_pc c) = Some x then 1 else 0)"
  using assms
proof (induction cs arbitrary: i)
  case (Cons d cs)
  show ?case
  proof (cases i)
    case (Suc k)
    then show ?thesis using Cons.IH[of k] Cons.prems by (simp add: users_of_def count_where_def split: if_splits)
  qed (simp add: users_of_def count_where_def)
qed simp

lemma users_of_same: "i < length cs \<Longrightarrow> pc_entry (dc_pc c) = pc_entry (dc_pc (cs ! i)) \<Longrightarrow> users_of x (cs[i := c]) = users_of x cs"
  using users_of_update[of i cs x c] by simp

lemma users_of_map: "(\<And>c. dc_pc (f c) = dc_pc c) \<Longrightarrow> users_of x (map f cs) = users_of x cs"
  by (induction cs) (simp_all add: users_of_def count_where_def)

lemma users_of_pos: "i < length cs \<Longrightarrow> pc_entry (dc_pc (cs ! i)) = Some x \<Longrightarrow> 0 < users_of x cs"
  using nth_mem[of i cs] by (fastforce simp: users_of_def count_where_def filter_empty_conv)

section \<open>Steps keep the invariant\<close>

lemma listed_ok_transfer:
  assumes ok: "listed_ok cs" and len: "length f = length cs"
    and same: "\<And>k. k < length cs \<Longrightarrow> dc_op (f ! k) = dc_op (cs ! k) \<and> dc_listed (f ! k) = dc_listed (cs ! k) \<and> (dc_retired (cs ! k) \<longrightarrow> dc_retired (f ! k))"
    and entry: "\<And>k. k < length cs \<Longrightarrow> pc_entry (dc_pc (f ! k)) \<noteq> None \<Longrightarrow> pc_entry (dc_pc (cs ! k)) \<noteq> None \<or> \<not> dc_retired (f ! k) \<and> dc_listed (cs ! k) = None"
    and ret: "\<And>j k. j < length cs \<Longrightarrow> k < length cs \<Longrightarrow> dc_retired (f ! j) \<Longrightarrow> op_agent (dc_op (cs ! j)) = op_agent (dc_op (cs ! k)) \<Longrightarrow>
      pc_entry (dc_pc (f ! k)) \<noteq> None \<Longrightarrow> dc_retired (cs ! j) \<or> dc_retired (f ! k)"
  shows "listed_ok f"
  unfolding listed_ok_def
proof (intro allI impI)
  fix i n assume i: "i < length f" "dc_listed (f ! i) = Some n"
  then have i': "i < length cs" "dc_listed (cs ! i) = Some n" using len same by auto
  then have n: "i < n" "n \<le> length cs" using ok unfolding listed_ok_def by blast+
  have "dc_retired (f ! i)" if j: "n \<le> j" "j < length f" "op_agent (dc_op (f ! j)) = op_agent (dc_op (f ! i))" "pc_entry (dc_pc (f ! j)) \<noteq> None"
      "pc_entry (dc_pc (f ! i)) \<noteq> None" "dc_retired (f ! j)" for j
  proof (rule ccontr)
    assume not: "\<not> dc_retired (f ! i)"
    have j': "j < length cs" "op_agent (dc_op (cs ! j)) = op_agent (dc_op (cs ! i))" using j len same[of i] same[of j] i' by auto
    have "dc_retired (cs ! j)" using ret[OF j'(1) i'(1) j(6) j'(2) j(5)] not by blast
    moreover have "pc_entry (dc_pc (cs ! i)) \<noteq> None" "pc_entry (dc_pc (cs ! j)) \<noteq> None"
      using entry[OF i'(1) j(5)] entry[OF j'(1) j(4)] i'(2) j(6) by auto
    ultimately have "dc_retired (cs ! i)" using ok i' j(1) j' unfolding listed_ok_def by blast
    then show False using same[OF i'(1)] not by blast
  qed
  then show "i < n \<and> n \<le> length f \<and> (\<forall>j. n \<le> j \<longrightarrow> j < length f \<longrightarrow> op_agent (dc_op (f ! j)) = op_agent (dc_op (f ! i)) \<longrightarrow>
      pc_entry (dc_pc (f ! j)) \<noteq> None \<longrightarrow> pc_entry (dc_pc (f ! i)) \<noteq> None \<longrightarrow> dc_retired (f ! j) \<longrightarrow> dc_retired (f ! i))"
    using n len by auto
qed

lemma listed_ok_update:
  assumes "listed_ok cs" "dc_op c = dc_op (cs ! i)" "dc_listed c = dc_listed (cs ! i)" "dc_retired c = dc_retired (cs ! i)"
    and "pc_entry (dc_pc c) \<noteq> None \<Longrightarrow> pc_entry (dc_pc (cs ! i)) \<noteq> None \<or> \<not> dc_retired c \<and> dc_listed c = None"
  shows "listed_ok (cs[i := c])"
proof (rule listed_ok_transfer[OF assms(1)])
  show "dc_op (cs[i := c] ! k) = dc_op (cs ! k) \<and> dc_listed (cs[i := c] ! k) = dc_listed (cs ! k) \<and> (dc_retired (cs ! k) \<longrightarrow> dc_retired (cs[i := c] ! k))"
    if "k < length cs" for k using assms(2-4) that by (cases "k = i") simp_all
  show "pc_entry (dc_pc (cs ! k)) \<noteq> None \<or> \<not> dc_retired (cs[i := c] ! k) \<and> dc_listed (cs ! k) = None"
    if "k < length cs" "pc_entry (dc_pc (cs[i := c] ! k)) \<noteq> None" for k using assms(3,5) that by (cases "k = i") simp_all
  show "dc_retired (cs ! j) \<or> dc_retired (cs[i := c] ! k)" if "j < length cs" "dc_retired (cs[i := c] ! j)" for j k
    using assms(4) that by (cases "j = i") simp_all
qed simp

text \<open>A step of a call inside one section.\<close>

lemma ser_goto:
  assumes inv: "ser_inv l cs" and i: "i < length cs"
    and p: "pc_entry p = pc_entry (dc_pc (cs ! i))" "holds p = holds (dc_pc (cs ! i))" "before_entry p \<Longrightarrow> before_entry (dc_pc (cs ! i))"
  shows "ser_inv l (cs[i := (cs ! i)\<lparr>dc_pc := p\<rparr>])"
proof (rule ser_invI)
  show "listed_ok (cs[i := (cs ! i)\<lparr>dc_pc := p\<rparr>])" by (rule listed_ok_update[OF ser_invD(3)[OF inv]]) (simp_all add: p(1))
  show "counts_ok l (cs[i := (cs ! i)\<lparr>dc_pc := p\<rparr>])" using ser_invD(4)[OF inv] i p(1) by (simp add: counts_ok_def users_of_same)
  show "call_ok l j (cs[i := (cs ! i)\<lparr>dc_pc := p\<rparr>] ! j)" if "j < length (cs[i := (cs ! i)\<lparr>dc_pc := p\<rparr>])" for j
    using ser_invD(1)[OF inv, of j] that p by (cases "j = i") (simp_all add: call_ok_def)
qed (rule ser_invD(2)[OF inv])

lemma locks_okD:
  assumes "locks_ok l" "lk_entries l a = Some x"
  shows "x < length (lk_heap l)" "lk_entries l b = Some x \<Longrightarrow> b = a" "ke_dead (lk_heap l ! x) \<Longrightarrow> ke_users (lk_heap l ! x) \<noteq> 0"
  using assms unfolding locks_ok_def by blast+

lemma call_okD:
  assumes "call_ok l i c" "pc_entry (dc_pc c) = Some x"
  shows "x < length (lk_heap l)" "lk_entries l b = Some x \<Longrightarrow> b = op_agent (dc_op c)"
    "\<not> dc_retired c \<Longrightarrow> lk_entries l (op_agent (dc_op c)) = Some x" "\<not> dc_retired c \<Longrightarrow> \<not> ke_dead (lk_heap l ! x)"
    "holds (dc_pc c) \<Longrightarrow> ke_holder (lk_heap l ! x) = Some i"
  using assms unfolding call_ok_def by blast+

text \<open>A call that takes an entry: the agent's live one or a fresh one.\<close>

lemma acquire_cases:
  assumes "acquire a l = (x, l')" "locks_ok l"
  obtains (fresh) "x = length (lk_heap l)" "lk_entries l' = (lk_entries l)(a \<mapsto> x)" "lk_heap l' = lk_heap l @ [\<lparr>ke_holder = None, ke_users = 1, ke_dead = False\<rparr>]"
      "\<And>y. lk_entries l a = Some y \<Longrightarrow> ke_dead (lk_heap l ! y)"
    | (live) "lk_entries l a = Some x" "\<not> ke_dead (lk_heap l ! x)" "l' = on_entry x (\<lambda>k. k\<lparr>ke_users := ke_users k + 1\<rparr>) l"
  using assms by (auto simp: acquire_def Let_def split: option.splits if_splits)

lemma call_ok_fresh:
  assumes "call_ok l j c" "\<And>y. lk_entries l a = Some y \<Longrightarrow> ke_dead (lk_heap l ! y)"
    and "lk_entries l' = (lk_entries l)(a \<mapsto> length (lk_heap l))" "lk_heap l' = lk_heap l @ [k]"
  shows "call_ok l' j c"
  using assms unfolding call_ok_def by (auto simp: nth_append)

lemma call_ok_on_entry:
  assumes "call_ok l j c" "ke_dead (f (lk_heap l ! x)) = ke_dead (lk_heap l ! x)"
    and "pc_entry (dc_pc c) = Some x \<Longrightarrow> holds (dc_pc c) \<Longrightarrow> ke_holder (lk_heap l ! x) = Some j \<Longrightarrow> ke_holder (f (lk_heap l ! x)) = Some j"
  shows "call_ok (on_entry x f l) j c"
  using assms unfolding call_ok_def by (auto simp: on_entry_nth)

lemma ser_acquire:
  assumes inv: "ser_inv l cs" and i: "i < length cs" "dc_pc (cs ! i) = DReady m" and a: "acquire (op_agent (dc_op (cs ! i))) l = (x, l')"
  shows "ser_inv l' (cs[i := (cs ! i)\<lparr>dc_pc := DWaiting m x\<rparr>])" (is "ser_inv l' ?cs")
proof -
  let ?a = "op_agent (dc_op (cs ! i))"
  have new: "\<not> dc_retired (cs ! i)" "dc_listed (cs ! i) = None" "dc_missed (cs ! i) = []"
    using ser_invD(1)[OF inv i(1)] i(2) unfolding call_ok_def by auto
  have listed: "listed_ok ?cs" by (rule listed_ok_update[OF ser_invD(3)[OF inv]]) (simp_all add: new)
  have users: "users_of y ?cs = users_of y cs + (if y = x then 1 else 0)" for y
    using users_of_update[OF i(1), of y "(cs ! i)\<lparr>dc_pc := DWaiting m x\<rparr>"] i(2) by (simp split: if_splits)
  have none: "users_of y cs = 0" if "length (lk_heap l) \<le> y" for y
  proof -
    have "pc_entry (dc_pc (cs ! j)) \<noteq> Some y" if "j < length cs" for j using call_okD(1)[OF ser_invD(1)[OF inv], of j y] that \<open>length (lk_heap l) \<le> y\<close> by auto
    then show ?thesis by (auto simp: users_of_def count_where_def filter_empty_conv in_set_conv_nth)
  qed
  note lo = ser_invD(2)[OF inv] and co = ser_invD(4)[OF inv, unfolded counts_ok_def, rule_format]
  from a lo show ?thesis
  proof (cases rule: acquire_cases)
    case fresh
    show ?thesis
    proof (rule ser_invI)
      show "locks_ok l'" using lo unfolding locks_ok_def fresh by (auto simp: nth_append intro: less_SucI)
      show "counts_ok l' ?cs" using co none[of x] unfolding counts_ok_def fresh by (auto simp: nth_append users less_Suc_eq fresh(1)[symmetric])
      show "call_ok l' j (?cs ! j)" if "j < length ?cs" for j
      proof (cases "j = i")
        case True
        then show ?thesis using i new lo unfolding call_ok_def fresh by (auto dest: locks_okD(1))
      qed (use call_ok_fresh[OF ser_invD(1)[OF inv] fresh(4)] fresh that in simp)
    qed (rule listed)
  next
    case live
    have x: "x < length (lk_heap l)" by (rule locks_okD(1)[OF lo live(1)])
    show ?thesis
    proof (rule ser_invI)
      show "locks_ok l'" using lo live(2) unfolding locks_ok_def live(3) by (auto simp: on_entry_nth)
      show "counts_ok l' ?cs" using co unfolding counts_ok_def live(3) by (auto simp: on_entry_nth users)
      show "call_ok l' j (?cs ! j)" if "j < length ?cs" for j
      proof (cases "j = i")
        case True
        then show ?thesis using i new lo live x unfolding call_ok_def by (auto simp: on_entry_nth dest: locks_okD(2))
      qed (use call_ok_on_entry[OF ser_invD(1)[OF inv]] live that in simp)
    qed (rule listed)
  qed
qed

text \<open>Locking and unlocking the mutex of an entry.\<close>

lemma ser_holder:
  assumes inv: "ser_inv l cs" and i: "i < length cs" "pc_entry (dc_pc (cs ! i)) = Some x" and p: "pc_entry p = Some x" "\<not> before_entry p"
    and h: "holds p \<Longrightarrow> h = Some i"
    and excl: "\<And>j. j < length cs \<Longrightarrow> j \<noteq> i \<Longrightarrow> pc_entry (dc_pc (cs ! j)) = Some x \<Longrightarrow> \<not> holds (dc_pc (cs ! j))"
  shows "ser_inv (on_entry x (\<lambda>k. k\<lparr>ke_holder := h\<rparr>) l) (cs[i := (cs ! i)\<lparr>dc_pc := p\<rparr>])" (is "ser_inv ?l ?cs")
proof (rule ser_invI)
  show "locks_ok ?l" using ser_invD(2)[OF inv] unfolding locks_ok_def by (auto simp: on_entry_nth)
  show "listed_ok ?cs" by (rule listed_ok_update[OF ser_invD(3)[OF inv]]) (simp_all add: i)
  show "counts_ok ?l ?cs" using ser_invD(4)[OF inv] i p(1) by (auto simp: counts_ok_def users_of_same on_entry_nth)
  show "call_ok ?l j (?cs ! j)" if "j < length ?cs" for j
  proof (cases "j = i")
    case True
    then show ?thesis using ser_invD(1)[OF inv i(1)] i p h unfolding call_ok_def by (auto simp: on_entry_nth)
  next
    case False
    then show ?thesis using call_ok_on_entry[OF ser_invD(1)[OF inv], of j "\<lambda>k. k\<lparr>ke_holder := h\<rparr>" x] excl[of j] that by simp
  qed
qed

lemma ser_lock:
  assumes inv: "ser_inv l cs" and i: "i < length cs" "dc_pc (cs ! i) = DWaiting m x" and free: "ke_holder (lk_heap l ! x) = None"
  shows "ser_inv (on_entry x (\<lambda>k. k\<lparr>ke_holder := Some i\<rparr>) l) (cs[i := (cs ! i)\<lparr>dc_pc := DHolding m x\<rparr>])"
  by (rule ser_holder[OF inv i(1)]) (use i call_okD(5)[OF ser_invD(1)[OF inv]] free in auto)

lemma ser_unlock:
  assumes inv: "ser_inv l cs" and i: "i < length cs" "dc_pc (cs ! i) = DSent x out"
  shows "ser_inv (on_entry x (\<lambda>k. k\<lparr>ke_holder := None\<rparr>) l) (cs[i := (cs ! i)\<lparr>dc_pc := DReleasing x out\<rparr>])"
proof (rule ser_holder[OF inv i(1)])
  have "ke_holder (lk_heap l ! x) = Some i" using call_okD(5)[OF ser_invD(1)[OF inv i(1)], of x] i(2) by simp
  then show "\<not> holds (dc_pc (cs ! j))" if "j < length cs" "j \<noteq> i" "pc_entry (dc_pc (cs ! j)) = Some x" for j
    using call_okD(5)[OF ser_invD(1)[OF inv that(1)] that(3)] that(2) by auto
qed (simp_all add: i)

text \<open>Leaving: the last user of a retired entry removes it.\<close>

lemma ser_release:
  assumes inv: "ser_inv l cs" and i: "i < length cs" "dc_pc (cs ! i) = DReleasing x out" and p: "pc_entry p = None" "\<not> before_entry p"
  shows "ser_inv (release (op_agent (dc_op (cs ! i))) x l) (cs[i := (cs ! i)\<lparr>dc_pc := p\<rparr>])" (is "ser_inv (release ?a x l) ?cs")
proof -
  let ?l1 = "on_entry x (\<lambda>k. k\<lparr>ke_users := ke_users k - 1\<rparr>) l"
  have x: "x < length (lk_heap l)" using call_okD(1)[OF ser_invD(1)[OF inv i(1)], of x] i(2) by simp
  have owner: "lk_entries l b = Some x \<Longrightarrow> b = ?a" for b using call_okD(2)[OF ser_invD(1)[OF inv i(1)], of x] i(2) by simp
  have users: "users_of y ?cs = users_of y cs - (if y = x then 1 else 0)" for y
    using users_of_update[OF i(1), of y "(cs ! i)\<lparr>dc_pc := p\<rparr>"] i(2) p(1) by (simp split: if_splits)
  have pos: "0 < users_of x cs" by (rule users_of_pos[OF i(1)]) (simp add: i(2))
  have heap: "lk_heap (release ?a x l) = lk_heap ?l1" by (simp add: release_def Let_def)
  have entries: "lk_entries (release ?a x l) = (if ke_dead (lk_heap l ! x) \<and> ke_users (lk_heap l ! x) = 1 \<and> lk_entries l ?a = Some x
      then (lk_entries l)(?a := None) else lk_entries l)"
    using x by (simp add: release_def Let_def on_entry_nth)
  note lo = ser_invD(2)[OF inv]
  show ?thesis
  proof (rule ser_invI)
    show "locks_ok (release ?a x l)" using lo owner x unfolding locks_ok_def heap entries by (auto simp: on_entry_nth split: if_splits)
    show "listed_ok ?cs" by (rule listed_ok_update[OF ser_invD(3)[OF inv]]) (simp_all add: i p)
    show "counts_ok (release ?a x l) ?cs" using ser_invD(4)[OF inv] pos unfolding counts_ok_def heap by (auto simp: on_entry_nth users of_nat_diff)
    show "call_ok (release ?a x l) j (?cs ! j)" if "j < length ?cs" for j
    proof (cases "j = i")
      case True
      then show ?thesis using ser_invD(1)[OF inv i(1)] i p unfolding call_ok_def by simp
    next
      case False
      then have "call_ok l j (cs ! j)" using ser_invD(1)[OF inv] that by simp
      then show ?thesis using False that unfolding call_ok_def heap entries by (auto simp: on_entry_nth split: if_splits)
    qed
  qed
qed

text \<open>A snapshot is listed.\<close>

lemma ser_list:
  assumes inv: "ser_inv l cs" and i: "i < length cs" "dc_pc (cs ! i) = DHolding m x"
  shows "ser_inv l (cs[i := (cs ! i)\<lparr>dc_pc := DBuilding x todo snap names, dc_listed := Some (length cs)\<rparr>])" (is "ser_inv l ?cs")
proof (rule ser_invI)
  show "listed_ok ?cs"
    using ser_invD(3)[OF inv] i unfolding listed_ok_def by (auto simp: nth_list_update)
  show "counts_ok l ?cs" using ser_invD(4)[OF inv] i by (simp add: counts_ok_def users_of_same)
  show "call_ok l j (?cs ! j)" if "j < length ?cs" for j
    using ser_invD(1)[OF inv, of j] that i by (cases "j = i") (simp_all add: call_ok_def)
qed (rule ser_invD(2)[OF inv])

text \<open>A command goes out while its call holds the mutex: only a retired snapshot can be overtaken.\<close>

definition noted :: "nat \<Rightarrow> uuid \<Rightarrow> server_message \<Rightarrow> dispatch_state \<Rightarrow> dispatch_state" where
  "noted j a m c = (if op_agent (dc_op c) = a \<and> holds (dc_pc c) \<and> (case dc_listed c of None \<Rightarrow> False | Some n \<Rightarrow> n \<le> j) then c\<lparr>dc_missed := dc_missed c @ [m]\<rparr> else c)"

lemma noted_same [simp]: "dc_op (noted j a m c) = dc_op c" "dc_pc (noted j a m c) = dc_pc c" "dc_listed (noted j a m c) = dc_listed c" "dc_retired (noted j a m c) = dc_retired c"
  by (simp_all add: noted_def)

lemma overtaken_retired:
  assumes inv: "ser_inv l cs" and j: "j < length cs" "holds (dc_pc (cs ! j))"
    and i: "i < length cs" "holds (dc_pc (cs ! i))" "op_agent (dc_op (cs ! i)) = op_agent (dc_op (cs ! j))" "dc_listed (cs ! i) = Some n" "n \<le> j"
  shows "dc_retired (cs ! i)"
proof (rule ccontr)
  assume not: "\<not> dc_retired (cs ! i)"
  have entry: "\<exists>x. pc_entry p = Some x" if "holds p" for p using that by (cases p) simp_all
  obtain x y where x: "pc_entry (dc_pc (cs ! i)) = Some x" and y: "pc_entry (dc_pc (cs ! j)) = Some y" using entry i(2) j(2) by blast
  have n: "i < n" "\<not> dc_retired (cs ! j)" using ser_invD(3)[OF inv] i j x y not unfolding listed_ok_def by auto
  have "x = y" using call_okD(3)[OF ser_invD(1)[OF inv i(1)] x not] call_okD(3)[OF ser_invD(1)[OF inv j(1)] y n(2)] i(3) by simp
  then have "i = j" using call_okD(5)[OF ser_invD(1)[OF inv i(1)] x i(2)] call_okD(5)[OF ser_invD(1)[OF inv j(1)] y j(2)] by simp
  then show False using n(1) i(5) by simp
qed

lemma ser_send:
  assumes inv: "ser_inv l cs" and j: "j < length cs" "holds (dc_pc (cs ! j))"
  shows "ser_inv l (map (noted j (op_agent (dc_op (cs ! j))) m) cs)" (is "ser_inv l (map ?f cs)")
proof (rule ser_invI)
  show "listed_ok (map ?f cs)" by (rule listed_ok_transfer[OF ser_invD(3)[OF inv]]) auto
  show "counts_ok l (map ?f cs)" using ser_invD(4)[OF inv] by (simp add: counts_ok_def users_of_map)
  show "call_ok l i (map ?f cs ! i)" if "i < length (map ?f cs)" for i
  proof -
    have "dc_missed (?f (cs ! i)) \<noteq> [] \<Longrightarrow> dc_retired (cs ! i)"
      using overtaken_retired[OF inv j, of i] ser_invD(1)[OF inv, of i] that unfolding noted_def call_ok_def by (auto split: if_splits option.splits)
    then show ?thesis using ser_invD(1)[OF inv, of i] that unfolding call_ok_def by simp
  qed
qed (rule ser_invD(2)[OF inv])

text \<open>A call begins.\<close>

lemma ser_begin:
  assumes inv: "ser_inv l cs" and c: "dc_pc c = DStart" "dc_listed c = None" "\<not> dc_retired c" "dc_missed c = []"
  shows "ser_inv l (cs @ [c])"
proof (rule ser_invI)
  show "listed_ok (cs @ [c])" using ser_invD(3)[OF inv] c unfolding listed_ok_def by (auto simp: nth_append less_Suc_eq)
  show "counts_ok l (cs @ [c])" using ser_invD(4)[OF inv] c by (simp add: counts_ok_def users_of_def count_where_def)
  show "call_ok l i ((cs @ [c]) ! i)" if "i < length (cs @ [c])" for i
    using ser_invD(1)[OF inv, of i] that c by (cases "i = length cs") (simp_all add: nth_append call_ok_def)
qed (rule ser_invD(2)[OF inv])

text \<open>An agent's entry is retired.\<close>

definition retiring :: "uuid \<Rightarrow> dispatch_state \<Rightarrow> dispatch_state" where
  "retiring a c = (if op_agent (dc_op c) = a \<and> pc_entry (dc_pc c) \<noteq> None then c\<lparr>dc_retired := True\<rparr> else c)"

lemma retiring_same [simp]: "dc_op (retiring a c) = dc_op c" "dc_pc (retiring a c) = dc_pc c" "dc_listed (retiring a c) = dc_listed c" "dc_missed (retiring a c) = dc_missed c"
  "dc_retired (retiring a c) \<longleftrightarrow> dc_retired c \<or> op_agent (dc_op c) = a \<and> pc_entry (dc_pc c) \<noteq> None"
  by (auto simp: retiring_def)

lemma retire_idle: "lk_entries l a = None \<Longrightarrow> retire a l = l"
  by (simp add: retire_def)

lemma retire_known:
  assumes "lk_entries l a = Some x" "x < length (lk_heap l)"
  shows "lk_heap (retire a l) = lk_heap (on_entry x (\<lambda>k. k\<lparr>ke_dead := True\<rparr>) l)"
    and "lk_entries (retire a l) = (if ke_users (lk_heap l ! x) = 0 then (lk_entries l)(a := None) else lk_entries l)"
  using assms by (simp_all add: retire_def Let_def on_entry_nth)

lemma before_entry_None: "before_entry p \<Longrightarrow> pc_entry p = None"
  by (cases p) simp_all

lemma ser_retire:
  assumes inv: "ser_inv l cs"
  shows "ser_inv (retire a l) (map (retiring a) cs)"
proof -
  note lo = ser_invD(2)[OF inv]
  have listed: "listed_ok (map (retiring a) cs)" by (rule listed_ok_transfer[OF ser_invD(3)[OF inv]]) auto
  have calls: "call_ok l i (retiring a (cs ! i))" if "i < length cs" for i
  proof (cases "op_agent (dc_op (cs ! i)) = a \<and> pc_entry (dc_pc (cs ! i)) \<noteq> None")
    case True
    then show ?thesis using ser_invD(1)[OF inv that] before_entry_None unfolding call_ok_def by auto
  next
    case False
    then have "retiring a (cs ! i) = cs ! i" by (auto simp: retiring_def)
    then show ?thesis using ser_invD(1)[OF inv that] by simp
  qed
  show ?thesis
  proof (cases "lk_entries l a")
    case None
    show ?thesis unfolding retire_idle[OF None]
      by (rule ser_invI) (use calls lo listed ser_invD(4)[OF inv] in \<open>simp_all add: counts_ok_def users_of_map\<close>)
  next
    case (Some x)
    note known = retire_known[OF Some locks_okD(1)[OF lo Some]]
    show ?thesis
    proof (rule ser_invI)
      show "locks_ok (retire a l)" using lo Some unfolding locks_ok_def known by (auto simp: on_entry_nth split: if_splits)
      show "counts_ok (retire a l) (map (retiring a) cs)" using ser_invD(4)[OF inv] unfolding counts_ok_def known by (auto simp: users_of_map on_entry_nth)
      show "call_ok (retire a l) i (map (retiring a) cs ! i)" if "i < length (map (retiring a) cs)" for i
      proof (cases "pc_entry (dc_pc (cs ! i))")
        case None
        then show ?thesis using calls[of i] that unfolding call_ok_def by simp
      next
        case entry: (Some y)
        let ?c = "retiring a (cs ! i)"
        have c: "call_ok l i ?c" and y: "pc_entry (dc_pc ?c) = Some y" using calls that entry by simp_all
        have other: "op_agent (dc_op ?c) \<noteq> a" "y \<noteq> x" if "\<not> dc_retired ?c"
          using that entry call_okD(3)[OF c y that] locks_okD(2)[OF lo Some] by auto
        have "y < length (lk_heap l)" by (rule call_okD(1)[OF c y])
        then show ?thesis using call_okD(2-5)[OF c y] c other that unfolding call_ok_def known by (simp add: on_entry_nth entry) blast
      qed
    qed (rule listed)
  qed
qed

section \<open>The system\<close>

definition dp_inv :: "dispatcher \<Rightarrow> bool" where
  "dp_inv s \<longleftrightarrow> ser_inv (dp_locks s) (dp_calls s)"

lemma goto_pc_calls: "dp_calls (goto_pc i p s) = (dp_calls s)[i := (dp_calls s ! i)\<lparr>dc_pc := p\<rparr>]" "dp_locks (goto_pc i p s) = dp_locks s"
  by (simp_all add: goto_pc_def call_at_def)

lemma inv_goto:
  assumes "dp_inv s" "i < length (dp_calls s)" "pc_entry p = pc_entry (dc_pc (dp_calls s ! i))" "holds p = holds (dc_pc (dp_calls s ! i))"
    "before_entry p \<Longrightarrow> before_entry (dc_pc (dp_calls s ! i))" "dp_calls s' = dp_calls s" "dp_locks s' = dp_locks s"
  shows "dp_inv (goto_pc i p s')"
  using ser_goto[of "dp_locks s" "dp_calls s" i p] assms by (simp add: dp_inv_def goto_pc_calls)

lemma send_call_effect:
  assumes "send_call j m s = (ok, s')"
  shows "dp_locks s' = dp_locks s" "dp_calls s' = (if ok then map (noted j (op_agent (dc_op (dp_calls s ! j))) m) (dp_calls s) else dp_calls s)"
  using assms by (auto simp: send_call_def note_missed_def noted_def[abs_def] call_at_def Let_def split: prod.splits if_splits)

lemma inv_send:
  assumes "dp_inv s" "j < length (dp_calls s)" "holds (dc_pc (dp_calls s ! j))" "pc_entry (dc_pc (dp_calls s ! j)) = Some x" "send_call j m s = (ok, s')"
  shows "dp_inv (goto_pc j (DSent x out) s')"
proof -
  have "dp_inv s'" using assms send_call_effect[OF assms(5)] ser_send[of "dp_locks s" "dp_calls s" j m] by (simp add: dp_inv_def)
  then show ?thesis by (rule inv_goto) (use assms send_call_effect[OF assms(5)] in auto)
qed

lemma call_step_keeps:
  assumes inv: "dp_inv s" and i: "i < length (dp_calls s)" and s': "call_step e ok ans covered i s = Some s'"
  shows "dp_inv s'"
proof -
  let ?c = "dp_calls s ! i"
  note goto = inv_goto[OF inv i]
  show ?thesis
  proof (cases "dc_pc ?c")
    case DStart
    then show ?thesis using s'
      by (auto simp: call_step_def call_at_def start_step_def Let_def split: dispatch_op.splits dispatch_call.splits if_splits intro!: goto)
  next
    case DLock
    then show ?thesis using s' by (auto simp: call_step_def call_at_def nx_step_def Let_def split: dispatch_op.splits dispatch_call.splits if_splits intro!: goto)
  next
    case DLookup
    then show ?thesis using s'
      by (auto simp: call_step_def call_at_def lookup_step_def Let_def split: dispatch_op.splits dispatch_call.splits option.splits intro!: goto)
  next
    case (DReady m)
    obtain x l where a: "acquire (op_agent (dc_op ?c)) (dp_locks s) = (x, l)" by fastforce
    have "ser_inv l ((dp_calls s)[i := ?c\<lparr>dc_pc := DWaiting m x\<rparr>])" by (rule ser_acquire[OF inv[unfolded dp_inv_def] i DReady a])
    then show ?thesis using s' DReady a by (auto simp: call_step_def call_at_def acquire_step_def dp_inv_def goto_pc_calls Let_def)
  next
    case (DWaiting m x)
    then show ?thesis using s' ser_lock[OF inv[unfolded dp_inv_def] i DWaiting]
      by (auto simp: call_step_def call_at_def lock_step_def dp_inv_def goto_pc_calls Let_def split: if_splits)
  next
    case (DHolding m x)
    show ?thesis
    proof (cases m)
      case None
      have "dp_inv (goto_pc i (DSent x OutError) s)" by (rule goto) (simp_all add: DHolding)
      then show ?thesis using s' DHolding None i ser_list[OF inv[unfolded dp_inv_def] i DHolding]
        by (auto simp: call_step_def call_at_def hold_step_def dp_inv_def goto_pc_calls Let_def split: if_splits)
    next
      case (Some msg)
      obtain sent s1 where send: "send_call i msg s = (sent, s1)" by fastforce
      have "dp_inv (goto_pc i (DSent x out) s1)" for out by (rule inv_send[OF inv i _ _ send]) (simp_all add: DHolding)
      then show ?thesis using s' DHolding Some send by (auto simp: call_step_def call_at_def hold_step_def Let_def)
    qed
  next
    case (DBuilding x todo snap names)
    obtain sent s1 where send: "send_call i (MsgRulesSync snap) s = (sent, s1)" by fastforce
    have 1: "dp_inv (goto_pc i (DSent x out) s1)" for out by (rule inv_send[OF inv i _ _ send]) (simp_all add: DBuilding)
    have 2: "dp_inv (goto_pc i p s)" if "pc_entry p = Some x" "holds p" "\<not> before_entry p" for p by (rule goto) (simp_all add: DBuilding that)
    show ?thesis using s' DBuilding send 1 2
      by (auto simp: call_step_def call_at_def build_step_def Let_def split: list.splits option.splits if_splits)
  next
    case (DSent x out)
    then show ?thesis using s' ser_unlock[OF inv[unfolded dp_inv_def] i DSent]
      by (auto simp: call_step_def call_at_def unlock_entry_def dp_inv_def goto_pc_calls Let_def)
  next
    case (DReleasing x out)
    then show ?thesis using s' ser_release[OF inv[unfolded dp_inv_def] i DReleasing]
      by (auto simp: call_step_def call_at_def release_step_def dp_inv_def goto_pc_calls Let_def split: dispatch_op.splits dispatch_call.splits)
  next
    case (DAfter out)
    then show ?thesis using s'
      by (auto simp: call_step_def call_at_def after_step_def Let_def split: dispatch_op.splits dispatch_call.splits if_splits intro!: goto)
  next
    case DPush
    then show ?thesis using s' by (auto simp: call_step_def call_at_def push_step_def Let_def split: option.splits intro!: goto)
  next
    case (DUnlock out)
    then show ?thesis using s' by (auto simp: call_step_def call_at_def Let_def split: dispatch_op.splits dispatch_call.splits if_splits intro!: goto)
  next
    case (DDone out)
    then show ?thesis using s' by (simp add: call_step_def call_at_def Let_def)
  qed
qed

lemma dp_act_keeps:
  assumes inv: "dp_inv s" and s': "dp_act e x s = Some s'"
  shows "dp_inv s'"
proof (cases x)
  case (Begin op)
  then show ?thesis using s' ser_begin[OF inv[unfolded dp_inv_def]] by (auto simp: dp_inv_def begin_call_def)
next
  case (StepCall i ok ans covered)
  then show ?thesis using s' call_step_keeps[OF inv] by (auto split: if_splits)
next
  case (Release k)
  have "ReleaseAgent a s = s\<lparr>dp_locks := retire a (dp_locks s), dp_calls := map (retiring a) (dp_calls s)\<rparr>" for a
    by (simp add: ReleaseAgent_def retiring_def[abs_def])
  then show ?thesis using s' Release ser_retire[OF inv[unfolded dp_inv_def]] by (auto simp: dp_inv_def split: if_splits cleanup.splits)
qed (use s' inv in \<open>auto simp: dp_inv_def split: if_splits dispatch_pc.splits\<close>)

interpretation dispatch_system: invariant_system dp_init "dp_step e" dp_inv for e
proof
  show "dp_inv s" if "dp_init s" for s
    using that by (simp add: dp_init_def dp_inv_def ser_inv_def locks_ok_def listed_ok_def counts_ok_def)
  show "dp_inv s'" if "dp_inv s" "dp_step e s s'" for s s'
    using that(2) dp_act_keeps[OF that(1)] by (auto elim: dp_step.cases)
qed

section \<open>Properties\<close>

text \<open>
  C12: Rule traffic to an agent is serialised.  Whatever the interleaving of pushes, cancellations, snapshots, connections and
  faults, two calls never hold the entry of one agent together unless it was retired under one of them; no command of a call that began after a
  snapshot was listed goes out before that snapshot unless the entry was retired meanwhile; and a retired entry that is still
  known has a user left, who removes it.
\<close>

theorem rule_traffic_serialised:
  assumes "reach dp_init (dp_step e) s"
  shows "(\<forall>i j. i < length (dp_calls s) \<longrightarrow> j < length (dp_calls s) \<longrightarrow> op_agent (dc_op (dp_calls s ! i)) = op_agent (dc_op (dp_calls s ! j)) \<longrightarrow>
        holds (dc_pc (dp_calls s ! i)) \<longrightarrow> holds (dc_pc (dp_calls s ! j)) \<longrightarrow> \<not> dc_retired (dp_calls s ! i) \<longrightarrow> \<not> dc_retired (dp_calls s ! j) \<longrightarrow> i = j)
    \<and> (\<forall>c\<in>set (dp_calls s). dc_missed c \<noteq> [] \<longrightarrow> dc_retired c)
    \<and> (\<forall>a x. lk_entries (dp_locks s) a = Some x \<longrightarrow> ke_dead (lk_heap (dp_locks s) ! x) \<longrightarrow>
         (\<exists>c\<in>set (dp_calls s). op_agent (dc_op c) = a \<and> pc_entry (dc_pc c) = Some x))"
proof -
  let ?l = "dp_locks s" and ?cs = "dp_calls s"
  have inv: "ser_inv ?l ?cs" using dispatch_system.reach_inv[OF assms] by (simp add: dp_inv_def)
  have entry: "\<exists>x. pc_entry p = Some x" if "holds p" for p using that by (cases p) simp_all
  have "i = j" if ij: "i < length ?cs" "j < length ?cs" "op_agent (dc_op (?cs ! i)) = op_agent (dc_op (?cs ! j))" "holds (dc_pc (?cs ! i))" "holds (dc_pc (?cs ! j))"
    "\<not> dc_retired (?cs ! i)" "\<not> dc_retired (?cs ! j)" for i j
  proof -
    obtain x y where x: "pc_entry (dc_pc (?cs ! i)) = Some x" and y: "pc_entry (dc_pc (?cs ! j)) = Some y" using entry ij(4,5) by blast
    have "x = y" using call_okD(3)[OF ser_invD(1)[OF inv ij(1)] x ij(6)] call_okD(3)[OF ser_invD(1)[OF inv ij(2)] y ij(7)] ij(3) by simp
    then show "i = j" using call_okD(5)[OF ser_invD(1)[OF inv ij(1)] x ij(4)] call_okD(5)[OF ser_invD(1)[OF inv ij(2)] y ij(5)] by simp
  qed
  moreover have "dc_retired c" if "c \<in> set ?cs" "dc_missed c \<noteq> []" for c
    using that ser_invD(1)[OF inv] unfolding call_ok_def by (auto simp: in_set_conv_nth)
  moreover have "\<exists>c\<in>set ?cs. op_agent (dc_op c) = a \<and> pc_entry (dc_pc c) = Some x" if x: "lk_entries ?l a = Some x" "ke_dead (lk_heap ?l ! x)" for a x
  proof -
    have "users_of x ?cs \<noteq> 0" using locks_okD(1,3)[OF ser_invD(2)[OF inv] x(1)] x(2) ser_invD(4)[OF inv] unfolding counts_ok_def by auto
    then obtain i where "i < length ?cs" "pc_entry (dc_pc (?cs ! i)) = Some x" by (auto simp: users_of_def count_where_def filter_empty_conv in_set_conv_nth)
    then show ?thesis using call_okD(2)[OF ser_invD(1)[OF inv], of i x a] x(1) nth_mem by fastforce
  qed
  ultimately show ?thesis by blast
qed

section \<open>Samples\<close>

fun dp_run :: "dispatch_env \<Rightarrow> dp_action list \<Rightarrow> dispatcher \<Rightarrow> dispatcher option" where
  "dp_run e [] s = Some s"
| "dp_run e (x # xs) s = (case dp_act e x s of None \<Rightarrow> None | Some s' \<Rightarrow> dp_run e xs s')"

lemma dp_run_reach: "reach dp_init (dp_step e) s \<Longrightarrow> dp_run e xs s = Some s' \<Longrightarrow> reach dp_init (dp_step e) s'"
proof (induction xs arbitrary: s)
  case (Cons x xs)
  then obtain s1 where "dp_act e x s = Some s1" "dp_run e xs s1 = Some s'" by (auto split: option.splits)
  then show ?case using Cons.IH[OF reach.intros(2)[OF Cons.prems(1) dp_step.intros]] by blast
qed simp

definition sample_dispatch_env :: dispatch_env where
  "sample_dispatch_env = \<lparr>de_string = (\<lambda>i. [char_of i]), de_size = (\<lambda>m. 100), de_pusher = True\<rparr>"

definition sample_dispatcher :: dispatcher where
  "sample_dispatcher = \<lparr>dp_server = sample_server, dp_db = rs_db sample_rules_session, dp_locks = \<lparr>lk_entries = Map.empty, lk_heap = []\<rparr>, dp_nx = {}, dp_calls = []\<rparr>"

definition connect_acts :: "nat \<Rightarrow> dp_action list" where
  "connect_acts i = map ServerAct [Open 7 Answered, Admit 7, Presence i True, Gate i Answered, Credentials i None]"

definition call_steps :: "nat \<Rightarrow> nat \<Rightarrow> dp_action list" where
  "call_steps i n = replicate n (StepCall i True RedisOK None)"

text \<open>Agent 7 connects; while its snapshot is being built rule 40 is pushed, and waits for the snapshot.\<close>

definition sample_dispatch :: "dp_action list" where
  "sample_dispatch = connect_acts 0 @ [Begin (SyncCall 7)] @ call_steps 0 4 @ [Begin (Call (PushCall (sample_coll_rule 40 7)))] @ call_steps 1 4
     @ call_steps 0 4 @ [Synced 0 0] @ call_steps 1 2"

definition sample_dispatched :: dispatcher where
  "sample_dispatched = the (dp_run sample_dispatch_env sample_dispatch sample_dispatcher)"

lemma sample_dispatcher_reach: "reach dp_init (dp_step e) sample_dispatcher"
  by (rule reach.intros) (simp add: dp_init_def sample_dispatcher_def sv_init_def sample_server_def)

lemma sample_dispatch_reach: "reach dp_init (dp_step sample_dispatch_env) sample_dispatched"
proof -
  have "dp_run sample_dispatch_env sample_dispatch sample_dispatcher \<noteq> None" by code_simp
  then have "dp_run sample_dispatch_env sample_dispatch sample_dispatcher = Some sample_dispatched" by (auto simp: sample_dispatched_def)
  then show ?thesis by (rule dp_run_reach[OF sample_dispatcher_reach])
qed

theorem rule_traffic_serialised_witness:
  "(let r = ruleToProto sample_dispatch_env (sample_coll_rule 40 7) ''data''
    in cn_enqueued (conn_at (sv_reg (dp_server sample_dispatched)) 0) = [MsgRulesSync [r], MsgPushRule r])
   \<and> dc_listed (dp_calls sample_dispatched ! 0) = Some 1 \<and> dc_missed (dp_calls sample_dispatched ! 0) = []"
proof -
  have "let r = ruleToProto sample_dispatch_env (sample_coll_rule 40 7) ''data''
    in cn_enqueued (conn_at (sv_reg (dp_server sample_dispatched)) 0) = [MsgRulesSync [r], MsgPushRule r]" by code_simp
  moreover have "length (dp_calls sample_dispatched) = 2" "\<not> dc_retired (dp_calls sample_dispatched ! 0)" "dc_listed (dp_calls sample_dispatched ! 0) = Some 1" by code_simp+
  moreover have "dp_calls sample_dispatched ! 0 \<in> set (dp_calls sample_dispatched)" using \<open>length (dp_calls sample_dispatched) = 2\<close> by (intro nth_mem) simp
  ultimately show ?thesis using rule_traffic_serialised[OF sample_dispatch_reach] by blast
qed

text \<open>
  The handler of a lost connection retires the agent's entry only after it unregistered.  When the agent is back by then and its
  snapshot has been listed under that entry, a rule created next takes a fresh entry, is pushed first, and the snapshot without it stops it.
\<close>

definition overtaking :: "dp_action list" where
  "overtaking = connect_acts 0 @ [Begin (SyncCall 7)] @ call_steps 0 8 @ [Synced 0 0, ServerAct (Marker 0 True), ServerAct (RecvError 0), ServerAct (Leave 0)]
     @ connect_acts 1 @ [Begin (SyncCall 7)] @ call_steps 1 4
     @ [Release 0, ChangeRules (rd_rules_update (\<lambda>rs. rs @ [sample_coll_rule 42 7]) (rs_db sample_rules_session)), Begin (Call (PushCall (sample_coll_rule 42 7)))]
     @ call_steps 2 6 @ call_steps 1 2"

lemma retired_snapshot_overtaken:
  "case dp_run sample_dispatch_env overtaking sample_dispatcher of None \<Rightarrow> False
   | Some s \<Rightarrow> cn_enqueued (conn_at (sv_reg (dp_server s)) 1)
       = [MsgPushRule (ruleToProto sample_dispatch_env (sample_coll_rule 42 7) ''data''), MsgRulesSync [ruleToProto sample_dispatch_env (sample_coll_rule 40 7) ''data'']]"
  by code_simp

text \<open>While a push of a rule holds its dispatch lock, the push of a newer version of the rule ends without an error and sends nothing.\<close>

lemma held_lock_drops_push:
  "case dp_run sample_dispatch_env (connect_acts 0 @ [Begin (Call (PushCall (sample_coll_rule 40 7)))] @ call_steps 0 2
       @ [Begin (Call (PushCall ((sample_coll_rule 40 7)\<lparr>col_name := ''new''\<rparr>)))] @ call_steps 1 2 @ call_steps 0 4) sample_dispatcher of None \<Rightarrow> False
   | Some s \<Rightarrow> (case dc_pc (dp_calls s ! 1) of DDone out \<Rightarrow> out = OutOk | _ \<Rightarrow> False)
       \<and> cn_enqueued (conn_at (sv_reg (dp_server s)) 0) = [MsgPushRule (ruleToProto sample_dispatch_env (sample_coll_rule 40 7) ''data'')]"
  by code_simp

end
