(* ===== verification/Budget.thy ===== *)
theory Budget
  imports Dispatch_Laws "HOL-Library.Multiset"
begin

text \<open>
  The byte budget of a snapshot: what the creation handler estimates (api/handler/agents.go) against what the dispatcher measures
  before it sends (agent/dispatch.go).
\<close>

section \<open>Stored bytes\<close>

definition rules_of :: "uuid \<Rightarrow> rules_db \<Rightarrow> coll_rule list" where
  "rules_of a d = select_where (\<lambda>r. col_agent r = a) (rd_rules d)"

definition stored_bytes :: "uuid \<Rightarrow> rules_db \<Rightarrow> nat" where
  "stored_bytes a d = sum_list (map estimatedRuleBytesFromDB (rules_of a d))"

text \<open>An absent metadata document is stored as two bytes the estimate of the request does not count.\<close>

definition fits :: "uuid \<Rightarrow> rules_db \<Rightarrow> bool" where
  "fits a d \<longleftrightarrow> int (stored_bytes a d) \<le> MaxRulesSnapshotBytes + 2"

fun full_edit :: "rule_request \<Rightarrow> bool" where
  "full_edit (ReqUpdate rid (Some q)) \<longleftrightarrow> uq_name q \<noteq> None"
| "full_edit req \<longleftrightarrow> False"

lemmas stored_defs = stored_bytes_def rules_of_def select_where_def

lemma sum_list_order_by: "sum_list (map f (order_by k xs)) = (sum_list (map f xs) :: nat)"
proof -
  have "mset (map f (order_by k xs)) = mset (map f xs)" by (simp add: order_by_def)
  then show ?thesis by (metis sum_mset_sum_list)
qed

lemma stored_delete: "stored_bytes a (snd (DeleteCollectionRule i b org d)) \<le> stored_bytes a d"
proof -
  have "sum_list (map estimatedRuleBytesFromDB (filter (\<lambda>r. col_agent r = a) (filter P t))) \<le> sum_list (map estimatedRuleBytesFromDB (filter (\<lambda>r. col_agent r = a) t))" for P t
    by (induction t) auto
  then show ?thesis by (simp add: stored_defs DeleteCollectionRule_def delete_where_def)
qed

lemma stored_status: "stored_bytes a (snd (UpdateCollectionRuleStatus i st b org d)) = stored_bytes a d"
proof -
  have "sum_list (map estimatedRuleBytesFromDB (filter (\<lambda>r. col_agent r = a) (map (\<lambda>r. if in_scope i b org r then r\<lparr>col_status := st\<rparr> else r) t)))
      = sum_list (map estimatedRuleBytesFromDB (filter (\<lambda>r. col_agent r = a) t))" for t
    by (induction t) (auto simp: estimatedRuleBytesFromDB_def in_scope_def)
  then show ?thesis by (simp add: stored_defs UpdateCollectionRuleStatus_def update_rule_def update_where_def Let_def)
qed

lemma stored_create:
  "stored_bytes a (snd (CreateCollectionRule (requested_rule i org a b now q) d)) \<le> stored_bytes a d + estimatedRuleBytes q + 2"
  by (auto simp: CreateCollectionRule_def stored_defs requested_rule_def estimatedRuleBytesFromDB_def estimatedRuleBytes_def metadata_default_def split: option.splits)

section \<open>Requests\<close>

text \<open>With nobody else writing, a statement leaves the database or runs once.\<close>

lemma rule_sql_alone:
  assumes "\<And>k d. rw_meanwhile e k d = d" "rule_sql e st s = (r, s')"
  shows "rs_db s' = rs_db s \<or> rs_db s' = snd (st (rs_db s))"
  using rule_sql_ran[OF assms(2)] assms(1) by simp

lemma read_alone:
  assumes "\<And>k d. rw_meanwhile e k d = d" "rule_sql e st s = (r, s')" "\<And>d. snd (st d) = d"
  shows "rs_db s' = rs_db s"
  using rule_sql_alone[OF assms(1,2)] assms(3) by simp

lemma create_fits:
  assumes alone: "\<And>k d. rw_meanwhile e k d = d" and a: "rw_parse_uuid e aid = Some a" and fit: "fits a (rs_db s)"
    and r: "CreateRule e aid claims body s = (reply, calls, s')"
  shows "fits a (rs_db s')"
proof -
  obtain x s1 where 1: "rule_sql e (ListCollectionRulesByAgent a) s = (x, s1)" by fastforce
  have d1: "rs_db s1 = rs_db s" by (rule read_alone[OF alone 1]) (simp add: rule_reads_only)
  have "fits a (rs_db s')" if x: "x = Inr rules" and c: "create_checked e a org b q rules s1 = (reply, calls, s')" for rules org b q
  proof -
    have rules: "sum_list (map estimatedRuleBytesFromDB rules) = stored_bytes a (rs_db s)"
      using rule_sql_answered[OF 1[unfolded x]] alone
      by (auto simp: ListCollectionRulesByAgent_def stored_bytes_def rules_of_def sum_list_order_by)
    let ?new = "requested_rule (rw_new_id e (rs_stmt s1)) org a b (rw_now e (rs_stmt s1)) q"
    obtain y s2 where 2: "rule_sql e (CreateCollectionRule ?new) s1 = (y, s2)" by fastforce
    have "s' = s1 \<or> s' = s2 \<and> int (estimatedRuleBytes q + stored_bytes a (rs_db s)) \<le> MaxRulesSnapshotBytes"
      using c 2 rules by (auto simp: create_checked_def split: if_splits sum.splits)
    then show ?thesis
      using rule_sql_alone[OF alone 2] d1 fit stored_create[of a "rw_new_id e (rs_stmt s1)" org b "rw_now e (rs_stmt s1)" q "rs_db s"]
      unfolding fits_def by auto
  qed
  then show ?thesis using r a 1 d1 fit
    by (cases x) (auto simp: CreateRule_def split: option.splits)
qed

lemma serve_fits:
  assumes alone: "\<And>k d. rw_meanwhile e k d = d" and a: "rw_parse_uuid e aid = Some a" and fit: "fits a (rs_db s)"
    and edit: "\<not> full_edit req" and r: "serve e aid claims req s = (reply, calls, s')"
  shows "fits a (rs_db s')"
proof (cases req)
  case (ReqCreate body)
  then show ?thesis using create_fits[OF alone a fit] r by (simp add: serve_def)
next
  case (ReqUpdate rid body)
  have "fits a (rs_db s2)" if 1: "rule_sql e (UpdateCollectionRuleStatus i st b org) s = (x, s2)" for i st b org x s2
    using rule_sql_alone[OF alone 1] fit stored_status[of a i st b org "rs_db s"] by (auto simp: fits_def)
  then show ?thesis using ReqUpdate r edit fit
    by (auto simp: serve_def UpdateRule_def updateRuleStatus_def updated_def split: option.splits sum.splits prod.splits)
next
  case (ReqDelete rid)
  have read: "rs_db s1 = rs_db s" if "rule_sql e (GetCollectionRuleByID i) s = (x, s1)" for i x s1
    by (rule read_alone[OF alone that]) (simp add: rule_reads_only)
  have del: "fits a (rs_db s2)" if "rule_sql e (DeleteCollectionRule i b org) s1 = (x, s2)" "rs_db s1 = rs_db s" for i b org x s1 s2
    using rule_sql_alone[OF alone that(1)] that(2) fit stored_delete[of a i b org "rs_db s"] by (auto simp: fits_def)
  show ?thesis using ReqDelete r fit
    by (auto simp: serve_def DeleteRule_def split: option.splits sum.splits prod.splits if_splits dest: read del[OF _ read])
next
  case ReqList
  have read: "rs_db s1 = rs_db s" if "rule_sql e (ListCollectionRulesByAgent b) s = (x, s1)" for b x s1
    by (rule read_alone[OF alone that]) (simp add: rule_reads_only)
  show ?thesis using ReqList r fit by (auto simp: serve_def ListRules_def split: option.splits sum.splits prod.splits dest: read)
qed

section \<open>The snapshot\<close>

text \<open>
  The protobuf encoding of a string field takes its bytes, a tag and at most five bytes of length; a flag takes two bytes.  A rule is a
  nested message, and so is the snapshot.
\<close>

definition rule_wire_bytes :: "collection_rule \<Rightarrow> nat" where
  "rule_wire_bytes r = 66 + length (RuleID r) + length (Name r) + length (Mode r) + length (BasePath r) + length (PathPattern r)
     + length (UploadBucket r) + length (DestPathTemplate r) + length (CronExpr r) + length (AppendMode r)"

definition wire_format :: "dispatch_env \<Rightarrow> bool" where
  "wire_format e \<longleftrightarrow> (\<forall>rs. de_size e (MsgRulesSync rs) \<le> 7 + int (sum_list (map rule_wire_bytes rs))) \<and> (\<forall>i. length (de_string e i) = 36)"

text \<open>Limits of the columns in the schema: \<^verbatim>\<open>VARCHAR(32)\<close> for the append mode, an enumeration for the mode.\<close>

definition columns_ok :: "rules_db \<Rightarrow> bool" where
  "columns_ok d \<longleftrightarrow> (\<forall>r\<in>set (rd_rules d). length (col_append r) \<le> 32 \<and> length (col_mode r) \<le> 9)"

definition snapshot_of :: "dispatch_env \<Rightarrow> (uuid \<Rightarrow> string) \<Rightarrow> uuid \<Rightarrow> rules_db \<Rightarrow> collection_rule list" where
  "snapshot_of e names a d = map (\<lambda>r. ruleToProto e r (names (col_bucket r))) (order_by (\<lambda>r. - col_created r) (rules_of a d))"

lemma rule_bytes:
  assumes "wire_format e" "length n \<le> 63" "length (col_append r) \<le> 32" "length (col_mode r) \<le> 9"
  shows "rule_wire_bytes (ruleToProto e r n) + 306 \<le> estimatedRuleBytesFromDB r"
  using assms by (cases "col_cron r") (auto simp: wire_format_def rule_wire_bytes_def ruleToProto_def estimatedRuleBytesFromDB_def)

lemma snapshot_bytes:
  assumes e: "wire_format e" and n: "\<And>b. length (names b) \<le> 63" and d: "columns_ok d" and fit: "fits a d"
  shows "de_size e (MsgRulesSync (snapshot_of e names a d)) \<le> MaxRulesSnapshotBytes"
proof -
  let ?t = "rules_of a d" and ?f = "\<lambda>r. rule_wire_bytes (ruleToProto e r (names (col_bucket r)))"
  have row: "?f r + 306 \<le> estimatedRuleBytesFromDB r" if "r \<in> set ?t" for r
    using that d rule_bytes[OF e n] by (auto simp: rules_of_def columns_ok_def sql_simps)
  have "sum_list (map ?f ts) + 306 * length ts \<le> sum_list (map estimatedRuleBytesFromDB ts)" if "set ts \<subseteq> set ?t" for ts
    using that by (induction ts) (use row in force)+
  then have sum: "sum_list (map ?f ?t) + 306 * length ?t \<le> stored_bytes a d" by (simp add: stored_bytes_def)
  have "de_size e (MsgRulesSync (snapshot_of e names a d)) \<le> 7 + int (sum_list (map rule_wire_bytes (snapshot_of e names a d)))"
    using e unfolding wire_format_def by blast
  also have "\<dots> = 7 + int (sum_list (map ?f ?t))" by (simp add: snapshot_of_def comp_def sum_list_order_by)
  also have "\<dots> \<le> MaxRulesSnapshotBytes"
    using sum fit by (cases ?t) (auto simp: fits_def MaxRulesSnapshotBytes_def)
  finally show ?thesis .
qed


section \<open>Samples\<close>

definition wire_env :: dispatch_env where
  "wire_env = \<lparr>de_string = (\<lambda>i. replicate 36 (CHR ''0'')),
     de_size = (\<lambda>m. case m of MsgRulesSync rs \<Rightarrow> 7 + int (sum_list (map rule_wire_bytes rs)) | _ \<Rightarrow> 0), de_pusher = True\<rparr>"

definition created_db :: "rules_db" where
  "created_db = (rs_db sample_rules_session)\<lparr>rd_rules := rd_rules (rs_db sample_rules_session) @ [(sample_coll_rule 101 7)\<lparr>col_created := 1\<rparr>]\<rparr>"


end
