(* ===== verification/Ingest.thy ===== *)
theory Ingest
  imports Index "HOL-Library.AList"
begin

text \<open>
  The storage webhook (controlplane/internal/api/handler/events.go and webhook_policy.go): notifications of the object store are
  decoded, applied to the index, counted when they fail, and dead-lettered past the retry cap.
\<close>

section \<open>Strings\<close>

text \<open>\<^verbatim>\<open>strings.Fields\<close>: the maximal runs without white space.\<close>

fun Fields_from :: "string \<Rightarrow> string \<Rightarrow> string list" where
  "Fields_from w [] = (if w = [] then [] else [rev w])"
| "Fields_from w (c # cs) = (if is_space c then (if w = [] then Fields_from [] cs else rev w # Fields_from [] cs) else Fields_from (c # w) cs)"

definition Fields :: "string \<Rightarrow> string list" where
  "Fields x = Fields_from [] x"

definition unhex :: "char \<Rightarrow> nat option" where
  "unhex c = (let n = of_char c :: nat in
     if 48 \<le> n \<and> n \<le> 57 then Some (n - 48) else if 97 \<le> n \<and> n \<le> 102 then Some (n - 87) else if 65 \<le> n \<and> n \<le> 70 then Some (n - 55) else None)"

text \<open>\<^verbatim>\<open>url.QueryUnescape\<close>.\<close>

fun QueryUnescape :: "string \<Rightarrow> string option" where
  "QueryUnescape [] = Some []"
| "QueryUnescape (c # cs) =
     (if c = CHR ''%'' then
        (case cs of
           h # l # rest \<Rightarrow>
             (case (unhex h, unhex l) of (Some x, Some y) \<Rightarrow> map_option (\<lambda>r. char_of (16 * x + y) # r) (QueryUnescape rest) | _ \<Rightarrow> None)
         | _ \<Rightarrow> None)
      else map_option (\<lambda>r. (if c = CHR ''+'' then CHR '' '' else c) # r) (QueryUnescape cs))"

section \<open>Notifications\<close>

record event_record =
  er_time :: int
  er_name :: string
  er_bucket :: string
  er_sequencer :: string
  er_key :: string
  er_size :: int
  er_etag :: string

record minio_event =
  me_name :: string
  me_key :: string
  me_records :: "event_record list"

definition SourceMinioEvent :: string where
  "SourceMinioEvent = ''minio_event''"

definition decodeObjectKey :: "string \<Rightarrow> string \<times> bool" where
  "decodeObjectKey raw = (case QueryUnescape raw of None \<Rightarrow> (raw, False) | Some k \<Rightarrow> (k, True))"

text \<open>The event of a record and whether its type is handled; nothing when the key does not decode.\<close>

definition translateRecord :: "event_record \<Rightarrow> (storage_event \<times> bool) option" where
  "translateRecord r =
     (case decodeObjectKey (er_key r) of
        (key, False) \<Rightarrow> None
      | (key, True) \<Rightarrow>
          (let ev = \<lambda>kind. \<lparr>ev_kind = kind, ev_bucket = er_bucket r, ev_key = key, ev_size = er_size r, ev_etag = er_etag r, ev_observed_at = er_time r,
                 ev_seq = er_sequencer r, ev_source = SourceMinioEvent\<rparr>
           in Some (if HasPrefix (er_name r) ''s3:ObjectRemoved:'' then (ev KindObjectRemoved, True)
                    else if HasPrefix (er_name r) ''s3:ObjectCreated:'' then (ev KindObjectCreated, True)
                    else (ev (KindOther 0), False))))"

section \<open>Counters and dead letters\<close>

datatype failure_cause = BadKey | NotApplied sink_error | NotParsed | TooLarge

record dead_letter =
  dl_dedup :: string
  dl_event :: string
  dl_bucket :: string
  dl_key :: string
  dl_size :: int
  dl_etag :: "string option"
  dl_observed :: "int option"
  dl_seq :: "string option"
  dl_fail_count :: int
  dl_error :: failure_cause
  dl_active :: bool
  dl_raw :: "string option"
  dl_truncated :: bool

text \<open>\<open>wh_sink\<close>, \<open>wh_fails\<close>, \<open>wh_dead\<close>: whether an index sink, a counter store and a dead-letter sink are wired.\<close>

record webhook_handler =
  wh_sink :: bool
  wh_secret :: string
  wh_fails :: bool
  wh_dead :: bool
  wh_failLimit :: int
  wh_parseCap :: nat

text \<open>
  The outside: the indexer's, faults of the statements on the two tables below by number, whether the cache answers, the time scale's zero,
  SHA-256 in hex, \<^verbatim>\<open>json.Unmarshal\<close> and which texts the database takes (valid in its encoding).
\<close>

record ingest_env =
  ie_cp :: cp_env
  ie_fault :: "nat \<Rightarrow> db_fault option"
  ie_cache :: "nat \<Rightarrow> bool"
  ie_zero :: int
  ie_hash :: "string \<Rightarrow> string"
  ie_unmarshal :: "string \<Rightarrow> minio_event option"
  ie_text :: "string \<Rightarrow> bool"

text \<open>\<^verbatim>\<open>webhook_fail_counters\<close> with the time of the last increment, \<^verbatim>\<open>webhook_dead_letters\<close> and the counters cached in Redis.\<close>

record ingest =
  ig_index :: indexer
  ig_counters :: "(string \<times> int \<times> int) list"
  ig_dead :: "dead_letter list"
  ig_cached :: "string \<rightharpoonup> int"
  ig_stmt :: nat

definition hook_sql :: "ingest_env \<Rightarrow> (ingest \<Rightarrow> (db_error + 'a) \<times> ingest) \<Rightarrow> ingest \<Rightarrow> (db_error + 'a) \<times> ingest" where
  "hook_sql e st s =
     (let k = ig_stmt s; s1 = s\<lparr>ig_stmt := Suc k\<rparr>; (r, s2) = st s1
      in case ie_fault e k of
           Some (Refused msg) \<Rightarrow> (Inl (DriverError msg), s1)
         | Some (AnswerLost msg) \<Rightarrow> (Inl (DriverError msg), s2)
         | None \<Rightarrow> (r, s2))"

definition IncrWebhookFailCounter :: "int \<Rightarrow> string \<Rightarrow> ingest \<Rightarrow> (db_error + int) \<times> ingest" where
  "IncrWebhookFailCounter now key s =
     (let n = (case map_of (ig_counters s) key of None \<Rightarrow> 1 | Some (c, t) \<Rightarrow> c + 1)
      in (Inr n, s\<lparr>ig_counters := AList.update key (n, now) (ig_counters s)\<rparr>))"

definition GetWebhookFailCounter :: "string \<Rightarrow> ingest \<Rightarrow> (db_error + int) \<times> ingest" where
  "GetWebhookFailCounter key s = (case map_of (ig_counters s) key of None \<Rightarrow> (Inl ErrNoRows, s) | Some (c, t) \<Rightarrow> (Inr c, s))"

definition ClearWebhookFailCounter :: "string \<Rightarrow> ingest \<Rightarrow> (db_error + unit) \<times> ingest" where
  "ClearWebhookFailCounter key s = (Inr (), s\<lparr>ig_counters := AList.delete key (ig_counters s)\<rparr>)"

definition DeleteStaleWebhookFailCounters :: "int \<Rightarrow> ingest \<Rightarrow> (db_error + nat) \<times> ingest" where
  "DeleteStaleWebhookFailCounters before s =
     (let stale = (\<lambda>(k, c, t). t < before)
      in (Inr (count_where stale (ig_counters s)), s\<lparr>ig_counters := delete_where stale (ig_counters s)\<rparr>))"

text \<open>A text the database does not take is refused.\<close>

definition texts_ok :: "ingest_env \<Rightarrow> dead_letter \<Rightarrow> bool" where
  "texts_ok e d \<longleftrightarrow> ie_text e (dl_dedup d) \<and> ie_text e (dl_event d) \<and> ie_text e (dl_bucket d) \<and> ie_text e (dl_key d)
     \<and> pred_option (ie_text e) (dl_etag d) \<and> pred_option (ie_text e) (dl_seq d) \<and> pred_option (ie_text e) (dl_raw d)"

definition UpsertDeadLetter :: "ingest_env \<Rightarrow> dead_letter \<Rightarrow> ingest \<Rightarrow> (db_error + unit) \<times> ingest" where
  "UpsertDeadLetter e d s =
     (if texts_ok e d then (Inr (), s\<lparr>ig_dead := upsert dl_dedup (\<lambda>old new. new) d (ig_dead s)\<rparr>) else (Inl (DriverError ''encoding''), s))"

definition DeadLetterIdentity :: "string \<Rightarrow> string \<Rightarrow> string \<Rightarrow> string" where
  "DeadLetterIdentity bucket key sequencer = bucket @ ''/'' @ key @ ''/'' @ sequencer"

definition ShouldDeadLetter :: "int \<Rightarrow> int \<Rightarrow> bool" where
  "ShouldDeadLetter count limit \<longleftrightarrow> limit < count"

text \<open>The counter store: PostgreSQL counts, Redis caches; \<open>ie_hash\<close> is \<^verbatim>\<open>DeadLetterRedisKey\<close>.\<close>

definition IncrFailCount :: "ingest_env \<Rightarrow> int \<Rightarrow> string \<Rightarrow> ingest \<Rightarrow> (db_error + int) \<times> ingest" where
  "IncrFailCount e now identity s =
     (case hook_sql e (IncrWebhookFailCounter now (ie_hash e identity)) s of
        (Inl err, s1) \<Rightarrow> (Inl err, s1)
      | (Inr n, s1) \<Rightarrow> (Inr n, if ie_cache e (ig_stmt s1) then s1\<lparr>ig_cached := (ig_cached s1)(identity \<mapsto> n)\<rparr> else s1))"

definition FailCount :: "ingest_env \<Rightarrow> string \<Rightarrow> ingest \<Rightarrow> int \<times> ingest" where
  "FailCount e identity s =
     (case (if ie_cache e (ig_stmt s) then ig_cached s identity else None) of
        Some n \<Rightarrow> if 0 < n then (n, s) else (case hook_sql e (GetWebhookFailCounter (ie_hash e identity)) s of (Inl err, s1) \<Rightarrow> (0, s1) | (Inr m, s1) \<Rightarrow> (m, s1))
      | None \<Rightarrow> (case hook_sql e (GetWebhookFailCounter (ie_hash e identity)) s of (Inl err, s1) \<Rightarrow> (0, s1) | (Inr m, s1) \<Rightarrow> (m, s1)))"

definition ClearFailCount :: "ingest_env \<Rightarrow> string \<Rightarrow> ingest \<Rightarrow> ingest" where
  "ClearFailCount e identity s =
     (case hook_sql e (ClearWebhookFailCounter (ie_hash e identity)) s of
        (r, s1) \<Rightarrow> if ie_cache e (ig_stmt s1) then s1\<lparr>ig_cached := (ig_cached s1)(identity := None)\<rparr> else s1)"

definition CleanupStaleWebhookFailCounters :: "ingest_env \<Rightarrow> int \<Rightarrow> int \<Rightarrow> ingest \<Rightarrow> (db_error + nat) \<times> ingest" where
  "CleanupStaleWebhookFailCounters e now ttl s = hook_sql e (DeleteStaleWebhookFailCounters (now - ttl)) s"

section \<open>The handler\<close>

definition authorized :: "ingest_env \<Rightarrow> webhook_handler \<Rightarrow> string \<Rightarrow> bool" where
  "authorized e h header \<longleftrightarrow>
     wh_secret h \<noteq> ''''
     \<and> (let presented = TrimSpace header;
            presented = (case Fields presented of [scheme, tok] \<Rightarrow> if map ascii_lower scheme = ''bearer'' then tok else presented | _ \<Rightarrow> presented)
        in ie_hash e (wh_secret h) = ie_hash e presented)"

definition maxDeadLetterPayloadBytes :: nat where
  "maxDeadLetterPayloadBytes = 64 * 2 ^ 10"

definition captureRawPayload :: "string \<Rightarrow> string" where
  "captureRawPayload raw = (if int (length raw) \<le> int maxDeadLetterPayloadBytes then raw else take maxDeadLetterPayloadBytes raw)"

text \<open>The body kept, whether it was larger, and the hash of all of it; nothing when reading failed.\<close>

definition readBodyCapped :: "ingest_env \<Rightarrow> string option \<Rightarrow> nat \<Rightarrow> (string \<times> bool \<times> string) option" where
  "readBodyCapped e body lim = map_option (\<lambda>b. (take lim b, lim < length b, ie_hash e b)) body"

definition deadLetter :: "ingest_env \<Rightarrow> webhook_handler \<Rightarrow> dead_letter \<Rightarrow> ingest \<Rightarrow> (db_error + unit) \<times> ingest" where
  "deadLetter e h d s = (if \<not> wh_dead h then (Inr (), s) else hook_sql e (UpsertDeadLetter e d) s)"

definition clearFailCount :: "ingest_env \<Rightarrow> webhook_handler \<Rightarrow> string \<Rightarrow> string \<Rightarrow> event_record \<Rightarrow> ingest \<Rightarrow> ingest" where
  "clearFailCount e h bucket key r s = (if \<not> wh_fails h then s else ClearFailCount e (DeadLetterIdentity bucket key (er_sequencer r)) s)"

definition exhausted :: "ingest_env \<Rightarrow> string \<Rightarrow> string \<Rightarrow> event_record \<Rightarrow> int \<Rightarrow> failure_cause \<Rightarrow> dead_letter" where
  "exhausted e bucket key r n why =
     \<lparr>dl_dedup = DeadLetterIdentity bucket key (er_sequencer r), dl_event = er_name r, dl_bucket = bucket, dl_key = key, dl_size = er_size r,
      dl_etag = non_empty (er_etag r), dl_observed = (if er_time r = ie_zero e then None else Some (er_time r)), dl_seq = non_empty (er_sequencer r),
      dl_fail_count = signed_take_bit 31 n, dl_error = why, dl_active = HasPrefix (er_name r) ''s3:ObjectRemoved:'', dl_raw = None, dl_truncated = False\<rparr>"

text \<open>\<^verbatim>\<open>True\<close>: the request must be answered with an error so that the store delivers again.\<close>

definition handleIndexFailure :: "ingest_env \<Rightarrow> webhook_handler \<Rightarrow> int \<Rightarrow> string \<Rightarrow> string \<Rightarrow> event_record \<Rightarrow> failure_cause \<Rightarrow> ingest \<Rightarrow> bool \<times> ingest" where
  "handleIndexFailure e h now bucket key r why s =
     (if \<not> wh_fails h then (True, s)
      else case IncrFailCount e now (DeadLetterIdentity bucket key (er_sequencer r)) s of
             (Inl err, s1) \<Rightarrow> (True, s1)
           | (Inr n, s1) \<Rightarrow>
               if \<not> ShouldDeadLetter n (wh_failLimit h) then (True, s1)
               else (case deadLetter e h (exhausted e bucket key r n why) s1 of
                       (Inl err, s2) \<Rightarrow> (True, s2)
                     | (Inr u, s2) \<Rightarrow> (False, clearFailCount e h bucket key r s2)))"

definition handle_record :: "ingest_env \<Rightarrow> webhook_handler \<Rightarrow> int \<Rightarrow> event_record \<Rightarrow> ingest \<Rightarrow> bool \<times> ingest" where
  "handle_record e h now r s =
     (case translateRecord r of
        None \<Rightarrow> handleIndexFailure e h now (er_bucket r) (er_key r) r BadKey s
      | Some (ev, handled) \<Rightarrow>
          if \<not> wh_sink h then (False, s)
          else if \<not> handled then (False, clearFailCount e h (er_bucket r) (ev_key ev) r s)
          else (case indexSink_Apply (ie_cp e) ev (ig_index s) of
                  (Inl err, ix) \<Rightarrow> handleIndexFailure e h now (er_bucket r) (ev_key ev) r (NotApplied err) (s\<lparr>ig_index := ix\<rparr>)
                | (Inr u, ix) \<Rightarrow> (False, clearFailCount e h (er_bucket r) (ev_key ev) r (s\<lparr>ig_index := ix\<rparr>))))"

fun handle_records :: "ingest_env \<Rightarrow> webhook_handler \<Rightarrow> int \<Rightarrow> event_record list \<Rightarrow> ingest \<Rightarrow> bool \<times> ingest" where
  "handle_records e h now [] s = (False, s)"
| "handle_records e h now (r # rs) s =
     (let (f1, s1) = handle_record e h now r s; (f2, s2) = handle_records e h now rs s1 in (f1 \<or> f2, s2))"

definition unreadable :: "string \<Rightarrow> string \<Rightarrow> failure_cause \<Rightarrow> string \<Rightarrow> bool \<Rightarrow> dead_letter" where
  "unreadable dedup name why raw truncated =
     \<lparr>dl_dedup = dedup, dl_event = name, dl_bucket = '''', dl_key = '''', dl_size = 0, dl_etag = None, dl_observed = None, dl_seq = None, dl_fail_count = 1,
      dl_error = why, dl_active = False, dl_raw = non_empty (captureRawPayload raw), dl_truncated = truncated\<rparr>"

text \<open>The status of the answer.\<close>

definition Handle :: "ingest_env \<Rightarrow> webhook_handler \<Rightarrow> int \<Rightarrow> string \<Rightarrow> string option \<Rightarrow> ingest \<Rightarrow> nat \<times> ingest" where
  "Handle e h now header body s =
     (if \<not> authorized e h header then (401, s)
      else case readBodyCapped e body (wh_parseCap h) of
             None \<Rightarrow> (500, s)
           | Some (raw, oversized, fullHash) \<Rightarrow>
               if oversized then (500, snd (deadLetter e h (unreadable (''oversized:'' @ fullHash) ''oversized'' TooLarge raw True) s))
               else (case ie_unmarshal e raw of
                       None \<Rightarrow>
                         (case deadLetter e h (unreadable (''unparseable:'' @ fullHash) ''unknown'' NotParsed raw (int maxDeadLetterPayloadBytes < int (length raw))) s of
                            (Inl err, s1) \<Rightarrow> (500, s1)
                          | (Inr u, s1) \<Rightarrow> (200, s1))
                     | Some p \<Rightarrow> (case handle_records e h now (me_records p) s of (failed, s1) \<Rightarrow> (if failed then 500 else 200, s1))))"

end
