(* ===== verification/Ingest_Laws.thy ===== *)
theory Ingest_Laws
  imports Ingest
begin

text \<open>
  What an answer of the storage webhook means: an acknowledged notification is settled record by record, and a notification that keeps
  failing is dead-lettered after exactly the configured number of retries.
\<close>

section \<open>Identities\<close>

text \<open>Bucket names and sequencers contain no slash, so distinct events do not share an identity.\<close>

lemma slash_split:
  assumes "x @ CHR ''/'' # r = y @ CHR ''/'' # t" "CHR ''/'' \<notin> set x" "CHR ''/'' \<notin> set y"
  shows "x = y \<and> r = t"
  using assms by (induction x arbitrary: y) (case_tac y; auto)+

lemma DeadLetterIdentity_inj:
  assumes "DeadLetterIdentity b k q = DeadLetterIdentity b' k' q'"
    and "CHR ''/'' \<notin> set b" "CHR ''/'' \<notin> set b'" "CHR ''/'' \<notin> set q" "CHR ''/'' \<notin> set q'"
  shows "b = b' \<and> k = k' \<and> q = q'"
proof -
  have 1: "b = b'" "k @ CHR ''/'' # q = k' @ CHR ''/'' # q'"
    using slash_split[of b _ b'] assms by (auto simp: DeadLetterIdentity_def)
  have "rev q @ CHR ''/'' # rev k = rev q' @ CHR ''/'' # rev k'" using arg_cong[OF 1(2), of rev] by simp
  then show ?thesis using slash_split[of "rev q" _ "rev q'"] 1 assms(4,5) by auto
qed

section \<open>Dead letters\<close>

text \<open>A row stored for an event whose failures went past the cap.\<close>

definition lettered :: "int \<Rightarrow> string \<Rightarrow> ingest \<Rightarrow> bool" where
  "lettered limit ident s \<longleftrightarrow> (\<exists>d\<in>set (ig_dead s). \<exists>n>limit. dl_dedup d = ident \<and> dl_fail_count d = signed_take_bit 31 n)"

lemma set_upsert_new: "set (upsert key (\<lambda>old new. new) x t) = insert x {r \<in> set t. key r \<noteq> key x}"
  by (auto simp: upsert_def sql_simps)

lemma IncrFailCount_dead: "IncrFailCount e now ident s = (r, s') \<Longrightarrow> ig_dead s' = ig_dead s \<and> ig_index s' = ig_index s"
  by (auto simp: IncrFailCount_def hook_sql_def IncrWebhookFailCounter_def Let_def split: sum.splits prod.splits option.splits db_fault.splits if_splits)

lemma clearFailCount_dead [simp]: "ig_dead (clearFailCount e h bucket key r s) = ig_dead s" "ig_index (clearFailCount e h bucket key r s) = ig_index s"
  by (simp_all add: clearFailCount_def ClearFailCount_def hook_sql_def ClearWebhookFailCounter_def Let_def split: option.splits db_fault.splits prod.splits)

lemma lettered_clear [simp]: "lettered limit ident (clearFailCount e h bucket key r s) = lettered limit ident s"
  by (simp add: lettered_def)

lemma deadLetter_dead:
  assumes "deadLetter e h d s = (r, s')"
  shows "ig_dead s' = ig_dead s \<or> ig_dead s' = upsert dl_dedup (\<lambda>old new. new) d (ig_dead s)"
    and "wh_dead h \<Longrightarrow> r = Inr u \<Longrightarrow> ig_dead s' = upsert dl_dedup (\<lambda>old new. new) d (ig_dead s)"
  using assms by (auto simp: deadLetter_def hook_sql_def UpsertDeadLetter_def Let_def split: if_splits option.splits db_fault.splits prod.splits)

lemma lettered_upsert:
  assumes "lettered limit ident s" "limit < n" "dl_fail_count d = signed_take_bit 31 n" "ig_dead s' = upsert dl_dedup (\<lambda>old new. new) d (ig_dead s)"
  shows "lettered limit ident s'"
  using assms unfolding lettered_def assms(4) set_upsert_new by (cases "dl_dedup d = ident") auto

lemma lettered_new:
  assumes "limit < n" "dl_fail_count d = signed_take_bit 31 n" "ig_dead s' = upsert dl_dedup (\<lambda>old new. new) d (ig_dead s)"
  shows "lettered limit (dl_dedup d) s'"
  using assms unfolding lettered_def assms(3) set_upsert_new by auto

lemma failure_outcome:
  assumes "handleIndexFailure e h now bucket key r why s = (retry, s')"
  shows "lettered (wh_failLimit h) ident s \<Longrightarrow> lettered (wh_failLimit h) ident s'"
    and "\<not> retry \<Longrightarrow> wh_dead h \<Longrightarrow> lettered (wh_failLimit h) (DeadLetterIdentity bucket key (er_sequencer r)) s'"
proof -
  let ?id = "DeadLetterIdentity bucket key (er_sequencer r)"
  obtain c s1 where 1: "IncrFailCount e now ?id s = (c, s1)" by fastforce
  note d1 = IncrFailCount_dead[OF 1]
  have fc: "dl_fail_count (exhausted e bucket key r n why) = signed_take_bit 31 n" "dl_dedup (exhausted e bucket key r n why) = ?id" for n
    by (simp_all add: exhausted_def)
  have kept: "lettered (wh_failLimit h) ident s1 = lettered (wh_failLimit h) ident s" for ident by (simp add: lettered_def d1)
  have both: "(lettered (wh_failLimit h) ident s \<longrightarrow> lettered (wh_failLimit h) ident s') \<and> (\<not> retry \<and> wh_dead h \<longrightarrow> lettered (wh_failLimit h) ?id s')"
  proof (cases "wh_fails h \<and> (\<exists>n. c = Inr n \<and> wh_failLimit h < n)")
    case True
    then obtain n where n: "c = Inr n" "wh_failLimit h < n" by blast
    obtain x s2 where 2: "deadLetter e h (exhausted e bucket key r n why) s1 = (x, s2)" by fastforce
    have s': "(retry, s') = (case x of Inl err \<Rightarrow> (True, s2) | Inr u \<Rightarrow> (False, clearFailCount e h bucket key r s2))"
      using assms True 1 n 2 by (simp add: handleIndexFailure_def ShouldDeadLetter_def split: sum.splits)
    have k: "lettered (wh_failLimit h) ident s \<longrightarrow> lettered (wh_failLimit h) ident s2"
    proof (intro impI)
      assume "lettered (wh_failLimit h) ident s"
      then have l: "lettered (wh_failLimit h) ident s1" using kept by simp
      then show "lettered (wh_failLimit h) ident s2"
        using deadLetter_dead(1)[OF 2] lettered_upsert[OF l n(2) fc(1)] by (auto simp: lettered_def)
    qed
    have "lettered (wh_failLimit h) ?id s2" if "x = Inr u" "wh_dead h" for u
      using lettered_new[OF n(2) fc(1) deadLetter_dead(2)[OF 2 that(2,1)]] by (simp add: fc)
    then show ?thesis using s' k by (auto split: sum.splits)
  next
    case False
    then have "retry \<and> (s' = s \<or> s' = s1)"
      using assms 1 by (auto simp: handleIndexFailure_def ShouldDeadLetter_def split: sum.splits if_splits)
    then show ?thesis using kept by auto
  qed
  then show "lettered (wh_failLimit h) ident s \<Longrightarrow> lettered (wh_failLimit h) ident s'"
    and "\<not> retry \<Longrightarrow> wh_dead h \<Longrightarrow> lettered (wh_failLimit h) ?id s'" by blast+
qed

section \<open>Records\<close>

text \<open>
  A record is settled when the index took its event, in the state in which it was offered, or the event is not for the index, or it is among the dead letters.
\<close>

definition record_identity :: "event_record \<Rightarrow> string" where
  "record_identity r = (case translateRecord r of None \<Rightarrow> DeadLetterIdentity (er_bucket r) (er_key r) (er_sequencer r)
     | Some (ev, handled) \<Rightarrow> DeadLetterIdentity (er_bucket r) (ev_key ev) (er_sequencer r))"

definition settled :: "ingest_env \<Rightarrow> webhook_handler \<Rightarrow> event_record \<Rightarrow> ingest \<Rightarrow> ingest \<Rightarrow> bool" where
  "settled e h r s s' \<longleftrightarrow>
     lettered (wh_failLimit h) (record_identity r) s'
     \<or> (\<exists>ev handled. translateRecord r = Some (ev, handled) \<and> (\<not> handled \<or> fst (indexSink_Apply (ie_cp e) ev (ig_index s)) = Inr ()))"

lemma handle_record_outcome:
  assumes "handle_record e h now r s = (retry, s')"
  shows "lettered (wh_failLimit h) ident s \<Longrightarrow> lettered (wh_failLimit h) ident s'"
    and "\<not> retry \<Longrightarrow> wh_sink h \<Longrightarrow> wh_dead h \<Longrightarrow> settled e h r s s'"
proof -
  have same: "lettered l i (s\<lparr>ig_index := ix\<rparr>) = lettered l i s" for l i ix by (simp add: lettered_def)
  show "lettered (wh_failLimit h) ident s'" if "lettered (wh_failLimit h) ident s"
    using assms that failure_outcome(1)[where ident = ident and s' = s']
    by (auto simp: handle_record_def same split: option.splits prod.splits sum.splits if_splits)
  show "settled e h r s s'" if "\<not> retry" "wh_sink h" "wh_dead h"
    using assms that failure_outcome(2)[where s' = s' and h = h]
    by (auto simp: handle_record_def settled_def record_identity_def split: option.splits prod.splits sum.splits if_splits)
qed

lemma handle_records_keep: "lettered (wh_failLimit h) ident s \<Longrightarrow> lettered (wh_failLimit h) ident (snd (handle_records e h now rs s))"
proof (induction rs arbitrary: s)
  case (Cons r rs)
  obtain f s1 where 1: "handle_record e h now r s = (f, s1)" by fastforce
  show ?case using Cons.IH[OF handle_record_outcome(1)[OF 1 Cons.prems]] 1 by (simp add: case_prod_beta)
qed simp

lemma records_settled:
  assumes "handle_records e h now rs s = (False, s')" "wh_sink h" "wh_dead h" "i < length rs"
  shows "settled e h (rs ! i) (snd (handle_records e h now (take i rs) s)) s'"
  using assms
proof (induction rs arbitrary: s i)
  case (Cons r rs)
  obtain f s1 where 1: "handle_record e h now r s = (f, s1)" by fastforce
  have f: "\<not> f" "handle_records e h now rs s1 = (False, s')" using Cons.prems(1) 1 by (auto simp: case_prod_beta prod_eq_iff)
  show ?case
  proof (cases i)
    case 0
    have "settled e h r s s1" by (rule handle_record_outcome(2)[OF 1 f(1) Cons.prems(2,3)])
    then show ?thesis using handle_records_keep[of h "record_identity r" s1 e now rs] f(2) 0 by (auto simp: settled_def)
  next
    case (Suc k)
    then show ?thesis using Cons.IH[OF f(2) Cons.prems(2,3), of k] Cons.prems(4) 1 by (simp add: case_prod_beta)
  qed
qed simp

section \<open>Counting\<close>

definition counted :: "ingest_env \<Rightarrow> string \<Rightarrow> ingest \<Rightarrow> int" where
  "counted e ident s = (case map_of (ig_counters s) (ie_hash e ident) of None \<Rightarrow> 0 | Some (c, t) \<Rightarrow> c)"

lemma IncrFailCount_counts:
  assumes "\<And>k. ie_fault e k = None"
  obtains s' where "IncrFailCount e now ident s = (Inr (counted e ident s + 1), s')" "counted e ident s' = counted e ident s + 1" "ig_stmt s' = Suc (ig_stmt s)"
proof
  let ?n = "counted e ident s + 1"
  let ?s1 = "s\<lparr>ig_stmt := Suc (ig_stmt s), ig_counters := AList.update (ie_hash e ident) (?n, now) (ig_counters s)\<rparr>"
  let ?s' = "if ie_cache e (Suc (ig_stmt s)) then ?s1\<lparr>ig_cached := (ig_cached s)(ident \<mapsto> ?n)\<rparr> else ?s1"
  have n: "(case map_of (ig_counters s) (ie_hash e ident) of None \<Rightarrow> 1 | Some (c, t) \<Rightarrow> c + 1) = ?n" by (simp add: counted_def split: option.splits)
  show "IncrFailCount e now ident s = (Inr ?n, ?s')"
    using assms by (simp add: IncrFailCount_def hook_sql_def IncrWebhookFailCounter_def n Let_def)
  show "counted e ident ?s' = ?n" by (simp add: counted_def update_conv')
  show "ig_stmt ?s' = Suc (ig_stmt s)" by simp
qed

text \<open>The same notification, delivered \<open>n\<close> times.\<close>

fun redeliver :: "ingest_env \<Rightarrow> webhook_handler \<Rightarrow> int \<Rightarrow> string \<Rightarrow> string \<Rightarrow> nat \<Rightarrow> ingest \<Rightarrow> nat list \<times> ingest" where
  "redeliver e h now header raw 0 s = ([], s)"
| "redeliver e h now header raw (Suc n) s =
     (let (st, s1) = Handle e h now header (Some raw) s; (sts, s2) = redeliver e h now header raw n s1 in (st # sts, s2))"

text \<open>A notification of one record that the index never takes.\<close>

definition poison :: "ingest_env \<Rightarrow> webhook_handler \<Rightarrow> string \<Rightarrow> string \<Rightarrow> event_record \<Rightarrow> storage_event \<Rightarrow> bool" where
  "poison e h header raw r ev \<longleftrightarrow>
     authorized e h header \<and> length raw \<le> wh_parseCap h \<and> (\<exists>p. ie_unmarshal e raw = Some p \<and> me_records p = [r]) \<and> translateRecord r = Some (ev, True)
     \<and> (\<forall>ix. fst (indexSink_Apply (ie_cp e) ev ix) \<noteq> Inr ()) \<and> (\<forall>n why. texts_ok e (exhausted e (er_bucket r) (ev_key ev) r n why))"

lemma poison_delivery:
  assumes p: "poison e h header raw r ev" and h: "wh_sink h" "wh_fails h" "wh_dead h" and ok: "\<And>k. ie_fault e k = None"
    and ident: "ident = DeadLetterIdentity (er_bucket r) (ev_key ev) (er_sequencer r)"
  shows "counted e ident s < wh_failLimit h \<Longrightarrow> \<exists>s'. Handle e h now header (Some raw) s = (500, s') \<and> counted e ident s' = counted e ident s + 1"
    and "wh_failLimit h \<le> counted e ident s \<Longrightarrow> \<exists>s'. Handle e h now header (Some raw) s = (200, s') \<and> lettered (wh_failLimit h) ident s'"
proof -
  obtain err ix where a: "indexSink_Apply (ie_cp e) ev (ig_index s) = (Inl err, ix)"
  proof -
    obtain x ix where x: "indexSink_Apply (ie_cp e) ev (ig_index s) = (x, ix)" by fastforce
    then have "x \<noteq> Inr ()" using p unfolding poison_def by (metis fst_conv)
    then show ?thesis using that x by (cases x) auto
  qed
  let ?s = "s\<lparr>ig_index := ix\<rparr>"
  have c: "counted e ident ?s = counted e ident s" by (simp add: counted_def)
  obtain s1 where 1: "IncrFailCount e now ident ?s = (Inr (counted e ident s + 1), s1)" "counted e ident s1 = counted e ident s + 1"
    using IncrFailCount_counts[OF ok, of now ident ?s] c by metis
  have H: "Handle e h now header (Some raw) s
     = (case handleIndexFailure e h now (er_bucket r) (ev_key ev) r (NotApplied err) ?s of (f, s') \<Rightarrow> (if f then 500 else 200, s'))"
    using p a h by (auto simp: poison_def Handle_def readBodyCapped_def handle_record_def case_prod_beta)
  show "\<exists>s'. Handle e h now header (Some raw) s = (500, s') \<and> counted e ident s' = counted e ident s + 1" if "counted e ident s < wh_failLimit h"
    using H 1 h that by (auto simp: handleIndexFailure_def ident ShouldDeadLetter_def)
  show "\<exists>s'. Handle e h now header (Some raw) s = (200, s') \<and> lettered (wh_failLimit h) ident s'" if over: "wh_failLimit h \<le> counted e ident s"
  proof -
    let ?d = "exhausted e (er_bucket r) (ev_key ev) r (counted e ident s + 1) (NotApplied err)"
    obtain s2 where 2: "deadLetter e h ?d s1 = (Inr (), s2)"
      using p h ok by (auto simp: poison_def deadLetter_def hook_sql_def UpsertDeadLetter_def)
    have f: "handleIndexFailure e h now (er_bucket r) (ev_key ev) r (NotApplied err) ?s = (False, clearFailCount e h (er_bucket r) (ev_key ev) r s2)"
      using 1 2 h over by (simp add: handleIndexFailure_def ident ShouldDeadLetter_def)
    show ?thesis using H f failure_outcome(2)[OF f _ h(3)] ident by auto
  qed
qed

section \<open>Properties\<close>

text \<open>
  C9: An acknowledged notification is settled.  When the webhook answers 200, the caller presented the secret and the whole body was read within
  the cap; a body that is no notification is stored as a dead letter under the hash of the whole body, and each record of a
  notification was taken by the index in the state in which it was offered, or is of a type the index ignores, or is among the dead
  letters after more failures than the cap.
\<close>

theorem webhook_ack_means_settled:
  assumes "Handle e h now header body s = (200, s')" "wh_sink h" "wh_dead h"
  shows "authorized e h header \<and> (\<exists>raw. body = Some raw \<and> length raw \<le> wh_parseCap h \<and>
    (case ie_unmarshal e raw of
       None \<Rightarrow> \<exists>d\<in>set (ig_dead s'). dl_dedup d = ''unparseable:'' @ ie_hash e raw \<and> dl_raw d = non_empty (captureRawPayload raw)
     | Some p \<Rightarrow> \<forall>i<length (me_records p). settled e h (me_records p ! i) (snd (handle_records e h now (take i (me_records p)) s)) s'))"
proof -
  obtain raw where raw: "authorized e h header" "body = Some raw" "length raw \<le> wh_parseCap h"
    using assms(1) by (cases body) (auto simp: Handle_def readBodyCapped_def split: if_splits)
  show ?thesis
  proof (cases "ie_unmarshal e raw")
    case None
    let ?d = "unreadable (''unparseable:'' @ ie_hash e raw) ''unknown'' NotParsed raw (int maxDeadLetterPayloadBytes < int (length raw))"
    have "deadLetter e h ?d s = (Inr (), s')"
      using assms(1) raw None by (auto simp: Handle_def readBodyCapped_def split: sum.splits prod.splits)
    from deadLetter_dead(2)[OF this assms(3)] have "?d \<in> set (ig_dead s')" by (simp add: set_upsert_new)
    then have "\<exists>d\<in>set (ig_dead s'). dl_dedup d = ''unparseable:'' @ ie_hash e raw \<and> dl_raw d = non_empty (captureRawPayload raw)"
      by (intro bexI[of _ ?d]) (simp_all add: unreadable_def)
    then show ?thesis using raw None by simp
  next
    case (Some p)
    then have "handle_records e h now (me_records p) s = (False, s')"
      using assms(1) raw by (auto simp: Handle_def readBodyCapped_def split: prod.splits if_splits)
    then show ?thesis using raw Some records_settled[OF _ assms(2,3)] by auto
  qed
qed


section \<open>Samples\<close>

text \<open>The indexer of a database that refuses every statement.\<close>

lemma refusing_index:
  assumes "\<And>k. cp_fault cp k = Some (Refused msg)"
  shows "fst (indexSink_Apply cp ev ix) \<noteq> Inr ()"
  by (cases "ev_kind ev")
     (auto simp: indexSink_Apply_def index_result_def IndexUpload_def IndexUploadReporting_def IndexDeletion_def IndexDeletionReporting_def sql_def assms Let_def
       split: prod.splits sum.splits)

definition sample_record :: "string \<Rightarrow> event_record" where
  "sample_record name = \<lparr>er_time = 5, er_name = name, er_bucket = ''data'', er_sequencer = ''17'', er_key = ''a%2Fb+c'', er_size = 3, er_etag = ''t''\<rparr>"

definition hook_env :: "cp_env \<Rightarrow> ingest_env" where
  "hook_env cp = \<lparr>ie_cp = cp\<lparr>cp_fault := (\<lambda>_. Some (Refused ''down''))\<rparr>, ie_fault = (\<lambda>_. None), ie_cache = (\<lambda>_. True), ie_zero = 0, ie_hash = (\<lambda>x. x),
     ie_unmarshal = map_of [(''one'', \<lparr>me_name = '''', me_key = '''', me_records = [sample_record ''s3:ObjectCreated:Put'']\<rparr>),
       (''two'', \<lparr>me_name = '''', me_key = '''', me_records = [sample_record ''s3:ObjectAccessed:Get'', sample_record ''s3:ObjectCreated:Put'']\<rparr>)],
     ie_text = (\<lambda>_. True)\<rparr>"

definition sample_hook :: "int \<Rightarrow> webhook_handler" where
  "sample_hook limit = \<lparr>wh_sink = True, wh_secret = ''s'', wh_fails = True, wh_dead = True, wh_failLimit = limit, wh_parseCap = 100\<rparr>"

definition sample_ingest :: "indexer \<Rightarrow> ingest" where
  "sample_ingest ix = \<lparr>ig_index = ix, ig_counters = [], ig_dead = [], ig_cached = Map.empty, ig_stmt = 0\<rparr>"

lemma sample_chars: "char_of (47 :: nat) = CHR ''/''" "char_of (98 :: nat) = CHR ''b''"
  by code_simp+

lemma sample_translates:
  "\<exists>ev. translateRecord (sample_record ''s3:ObjectCreated:Put'') = Some (ev, True) \<and> ev_key ev = ''a/b c''"
  "\<exists>ev. translateRecord (sample_record ''s3:ObjectAccessed:Get'') = Some (ev, False) \<and> ev_key ev = ''a/b c''"
  by (simp_all add: translateRecord_def decodeObjectKey_def sample_record_def unhex_def HasPrefix_def sample_chars)

lemma sample_authorized: "authorized (hook_env cp) (sample_hook limit) ''Bearer s''"
  by (simp add: authorized_def hook_env_def sample_hook_def TrimSpace_def is_space_def Fields_def ascii_lower_def sample_chars)

lemma sample_poison: "\<exists>ev. ev_key ev = ''a/b c'' \<and> poison (hook_env cp) (sample_hook limit) ''Bearer s'' ''one'' (sample_record ''s3:ObjectCreated:Put'') ev"
proof -
  obtain ev where ev: "translateRecord (sample_record ''s3:ObjectCreated:Put'') = Some (ev, True)" "ev_key ev = ''a/b c''" using sample_translates(1) by blast
  have "fst (indexSink_Apply (ie_cp (hook_env cp)) ev ix) \<noteq> Inr ()" for ix by (rule refusing_index[of _ "''down''"]) (simp add: hook_env_def)
  moreover have "\<exists>p. ie_unmarshal (hook_env cp) ''one'' = Some p \<and> me_records p = [sample_record ''s3:ObjectCreated:Put'']" by (simp add: hook_env_def)
  moreover have "length ''one'' \<le> wh_parseCap (sample_hook limit)" by (simp add: sample_hook_def)
  moreover have "texts_ok (hook_env cp) d" for d by (simp add: texts_ok_def hook_env_def pred_option_def)
  ultimately show ?thesis using ev sample_authorized[of cp limit] unfolding poison_def by blast
qed


theorem webhook_ack_means_settled_witness:
  "\<forall>cp ix. \<exists>s'. Handle (hook_env cp) (sample_hook 0) 0 ''Bearer s'' (Some ''two'') (sample_ingest ix) = (200, s')
     \<and> settled (hook_env cp) (sample_hook 0) (sample_record ''s3:ObjectCreated:Put'') (snd (handle_records (hook_env cp) (sample_hook 0) 0 [sample_record ''s3:ObjectAccessed:Get''] (sample_ingest ix))) s'"
proof (intro allI)
  fix cp ix
  let ?e = "hook_env cp" and ?h = "sample_hook 0"
  let ?rs = "[sample_record ''s3:ObjectAccessed:Get'', sample_record ''s3:ObjectCreated:Put'']"
  let ?r = "Handle ?e ?h 0 ''Bearer s'' (Some ''two'') (sample_ingest ix)"
  have u: "ie_unmarshal ?e ''two'' = Some \<lparr>me_name = '''', me_key = '''', me_records = ?rs\<rparr>" by (simp add: hook_env_def)
  obtain ev where ev: "poison ?e ?h ''Bearer s'' ''one'' (sample_record ''s3:ObjectCreated:Put'') ev" using sample_poison by blast
  obtain ev' where ev': "translateRecord (sample_record ''s3:ObjectAccessed:Get'') = Some (ev', False)" using sample_translates(2) by blast
  obtain s1 where s1: "handle_record ?e ?h 0 (sample_record ''s3:ObjectAccessed:Get'') (sample_ingest ix) = (False, s1)" "ig_counters s1 = []"
    using ev' by (simp add: handle_record_def sample_hook_def clearFailCount_def ClearFailCount_def hook_sql_def ClearWebhookFailCounter_def hook_env_def sample_ingest_def)
  have "\<exists>s2. Handle ?e ?h 0 ''Bearer s'' (Some ''one'') s1 = (200, s2)"
    using poison_delivery(2)[OF ev _ _ _ _ refl, of s1 0] s1(2) by (auto simp: sample_hook_def hook_env_def counted_def)
  moreover have "ie_unmarshal ?e ''one'' = Some \<lparr>me_name = '''', me_key = '''', me_records = [sample_record ''s3:ObjectCreated:Put'']\<rparr>" by (simp add: hook_env_def)
  ultimately have "\<not> fst (handle_record ?e ?h 0 (sample_record ''s3:ObjectCreated:Put'') s1)"
    using sample_authorized[of cp 0] by (simp add: Handle_def readBodyCapped_def sample_hook_def case_prod_beta split: if_splits)
  then have "fst (handle_records ?e ?h 0 ?rs (sample_ingest ix)) = False" using s1(1) by (simp add: case_prod_beta)
  then have r: "?r = (200, snd ?r)"
    using sample_authorized[of cp 0] u by (simp add: Handle_def readBodyCapped_def sample_hook_def case_prod_beta)
  have "wh_sink ?h" "wh_dead ?h" by (simp_all add: sample_hook_def)
  from webhook_ack_means_settled[OF r this] u
  have "\<forall>i<length ?rs. settled ?e ?h (?rs ! i) (snd (handle_records ?e ?h 0 (take i ?rs) (sample_ingest ix))) (snd ?r)" by simp
  then have "settled ?e ?h (?rs ! 1) (snd (handle_records ?e ?h 0 (take 1 ?rs) (sample_ingest ix))) (snd ?r)" by (rule allE[of _ 1]) simp
  then show "\<exists>s'. ?r = (200, s') \<and> settled ?e ?h (sample_record ''s3:ObjectCreated:Put'')
     (snd (handle_records ?e ?h 0 [sample_record ''s3:ObjectAccessed:Get''] (sample_ingest ix))) s'"
    using r by (intro exI[of _ "snd ?r"]) simp
qed

text \<open>
  A body that is no notification and whose captured prefix is not valid in the encoding of the database is refused on every delivery: it
  is never stored and never acknowledged.
\<close>

lemma unencodable_body_blocks:
  assumes "ie_unmarshal e raw = None" "captureRawPayload raw \<noteq> ''''" "\<not> ie_text e (captureRawPayload raw)" "wh_dead h"
  shows "fst (Handle e h now header (Some raw) s) \<noteq> 200"
  using assms
  by (auto simp: Handle_def readBodyCapped_def deadLetter_def hook_sql_def UpsertDeadLetter_def texts_ok_def unreadable_def non_empty_def Let_def
      split: option.splits db_fault.splits if_splits)

end
