(* ===== verification/Engine.thy ===== *)
theory Engine
  imports Index
begin

text \<open>
  The event engine (controlplane/internal/event/engine.go, webhook.go) and its queries (indexer/queries.go): events become
  deliveries of matching rules, sent once by the goroutine of the event and again by the retry worker.  Then the REST handlers of event
  rules (api/handler/events.go, db/event_rules.sql.go).
\<close>

section \<open>Tables\<close>

datatype action_type = ActionTypeWebhook | ActionTypeNatsPublish | ActionTypeKafkaPublish

record event_rule =
  vr_id :: uuid
  vr_org :: uuid
  vr_name :: string
  vr_event :: string
  vr_filter :: string
  vr_action :: action_type
  vr_config :: string
  vr_enabled :: bool
  vr_created_by :: "uuid option"
  vr_created :: int
  vr_updated :: int

datatype delivery_status = DvPending | DvFailed | DvDelivered | DvDead

record delivery =
  dv_id :: uuid
  dv_rule :: uuid
  dv_event :: string
  dv_payload :: string
  dv_status :: delivery_status
  dv_code :: "int option"
  dv_body :: "string option"
  dv_attempts :: int
  dv_next :: "int option"
  dv_created :: int
  dv_delivered :: "int option"

definition ListEnabledEventRules :: "uuid \<Rightarrow> string \<Rightarrow> event_rule list \<Rightarrow> event_rule list" where
  "ListEnabledEventRules org ty rules =
     order_by (\<lambda>r. - vr_created r) (select_where (\<lambda>r. vr_org r = org \<and> vr_event r = ty \<and> vr_enabled r) rules)"

definition CreateEventDelivery :: "uuid \<Rightarrow> uuid \<Rightarrow> string \<Rightarrow> string \<Rightarrow> int \<Rightarrow> int \<Rightarrow> delivery list \<Rightarrow> delivery list" where
  "CreateEventDelivery i rule ty payload next now rows = rows @ [\<lparr>dv_id = i, dv_rule = rule, dv_event = ty, dv_payload = payload, dv_status = DvPending, dv_code = None,
     dv_body = None, dv_attempts = 0, dv_next = Some next, dv_created = now, dv_delivered = None\<rparr>]"

record delivery_params =
  up_status :: delivery_status
  up_code :: "int option"
  up_body :: "string option"
  up_attempts :: int
  up_next :: "int option"
  up_delivered :: "int option"

definition UpdateEventDelivery :: "uuid \<Rightarrow> delivery_params \<Rightarrow> delivery list \<Rightarrow> delivery list" where
  "UpdateEventDelivery i p rows = update_where (\<lambda>r. dv_id r = i) (\<lambda>r. r\<lparr>dv_status := up_status p, dv_code := up_code p, dv_body := up_body p,
     dv_attempts := up_attempts p, dv_next := up_next p, dv_delivered := up_delivered p\<rparr>) rows"

definition due :: "int \<Rightarrow> delivery \<Rightarrow> bool" where
  "due now r \<longleftrightarrow> dv_status r \<in> {DvPending, DvFailed} \<and> (case dv_next r of None \<Rightarrow> True | Some t \<Rightarrow> t \<le> now)"

definition GetEventRuleByID :: "uuid \<Rightarrow> event_rule list \<Rightarrow> event_rule option" where
  "GetEventRuleByID i rules = find_row vr_id i rules"

definition ListPendingEventDeliveries :: "int \<Rightarrow> delivery list \<Rightarrow> delivery list" where
  "ListPendingEventDeliveries now rows = order_by dv_created (select_where (due now) rows)"

section \<open>Outcomes\<close>

definition retryBackoffSchedule :: "int list" where
  "retryBackoffSchedule = [30, 2 * 60, 10 * 60, 30 * 60, 2 * 3600]"

definition maxRetryAttempts :: int where
  "maxRetryAttempts = 5"

datatype delivery_target = ToUrl string | ToSubject string

text \<open>What an attempt met: a 2xx answer or a publish that worked, another status, no answer, or a request that could not be built.\<close>

datatype answer = Accepted int | Status int | NoAnswer string | BadRequest string

fun answer_text :: "answer \<Rightarrow> string" where
  "answer_text (Accepted c) = ''''"
| "answer_text (Status c) = ''non-2xx status''"
| "answer_text (NoAnswer m) = m"
| "answer_text (BadRequest m) = m"

definition accepted :: "answer \<Rightarrow> bool" where
  "accepted a \<longleftrightarrow> (case a of Accepted c \<Rightarrow> True | _ \<Rightarrow> False)"

definition scheduleRetry :: "int \<Rightarrow> nat \<Rightarrow> int \<Rightarrow> delivery_params" where
  "scheduleRetry now attempt code =
     (let c = (if code = 0 then None else Some code)
      in if length retryBackoffSchedule \<le> attempt
         then \<lparr>up_status = DvDead, up_code = c, up_body = None, up_attempts = 0, up_next = None, up_delivered = None\<rparr>
         else \<lparr>up_status = DvPending, up_code = c, up_body = None, up_attempts = 0, up_next = Some (now + retryBackoffSchedule ! attempt), up_delivered = None\<rparr>)"

text \<open>How the goroutine of the event records its attempt; a webhook request that could not be built leaves the row alone.\<close>

definition first_outcome :: "int \<Rightarrow> delivery_target \<Rightarrow> answer \<Rightarrow> delivery_params option" where
  "first_outcome now tgt a =
     (case tgt of
        ToUrl u \<Rightarrow>
          (case a of
             Accepted c \<Rightarrow> Some \<lparr>up_status = DvDelivered, up_code = Some c, up_body = None, up_attempts = 0, up_next = None, up_delivered = Some now\<rparr>
           | Status c \<Rightarrow> Some (scheduleRetry now 0 c)
           | NoAnswer m \<Rightarrow> Some (scheduleRetry now 0 0)
           | BadRequest m \<Rightarrow> None)
      | ToSubject sub \<Rightarrow>
          Some (if accepted a then \<lparr>up_status = DvDelivered, up_code = None, up_body = None, up_attempts = 0, up_next = None, up_delivered = Some now\<rparr>
                else \<lparr>up_status = DvFailed, up_code = None, up_body = Some (answer_text a), up_attempts = 0, up_next = Some (now + retryBackoffSchedule ! 0), up_delivered = None\<rparr>))"

definition retry_outcome :: "int \<Rightarrow> delivery \<Rightarrow> answer \<Rightarrow> delivery_params" where
  "retry_outcome now d a =
     (let n = dv_attempts d + 1
      in if accepted a then \<lparr>up_status = DvDelivered, up_code = None, up_body = None, up_attempts = n, up_next = None, up_delivered = Some now\<rparr>
         else if maxRetryAttempts \<le> n
         then \<lparr>up_status = DvDead, up_code = dv_code d, up_body = Some (answer_text a), up_attempts = n, up_next = None, up_delivered = None\<rparr>
         else \<lparr>up_status = DvFailed, up_code = dv_code d, up_body = Some (answer_text a), up_attempts = n,
                up_next = Some (now + retryBackoffSchedule ! min (nat n) (length retryBackoffSchedule - 1)), up_delivered = None\<rparr>)"

definition markDeliveryDeadf :: "delivery \<Rightarrow> string \<Rightarrow> delivery_params" where
  "markDeliveryDeadf d reason =
     \<lparr>up_status = DvDead, up_code = dv_code d, up_body = Some reason, up_attempts = dv_attempts d, up_next = None, up_delivered = None\<rparr>"

section \<open>The engine\<close>

text \<open>
  Decoding of a message (to the document stored as the payload) and of the two action configurations: nothing when it does not parse.
\<close>

record engine_env =
  en_document :: "string \<Rightarrow> string option"
  en_url :: "string \<Rightarrow> string option"
  en_subject :: "string \<Rightarrow> string option"
  en_publisher :: bool
  en_parse_uuid :: "string \<Rightarrow> uuid option"

text \<open>Where a rule's action goes, or why it cannot go anywhere (the reasons without their formatted arguments).\<close>

definition action_target :: "engine_env \<Rightarrow> event_rule \<Rightarrow> string + delivery_target" where
  "action_target e r =
     (case vr_action r of
        ActionTypeWebhook \<Rightarrow> (case en_url e (vr_config r) of None \<Rightarrow> Inl ''webhook config parse error'' | Some u \<Rightarrow> if u = '''' then Inl ''webhook url empty'' else Inr (ToUrl u))
      | ActionTypeNatsPublish \<Rightarrow> (case en_subject e (vr_config r) of None \<Rightarrow> Inl ''nats config parse error'' | Some u \<Rightarrow> if u = '''' then Inl ''nats subject empty'' else Inr (ToSubject u))
      | ActionTypeKafkaPublish \<Rightarrow> Inl ''unsupported action type'')"

text \<open>
  The goroutine of an event: it lists the rules, then creates a row, sends and records for each; \<open>deadline\<close> is the in-flight time of
  the row.  The retry worker: the due rows it has listed and the attempt it is making.
\<close>

datatype task_pc = TList | TNext "event_rule list" | TCreated uuid int delivery_target "event_rule list" | TAnswered uuid int delivery_target answer "event_rule list" | TDone

record event_task =
  tk_event :: string
  tk_payload :: string
  tk_pc :: task_pc

datatype worker_pc = WIdle | WTodo "delivery list" | WReady delivery delivery_target "delivery list" | WSent delivery answer "delivery list"

text \<open>
  The code does not keep the last three: the attempts made with whether they were accepted, the deliveries whose retry could not be
  recorded, and those whose first attempt was recorded after its deadline.
\<close>

record engine =
  eg_rules :: "event_rule list"
  eg_rows :: "delivery list"
  eg_now :: int
  eg_tasks :: "event_task list"
  eg_worker :: worker_pc
  eg_sent :: "(uuid \<times> bool) list"
  eg_lost :: "uuid list"
  eg_late :: "uuid list"

definition engineOrg :: uuid where
  "engineOrg = 1"

text \<open>A write and whether it reached the table.\<close>

definition write_rows :: "db_fault option \<Rightarrow> (delivery list \<Rightarrow> delivery list) \<Rightarrow> engine \<Rightarrow> bool \<times> engine" where
  "write_rows f w s = (case f of Some (Refused m) \<Rightarrow> (False, s) | _ \<Rightarrow> (True, s\<lparr>eg_rows := w (eg_rows s)\<rparr>))"

definition set_task :: "nat \<Rightarrow> task_pc \<Rightarrow> engine \<Rightarrow> engine" where
  "set_task i p s = s\<lparr>eg_tasks := (eg_tasks s)[i := (eg_tasks s ! i)\<lparr>tk_pc := p\<rparr>]\<rparr>"

text \<open>The subjects the engine listens to and their event types; a message that does not parse is dropped.\<close>

definition subscriptions :: "(string \<times> string) list" where
  "subscriptions = [(''events.file.uploaded'', ''file_uploaded''), (''events.file.deleted'', ''file_deleted''), (''events.agent.online'', ''agent_online''),
     (''events.agent.offline'', ''agent_offline''), (''events.agent.approved'', ''agent_approved''), (''events.agent.revoked'', ''agent_revoked'')]"

definition handleNATSMessage :: "engine_env \<Rightarrow> string \<Rightarrow> string \<Rightarrow> engine \<Rightarrow> engine" where
  "handleNATSMessage e subject data s =
     (case (map_of subscriptions subject, en_document e data) of
        (Some ty, Some payload) \<Rightarrow> s\<lparr>eg_tasks := eg_tasks s @ [\<lparr>tk_event = ty, tk_payload = payload, tk_pc = TList\<rparr>]\<rparr>
      | _ \<Rightarrow> s)"

definition HandleEvent_list :: "bool \<Rightarrow> nat \<Rightarrow> engine \<Rightarrow> engine" where
  "HandleEvent_list ok i s = set_task i (if ok then TNext (ListEnabledEventRules engineOrg (tk_event (eg_tasks s ! i)) (eg_rules s)) else TDone) s"

text \<open>
  The next rule: a rule that cannot be delivered is skipped, otherwise its row is created, due after the in-flight time.  The row
  refers to its rule, so the insertion fails when the rule was deleted meanwhile.
\<close>

definition dispatch_next :: "engine_env \<Rightarrow> db_fault option \<Rightarrow> uuid \<Rightarrow> nat \<Rightarrow> event_rule list \<Rightarrow> engine \<Rightarrow> engine option" where
  "dispatch_next e f ident i rules s =
     (case rules of
        [] \<Rightarrow> Some (set_task i TDone s)
      | r # rest \<Rightarrow>
          (case action_target e r of
             Inl reason \<Rightarrow> Some (set_task i (TNext rest) s)
           | Inr tgt \<Rightarrow>
               if exists_where (\<lambda>d. dv_id d = ident) (eg_rows s) then None
               else let deadline = eg_now s + retryBackoffSchedule ! 0;
                        g = (if find_row vr_id (vr_id r) (eg_rules s) = None then Some (Refused ''foreign key'') else f);
                        (stored, s1) = write_rows g (CreateEventDelivery ident (vr_id r) (tk_event (eg_tasks s ! i)) (tk_payload (eg_tasks s ! i)) deadline (eg_now s)) s
                    in Some (set_task i (if g = None then TCreated ident deadline tgt rest else TNext rest) s1)))"

text \<open>Without a publisher a publish fails.\<close>

definition attempt_answer :: "engine_env \<Rightarrow> delivery_target \<Rightarrow> answer \<Rightarrow> answer" where
  "attempt_answer e tgt a = (case tgt of ToUrl u \<Rightarrow> a | ToSubject sub \<Rightarrow> if en_publisher e then a else NoAnswer ''no NATS publisher configured'')"

definition first_send :: "engine_env \<Rightarrow> answer \<Rightarrow> nat \<Rightarrow> uuid \<Rightarrow> int \<Rightarrow> delivery_target \<Rightarrow> event_rule list \<Rightarrow> engine \<Rightarrow> engine" where
  "first_send e a i ident deadline tgt rest s =
     (let a' = attempt_answer e tgt a in set_task i (TAnswered ident deadline tgt a' rest) (s\<lparr>eg_sent := eg_sent s @ [(ident, accepted a')]\<rparr>))"

definition first_record :: "db_fault option \<Rightarrow> nat \<Rightarrow> uuid \<Rightarrow> int \<Rightarrow> delivery_target \<Rightarrow> answer \<Rightarrow> event_rule list \<Rightarrow> engine \<Rightarrow> engine" where
  "first_record f i ident deadline tgt a rest s =
     set_task i (TNext rest)
       (case first_outcome (eg_now s) tgt a of
          None \<Rightarrow> s
        | Some p \<Rightarrow>
            (case write_rows f (UpdateEventDelivery ident p) s of
               (stored, s1) \<Rightarrow> if stored \<and> deadline \<le> eg_now s then s1\<lparr>eg_late := ident # eg_late s1\<rparr> else s1))"

definition processRetries :: "bool \<Rightarrow> engine \<Rightarrow> engine" where
  "processRetries ok s = (if ok then s\<lparr>eg_worker := WTodo (ListPendingEventDeliveries (eg_now s) (eg_rows s))\<rparr> else s)"

definition retry_note :: "bool \<Rightarrow> uuid \<Rightarrow> engine \<Rightarrow> engine" where
  "retry_note stored i s = (if stored then s else s\<lparr>eg_lost := i # eg_lost s\<rparr>)"

definition retryDelivery_rule :: "engine_env \<Rightarrow> bool \<Rightarrow> db_fault option \<Rightarrow> delivery list \<Rightarrow> engine \<Rightarrow> engine" where
  "retryDelivery_rule e ok f todo s =
     (case todo of
        [] \<Rightarrow> s\<lparr>eg_worker := WIdle\<rparr>
      | d # rest \<Rightarrow>
          (case (if ok then GetEventRuleByID (dv_rule d) (eg_rules s) else None) of
             None \<Rightarrow> s\<lparr>eg_worker := WTodo rest\<rparr>
           | Some r \<Rightarrow>
               (case action_target e r of
                  Inl reason \<Rightarrow> (snd (write_rows f (UpdateEventDelivery (dv_id d) (markDeliveryDeadf d reason)) s))\<lparr>eg_worker := WTodo rest\<rparr>
                | Inr tgt \<Rightarrow> s\<lparr>eg_worker := WReady d tgt rest\<rparr>)))"

definition retry_send :: "engine_env \<Rightarrow> answer \<Rightarrow> delivery \<Rightarrow> delivery_target \<Rightarrow> delivery list \<Rightarrow> engine \<Rightarrow> engine" where
  "retry_send e a d tgt rest s =
     (let a' = attempt_answer e tgt a in s\<lparr>eg_sent := eg_sent s @ [(dv_id d, accepted a')], eg_worker := WSent d a' rest\<rparr>)"

definition retry_record :: "db_fault option \<Rightarrow> delivery \<Rightarrow> answer \<Rightarrow> delivery list \<Rightarrow> engine \<Rightarrow> engine" where
  "retry_record f d a rest s =
     (case write_rows f (UpdateEventDelivery (dv_id d) (retry_outcome (eg_now s) d a)) s of
        (stored, s1) \<Rightarrow> retry_note stored (dv_id d) (s1\<lparr>eg_worker := WTodo rest\<rparr>))"

text \<open>A restart of the process drops the goroutines; the tables stay.\<close>

definition restart :: "engine \<Rightarrow> engine" where
  "restart s = (case eg_worker s of WSent d a rest \<Rightarrow> retry_note False (dv_id d) s | _ \<Rightarrow> s)\<lparr>eg_tasks := [], eg_worker := WIdle\<rparr>"

section \<open>Event rules over REST\<close>

record event_rule_request =
  eq_name :: string
  eq_event :: string
  eq_filter :: string
  eq_action :: string
  eq_config :: string
  eq_enabled :: bool

datatype event_reply = EventProblem nat string | EventRuleReply nat event_rule | EventRules "event_rule list" | EventNoContent

text \<open>A body that does not parse is absent; the fields tagged \<^verbatim>\<open>binding:"required"\<close> must not be empty.\<close>

definition bind_event_rule :: "event_rule_request option \<Rightarrow> event_rule_request option" where
  "bind_event_rule body =
     (case body of None \<Rightarrow> None | Some q \<Rightarrow> if '''' \<in> {eq_name q, eq_event q, eq_action q, eq_config q} then None else Some q)"

definition validateEventAction :: "engine_env \<Rightarrow> string \<Rightarrow> string \<Rightarrow> string + action_type" where
  "validateEventAction e act config =
     (if act = ''webhook''
      then (case en_url e config of None \<Rightarrow> Inl ''INVALID_ACTION_CONFIG'' | Some u \<Rightarrow> if u = '''' then Inl ''INVALID_ACTION_CONFIG'' else Inr ActionTypeWebhook)
      else if act = ''nats_publish''
      then (case en_subject e config of None \<Rightarrow> Inl ''INVALID_ACTION_CONFIG'' | Some u \<Rightarrow> if u = '''' then Inl ''INVALID_ACTION_CONFIG'' else Inr ActionTypeNatsPublish)
      else Inl ''INVALID_ACTION_TYPE'')"

definition filter_default :: "string \<Rightarrow> string" where
  "filter_default v = (if v = '''' then ''{}'' else v)"

text \<open>The event type is an enumeration of the database.\<close>

definition CreateEventRule :: "event_rule \<Rightarrow> event_rule list \<Rightarrow> (db_error + event_rule) \<times> event_rule list" where
  "CreateEventRule new rules =
     (if vr_event new \<notin> snd ` set subscriptions \<or> exists_where (\<lambda>r. vr_id r = vr_id new) rules then (Inl (DriverError ''constraint''), rules)
      else (Inr new, rules @ [new]))"

definition UpdateEventRule :: "uuid \<Rightarrow> event_rule_request \<Rightarrow> action_type \<Rightarrow> int \<Rightarrow> event_rule list \<Rightarrow> (db_error + event_rule) \<times> event_rule list" where
  "UpdateEventRule i q act now rules =
     (if eq_event q \<notin> snd ` set subscriptions then (Inl (DriverError ''constraint''), rules)
      else let rules' = update_where (\<lambda>r. vr_id r = i) (\<lambda>r. r\<lparr>vr_name := eq_name q, vr_event := eq_event q, vr_filter := filter_default (eq_filter q), vr_action := act,
                 vr_config := eq_config q, vr_enabled := eq_enabled q, vr_updated := now\<rparr>) rules
           in (case find_row vr_id i rules' of None \<Rightarrow> Inl ErrNoRows | Some r \<Rightarrow> Inr r, rules'))"

text \<open>Deliveries refer to their rule and nothing cascades.\<close>

definition DeleteEventRule :: "uuid \<Rightarrow> delivery list \<Rightarrow> event_rule list \<Rightarrow> (db_error + unit) \<times> event_rule list" where
  "DeleteEventRule i rows rules =
     (if exists_where (\<lambda>d. dv_rule d = i) rows then (Inl (DriverError ''foreign key''), rules)
      else (Inr (), delete_where (\<lambda>r. vr_id r = i) rules))"

definition ListEventRules :: "uuid \<Rightarrow> event_rule list \<Rightarrow> event_rule list" where
  "ListEventRules org rules = order_by (\<lambda>r. - vr_created r) (select_where (\<lambda>r. vr_org r = org) rules)"

definition rule_stmt_run :: "db_fault option \<Rightarrow> (db_error + 'a) \<times> event_rule list \<Rightarrow> engine \<Rightarrow> (db_error + 'a) \<times> engine" where
  "rule_stmt_run f res s =
     (case f of
        Some (Refused m) \<Rightarrow> (Inl (DriverError m), s)
      | Some (AnswerLost m) \<Rightarrow> (Inl (DriverError m), s\<lparr>eg_rules := snd res\<rparr>)
      | None \<Rightarrow> (fst res, s\<lparr>eg_rules := snd res\<rparr>))"

definition claim_uuid :: "engine_env \<Rightarrow> string option \<Rightarrow> uuid" where
  "claim_uuid e c = (case c of None \<Rightarrow> 0 | Some v \<Rightarrow> (case en_parse_uuid e v of None \<Rightarrow> 0 | Some i \<Rightarrow> i))"

definition requested_event_rule :: "uuid \<Rightarrow> uuid \<Rightarrow> uuid \<Rightarrow> int \<Rightarrow> action_type \<Rightarrow> event_rule_request \<Rightarrow> event_rule" where
  "requested_event_rule ident org caller now act q =
     \<lparr>vr_id = ident, vr_org = org, vr_name = eq_name q, vr_event = eq_event q, vr_filter = filter_default (eq_filter q), vr_action = act, vr_config = eq_config q,
      vr_enabled = eq_enabled q, vr_created_by = (if caller = 0 then None else Some caller), vr_created = now, vr_updated = now\<rparr>"

definition EventRules_Create :: "engine_env \<Rightarrow> db_fault option \<Rightarrow> uuid \<Rightarrow> string option \<Rightarrow> string option \<Rightarrow> event_rule_request option \<Rightarrow> engine \<Rightarrow> event_reply \<times> engine" where
  "EventRules_Create e f ident org caller body s =
     (case bind_event_rule body of
        None \<Rightarrow> (EventProblem 400 ''INVALID_REQUEST'', s)
      | Some q \<Rightarrow>
          (case validateEventAction e (eq_action q) (eq_config q) of
             Inl code \<Rightarrow> (EventProblem 400 code, s)
           | Inr act \<Rightarrow>
               (case rule_stmt_run f (CreateEventRule (requested_event_rule ident (claim_uuid e org) (claim_uuid e caller) (eg_now s) act q) (eg_rules s)) s of
                  (Inl err, s1) \<Rightarrow> (EventProblem 500 ''INTERNAL_ERROR'', s1)
                | (Inr r, s1) \<Rightarrow> (EventRuleReply 201 r, s1))))"

definition EventRules_Update :: "engine_env \<Rightarrow> db_fault option \<Rightarrow> string \<Rightarrow> event_rule_request option \<Rightarrow> engine \<Rightarrow> event_reply \<times> engine" where
  "EventRules_Update e f rid body s =
     (case en_parse_uuid e rid of
        None \<Rightarrow> (EventProblem 400 ''INVALID_ID'', s)
      | Some i \<Rightarrow>
          (case bind_event_rule body of
             None \<Rightarrow> (EventProblem 400 ''INVALID_REQUEST'', s)
           | Some q \<Rightarrow>
               (case validateEventAction e (eq_action q) (eq_config q) of
                  Inl code \<Rightarrow> (EventProblem 400 code, s)
                | Inr act \<Rightarrow>
                    (case rule_stmt_run f (UpdateEventRule i q act (eg_now s) (eg_rules s)) s of
                       (Inl err, s1) \<Rightarrow> (if err = ErrNoRows then EventProblem 404 ''NOT_FOUND'' else EventProblem 500 ''INTERNAL_ERROR'', s1)
                     | (Inr r, s1) \<Rightarrow> (EventRuleReply 200 r, s1)))))"

definition EventRules_Delete :: "engine_env \<Rightarrow> db_fault option \<Rightarrow> string \<Rightarrow> engine \<Rightarrow> event_reply \<times> engine" where
  "EventRules_Delete e f rid s =
     (case en_parse_uuid e rid of
        None \<Rightarrow> (EventProblem 400 ''INVALID_ID'', s)
      | Some i \<Rightarrow>
          (case rule_stmt_run f (DeleteEventRule i (eg_rows s) (eg_rules s)) s of
             (Inl err, s1) \<Rightarrow> (EventProblem 500 ''INTERNAL_ERROR'', s1)
           | (Inr u, s1) \<Rightarrow> (EventNoContent, s1)))"

definition EventRules_List :: "engine_env \<Rightarrow> db_fault option \<Rightarrow> string option \<Rightarrow> engine \<Rightarrow> event_reply \<times> engine" where
  "EventRules_List e f org s = (if f = None then EventRules (ListEventRules (claim_uuid e org) (eg_rules s)) else EventProblem 500 ''INTERNAL_ERROR'', s)"

datatype event_call =
    ListCall "string option"
  | CreateCall "string option" "string option" "event_rule_request option"
  | UpdateCall string "event_rule_request option"
  | DeleteCall string

fun event_api :: "engine_env \<Rightarrow> db_fault option \<Rightarrow> uuid \<Rightarrow> event_call \<Rightarrow> engine \<Rightarrow> event_reply \<times> engine" where
  "event_api e f ident (ListCall org) s = EventRules_List e f org s"
| "event_api e f ident (CreateCall org caller body) s = EventRules_Create e f ident org caller body s"
| "event_api e f ident (UpdateCall rid body) s = EventRules_Update e f rid body s"
| "event_api e f ident (DeleteCall rid) s = EventRules_Delete e f rid s"


section \<open>Steps\<close>

datatype eg_action =
    Message string string
  | Pass int
  | Api event_call "db_fault option" uuid
  | TaskStep nat bool "db_fault option" uuid answer
  | WorkerStep bool "db_fault option" answer
  | Restart

fun task_step :: "engine_env \<Rightarrow> nat \<Rightarrow> bool \<Rightarrow> db_fault option \<Rightarrow> uuid \<Rightarrow> answer \<Rightarrow> task_pc \<Rightarrow> engine \<Rightarrow> engine option" where
  "task_step e i ok f ident a TList s = Some (HandleEvent_list ok i s)"
| "task_step e i ok f ident a (TNext rules) s = dispatch_next e f ident i rules s"
| "task_step e i ok f ident a (TCreated x deadline tgt rest) s = Some (first_send e a i x deadline tgt rest s)"
| "task_step e i ok f ident a (TAnswered x deadline tgt ans rest) s = Some (first_record f i x deadline tgt ans rest s)"
| "task_step e i ok f ident a TDone s = None"

fun worker_step :: "engine_env \<Rightarrow> bool \<Rightarrow> db_fault option \<Rightarrow> answer \<Rightarrow> worker_pc \<Rightarrow> engine \<Rightarrow> engine" where
  "worker_step e ok f a WIdle s = processRetries ok s"
| "worker_step e ok f a (WTodo todo) s = retryDelivery_rule e ok f todo s"
| "worker_step e ok f a (WReady d tgt rest) s = retry_send e a d tgt rest s"
| "worker_step e ok f a (WSent d ans rest) s = retry_record f d ans rest s"

fun eg_act :: "engine_env \<Rightarrow> eg_action \<Rightarrow> engine \<Rightarrow> engine option" where
  "eg_act e (Message subject data) s = Some (handleNATSMessage e subject data s)"
| "eg_act e (Pass dt) s = (if 0 \<le> dt then Some (s\<lparr>eg_now := eg_now s + dt\<rparr>) else None)"
| "eg_act e (Api call f ident) s = Some (snd (event_api e f ident call s))"
| "eg_act e (TaskStep i ok f ident a) s = (if i < length (eg_tasks s) then task_step e i ok f ident a (tk_pc (eg_tasks s ! i)) s else None)"
| "eg_act e (WorkerStep ok f a) s = Some (worker_step e ok f a (eg_worker s) s)"
| "eg_act e Restart s = Some (restart s)"

inductive eg_step :: "engine_env \<Rightarrow> engine \<Rightarrow> engine \<Rightarrow> bool" for e where
  eg_act: "eg_act e x s = Some s' \<Longrightarrow> eg_step e s s'"

definition eg_init :: "engine \<Rightarrow> bool" where
  "eg_init s \<longleftrightarrow> unique_key vr_id (eg_rules s) \<and> eg_rows s = [] \<and> eg_tasks s = [] \<and> eg_worker s = WIdle \<and> eg_sent s = [] \<and> eg_lost s = [] \<and> eg_late s = []"

end
