(* ===== verification/Engine_Laws.thy ===== *)
theory Engine_Laws
  imports Engine
begin

text \<open>
  What the tables of the event engine promise under every interleaving of the goroutines of events, the retry worker, faults and restarts.
\<close>

section \<open>The invariant\<close>

fun active :: "task_pc \<Rightarrow> (uuid \<times> int) option" where
  "active (TCreated i deadline tgt rest) = Some (i, deadline)"
| "active (TAnswered i deadline tgt a rest) = Some (i, deadline)"
| "active p = None"

fun active_id :: "task_pc \<Rightarrow> uuid option" where
  "active_id (TCreated i deadline tgt rest) = Some i"
| "active_id (TAnswered i deadline tgt a rest) = Some i"
| "active_id p = None"

lemma active_active_id: "active p = Some (i, deadline) \<Longrightarrow> active_id p = Some i"
  by (cases p) simp_all

fun unsent_pc :: "task_pc \<Rightarrow> uuid option" where
  "unsent_pc (TCreated i deadline tgt rest) = Some i"
| "unsent_pc p = None"

definition unsent :: "uuid \<Rightarrow> event_task list \<Rightarrow> bool" where
  "unsent i ts \<longleftrightarrow> (\<exists>t\<in>set ts. unsent_pc (tk_pc t) = Some i)"

fun copies :: "worker_pc \<Rightarrow> delivery list" where
  "copies WIdle = []"
| "copies (WTodo todo) = todo"
| "copies (WReady d tgt rest) = d # rest"
| "copies (WSent d a rest) = d # rest"

fun in_flight :: "uuid \<Rightarrow> worker_pc \<Rightarrow> bool" where
  "in_flight i (WSent d a rest) \<longleftrightarrow> dv_id d = i"
| "in_flight i w \<longleftrightarrow> False"

definition attempts_made :: "uuid \<Rightarrow> engine \<Rightarrow> nat" where
  "attempts_made i s = count_where (\<lambda>p. fst p = i) (eg_sent s)"

definition unrecorded :: "uuid \<Rightarrow> engine \<Rightarrow> nat" where
  "unrecorded i s = count_where (\<lambda>x. x = i) (eg_lost s)"

definition allowance :: "uuid \<Rightarrow> engine \<Rightarrow> int" where
  "allowance i s = (if unsent i (eg_tasks s) then 0 else 1) + int (unrecorded i s) + (if i \<in> set (eg_late s) then 5 else 0)
     + (if in_flight i (eg_worker s) then 1 else 0)"

definition scheduled_ok :: "delivery \<Rightarrow> bool" where
  "scheduled_ok r \<longleftrightarrow> 0 \<le> dv_attempts r \<and> dv_attempts r \<le> 5
     \<and> (if dv_status r \<in> {DvPending, DvFailed} then dv_attempts r \<le> 4 \<and> dv_next r \<noteq> None else dv_next r = None)"

definition row_ok :: "engine \<Rightarrow> delivery \<Rightarrow> bool" where
  "row_ok s r \<longleftrightarrow> scheduled_ok r \<and> (dv_status r = DvDelivered \<longrightarrow> (dv_id r, True) \<in> set (eg_sent s))
     \<and> int (attempts_made (dv_id r) s) \<le> dv_attempts r + allowance (dv_id r) s"

text \<open>Before its deadline the row of a running dispatch is as it was created, and the worker has not listed it.\<close>

definition task_ok :: "engine \<Rightarrow> event_task \<Rightarrow> bool" where
  "task_ok s t \<longleftrightarrow> (\<forall>i deadline. active (tk_pc t) = Some (i, deadline) \<longrightarrow> i \<notin> set (eg_late s) \<and> (\<exists>r\<in>set (eg_rows s). dv_id r = i)
       \<and> (eg_now s < deadline \<longrightarrow> i \<notin> dv_id ` set (copies (eg_worker s))
            \<and> (\<forall>r\<in>set (eg_rows s). dv_id r = i \<longrightarrow> dv_attempts r = 0 \<and> dv_next r = Some deadline)))
     \<and> (\<forall>i deadline tgt a rest. tk_pc t = TAnswered i deadline tgt a rest \<longrightarrow> accepted a \<longrightarrow> (i, True) \<in> set (eg_sent s))"

definition tasks_apart :: "event_task list \<Rightarrow> bool" where
  "tasks_apart ts \<longleftrightarrow> (\<forall>j k. j < length ts \<longrightarrow> k < length ts \<longrightarrow> active_id (tk_pc (ts ! j)) \<noteq> None \<longrightarrow>
     active_id (tk_pc (ts ! j)) = active_id (tk_pc (ts ! k)) \<longrightarrow> j = k)"

definition worker_ok :: "engine \<Rightarrow> bool" where
  "worker_ok s \<longleftrightarrow> distinct (map dv_id (copies (eg_worker s)))
     \<and> (\<forall>d\<in>set (copies (eg_worker s)). 0 \<le> dv_attempts d \<and> dv_attempts d \<le> 4 \<and> (\<exists>r\<in>set (eg_rows s). dv_id r = dv_id d)
          \<and> (\<forall>r\<in>set (eg_rows s). dv_id r = dv_id d \<longrightarrow> dv_attempts r \<le> dv_attempts d))
     \<and> (\<forall>d a rest. eg_worker s = WSent d a rest \<longrightarrow> accepted a \<longrightarrow> (dv_id d, True) \<in> set (eg_sent s))"

definition eg_inv :: "engine \<Rightarrow> bool" where
  "eg_inv s \<longleftrightarrow> unique_key dv_id (eg_rows s) \<and> fst ` set (eg_sent s) \<union> set (eg_late s) \<subseteq> dv_id ` set (eg_rows s)
     \<and> (\<forall>r\<in>set (eg_rows s). row_ok s r) \<and> (\<forall>t\<in>set (eg_tasks s). task_ok s t) \<and> tasks_apart (eg_tasks s) \<and> worker_ok s"

lemma eg_invI:
  assumes "unique_key dv_id (eg_rows s)" "fst ` set (eg_sent s) \<subseteq> dv_id ` set (eg_rows s)" "set (eg_late s) \<subseteq> dv_id ` set (eg_rows s)"
    and "\<And>r. r \<in> set (eg_rows s) \<Longrightarrow> row_ok s r" "\<And>t. t \<in> set (eg_tasks s) \<Longrightarrow> task_ok s t" "tasks_apart (eg_tasks s)" "worker_ok s"
  shows "eg_inv s"
  using assms by (simp add: eg_inv_def)

lemma eg_invD:
  assumes "eg_inv s"
  shows "unique_key dv_id (eg_rows s)" "fst ` set (eg_sent s) \<subseteq> dv_id ` set (eg_rows s)" "set (eg_late s) \<subseteq> dv_id ` set (eg_rows s)"
    and "r \<in> set (eg_rows s) \<Longrightarrow> row_ok s r" "t \<in> set (eg_tasks s) \<Longrightarrow> task_ok s t" "tasks_apart (eg_tasks s)" "worker_ok s"
  using assms by (simp_all add: eg_inv_def)

section \<open>Tasks\<close>

lemma set_update_nth: "i < length xs \<Longrightarrow> t \<in> set (xs[i := y]) \<Longrightarrow> t = y \<or> (\<exists>j<length xs. j \<noteq> i \<and> t = xs ! j)"
  by (auto simp: in_set_conv_nth nth_list_update split: if_splits)

lemma tasks_apart_update:
  assumes "tasks_apart ts" "i < length ts"
    and "\<And>x. active_id p = Some x \<Longrightarrow> active_id (tk_pc (ts ! i)) \<noteq> Some x \<Longrightarrow> \<forall>t\<in>set ts. active_id (tk_pc t) \<noteq> Some x"
  shows "tasks_apart (ts[i := (ts ! i)\<lparr>tk_pc := p\<rparr>])"
  unfolding tasks_apart_def
proof (intro allI impI)
  fix j k
  let ?ts = "ts[i := (ts ! i)\<lparr>tk_pc := p\<rparr>]"
  let ?a = "\<lambda>ts j. active_id (tk_pc (ts ! j))"
  assume a: "j < length ?ts" "k < length ?ts" "active_id (tk_pc (?ts ! j)) \<noteq> None" "?a ?ts j = ?a ?ts k"
  obtain x where x: "?a ?ts j = Some x" using a(3) by auto
  have other: "?a ts m \<noteq> Some x" if "active_id p = Some x" "m < length ts" "m \<noteq> i" for m
  proof (cases "?a ts i = Some x")
    case True
    show ?thesis
    proof
      assume m: "?a ts m = Some x"
      have "m = i" using assms(1) unfolding tasks_apart_def using that(2) assms(2) m True by (metis option.distinct(1))
      then show False using that(3) by simp
    qed
  next
    case False
    then show ?thesis using assms(3)[OF that(1)] that(2) nth_mem by blast
  qed
  consider "j = i" "k = i" | "j = i" "k \<noteq> i" | "j \<noteq> i" "k = i" | "j \<noteq> i" "k \<noteq> i" by blast
  then show "j = k"
  proof cases
    case 2
    then show ?thesis using other[of k] a x assms(2) by simp
  next
    case 3
    then show ?thesis using other[of j] a x assms(2) by simp
  next
    case 4
    then show ?thesis using assms(1) a unfolding tasks_apart_def by simp
  qed simp
qed

lemma unsent_update:
  assumes "i < length ts" "tasks_apart ts"
  shows "unsent x (ts[i := (ts ! i)\<lparr>tk_pc := p\<rparr>]) \<longleftrightarrow> unsent_pc p = Some x \<or> (unsent x ts \<and> unsent_pc (tk_pc (ts ! i)) \<noteq> Some x)"
proof -
  have act: "active_id q = Some y" if "unsent_pc q = Some y" for q y using that by (cases q) auto
  have only: "j = i" if "j < length ts" "unsent_pc (tk_pc (ts ! j)) = Some x" "unsent_pc (tk_pc (ts ! i)) = Some x" for j
    using assms act[OF that(2)] act[OF that(3)] that(1) unfolding tasks_apart_def by (metis option.distinct(1))
  have "unsent x (ts[i := (ts ! i)\<lparr>tk_pc := p\<rparr>]) \<longleftrightarrow> (\<exists>j<length ts. unsent_pc (tk_pc (ts[i := (ts ! i)\<lparr>tk_pc := p\<rparr>] ! j)) = Some x)"
    unfolding unsent_def by (metis in_set_conv_nth length_list_update)
  also have "\<dots> \<longleftrightarrow> unsent_pc p = Some x \<or> (\<exists>j<length ts. j \<noteq> i \<and> unsent_pc (tk_pc (ts ! j)) = Some x)"
    using assms(1) by (auto simp: nth_list_update split: if_splits)
  also have "\<dots> \<longleftrightarrow> unsent_pc p = Some x \<or> (unsent x ts \<and> unsent_pc (tk_pc (ts ! i)) \<noteq> Some x)"
    unfolding unsent_def using only by (metis in_set_conv_nth)
  finally show ?thesis .
qed

section \<open>Steps\<close>

definition updated_row :: "uuid \<Rightarrow> delivery_params \<Rightarrow> delivery \<Rightarrow> delivery" where
  "updated_row i p r = (if dv_id r = i then r\<lparr>dv_status := up_status p, dv_code := up_code p, dv_body := up_body p,
     dv_attempts := up_attempts p, dv_next := up_next p, dv_delivered := up_delivered p\<rparr> else r)"

lemma UpdateEventDelivery_map: "UpdateEventDelivery i p rows = map (updated_row i p) rows"
  by (simp add: UpdateEventDelivery_def update_where_def updated_row_def[abs_def])

lemma updated_row_simps [simp]:
  "dv_id (updated_row i p r) = dv_id r"
  "dv_id r \<noteq> i \<Longrightarrow> updated_row i p r = r"
  "dv_id r = i \<Longrightarrow> dv_attempts (updated_row i p r) = up_attempts p"
  "dv_id r = i \<Longrightarrow> dv_status (updated_row i p r) = up_status p"
  "dv_id r = i \<Longrightarrow> dv_next (updated_row i p r) = up_next p"
  by (simp_all add: updated_row_def)

definition params_ok :: "delivery_params \<Rightarrow> bool" where
  "params_ok p \<longleftrightarrow> 0 \<le> up_attempts p \<and> up_attempts p \<le> 5
     \<and> (if up_status p \<in> {DvPending, DvFailed} then up_attempts p \<le> 4 \<and> up_next p \<noteq> None else up_next p = None)"

text \<open>An outcome is written.\<close>

lemma inv_rows:
  assumes inv: "eg_inv s" and rows: "eg_rows s' = UpdateEventDelivery i p (eg_rows s)"
    and same: "eg_sent s' = eg_sent s" "eg_now s' = eg_now s" "eg_tasks s' = eg_tasks s"
    and late: "set (eg_late s') \<subseteq> insert i (set (eg_late s))" "i \<in> dv_id ` set (eg_rows s)"
    and p: "params_ok p" "up_status p = DvDelivered \<Longrightarrow> (i, True) \<in> set (eg_sent s)"
    and bound: "int (attempts_made i s) \<le> up_attempts p + allowance i s'" "\<And>x. x \<noteq> i \<Longrightarrow> allowance x s \<le> allowance x s'"
    and tasks: "\<And>t deadline. t \<in> set (eg_tasks s) \<Longrightarrow> active (tk_pc t) = Some (i, deadline) \<Longrightarrow> deadline \<le> eg_now s \<and> i \<notin> set (eg_late s')"
    and worker: "distinct (map dv_id (copies (eg_worker s')))" "set (copies (eg_worker s')) \<subseteq> set (copies (eg_worker s))"
      "\<And>d. d \<in> set (copies (eg_worker s')) \<Longrightarrow> dv_id d = i \<Longrightarrow> up_attempts p \<le> dv_attempts d"
      "eg_worker s' = eg_worker s \<or> (\<forall>d a rest. eg_worker s' \<noteq> WSent d a rest)"
  shows "eg_inv s'"
proof (rule eg_invI)
  have set: "set (eg_rows s') = updated_row i p ` set (eg_rows s)" by (simp add: rows UpdateEventDelivery_map)
  have ids: "dv_id ` set (eg_rows s') = dv_id ` set (eg_rows s)" by (simp add: set image_image)
  have made: "attempts_made x s' = attempts_made x s" for x by (simp add: attempts_made_def same)
  have "map dv_id (eg_rows s') = map dv_id (eg_rows s)" by (simp add: rows UpdateEventDelivery_map)
  then show "unique_key dv_id (eg_rows s')" using eg_invD(1)[OF inv] by (simp add: unique_key_def)
  show "fst ` set (eg_sent s') \<subseteq> dv_id ` set (eg_rows s')" using eg_invD(2)[OF inv] by (simp add: ids same)
  show "set (eg_late s') \<subseteq> dv_id ` set (eg_rows s')" using eg_invD(3)[OF inv] late by (auto simp: ids)
  show "tasks_apart (eg_tasks s')" using eg_invD(6)[OF inv] by (simp add: same)
  show "row_ok s' q" if q: "q \<in> set (eg_rows s')" for q
  proof -
    obtain r where r: "r \<in> set (eg_rows s)" "q = updated_row i p r" using q set by auto
    show ?thesis
    proof (cases "dv_id r = i")
      case True
      then show ?thesis using p bound(1) r(2) by (auto simp: row_ok_def scheduled_ok_def params_ok_def made same split: if_splits)
    next
      case False
      then show ?thesis using eg_invD(4)[OF inv r(1)] bound(2)[OF False] r(2) by (auto simp: row_ok_def made same)
    qed
  qed
  show "task_ok s' t" if "t \<in> set (eg_tasks s')" for t
  proof -
    have t: "task_ok s t" "t \<in> set (eg_tasks s)" using eg_invD(5)[OF inv] that same by auto
    have "x \<notin> set (eg_late s') \<and> (\<exists>r\<in>set (eg_rows s'). dv_id r = x) \<and> (eg_now s' < deadline \<longrightarrow> x \<notin> dv_id ` set (copies (eg_worker s'))
            \<and> (\<forall>r\<in>set (eg_rows s'). dv_id r = x \<longrightarrow> dv_attempts r = 0 \<and> dv_next r = Some deadline))"
      if x: "active (tk_pc t) = Some (x, deadline)" for x deadline
    proof (cases "x = i")
      case True
      then show ?thesis using tasks[OF t(2), of deadline] x late(2) by (auto simp: same set)
    next
      case False
      then show ?thesis using t(1) x late(1) worker(2) unfolding task_ok_def by (auto simp: same set)
    qed
    then show ?thesis using t(1) unfolding task_ok_def by (auto simp: same)
  qed
  show "worker_ok s'"
  proof -
    have "dv_attempts r' \<le> dv_attempts d" if d: "d \<in> set (copies (eg_worker s'))" "r' \<in> set (eg_rows s')" "dv_id r' = dv_id d" for d r'
    proof -
      obtain r where r: "r \<in> set (eg_rows s)" "r' = updated_row i p r" using d(2) set by auto
      show ?thesis
      proof (cases "dv_id r = i")
        case True
        then show ?thesis using worker(3)[OF d(1)] r(2) d(3) by simp
      next
        case False
        then show ?thesis using eg_invD(7)[OF inv] r d worker(2) unfolding worker_ok_def by auto
      qed
    qed
    moreover have "0 \<le> dv_attempts d \<and> dv_attempts d \<le> 4 \<and> (\<exists>r\<in>set (eg_rows s'). dv_id r = dv_id d)" if "d \<in> set (copies (eg_worker s'))" for d
      using eg_invD(7)[OF inv] worker(2) that unfolding worker_ok_def by (auto simp: set)
    ultimately show ?thesis using worker(1,4) eg_invD(7)[OF inv] unfolding worker_ok_def by (auto simp: same)
  qed
qed

text \<open>A task moves on without an attempt.\<close>

lemma inv_task:
  assumes inv: "eg_inv s" and i: "i < length (eg_tasks s)" "unsent_pc (tk_pc (eg_tasks s ! i)) = None" and p: "active_id p = None"
  shows "eg_inv (set_task i p s)"
proof (rule eg_invI)
  let ?ts = "(eg_tasks s)[i := (eg_tasks s ! i)\<lparr>tk_pc := p\<rparr>]"
  have act: "active p = None" "unsent_pc p = None" "\<And>x D g a r. p \<noteq> TAnswered x D g a r" using p by (cases p; simp)+
  have un: "unsent x ?ts = unsent x (eg_tasks s)" for x
    using unsent_update[OF i(1) eg_invD(6)[OF inv], of x p] i(2) act by simp
  have al: "allowance x (set_task i p s) = allowance x s" for x by (simp add: allowance_def set_task_def un unrecorded_def)
  show "row_ok (set_task i p s) r" if "r \<in> set (eg_rows (set_task i p s))" for r
    using eg_invD(4)[OF inv, of r] that by (simp add: row_ok_def al) (simp add: set_task_def attempts_made_def)
  show "task_ok (set_task i p s) t" if "t \<in> set (eg_tasks (set_task i p s))" for t
  proof -
    have "t = (eg_tasks s ! i)\<lparr>tk_pc := p\<rparr> \<or> t \<in> set (eg_tasks s)" using that i(1) by (auto simp: set_task_def dest: set_update_nth)
    then show ?thesis using act eg_invD(5)[OF inv, of t] by (auto simp: task_ok_def set_task_def)
  qed
  show "tasks_apart (eg_tasks (set_task i p s))" using tasks_apart_update[OF eg_invD(6)[OF inv] i(1), of p] p by (simp add: set_task_def)
qed (use eg_invD[OF inv] in \<open>simp_all add: set_task_def worker_ok_def\<close>)

lemma set_task_rows: "set_task i p (s\<lparr>eg_rows := rows, eg_late := late\<rparr>) = (set_task i p s)\<lparr>eg_rows := rows, eg_late := late\<rparr>"
  by (simp add: set_task_def)

lemma first_params:
  assumes "first_outcome now tgt a = Some p"
  shows "params_ok p" "up_attempts p = 0" "up_status p = DvDelivered \<Longrightarrow> accepted a"
  using assms by (auto simp: first_outcome_def scheduleRetry_def params_ok_def accepted_def retryBackoffSchedule_def Let_def split: delivery_target.splits answer.splits if_splits)

lemma inv_first_record:
  assumes inv: "eg_inv s" and i: "i < length (eg_tasks s)" "tk_pc (eg_tasks s ! i) = TAnswered x deadline tgt a rest"
  shows "eg_inv (first_record f i x deadline tgt a rest s)"
proof -
  let ?s1 = "set_task i (TNext rest) s"
  have inv1: "eg_inv ?s1" by (rule inv_task[OF inv i(1)]) (simp_all add: i)
  have t: "task_ok s (eg_tasks s ! i)" by (rule eg_invD(5)[OF inv]) (simp add: i)
  have x: "x \<notin> set (eg_late s)" "x \<in> dv_id ` set (eg_rows s)" "accepted a \<Longrightarrow> (x, True) \<in> set (eg_sent s)"
    "eg_now s < deadline \<Longrightarrow> r \<in> set (eg_rows s) \<Longrightarrow> dv_id r = x \<Longrightarrow> dv_attempts r = 0" for r
    using t i(2) unfolding task_ok_def by auto
  have free: "active_id (tk_pc u) \<noteq> Some x" if m: "u \<in> set (eg_tasks ?s1)" for u
  proof
    assume u: "active_id (tk_pc u) = Some x"
    obtain j where j: "j < length (eg_tasks s)" "j \<noteq> i" "u = eg_tasks s ! j"
      using set_update_nth[OF i(1) m[unfolded set_task_def, simplified]] u by auto
    then show False using eg_invD(6)[OF inv] i u unfolding tasks_apart_def by (metis active_id.simps(2) option.distinct(1))
  qed
  have written: "eg_inv (?s1\<lparr>eg_rows := UpdateEventDelivery x p (eg_rows s), eg_late := (if deadline \<le> eg_now s then x # eg_late s else eg_late s)\<rparr>)" (is "eg_inv ?s2")
    if p: "first_outcome (eg_now s) tgt a = Some p" for p
  proof (rule inv_rows[OF inv1, of _ x p])
    obtain r where r: "r \<in> set (eg_rows ?s1)" "dv_id r = x" using x(2) by (auto simp: set_task_def)
    have "row_ok ?s1 r" by (rule eg_invD(4)[OF inv1 r(1)])
    moreover have "\<not> deadline \<le> eg_now s \<Longrightarrow> dv_attempts r = 0" using x(4)[of r] r by (simp add: set_task_def)
    moreover have "allowance x ?s2 = allowance x ?s1 + (if deadline \<le> eg_now s then 5 else 0)" using x(1) by (simp add: allowance_def set_task_def unrecorded_def)
    ultimately show "int (attempts_made x ?s1) \<le> up_attempts p + allowance x ?s2"
      using r(2) first_params(2)[OF p] unfolding row_ok_def scheduled_ok_def by auto
    show "deadline' \<le> eg_now ?s1 \<and> x \<notin> set (eg_late ?s2)" if "u \<in> set (eg_tasks ?s1)" "active (tk_pc u) = Some (x, deadline')" for u deadline'
      using free[OF that(1)] active_active_id[OF that(2)] by simp
    show "up_attempts p \<le> dv_attempts d" if "d \<in> set (copies (eg_worker ?s2))" for d
      using that eg_invD(7)[OF inv] first_params(2)[OF p] by (auto simp: worker_ok_def set_task_def)
    show "distinct (map dv_id (copies (eg_worker ?s2)))" using eg_invD(7)[OF inv] by (simp add: worker_ok_def set_task_def)
  qed (use x first_params[OF p] in \<open>auto simp: set_task_def allowance_def unrecorded_def\<close>)
  have stay: "s\<lparr>eg_rows := rows\<rparr> = s\<lparr>eg_rows := rows, eg_late := eg_late s\<rparr>" for rows by simp
  show ?thesis
  proof (cases "first_outcome (eg_now s) tgt a")
    case None
    then show ?thesis using inv1 by (simp add: first_record_def)
  next
    case (Some p)
    note w = written[OF Some]
    have "first_record f i x deadline tgt a rest s
        = (case f of Some (Refused m) \<Rightarrow> ?s1
           | _ \<Rightarrow> ?s1\<lparr>eg_rows := UpdateEventDelivery x p (eg_rows s), eg_late := (if deadline \<le> eg_now s then x # eg_late s else eg_late s)\<rparr>)"
      by (simp add: first_record_def Some write_rows_def set_task_def split: option.splits db_fault.splits)
    then show ?thesis using inv1 w by (cases "deadline \<le> eg_now s") (simp_all split: option.splits db_fault.splits)
  qed
qed

text \<open>The worker writes the outcome of the delivery it is at.\<close>

lemma inv_worker_write:
  assumes inv: "eg_inv s" and c: "copies (eg_worker s) = d # rest"
    and p: "params_ok p" "dv_attempts d \<le> up_attempts p" "up_status p = DvDelivered \<Longrightarrow> (dv_id d, True) \<in> set (eg_sent s)"
    and b: "in_flight (dv_id d) (eg_worker s) \<Longrightarrow> dv_attempts d < up_attempts p"
  shows "eg_inv (s\<lparr>eg_rows := UpdateEventDelivery (dv_id d) p (eg_rows s), eg_worker := WTodo rest\<rparr>)" (is "eg_inv ?s'")
proof (rule inv_rows[OF inv, of _ "dv_id d" p])
  note w = eg_invD(7)[OF inv, unfolded worker_ok_def c]
  obtain r where r: "r \<in> set (eg_rows s)" "dv_id r = dv_id d" "dv_attempts r \<le> dv_attempts d" using w by auto
  then show "dv_id d \<in> dv_id ` set (eg_rows s)" by (metis imageI)
  show "int (attempts_made (dv_id d) s) \<le> up_attempts p + allowance (dv_id d) ?s'"
    using eg_invD(4)[OF inv r(1)] r p(2) b unfolding row_ok_def allowance_def unrecorded_def by (auto split: if_splits)
  have "in_flight x (eg_worker s) \<Longrightarrow> x = dv_id d" for x using c by (cases "eg_worker s") auto
  then show "allowance x s \<le> allowance x ?s'" if "x \<noteq> dv_id d" for x using that by (auto simp: allowance_def unrecorded_def)
  show "deadline \<le> eg_now s \<and> dv_id d \<notin> set (eg_late ?s')" if "t \<in> set (eg_tasks s)" "active (tk_pc t) = Some (dv_id d, deadline)" for t deadline
    using eg_invD(5)[OF inv that(1)] that(2) c unfolding task_ok_def by (auto simp: not_less[symmetric])
  show "up_attempts p \<le> dv_attempts x" if "x \<in> set (copies (eg_worker ?s'))" "dv_id x = dv_id d" for x
  proof -
    have "dv_id x \<in> set (map dv_id rest)" "dv_id d \<notin> set (map dv_id rest)" using that(1) w by simp_all
    then show ?thesis using that(2) by simp
  qed
qed (use p eg_invD(7)[OF inv] c in \<open>auto simp: worker_ok_def\<close>)

lemma inv_worker_skip:
  assumes inv: "eg_inv s" and c: "set (copies w) \<subseteq> set (copies (eg_worker s))" "distinct (map dv_id (copies w))" "\<And>d a r. w \<noteq> WSent d a r"
    and a: "\<And>x. allowance x s \<le> allowance x s'" and s': "s' = s\<lparr>eg_worker := w, eg_lost := l\<rparr>"
  shows "eg_inv s'"
proof (rule eg_invI)
  show "row_ok s' r" if "r \<in> set (eg_rows s')" for r
    using eg_invD(4)[OF inv, of r] that a[of "dv_id r"] by (auto simp: row_ok_def s' attempts_made_def)
  show "task_ok s' t" if "t \<in> set (eg_tasks s')" for t using eg_invD(5)[OF inv, of t] that c(1) by (fastforce simp: task_ok_def s')
  show "worker_ok s'" using eg_invD(7)[OF inv] c by (auto simp: worker_ok_def s')
qed (use eg_invD[OF inv] in \<open>simp_all add: s'\<close>)

lemma retry_params:
  assumes "0 \<le> dv_attempts d" "dv_attempts d \<le> 4"
  shows "params_ok (retry_outcome now d a)" "up_attempts (retry_outcome now d a) = dv_attempts d + 1"
    "up_status (retry_outcome now d a) = DvDelivered \<Longrightarrow> accepted a"
    "params_ok (markDeliveryDeadf d reason)" "up_attempts (markDeliveryDeadf d reason) = dv_attempts d" "up_status (markDeliveryDeadf d reason) = DvDead"
  using assms by (auto simp: retry_outcome_def params_ok_def maxRetryAttempts_def markDeliveryDeadf_def Let_def split: if_splits)

lemma allowance_worker:
  "allowance x (s\<lparr>eg_worker := w, eg_lost := l\<rparr>)
     = allowance x s - (if in_flight x (eg_worker s) then 1 else 0) - int (unrecorded x s) + (if in_flight x w then 1 else 0) + int (count_where (\<lambda>y. y = x) l)"
  by (simp add: allowance_def unrecorded_def)

lemma inv_worker_step:
  assumes inv: "eg_inv s"
  shows "eg_inv (worker_step e ok f a (eg_worker s) s)"
proof (cases "eg_worker s")
  case WIdle
  have "eg_inv (processRetries True s)"
  proof (rule eg_invI)
    let ?l = "ListPendingEventDeliveries (eg_now s) (eg_rows s)"
    have l: "set ?l = {r \<in> set (eg_rows s). due (eg_now s) r}" by (auto simp: ListPendingEventDeliveries_def sql_simps)
    have un: "r = q" if "r \<in> set (eg_rows s)" "q \<in> set (eg_rows s)" "dv_id r = dv_id q" for r q using eg_invD(1)[OF inv] that by (auto dest: unique_keyD)
    show "row_ok (processRetries True s) r" if "r \<in> set (eg_rows (processRetries True s))" for r
      using eg_invD(4)[OF inv, of r] that WIdle by (simp add: processRetries_def row_ok_def allowance_def unrecorded_def attempts_made_def)
    show "task_ok (processRetries True s) t" if "t \<in> set (eg_tasks (processRetries True s))" for t
      using eg_invD(5)[OF inv, of t] that unfolding task_ok_def by (auto simp: processRetries_def l due_def)
    have "distinct (map dv_id ?l)"
      using eg_invD(1)[OF inv] by (simp add: ListPendingEventDeliveries_def order_by_def select_where_def unique_key_def distinct_map inj_on_def)
    then show "worker_ok (processRetries True s)"
      using eg_invD(4)[OF inv] un by (fastforce simp: worker_ok_def processRetries_def l due_def row_ok_def scheduled_ok_def)
  qed (use eg_invD[OF inv] in \<open>simp_all add: processRetries_def\<close>)
  then show ?thesis using inv WIdle by (cases ok) (simp_all add: processRetries_def)
next
  case (WTodo todo)
  note w = eg_invD(7)[OF inv, unfolded worker_ok_def WTodo, simplified]
  have skip: "eg_inv (s\<lparr>eg_worker := v\<rparr>)" if "set (copies v) \<subseteq> set todo" "distinct (map dv_id (copies v))" "\<And>d a r. v \<noteq> WSent d a r" "\<And>x. \<not> in_flight x v" for v
    by (rule inv_worker_skip[OF inv _ that(2,3), where l = "eg_lost s"]) (use that WTodo in \<open>simp_all add: allowance_def unrecorded_def\<close>)
  show ?thesis
  proof (cases todo)
    case Nil
    then show ?thesis using WTodo skip[of WIdle] by (simp add: retryDelivery_rule_def)
  next
    case (Cons d rest)
    have d: "0 \<le> dv_attempts d" "dv_attempts d \<le> 4" "set rest \<subseteq> set todo" "distinct (map dv_id rest)" using w Cons by auto
    have dead: "eg_inv (s\<lparr>eg_rows := UpdateEventDelivery (dv_id d) (markDeliveryDeadf d reason) (eg_rows s), eg_worker := WTodo rest\<rparr>)" for reason
      by (rule inv_worker_write[OF inv]) (use WTodo Cons retry_params[OF d(1,2)] in simp_all)
    have 1: "eg_inv (s\<lparr>eg_worker := WTodo rest\<rparr>)" by (rule skip) (use d in simp_all)
    have 2: "eg_inv (s\<lparr>eg_worker := WReady d tgt rest\<rparr>)" for tgt by (rule skip) (use w Cons in auto)
    show ?thesis using WTodo Cons dead 1 2
      by (auto simp: retryDelivery_rule_def write_rows_def split: option.splits sum.splits db_fault.splits)
  qed
next
  case (WReady d tgt rest)
  let ?a = "attempt_answer e tgt a"
  let ?s' = "s\<lparr>eg_sent := eg_sent s @ [(dv_id d, accepted ?a)], eg_worker := WSent d ?a rest\<rparr>"
  have w: "worker_ok s" "dv_id d \<in> dv_id ` set (eg_rows s)" using eg_invD(7)[OF inv] WReady by (auto simp: worker_ok_def) (metis imageI)
  have "eg_inv ?s'"
  proof (rule eg_invI)
    show "row_ok ?s' r" if "r \<in> set (eg_rows ?s')" for r
      using eg_invD(4)[OF inv, of r] that WReady
      by (auto simp: row_ok_def allowance_def unrecorded_def attempts_made_def count_where_append count_where_Cons count_where_Nil)
    show "task_ok ?s' t" if "t \<in> set (eg_tasks ?s')" for t using eg_invD(5)[OF inv, of t] that WReady unfolding task_ok_def by auto
    show "worker_ok ?s'" using w(1) WReady by (auto simp: worker_ok_def)
  qed (use eg_invD[OF inv] w(2) in auto)
  then show ?thesis using WReady by (simp add: retry_send_def Let_def)
next
  case (WSent d b rest)
  note w = eg_invD(7)[OF inv, unfolded worker_ok_def WSent, simplified]
  have d: "0 \<le> dv_attempts d" "dv_attempts d \<le> 4" using w by auto
  have ended: "eg_inv (s\<lparr>eg_rows := UpdateEventDelivery (dv_id d) (retry_outcome (eg_now s) d b) (eg_rows s), eg_worker := WTodo rest\<rparr>)"
    by (rule inv_worker_write[OF inv]) (use WSent w retry_params[OF d] in auto)
  have lost: "eg_inv (s\<lparr>eg_worker := WTodo rest, eg_lost := dv_id d # eg_lost s\<rparr>)"
    by (rule inv_worker_skip[OF inv, where w = "WTodo rest" and l = "dv_id d # eg_lost s"]) (use WSent w in \<open>auto simp: allowance_def unrecorded_def count_where_Cons\<close>)
  show ?thesis using WSent ended lost
    by (auto simp: retry_record_def retry_note_def write_rows_def split: option.splits db_fault.splits)
qed


text \<open>A row is created, and a dispatch takes it up.\<close>

lemma inv_create:
  assumes inv: "eg_inv s" and fresh: "dv_id q \<notin> dv_id ` set (eg_rows s)" and q: "dv_status q = DvPending" "dv_attempts q = 0" "dv_next q = Some deadline"
  shows "eg_inv (s\<lparr>eg_rows := eg_rows s @ [q]\<rparr>)" (is "eg_inv ?s'")
proof (rule eg_invI)
  have al: "allowance x ?s' = allowance x s" "attempts_made x ?s' = attempts_made x s" for x by (simp_all add: allowance_def unrecorded_def attempts_made_def)
  have "p \<in> set (eg_sent s) \<Longrightarrow> fst p \<noteq> dv_id q" for p using subsetD[OF eg_invD(2)[OF inv] imageI] fresh by (cases p) auto
  then have none: "attempts_made (dv_id q) s = 0" by (simp add: attempts_made_def count_where_def filter_empty_conv)
  have "0 \<le> allowance (dv_id q) s" by (simp add: allowance_def)
  then show "row_ok ?s' r" if "r \<in> set (eg_rows ?s')" for r
    using that eg_invD(4)[OF inv, of r] q none by (cases "r = q") (simp_all add: row_ok_def al scheduled_ok_def)
  show "task_ok ?s' t" if "t \<in> set (eg_tasks ?s')" for t
    using that eg_invD(5)[OF inv, of t] fresh unfolding task_ok_def by (fastforce simp: image_iff)
  show "worker_ok ?s'" using eg_invD(7)[OF inv] fresh unfolding worker_ok_def by (fastforce simp: image_iff)
  show "unique_key dv_id (eg_rows ?s')" using eg_invD(1)[OF inv] fresh by (simp add: unique_key_def)
qed (use eg_invD[OF inv] in auto)

lemma inv_begin:
  assumes inv: "eg_inv s" and i: "i < length (eg_tasks s)" "active_id (tk_pc (eg_tasks s ! i)) = None"
    and x: "attempts_made x s = 0" "x \<notin> set (eg_late s)" "x \<notin> dv_id ` set (copies (eg_worker s))" "\<forall>t\<in>set (eg_tasks s). active_id (tk_pc t) \<noteq> Some x"
    and r: "\<exists>r\<in>set (eg_rows s). dv_id r = x" "\<forall>r\<in>set (eg_rows s). dv_id r = x \<longrightarrow> dv_attempts r = 0 \<and> dv_next r = Some deadline"
  shows "eg_inv (set_task i (TCreated x deadline tgt rest) s)" (is "eg_inv ?s'")
proof (rule eg_invI)
  have "unsent_pc (tk_pc (eg_tasks s ! i)) = None" using i(2) by (cases "tk_pc (eg_tasks s ! i)") simp_all
  then have un: "unsent y (eg_tasks ?s') \<longleftrightarrow> y = x \<or> unsent y (eg_tasks s)" for y
    using unsent_update[OF i(1) eg_invD(6)[OF inv], of y "TCreated x deadline tgt rest"] by (auto simp: set_task_def)
  have al: "y \<noteq> x \<Longrightarrow> allowance y ?s' = allowance y s" "0 \<le> allowance y ?s'" "attempts_made y ?s' = attempts_made y s" for y
    by (auto simp: allowance_def un) (simp_all add: set_task_def unrecorded_def attempts_made_def)
  show "row_ok ?s' r" if "r \<in> set (eg_rows ?s')" for r
  proof -
    have "row_ok s r" using that eg_invD(4)[OF inv, of r] by (simp add: set_task_def)
    then show ?thesis using al(1,3)[of "dv_id r"] al(2)[of x] x(1) by (cases "dv_id r = x") (auto simp: row_ok_def scheduled_ok_def set_task_def)
  qed
  show "task_ok ?s' t" if "t \<in> set (eg_tasks ?s')" for t
  proof -
    have "t = (eg_tasks s ! i)\<lparr>tk_pc := TCreated x deadline tgt rest\<rparr> \<or> t \<in> set (eg_tasks s)" using that i(1) by (auto simp: set_task_def dest: set_update_nth)
    then show ?thesis using x r eg_invD(5)[OF inv, of t] by (auto simp: task_ok_def set_task_def)
  qed
  show "tasks_apart (eg_tasks ?s')" using tasks_apart_update[OF eg_invD(6)[OF inv] i(1), of "TCreated x deadline tgt rest"] x(4) by (simp add: set_task_def)
qed (use eg_invD[OF inv] in \<open>simp_all add: set_task_def worker_ok_def\<close>)

lemma inv_dispatch_next:
  assumes inv: "eg_inv s" and i: "i < length (eg_tasks s)" "tk_pc (eg_tasks s ! i) = TNext rules" and s': "dispatch_next e f ident i rules s = Some s'"
  shows "eg_inv s'"
proof -
  have keep: "eg_inv (set_task i p u)" if "eg_inv u" "eg_tasks u = eg_tasks s" "active_id p = None" for p u
    by (rule inv_task) (use that i in simp_all)
  show ?thesis
  proof (cases "\<exists>r rest tgt. rules = r # rest \<and> action_target e r = Inr tgt")
    case False
    then show ?thesis using s' keep[OF inv] by (auto simp: dispatch_next_def split: list.splits sum.splits)
  next
    case True
    then obtain r rest tgt where r: "rules = r # rest" "action_target e r = Inr tgt" by blast
    let ?D = "eg_now s + retryBackoffSchedule ! 0"
    let ?q = "\<lparr>dv_id = ident, dv_rule = vr_id r, dv_event = tk_event (eg_tasks s ! i), dv_payload = tk_payload (eg_tasks s ! i), dv_status = DvPending, dv_code = None,
       dv_body = None, dv_attempts = 0, dv_next = Some ?D, dv_created = eg_now s, dv_delivered = None\<rparr>"
    let ?s1 = "s\<lparr>eg_rows := eg_rows s @ [?q]\<rparr>"
    have new: "ident \<notin> dv_id ` set (eg_rows s)" using s' r by (auto simp: dispatch_next_def exists_where_iff split: if_splits)
    have inv1: "eg_inv ?s1" by (rule inv_create[OF inv]) (use new in simp_all)
    have begun: "eg_inv (set_task i (TCreated ident ?D tgt rest) ?s1)"
    proof (rule inv_begin[OF inv1])
      have "p \<in> set (eg_sent s) \<Longrightarrow> fst p \<noteq> ident" for p using subsetD[OF eg_invD(2)[OF inv] imageI] new by (cases p) auto
      then show "attempts_made ident ?s1 = 0" by (simp add: attempts_made_def count_where_def filter_empty_conv)
      show "ident \<notin> set (eg_late ?s1)" using eg_invD(3)[OF inv] new by auto
      show "ident \<notin> dv_id ` set (copies (eg_worker ?s1))" using eg_invD(7)[OF inv] new unfolding worker_ok_def by (auto simp: image_iff) metis
      show "\<forall>t\<in>set (eg_tasks ?s1). active_id (tk_pc t) \<noteq> Some ident"
      proof
        fix t assume t: "t \<in> set (eg_tasks ?s1)"
        then have "task_ok s t" using eg_invD(5)[OF inv] by simp
        then show "active_id (tk_pc t) \<noteq> Some ident" using new unfolding task_ok_def by (cases "tk_pc t") (auto simp: image_iff)
      qed
    qed (use i new in \<open>auto simp: image_iff\<close>)
    define g where "g = (if find_row vr_id (vr_id r) (eg_rules s) = None then Some (Refused ''foreign key'') else f)"
    have "s' = set_task i (if g = None then TCreated ident ?D tgt rest else TNext rest) (case g of Some (Refused m) \<Rightarrow> s | _ \<Rightarrow> ?s1)"
      unfolding g_def using s' r by (auto simp: dispatch_next_def write_rows_def CreateEventDelivery_def Let_def split: if_splits option.splits db_fault.splits)
    then show ?thesis using begun keep[OF inv] keep[OF inv1] by (auto split: option.splits db_fault.splits)
  qed
qed

lemma inv_first_send:
  assumes inv: "eg_inv s" and i: "i < length (eg_tasks s)" "tk_pc (eg_tasks s ! i) = TCreated x deadline tgt rest"
  shows "eg_inv (first_send e a i x deadline tgt rest s)"
proof -
  let ?a = "attempt_answer e tgt a"
  let ?p = "TAnswered x deadline tgt ?a rest"
  let ?s' = "set_task i ?p (s\<lparr>eg_sent := eg_sent s @ [(x, accepted ?a)]\<rparr>)"
  have t: "task_ok s (eg_tasks s ! i)" by (rule eg_invD(5)[OF inv]) (simp add: i)
  have was: "unsent x (eg_tasks s)" unfolding unsent_def by (rule bexI[OF _ nth_mem[OF i(1)]]) (simp add: i(2))
  have un: "unsent y (eg_tasks ?s') \<longleftrightarrow> unsent y (eg_tasks s) \<and> y \<noteq> x" for y
    using unsent_update[OF i(1) eg_invD(6)[OF inv], of y ?p] i(2) by (auto simp: set_task_def)
  have al: "allowance y ?s' = allowance y s + (if y = x then 1 else 0)" "attempts_made y ?s' = attempts_made y s + (if y = x then 1 else 0)" for y
    using was by (auto simp: allowance_def un) (simp_all add: set_task_def unrecorded_def attempts_made_def sql_simps)
  have "eg_inv ?s'"
  proof (rule eg_invI)
    show "row_ok ?s' r" if "r \<in> set (eg_rows ?s')" for r
      using that eg_invD(4)[OF inv, of r] by (auto simp: row_ok_def al) (auto simp: set_task_def)
    show "task_ok ?s' u" if "u \<in> set (eg_tasks ?s')" for u
    proof -
      have "u = (eg_tasks s ! i)\<lparr>tk_pc := ?p\<rparr> \<or> u \<in> set (eg_tasks s)" using that i(1) by (auto simp: set_task_def dest: set_update_nth)
      then show ?thesis using t i(2) eg_invD(5)[OF inv, of u] by (auto simp: task_ok_def set_task_def)
    qed
    show "tasks_apart (eg_tasks ?s')" using tasks_apart_update[OF eg_invD(6)[OF inv] i(1), of ?p] i(2) by (simp add: set_task_def)
    show "worker_ok ?s'" using eg_invD(7)[OF inv] unfolding worker_ok_def by (auto simp: set_task_def)
    have "x \<in> dv_id ` set (eg_rows s)" using t i(2) unfolding task_ok_def by auto
    then show "fst ` set (eg_sent ?s') \<subseteq> dv_id ` set (eg_rows ?s')" using eg_invD(2)[OF inv] by (simp add: set_task_def)
  qed (use eg_invD[OF inv] in \<open>simp_all add: set_task_def\<close>)
  then show ?thesis by (simp add: first_send_def Let_def)
qed

lemma inv_task_step:
  assumes inv: "eg_inv s" and i: "i < length (eg_tasks s)" and s': "task_step e i ok f ident a (tk_pc (eg_tasks s ! i)) s = Some s'"
  shows "eg_inv s'"
proof (cases "tk_pc (eg_tasks s ! i)")
  case TList
  then show ?thesis using s' inv_task[OF inv i] by (auto simp: HandleEvent_list_def)
next
  case (TNext rules)
  then show ?thesis using s' inv_dispatch_next[OF inv i TNext] by simp
next
  case (TCreated x deadline tgt rest)
  then show ?thesis using s' inv_first_send[OF inv i TCreated] by auto
next
  case (TAnswered x deadline tgt b rest)
  then show ?thesis using s' inv_first_record[OF inv i TAnswered] by auto
next
  case TDone
  then show ?thesis using s' by simp
qed

lemma inv_restart:
  assumes inv: "eg_inv s"
  shows "eg_inv (restart s)"
proof (rule eg_invI)
  let ?s' = "restart s"
  have eq: "eg_rows ?s' = eg_rows s" "eg_sent ?s' = eg_sent s" "eg_late ?s' = eg_late s" "eg_tasks ?s' = []" "eg_worker ?s' = WIdle" "eg_now ?s' = eg_now s"
    by (simp_all add: restart_def retry_note_def split: worker_pc.splits)
  have "allowance x s \<le> allowance x ?s'" for x
    by (cases "eg_worker s") (auto simp: allowance_def unrecorded_def unsent_def restart_def retry_note_def sql_simps)
  then show "row_ok ?s' r" if "r \<in> set (eg_rows ?s')" for r
    using that eg_invD(4)[OF inv, of r] by (force simp: row_ok_def eq attempts_made_def intro: order_trans)
qed (use eg_invD[OF inv] restart_def in \<open>auto simp: retry_note_def worker_ok_def tasks_apart_def split: worker_pc.splits\<close>)

lemma inv_message:
  assumes inv: "eg_inv s"
  shows "eg_inv (handleNATSMessage e subject data s)"
proof -
  have "eg_inv (s\<lparr>eg_tasks := eg_tasks s @ [t]\<rparr>)" (is "eg_inv ?s'") if t: "tk_pc t = TList" for t
  proof (rule eg_invI)
    have al: "allowance x ?s' = allowance x s" for x by (simp add: allowance_def unrecorded_def unsent_def t)
    show "row_ok ?s' r" if "r \<in> set (eg_rows ?s')" for r using that eg_invD(4)[OF inv, of r] by (simp add: row_ok_def al) (simp add: attempts_made_def)
    show "task_ok ?s' u" if "u \<in> set (eg_tasks ?s')" for u using that eg_invD(5)[OF inv, of u] t by (auto simp: task_ok_def)
    show "tasks_apart (eg_tasks ?s')" using eg_invD(6)[OF inv] t by (auto simp: tasks_apart_def nth_append less_Suc_eq)
  qed (use eg_invD[OF inv] in \<open>simp_all add: worker_ok_def\<close>)
  then show ?thesis using inv by (auto simp: handleNATSMessage_def split: option.splits)
qed

lemma inv_frame:
  assumes inv: "eg_inv s" and "eg_now s \<le> now"
  shows "eg_inv (s\<lparr>eg_now := now, eg_rules := rules\<rparr>)"
proof (rule eg_invI)
  show "task_ok (s\<lparr>eg_now := now, eg_rules := rules\<rparr>) t" if "t \<in> set (eg_tasks (s\<lparr>eg_now := now, eg_rules := rules\<rparr>))" for t
    using eg_invD(5)[OF inv, of t] that assms(2) unfolding task_ok_def by auto
qed (use eg_invD[OF inv] in \<open>auto simp: row_ok_def allowance_def unrecorded_def attempts_made_def worker_ok_def\<close>)

text \<open>A statement of a handler and what it leaves of the engine.\<close>

lemma rule_stmt_run_cases:
  "snd (rule_stmt_run f res s) = s \<or> snd (rule_stmt_run f res s) = s\<lparr>eg_rules := snd res\<rparr>"
  by (auto simp: rule_stmt_run_def split: option.splits db_fault.splits)

lemma reply_snd:
  "snd (case p of (Inl err, s1) \<Rightarrow> (g err, s1) | (Inr x, s1) \<Rightarrow> (h x, s1)) = snd p"
  by (simp split: prod.splits sum.splits)

lemma EventRules_Create_state: "\<exists>new. snd (EventRules_Create e f ident org caller body s) \<in> {s, s\<lparr>eg_rules := snd (CreateEventRule new (eg_rules s))\<rparr>}"
proof (cases "bind_event_rule body")
  case (Some q)
  then show ?thesis
  proof (cases "validateEventAction e (eq_action q) (eq_config q)")
    case (Inr act)
    then show ?thesis using Some rule_stmt_run_cases unfolding EventRules_Create_def by (simp add: reply_snd) blast
  qed (use Some in \<open>simp add: EventRules_Create_def\<close>)
qed (simp add: EventRules_Create_def)

lemma EventRules_Update_state:
  "\<exists>i q act. snd (EventRules_Update e f rid body s) \<in> {s, s\<lparr>eg_rules := snd (UpdateEventRule i q act (eg_now s) (eg_rules s))\<rparr>}"
proof (cases "en_parse_uuid e rid")
  case (Some i)
  note i = Some
  show ?thesis
  proof (cases "bind_event_rule body")
    case (Some q)
    then show ?thesis
    proof (cases "validateEventAction e (eq_action q) (eq_config q)")
      case (Inr act)
      then show ?thesis using i Some rule_stmt_run_cases unfolding EventRules_Update_def by (simp add: reply_snd) blast
    qed (use i Some in \<open>simp add: EventRules_Update_def\<close>)
  qed (use i in \<open>simp add: EventRules_Update_def\<close>)
qed (simp add: EventRules_Update_def)

lemma EventRules_Delete_state: "\<exists>i. snd (EventRules_Delete e f rid s) \<in> {s, s\<lparr>eg_rules := snd (DeleteEventRule i (eg_rows s) (eg_rules s))\<rparr>}"
proof (cases "en_parse_uuid e rid")
  case (Some i)
  then show ?thesis using rule_stmt_run_cases unfolding EventRules_Delete_def by (simp add: reply_snd) blast
qed (simp add: EventRules_Delete_def)

lemma event_api_cases:
  obtains (same) "snd (event_api e f ident call s) = s"
  | (create) new where "snd (event_api e f ident call s) = s\<lparr>eg_rules := snd (CreateEventRule new (eg_rules s))\<rparr>"
  | (update) i q act where "snd (event_api e f ident call s) = s\<lparr>eg_rules := snd (UpdateEventRule i q act (eg_now s) (eg_rules s))\<rparr>"
  | (delete) i where "snd (event_api e f ident call s) = s\<lparr>eg_rules := snd (DeleteEventRule i (eg_rows s) (eg_rules s))\<rparr>"
proof (cases call)
  case (CreateCall org caller body)
  then show ?thesis using EventRules_Create_state[of e f ident org caller body s] same create by auto
next
  case (UpdateCall rid body)
  then show ?thesis using EventRules_Update_state[of e f rid body s] same update by auto
next
  case (DeleteCall rid)
  then show ?thesis using EventRules_Delete_state[of e f rid s] same delete by auto
qed (use same in \<open>simp add: EventRules_List_def\<close>)

text \<open>Every delivery keeps its rule.\<close>

definition refs_ok :: "engine \<Rightarrow> bool" where
  "refs_ok s \<longleftrightarrow> dv_rule ` set (eg_rows s) \<subseteq> vr_id ` set (eg_rules s)"

lemma refs_write: "refs_ok s \<Longrightarrow> refs_ok (snd (write_rows f (UpdateEventDelivery i p) s))"
proof -
  have "dv_rule (updated_row i p r) = dv_rule r" for r by (simp add: updated_row_def)
  then show "refs_ok s \<Longrightarrow> refs_ok (snd (write_rows f (UpdateEventDelivery i p) s))"
    by (auto simp: write_rows_def refs_ok_def UpdateEventDelivery_map image_image split: option.splits db_fault.splits)
qed

lemma refs_cong: "eg_rows s' = eg_rows s \<Longrightarrow> eg_rules s' = eg_rules s \<Longrightarrow> refs_ok s' \<longleftrightarrow> refs_ok s"
  by (simp add: refs_ok_def)

lemma refs_fields [simp]:
  "refs_ok (s\<lparr>eg_tasks := ts\<rparr>) \<longleftrightarrow> refs_ok s" "refs_ok (s\<lparr>eg_now := now\<rparr>) \<longleftrightarrow> refs_ok s" "refs_ok (s\<lparr>eg_worker := w\<rparr>) \<longleftrightarrow> refs_ok s"
  "refs_ok (s\<lparr>eg_lost := l\<rparr>) \<longleftrightarrow> refs_ok s"
  by (simp_all add: refs_ok_def)

lemma refs_set_task [simp]: "refs_ok (set_task i p s) \<longleftrightarrow> refs_ok s"
  by (rule refs_cong) (simp_all add: set_task_def)

lemma refs_worker_step:
  assumes "refs_ok s"
  shows "refs_ok (worker_step e ok f a (eg_worker s) s)"
proof (cases "eg_worker s")
  case (WTodo todo)
  show ?thesis
  proof (cases todo)
    case (Cons d rest)
    have "refs_ok (snd (write_rows f (UpdateEventDelivery (dv_id d) p) s)\<lparr>eg_worker := WTodo rest\<rparr>)" for p
      using refs_write[OF assms] by (simp add: refs_ok_def)
    then show ?thesis using assms WTodo Cons by (simp add: retryDelivery_rule_def refs_ok_def split: option.splits sum.splits)
  qed (use assms WTodo in \<open>simp add: retryDelivery_rule_def refs_ok_def\<close>)
next
  case (WSent d b rest)
  have "refs_ok (retry_note k x (s1\<lparr>eg_worker := w\<rparr>)) \<longleftrightarrow> refs_ok s1" for k x s1 w by (simp add: retry_note_def refs_ok_def)
  then show ?thesis using WSent refs_write[OF assms, of f "dv_id d" "retry_outcome (eg_now s) d b"] by (auto simp: retry_record_def split: prod.splits)
qed (use assms in \<open>simp_all add: processRetries_def retry_send_def refs_ok_def Let_def\<close>)

lemma refs_task_step:
  assumes "refs_ok s" "task_step e i ok f ident a (tk_pc (eg_tasks s ! i)) s = Some s'"
  shows "refs_ok s'"
proof (cases "tk_pc (eg_tasks s ! i)")
  case (TNext rules)
  then show ?thesis using assms
    by (auto simp: dispatch_next_def write_rows_def Let_def find_row_None_iff CreateEventDelivery_def split: list.splits sum.splits if_splits option.splits db_fault.splits)
      (auto simp: refs_ok_def, (metis imageI)+)
next
  case (TAnswered x deadline tgt b rest)
  have "refs_ok (s1\<lparr>eg_late := l\<rparr>) \<longleftrightarrow> refs_ok s1" for s1 l by (simp add: refs_ok_def)
  then show ?thesis using assms TAnswered refs_write[OF assms(1), of f x]
    by (auto simp: first_record_def split: option.splits prod.splits if_splits) (metis snd_conv)+
qed (use assms in \<open>auto simp: HandleEvent_list_def first_send_def Let_def\<close>, simp add: refs_ok_def)

lemma UpdateEventRule_ids: "vr_id ` set (snd (UpdateEventRule i q act now rules)) = vr_id ` set rules"
proof -
  have "map vr_id (snd (UpdateEventRule i q act now rules)) = map vr_id rules" by (simp add: UpdateEventRule_def Let_def update_where_def)
  then show ?thesis by (metis list.set_map)
qed

lemma refs_act:
  assumes "refs_ok s" "eg_act e x s = Some s'"
  shows "refs_ok s'"
proof (cases x)
  case (Api call f ident)
  then have s': "s' = snd (event_api e f ident call s)" using assms(2) by simp
  show ?thesis
  proof (cases rule: event_api_cases[of e f ident call s])
    case create
    then show ?thesis using assms(1) s' by (auto simp: refs_ok_def CreateEventRule_def)
  next
    case update
    then show ?thesis using assms(1) s' by (simp add: refs_ok_def UpdateEventRule_ids)
  next
    case delete
    then show ?thesis using assms(1) s' by (auto simp: refs_ok_def DeleteEventRule_def exists_where_iff sql_simps image_iff split: if_splits)
  qed (use assms(1) s' in simp)
next
  case (TaskStep i ok f ident a)
  then show ?thesis using assms refs_task_step[OF assms(1)] by (auto split: if_splits)
next
  case (WorkerStep ok f a)
  then show ?thesis using assms refs_worker_step[OF assms(1)] by auto
qed (use assms in \<open>auto simp: handleNATSMessage_def restart_def retry_note_def split: option.splits if_splits worker_pc.splits\<close>)

lemma api_reply_deliverable:
  assumes "fst (event_api e f ident call s) = EventRuleReply code r"
  shows "(\<exists>tgt. action_target e r = Inr tgt) \<and> r \<in> set (eg_rules (snd (event_api e f ident call s)))"
proof -
  have act: "\<exists>tgt. action_target e q = Inr tgt" if "validateEventAction e act (vr_config q) = Inr (vr_action q)" for act q
    using that by (auto simp: validateEventAction_def action_target_def split: if_splits option.splits)
  have found: "r' \<in> set t" if "find_row vr_id i t = Some r'" for r' i t using that by (auto simp: find_row_def find_Some_iff)
  show ?thesis
  proof (cases call)
    case (CreateCall org caller body)
    have "\<exists>tgt. action_target e (requested_event_rule i o' c now k q) = Inr tgt" if "validateEventAction e (eq_action q) (eq_config q) = Inr k" for i o' c now k q
      by (rule act[of "eq_action q"]) (use that in \<open>simp add: requested_event_rule_def\<close>)
    then show ?thesis using assms CreateCall
      by (auto simp: EventRules_Create_def rule_stmt_run_def CreateEventRule_def split: option.splits sum.splits prod.splits db_fault.splits if_splits)
  next
    case (UpdateCall rid body)
    have upd: "vr_action r = act \<and> vr_config r = eq_config q \<and> r \<in> set t" if "find_row vr_id i (update_where (\<lambda>r. vr_id r = i)
        (\<lambda>r. r\<lparr>vr_name := eq_name q, vr_event := eq_event q, vr_filter := filter_default (eq_filter q), vr_action := act,
           vr_config := eq_config q, vr_enabled := eq_enabled q, vr_updated := now\<rparr>) t0) = Some r"
        and "t = update_where (\<lambda>r. vr_id r = i) (\<lambda>r. r\<lparr>vr_name := eq_name q, vr_event := eq_event q, vr_filter := filter_default (eq_filter q), vr_action := act,
           vr_config := eq_config q, vr_enabled := eq_enabled q, vr_updated := now\<rparr>) t0" for i q act now t0 t
      using that by (auto simp: update_where_def find_row_def find_Some_iff split: if_splits)
    then show ?thesis using assms UpdateCall act[of _ r]
      by (fastforce simp: EventRules_Update_def rule_stmt_run_def UpdateEventRule_def Let_def split: option.splits sum.splits prod.splits db_fault.splits if_splits)
  qed (use assms in \<open>auto simp: EventRules_List_def EventRules_Delete_def split: option.splits sum.splits prod.splits if_splits\<close>)
qed

text \<open>A rule that has a delivery can never be deleted.\<close>

lemma delivered_rule_not_deletable:
  assumes "d \<in> set (eg_rows s)" "en_parse_uuid e rid = Some (dv_rule d)"
  shows "EventRules_Delete e f rid s = (EventProblem 500 ''INTERNAL_ERROR'', s)"
proof -
  have "DeleteEventRule (dv_rule d) (eg_rows s) (eg_rules s) = (Inl (DriverError ''foreign key''), eg_rules s)"
    using assms(1) by (auto simp: DeleteEventRule_def exists_where_iff)
  then show ?thesis using assms(2) by (auto simp: EventRules_Delete_def rule_stmt_run_def split: option.splits db_fault.splits)
qed

lemma inv_act:
  assumes inv: "eg_inv s" and "eg_act e x s = Some s'"
  shows "eg_inv s'"
proof (cases x)
  case (Pass dt)
  then show ?thesis using assms inv_frame[OF inv, of "eg_now s + dt" "eg_rules s"] by (auto split: if_splits)
next
  case (Api call f ident)
  then have s': "s' = snd (event_api e f ident call s)" using assms(2) by simp
  have "\<exists>rules. s' = s\<lparr>eg_now := eg_now s, eg_rules := rules\<rparr>" by (cases rule: event_api_cases[of e f ident call s]) (use s' in \<open>auto intro: exI[of _ "eg_rules s"]\<close>)
  then obtain rules where "s' = s\<lparr>eg_now := eg_now s, eg_rules := rules\<rparr>" ..
  then show ?thesis using inv_frame[OF inv, of "eg_now s" rules] by simp
next
  case (TaskStep i ok f ident a)
  then show ?thesis using assms inv_task_step[OF inv] by (auto split: if_splits)
qed (use assms inv_message[OF inv] inv_worker_step[OF inv] inv_restart[OF inv] in auto)

interpretation engine_system: invariant_system eg_init "eg_step e" "\<lambda>s. eg_inv s \<and> refs_ok s" for e
proof
  show "eg_inv s \<and> refs_ok s" if "eg_init s" for s using that by (simp add: eg_init_def eg_inv_def tasks_apart_def worker_ok_def refs_ok_def)
  show "eg_inv s' \<and> refs_ok s'" if "eg_inv s \<and> refs_ok s" "eg_step e s s'" for s s' using that inv_act refs_act by (auto elim: eg_step.cases)
qed

section \<open>Properties\<close>

lemma inv_attempts:
  assumes inv: "eg_inv s" and r: "r \<in> set (eg_rows s)"
  shows "attempts_made (dv_id r) s \<le> 6 + unrecorded (dv_id r) s + (if dv_id r \<in> set (eg_late s) then 5 else 0)"
proof -
  note row = eg_invD(4)[OF inv r, unfolded row_ok_def scheduled_ok_def]
  have "dv_attempts r + (if in_flight (dv_id r) (eg_worker s) then 1 else 0) \<le> 5"
  proof (cases "in_flight (dv_id r) (eg_worker s)")
    case True
    then obtain d a rest where w: "eg_worker s = WSent d a rest" "dv_id d = dv_id r" by (cases "eg_worker s") auto
    then have "dv_attempts r \<le> dv_attempts d" "dv_attempts d \<le> 4" using eg_invD(7)[OF inv] r unfolding worker_ok_def by auto
    then show ?thesis by simp
  qed (use row in simp)
  then show ?thesis using row unfolding allowance_def by (auto split: if_splits)
qed


section \<open>Samples\<close>

fun eg_run :: "engine_env \<Rightarrow> eg_action list \<Rightarrow> engine \<Rightarrow> engine option" where
  "eg_run e [] s = Some s"
| "eg_run e (x # xs) s = (case eg_act e x s of None \<Rightarrow> None | Some s' \<Rightarrow> eg_run e xs s')"

lemma eg_run_reach: "reach eg_init (eg_step e) s \<Longrightarrow> eg_run e xs s = Some s' \<Longrightarrow> reach eg_init (eg_step e) s'"
proof (induction xs arbitrary: s)
  case (Cons x xs)
  then obtain s1 where "eg_act e x s = Some s1" "eg_run e xs s1 = Some s'" by (auto split: option.splits)
  then show ?case using Cons.IH[OF reach.intros(2)[OF Cons.prems(1) eg_step.intros]] by blast
qed simp

definition sample_engine_env :: engine_env where
  "sample_engine_env = \<lparr>en_document = Some, en_url = Some, en_subject = Some, en_publisher = True, en_parse_uuid = (\<lambda>v. Some (length v))\<rparr>"

definition sample_engine :: engine where
  "sample_engine = \<lparr>eg_rules = [\<lparr>vr_id = 70, vr_org = 1, vr_name = ''hook'', vr_event = ''file_uploaded'', vr_filter = '''', vr_action = ActionTypeWebhook, vr_config = ''http://hook'',
     vr_enabled = True, vr_created_by = None, vr_created = 0, vr_updated = 0\<rparr>], eg_rows = [], eg_now = 0, eg_tasks = [], eg_worker = WIdle, eg_sent = [], eg_lost = [], eg_late = []\<rparr>"

definition task_steps :: "nat \<Rightarrow> answer \<Rightarrow> eg_action list" where
  "task_steps n a = replicate n (TaskStep 0 True None 500 a)"

definition worker_steps :: "nat \<Rightarrow> answer \<Rightarrow> eg_action list" where
  "worker_steps n a = replicate n (WorkerStep True None a)"

definition uploaded_event :: eg_action where
  "uploaded_event = Message ''events.file.uploaded'' ''{}''"

lemma sample_engine_reach: "eg_run e xs sample_engine = Some s \<Longrightarrow> reach eg_init (eg_step e) s"
  by (rule eg_run_reach, rule reach.intros(1)) (simp_all add: eg_init_def sample_engine_def unique_key_def)

text \<open>The receiver answers nothing to the dispatch and refuses the first retry, and accepts the second.\<close>

definition sample_deliveries :: "eg_action list" where
  "sample_deliveries = [uploaded_event] @ task_steps 4 (NoAnswer ''timeout'') @ [Pass 31] @ worker_steps 5 (Status 503)
     @ [Pass 130] @ worker_steps 5 (Accepted 200)"

definition sample_delivered :: engine where
  "sample_delivered = the (eg_run sample_engine_env sample_deliveries sample_engine)"

lemma sample_delivered_reach: "reach eg_init (eg_step sample_engine_env) sample_delivered"
proof -
  have "eg_run sample_engine_env sample_deliveries sample_engine \<noteq> None" by code_simp
  then have "eg_run sample_engine_env sample_deliveries sample_engine = Some sample_delivered" by (auto simp: sample_delivered_def)
  then show ?thesis by (rule sample_engine_reach)
qed

lemma sample_delivered_rows: "map (\<lambda>r. (dv_id r, dv_status r, dv_attempts r)) (eg_rows sample_delivered) = [(500, DvDelivered, 2)]"
  by code_simp

lemma sample_delivered_sent: "eg_sent sample_delivered = [(500, False), (500, False), (500, True)]"
  by code_simp


text \<open>
  The write of the first outcome does not look at the row: when it comes after the in-flight time, a row that a retry has delivered
  meanwhile goes back to pending, and the event is sent a third time.
\<close>

definition sample_late :: "eg_action list" where
  "sample_late = [uploaded_event] @ task_steps 3 (NoAnswer ''timeout'') @ [Pass 31] @ worker_steps 5 (Accepted 200)"

definition sample_later :: "eg_action list" where
  "sample_later = sample_late @ task_steps 1 (NoAnswer '''') @ [Pass 31] @ worker_steps 3 (Accepted 200)"

theorem late_outcome_undoes_delivery:
  "map_option (\<lambda>s. (map dv_status (eg_rows s), eg_sent s)) (eg_run sample_engine_env sample_late sample_engine) = Some ([DvDelivered], [(500, False), (500, True)])
     \<and> map_option (\<lambda>s. (map dv_status (eg_rows s), eg_sent s)) (eg_run sample_engine_env sample_later sample_engine)
        = Some ([DvPending], [(500, False), (500, True), (500, True)])"
  by code_simp

end
