(* ===== verification/Files.thy ===== *)
theory Files
  imports Engine Filer Config
begin

text \<open>
  Reading the file index and the deliveries of an event rule over REST: keyset pages (api/handler/helpers.go,
  db/read_queries.go), the file handlers with their download links (api/handler/files.go) and the listing of deliveries
  (api/handler/events.go).
\<close>

section \<open>Query parameters\<close>

type_synonym query_string = "(string \<times> string) list"

text \<open>The first value of a parameter, and all of them.\<close>

definition Query :: "query_string \<Rightarrow> string \<Rightarrow> string" where
  "Query q k = (case map_of q k of None \<Rightarrow> '''' | Some v \<Rightarrow> v)"

definition QueryArray :: "query_string \<Rightarrow> string \<Rightarrow> string list" where
  "QueryArray q k = map snd (filter (\<lambda>p. fst p = k) q)"

definition RejectUnknownQuery :: "string list \<Rightarrow> query_string \<Rightarrow> bool" where
  "RejectUnknownQuery allowed q \<longleftrightarrow> list_all (\<lambda>p. fst p \<in> set allowed) q"

definition parseLimitParam :: "query_string \<Rightarrow> int" where
  "parseLimitParam q =
     (case Atoi (Query q ''limit'') of
        None \<Rightarrow> 50
      | Some n \<Rightarrow> if n \<le> 0 \<or> 2 ^ 31 \<le> n then 50 else if 200 < n then 200 else n)"

definition maxTagFilters :: nat where
  "maxTagFilters = 20"

text \<open>Predicates so far are \<open>acc\<close>, which is also the map of the keys seen.\<close>

fun parse_tags :: "string list \<Rightarrow> (string \<times> string) list \<Rightarrow> (string \<times> string) list option" where
  "parse_tags [] acc = Some acc"
| "parse_tags (t # ts) acc =
     (case Cut t (CHR '':'') of
        (key, None) \<Rightarrow> None
      | (key, Some v) \<Rightarrow>
          if key = '''' \<or> v = '''' then None
          else (case map_of acc key of
                  None \<Rightarrow> if maxTagFilters \<le> length acc then None else parse_tags ts (acc @ [(key, v)])
                | Some prev \<Rightarrow> if prev \<noteq> v then None else parse_tags ts acc))"

definition parseTagPredicates :: "string list \<Rightarrow> (string \<times> string) list option" where
  "parseTagPredicates raw = parse_tags raw []"

section \<open>Pages\<close>

text \<open>A cursor names the last row of a page by its creation time and id; its text is URL-safe base64 of a JSON document.\<close>

type_synonym page_key = "int \<times> uuid"

record page_codec =
  pg_encode :: "page_key \<Rightarrow> string"
  pg_decode :: "string \<Rightarrow> page_key option"

definition decodeCursor :: "page_codec \<Rightarrow> string \<Rightarrow> page_key option option" where
  "decodeCursor cd v = (if v = '''' then Some None else map_option Some (pg_decode cd v))"

text \<open>\<^verbatim>\<open>$6 IS NULL OR (created_at, id) < ($6, $7)\<close>, then \<^verbatim>\<open>ORDER BY created_at DESC, id DESC LIMIT n\<close>.\<close>

definition older :: "page_key option \<Rightarrow> page_key \<Rightarrow> bool" where
  "older c k \<longleftrightarrow> (case c of None \<Rightarrow> True | Some c' \<Rightarrow> k < c')"

definition page_query :: "('r \<Rightarrow> page_key) \<Rightarrow> ('r \<Rightarrow> bool) \<Rightarrow> page_key option \<Rightarrow> int \<Rightarrow> 'r list \<Rightarrow> 'r list" where
  "page_query key P c n rows =
     take (nat n) (order_by (\<lambda>r. (- fst (key r), - int (snd (key r)))) (select_where (\<lambda>r. P r \<and> older c (key r)) rows))"

text \<open>One row more than the limit was asked for: it tells whether there is a next page, and is dropped.\<close>

definition cut_page :: "page_codec \<Rightarrow> ('r \<Rightarrow> page_key) \<Rightarrow> int \<Rightarrow> 'r list \<Rightarrow> 'r list \<times> bool \<times> string" where
  "cut_page cd key limit rows =
     (let hasMore = limit < int (length rows); items = (if hasMore then take (nat limit) rows else rows)
      in (items, hasMore, if hasMore then pg_encode cd (key (last items)) else ''''))"

section \<open>Files\<close>

record file_filter =
  ff_org :: uuid
  ff_agent :: "uuid option"
  ff_bucket :: "uuid option"
  ff_type :: "uuid option"
  ff_status :: "string option"
  ff_tags :: "(string \<times> string) list"

fun status_text :: "FileStatus \<Rightarrow> string" where
  "status_text FileStatusUploading = ''uploading''"
| "status_text FileStatusCompleted = ''completed''"
| "status_text FileStatusFailed = ''failed''"
| "status_text FileStatusDeleted = ''deleted''"

definition entry_key :: "file_entry \<Rightarrow> page_key" where
  "entry_key r = (fe_created_at r, fe_id r)"

text \<open>\<^verbatim>\<open>GROUP BY file_entry_id HAVING COUNT(*) = n\<close> over the tags that equal a predicate.\<close>

definition tagFilterClause :: "(string \<times> string) list \<Rightarrow> file_tag list \<Rightarrow> file_entry \<Rightarrow> bool" where
  "tagFilterClause tags ts r \<longleftrightarrow> tags = []
     \<or> count_where (\<lambda>t. tag_entry t = fe_id r \<and> (tag_key t, tag_value t) \<in> set tags) ts = length tags"

definition unless_null :: "'a option \<Rightarrow> 'a option \<Rightarrow> bool" where
  "unless_null p v \<longleftrightarrow> p = None \<or> v = p"

definition entry_matches :: "file_filter \<Rightarrow> catalog \<Rightarrow> file_entry \<Rightarrow> bool" where
  "entry_matches f c r \<longleftrightarrow> fe_org r = ff_org f \<and> unless_null (ff_agent f) (fe_agent r) \<and> unless_null (ff_bucket f) (Some (fe_bucket r))
     \<and> unless_null (ff_type f) (fe_file_type r) \<and> unless_null (ff_status f) (Some (status_text (fe_status r))) \<and> tagFilterClause (ff_tags f) (file_tags c) r"

text \<open>A status outside the enumeration makes the statement fail.\<close>

definition status_ok :: "file_filter \<Rightarrow> bool" where
  "status_ok f \<longleftrightarrow> (case ff_status f of None \<Rightarrow> True | Some v \<Rightarrow> v \<in> {''uploading'', ''completed'', ''failed'', ''deleted''})"

definition ListFileEntries :: "file_filter \<Rightarrow> page_key option \<Rightarrow> int \<Rightarrow> catalog \<Rightarrow> file_entry list option" where
  "ListFileEntries f cursor n c = (if status_ok f then Some (page_query entry_key (entry_matches f c) cursor n (file_entries c)) else None)"

definition CountFileEntries :: "file_filter \<Rightarrow> catalog \<Rightarrow> nat option" where
  "CountFileEntries f c = (if status_ok f then Some (count_where (entry_matches f c) (file_entries c)) else None)"

definition tags_of :: "catalog \<Rightarrow> uuid \<Rightarrow> (string \<times> string) list" where
  "tags_of c i = map (\<lambda>t. (tag_key t, tag_value t)) (order_by tag_key (select_where (\<lambda>t. tag_entry t = i) (file_tags c)))"

definition ListFileTagsByFileIDs :: "uuid list \<Rightarrow> catalog \<Rightarrow> (uuid \<times> (string \<times> string) list) list option" where
  "ListFileTagsByFileIDs ids c = Some (map (\<lambda>i. (i, tags_of c i)) ids)"

text \<open>The presigner answers by the number of the statement before it, the bucket and the object.\<close>

record files_env =
  fl_cp :: cp_env
  fl_codec :: page_codec
  fl_presign :: "nat \<Rightarrow> string \<Rightarrow> string \<Rightarrow> string option"

datatype file_reply =
    FileProblem nat string
  | FilePage "(file_entry \<times> (string \<times> string) list) list" nat bool string
  | FileReply file_entry "(string \<times> string) list"
  | UrlReply string int
  | UrlItems "(string \<times> (string + string)) list"

definition caller_org :: "files_env \<Rightarrow> string option \<Rightarrow> uuid" where
  "caller_org e claims = (case claims of None \<Rightarrow> uuid_Nil | Some v \<Rightarrow> (case cp_parse_uuid (fl_cp e) v of None \<Rightarrow> uuid_Nil | Some i \<Rightarrow> i))"

text \<open>An id that does not parse sets no filter.\<close>

definition id_filter :: "files_env \<Rightarrow> string \<Rightarrow> uuid option" where
  "id_filter e v = (if v = '''' then None else cp_parse_uuid (fl_cp e) v)"

definition query_filter :: "files_env \<Rightarrow> string option \<Rightarrow> query_string \<Rightarrow> (string \<times> string) list \<Rightarrow> file_filter" where
  "query_filter e claims q tags =
     \<lparr>ff_org = caller_org e claims, ff_agent = id_filter e (Query q ''agent_id''), ff_bucket = id_filter e (Query q ''bucket_id''),
      ff_type = id_filter e (Query q ''file_type_id''), ff_status = (if Query q ''status'' = '''' then None else Some (Query q ''status'')), ff_tags = tags\<rparr>"

definition Files_page :: "files_env \<Rightarrow> file_filter \<Rightarrow> page_key option \<Rightarrow> int \<Rightarrow> indexer \<Rightarrow> file_reply \<times> indexer" where
  "Files_page e f cursor limit s =
     (case sql (fl_cp e) (query (ListFileEntries f cursor (limit + 1))) s of
        (Inl err, s1) \<Rightarrow> (FileProblem 500 ''INTERNAL_ERROR'', s1)
      | (Inr rows, s1) \<Rightarrow>
          (let (entries, hasMore, next) = cut_page (fl_codec e) entry_key limit rows
           in case sql (fl_cp e) (query (CountFileEntries f)) s1 of
                (Inl err, s2) \<Rightarrow> (FileProblem 500 ''INTERNAL_ERROR'', s2)
              | (Inr matching, s2) \<Rightarrow>
                  (case sql (fl_cp e) (query (ListFileTagsByFileIDs (map fe_id entries))) s2 of
                     (Inl err, s3) \<Rightarrow> (FileProblem 500 ''INTERNAL_ERROR'', s3)
                   | (Inr tags, s3) \<Rightarrow>
                       (FilePage (map (\<lambda>r. (r, case map_of tags (fe_id r) of None \<Rightarrow> [] | Some ts \<Rightarrow> ts)) entries) matching hasMore next, s3))))"

definition Files_List :: "files_env \<Rightarrow> string option \<Rightarrow> query_string \<Rightarrow> indexer \<Rightarrow> file_reply \<times> indexer" where
  "Files_List e claims q s =
     (if \<not> RejectUnknownQuery [''cursor'', ''limit'', ''agent_id'', ''bucket_id'', ''file_type_id'', ''status'', ''tag''] q then (FileProblem 400 ''INVALID_QUERY_PARAM'', s)
      else case decodeCursor (fl_codec e) (Query q ''cursor'') of
             None \<Rightarrow> (FileProblem 400 ''INVALID_CURSOR'', s)
           | Some cursor \<Rightarrow>
               (case parseTagPredicates (QueryArray q ''tag'') of
                  None \<Rightarrow> (FileProblem 400 ''INVALID_QUERY_PARAM'', s)
                | Some tags \<Rightarrow> Files_page e (query_filter e claims q tags) cursor (parseLimitParam q) s))"

definition GetFileEntryByID :: "uuid \<Rightarrow> catalog \<Rightarrow> file_entry option" where
  "GetFileEntryByID i c = find_row fe_id i (file_entries c)"

definition fetchOwnedEntry :: "files_env \<Rightarrow> string option \<Rightarrow> uuid \<Rightarrow> indexer \<Rightarrow> (file_reply + file_entry) \<times> indexer" where
  "fetchOwnedEntry e claims i s =
     (case sql (fl_cp e) (query (GetFileEntryByID i)) s of
        (Inl err, s1) \<Rightarrow> (Inl (if err = ErrNoRows then FileProblem 404 ''NOT_FOUND'' else FileProblem 500 ''INTERNAL_ERROR''), s1)
      | (Inr r, s1) \<Rightarrow> (if fe_org r \<noteq> caller_org e claims then Inl (FileProblem 404 ''NOT_FOUND'') else Inr r, s1))"

definition Files_Get :: "files_env \<Rightarrow> string option \<Rightarrow> string \<Rightarrow> indexer \<Rightarrow> file_reply \<times> indexer" where
  "Files_Get e claims fid s =
     (case cp_parse_uuid (fl_cp e) fid of
        None \<Rightarrow> (FileProblem 400 ''INVALID_ID'', s)
      | Some i \<Rightarrow>
          (case fetchOwnedEntry e claims i s of
             (Inl reply, s1) \<Rightarrow> (reply, s1)
           | (Inr r, s1) \<Rightarrow>
               (case sql (fl_cp e) (query (ListFileTagsByFileIDs [fe_id r])) s1 of
                  (Inl err, s2) \<Rightarrow> (FileProblem 500 ''INTERNAL_ERROR'', s2)
                | (Inr tags, s2) \<Rightarrow> (FileReply r (case map_of tags (fe_id r) of None \<Rightarrow> [] | Some ts \<Rightarrow> ts), s2))))"

definition GetBucket :: "uuid \<Rightarrow> catalog \<Rightarrow> bucket_row option" where
  "GetBucket i c = find_row b_id i (buckets c)"

definition presignTTL :: int where
  "presignTTL = 15 * 60"

definition DownloadURL :: "files_env \<Rightarrow> string option \<Rightarrow> string \<Rightarrow> indexer \<Rightarrow> file_reply \<times> indexer" where
  "DownloadURL e claims fid s =
     (case cp_parse_uuid (fl_cp e) fid of
        None \<Rightarrow> (FileProblem 400 ''INVALID_ID'', s)
      | Some i \<Rightarrow>
          (case fetchOwnedEntry e claims i s of
             (Inl reply, s1) \<Rightarrow> (reply, s1)
           | (Inr r, s1) \<Rightarrow>
               (case sql (fl_cp e) (query (GetBucket (fe_bucket r))) s1 of
                  (Inl err, s2) \<Rightarrow> (FileProblem 500 ''INTERNAL_ERROR'', s2)
                | (Inr b, s2) \<Rightarrow>
                    (case fl_presign e (ix_stmt s2) (b_name b) (fe_storage_path r) of
                       None \<Rightarrow> (FileProblem 500 ''INTERNAL_ERROR'', s2)
                     | Some url \<Rightarrow> (UrlReply url presignTTL, s2)))))"

text \<open>One id of a batch: a link, or the error reported for it.\<close>

definition batch_item :: "files_env \<Rightarrow> string option \<Rightarrow> string \<Rightarrow> indexer \<Rightarrow> (string + string) \<times> indexer" where
  "batch_item e claims fid s =
     (case cp_parse_uuid (fl_cp e) fid of
        None \<Rightarrow> (Inl ''invalid id'', s)
      | Some i \<Rightarrow>
          (case sql (fl_cp e) (query (GetFileEntryByID i)) s of
             (Inl err, s1) \<Rightarrow> (Inl ''not found'', s1)
           | (Inr r, s1) \<Rightarrow>
               if fe_org r \<noteq> caller_org e claims then (Inl ''not found'', s1)
               else (case sql (fl_cp e) (query (GetBucket (fe_bucket r))) s1 of
                       (Inl err, s2) \<Rightarrow> (Inl ''bucket not found'', s2)
                     | (Inr b, s2) \<Rightarrow>
                         (case fl_presign e (ix_stmt s2) (b_name b) (fe_storage_path r) of
                            None \<Rightarrow> (Inl ''presign failed'', s2)
                          | Some url \<Rightarrow> (Inr url, s2)))))"

fun batch_items :: "files_env \<Rightarrow> string option \<Rightarrow> string list \<Rightarrow> indexer \<Rightarrow> (string \<times> (string + string)) list \<times> indexer" where
  "batch_items e claims [] s = ([], s)"
| "batch_items e claims (fid # ids) s =
     (let (item, s1) = batch_item e claims fid s; (rest, s2) = batch_items e claims ids s1 in ((fid, item) # rest, s2))"

definition BatchDownloadURLs :: "files_env \<Rightarrow> string option \<Rightarrow> string list option \<Rightarrow> indexer \<Rightarrow> file_reply \<times> indexer" where
  "BatchDownloadURLs e claims body s =
     (case body of
        None \<Rightarrow> (FileProblem 400 ''INVALID_REQUEST'', s)
      | Some ids \<Rightarrow> if ids = [] \<or> 100 < length ids then (FileProblem 400 ''INVALID_REQUEST'', s)
                    else (let (items, s1) = batch_items e claims ids s in (UrlItems items, s1)))"

section \<open>Deliveries of a rule\<close>

definition delivery_key :: "delivery \<Rightarrow> page_key" where
  "delivery_key d = (dv_created d, dv_id d)"

definition ListDeliveriesByRule :: "uuid \<Rightarrow> page_key option \<Rightarrow> int \<Rightarrow> delivery list \<Rightarrow> delivery list" where
  "ListDeliveriesByRule rule cursor n rows = page_query delivery_key (\<lambda>d. dv_rule d = rule) cursor n rows"

definition CountDeliveriesByRule :: "uuid \<Rightarrow> delivery list \<Rightarrow> nat" where
  "CountDeliveriesByRule rule rows = count_where (\<lambda>d. dv_rule d = rule) rows"

datatype delivery_reply = DeliveryProblem nat string | DeliveryPage "delivery list" nat bool string

text \<open>The deliveries as the two statements meet them, and whether each statement works.\<close>

definition ListDeliveries ::
  "engine_env \<Rightarrow> page_codec \<Rightarrow> bool \<times> delivery list \<Rightarrow> bool \<times> delivery list \<Rightarrow> string \<Rightarrow> query_string \<Rightarrow> delivery_reply" where
  "ListDeliveries e cd first second rid q =
     (case en_parse_uuid e rid of
        None \<Rightarrow> DeliveryProblem 400 ''INVALID_ID''
      | Some i \<Rightarrow>
          (case decodeCursor cd (Query q ''cursor'') of
             None \<Rightarrow> DeliveryProblem 400 ''INVALID_CURSOR''
           | Some cursor \<Rightarrow>
               if \<not> fst first then DeliveryProblem 500 ''INTERNAL_ERROR''
               else (let limit = parseLimitParam q;
                         (deliveries, hasMore, next) = cut_page cd delivery_key limit (ListDeliveriesByRule i cursor (limit + 1) (snd first))
                     in if \<not> fst second then DeliveryProblem 500 ''INTERNAL_ERROR''
                        else DeliveryPage deliveries (CountDeliveriesByRule i (snd second)) hasMore next)))"

end
