(* ===== verification/Files_Laws.thy ===== *)
theory Files_Laws
  imports Files
begin

text \<open>
  What reading page by page promises, stated once over an interface of paged listings and obtained for the files and the
  deliveries; and that file handlers answer for the caller's organisation only.
\<close>

section \<open>Following cursors\<close>

fun follow :: "(string \<Rightarrow> 's \<Rightarrow> ('r list \<times> bool \<times> string) option \<times> 's) \<Rightarrow> nat \<Rightarrow> string \<Rightarrow> 's \<Rightarrow> 'r list \<times> bool" where
  "follow fetch 0 c s = ([], False)"
| "follow fetch (Suc n) c s =
     (case fetch c s of
        (None, s') \<Rightarrow> ([], False)
      | (Some (xs, hasMore, nx), s') \<Rightarrow> if hasMore then (let (ys, ended) = follow fetch n nx s' in (xs @ ys, ended)) else (xs, True))"

lemma older_Some [simp]: "older (Some c) k \<longleftrightarrow> k < c"
  by (simp add: older_def)

lemma older_None [simp]: "older None k"
  by (simp add: older_def)

lemma older_trans: "older p k \<Longrightarrow> j < k \<Longrightarrow> older p j"
  by (cases p) (auto dest: less_trans)

text \<open>
  A page lists rows strictly downwards from where its cursor points, and every key that stays is on it or below its last row, where
  the next cursor points.
\<close>

locale paged_listing =
  fixes key :: "'r \<Rightarrow> page_key" and start :: "string \<Rightarrow> page_key option option"
    and fetch :: "string \<Rightarrow> 's \<Rightarrow> ('r list \<times> bool \<times> string) option \<times> 's" and ok :: "'s \<Rightarrow> bool" and kept :: "'s \<Rightarrow> page_key \<Rightarrow> bool"
  assumes ok_fetch: "ok s \<Longrightarrow> ok (snd (fetch c s))"
    and kept_fetch: "ok s \<Longrightarrow> kept s k \<Longrightarrow> kept (snd (fetch c s)) k"
    and page_sorted: "ok s \<Longrightarrow> fst (fetch c s) = Some (xs, hasMore, nx) \<Longrightarrow> sorted_wrt (\<lambda>x y. key y < key x) xs"
    and page_below: "ok s \<Longrightarrow> fst (fetch c s) = Some (xs, hasMore, nx) \<Longrightarrow> start c = Some p \<Longrightarrow> x \<in> set xs \<Longrightarrow> older p (key x)"
    and page_next: "ok s \<Longrightarrow> fst (fetch c s) = Some (xs, hasMore, nx) \<Longrightarrow> hasMore \<Longrightarrow> xs \<noteq> [] \<and> start nx = Some (Some (key (last xs)))"
    and page_covers: "ok s \<Longrightarrow> fst (fetch c s) = Some (xs, hasMore, nx) \<Longrightarrow> start c = Some p \<Longrightarrow> kept s k \<Longrightarrow> older p k \<Longrightarrow>
      k \<in> key ` set xs \<or> hasMore \<and> k < key (last xs)"
begin

lemma follow_listing:
  assumes "ok s" "start c = Some p"
  shows "sorted_wrt (\<lambda>x y. key y < key x) (fst (follow fetch n c s)) \<and> (\<forall>x\<in>set (fst (follow fetch n c s)). older p (key x))
    \<and> (snd (follow fetch n c s) \<longrightarrow> (\<forall>k. kept s k \<longrightarrow> older p k \<longrightarrow> k \<in> key ` set (fst (follow fetch n c s))))"
  using assms
proof (induction n arbitrary: c p s)
  case (Suc n)
  note IH = Suc.IH and ok = Suc.prems(1) and p = Suc.prems(2)
  obtain a s' where f: "fetch c s = (a, s')" by force
  show ?case
  proof (cases a)
    case (Some page)
    obtain xs hasMore nx where page: "page = (xs, hasMore, nx)" by (cases page)
    have r: "fst (fetch c s) = Some (xs, hasMore, nx)" by (simp add: f Some page)
    note here = page_sorted[OF ok r] page_below[OF ok r p] page_covers[OF ok r p]
    show ?thesis
    proof (cases hasMore)
      case True
      note nxt = page_next[OF ok r True]
      have ok': "ok s'" and kept': "\<And>k. kept s k \<Longrightarrow> kept s' k" using ok_fetch[OF ok, of c] kept_fetch[OF ok] f by (simp, metis snd_conv)
      obtain ys ended where ys: "follow fetch n nx s' = (ys, ended)" by force
      note rest = IH[OF ok' nxt[THEN conjunct2], unfolded ys fst_conv snd_conv]
      have below: "key y < key x" if "x \<in> set xs" "y \<in> set ys" for x y
      proof -
        have "key y < key (last xs)" using rest that(2) by simp
        moreover have "x = last xs \<or> key (last xs) < key x"
          using here(1) nxt that(1) by (cases xs rule: rev_cases) (auto simp: sorted_wrt_append)
        ultimately show ?thesis by auto
      qed
      have under: "older p (key y)" if "y \<in> set ys" for y
        using older_trans[OF here(2)[OF last_in_set] below[OF last_in_set that]] nxt by simp
      have all: "k \<in> key ` set (xs @ ys)" if "ended" "kept s k" "older p k" for k
        using here(3)[OF that(2,3)] rest kept'[OF that(2)] that(1) by (auto simp del: split_paired_All)
      have "follow fetch (Suc n) c s = (xs @ ys, ended)" using f Some page True ys by simp
      moreover have "sorted_wrt (\<lambda>x y. key y < key x) (xs @ ys)" using here(1) rest below by (simp add: sorted_wrt_append)
      moreover have "\<forall>x\<in>set (xs @ ys). older p (key x)" using here(2) under by auto
      ultimately show ?thesis using all by (simp del: follow.simps set_append split_paired_All)
    next
      case False
      then show ?thesis using f Some page here by auto
    qed
  qed (use f in simp)
qed simp

end

text \<open>A listing that is left alone ends.\<close>

locale ending_listing = paged_listing +
  fixes quiet :: "'s \<Rightarrow> bool" and live :: "'s \<Rightarrow> page_key set"
  assumes quiet_fetch: "quiet s \<Longrightarrow> quiet (snd (fetch c s)) \<and> live (snd (fetch c s)) = live s"
    and quiet_answer: "quiet s \<Longrightarrow> start c \<noteq> None \<Longrightarrow> fst (fetch c s) \<noteq> None"
    and live_finite: "finite (live s)"
    and page_live: "ok s \<Longrightarrow> fst (fetch c s) = Some (xs, hasMore, nx) \<Longrightarrow> quiet s \<Longrightarrow> key ` set xs \<subseteq> live s"
begin

lemma follow_ends:
  assumes "ok s" "quiet s" "start c = Some p" "card {k \<in> live s. older p k} < n"
  shows "snd (follow fetch n c s)"
  using assms
proof (induction n arbitrary: c p s)
  case (Suc n)
  note ok = Suc.prems(1) and quiet = Suc.prems(2) and p = Suc.prems(3)
  obtain xs hasMore nx s' where f: "fetch c s = (Some (xs, hasMore, nx), s')"
    using quiet_answer[OF quiet, of c] p by (cases "fetch c s") auto
  then have r: "fst (fetch c s) = Some (xs, hasMore, nx)" by simp
  show ?case
  proof (cases hasMore)
    case True
    note nxt = page_next[OF ok r True]
    let ?k = "key (last xs)"
    have k: "?k \<in> live s" "older p ?k" using page_live[OF ok r quiet] page_below[OF ok r p] nxt by auto
    have s': "ok s'" "quiet s'" "live s' = live s" using ok_fetch[OF ok, of c] quiet_fetch[OF quiet, of c] f by auto
    have "{x \<in> live s. older (Some ?k) x} \<subset> {x \<in> live s. older p x}" using k older_trans[OF k(2)] by auto
    then have "card {x \<in> live s. older (Some ?k) x} < card {x \<in> live s. older p x}" by (intro psubset_card_mono) (simp_all add: live_finite)
    then have "snd (follow fetch n nx s')" using Suc.IH[OF s'(1,2)] nxt s'(3) Suc.prems(4) by simp
    then show ?thesis using f True by (cases "follow fetch n nx s'") simp
  qed (use f in simp)
qed simp

end

section \<open>One page\<close>

lemma page_facts:
  assumes keys: "distinct (map key rows)" and limit: "0 < limit"
    and page: "cut_page cd key limit (page_query key P p (limit + 1) rows) = (xs, hasMore, nx)"
  shows "sorted_wrt (\<lambda>x y. key y < key x) xs" "x \<in> set xs \<Longrightarrow> x \<in> set rows \<and> P x \<and> older p (key x)"
    "hasMore \<Longrightarrow> xs \<noteq> [] \<and> nx = pg_encode cd (key (last xs))"
    "r \<in> set rows \<Longrightarrow> P r \<Longrightarrow> older p (key r) \<Longrightarrow> r \<in> set xs \<or> hasMore \<and> key r < key (last xs)"
proof -
  let ?K = "\<lambda>r. (- fst (key r), - int (snd (key r)))"
  define ys where "ys = order_by ?K (select_where (\<lambda>r. P r \<and> older p (key r)) rows)"
  have set_ys: "set ys = {r \<in> set rows. P r \<and> older p (key r)}" by (auto simp: ys_def sql_simps)
  have "distinct (map key (select_where (\<lambda>r. P r \<and> older p (key r)) rows))" using keys by (simp add: select_where_def distinct_map_filter)
  then have "distinct (map key ys)" by (simp add: ys_def order_by_def distinct_map inj_on_def)
  then have "distinct (map ?K ys)" by (auto simp: distinct_map inj_on_def prod_eq_iff)
  then have "sorted_wrt (<) (map ?K ys)" using sorted_order_by[of ?K] by (simp add: ys_def strict_sorted_iff)
  then have down: "sorted_wrt (\<lambda>x y. key y < key x) ys" by (simp add: sorted_wrt_map less_prod_def)
  let ?m = "limit < int (length (take (nat (limit + 1)) ys))"
  have m: "hasMore = ?m" and next_eq: "hasMore \<Longrightarrow> nx = pg_encode cd (key (last xs))"
    and xs: "xs = (if hasMore then take (nat limit) (take (nat (limit + 1)) ys) else take (nat (limit + 1)) ys)"
    using page by (auto simp: cut_page_def page_query_def ys_def Let_def)
  have pre: "xs = take (nat limit) ys" using m xs limit by (auto simp: min_def)
  then show "sorted_wrt (\<lambda>x y. key y < key x) xs" using down by (simp add: sorted_wrt_take)
  show "x \<in> set xs \<Longrightarrow> x \<in> set rows \<and> P x \<and> older p (key x)" using set_ys pre by (auto dest: in_set_takeD)
  show "hasMore \<Longrightarrow> xs \<noteq> [] \<and> nx = pg_encode cd (key (last xs))" using next_eq pre m limit by auto
  show "r \<in> set xs \<or> hasMore \<and> key r < key (last xs)" if "r \<in> set rows" "P r" "older p (key r)"
  proof (cases "r \<in> set xs")
    case False
    have "r \<in> set ys" using that set_ys by simp
    then have d: "r \<in> set (drop (nat limit) ys)" using False pre by (metis append_take_drop_id set_append Un_iff)
    then have long: "nat limit < length ys" by (metis drop_all empty_iff leI list.set(1))
    then have hasMore: hasMore using m limit by auto
    have "xs \<noteq> []" using long limit pre by auto
    moreover have "\<forall>x\<in>set xs. \<forall>y\<in>set (drop (nat limit) ys). key y < key x"
      using down pre by (metis append_take_drop_id sorted_wrt_append)
    ultimately show ?thesis using d hasMore by simp
  qed simp
qed

section \<open>Files\<close>

definition files_fetch :: "files_env \<Rightarrow> string option \<Rightarrow> query_string \<Rightarrow> string \<Rightarrow> indexer \<Rightarrow> (file_entry list \<times> bool \<times> string) option \<times> indexer" where
  "files_fetch e claims q c s =
     (case Files_List e claims ((''cursor'', c) # q) s of
        (FilePage items n hasMore nx, s') \<Rightarrow> (Some (map fst items, hasMore, nx), s')
      | (reply, s') \<Rightarrow> (None, s'))"

definition codec_ok :: "page_codec \<Rightarrow> bool" where
  "codec_ok cd \<longleftrightarrow> (\<forall>k. pg_encode cd k \<noteq> '''' \<and> pg_decode cd (pg_encode cd k) = Some k)"

definition listing_filter :: "files_env \<Rightarrow> string option \<Rightarrow> query_string \<Rightarrow> file_filter" where
  "listing_filter e claims q = query_filter e claims q (the (parseTagPredicates (QueryArray q ''tag'')))"

text \<open>A row of this key matches the filter.\<close>

definition listed :: "file_filter \<Rightarrow> catalog \<Rightarrow> page_key \<Rightarrow> bool" where
  "listed f c k \<longleftrightarrow> (\<exists>r\<in>set (file_entries c). entry_key r = k \<and> entry_matches f c r)"

definition ids_unique :: "catalog \<Rightarrow> bool" where
  "ids_unique c \<longleftrightarrow> unique_key fe_id (file_entries c)"

definition files_ok :: "files_env \<Rightarrow> indexer \<Rightarrow> bool" where
  "files_ok e s \<longleftrightarrow> codec_ok (fl_codec e) \<and> ids_unique (ix_db s) \<and> (\<forall>j c. ids_unique c \<longrightarrow> ids_unique (cp_meanwhile (fl_cp e) j c))"

text \<open>It matches now, and no other session changes that.\<close>

definition files_kept :: "files_env \<Rightarrow> file_filter \<Rightarrow> indexer \<Rightarrow> page_key \<Rightarrow> bool" where
  "files_kept e f s k \<longleftrightarrow> listed f (ix_db s) k \<and> (\<forall>j c. listed f c k \<longrightarrow> listed f (cp_meanwhile (fl_cp e) j c) k)"

definition files_quiet :: "files_env \<Rightarrow> string option \<Rightarrow> query_string \<Rightarrow> indexer \<Rightarrow> bool" where
  "files_quiet e claims q s \<longleftrightarrow> (\<forall>j. cp_fault (fl_cp e) j = None) \<and> (\<forall>j c. cp_meanwhile (fl_cp e) j c = c)
     \<and> RejectUnknownQuery [''cursor'', ''limit'', ''agent_id'', ''bucket_id'', ''file_type_id'', ''status'', ''tag''] q
     \<and> parseTagPredicates (QueryArray q ''tag'') \<noteq> None \<and> status_ok (listing_filter e claims q)"

lemma parseLimitParam_pos: "0 < parseLimitParam q"
  by (simp add: parseLimitParam_def split: option.splits)

lemma Query_Cons: "Query ((k', v) # q) k = (if k' = k then v else Query q k)"
  by (simp add: Query_def)

lemma QueryArray_Cons: "QueryArray ((k', v) # q) k = (if k' = k then v # QueryArray q k else QueryArray q k)"
  by (simp add: QueryArray_def)

lemma listing_filter_cursor [simp]:
  "query_filter e claims ((''cursor'', c) # q) tags = query_filter e claims q tags" "parseLimitParam ((''cursor'', c) # q) = parseLimitParam q"
  "QueryArray ((''cursor'', c) # q) ''tag'' = QueryArray q ''tag''" "Query ((''cursor'', c) # q) ''cursor'' = c"
  by (simp_all add: query_filter_def parseLimitParam_def Query_Cons QueryArray_Cons)

lemma decode_encode: "codec_ok cd \<Longrightarrow> decodeCursor cd (pg_encode cd k) = Some (Some k)"
  by (cases k) (simp add: codec_ok_def decodeCursor_def)

text \<open>A statement that reads: the table it saw, and what it leaves.\<close>

definition after_read :: "cp_env \<Rightarrow> indexer \<Rightarrow> indexer" where
  "after_read e s = s\<lparr>ix_db := cp_meanwhile e (ix_stmt s) (ix_db s), ix_stmt := Suc (ix_stmt s)\<rparr>"

lemma sql_query_after: "snd (sql e (query g) s) = after_read e s"
  by (simp add: sql_def query_def Let_def after_read_def split: option.splits db_fault.splits)

lemma sql_query_answer: "sql e (query g) s = (Inr x, s') \<Longrightarrow> g (ix_db (after_read e s)) = Some x \<and> s' = after_read e s"
  by (auto simp: sql_def query_def Let_def after_read_def split: option.splits db_fault.splits)

lemma sql_query_quiet: "cp_fault e (ix_stmt s) = None \<Longrightarrow> g (ix_db (after_read e s)) = Some x \<Longrightarrow> sql e (query g) s = (Inr x, after_read e s)"
  by (simp add: sql_def query_def Let_def after_read_def)

lemma files_reads:
  assumes "\<And>s. I s \<Longrightarrow> I (after_read (fl_cp e) s)" "I s"
  shows "I (snd (Files_List e claims q s))"
proof -
  have count: "I s'" if "sql (fl_cp e) (query g) u = (r, s')" "I u" for g :: "catalog \<Rightarrow> nat option" and r s' u
    using sql_query_after[of "fl_cp e" g u] that assms(1)[OF that(2)] by simp
  have rows: "I s'" if "sql (fl_cp e) (query g) u = (r, s')" "I u" for g :: "catalog \<Rightarrow> file_entry list option" and r s' u
    using sql_query_after[of "fl_cp e" g u] that assms(1)[OF that(2)] by simp
  have tags: "I s'" if "sql (fl_cp e) (query g) u = (r, s')" "I u" for g :: "catalog \<Rightarrow> (uuid \<times> (string \<times> string) list) list option" and r s' u
    using sql_query_after[of "fl_cp e" g u] that assms(1)[OF that(2)] by simp
  have "I (snd (Files_page e f cursor limit s))" for f cursor limit
    using assms(2) by (auto simp: Files_page_def Let_def split: prod.splits sum.splits dest!: rows count tags)
  then show ?thesis using assms(2) by (auto simp: Files_List_def split: option.splits)
qed

lemma files_fetch_state: "snd (files_fetch e claims q c s) = snd (Files_List e claims ((''cursor'', c) # q) s)"
  by (simp add: files_fetch_def split: prod.splits file_reply.splits)

lemma files_fetch_page:
  assumes "fst (files_fetch e claims q c s) = Some (xs, hasMore, nx)"
  obtains p where "decodeCursor (fl_codec e) c = Some p"
    and "cut_page (fl_codec e) entry_key (parseLimitParam q) (page_query entry_key (entry_matches (listing_filter e claims q) (ix_db (after_read (fl_cp e) s))) p
           (parseLimitParam q + 1) (file_entries (ix_db (after_read (fl_cp e) s)))) = (xs, hasMore, nx)"
proof -
  obtain items n s' where r: "Files_List e claims ((''cursor'', c) # q) s = (FilePage items n hasMore nx, s')" and xs: "xs = map fst items"
    using assms by (auto simp: files_fetch_def split: prod.splits file_reply.splits)
  obtain p tags where p: "decodeCursor (fl_codec e) c = Some p" and tags: "parseTagPredicates (QueryArray q ''tag'') = Some tags"
    and page: "Files_page e (query_filter e claims q tags) p (parseLimitParam q) s = (FilePage items n hasMore nx, s')"
    using r by (auto simp: Files_List_def split: if_splits option.splits)
  have f: "query_filter e claims q tags = listing_filter e claims q" by (simp add: listing_filter_def tags)
  obtain rows s1 where rows: "sql (fl_cp e) (query (ListFileEntries (listing_filter e claims q) p (parseLimitParam q + 1))) s = (Inr rows, s1)"
    and cut: "cut_page (fl_codec e) entry_key (parseLimitParam q) rows = (map fst items, hasMore, nx)"
    using page unfolding f by (auto simp: Files_page_def comp_def split: prod.splits sum.splits)
  have "rows = page_query entry_key (entry_matches (listing_filter e claims q) (ix_db (after_read (fl_cp e) s))) p (parseLimitParam q + 1)
      (file_entries (ix_db (after_read (fl_cp e) s)))"
    using sql_query_answer[OF rows] by (auto simp: ListFileEntries_def split: if_splits)
  then show ?thesis using that p cut xs by simp
qed

lemma files_ok_read: "files_ok e s \<Longrightarrow> files_ok e (after_read (fl_cp e) s)"
  by (simp add: files_ok_def after_read_def)

lemma files_kept_read: "files_kept e f s k \<Longrightarrow> files_kept e f (after_read (fl_cp e) s) k"
  by (simp add: files_kept_def after_read_def)

lemma files_ok_keys: "files_ok e s \<Longrightarrow> distinct (map entry_key (file_entries (ix_db s)))"
  by (auto simp: files_ok_def ids_unique_def unique_key_def distinct_map inj_on_def entry_key_def)

lemma files_quiet_answer:
  assumes "files_quiet e claims q s" "decodeCursor (fl_codec e) c \<noteq> None"
  shows "fst (files_fetch e claims q c s) \<noteq> None"
proof -
  obtain tags p where t: "parseTagPredicates (QueryArray q ''tag'') = Some tags" and p: "decodeCursor (fl_codec e) c = Some p"
    using assms by (auto simp: files_quiet_def)
  have ok: "status_ok (query_filter e claims q tags)" using assms(1) t by (simp add: files_quiet_def listing_filter_def)
  have "\<exists>items n hasMore nx s'. Files_page e (query_filter e claims q tags) p l s = (FilePage items n hasMore nx, s')" for l
    using ok assms(1)
    by (auto simp: Files_page_def sql_query_quiet ListFileEntries_def CountFileEntries_def ListFileTagsByFileIDs_def files_quiet_def split: prod.splits)
  then obtain items n hasMore nx s' where page: "Files_page e (query_filter e claims q tags) p (parseLimitParam q) s = (FilePage items n hasMore nx, s')" by blast
  have "RejectUnknownQuery [''cursor'', ''limit'', ''agent_id'', ''bucket_id'', ''file_type_id'', ''status'', ''tag''] ((''cursor'', c) # q)"
    using assms(1) by (simp add: files_quiet_def RejectUnknownQuery_def)
  then show ?thesis using t p page by (simp add: files_fetch_def Files_List_def)
qed

interpretation file_pages: ending_listing entry_key "decodeCursor (fl_codec e)" "files_fetch e claims q" "files_ok e"
  "files_kept e (listing_filter e claims q)" "files_quiet e claims q" "\<lambda>s. entry_key ` set (file_entries (ix_db s))" for e claims q
proof
  fix s c k xs hasMore nx p x
  let ?s1 = "after_read (fl_cp e) s"
  show "files_ok e s \<Longrightarrow> files_ok e (snd (files_fetch e claims q c s))"
    unfolding files_fetch_state by (rule files_reads[of "files_ok e"]) (simp_all add: files_ok_read)
  show "files_kept e (listing_filter e claims q) s k \<Longrightarrow> files_kept e (listing_filter e claims q) (snd (files_fetch e claims q c s)) k"
    unfolding files_fetch_state by (rule files_reads[of "\<lambda>s. files_kept e (listing_filter e claims q) s k"]) (simp_all add: files_kept_read)
  show "finite (entry_key ` set (file_entries (ix_db s)))" by simp
  show "files_quiet e claims q s \<Longrightarrow> decodeCursor (fl_codec e) c \<noteq> None \<Longrightarrow> fst (files_fetch e claims q c s) \<noteq> None" by (rule files_quiet_answer)
  show "files_quiet e claims q (snd (files_fetch e claims q c s)) \<and> entry_key ` set (file_entries (ix_db (snd (files_fetch e claims q c s)))) = entry_key ` set (file_entries (ix_db s))"
    if quiet: "files_quiet e claims q s"
  proof -
    have "ix_db (snd (files_fetch e claims q c s)) = ix_db s"
      unfolding files_fetch_state by (rule files_reads[of "\<lambda>u. ix_db u = ix_db s"]) (use quiet in \<open>simp_all add: after_read_def files_quiet_def\<close>)
    then show ?thesis using quiet by (simp add: files_quiet_def)
  qed
  assume ok: "files_ok e s" and page: "fst (files_fetch e claims q c s) = Some (xs, hasMore, nx)"
  obtain p' where p': "decodeCursor (fl_codec e) c = Some p'"
    and cut: "cut_page (fl_codec e) entry_key (parseLimitParam q) (page_query entry_key (entry_matches (listing_filter e claims q) (ix_db ?s1)) p'
           (parseLimitParam q + 1) (file_entries (ix_db ?s1))) = (xs, hasMore, nx)" by (rule files_fetch_page[OF page])
  note facts = page_facts[OF files_ok_keys[OF files_ok_read[OF ok]] parseLimitParam_pos cut]
  show "sorted_wrt (\<lambda>x y. entry_key y < entry_key x) xs" by (rule facts(1))
  show "decodeCursor (fl_codec e) c = Some p \<Longrightarrow> x \<in> set xs \<Longrightarrow> older p (entry_key x)" using facts(2) p' by simp
  show "xs \<noteq> [] \<and> decodeCursor (fl_codec e) nx = Some (Some (entry_key (last xs)))" if hasMore
    using facts(3)[OF that] ok by (simp add: files_ok_def decode_encode)
  show "k \<in> entry_key ` set xs \<or> hasMore \<and> k < entry_key (last xs)"
    if at: "decodeCursor (fl_codec e) c = Some p" "files_kept e (listing_filter e claims q) s k" "older p k"
  proof -
    obtain r where "r \<in> set (file_entries (ix_db ?s1))" "entry_key r = k" "entry_matches (listing_filter e claims q) (ix_db ?s1) r"
      using files_kept_read[OF at(2)] by (auto simp: files_kept_def listed_def)
    then show ?thesis using facts(4)[of r] at p' by auto
  qed
  show "files_quiet e claims q s \<Longrightarrow> entry_key ` set xs \<subseteq> entry_key ` set (file_entries (ix_db s))"
    using facts(2) by (auto simp: files_quiet_def after_read_def)
qed

text \<open>The rows of a page belong to the caller's organisation.\<close>

lemma follow_files_org:
  assumes "files_ok e s" "r \<in> set (fst (follow (files_fetch e claims q) n c s))"
  shows "fe_org r = caller_org e claims"
  using assms
proof (induction n arbitrary: c s)
  case (Suc n)
  obtain a s' where f: "files_fetch e claims q c s = (a, s')" by force
  have ok': "files_ok e s'" using file_pages.ok_fetch[OF Suc.prems(1), of claims q c] f by simp
  show ?case
  proof (cases a)
    case (Some page)
    obtain xs hasMore nx where page: "page = (xs, hasMore, nx)" by (cases page)
    have "fst (files_fetch e claims q c s) = Some (xs, hasMore, nx)" by (simp add: f Some page)
    then obtain p where "cut_page (fl_codec e) entry_key (parseLimitParam q) (page_query entry_key (entry_matches (listing_filter e claims q) (ix_db (after_read (fl_cp e) s))) p
           (parseLimitParam q + 1) (file_entries (ix_db (after_read (fl_cp e) s)))) = (xs, hasMore, nx)" by (rule files_fetch_page)
    note facts = page_facts(2)[OF files_ok_keys[OF files_ok_read[OF Suc.prems(1)]] parseLimitParam_pos this]
    have "fe_org x = caller_org e claims" if "x \<in> set xs" for x
      using facts[OF that] by (simp add: entry_matches_def listing_filter_def query_filter_def)
    then show ?thesis using Suc.prems(2) Suc.IH[OF ok', of nx] f Some page
      by (cases "follow (files_fetch e claims q) n nx s'") (auto split: if_splits)
  qed (use Suc.prems f in simp)
qed simp

text \<open>A download link is made only for a row of the caller's organisation, and names that row's object.\<close>

lemma owned_entry:
  assumes "fetchOwnedEntry e claims i s = (Inr r, s')"
  shows "r \<in> set (file_entries (ix_db s'))" "fe_id r = i" "fe_org r = caller_org e claims" "s' = after_read (fl_cp e) s"
proof -
  obtain s1 where sql: "sql (fl_cp e) (query (GetFileEntryByID i)) s = (Inr r, s1)" and "s' = s1" and org: "fe_org r = caller_org e claims"
    using assms by (auto simp: fetchOwnedEntry_def split: prod.splits sum.splits if_splits)
  then show "r \<in> set (file_entries (ix_db s'))" "fe_id r = i" "fe_org r = caller_org e claims" "s' = after_read (fl_cp e) s"
    using sql_query_answer[OF sql] by (auto simp: GetFileEntryByID_def find_row_def find_Some_iff)
qed

theorem download_links_of_own_org:
  assumes "fst (DownloadURL e claims fid s) = UrlReply url ttl"
  shows "\<exists>r b j. r \<in> set (file_entries (ix_db (after_read (fl_cp e) s))) \<and> cp_parse_uuid (fl_cp e) fid = Some (fe_id r) \<and> fe_org r = caller_org e claims
    \<and> fl_presign e j b (fe_storage_path r) = Some url \<and> ttl = presignTTL"
proof -
  obtain i r s1 where i: "cp_parse_uuid (fl_cp e) fid = Some i" and r: "fetchOwnedEntry e claims i s = (Inr r, s1)"
    using assms by (auto simp: DownloadURL_def fetchOwnedEntry_def split: option.splits prod.splits sum.splits if_splits)
  then have "\<exists>j b. fl_presign e j b (fe_storage_path r) = Some url \<and> ttl = presignTTL"
    using assms by (auto simp: DownloadURL_def split: option.splits prod.splits sum.splits)
  then show ?thesis using owned_entry[OF r] i by blast
qed

section \<open>Deliveries\<close>

text \<open>The deliveries over time, by the number of the statement, and whether each statement works; a request makes two.\<close>

type_synonym delivery_history = "nat \<Rightarrow> bool \<times> delivery list"

definition deliveries_fetch ::
  "engine_env \<Rightarrow> page_codec \<Rightarrow> delivery_history \<Rightarrow> string \<Rightarrow> query_string \<Rightarrow> string \<Rightarrow> nat \<Rightarrow> (delivery list \<times> bool \<times> string) option \<times> nat" where
  "deliveries_fetch e cd h rid q c j =
     (case ListDeliveries e cd (h j) (h (Suc j)) rid ((''cursor'', c) # q) of
        DeliveryPage xs n hasMore nx \<Rightarrow> (Some (xs, hasMore, nx), j + 2)
      | reply \<Rightarrow> (None, j + 2))"

definition deliveries_ok :: "page_codec \<Rightarrow> delivery_history \<Rightarrow> nat \<Rightarrow> bool" where
  "deliveries_ok cd h j \<longleftrightarrow> codec_ok cd \<and> (\<forall>i\<ge>j. unique_key dv_id (snd (h i)))"

definition deliveries_kept :: "delivery_history \<Rightarrow> uuid option \<Rightarrow> nat \<Rightarrow> page_key \<Rightarrow> bool" where
  "deliveries_kept h rule j k \<longleftrightarrow> (\<forall>i\<ge>j. \<exists>d\<in>set (snd (h i)). delivery_key d = k \<and> Some (dv_rule d) = rule)"

interpretation delivery_pages: paged_listing delivery_key "decodeCursor cd" "deliveries_fetch e cd h rid q" "deliveries_ok cd h"
  "deliveries_kept h (en_parse_uuid e rid)" for e cd h rid q
proof
  fix j c k xs hasMore nx p x
  have j: "snd (deliveries_fetch e cd h rid q c j) = j + 2" by (simp add: deliveries_fetch_def split: delivery_reply.splits)
  show "deliveries_ok cd h j \<Longrightarrow> deliveries_ok cd h (snd (deliveries_fetch e cd h rid q c j))" unfolding j by (simp add: deliveries_ok_def)
  show "deliveries_kept h (en_parse_uuid e rid) j k \<Longrightarrow> deliveries_kept h (en_parse_uuid e rid) (snd (deliveries_fetch e cd h rid q c j)) k"
    unfolding j by (simp add: deliveries_kept_def)
  assume ok: "deliveries_ok cd h j" and page: "fst (deliveries_fetch e cd h rid q c j) = Some (xs, hasMore, nx)"
  obtain i p' where i: "en_parse_uuid e rid = Some i" and p': "decodeCursor cd c = Some p'"
    and cut: "cut_page cd delivery_key (parseLimitParam q) (page_query delivery_key (\<lambda>d. dv_rule d = i) p' (parseLimitParam q + 1) (snd (h j))) = (xs, hasMore, nx)"
    using page by (auto simp: deliveries_fetch_def ListDeliveries_def ListDeliveriesByRule_def Let_def
      split: delivery_reply.splits option.splits if_splits prod.splits)
  have "distinct (map delivery_key (snd (h j)))" using ok by (auto simp: deliveries_ok_def unique_key_def distinct_map inj_on_def delivery_key_def)
  note facts = page_facts[OF this parseLimitParam_pos cut]
  show "sorted_wrt (\<lambda>x y. delivery_key y < delivery_key x) xs" by (rule facts(1))
  show "decodeCursor cd c = Some p \<Longrightarrow> x \<in> set xs \<Longrightarrow> older p (delivery_key x)" using facts(2) p' by simp
  show "xs \<noteq> [] \<and> decodeCursor cd nx = Some (Some (delivery_key (last xs)))" if hasMore
    using facts(3)[OF that] ok by (simp add: deliveries_ok_def decode_encode)
  show "k \<in> delivery_key ` set xs \<or> hasMore \<and> k < delivery_key (last xs)"
    if at: "decodeCursor cd c = Some p" "deliveries_kept h (en_parse_uuid e rid) j k" "older p k"
  proof -
    obtain d where "d \<in> set (snd (h j))" "delivery_key d = k" "dv_rule d = i" using at(2) i by (auto simp: deliveries_kept_def)
    then show ?thesis using facts(4)[of d] at p' by auto
  qed
qed

text \<open>The deliveries of a rule are listed the same way: newest first, none twice, none that stays missed.\<close>

theorem delivery_listing_complete:
  assumes "codec_ok cd" "\<And>i. unique_key dv_id (snd (h i))"
  shows "sorted_wrt (\<lambda>x y. delivery_key y < delivery_key x) (fst (follow (deliveries_fetch e cd h rid q) n '''' 0))
    \<and> (snd (follow (deliveries_fetch e cd h rid q) n '''' 0) \<longrightarrow>
        (\<forall>k. deliveries_kept h (en_parse_uuid e rid) 0 k \<longrightarrow> k \<in> delivery_key ` set (fst (follow (deliveries_fetch e cd h rid q) n '''' 0))))"
proof -
  have "deliveries_ok cd h 0" using assms by (simp add: deliveries_ok_def)
  then show ?thesis using delivery_pages.follow_listing[of cd h 0 "''''" None e rid q n] by (simp add: decodeCursor_def)
qed

section \<open>Properties\<close>

text \<open>
  C15: Listing the files page by page is complete.  Whatever other sessions do between the statements, the rows read by following the
  cursors come newest first, none twice, and all of the caller's organisation; a listing that comes to an end has every row that
  matched the filter all the time; and with no faults and no other session it does come to an end.
\<close>

theorem file_listing_complete:
  assumes "codec_ok (fl_codec e)" "ids_unique (ix_db s)" "\<And>j c. ids_unique c \<Longrightarrow> ids_unique (cp_meanwhile (fl_cp e) j c)"
  shows "sorted_wrt (\<lambda>x y. entry_key y < entry_key x) (fst (follow (files_fetch e claims q) n '''' s))
    \<and> (\<forall>r\<in>set (fst (follow (files_fetch e claims q) n '''' s)). fe_org r = caller_org e claims)
    \<and> (snd (follow (files_fetch e claims q) n '''' s) \<longrightarrow>
         (\<forall>k. files_kept e (listing_filter e claims q) s k \<longrightarrow> k \<in> entry_key ` set (fst (follow (files_fetch e claims q) n '''' s))))
    \<and> (files_quiet e claims q s \<longrightarrow> length (file_entries (ix_db s)) < n \<longrightarrow> snd (follow (files_fetch e claims q) n '''' s))"
proof -
  have ok: "files_ok e s" using assms by (simp add: files_ok_def)
  have start: "decodeCursor (fl_codec e) '''' = Some None" by (simp add: decodeCursor_def)
  have "card {k \<in> entry_key ` set (file_entries (ix_db s)). older None k} \<le> length (file_entries (ix_db s))"
    using order_trans[OF card_image_le[OF finite_set] card_length] by simp
  then show ?thesis using file_pages.follow_listing[OF ok start, of claims q n] follow_files_org[OF ok] file_pages.follow_ends[OF ok _ start, of claims q n]
    by (auto simp del: split_paired_All)
qed

section \<open>Samples\<close>

definition sample_codec :: page_codec where
  "sample_codec = \<lparr>pg_encode = (\<lambda>(t, i). replicate i CHR ''1'' @ [if t < 0 then CHR ''-'' else CHR ''+''] @ replicate (nat \<bar>t\<bar>) CHR ''1''),
     pg_decode = (\<lambda>v. let i = length (takeWhile (\<lambda>c. c = CHR ''1'') v); rest = drop i v
        in case rest of [] \<Rightarrow> None | c # cs \<Rightarrow> Some (if c = CHR ''-'' then - int (length cs) else int (length cs), i))\<rparr>"

lemma sample_codec_ok: "codec_ok sample_codec"
  unfolding codec_ok_def
proof (intro allI)
  fix k :: page_key
  obtain t i where k: "k = (t, i)" by (cases k)
  have "takeWhile (\<lambda>c. c = CHR ''1'') (replicate i CHR ''1'' @ [c] @ w) = replicate i CHR ''1''" if "c \<noteq> CHR ''1''" for c w
    using that by (subst takeWhile_append2) auto
  then show "pg_encode sample_codec k \<noteq> '''' \<and> pg_decode sample_codec (pg_encode sample_codec k) = Some k"
    by (simp add: k sample_codec_def Let_def)
qed

definition sample_file :: "uuid \<Rightarrow> int \<Rightarrow> file_entry" where
  "sample_file i t = \<lparr>fe_id = i, fe_org = 1, fe_file_type = None, fe_agent = None, fe_rule = None, fe_bucket = 3, fe_storage_path = ''a'', fe_original_path = None,
     fe_file_name = ''a'', fe_size = 1, fe_sha256 = None, fe_etag = None, fe_content_type = None, fe_mtime = None, fe_status = FileStatusCompleted,
     fe_uploaded_at = None, fe_created_at = t, fe_updated_at = t, fe_observed_at = t, fe_source = '''', fe_event_seq = None, fe_meta_incomplete = False\<rparr>"

definition sample_files :: indexer where
  "sample_files = \<lparr>ix_db = \<lparr>buckets = [], collection_rules = [], file_types = [], file_type_rules = [], file_entries = [sample_file 4 2, sample_file 5 3, sample_file 6 3],
     file_tags = [], tag_keys = [], tag_values = [], pending_tag_values = [], upload_logs = [], event_cursors = [], event_marks = [], next_uuid = 9\<rparr>,
     ix_stmt = 0, ix_suppressedWrites = 0, ix_absentDeletes = 0, ix_published = []\<rparr>"

definition sample_files_env :: files_env where
  "sample_files_env = \<lparr>fl_cp = \<lparr>cp_fault = (\<lambda>j. None), cp_now = int, cp_meanwhile = (\<lambda>j c. c), cp_collate = (\<lambda>x y. True), cp_time = digit_time,
     cp_parse_uuid = (\<lambda>v. Some (length v)), cp_unmarshal = (\<lambda>v. (\<lparr>rm_file_type = '''', rm_static_tags = [], rm_path_tag_map = []\<rparr>, False)), cp_clock = 0, cp_nats = False,
     cp_publish = (\<lambda>j. True)\<rparr>, fl_codec = sample_codec, fl_presign = (\<lambda>j b k. None)\<rparr>"

definition sample_query :: query_string where
  "sample_query = [(''limit'', ''2'')]"

lemma sample_files_facts:
  "map fe_id (fst (follow (files_fetch sample_files_env (Some ''x'') sample_query) 4 '''' sample_files)) = [6, 5, 4]"
  by code_simp

lemma sample_files_quiet: "files_quiet sample_files_env (Some ''x'') sample_query sample_files"
proof -
  have "RejectUnknownQuery [''cursor'', ''limit'', ''agent_id'', ''bucket_id'', ''file_type_id'', ''status'', ''tag''] sample_query" by code_simp
  moreover have "parseTagPredicates (QueryArray sample_query ''tag'') \<noteq> None" by code_simp
  moreover have "status_ok (listing_filter sample_files_env (Some ''x'') sample_query)" by code_simp
  ultimately show ?thesis by (simp add: files_quiet_def sample_files_env_def)
qed

theorem file_listing_complete_witness:
  "map fe_id (fst (follow (files_fetch sample_files_env (Some ''x'') sample_query) 4 '''' sample_files)) = [6, 5, 4]
     \<and> snd (follow (files_fetch sample_files_env (Some ''x'') sample_query) 4 '''' sample_files)"
proof -
  have 1: "codec_ok (fl_codec sample_files_env)" by (simp add: sample_files_env_def sample_codec_ok)
  have 2: "ids_unique (ix_db sample_files)" by code_simp
  have 3: "ids_unique (cp_meanwhile (fl_cp sample_files_env) j c)" if "ids_unique c" for j c using that by (simp add: sample_files_env_def)
  have 4: "length (file_entries (ix_db sample_files)) < 4" by code_simp
  show ?thesis using file_listing_complete[OF 1 2 3, of "Some ''x''" sample_query 4] sample_files_facts sample_files_quiet 4 by simp
qed

end
