(* ===== verification/Requests.thy ===== *)
theory Requests
  imports Collect
begin

text \<open>
  Questions the REST API puts to one agent and waits for: the stores of pending requests (controlplane/internal/dirstore/store.go and
  dryrun/store.go, the same code at two result types), the handlers that ask (\<^verbatim>\<open>ListDir\<close> and \<^verbatim>\<open>TestRule\<close> in
  api/handler/agents.go) and the stream side that answers (grpcserver/handler.go).
\<close>

section \<open>The store\<close>

text \<open>How a waiting handler ends: with a result, because the command could not be sent, or after 30 seconds.\<close>

datatype 'r verdict = VResult 'r | VOffline | VTimeout

text \<open>\<open>Asking\<close> is between registration and sending; \<open>Ending\<close> is before the deferred \<^verbatim>\<open>Cancel\<close>.\<close>

datatype 'r waiter_pc = Asking | Waiting | Ending "'r verdict" | Ended "'r verdict"

text \<open>A handler call with the channel of one element it registered.\<close>

record 'r waiter =
  wr_agent :: string
  wr_id :: string
  wr_chan :: "'r option"
  wr_pc :: "'r waiter_pc"

text \<open>An entry of the map: the agent asked, and the handler call that owns the channel.\<close>

record pending_entry =
  pn_agent :: string
  pn_waiter :: nat

text \<open>A call of \<^verbatim>\<open>Deliver\<close>: the load, the deletion and the send are separate.\<close>

datatype deliver_pc = DLoad | DDelete nat | DPush nat | DEnd bool

record 'r delivery_call =
  dl_agent :: string
  dl_id :: string
  dl_result :: 'r
  dl_pc :: deliver_pc

record 'r store =
  st_map :: "string \<rightharpoonup> pending_entry"
  st_waiters :: "'r waiter list"
  st_delivers :: "'r delivery_call list"

definition set_waiter :: "nat \<Rightarrow> 'r waiter \<Rightarrow> 'r store \<Rightarrow> 'r store" where
  "set_waiter i w s = s\<lparr>st_waiters := (st_waiters s)[i := w]\<rparr>"

definition set_deliver :: "nat \<Rightarrow> deliver_pc \<Rightarrow> 'r store \<Rightarrow> 'r store" where
  "set_deliver j p s = s\<lparr>st_delivers := (st_delivers s)[j := (st_delivers s ! j)\<lparr>dl_pc := p\<rparr>]\<rparr>"

definition Register :: "string \<Rightarrow> string \<Rightarrow> 'r store \<Rightarrow> 'r store" where
  "Register ident a s = s\<lparr>st_map := (st_map s)(ident \<mapsto> \<lparr>pn_agent = a, pn_waiter = length (st_waiters s)\<rparr>),
     st_waiters := st_waiters s @ [\<lparr>wr_agent = a, wr_id = ident, wr_chan = None, wr_pc = Asking\<rparr>]\<rparr>"

definition Cancel :: "string \<Rightarrow> 'r store \<Rightarrow> 'r store" where
  "Cancel ident s = s\<lparr>st_map := (st_map s)(ident := None)\<rparr>"

fun Deliver_step :: "nat \<Rightarrow> 'r delivery_call \<Rightarrow> deliver_pc \<Rightarrow> 'r store \<Rightarrow> 'r store option" where
  "Deliver_step j d DLoad s =
     Some (set_deliver j (case st_map s (dl_id d) of None \<Rightarrow> DEnd False | Some p \<Rightarrow> if pn_agent p \<noteq> dl_agent d then DEnd False else DDelete (pn_waiter p)) s)"
| "Deliver_step j d (DDelete k) s = Some (set_deliver j (DPush k) (Cancel (dl_id d) s))"
| "Deliver_step j d (DPush k) s =
     (let w = st_waiters s ! k
      in Some (set_deliver j (DEnd True) (if wr_chan w = None then set_waiter k (w\<lparr>wr_chan := Some (dl_result d)\<rparr>) s else s)))"
| "Deliver_step j d (DEnd b) s = None"

text \<open>What a handler does next; \<open>sent\<close> is the answer of the registry, \<open>expired\<close> the choice of the select when both arms are ready.\<close>

fun waiter_step :: "nat \<Rightarrow> bool \<Rightarrow> bool \<Rightarrow> 'r waiter \<Rightarrow> 'r waiter_pc \<Rightarrow> 'r store \<Rightarrow> 'r store option" where
  "waiter_step i sent expired w Asking s = Some (set_waiter i (w\<lparr>wr_pc := (if sent then Waiting else Ending VOffline)\<rparr>) s)"
| "waiter_step i sent expired w Waiting s =
     (if expired then Some (set_waiter i (w\<lparr>wr_pc := Ending VTimeout\<rparr>) s)
      else case wr_chan w of None \<Rightarrow> None | Some r \<Rightarrow> Some (set_waiter i (w\<lparr>wr_chan := None, wr_pc := Ending (VResult r)\<rparr>) s))"
| "waiter_step i sent expired w (Ending v) s = Some (Cancel (wr_id w) (set_waiter i (w\<lparr>wr_pc := Ended v\<rparr>) s))"
| "waiter_step i sent expired w (Ended v) s = None"

datatype 'r ask_action = Ask string string | Answer string string 'r | StepWaiter nat bool bool | StepDeliver nat

text \<open>A request id is a new UUID.\<close>

fun ask_act :: "'r ask_action \<Rightarrow> 'r store \<Rightarrow> 'r store option" where
  "ask_act (Ask ident a) s = (if ident \<in> wr_id ` set (st_waiters s) then None else Some (Register ident a s))"
| "ask_act (Answer a ident r) s = Some (s\<lparr>st_delivers := st_delivers s @ [\<lparr>dl_agent = a, dl_id = ident, dl_result = r, dl_pc = DLoad\<rparr>]\<rparr>)"
| "ask_act (StepWaiter i sent expired) s =
     (if i < length (st_waiters s) then waiter_step i sent expired (st_waiters s ! i) (wr_pc (st_waiters s ! i)) s else None)"
| "ask_act (StepDeliver j) s = (if j < length (st_delivers s) then Deliver_step j (st_delivers s ! j) (dl_pc (st_delivers s ! j)) s else None)"

inductive ask_step :: "'r store \<Rightarrow> 'r store \<Rightarrow> bool" where
  ask_act: "ask_act x s = Some s' \<Longrightarrow> ask_step s s'"

definition ask_init :: "'r store \<Rightarrow> bool" where
  "ask_init s \<longleftrightarrow> st_map s = Map.empty \<and> st_waiters s = [] \<and> st_delivers s = []"

section \<open>Directory listings\<close>

record DirEntry =
  de_name :: string
  de_path :: string
  de_is_dir :: bool
  de_entry_size :: "int option"
  de_modified :: "string option"

text \<open>An entry as the agent sends it; the modification time already formatted, absent when it is not valid.\<close>

record listing_entry =
  le_name :: string
  le_is_dir :: bool
  le_size :: int
  le_modified :: "string option"

record directory_listing =
  dg_request :: string
  dg_path :: string
  dg_error :: string
  dg_entries :: "listing_entry list"

datatype dir_result = DirError string | DirEntries "DirEntry list"

text \<open>\<^verbatim>\<open>path.Join\<close> of two elements.\<close>

definition path_Join :: "string \<Rightarrow> string \<Rightarrow> string" where
  "path_Join a b = (if a = '''' \<and> b = '''' then '''' else if a = '''' then Clean b else if b = '''' then Clean a else Clean (a @ ''/'' @ b))"

definition dir_entry :: "string \<Rightarrow> listing_entry \<Rightarrow> DirEntry" where
  "dir_entry base e = \<lparr>de_name = le_name e, de_path = path_Join base (le_name e), de_is_dir = le_is_dir e,
     de_entry_size = (if le_is_dir e then None else Some (le_size e)), de_modified = le_modified e\<rparr>"

definition listing_result :: "directory_listing \<Rightarrow> dir_result" where
  "listing_result g = (if dg_error g \<noteq> '''' then DirError (dg_error g) else DirEntries (map (dir_entry (dg_path g)) (dg_entries g)))"

definition handleDirectoryListing :: "string \<Rightarrow> directory_listing \<Rightarrow> dir_result ask_action" where
  "handleDirectoryListing a g = Answer a (dg_request g) (listing_result g)"

datatype ask_reply = AskProblem nat string string | DirReply string "DirEntry list" | FilesReply "dry_file list"

text \<open>The checks before a question, with the store and the registry present as the server wires them: the id parses, the body is complete, and the agent is connected here or marked online in Redis.\<close>

definition ask_admitted :: "bool \<Rightarrow> bool \<Rightarrow> bool \<Rightarrow> bool option \<Rightarrow> ask_reply option" where
  "ask_admitted id_ok body_ok inMemory inRedis =
     (if \<not> id_ok then Some (AskProblem 400 ''INVALID_ID'' '''')
      else if \<not> body_ok then Some (AskProblem 400 ''INVALID_REQUEST'' '''')
      else if \<not> inMemory \<and> inRedis \<noteq> Some True then Some (AskProblem 409 ''AGENT_OFFLINE'' '''')
      else None)"

fun ListDir_reply :: "string \<Rightarrow> dir_result verdict \<Rightarrow> ask_reply" where
  "ListDir_reply p (VResult (DirError m)) = AskProblem 502 ''AGENT_ERROR'' m"
| "ListDir_reply p (VResult (DirEntries es)) = DirReply p es"
| "ListDir_reply p VOffline = AskProblem 409 ''AGENT_OFFLINE'' ''''"
| "ListDir_reply p VTimeout = AskProblem 504 ''TIMEOUT'' ''''"

section \<open>Dry runs\<close>

record dry_run_result =
  dr_rule :: string
  dr_error :: string
  dr_files :: "dry_file list"

definition handleDryRunResult :: "string \<Rightarrow> dry_run_result \<Rightarrow> dry_run_result ask_action" where
  "handleDryRunResult a r = Answer a (dr_rule r) r"

definition dry_run_limit :: "int \<Rightarrow> int" where
  "dry_run_limit n = (let m = (if n \<le> 0 then 10 else n) in if 50 < m then 50 else m)"

fun TestRule_reply :: "int \<Rightarrow> dry_run_result verdict \<Rightarrow> ask_reply" where
  "TestRule_reply limit (VResult r) =
     (if dr_error r \<noteq> '''' then AskProblem 422 ''INVALID_PATTERN'' (dr_error r) else FilesReply (take (nat (dry_run_limit limit)) (dr_files r)))"
| "TestRule_reply limit VOffline = AskProblem 409 ''AGENT_OFFLINE'' ''''"
| "TestRule_reply limit VTimeout = AskProblem 504 ''TIMEOUT'' ''''"

section \<open>Who answers a question\<close>

definition from_agent :: "'r delivery_call list \<Rightarrow> 'r waiter \<Rightarrow> 'r \<Rightarrow> bool" where
  "from_agent ds w r \<longleftrightarrow> (\<exists>d\<in>set ds. dl_id d = wr_id w \<and> dl_agent d = wr_agent w \<and> dl_result d = r)"

fun held_result :: "'r waiter_pc \<Rightarrow> 'r option" where
  "held_result (Ending (VResult r)) = Some r"
| "held_result (Ended (VResult r)) = Some r"
| "held_result p = None"

definition waiter_ok :: "'r delivery_call list \<Rightarrow> 'r waiter \<Rightarrow> bool" where
  "waiter_ok ds w \<longleftrightarrow> (\<forall>r. wr_chan w = Some r \<or> held_result (wr_pc w) = Some r \<longrightarrow> from_agent ds w r)"

text \<open>The handler call a delivery has found.\<close>

fun found :: "deliver_pc \<Rightarrow> nat option" where
  "found (DDelete k) = Some k"
| "found (DPush k) = Some k"
| "found p = None"

definition deliver_ok :: "'r waiter list \<Rightarrow> 'r delivery_call \<Rightarrow> bool" where
  "deliver_ok ws d \<longleftrightarrow> (\<forall>k. found (dl_pc d) = Some k \<longrightarrow> k < length ws \<and> wr_id (ws ! k) = dl_id d \<and> wr_agent (ws ! k) = dl_agent d)"

definition entry_ok :: "'r waiter list \<Rightarrow> string \<Rightarrow> pending_entry \<Rightarrow> bool" where
  "entry_ok ws ident p \<longleftrightarrow> pn_waiter p < length ws \<and> wr_id (ws ! pn_waiter p) = ident \<and> wr_agent (ws ! pn_waiter p) = pn_agent p
     \<and> (\<forall>v. wr_pc (ws ! pn_waiter p) \<noteq> Ended v)"

definition ask_inv :: "'r store \<Rightarrow> bool" where
  "ask_inv s \<longleftrightarrow> distinct (map wr_id (st_waiters s)) \<and> (\<forall>w\<in>set (st_waiters s). waiter_ok (st_delivers s) w)
     \<and> (\<forall>d\<in>set (st_delivers s). deliver_ok (st_waiters s) d) \<and> (\<forall>ident p. st_map s ident = Some p \<longrightarrow> entry_ok (st_waiters s) ident p)"

lemma ask_invI:
  assumes "distinct (map wr_id (st_waiters s))" "\<And>w. w \<in> set (st_waiters s) \<Longrightarrow> waiter_ok (st_delivers s) w"
    and "\<And>d. d \<in> set (st_delivers s) \<Longrightarrow> deliver_ok (st_waiters s) d" "\<And>ident p. st_map s ident = Some p \<Longrightarrow> entry_ok (st_waiters s) ident p"
  shows "ask_inv s"
  using assms by (simp add: ask_inv_def)

lemma ask_invD:
  assumes "ask_inv s"
  shows "distinct (map wr_id (st_waiters s))" "w \<in> set (st_waiters s) \<Longrightarrow> waiter_ok (st_delivers s) w"
    "d \<in> set (st_delivers s) \<Longrightarrow> deliver_ok (st_waiters s) d" "st_map s ident = Some p \<Longrightarrow> entry_ok (st_waiters s) ident p"
  using assms by (simp_all add: ask_inv_def)

lemma from_agent_mono: "set (map (\<lambda>d. (dl_id d, dl_agent d, dl_result d)) ds) \<subseteq> set (map (\<lambda>d. (dl_id d, dl_agent d, dl_result d)) ds') \<Longrightarrow>
    from_agent ds w r \<Longrightarrow> from_agent ds' w r"
  by (fastforce simp: from_agent_def image_iff subset_iff)

lemma delivers_same: "j < length ds \<Longrightarrow>
    map (\<lambda>d. (dl_id d, dl_agent d, dl_result d)) (ds[j := (ds ! j)\<lparr>dl_pc := p\<rparr>]) = map (\<lambda>d. (dl_id d, dl_agent d, dl_result d)) ds"
  by (auto simp: map_update intro: list_update_id[THEN sym, THEN trans] simp: list_update_same_conv)

text \<open>A delivery moves on; the map may lose entries.\<close>

lemma inv_deliver:
  assumes inv: "ask_inv s" and j: "j < length (st_delivers s)" and p: "deliver_ok (st_waiters s) ((st_delivers s ! j)\<lparr>dl_pc := p\<rparr>)"
    and m: "\<And>ident e. m ident = Some e \<Longrightarrow> st_map s ident = Some e"
  shows "ask_inv (set_deliver j p (s\<lparr>st_map := m\<rparr>))"
proof (rule ask_invI)
  have same: "set (map (\<lambda>d. (dl_id d, dl_agent d, dl_result d)) (st_delivers (set_deliver j p (s\<lparr>st_map := m\<rparr>)))) = set (map (\<lambda>d. (dl_id d, dl_agent d, dl_result d)) (st_delivers s))"
    using arg_cong[OF delivers_same[OF j, of p], of set] by (simp add: set_deliver_def del: set_map)
  show "waiter_ok (st_delivers (set_deliver j p (s\<lparr>st_map := m\<rparr>))) w" if "w \<in> set (st_waiters (set_deliver j p (s\<lparr>st_map := m\<rparr>)))" for w
    using ask_invD(2)[OF inv, of w] that from_agent_mono[OF equalityD2[OF same]] by (auto simp: waiter_ok_def set_deliver_def)
  show "deliver_ok (st_waiters (set_deliver j p (s\<lparr>st_map := m\<rparr>))) d" if "d \<in> set (st_delivers (set_deliver j p (s\<lparr>st_map := m\<rparr>)))" for d
    using that ask_invD(3)[OF inv] p set_update_subset_insert by (fastforce simp: set_deliver_def)
qed (use ask_invD[OF inv] m in \<open>auto simp: set_deliver_def\<close>)

text \<open>A handler call changes; its identity stays.\<close>

lemma inv_waiter:
  assumes inv: "ask_inv s" and i: "i < length (st_waiters s)" and w: "wr_id w = wr_id (st_waiters s ! i)" "wr_agent w = wr_agent (st_waiters s ! i)"
    and ok: "waiter_ok (st_delivers s) w" and ended: "\<And>v. wr_pc w = Ended v \<Longrightarrow> m (wr_id w) = None" and m: "\<And>ident e. m ident = Some e \<Longrightarrow> st_map s ident = Some e"
  shows "ask_inv (set_waiter i w (s\<lparr>st_map := m\<rparr>))"
proof (rule ask_invI)
  have ids: "map wr_id ((st_waiters s)[i := w]) = map wr_id (st_waiters s)" using i w(1) by (simp add: map_update list_update_same_conv)
  have nth: "wr_id ((st_waiters s)[i := w] ! k) = wr_id (st_waiters s ! k)" "wr_agent ((st_waiters s)[i := w] ! k) = wr_agent (st_waiters s ! k)" for k
    using w i by (cases "k = i"; simp)+
  show "distinct (map wr_id (st_waiters (set_waiter i w (s\<lparr>st_map := m\<rparr>))))" using ask_invD(1)[OF inv] ids by (simp add: set_waiter_def)
  show "waiter_ok (st_delivers (set_waiter i w (s\<lparr>st_map := m\<rparr>))) u" if "u \<in> set (st_waiters (set_waiter i w (s\<lparr>st_map := m\<rparr>)))" for u
    using that ask_invD(2)[OF inv] ok set_update_subset_insert by (fastforce simp: set_waiter_def)
  show "deliver_ok (st_waiters (set_waiter i w (s\<lparr>st_map := m\<rparr>))) d" if "d \<in> set (st_delivers (set_waiter i w (s\<lparr>st_map := m\<rparr>)))" for d
    using that ask_invD(3)[OF inv] by (simp add: set_waiter_def deliver_ok_def nth)
  show "entry_ok (st_waiters (set_waiter i w (s\<lparr>st_map := m\<rparr>))) ident p" if "st_map (set_waiter i w (s\<lparr>st_map := m\<rparr>)) ident = Some p" for ident p
  proof -
    have mp: "m ident = Some p" using that by (simp add: set_waiter_def)
    have e: "entry_ok (st_waiters s) ident p" using ask_invD(4)[OF inv m[OF mp]] .
    have "wr_pc w \<noteq> Ended v" if "pn_waiter p = i" for v using e that ended[of v] mp w(1) by (auto simp: entry_ok_def)
    then show ?thesis using e i w by (cases "pn_waiter p = i") (auto simp: entry_ok_def set_waiter_def)
  qed
qed

lemma ask_act_inv:
  assumes inv: "ask_inv s" and act: "ask_act x s = Some s'"
  shows "ask_inv s'"
proof (cases x)
  case (Ask ident a)
  let ?w = "\<lparr>wr_agent = a, wr_id = ident, wr_chan = None, wr_pc = Asking\<rparr>"
  have new: "ident \<notin> wr_id ` set (st_waiters s)" and s': "s' = Register ident a s" using act Ask by (auto split: if_splits)
  show ?thesis unfolding s'
  proof (rule ask_invI)
    show "distinct (map wr_id (st_waiters (Register ident a s)))" using ask_invD(1)[OF inv] new by (simp add: Register_def)
    show "waiter_ok (st_delivers (Register ident a s)) w" if "w \<in> set (st_waiters (Register ident a s))" for w
      using that ask_invD(2)[OF inv] by (auto simp: Register_def waiter_ok_def)
    show "deliver_ok (st_waiters (Register ident a s)) d" if "d \<in> set (st_delivers (Register ident a s))" for d
      using that ask_invD(3)[OF inv, of d] by (auto simp: Register_def deliver_ok_def nth_append)
    show "entry_ok (st_waiters (Register ident a s)) i p" if "st_map (Register ident a s) i = Some p" for i p
      using that ask_invD(4)[OF inv, of i p] by (auto simp: Register_def entry_ok_def nth_append split: if_splits)
  qed
next
  case (Answer a ident r)
  let ?d = "\<lparr>dl_agent = a, dl_id = ident, dl_result = r, dl_pc = DLoad\<rparr>"
  have "waiter_ok (st_delivers s @ [?d]) w" if "waiter_ok (st_delivers s) w" for w using that by (auto simp: waiter_ok_def from_agent_def)
  moreover have "deliver_ok (st_waiters s) ?d" by (simp add: deliver_ok_def)
  ultimately show ?thesis using act Answer inv by (auto simp: ask_inv_def)
next
  case (StepWaiter i sent expired)
  let ?w = "st_waiters s ! i"
  have i: "i < length (st_waiters s)" and st: "waiter_step i sent expired ?w (wr_pc ?w) s = Some s'" using act StepWaiter by (auto split: if_splits)
  have ok: "waiter_ok (st_delivers s) ?w" using ask_invD(2)[OF inv] i by simp
  have go: "ask_inv (set_waiter i w (s\<lparr>st_map := st_map s\<rparr>))" if "wr_id w = wr_id ?w" "wr_agent w = wr_agent ?w" "waiter_ok (st_delivers s) w" "\<And>v. wr_pc w \<noteq> Ended v" for w
    by (rule inv_waiter[OF inv i]) (use that in auto)
  show ?thesis
  proof (cases "wr_pc ?w")
    case Asking
    then show ?thesis using st ok go[of "?w\<lparr>wr_pc := (if sent then Waiting else Ending VOffline)\<rparr>"] by (auto simp: waiter_ok_def from_agent_def split: if_splits)
  next
    case Waiting
    then show ?thesis using st ok go[of "?w\<lparr>wr_pc := Ending VTimeout\<rparr>"] go[of "?w\<lparr>wr_chan := None, wr_pc := Ending (VResult (the (wr_chan ?w)))\<rparr>"]
      by (auto simp: waiter_ok_def from_agent_def split: if_splits option.splits)
  next
    case (Ending v)
    have held: "held_result (Ended v) = held_result (Ending v)" by (cases v) simp_all
    have "ask_inv (set_waiter i (?w\<lparr>wr_pc := Ended v\<rparr>) (s\<lparr>st_map := (st_map s)(wr_id ?w := None)\<rparr>))"
      by (rule inv_waiter[OF inv i]) (use ok Ending held in \<open>auto simp: waiter_ok_def from_agent_def split: if_splits\<close>)
    moreover have "s\<lparr>st_map := m, st_waiters := ws\<rparr> = s\<lparr>st_waiters := ws, st_map := m\<rparr>" for m ws by (cases s) simp
    ultimately show ?thesis using st Ending by (auto simp: Cancel_def set_waiter_def)
  next
    case (Ended v)
    then show ?thesis using st by simp
  qed
next
  case (StepDeliver j)
  let ?d = "st_delivers s ! j"
  have j: "j < length (st_delivers s)" and st: "Deliver_step j ?d (dl_pc ?d) s = Some s'" using act StepDeliver by (auto split: if_splits)
  have ok: "deliver_ok (st_waiters s) ?d" using ask_invD(3)[OF inv] j by simp
  show ?thesis
  proof (cases "dl_pc ?d")
    case DLoad
    have "ask_inv (set_deliver j (case st_map s (dl_id ?d) of None \<Rightarrow> DEnd False | Some p \<Rightarrow> if pn_agent p \<noteq> dl_agent ?d then DEnd False else DDelete (pn_waiter p)) (s\<lparr>st_map := st_map s\<rparr>))"
      by (rule inv_deliver[OF inv j]) (use ask_invD(4)[OF inv] in \<open>auto simp: deliver_ok_def entry_ok_def split: option.splits\<close>)
    then show ?thesis using st DLoad by simp
  next
    case (DDelete k)
    have "ask_inv (set_deliver j (DPush k) (s\<lparr>st_map := (st_map s)(dl_id ?d := None)\<rparr>))"
      by (rule inv_deliver[OF inv j]) (use ok DDelete in \<open>auto simp: deliver_ok_def split: if_splits\<close>)
    then show ?thesis using st DDelete by (simp add: Cancel_def)
  next
    case (DPush k)
    let ?w = "st_waiters s ! k"
    have k: "k < length (st_waiters s)" "wr_id ?w = dl_id ?d" "wr_agent ?w = dl_agent ?d" using ok DPush by (auto simp: deliver_ok_def)
    have wok: "waiter_ok (st_delivers s) ?w" using ask_invD(2)[OF inv] k(1) by simp
    have here: "from_agent (st_delivers s) u (dl_result ?d)" if "wr_id u = dl_id ?d" "wr_agent u = dl_agent ?d" for u using that j nth_mem by (fastforce simp: from_agent_def)
    have pc: "wr_pc ?w \<noteq> Ended v \<or> st_map s (wr_id ?w) = None" for v
      using ask_invD(4)[OF inv, of "wr_id ?w"] ask_invD(1)[OF inv] k(1)
      by (cases "st_map s (wr_id ?w)") (auto simp: entry_ok_def distinct_conv_nth)
    have "ask_inv (set_waiter k (?w\<lparr>wr_chan := Some (dl_result ?d)\<rparr>) (s\<lparr>st_map := st_map s\<rparr>))"
      by (rule inv_waiter[OF inv k(1)]) (use wok here k pc in \<open>auto simp: waiter_ok_def from_agent_def\<close>)
    then have s1: "ask_inv (if wr_chan ?w = None then set_waiter k (?w\<lparr>wr_chan := Some (dl_result ?d)\<rparr>) s else s)" (is "ask_inv ?s1") using inv by simp
    have "ask_inv (set_deliver j (DEnd True) (?s1\<lparr>st_map := st_map ?s1\<rparr>))"
      by (rule inv_deliver[OF s1]) (use j in \<open>auto simp: set_waiter_def deliver_ok_def\<close>)
    then show ?thesis using st DPush by (simp add: Let_def)
  next
    case (DEnd b)
    then show ?thesis using st by simp
  qed
qed

interpretation ask_system: invariant_system ask_init ask_step ask_inv
proof
  show "ask_inv s" if "ask_init s" for s :: "'r store" using that by (simp add: ask_init_def ask_inv_def)
  show "ask_inv s'" if "ask_inv s" "ask_step s s'" for s s' :: "'r store" using that(2) ask_act_inv[OF that(1)] by (auto elim: ask_step.cases)
qed

text \<open>
  Whatever the interleaving of questions, answers, timeouts and cancellations: a result a handler returns was sent by the agent it asked
  and under its request id, and an entry of the map belongs to a handler that has not returned, so none is left behind.
\<close>

theorem answers_come_from_the_asked_agent:
  assumes "reach ask_init ask_step s"
  shows "(\<forall>w\<in>set (st_waiters s). \<forall>r. held_result (wr_pc w) = Some r \<longrightarrow> from_agent (st_delivers s) w r)
    \<and> (\<forall>ident p. st_map s ident = Some p \<longrightarrow> (\<exists>w\<in>set (st_waiters s). wr_id w = ident \<and> (\<forall>v. wr_pc w \<noteq> Ended v)))"
proof -
  have inv: "ask_inv s" by (rule ask_system.reach_inv[OF assms])
  have "\<exists>w\<in>set (st_waiters s). wr_id w = ident \<and> (\<forall>v. wr_pc w \<noteq> Ended v)" if "st_map s ident = Some p" for ident p
    using ask_invD(4)[OF inv that] nth_mem unfolding entry_ok_def by blast
  then show ?thesis using ask_invD(2)[OF inv] unfolding waiter_ok_def by blast
qed

text \<open>Through the handlers: a listing that is answered 200 is the listing some message of the asked agent carried.\<close>

theorem listing_from_asked_agent:
  assumes "reach ask_init ask_step s" "w \<in> set (st_waiters s)" "wr_pc w = Ended v" "ListDir_reply p v = DirReply p' es"
  shows "p' = p \<and> from_agent (st_delivers s) w (DirEntries es)"
proof -
  have v: "v = VResult (DirEntries es)" "p' = p" using assms(4) by (auto elim: ListDir_reply.elims)
  have "waiter_ok (st_delivers s) w" using ask_invD(2)[OF ask_system.reach_inv[OF assms(1)] assms(2)] .
  then show ?thesis using assms(3) v by (simp add: waiter_ok_def)
qed

end
