(* ===== verification/Retag.thy ===== *)
theory Retag
  imports Files
begin

text \<open>
  Rewriting tags out of band (controlplane/internal/worker/retag.go, retag/spec.go): the outbox of jobs (db/retag.sql.go), the
  statements that fold or set values over many files (db/batchtag_queries.go), and the worker that drains the outbox.
\<close>

section \<open>Tables\<close>

datatype job_status = JobPending | JobRunning | JobDone | JobFailed

record retag_job =
  rj_id :: uuid
  rj_org :: uuid
  rj_kind :: string
  rj_spec :: string
  rj_status :: job_status
  rj_attempts :: int
  rj_affected :: int
  rj_error :: "string option"
  rj_actor :: "uuid option"
  rj_created :: int
  rj_started :: "int option"
  rj_finished :: "int option"

record tag_audit_row =
  au_org :: uuid
  au_entry :: uuid
  au_key :: string
  au_old :: "string option"
  au_new :: "string option"
  au_action :: string
  au_actor :: "uuid option"
  au_source :: string

text \<open>Of the review queue only the ids and organisations matter here.\<close>

record retag_db =
  rt_jobs :: "retag_job list"
  rt_cat :: catalog
  rt_audit :: "tag_audit_row list"
  rt_queue :: "(uuid \<times> uuid) list"

type_synonym 'a retag_stmt = "int \<Rightarrow> retag_db \<Rightarrow> (db_error + 'a) \<times> retag_db"

definition oldest_pending :: "retag_job list \<Rightarrow> retag_job option" where
  "oldest_pending jobs = (case order_by rj_created (select_where (\<lambda>j. rj_status j = JobPending) jobs) of [] \<Rightarrow> None | j # js \<Rightarrow> Some j)"

definition set_job :: "uuid \<Rightarrow> (retag_job \<Rightarrow> retag_job) \<Rightarrow> retag_db \<Rightarrow> retag_db" where
  "set_job i f d = d\<lparr>rt_jobs := update_where (\<lambda>j. rj_id j = i) f (rt_jobs d)\<rparr>"

definition claim_row :: "int \<Rightarrow> retag_job \<Rightarrow> retag_job" where
  "claim_row now j = j\<lparr>rj_status := JobRunning, rj_started := Some now, rj_attempts := rj_attempts j + 1\<rparr>"

definition ClaimNextRetagJob :: "retag_job retag_stmt" where
  "ClaimNextRetagJob now d =
     (case oldest_pending (rt_jobs d) of
        None \<Rightarrow> (Inl ErrNoRows, d)
      | Some j \<Rightarrow> (Inr (claim_row now j), set_job (rj_id j) (claim_row now) d))"

definition MarkRetagJobDone :: "uuid \<Rightarrow> int \<Rightarrow> unit retag_stmt" where
  "MarkRetagJobDone i n now d = (Inr (), set_job i (\<lambda>j. j\<lparr>rj_status := JobDone, rj_affected := n, rj_finished := Some now\<rparr>) d)"

definition MarkRetagJobFailed :: "uuid \<Rightarrow> string \<Rightarrow> unit retag_stmt" where
  "MarkRetagJobFailed i m now d = (Inr (), set_job i (\<lambda>j. j\<lparr>rj_status := JobFailed, rj_error := Some m, rj_finished := Some now\<rparr>) d)"

definition RequeueRunningRetagJobs :: "nat retag_stmt" where
  "RequeueRunningRetagJobs now d =
     (Inr (count_where (\<lambda>j. rj_status j = JobRunning) (rt_jobs d)),
      d\<lparr>rt_jobs := update_where (\<lambda>j. rj_status j = JobRunning) (\<lambda>j. j\<lparr>rj_status := JobPending, rj_started := None\<rparr>) (rt_jobs d)\<rparr>)"

definition DeletePendingTagValue :: "uuid \<Rightarrow> uuid \<Rightarrow> nat retag_stmt" where
  "DeletePendingTagValue i org now d =
     (Inr (count_where (\<lambda>q. q = (i, org)) (rt_queue d)), d\<lparr>rt_queue := delete_where (\<lambda>q. q = (i, org)) (rt_queue d)\<rparr>)"

section \<open>Tag rewrites\<close>

text \<open>The tags a merge rewrites: of files of the organisation, under the key, with the old value.\<close>

definition merge_hits :: "uuid \<Rightarrow> string \<Rightarrow> string \<Rightarrow> catalog \<Rightarrow> file_tag \<Rightarrow> bool" where
  "merge_hits org k from c t \<longleftrightarrow> tag_key t = k \<and> tag_value t = from \<and> exists_where (\<lambda>r. fe_id r = tag_entry t \<and> fe_org r = org) (file_entries c)"

definition merge_key :: "uuid \<Rightarrow> uuid \<Rightarrow> catalog \<Rightarrow> string option" where
  "merge_key i org c = map_option tk_key (List.find (\<lambda>r. tk_id r = i \<and> tk_org r = org) (tag_keys c))"

definition MergeTagValue :: "uuid \<Rightarrow> uuid \<Rightarrow> string \<Rightarrow> string \<Rightarrow> uuid option \<Rightarrow> nat retag_stmt" where
  "MergeTagValue org keyID from to actor now d =
     (case merge_key keyID org (rt_cat d) of
        None \<Rightarrow> (Inr 0, d)
      | Some k \<Rightarrow>
          (let hit = merge_hits org k from (rt_cat d); ts = file_tags (rt_cat d)
           in (Inr (count_where hit ts),
               d\<lparr>rt_cat := (rt_cat d)\<lparr>file_tags := update_where hit (\<lambda>t. t\<lparr>tag_value := to\<rparr>) ts\<rparr>,
                 rt_audit := rt_audit d @ map (\<lambda>t. \<lparr>au_org = org, au_entry = tag_entry t, au_key = k, au_old = Some from, au_new = Some to, au_action = ''merge'',
                   au_actor = actor, au_source = ''retro''\<rparr>) (select_where hit ts)\<rparr>)))"

definition selection :: "file_filter \<Rightarrow> catalog \<Rightarrow> uuid list" where
  "selection f c = map fe_id (select_where (entry_matches f c) (file_entries c))"

definition tag_row :: "uuid \<Rightarrow> string \<Rightarrow> file_tag list \<Rightarrow> file_tag option" where
  "tag_row i k ts = List.find (\<lambda>t. tag_entry t = i \<and> tag_key t = k) ts"

text \<open>A file changes when it lacks the tag or its value or source differs.\<close>

definition set_changes :: "string \<Rightarrow> string \<Rightarrow> file_tag list \<Rightarrow> uuid \<Rightarrow> bool" where
  "set_changes k v ts i \<longleftrightarrow> (case tag_row i k ts of None \<Rightarrow> True | Some t \<Rightarrow> tag_value t \<noteq> v \<or> tag_source t \<noteq> ''manual'')"

definition set_tags :: "string \<Rightarrow> string \<Rightarrow> uuid list \<Rightarrow> file_tag list \<Rightarrow> file_tag list" where
  "set_tags k v sel ts =
     update_where (\<lambda>t. tag_entry t \<in> set sel \<and> tag_key t = k) (\<lambda>t. t\<lparr>tag_value := v, tag_source := ''manual''\<rparr>) ts
     @ map (\<lambda>i. \<lparr>tag_entry = i, tag_key = k, tag_value = v, tag_source = ''manual''\<rparr>) (filter (\<lambda>i. tag_row i k ts = None) sel)"

definition BatchSetFileTag :: "file_filter \<Rightarrow> string \<Rightarrow> string \<Rightarrow> uuid option \<Rightarrow> nat retag_stmt" where
  "BatchSetFileTag f k v actor now d =
     (let c = rt_cat d; ts = file_tags c; sel = selection f c; changed = filter (set_changes k v ts) sel
      in (Inr (length changed),
          d\<lparr>rt_cat := c\<lparr>file_tags := set_tags k v sel ts\<rparr>,
            rt_audit := rt_audit d @ map (\<lambda>i. \<lparr>au_org = ff_org f, au_entry = i, au_key = k, au_old = map_option tag_value (tag_row i k ts), au_new = Some v,
              au_action = ''set'', au_actor = actor, au_source = ''manual''\<rparr>) changed\<rparr>))"

definition BatchClearFileTag :: "file_filter \<Rightarrow> string \<Rightarrow> uuid option \<Rightarrow> nat retag_stmt" where
  "BatchClearFileTag f k actor now d =
     (let c = rt_cat d; ts = file_tags c; gone = (\<lambda>t. tag_entry t \<in> set (selection f c) \<and> tag_key t = k)
      in (Inr (count_where gone ts),
          d\<lparr>rt_cat := c\<lparr>file_tags := delete_where gone ts\<rparr>,
            rt_audit := rt_audit d @ map (\<lambda>t. \<lparr>au_org = ff_org f, au_entry = tag_entry t, au_key = k, au_old = Some (tag_value t), au_new = None,
              au_action = ''clear'', au_actor = actor, au_source = ''manual''\<rparr>) (select_where gone ts)\<rparr>))"

section \<open>The worker\<close>

text \<open>Causes of failures are recorded without their formatted arguments.\<close>

record merge_spec =
  ms_key :: uuid
  ms_from :: string
  ms_to :: string
  ms_pending :: uuid

record batch_filter =
  bf_agent :: string
  bf_bucket :: string
  bf_type :: string
  bf_status :: string
  bf_tags :: "(string \<times> string) list"

text \<open>The tags by key; \<open>None\<close> clears.\<close>

record batch_spec =
  bs_filter :: batch_filter
  bs_tags :: "(string \<times> string option) list"

text \<open>
  The outside, by the number of the statement: faults, commits of other sessions, the clock, and whether the context is cancelled; then the
  decoding of specifications and package uuid.
\<close>

record retag_env =
  rw_stmt_fault :: "nat \<Rightarrow> db_fault option"
  rw_others :: "nat \<Rightarrow> retag_db \<Rightarrow> retag_db"
  rw_clock :: "nat \<Rightarrow> int"
  rw_cancelled :: "nat \<Rightarrow> bool"
  rw_merge_spec :: "string \<Rightarrow> merge_spec option"
  rw_batch_spec :: "string \<Rightarrow> batch_spec option"
  rw_uuid :: "string \<Rightarrow> uuid option"

record retag_session =
  rx_db :: retag_db
  rx_stmt :: nat

definition retag_sql :: "retag_env \<Rightarrow> 'a retag_stmt \<Rightarrow> retag_session \<Rightarrow> (db_error + 'a) \<times> retag_session" where
  "retag_sql e st s =
     (let k = rx_stmt s; d = rw_others e k (rx_db s); (r, d') = st (rw_clock e k) d
      in case rw_stmt_fault e k of
           Some (Refused m) \<Rightarrow> (Inl (DriverError m), s\<lparr>rx_db := d, rx_stmt := Suc k\<rparr>)
         | Some (AnswerLost m) \<Rightarrow> (Inl (DriverError m), s\<lparr>rx_db := d', rx_stmt := Suc k\<rparr>)
         | None \<Rightarrow> (r, s\<lparr>rx_db := d', rx_stmt := Suc k\<rparr>))"

definition stopping :: "retag_env \<Rightarrow> retag_session \<Rightarrow> bool" where
  "stopping e s = rw_cancelled e (rx_stmt s)"

definition fail_job :: "retag_env \<Rightarrow> retag_job \<Rightarrow> string \<Rightarrow> retag_session \<Rightarrow> retag_session" where
  "fail_job e job cause s = (if stopping e s then s else snd (retag_sql e (MarkRetagJobFailed (rj_id job) cause) s))"

definition clampInt32 :: "int \<Rightarrow> int" where
  "clampInt32 n = (if 2 ^ 31 - 1 < n then 2 ^ 31 - 1 else n)"

definition finish_job :: "retag_env \<Rightarrow> retag_job \<Rightarrow> int \<Rightarrow> retag_session \<Rightarrow> retag_session" where
  "finish_job e job n s =
     (case retag_sql e (MarkRetagJobDone (rj_id job) (clampInt32 n)) s of
        (Inl err, s1) \<Rightarrow> fail_job e job ''applied but marking job done failed'' s1
      | (Inr u, s1) \<Rightarrow> s1)"

definition runMerge :: "retag_env \<Rightarrow> retag_job \<Rightarrow> retag_session \<Rightarrow> retag_session" where
  "runMerge e job s =
     (case rw_merge_spec e (rj_spec job) of
        None \<Rightarrow> fail_job e job ''decode merge spec'' s
      | Some sp \<Rightarrow>
          (case retag_sql e (MergeTagValue (rj_org job) (ms_key sp) (ms_from sp) (ms_to sp) (rj_actor job)) s of
             (Inl err, s1) \<Rightarrow> fail_job e job ''merge tag value'' s1
           | (Inr n, s1) \<Rightarrow> finish_job e job (int n) (snd (retag_sql e (DeletePendingTagValue (ms_pending sp) (rj_org job)) s1))))"

definition parse_null_uuid :: "retag_env \<Rightarrow> string \<Rightarrow> uuid option option" where
  "parse_null_uuid e v = (if v = '''' then Some None else map_option Some (rw_uuid e v))"

definition batchFilter :: "retag_env \<Rightarrow> uuid \<Rightarrow> batch_filter \<Rightarrow> file_filter option" where
  "batchFilter e org f =
     (case (parse_null_uuid e (bf_agent f), parse_null_uuid e (bf_bucket f), parse_null_uuid e (bf_type f)) of
        (Some a, Some b, Some t) \<Rightarrow>
          if bf_status f \<in> {'''', ''uploading'', ''completed'', ''failed'', ''deleted''}
          then Some \<lparr>ff_org = org, ff_agent = a, ff_bucket = b, ff_type = t, ff_status = (if bf_status f = '''' then None else Some (bf_status f)), ff_tags = bf_tags f\<rparr>
          else None
      | _ \<Rightarrow> None)"

definition apply_key :: "file_filter \<Rightarrow> uuid option \<Rightarrow> string \<Rightarrow> string option \<Rightarrow> nat retag_stmt" where
  "apply_key f actor k v = (case v of None \<Rightarrow> BatchClearFileTag f k actor | Some x \<Rightarrow> BatchSetFileTag f k x actor)"

text \<open>The keys in order; the first that fails ends the batch.\<close>

fun apply_keys :: "retag_env \<Rightarrow> file_filter \<Rightarrow> uuid option \<Rightarrow> (string \<times> string option) list \<Rightarrow> int \<Rightarrow> retag_session \<Rightarrow> int option \<times> retag_session" where
  "apply_keys e f actor [] n s = (Some n, s)"
| "apply_keys e f actor ((k, v) # kvs) n s =
     (case retag_sql e (apply_key f actor k v) s of
        (Inl err, s1) \<Rightarrow> (None, s1)
      | (Inr m, s1) \<Rightarrow> apply_keys e f actor kvs (n + int m) s1)"

definition runBatchTag :: "retag_env \<Rightarrow> retag_job \<Rightarrow> retag_session \<Rightarrow> retag_session" where
  "runBatchTag e job s =
     (case rw_batch_spec e (rj_spec job) of
        None \<Rightarrow> fail_job e job ''decode batch_tag spec'' s
      | Some sp \<Rightarrow>
          (case batchFilter e (rj_org job) (bs_filter sp) of
             None \<Rightarrow> fail_job e job ''batch_tag filter'' s
           | Some f \<Rightarrow>
               (case apply_keys e f (rj_actor job) (order_by fst (bs_tags sp)) 0 s of
                  (None, s1) \<Rightarrow> fail_job e job ''batch_tag apply key'' s1
                | (Some n, s1) \<Rightarrow> finish_job e job n s1)))"

definition runJob :: "retag_env \<Rightarrow> retag_job \<Rightarrow> retag_session \<Rightarrow> retag_session" where
  "runJob e job s =
     (if rj_kind job = ''merge'' then runMerge e job s
      else if rj_kind job = ''batch_tag'' then runBatchTag e job s
      else fail_job e job ''unknown retag job kind'' s)"

text \<open>The loop ends when the outbox is empty, a claim fails or the context is cancelled; jobs may arrive meanwhile.\<close>

partial_function (option) DrainOnce :: "retag_env \<Rightarrow> nat \<Rightarrow> retag_session \<Rightarrow> (nat \<times> retag_session) option" where
  "DrainOnce e n s =
     (if stopping e s then Some (n, s)
      else case retag_sql e ClaimNextRetagJob s of
             (Inl err, s1) \<Rightarrow> Some (n, s1)
           | (Inr job, s1) \<Rightarrow> DrainOnce e (Suc n) (runJob e job s1))"

declare DrainOnce.simps [code]

definition requeueStale :: "retag_env \<Rightarrow> retag_session \<Rightarrow> retag_session" where
  "requeueStale e s = snd (retag_sql e RequeueRunningRetagJobs s)"

text \<open>The start of the worker, up to its first tick.\<close>

definition Run_start :: "retag_env \<Rightarrow> retag_session \<Rightarrow> (nat \<times> retag_session) option" where
  "Run_start e s = DrainOnce e 0 (requeueStale e s)"

end
