(* ===== verification/Retag_Laws.thy ===== *)
theory Retag_Laws
  imports Retag
begin

text \<open>
  What the retag worker promises: draining ends, a restart leaves no job unsettled, a merge made again does nothing; and a batch that is
  not what its specification says.
\<close>

section \<open>Draining ends\<close>

definition pending_jobs :: "retag_db \<Rightarrow> nat" where
  "pending_jobs d = count_where (\<lambda>j. rj_status j = JobPending) (rt_jobs d)"

text \<open>Other sessions settle jobs but add none.\<close>

definition no_new_jobs :: "retag_env \<Rightarrow> bool" where
  "no_new_jobs e \<longleftrightarrow> (\<forall>k d. pending_jobs (rw_others e k d) \<le> pending_jobs d)"

definition adds_none :: "'a retag_stmt \<Rightarrow> bool" where
  "adds_none st \<longleftrightarrow> (\<forall>now d. pending_jobs (snd (st now d)) \<le> pending_jobs d)"

lemma count_where_update_le:
  assumes "\<And>x. Q x \<Longrightarrow> P (f x) \<Longrightarrow> P x"
  shows "count_where P (update_where Q f t) \<le> count_where P t"
  using assms by (induction t) (auto simp: update_where_def count_where_def)

lemma adds_none_set_job:
  assumes "\<And>j. rj_status (f j) \<noteq> JobPending"
  shows "pending_jobs (set_job i f d) \<le> pending_jobs d"
  using assms by (auto simp: pending_jobs_def set_job_def intro: count_where_update_le)

lemma adds_none_marks [simp]: "adds_none (MarkRetagJobDone i n)" "adds_none (MarkRetagJobFailed i m)"
  unfolding adds_none_def MarkRetagJobDone_def MarkRetagJobFailed_def by (auto intro!: adds_none_set_job)

lemma adds_none_rewrites [simp]:
  "adds_none (DeletePendingTagValue i org)" "adds_none (MergeTagValue org k from to actor)" "adds_none (apply_key f actor key v)"
  by (auto simp: adds_none_def pending_jobs_def DeletePendingTagValue_def MergeTagValue_def apply_key_def BatchClearFileTag_def BatchSetFileTag_def Let_def split: option.splits)

lemma adds_none_claim: "adds_none ClaimNextRetagJob"
  unfolding adds_none_def ClaimNextRetagJob_def by (auto simp: claim_row_def split: option.splits intro!: adds_none_set_job)

lemma sql_adds_none:
  assumes "no_new_jobs e" "adds_none st"
  shows "pending_jobs (rx_db (snd (retag_sql e st s))) \<le> pending_jobs (rx_db s)"
proof -
  let ?d = "rw_others e (rx_stmt s) (rx_db s)"
  have "pending_jobs (snd (st (rw_clock e (rx_stmt s)) ?d)) \<le> pending_jobs ?d" "pending_jobs ?d \<le> pending_jobs (rx_db s)"
    using assms by (simp_all add: adds_none_def no_new_jobs_def)
  then show ?thesis by (auto simp: retag_sql_def Let_def split: prod.splits option.splits db_fault.splits)
qed

lemma claim_takes_one:
  assumes "no_new_jobs e" "retag_sql e ClaimNextRetagJob s = (Inr job, s1)"
  shows "pending_jobs (rx_db s1) < pending_jobs (rx_db s)"
proof -
  let ?d = "rw_others e (rx_stmt s) (rx_db s)"
  obtain j where j: "oldest_pending (rt_jobs ?d) = Some j" and s1: "rx_db s1 = set_job (rj_id j) (claim_row (rw_clock e (rx_stmt s))) ?d"
    using assms(2) by (auto simp: retag_sql_def ClaimNextRetagJob_def Let_def split: prod.splits option.splits db_fault.splits)
  have in_set: "j \<in> set (select_where (\<lambda>j. rj_status j = JobPending) (rt_jobs ?d))"
    using j set_order_by[of rj_created "select_where (\<lambda>j. rj_status j = JobPending) (rt_jobs ?d)"] by (auto simp: oldest_pending_def split: list.splits)
  have less: "count_where P (update_where (\<lambda>x. rj_id x = rj_id j) (claim_row now) t) < count_where P t" if "j \<in> set t" "P j" "\<And>x. \<not> P (claim_row now x)" for P now t
    using that(1)
  proof (induction t)
    case (Cons a t)
    have "count_where P (update_where (\<lambda>x. rj_id x = rj_id j) (claim_row now) t) \<le> count_where P t" using that(3) by (auto intro: count_where_update_le)
    then show ?case using Cons that(2,3) by (auto simp: update_where_def count_where_def)
  qed simp
  have "pending_jobs (rx_db s1) < pending_jobs ?d"
    unfolding s1 pending_jobs_def set_job_def by (simp, rule less) (use in_set in \<open>auto simp: claim_row_def sql_simps\<close>)
  then show ?thesis using assms(1) by (simp add: no_new_jobs_def less_le_trans)
qed

lemma fail_job_adds_none: "no_new_jobs e \<Longrightarrow> pending_jobs (rx_db (fail_job e job m s)) \<le> pending_jobs (rx_db s)"
  by (simp add: fail_job_def sql_adds_none)

lemma finish_job_adds_none:
  assumes "no_new_jobs e"
  shows "pending_jobs (rx_db (finish_job e job n s)) \<le> pending_jobs (rx_db s)"
  using sql_adds_none[OF assms, of "MarkRetagJobDone (rj_id job) (clampInt32 n)" s]
  by (auto simp: finish_job_def split: prod.splits sum.splits intro!: order_trans[OF fail_job_adds_none[OF assms]])

lemma apply_keys_adds_none:
  assumes "no_new_jobs e"
  shows "pending_jobs (rx_db (snd (apply_keys e f actor kvs n s))) \<le> pending_jobs (rx_db s)"
proof (induction kvs arbitrary: n s)
  case (Cons kv kvs)
  obtain k v where kv: "kv = (k, v)" by (cases kv)
  obtain r s1 where r: "retag_sql e (apply_key f actor k v) s = (r, s1)" by force
  have "pending_jobs (rx_db s1) \<le> pending_jobs (rx_db s)" using sql_adds_none[OF assms, of "apply_key f actor k v" s] r by simp
  then show ?case using Cons.IH[of _ s1] kv r by (cases r) (auto intro: order_trans)
qed simp

lemma runJob_adds_none:
  assumes n: "no_new_jobs e"
  shows "pending_jobs (rx_db (runJob e job s)) \<le> pending_jobs (rx_db s)"
proof -
  note le = fail_job_adds_none[OF n] finish_job_adds_none[OF n]
  have merge: "pending_jobs (rx_db (runMerge e job s)) \<le> pending_jobs (rx_db s)"
  proof (cases "rw_merge_spec e (rj_spec job)")
    case (Some sp)
    obtain r s1 where r: "retag_sql e (MergeTagValue (rj_org job) (ms_key sp) (ms_from sp) (ms_to sp) (rj_actor job)) s = (r, s1)" by force
    have "pending_jobs (rx_db s1) \<le> pending_jobs (rx_db s)"
      using sql_adds_none[OF n, of "MergeTagValue (rj_org job) (ms_key sp) (ms_from sp) (ms_to sp) (rj_actor job)" s] r by simp
    moreover have "pending_jobs (rx_db (snd (retag_sql e (DeletePendingTagValue (ms_pending sp) (rj_org job)) s1))) \<le> pending_jobs (rx_db s1)"
      by (rule sql_adds_none[OF n]) simp
    ultimately show ?thesis using Some r by (cases r) (auto simp: runMerge_def intro!: order_trans[OF le(1)] order_trans[OF le(2)])
  qed (simp add: runMerge_def le)
  have batch: "pending_jobs (rx_db (runBatchTag e job s)) \<le> pending_jobs (rx_db s)"
  proof (cases "rw_batch_spec e (rj_spec job)")
    case (Some sp)
    note sp = Some
    show ?thesis
    proof (cases "batchFilter e (rj_org job) (bs_filter sp)")
      case (Some f)
      obtain r s1 where r: "apply_keys e f (rj_actor job) (order_by fst (bs_tags sp)) 0 s = (r, s1)" by force
      have "pending_jobs (rx_db s1) \<le> pending_jobs (rx_db s)" using apply_keys_adds_none[OF n, of f "rj_actor job" "order_by fst (bs_tags sp)" 0 s] r by simp
      then show ?thesis using sp Some r by (cases r) (auto simp: runBatchTag_def intro!: order_trans[OF le(1)] order_trans[OF le(2)])
    qed (use sp le in \<open>simp add: runBatchTag_def\<close>)
  qed (use le in \<open>simp add: runBatchTag_def\<close>)
  show ?thesis using merge batch le by (simp add: runJob_def)
qed

text \<open>A drain returns unless others keep adding jobs.\<close>

theorem DrainOnce_returns:
  assumes "no_new_jobs e"
  shows "\<exists>r. DrainOnce e n s = Some r"
proof (induction "pending_jobs (rx_db s)" arbitrary: n s rule: less_induct)
  case less
  obtain r s1 where r: "retag_sql e ClaimNextRetagJob s = (r, s1)" by force
  show ?case
  proof (cases "stopping e s \<or> isl r")
    case True
    then show ?thesis using r by (subst DrainOnce.simps) (auto split: sum.splits)
  next
    case False
    then obtain job where job: "r = Inr job" by (cases r) auto
    have "pending_jobs (rx_db (runJob e job s1)) < pending_jobs (rx_db s)"
      using claim_takes_one[OF assms, of s job s1] runJob_adds_none[OF assms, of job s1] r job by simp
    then show ?thesis using less[of "runJob e job s1" "Suc n"] False r job by (subst DrainOnce.simps) simp
  qed
qed

section \<open>A restart settles every job\<close>

text \<open>The database works, nobody else writes, and the process keeps running.\<close>

definition undisturbed :: "retag_env \<Rightarrow> bool" where
  "undisturbed e \<longleftrightarrow> (\<forall>k. rw_stmt_fault e k = None \<and> \<not> rw_cancelled e k) \<and> (\<forall>k d. rw_others e k d = d)"

lemma sql_undisturbed:
  assumes "undisturbed e"
  shows "retag_sql e st s = (fst (st (rw_clock e (rx_stmt s)) (rx_db s)), s\<lparr>rx_db := snd (st (rw_clock e (rx_stmt s)) (rx_db s)), rx_stmt := Suc (rx_stmt s)\<rparr>)"
  using assms by (simp add: undisturbed_def retag_sql_def Let_def split: prod.splits)

lemma jobs_of_rewrites [simp]:
  "rt_jobs (snd (DeletePendingTagValue i org now d)) = rt_jobs d" "rt_jobs (snd (MergeTagValue org k from to actor now d)) = rt_jobs d"
  "rt_jobs (snd (apply_key f actor key v now d)) = rt_jobs d"
  by (auto simp: DeletePendingTagValue_def MergeTagValue_def apply_key_def BatchClearFileTag_def BatchSetFileTag_def Let_def split: option.splits)

text \<open>The jobs after the one with this id was settled.\<close>

definition settled_job :: "uuid \<Rightarrow> retag_job list \<Rightarrow> retag_job list \<Rightarrow> bool" where
  "settled_job i jobs jobs' \<longleftrightarrow> (\<exists>f. (\<forall>j. rj_status (f j) \<in> {JobDone, JobFailed}) \<and> jobs' = update_where (\<lambda>j. rj_id j = i) f jobs)"

lemma fail_job_settles:
  assumes "undisturbed e" "rt_jobs (rx_db s) = jobs"
  shows "settled_job (rj_id job) jobs (rt_jobs (rx_db (fail_job e job m s)))"
proof -
  have "\<not> stopping e s" using assms by (simp add: stopping_def undisturbed_def)
  then show ?thesis using assms(2) unfolding settled_job_def fail_job_def sql_undisturbed[OF assms(1)] MarkRetagJobFailed_def set_job_def
    by (intro exI[of _ "\<lambda>j. j\<lparr>rj_status := JobFailed, rj_error := Some m, rj_finished := Some (rw_clock e (rx_stmt s))\<rparr>"]) simp
qed

lemma finish_job_settles:
  assumes "undisturbed e" "rt_jobs (rx_db s) = jobs"
  shows "settled_job (rj_id job) jobs (rt_jobs (rx_db (finish_job e job n s)))"
  using assms(2) unfolding settled_job_def finish_job_def sql_undisturbed[OF assms(1)] MarkRetagJobDone_def set_job_def
  by (intro exI[of _ "\<lambda>j. j\<lparr>rj_status := JobDone, rj_affected := clampInt32 n, rj_finished := Some (rw_clock e (rx_stmt s))\<rparr>"]) simp

lemma apply_keys_jobs:
  assumes "undisturbed e"
  shows "rt_jobs (rx_db (snd (apply_keys e f actor kvs n s))) = rt_jobs (rx_db s)"
proof (induction kvs arbitrary: n s)
  case (Cons kv kvs)
  then show ?case by (cases kv) (simp add: sql_undisturbed[OF assms] split: sum.splits)
qed simp

lemma runJob_settles:
  assumes q: "undisturbed e"
  shows "settled_job (rj_id job) (rt_jobs (rx_db s)) (rt_jobs (rx_db (runJob e job s)))"
proof -
  note ends = fail_job_settles[OF q] finish_job_settles[OF q]
  have merge: "settled_job (rj_id job) (rt_jobs (rx_db s)) (rt_jobs (rx_db (runMerge e job s)))"
    unfolding runMerge_def sql_undisturbed[OF q] by (auto split: option.splits sum.splits intro!: ends)
  have batch: "settled_job (rj_id job) (rt_jobs (rx_db s)) (rt_jobs (rx_db (runBatchTag e job s)))"
  proof (cases "rw_batch_spec e (rj_spec job)")
    case (Some sp)
    note sp = Some
    show ?thesis
    proof (cases "batchFilter e (rj_org job) (bs_filter sp)")
      case (Some f)
      obtain r s1 where r: "apply_keys e f (rj_actor job) (order_by fst (bs_tags sp)) 0 s = (r, s1)" by force
      have "rt_jobs (rx_db s1) = rt_jobs (rx_db s)" using apply_keys_jobs[OF q, of f "rj_actor job" "order_by fst (bs_tags sp)" 0 s] r by simp
      then show ?thesis using sp Some r by (cases r) (auto simp: runBatchTag_def intro!: ends)
    qed (use sp in \<open>auto simp: runBatchTag_def intro!: ends\<close>)
  qed (auto simp: runBatchTag_def intro!: ends)
  show ?thesis using merge batch by (auto simp: runJob_def intro!: ends)
qed

lemma settled_job_none_running:
  assumes "settled_job i (update_where (\<lambda>j. rj_id j = i) f jobs) jobs'" "\<And>j. rj_id (f j) = rj_id j" "\<forall>j\<in>set jobs. rj_status j \<noteq> JobRunning"
  shows "\<forall>j\<in>set jobs'. rj_status j \<noteq> JobRunning"
proof -
  obtain g where g: "\<forall>j. rj_status (g j) \<in> {JobDone, JobFailed}" and j': "jobs' = update_where (\<lambda>j. rj_id j = i) g (update_where (\<lambda>j. rj_id j = i) f jobs)"
    using assms(1) unfolding settled_job_def by (elim exE conjE)
  have "rj_status (g j) \<noteq> JobRunning" for j using g[rule_format, of j] by auto
  then show ?thesis unfolding j' ball_update_where using assms(2,3) by simp
qed

lemma oldest_pending_None: "oldest_pending jobs = None \<Longrightarrow> j \<in> set jobs \<Longrightarrow> rj_status j \<noteq> JobPending"
  using set_order_by[of rj_created "select_where (\<lambda>j. rj_status j = JobPending) jobs"]
  by (auto simp: oldest_pending_def select_where_def split: list.splits)

lemma undisturbed_no_new: "undisturbed e \<Longrightarrow> no_new_jobs e"
  by (simp add: undisturbed_def no_new_jobs_def)

lemma drain_settles:
  assumes q: "undisturbed e" and "\<forall>j\<in>set (rt_jobs (rx_db s)). rj_status j \<noteq> JobRunning"
  shows "\<exists>m s'. DrainOnce e n s = Some (m, s') \<and> (\<forall>j\<in>set (rt_jobs (rx_db s')). rj_status j \<in> {JobDone, JobFailed})"
  using assms(2)
proof (induction "pending_jobs (rx_db s)" arbitrary: n s rule: less_induct)
  case less
  have go: "\<not> stopping e s" using q by (simp add: stopping_def undisturbed_def)
  let ?now = "rw_clock e (rx_stmt s)"
  show ?case
  proof (cases "oldest_pending (rt_jobs (rx_db s))")
    case None
    then have "retag_sql e ClaimNextRetagJob s = (Inl ErrNoRows, s\<lparr>rx_db := rx_db s, rx_stmt := Suc (rx_stmt s)\<rparr>)"
      by (simp add: sql_undisturbed[OF q] ClaimNextRetagJob_def)
    moreover have "rj_status j \<in> {JobDone, JobFailed}" if "j \<in> set (rt_jobs (rx_db s))" for j
      using less.prems oldest_pending_None[OF None that] that by (cases "rj_status j") auto
    ultimately show ?thesis using go by (subst DrainOnce.simps) auto
  next
    case (Some j)
    let ?s1 = "s\<lparr>rx_db := set_job (rj_id j) (claim_row ?now) (rx_db s), rx_stmt := Suc (rx_stmt s)\<rparr>"
    have claim: "retag_sql e ClaimNextRetagJob s = (Inr (claim_row ?now j), ?s1)" using Some by (simp add: sql_undisturbed[OF q] ClaimNextRetagJob_def)
    let ?s2 = "runJob e (claim_row ?now j) ?s1"
    have "pending_jobs (rx_db ?s2) < pending_jobs (rx_db s)"
      using claim_takes_one[OF undisturbed_no_new[OF q] claim] runJob_adds_none[OF undisturbed_no_new[OF q], of "claim_row ?now j" ?s1] by simp
    moreover have "\<forall>x\<in>set (rt_jobs (rx_db ?s2)). rj_status x \<noteq> JobRunning"
      by (rule settled_job_none_running[OF _ _ less.prems, of "rj_id j" "claim_row ?now"])
        (use runJob_settles[OF q, of "claim_row ?now j" ?s1] in \<open>simp_all add: claim_row_def set_job_def\<close>)
    ultimately show ?thesis using less.hyps[of ?s2 "Suc n"] go claim by (subst DrainOnce.simps) simp
  qed
qed

text \<open>
  Started on any outbox, with a working database and nobody else writing, the worker leaves no job pending or running, also those a
  crash had left running.
\<close>

theorem restart_settles_every_job:
  assumes "undisturbed e"
  shows "\<exists>n s'. Run_start e s = Some (n, s') \<and> (\<forall>j\<in>set (rt_jobs (rx_db s')). rj_status j \<in> {JobDone, JobFailed})"
  unfolding Run_start_def
  by (rule drain_settles[OF assms]) (auto simp: requeueStale_def sql_undisturbed[OF assms] RequeueRunningRetagJobs_def update_where_def)

section \<open>Doing it again\<close>

text \<open>A merge made again rewrites nothing and writes no audit rows.\<close>

definition merged :: "uuid \<Rightarrow> string \<Rightarrow> string \<Rightarrow> string \<Rightarrow> catalog \<Rightarrow> file_tag list" where
  "merged org k from to c = update_where (merge_hits org k from c) (\<lambda>t. t\<lparr>tag_value := to\<rparr>) (file_tags c)"

lemma merged_no_hits:
  assumes "from \<noteq> to" "file_entries c' = file_entries c" "t \<in> set (merged org k from to c)"
  shows "\<not> merge_hits org k from c' t"
proof -
  have "\<forall>x\<in>set (file_tags c). \<not> merge_hits org k from c' (if merge_hits org k from c x then x\<lparr>tag_value := to\<rparr> else x)"
    using assms(1,2) by (simp add: merge_hits_def)
  then have "\<forall>x\<in>set (merged org k from to c). \<not> merge_hits org k from c' x" unfolding merged_def by (subst ball_update_where)
  then show ?thesis using assms(3) by blast
qed

lemma merge_without_hits:
  assumes "merge_key key org (rt_cat d) = Some k" "\<And>t. t \<in> set (file_tags (rt_cat d)) \<Longrightarrow> \<not> merge_hits org k from (rt_cat d) t"
  shows "MergeTagValue org key from to actor now d = (Inr 0, d)"
proof -
  have "filter (merge_hits org k from (rt_cat d)) (file_tags (rt_cat d)) = []" using assms(2) by (simp add: filter_empty_conv)
  moreover have "update_where (merge_hits org k from (rt_cat d)) g (file_tags (rt_cat d)) = file_tags (rt_cat d)" for g
    by (rule update_where_id) (rule assms(2))
  ultimately show ?thesis using assms(1) by (simp add: MergeTagValue_def Let_def count_where_def select_where_def)
qed

theorem merge_again_is_noop:
  assumes "from \<noteq> to"
  shows "MergeTagValue org key from to actor' now' (snd (MergeTagValue org key from to actor now d)) = (Inr 0, snd (MergeTagValue org key from to actor now d))"
proof (cases "merge_key key org (rt_cat d)")
  case (Some k)
  let ?d' = "snd (MergeTagValue org key from to actor now d)"
  have tags: "file_tags (rt_cat ?d') = merged org k from to (rt_cat d)" "file_entries (rt_cat ?d') = file_entries (rt_cat d)" "tag_keys (rt_cat ?d') = tag_keys (rt_cat d)"
    using Some by (simp_all add: MergeTagValue_def Let_def merged_def)
  show ?thesis
  proof (rule merge_without_hits[of _ _ _ k])
    show "merge_key key org (rt_cat ?d') = Some k" using Some tags(3) by (simp add: merge_key_def)
    show "\<not> merge_hits org k from (rt_cat ?d') t" if "t \<in> set (file_tags (rt_cat ?d'))" for t
      using merged_no_hits[OF assms tags(2)] that unfolding tags(1) .
  qed
qed (simp add: MergeTagValue_def)

section \<open>A batch that selects by a tag it sets\<close>

definition site_filter :: batch_filter where
  "site_filter = \<lparr>bf_agent = '''', bf_bucket = '''', bf_type = '''', bf_status = '''', bf_tags = [(''site'', ''a'')]\<rparr>"

definition batch_env :: retag_env where
  "batch_env = \<lparr>rw_stmt_fault = (\<lambda>k. None), rw_others = (\<lambda>k d. d), rw_clock = int, rw_cancelled = (\<lambda>k. False), rw_merge_spec = (\<lambda>v. None),
     rw_batch_spec = (\<lambda>v. Some \<lparr>bs_filter = site_filter, bs_tags = [(''zone'', Some ''c''), (''site'', Some ''b'')]\<rparr>), rw_uuid = (\<lambda>v. None)\<rparr>"

definition batch_job :: retag_job where
  "batch_job = \<lparr>rj_id = 1, rj_org = 1, rj_kind = ''batch_tag'', rj_spec = '''', rj_status = JobPending, rj_attempts = 0, rj_affected = 0, rj_error = None, rj_actor = None,
     rj_created = 0, rj_started = None, rj_finished = None\<rparr>"

definition batch_start :: retag_session where
  "batch_start = \<lparr>rx_db = \<lparr>rt_jobs = [batch_job], rt_cat = \<lparr>buckets = [], collection_rules = [], file_types = [], file_type_rules = [],
     file_entries = [\<lparr>fe_id = 4, fe_org = 1, fe_file_type = None, fe_agent = None, fe_rule = None, fe_bucket = 3, fe_storage_path = ''a'', fe_original_path = None,
       fe_file_name = ''a'', fe_size = 1, fe_sha256 = None, fe_etag = None, fe_content_type = None, fe_mtime = None, fe_status = FileStatusCompleted,
       fe_uploaded_at = None, fe_created_at = 0, fe_updated_at = 0, fe_observed_at = 0, fe_source = '''', fe_event_seq = None, fe_meta_incomplete = False\<rparr>],
     file_tags = [\<lparr>tag_entry = 4, tag_key = ''site'', tag_value = ''a'', tag_source = ''manual''\<rparr>], tag_keys = [], tag_values = [], pending_tag_values = [],
     upload_logs = [], event_cursors = [], event_marks = [], next_uuid = 9\<rparr>, rt_audit = [], rt_queue = []\<rparr>, rx_stmt = 0\<rparr>"

text \<open>
  The keys are applied one after the other, each to the files that match at that moment: a batch that moves the files of a site to
  another site and sets their zone sets no zone, and its job is done.
\<close>

theorem batch_loses_later_keys:
  "map_option (\<lambda>(n, s). (map rj_status (rt_jobs (rx_db s)), map (\<lambda>t. (tag_key t, tag_value t)) (file_tags (rt_cat (rx_db s))))) (Run_start batch_env batch_start)
     = Some ([JobDone], [(''site'', ''b'')])"
  by code_simp

end
