(* ===== verification/Spec2Isabelle.thy ===== *)
theory Spec2Isabelle
  imports Agent_Laws Rule_Laws Collect_Laws Watcher_Bounds Index_Tags Adapter_Laws Registry_Laws Budget Ingest_Laws Engine_Laws Files_Laws Requests Retag_Laws
begin

text \<open>
  \<^bold>\<open>fileagent: a verification development.\<close>

  \<^bold>\<open>The program.\<close>  fileagent collects files on edge machines and stores them in an S3 object store.  An agent
  (\<^verbatim>\<open>agent/\<close>) watches directories according to collection rules, queues upload tasks in a local SQLite
  database, uploads them with short-lived credentials and reports results over gRPC.  A control plane
  (\<^verbatim>\<open>controlplane/\<close>) registers agents, pushes rules and credentials, receives results, follows the object store's own
  event stream, keeps the index of files in PostgreSQL, and serves a REST API.  Both use the path templates of \<^verbatim>\<open>pkg/trollsift\<close>.
  On the agent: watcher or scheduler pick a file up, \<^verbatim>\<open>submitFile\<close> turns it into a task, the executor's
  workers take tasks from the queue and call the uploader through the credential-aware upload function of
  \<^verbatim>\<open>main.go\<close>, results go to the report outbox and are acknowledged by the control plane; abandoned
  multipart uploads go to the abort outbox.  On the control plane: rule requests write the rule table and go through the
  dispatcher to the registry of connections; reports, the filer's stream and the storage webhook all feed the index; its events become
  webhook deliveries.

  \<^bold>\<open>The agent.\<close>
  \<^item> \<open>Prelude\<close>: results, SQL statements as functions on tables, driver-fault oracles, 64-bit wrap-around, and
    the generic locales \<open>key_preserving\<close> and \<open>invariant_system\<close>.
  \<^item> \<open>Queue\<close>, \<open>Queue_Laws\<close>: agent/internal/queue.  A \<open>db\<close> is the five tables; each method is one function from
    a fault oracle and a database to its Go result and the database left behind.
  \<^item> \<open>Executor\<close>, \<open>Executor_Accounting\<close>, \<open>Executor_Laws\<close>: agent/internal/executor.  The state \<open>exec\<close> adds timers and a
    trace to the database; every handler is a function; \<open>exec_step\<close> interleaves them.
  \<^item> \<open>Uploader\<close>, \<open>Uploader_Laws\<close>: agent/internal/uploader, over a store that answers arbitrarily and a file that may
    change between two reads.
  \<^item> \<open>Config\<close>: agent/internal/config.  \<open>Agent\<close>, \<open>Agent_Laws\<close>: agent/internal/credential and the upload path of
    agent/cmd/agent/main.go.
  \<^item> \<open>Trollsift\<close>, \<open>Trollsift_Laws\<close>: pkg/trollsift.
  \<^item> \<open>Collect\<close>, \<open>Rule_Laws\<close>, \<open>Collect_Laws\<close>: agent/internal/scheduler and the rule life cycle, pick-up, object keys
    and dry run of agent/cmd/agent/main.go.
  \<^item> \<open>Watcher\<close>, \<open>Ledger\<close>, \<open>Watcher_Laws\<close>, \<open>Watcher_Timers\<close>, \<open>Watcher_Bounds\<close>: agent/internal/watcher.  The event loop and
    every timer goroutine advance by atomic steps between two acquisitions of a mutex.

  \<^bold>\<open>The control plane\<close> (paths under controlplane/internal).  A \<open>catalog\<close>, an agents table, a \<open>rules_db\<close> or a list of deliveries holds
  the PostgreSQL rows a component touches; between two statements other sessions may commit, and a statement may fail or lose
  its answer.
  \<^item> \<open>Filer\<close>: storage/seaweedfs, translate.go and cursor.go.  \<open>Adapter\<close>, \<open>Adapter_Laws\<close>: adapter.go, readback.go and subscribe.go there and the
    store behind them in cmd/server/main.go.
  \<^item> \<open>Index\<close>, \<open>Index_Laws\<close>, \<open>Index_Tags\<close>: indexer, db/ingest.go, storageevent, and the handling of upload results in grpcserver/handler.go.
  \<^item> \<open>Agents\<close>: agent/manager.go, the agents table and the offline sweeper.  \<open>Registry\<close>, \<open>Registry_Laws\<close>: grpcserver/registry.go,
    \<^verbatim>\<open>Connect\<close> with its goroutines, heartbeats, clean-up and revocation, as the step relation \<open>sv_step\<close>.
  \<^item> \<open>Rules\<close>, \<open>Rules_Laws\<close>: the rule table and the rule handlers of api/handler/agents.go.  \<open>Dispatch\<close>, \<open>Dispatch_Laws\<close>: agent/dispatch.go, whose calls
    interleave with the server.  \<open>Budget\<close>: the byte budget of a snapshot, across both.
  \<^item> \<open>Access\<close>, \<open>Access_Laws\<close>: auth, api/middleware, api/router.go, api/handler/auth.go and the gRPC interceptor.  \<open>Sessions\<close>: session policies, STS
    and the two ways credentials reach an agent.
  \<^item> \<open>Ingest\<close>, \<open>Ingest_Laws\<close>: the storage webhook of api/handler/events.go with its counters and dead letters (webhook_policy.go).
  \<^item> \<open>Engine\<close>, \<open>Engine_Laws\<close>: event/engine.go and webhook.go as interleaved steps of event goroutines and the retry worker, and the event-rule
    handlers of api/handler/events.go.
  \<^item> \<open>Files\<close>, \<open>Files_Laws\<close>: api/handler/files.go, the paged queries of db/read_queries.go and the listing of deliveries.
    \<open>Retag\<close>, \<open>Retag_Laws\<close>: worker/retag.go with its outbox and the statements of db/batchtag_queries.go.
  \<^item> \<open>Requests\<close>: dirstore, dryrun, and the handlers on both sides of them in api/handler/agents.go and grpcserver/handler.go.

  \<^bold>\<open>What is shown for the agent.\<close>  No multipart upload is lost from sight over any interleaving of the executor's handlers,
  driver faults and restarts (\<open>Executor_Accounting\<close>); every reachable queue satisfies its invariant and its
  transactional methods are all-or-nothing (\<open>Queue_Laws\<close>); capacity, retry, recovery and reporting behave as
  documented (\<open>Executor_Laws\<close>); the digest an upload reports is that of the stored object and stale parts are never used
  (\<open>Uploader_Laws\<close>); the newest credentials win and draining the queue ends (\<open>Agent_Laws\<close>); running rules refine
  the rule set sent by the control plane (\<open>Rule_Laws\<close>); object keys, previews and templates agree
  (\<open>Collect_Laws\<close>, \<open>Trollsift_Laws\<close>); the watcher's deliveries refine an abstract claim ledger, its timers are
  accounted for and its map is bounded (\<open>Watcher_Laws\<close>, \<open>Watcher_Timers\<close>, \<open>Watcher_Bounds\<close>).

  \<^bold>\<open>What is shown for the control plane.\<close>  Translated filer events are the difference they make to the object namespace (\<open>Filer\<close>); the persisted
  cursor is a claim of completeness and facts follow the store (\<open>Adapter_Laws\<close>); the latest observation of an object decides
  its row, reports are indexed with their tags, and path tags stay governed (\<open>Index_Laws\<close>, \<open>Index_Tags\<close>); the agents table stays well-formed
  and a token goes only to its owner (\<open>Agents\<close>); the registry never panics, sends in order, and a revocation cuts every stream
  (\<open>Registry_Laws\<close>); rule requests stay in their scope (\<open>Rules_Laws\<close>), rule traffic to an agent is serialised (\<open>Dispatch_Laws\<close>) and
  rules created through the API fit a snapshot (\<open>Budget\<close>); only verified, unrevoked tokens of the right role reach a handler and refresh tokens
  work once (\<open>Access_Laws\<close>); credentials cover the agent's own buckets (\<open>Sessions\<close>); the webhook acknowledges
  only what is settled and frees poison notifications (\<open>Ingest_Laws\<close>); deliveries are attempted a bounded number of times and settle
  (\<open>Engine_Laws\<close>); paged listings miss nothing and repeat nothing (\<open>Files_Laws\<close>); draining the retag
  outbox ends, a restart settles every job and a merge made again does nothing (\<open>Retag_Laws\<close>); an answer handed to a waiting request comes from the agent
  it asked (\<open>Requests\<close>).  Some theorems record what the code does not give,
  each with a concrete run, for example \<open>batch_loses_later_keys\<close>, \<open>late_outcome_undoes_delivery\<close>, \<open>update_bypasses_budget\<close> and \<open>unencodable_body_blocks\<close>.

  \<^bold>\<open>Interfaces.\<close>  \<open>uploader_contract\<close> is what the executor needs of its upload function, interpreted on
  \<open>UploadFile\<close> and on the agent's credential-aware wrapper; \<open>delivery_ledger\<close> is interpreted on the watcher; \<open>rule_engine\<close>, a
  simulation contract, on the agent's rule handlers; \<open>agents_invariant\<close> on the operations of the agent manager; \<open>rules_scope\<close> on the rule
  requests of one agent and organisation; \<open>paged_listing\<close> and its extension \<open>ending_listing\<close> on the listings of files and deliveries;
  \<open>key_preserving\<close> on the row updates of the queue; \<open>invariant_system\<close> on the step relations of the queue, the executor, the server, the dispatcher, the
  event engine and the pending requests.

  \<^bold>\<open>Time, faults, fuel.\<close>  The clock, random choices, answers of the store, of the network and of the file system, and
  driver failures are arguments or oracles, so a theorem about all of them holds for every behaviour of the
  outside.  Loops are structural recursions or \<open>partial_function (option)\<close> with their termination proved
  (\<open>agent_drainQueue_returns\<close>, \<open>enforceCapacity_trims\<close>, \<open>DrainOnce_returns\<close>).  The adapter's \<open>Run\<close>, which the program leaves only when the
  process stops, takes the number of rounds made before that, and its theorems hold for every number; \<open>follow\<close>, a client reading pages, takes the number of
  requests, and \<open>file_listing_complete\<close> says how many are enough.

  \<^bold>\<open>Bookkeeping the code does not keep.\<close>  Calls of the dispatcher remember whether their entry was retired and which commands a snapshot
  missed (\<open>dc_listed\<close>, \<open>dc_retired\<close>, \<open>dc_missed\<close>); the event engine remembers attempts, lost records and late records (\<open>eg_sent\<close>,
  \<open>eg_lost\<close>, \<open>eg_late\<close>).  No step depends on these fields; theorems state their conclusions with them.

  \<^bold>\<open>Third-party code and libraries as parameters.\<close>  TOML and JSON decoding, glob matching (doublestar), cron expressions, package
  time's parsing and formatting, package uuid, SHA-256 and MD5, bcrypt and token signing, the encoding of cursors, the minio client and the STS
  service, Redis, NATS, fsnotify.

  \<^bold>\<open>Not modelled.\<close>  Opening and migrating databases, logging, metrics, process start-up and shutdown plumbing; the
  encrypted token file (cryptographic library calls); gRPC transport and generated protobuf and sqlc code beyond the queries named above; the
  REST handlers not named above, which decode a request around a single query; the control plane's configuration, bootstrap and start-up check of the object store; the web UI, SDKs, deployment
  scripts and the programs under research and test.
\<close>

end
